(* ===== verification/Prelude.thy ===== *)
theory Prelude
  imports Main "HOL-Library.Monad_Syntax" "HOL-Library.Sublist"
begin

text \<open>
  Shared material of the development: byte strings and the \<^verbatim>\<open>str\<close> operations the sources
  use, \<^verbatim>\<open>text_size::TextRange\<close>, the unbounded \<open>loop\<close> of Rust's \<^verbatim>\<open>loop\<close>/\<^verbatim>\<open>while\<close>, and
  the total-correctness predicate \<open>returns\<close> with the rules (collection \<open>wp\<close>) that the
  component proofs are built from.

  A Rust \<^verbatim>\<open>str\<close> is a list of bytes (HOL's \<open>char\<close> is one byte); offsets are byte offsets.
  \<^verbatim>\<open>usize\<close> counters are \<open>nat\<close>: every counter of the modelled code is bounded by the
  length of an in-memory vector, which is below \<^verbatim>\<open>isize::MAX\<close>, so \<^verbatim>\<open>saturating_add(1)\<close>
  never saturates; \<^verbatim>\<open>saturating_sub\<close> is the truncating subtraction of \<open>nat\<close>.
\<close>

named_theorems wp \<open>rules that push \<open>returns\<close> through a computation\<close>
named_theorems ext_intro \<open>rules that extend a parser trace by one operation\<close>
named_theorems diag_simps \<open>projections of diagnostics and labels\<close>


section \<open>Byte strings\<close>

definition is_continuation_byte :: "char \<Rightarrow> bool" where
  "is_continuation_byte c \<longleftrightarrow> 128 \<le> (of_char c :: nat) \<and> (of_char c :: nat) < 192"

text \<open>\<^verbatim>\<open>str::is_char_boundary\<close>.\<close>

definition is_char_boundary :: "string \<Rightarrow> nat \<Rightarrow> bool" where
  "is_char_boundary s i =
     (if i = 0 then True
      else if length s \<le> i then i = length s
      else \<not> is_continuation_byte (s ! i))"

lemma is_char_boundary_ends [simp]:
  "is_char_boundary s 0" "is_char_boundary s (length s)"
  by (simp_all add: is_char_boundary_def)

lemma is_char_boundary_le: "is_char_boundary s i \<Longrightarrow> i \<le> length s"
  by (auto simp: is_char_boundary_def split: if_splits)

text \<open>The bytes from \<open>a\<close> to \<open>b\<close>, and \<^verbatim>\<open>str::get(a..b)\<close>.\<close>

definition list_slice :: "nat \<Rightarrow> nat \<Rightarrow> 'a list \<Rightarrow> 'a list" where
  "list_slice a b xs = take (b - a) (drop a xs)"

definition str_get :: "string \<Rightarrow> nat \<Rightarrow> nat \<Rightarrow> string option" where
  "str_get s a b =
     (if a \<le> b \<and> is_char_boundary s a \<and> is_char_boundary s b then Some (list_slice a b s) else None)"

lemma list_slice_empty [simp]: "list_slice a a xs = []"
  by (simp add: list_slice_def)

lemma list_slice_full [simp]: "list_slice 0 (length xs) xs = xs"
  by (simp add: list_slice_def)

lemma list_slice_append:
  "a \<le> b \<Longrightarrow> b \<le> c \<Longrightarrow> list_slice a b xs @ list_slice b c xs = list_slice a c xs"
proof -
  assume ab: "a \<le> b" and bc: "b \<le> c"
  have "take (c - a) (drop a xs) = take (b - a) (drop a xs) @ take (c - b) (drop (b - a) (drop a xs))"
    using take_add [of "b - a" "c - b" "drop a xs"] ab bc by simp
  then show ?thesis using ab by (simp add: list_slice_def)
qed

lemma list_slice_Suc:
  "a \<le> b \<Longrightarrow> b < length xs \<Longrightarrow> list_slice a (Suc b) xs = list_slice a b xs @ [xs ! b]"
  by (simp add: list_slice_def Suc_diff_le take_Suc_conv_app_nth)

lemma set_list_slice_subset: "set (list_slice a b xs) \<subseteq> set xs"
  by (auto simp: list_slice_def dest: in_set_takeD in_set_dropD)

lemma length_list_slice: "b \<le> length xs \<Longrightarrow> length (list_slice a b xs) = b - a"
  by (simp add: list_slice_def)


section \<open>Text ranges\<close>

text \<open>
  \<^verbatim>\<open>text_size::TextSize\<close> wraps a \<^verbatim>\<open>u32\<close>; the modelled code converts and compares sizes and
  never adds them, so a size is a \<open>nat\<close> and the conversions carry the bound \<open>u32_max\<close>.
\<close>

definition u32_max :: nat where
  "u32_max = 4294967295"

record text_range =
  range_start :: nat
  range_end :: nat

abbreviation text_range :: "nat \<Rightarrow> nat \<Rightarrow> text_range" where
  "text_range a b \<equiv> \<lparr>range_start = a, range_end = b\<rparr>"

definition range_is_empty :: "text_range \<Rightarrow> bool" where
  "range_is_empty r \<longleftrightarrow> range_start r = range_end r"


section \<open>Lists\<close>

text \<open>\<^verbatim>\<open>slice.get(i)\<close>.\<close>

definition get_at :: "'a list \<Rightarrow> nat \<Rightarrow> 'a option" where
  "get_at xs i = (if i < length xs then Some (xs ! i) else None)"

lemma get_at_Some_iff: "get_at xs i = Some x \<longleftrightarrow> i < length xs \<and> xs ! i = x"
  by (auto simp: get_at_def)

lemma get_at_None_iff: "get_at xs i = None \<longleftrightarrow> length xs \<le> i"
  by (auto simp: get_at_def)

text \<open>\<^verbatim>\<open>iter.position(p)\<close>.\<close>

fun position :: "('a \<Rightarrow> bool) \<Rightarrow> 'a list \<Rightarrow> nat option" where
  "position p [] = None"
| "position p (x # xs) = (if p x then Some 0 else map_option Suc (position p xs))"

lemma position_SomeD:
  "position p xs = Some i \<Longrightarrow> i < length xs \<and> p (xs ! i) \<and> (\<forall>j<i. \<not> p (xs ! j))"
proof (induction xs arbitrary: i)
  case (Cons x xs)
  then show ?case
    by (auto simp: less_Suc_eq_0_disj split: if_splits)
qed simp

lemma position_NoneD: "position p xs = None \<Longrightarrow> x \<in> set xs \<Longrightarrow> \<not> p x"
  by (induction xs) (auto split: if_splits)

lemma sorted_append_bound:
  "sorted xs \<Longrightarrow> sorted ys \<Longrightarrow> (\<forall>x\<in>set xs. x \<le> m) \<Longrightarrow> (\<forall>y\<in>set ys. m \<le> y) \<Longrightarrow>
     sorted (xs @ ys)" for m :: "'a::linorder"
  by (auto simp: sorted_append intro: order_trans)


section \<open>Registries\<close>

text \<open>
  A registry is a list of codes with identifiers; its boundary parser searches the list. If
  the list is complete and the identifiers are distinct, the parser inverts the
  identifiers exactly.
\<close>

locale code_registry =
  fixes all_codes :: "'c list" and ident :: "'c \<Rightarrow> 'i"
  assumes complete: "c \<in> set all_codes"
    and distinct_idents: "distinct (map ident all_codes)"
begin

lemma ident_inj: "ident c = ident c' \<Longrightarrow> c = c'"
  using distinct_idents complete by (auto simp: distinct_map inj_on_def)

lemma find_ident: "find (\<lambda>c'. ident c' = v) all_codes = Some c \<longleftrightarrow> ident c = v"
proof
  assume "find (\<lambda>c'. ident c' = v) all_codes = Some c"
  then show "ident c = v" by (auto simp: find_Some_iff)
next
  assume v: "ident c = v"
  have "find (\<lambda>c'. ident c' = v) all_codes \<noteq> None"
    using complete [of c] v by (auto simp: find_None_iff)
  then obtain c' where c': "find (\<lambda>c'. ident c' = v) all_codes = Some c'" by blast
  then have "ident c' = v" by (auto simp: find_Some_iff)
  with v c' show "find (\<lambda>c'. ident c' = v) all_codes = Some c"
    using ident_inj by metis
qed

lemma find_ident_None: "find (\<lambda>c'. ident c' = v) all_codes = None \<longleftrightarrow> (\<forall>c. ident c \<noteq> v)"
  using complete by (auto simp: find_None_iff)

lemma parse_iff:
  "(case find (\<lambda>c'. ident c' = v) all_codes of Some c' \<Rightarrow> Inr c' | None \<Rightarrow> Inl e) = Inr c \<longleftrightarrow>
     ident c = v"
  unfolding find_ident [of v c, symmetric] by (simp split: option.split)

lemma parse_unknown_iff:
  "(case find (\<lambda>c'. ident c' = v) all_codes of Some c' \<Rightarrow> Inr c' | None \<Rightarrow> Inl e) = Inl e' \<longleftrightarrow>
     e = e' \<and> (\<forall>c. ident c \<noteq> v)"
  unfolding find_ident_None [symmetric] by (auto split: option.split)

end


section \<open>Computations that may run out of fuel or not return\<close>

text \<open>
  A computation of type \<open>'a option\<close> gives \<open>None\<close> exactly when it does not return.
  \<open>returns m Q\<close> is total correctness: \<open>m\<close> returns, and its result satisfies \<open>Q\<close>.
\<close>

definition returns :: "'a option \<Rightarrow> ('a \<Rightarrow> bool) \<Rightarrow> bool" where
  "returns m Q \<longleftrightarrow> (\<exists>x. m = Some x \<and> Q x)"

lemma returns_Some [simp]: "returns (Some x) Q \<longleftrightarrow> Q x"
  by (simp add: returns_def)

lemma returns_None [simp]: "\<not> returns None Q"
  by (simp add: returns_def)

lemma returnsE: "returns m Q \<Longrightarrow> (\<And>x. m = Some x \<Longrightarrow> Q x \<Longrightarrow> P) \<Longrightarrow> P"
  by (auto simp: returns_def)

lemma returns_mono: "returns m Q' \<Longrightarrow> (\<And>x. Q' x \<Longrightarrow> Q x) \<Longrightarrow> returns m Q"
  by (auto simp: returns_def)

lemma returns_bind: "returns m (\<lambda>x. returns (f x) Q) \<Longrightarrow> returns (Option.bind m f) Q"
  by (auto simp: returns_def)

lemma returns_if [wp]:
  "(b \<Longrightarrow> returns m Q) \<Longrightarrow> (\<not> b \<Longrightarrow> returns m' Q) \<Longrightarrow> returns (if b then m else m') Q"
  by simp

lemma returns_case_option [wp]:
  "(x = None \<Longrightarrow> returns m Q) \<Longrightarrow> (\<And>y. x = Some y \<Longrightarrow> returns (f y) Q) \<Longrightarrow>
     returns (case x of None \<Rightarrow> m | Some y \<Rightarrow> f y) Q"
  by (cases x) auto

text \<open>
  \<open>loop body s\<close> is Rust's \<^verbatim>\<open>loop\<close>: the body either continues with a new state (\<open>Inl\<close>) or
  leaves the loop with a result (\<open>Inr\<close>). A loop that never breaks is \<open>None\<close>.
\<close>

partial_function (option) loop :: "('s \<Rightarrow> ('s + 'r) option) \<Rightarrow> 's \<Rightarrow> 'r option" where
  "loop body s =
     Option.bind (body s) (\<lambda>r. case r of Inl s' \<Rightarrow> loop body s' | Inr x \<Rightarrow> Some x)"

declare loop.simps [code]

text \<open>
  Total correctness of a loop: an invariant, a measure that decreases whenever the body
  continues, and the post-condition at every exit.
\<close>

lemma loop_returns:
  fixes meas :: "'s \<Rightarrow> nat"
  assumes init: "Inv s"
    and body: "\<And>s. Inv s \<Longrightarrow>
      returns (body s) (\<lambda>r. case r of Inl s' \<Rightarrow> Inv s' \<and> meas s' < meas s | Inr x \<Rightarrow> Q x)"
  shows "returns (loop body s) Q"
  using init
proof (induction "meas s" arbitrary: s rule: less_induct)
  case less
  from body [OF less.prems] obtain r where r: "body s = Some r"
    and post: "case r of Inl s' \<Rightarrow> Inv s' \<and> meas s' < meas s | Inr x \<Rightarrow> Q x"
    by (rule returnsE)
  show ?case
  proof (cases r)
    case (Inl s')
    with post have "returns (loop body s') Q" by (auto intro: less.hyps)
    with r Inl show ?thesis by (subst loop.simps) simp
  next
    case (Inr x)
    with r post show ?thesis by (subst loop.simps) simp
  qed
qed


section \<open>Results that propagate errors\<close>

lemma map_sum_Inr_iff: "map_sum f h x = Inr r \<longleftrightarrow> (\<exists>a. x = Inr a \<and> r = h a)"
  by (cases x) auto

lemma case_sum_Inr_iff: "(case x of Inl f \<Rightarrow> Inl f | Inr a \<Rightarrow> h a) = Inr r \<longleftrightarrow> (\<exists>a. x = Inr a \<and> h a = Inr r)"
  by (cases x) auto

lemmas propagate = map_sum_Inr_iff case_sum_Inr_iff

end
