(* ===== verification/Tokens.thy ===== *)
theory Tokens
  imports Prelude
begin

text \<open>
  The token layer (\<^verbatim>\<open>crates/pure-analyzer-lexer/src/lib.rs\<close>): the terminal kinds in the
  order of the source's \<^verbatim>\<open>repr(u16)\<close> enum, and \<^verbatim>\<open>lex\<close>. The scanner itself is derived by the
  \<^verbatim>\<open>logos\<close> crate, which is not part of the repository: it is the parameter \<open>logos\<close> of \<open>lex\<close>,
  a function from the source text to the spans it yields, each with the matched kind or
  \<open>None\<close> where no rule matches. What the analyzer relies on is the documented behaviour of a
  \<^verbatim>\<open>logos\<close> scanner, \<open>logos_covers\<close>: spans are non-empty, adjacent, start at the beginning,
  end at the end of the text, and lie on character boundaries.
\<close>

section \<open>Token kinds\<close>

datatype (plugins only: code size) token_kind =
    DATE_TIME | STRICT_DATE | LATEST_DATE | PERCENT
  | TILDE | DOLLAR | ARROW | PIPE | AT | NEW_SYMBOL | DOT | COMMA
  | PATH_SEPARATOR | COLON | PAREN_OPEN | PAREN_CLOSE
  | BRACKET_OPEN | BRACKET_CLOSE | EQ | NEQ
  | PLUS | MINUS | STAR | SLASH | LE | LT | GE | GT
  | SEMICOLON | BRACE_OPEN | BRACE_CLOSE
  | ALL_KW | LET_KW | ALL_VERSIONS_KW | ALL_VERSIONS_IN_RANGE_KW | TO_BYTES_KW
  | IDENT | INTEGER | BOOLEAN | STRING
  | HASH_STORE_OPEN | HASH_ISLAND_OPEN | NAV_PATH_BLOCK | ISLAND_END | HASH
  | WHITESPACE | LINE_COMMENT | BLOCK_COMMENT
  | ERROR | ASSIGN

text \<open>The discriminants of the enum, in declaration order.\<close>

primrec token_id :: "token_kind \<Rightarrow> nat" where
  "token_id DATE_TIME = 0" | "token_id STRICT_DATE = 1" | "token_id LATEST_DATE = 2"
| "token_id PERCENT = 3" | "token_id TILDE = 4" | "token_id DOLLAR = 5" | "token_id ARROW = 6"
| "token_id PIPE = 7" | "token_id AT = 8" | "token_id NEW_SYMBOL = 9" | "token_id DOT = 10"
| "token_id COMMA = 11" | "token_id PATH_SEPARATOR = 12" | "token_id COLON = 13"
| "token_id PAREN_OPEN = 14" | "token_id PAREN_CLOSE = 15" | "token_id BRACKET_OPEN = 16"
| "token_id BRACKET_CLOSE = 17" | "token_id EQ = 18" | "token_id NEQ = 19"
| "token_id PLUS = 20" | "token_id MINUS = 21" | "token_id STAR = 22" | "token_id SLASH = 23"
| "token_id LE = 24" | "token_id LT = 25" | "token_id GE = 26" | "token_id GT = 27"
| "token_id SEMICOLON = 28" | "token_id BRACE_OPEN = 29" | "token_id BRACE_CLOSE = 30"
| "token_id ALL_KW = 31" | "token_id LET_KW = 32" | "token_id ALL_VERSIONS_KW = 33"
| "token_id ALL_VERSIONS_IN_RANGE_KW = 34" | "token_id TO_BYTES_KW = 35"
| "token_id IDENT = 36" | "token_id INTEGER = 37" | "token_id BOOLEAN = 38"
| "token_id STRING = 39" | "token_id HASH_STORE_OPEN = 40" | "token_id HASH_ISLAND_OPEN = 41"
| "token_id NAV_PATH_BLOCK = 42" | "token_id ISLAND_END = 43" | "token_id HASH = 44"
| "token_id WHITESPACE = 45" | "token_id LINE_COMMENT = 46" | "token_id BLOCK_COMMENT = 47"
| "token_id ERROR = 48" | "token_id ASSIGN = 49"

definition all_token_kinds :: "token_kind list" where
  "all_token_kinds =
     [DATE_TIME, STRICT_DATE, LATEST_DATE, PERCENT, TILDE, DOLLAR, ARROW, PIPE, AT, NEW_SYMBOL,
      DOT, COMMA, PATH_SEPARATOR, COLON, PAREN_OPEN, PAREN_CLOSE, BRACKET_OPEN, BRACKET_CLOSE,
      EQ, NEQ, PLUS, MINUS, STAR, SLASH, LE, LT, GE, GT, SEMICOLON, BRACE_OPEN, BRACE_CLOSE,
      ALL_KW, LET_KW, ALL_VERSIONS_KW, ALL_VERSIONS_IN_RANGE_KW, TO_BYTES_KW, IDENT, INTEGER,
      BOOLEAN, STRING, HASH_STORE_OPEN, HASH_ISLAND_OPEN, NAV_PATH_BLOCK, ISLAND_END, HASH,
      WHITESPACE, LINE_COMMENT, BLOCK_COMMENT, ERROR, ASSIGN]"

lemma all_token_kinds_complete: "k \<in> set all_token_kinds"
  by (cases k) (simp_all add: all_token_kinds_def)

lemma token_ids: "map token_id all_token_kinds = [0..<50]"
  by (simp add: all_token_kinds_def upt_rec)

lemma token_id_inj: "inj token_id"
proof -
  have "distinct (map token_id all_token_kinds)" by (simp add: token_ids)
  moreover have "set all_token_kinds = UNIV" using all_token_kinds_complete by blast
  ultimately show ?thesis by (simp add: distinct_map)
qed

lemma token_id_less: "token_id k < 50"
proof -
  have "token_id k \<in> set (map token_id all_token_kinds)"
    using all_token_kinds_complete by simp
  then show ?thesis by (simp add: token_ids)
qed

text \<open>Kinds are compared by discriminant, as the derived \<^verbatim>\<open>PartialEq\<close> does.\<close>

lemma equal_token_kind_code [code]:
  "HOL.equal (k :: token_kind) k' \<longleftrightarrow> token_id k = token_id k'"
  by (auto simp: equal_eq dest: injD [OF token_id_inj])


section \<open>The token stream\<close>

type_synonym token = "token_kind \<times> text_range"

type_synonym logos = "string \<Rightarrow> (token_kind option \<times> nat \<times> nat) list"

text \<open>\<^verbatim>\<open>u32::try_from(offset).unwrap_or(u32::MAX)\<close>\<close>

definition saturate_u32 :: "nat \<Rightarrow> nat" where
  "saturate_u32 n = (if n \<le> u32_max then n else u32_max)"

text \<open>For evaluation the bound is compared as a binary integer.\<close>

lemma saturate_u32_code [code]:
  "saturate_u32 n = (if int n \<le> 4294967295 then n else u32_max)"
  by (auto simp: saturate_u32_def u32_max_def)

definition lex :: "logos \<Rightarrow> string \<Rightarrow> token list" where
  "lex logos text =
     map (\<lambda>(result, start, end).
            (case result of Some kind \<Rightarrow> kind | None \<Rightarrow> ERROR,
             text_range (saturate_u32 start) (saturate_u32 end)))
       (logos text)"

text \<open>\<open>tiles s i spans\<close>: the spans are non-empty, adjacent, start at \<open>i\<close>, end at the end of \<open>s\<close>
  and lie on character boundaries.\<close>

fun tiles :: "string \<Rightarrow> nat \<Rightarrow> (nat \<times> nat) list \<Rightarrow> bool" where
  "tiles s i [] \<longleftrightarrow> i = length s"
| "tiles s i ((a, b) # rest) \<longleftrightarrow> a = i \<and> a < b \<and> is_char_boundary s b \<and> tiles s b rest"

definition logos_covers :: "logos \<Rightarrow> string \<Rightarrow> bool" where
  "logos_covers logos text \<longleftrightarrow> tiles text 0 (map snd (logos text))"

definition token_spans :: "token list \<Rightarrow> (nat \<times> nat) list" where
  "token_spans ts = map (\<lambda>(_, r). (range_start r, range_end r)) ts"

lemma tiles_le: "tiles s i spans \<Longrightarrow> i \<le> length s"
proof (induction spans arbitrary: i)
  case (Cons ab spans)
  then show ?case by (cases ab) (force dest: is_char_boundary_le)
qed simp

lemma tiles_bounds: "tiles s i spans \<Longrightarrow> (a, b) \<in> set spans \<Longrightarrow> i \<le> a \<and> a < b \<and> b \<le> length s"
proof (induction spans arbitrary: i)
  case (Cons ab spans)
  then show ?case by (cases ab) (force dest: is_char_boundary_le)
qed simp

text \<open>Below the \<^verbatim>\<open>u32\<close> limit the saturating conversions change nothing.\<close>

lemma lex_spans:
  assumes "logos_covers logos text" and "length text \<le> u32_max"
  shows "token_spans (lex logos text) = map snd (logos text)"
proof -
  have "saturate_u32 a = a \<and> saturate_u32 b = b" if "(r, a, b) \<in> set (logos text)" for r a b
  proof -
    from that have "(a, b) \<in> set (map snd (logos text))" by force
    with assms have "a < b \<and> b \<le> length text"
      unfolding logos_covers_def by (blast dest: tiles_bounds)
    with assms(2) show ?thesis by (simp add: saturate_u32_def)
  qed
  then show ?thesis
    by (auto simp: token_spans_def lex_def split: prod.splits)
qed

lemma lex_tiles:
  assumes "logos_covers logos text" and "length text \<le> u32_max"
  shows "tiles text 0 (token_spans (lex logos text))"
  using assms by (simp add: lex_spans) (simp add: logos_covers_def)

end
