(* ===== verification/SyntaxKinds.thy ===== *)
theory SyntaxKinds
  imports Tokens "HOL-Library.Word"
begin

text \<open>
  The kinds of the concrete syntax tree (\<^verbatim>\<open>crates/pure-analyzer-syntax/src/kind.rs\<close>). The
  source's macro declares one enum from a list of tokens and a list of nodes; the model keeps
  the two lists apart, \<open>Tok\<close> for a kind of the first list and \<open>Nod\<close> for one of the second.
  Raw kinds are \<^verbatim>\<open>u16\<close> values: tokens from 0, nodes from \<^verbatim>\<open>0x8000\<close>.
\<close>

section \<open>Kinds\<close>

datatype (plugins only: code size) node_kind =
    ROOT | ERROR_NODE | BINARY_EXPR | QUERY_EXPR | ALL_EXPR | QUALIFIED_NAME
  | VARIABLE_EXPR | LITERAL_EXPR | PAREN_EXPR | UNARY_EXPR | ARROW_CALL | PROPERTY_NAV
  | BRACKET_INDEX | CALL_ARGS | LAMBDA_EXPR | LAMBDA_PARAMS | CODE_BLOCK | LET_STMT
  | COLUMN_SPEC | COLUMN_SPEC_ARRAY | NEW_INSTANCE_EXPR | CAST_EXPR | RELATION_TYPE
  | COLUMN_INFO | ISLAND | STORE_TABLE_POINTER | NAV_PATH_ISLAND | OPAQUE_ISLAND
  | TYPE_REF | MULTIPLICITY | FUNCTION_CALL | COLLECTION_LITERAL | COLUMN_NAME
  | DOMAIN_FILE | DOMAIN_CLASS_DECL | DOMAIN_ASSOCIATION_DECL | DOMAIN_PROFILE_DECL
  | DOMAIN_STEREOTYPE_DECL | DOMAIN_STEREOTYPE_APPLICATIONS | DOMAIN_EXTENDS_CLAUSE
  | DOMAIN_PROPERTY_DECL | DOMAIN_QUALIFIED_PROPERTY_DECL | DOMAIN_PARAMETER_DECL
  | DOMAIN_TYPE_REF | DOMAIN_MULTIPLICITY | DOMAIN_QUALIFIED_NAME | DOMAIN_OPAQUE_NODE
  | DOMAIN_OPAQUE_BODY | DOMAIN_PROFILE_SECTION | DOMAIN_IGNORED_TOP_LEVEL

primrec node_id :: "node_kind \<Rightarrow> nat" where
  "node_id ROOT = 0" | "node_id ERROR_NODE = 1" | "node_id BINARY_EXPR = 2"
| "node_id QUERY_EXPR = 3" | "node_id ALL_EXPR = 4" | "node_id QUALIFIED_NAME = 5"
| "node_id VARIABLE_EXPR = 6" | "node_id LITERAL_EXPR = 7" | "node_id PAREN_EXPR = 8"
| "node_id UNARY_EXPR = 9" | "node_id ARROW_CALL = 10" | "node_id PROPERTY_NAV = 11"
| "node_id BRACKET_INDEX = 12" | "node_id CALL_ARGS = 13" | "node_id LAMBDA_EXPR = 14"
| "node_id LAMBDA_PARAMS = 15" | "node_id CODE_BLOCK = 16" | "node_id LET_STMT = 17"
| "node_id COLUMN_SPEC = 18" | "node_id COLUMN_SPEC_ARRAY = 19"
| "node_id NEW_INSTANCE_EXPR = 20" | "node_id CAST_EXPR = 21"
| "node_id RELATION_TYPE = 22" | "node_id COLUMN_INFO = 23" | "node_id ISLAND = 24"
| "node_id STORE_TABLE_POINTER = 25" | "node_id NAV_PATH_ISLAND = 26"
| "node_id OPAQUE_ISLAND = 27" | "node_id TYPE_REF = 28" | "node_id MULTIPLICITY = 29"
| "node_id FUNCTION_CALL = 30" | "node_id COLLECTION_LITERAL = 31"
| "node_id COLUMN_NAME = 32" | "node_id DOMAIN_FILE = 33"
| "node_id DOMAIN_CLASS_DECL = 34" | "node_id DOMAIN_ASSOCIATION_DECL = 35"
| "node_id DOMAIN_PROFILE_DECL = 36" | "node_id DOMAIN_STEREOTYPE_DECL = 37"
| "node_id DOMAIN_STEREOTYPE_APPLICATIONS = 38" | "node_id DOMAIN_EXTENDS_CLAUSE = 39"
| "node_id DOMAIN_PROPERTY_DECL = 40" | "node_id DOMAIN_QUALIFIED_PROPERTY_DECL = 41"
| "node_id DOMAIN_PARAMETER_DECL = 42" | "node_id DOMAIN_TYPE_REF = 43"
| "node_id DOMAIN_MULTIPLICITY = 44" | "node_id DOMAIN_QUALIFIED_NAME = 45"
| "node_id DOMAIN_OPAQUE_NODE = 46" | "node_id DOMAIN_OPAQUE_BODY = 47"
| "node_id DOMAIN_PROFILE_SECTION = 48" | "node_id DOMAIN_IGNORED_TOP_LEVEL = 49"

definition all_node_kinds :: "node_kind list" where
  "all_node_kinds =
     [ROOT, ERROR_NODE, BINARY_EXPR, QUERY_EXPR, ALL_EXPR, QUALIFIED_NAME, VARIABLE_EXPR,
      LITERAL_EXPR, PAREN_EXPR, UNARY_EXPR, ARROW_CALL, PROPERTY_NAV, BRACKET_INDEX,
      CALL_ARGS, LAMBDA_EXPR, LAMBDA_PARAMS, CODE_BLOCK, LET_STMT, COLUMN_SPEC,
      COLUMN_SPEC_ARRAY, NEW_INSTANCE_EXPR, CAST_EXPR, RELATION_TYPE, COLUMN_INFO, ISLAND,
      STORE_TABLE_POINTER, NAV_PATH_ISLAND, OPAQUE_ISLAND, TYPE_REF, MULTIPLICITY,
      FUNCTION_CALL, COLLECTION_LITERAL, COLUMN_NAME, DOMAIN_FILE, DOMAIN_CLASS_DECL,
      DOMAIN_ASSOCIATION_DECL, DOMAIN_PROFILE_DECL, DOMAIN_STEREOTYPE_DECL,
      DOMAIN_STEREOTYPE_APPLICATIONS, DOMAIN_EXTENDS_CLAUSE, DOMAIN_PROPERTY_DECL,
      DOMAIN_QUALIFIED_PROPERTY_DECL, DOMAIN_PARAMETER_DECL, DOMAIN_TYPE_REF,
      DOMAIN_MULTIPLICITY, DOMAIN_QUALIFIED_NAME, DOMAIN_OPAQUE_NODE, DOMAIN_OPAQUE_BODY,
      DOMAIN_PROFILE_SECTION, DOMAIN_IGNORED_TOP_LEVEL]"

lemma all_node_kinds_complete: "k \<in> set all_node_kinds"
  by (cases k) (simp_all add: all_node_kinds_def)

lemma node_ids: "map node_id all_node_kinds = [0..<50]"
  by (simp add: all_node_kinds_def upt_rec)

lemma node_id_inj: "inj node_id"
proof -
  have "distinct (map node_id all_node_kinds)" by (simp add: node_ids)
  moreover have "set all_node_kinds = UNIV" using all_node_kinds_complete by blast
  ultimately show ?thesis by (simp add: distinct_map)
qed

lemma node_id_less: "node_id k < 50"
proof -
  have "node_id k \<in> set (map node_id all_node_kinds)"
    using all_node_kinds_complete by simp
  then show ?thesis by (simp add: node_ids)
qed

lemma equal_node_kind_code [code]:
  "HOL.equal (k :: node_kind) k' \<longleftrightarrow> node_id k = node_id k'"
  by (auto simp: equal_eq dest: injD [OF node_id_inj])

datatype syntax_kind = Tok token_kind | Nod node_kind

definition all_syntax_kinds :: "syntax_kind list" where
  "all_syntax_kinds = map Tok all_token_kinds @ map Nod all_node_kinds"

fun is_token :: "syntax_kind \<Rightarrow> bool" where
  "is_token (Tok _) = True"
| "is_token (Nod _) = False"

fun is_node :: "syntax_kind \<Rightarrow> bool" where
  "is_node (Tok _) = False"
| "is_node (Nod _) = True"

definition syntax_kind_from_token :: "token_kind \<Rightarrow> syntax_kind" where
  "syntax_kind_from_token k = Tok k"


section \<open>Raw kinds\<close>

fun syntax_id :: "syntax_kind \<Rightarrow> nat" where
  "syntax_id (Tok k) = token_id k"
| "syntax_id (Nod k) = 32768 + node_id k"

type_synonym raw_syntax_kind = "16 word"

definition raw_from_kind :: "syntax_kind \<Rightarrow> raw_syntax_kind" where
  "raw_from_kind k = of_nat (syntax_id k)"

datatype InvalidRawSyntaxKind = InvalidRawSyntaxKind (invalid_raw_value: raw_syntax_kind)

definition kind_try_from :: "raw_syntax_kind \<Rightarrow> InvalidRawSyntaxKind + syntax_kind" where
  "kind_try_from raw =
     (case find (\<lambda>kind. raw_from_kind kind = raw) all_syntax_kinds of
        Some kind \<Rightarrow> Inr kind
      | None \<Rightarrow> Inl (InvalidRawSyntaxKind raw))"

lemma syntax_id_less: "syntax_id k < 65536"
proof (cases k)
  case (Tok t)
  with token_id_less [of t] show ?thesis by simp
next
  case (Nod n)
  with node_id_less [of n] show ?thesis by simp
qed

lemma kind_halves:
  "is_token k \<longleftrightarrow> syntax_id k < 32768" "is_node k \<longleftrightarrow> 32768 \<le> syntax_id k"
proof -
  have "token_id t < 32768" for t using token_id_less [of t] by simp
  then show "is_token k \<longleftrightarrow> syntax_id k < 32768" "is_node k \<longleftrightarrow> 32768 \<le> syntax_id k"
    by (cases k; simp add: not_le)+
qed

lemma unat_raw_from_kind: "unat (raw_from_kind k) = syntax_id k"
  by (simp add: raw_from_kind_def unat_of_nat syntax_id_less)

lemma syntax_id_inj: "syntax_id k = syntax_id k' \<Longrightarrow> k = k'"
proof (cases k; cases k')
  fix t n assume eq: "syntax_id k = syntax_id k'" and k: "k = Tok t" "k' = Nod n"
  have "token_id t < 50" by (rule token_id_less)
  with eq k show ?thesis by simp
next
  fix t n assume eq: "syntax_id k = syntax_id k'" and k: "k = Nod n" "k' = Tok t"
  have "token_id t < 50" by (rule token_id_less)
  with eq k show ?thesis by simp
qed (auto dest: injD [OF token_id_inj] injD [OF node_id_inj])

lemma raw_from_kind_inj: "inj raw_from_kind"
proof (rule injI)
  fix k k' assume "raw_from_kind k = raw_from_kind k'"
  then have "syntax_id k = syntax_id k'" by (metis unat_raw_from_kind)
  then show "k = k'" by (rule syntax_id_inj)
qed

interpretation kind_registry: code_registry all_syntax_kinds raw_from_kind
proof
  show "k \<in> set all_syntax_kinds" for k
    using all_token_kinds_complete all_node_kinds_complete
    by (cases k) (auto simp: all_syntax_kinds_def)
  have "distinct all_token_kinds" "distinct all_node_kinds"
    using token_ids node_ids by (metis distinct_map distinct_upt)+
  then have "distinct all_syntax_kinds"
    by (auto simp: all_syntax_kinds_def distinct_map inj_on_def)
  then show "distinct (map raw_from_kind all_syntax_kinds)"
    by (simp add: distinct_map inj_on_subset [OF raw_from_kind_inj])
qed

text \<open>Decoding a raw kind inverts encoding: every kind decodes from its own raw value,
  a raw value that belongs to no kind is rejected with that value, token raw values lie in
  the lower half of the \<^verbatim>\<open>u16\<close> space and node raw values in the upper half.\<close>

theorem kind_try_from_exact:
  "(kind_try_from raw = Inr k \<longleftrightarrow> raw_from_kind k = raw) \<and>
   (kind_try_from raw = Inl e \<longleftrightarrow>
      e = InvalidRawSyntaxKind raw \<and> (\<forall>k. raw_from_kind k \<noteq> raw)) \<and>
   (is_token k \<longleftrightarrow> raw_from_kind k < 0x8000) \<and> (is_node k \<longleftrightarrow> 0x8000 \<le> raw_from_kind k)"
proof -
  have "raw_from_kind k < 0x8000 \<longleftrightarrow> syntax_id k < 32768"
       "0x8000 \<le> raw_from_kind k \<longleftrightarrow> 32768 \<le> syntax_id k"
    by (simp_all add: word_less_nat_alt word_le_nat_alt unat_raw_from_kind)
  then show ?thesis
    unfolding kind_try_from_def kind_registry.parse_iff kind_registry.parse_unknown_iff kind_halves
    by auto
qed

end
