(* ===== verification/GreenTree.thy ===== *)
theory GreenTree
  imports SyntaxKinds
begin

text \<open>
  The immutable concrete syntax tree (\<^verbatim>\<open>crates/pure-analyzer-syntax/src/green.rs\<close>): tokens
  that name a range of the shared source, nodes with their children, and the depth-first token
  iterator with its explicit stack. \<open>flatten\<close> is the reference traversal the iterator is
  compared with.
\<close>

section \<open>Trees\<close>

record green_token =
  tok_kind :: syntax_kind
  tok_source :: string
  tok_range :: text_range

datatype green_element = Node green_node | Token green_token
  and green_node =
    GreenNode (green_kind: syntax_kind) (green_children: "green_element list")
      (green_range: text_range)

definition green_token_new :: "syntax_kind \<Rightarrow> string \<Rightarrow> text_range \<Rightarrow> green_token" where
  "green_token_new kind source r =
     \<lparr>tok_kind = kind, tok_source = source, tok_range = r\<rparr>"

definition token_text :: "green_token \<Rightarrow> string" where
  "token_text t =
     (case str_get (tok_source t) (range_start (tok_range t)) (range_end (tok_range t)) of
        Some text \<Rightarrow> text
      | None \<Rightarrow> [])"

definition green_token_eq :: "green_token \<Rightarrow> green_token \<Rightarrow> bool" where
  "green_token_eq a b \<longleftrightarrow>
     tok_kind a = tok_kind b \<and> tok_range a = tok_range b \<and> token_text a = token_text b"

fun element_kind :: "green_element \<Rightarrow> syntax_kind" where
  "element_kind (Node n) = green_kind n"
| "element_kind (Token t) = tok_kind t"

fun element_range :: "green_element \<Rightarrow> text_range" where
  "element_range (Node n) = green_range n"
| "element_range (Token t) = tok_range t"

fun as_node :: "green_element \<Rightarrow> green_node option" where
  "as_node (Node n) = Some n"
| "as_node (Token _) = None"

fun as_token :: "green_element \<Rightarrow> green_token option" where
  "as_token (Node _) = None"
| "as_token (Token t) = Some t"


section \<open>The token iterator\<close>

text \<open>
  The iterator's state is its stack of child iterators; the head of the list is the top
  (the \<^verbatim>\<open>last\<close> of the source's vector), and a child iterator is the list of children it has
  still to visit.
\<close>

type_synonym token_iter = "green_element list list"

definition iter_size :: "token_iter \<Rightarrow> nat" where
  "iter_size st = sum_list (map (\<lambda>cs. Suc (size_list size cs)) st)"

function iter_next :: "token_iter \<Rightarrow> (green_token \<times> token_iter) option" where
  "iter_next [] = None"
| "iter_next ([] # st) = iter_next st"
| "iter_next ((Node n # cs) # st) = iter_next (green_children n # cs # st)"
| "iter_next ((Token t # cs) # st) = Some (t, cs # st)"
  by pat_completeness auto

lemma size_green_children: "size_list size (green_children n) < size n"
  by (cases n) simp

termination iter_next
  by (relation "measure iter_size") (auto simp: iter_size_def intro: less_SucI size_green_children)

lemma iter_next_size: "iter_next st = Some (t, st') \<Longrightarrow> iter_size st' < iter_size st"
proof (induction st rule: iter_next.induct)
  case (3 n cs st)
  then show ?case using size_green_children [of n] by (simp add: iter_size_def)
qed (auto simp: iter_size_def)

text \<open>Draining the iterator, as \<^verbatim>\<open>collect\<close> and the \<^verbatim>\<open>for\<close> loop of \<^verbatim>\<open>Display\<close> do.\<close>

function iter_collect :: "token_iter \<Rightarrow> green_token list" where
  "iter_collect st =
     (case iter_next st of
        None \<Rightarrow> []
      | Some (t, st') \<Rightarrow> t # iter_collect st')"
  by pat_completeness auto
termination iter_collect
  by (relation "measure iter_size") (auto dest: iter_next_size)

declare iter_collect.simps [simp del]

definition node_tokens :: "green_node \<Rightarrow> green_token list" where
  "node_tokens node = iter_collect [green_children node]"

definition node_text :: "green_node \<Rightarrow> string" where
  "node_text node = concat (map token_text (node_tokens node))"


section \<open>The reference traversal\<close>

primrec flatten :: "green_element \<Rightarrow> green_token list"
  and flatten_node :: "green_node \<Rightarrow> green_token list" where
  "flatten (Node n) = flatten_node n"
| "flatten (Token t) = [t]"
| "flatten_node (GreenNode k cs r) = concat (map flatten cs)"

lemma flatten_node_eq: "flatten_node n = concat (map flatten (green_children n))"
  by (cases n) simp

lemma iter_next_flatten:
  "concat (concat (map (map flatten) st)) =
     (case iter_next st of
        None \<Rightarrow> []
      | Some (t, st') \<Rightarrow> t # concat (concat (map (map flatten) st')))"
  by (induction st rule: iter_next.induct) (auto simp: flatten_node_eq)

lemma iter_collect_flatten: "iter_collect st = concat (concat (map (map flatten) st))"
proof (induction st rule: iter_collect.induct)
  case (1 st)
  then show ?case
    by (subst iter_collect.simps, subst iter_next_flatten) (auto split: option.splits)
qed

text \<open>The stack-based token iterator of a node terminates and yields exactly the
  node's descendant tokens in source order, as the recursive traversal lists them.\<close>

theorem node_tokens_eq_flatten: "node_tokens node = flatten_node node"
  by (simp add: node_tokens_def iter_collect_flatten flatten_node_eq)

lemma node_text_flatten: "node_text node = concat (map token_text (flatten_node node))"
  by (simp add: node_text_def node_tokens_def iter_collect_flatten flatten_node_eq)


section \<open>Depth and ranges\<close>

primrec tree_depth :: "green_element \<Rightarrow> nat"
  and node_depth :: "green_node \<Rightarrow> nat" where
  "tree_depth (Node n) = node_depth n"
| "tree_depth (Token t) = 0"
| "node_depth (GreenNode k cs r) = Suc (foldr max (map tree_depth cs) 0)"

text \<open>Every range in the tree is ordered: \<^verbatim>\<open>TextRange::new\<close> never sees an end before its start.\<close>

primrec ranges_ordered :: "green_element \<Rightarrow> bool"
  and node_ranges_ordered :: "green_node \<Rightarrow> bool" where
  "ranges_ordered (Node n) = node_ranges_ordered n"
| "ranges_ordered (Token t) = (range_start (tok_range t) \<le> range_end (tok_range t))"
| "node_ranges_ordered (GreenNode k cs r) =
     (range_start r \<le> range_end r \<and> list_all id (map ranges_ordered cs))"

end
