(* ===== verification/TreeBuilder.thy ===== *)
theory TreeBuilder
  imports GreenTree
begin

text \<open>
  The validating tree builder (\<^verbatim>\<open>crates/pure-analyzer-syntax/src/builder.rs\<close>): parser events,
  checkpoints for retroactive wrapping, validation of the token stream and the fold of events
  into exactly one \<open>ROOT\<close> node. Vectors used as stacks are lists whose head is the last
  element. \<^verbatim>\<open>Arc<()>\<close> values are only compared by pointer: an owner and a marker are numbers,
  a builder hands out its markers in increasing order.
\<close>

section \<open>Events, checkpoints and errors\<close>

datatype event = Open syntax_kind | Advance | Close

record checkpoint =
  cp_owner :: nat
  cp_marker :: nat

datatype BuildError =
    SourceTooLong nat
  | EmptyTokenRange nat nat
  | NonContiguousTokenRange nat nat nat
  | TokenRangeOutsideSource nat text_range nat
  | InvalidUtf8Boundary nat nat
  | IncompleteTokenCoverage nat nat
  | ExpectedNodeKind nat syntax_kind
  | NestedRoot nat
  | ForeignCheckpoint
  | InvalidCheckpoint
  | AdvanceOutsideNode nat
  | AdvancePastTokens nat nat
  | CloseWithoutOpen nat
  | UnclosedNodes nat
  | UnconsumedTokens nat nat
  | MissingRoot
  | MultipleRoots nat
  | ExpectedRootKind syntax_kind

datatype builder_event = Event event | Checkpoint nat

record builder =
  b_source :: string
  b_tokens :: "token list"
  b_events :: "builder_event list"
  b_owner :: nat
  b_next_marker :: nat

fun builder_event_event :: "builder_event \<Rightarrow> event option" where
  "builder_event_event (Event e) = Some e"
| "builder_event_event (Checkpoint _) = None"


section \<open>The builder's interface\<close>

definition builder_new :: "nat \<Rightarrow> string \<Rightarrow> token list \<Rightarrow> builder" where
  "builder_new owner source tokens =
     \<lparr>b_source = source, b_tokens = tokens, b_events = [], b_owner = owner, b_next_marker = 0\<rparr>"

definition builder_push :: "event \<Rightarrow> builder \<Rightarrow> builder" where
  "builder_push e b = b\<lparr>b_events := b_events b @ [Event e]\<rparr>"

definition builder_open :: "syntax_kind \<Rightarrow> builder \<Rightarrow> builder" where
  "builder_open kind b = builder_push (Open kind) b"

definition builder_advance :: "builder \<Rightarrow> builder" where
  "builder_advance b = builder_push Advance b"

definition builder_close :: "builder \<Rightarrow> builder" where
  "builder_close b = builder_push Close b"

definition builder_checkpoint :: "builder \<Rightarrow> checkpoint \<times> builder" where
  "builder_checkpoint b =
     (\<lparr>cp_owner = b_owner b, cp_marker = b_next_marker b\<rparr>,
      b\<lparr>b_events := b_events b @ [Checkpoint (b_next_marker b)],
        b_next_marker := Suc (b_next_marker b)\<rparr>)"

definition builder_open_at ::
    "checkpoint \<Rightarrow> syntax_kind \<Rightarrow> builder \<Rightarrow> BuildError + builder" where
  "builder_open_at checkpoint kind b =
     (if b_owner b \<noteq> cp_owner checkpoint then Inl ForeignCheckpoint
      else case position (\<lambda>e. e = Checkpoint (cp_marker checkpoint)) (b_events b) of
        None \<Rightarrow> Inl InvalidCheckpoint
      | Some marker_index \<Rightarrow>
          (let prior = take marker_index (b_events b);
               event_index = length (filter (\<lambda>e. builder_event_event e \<noteq> None) prior)
           in if \<not> is_node kind then Inl (ExpectedNodeKind event_index kind)
              else Inr (b\<lparr>b_events :=
                prior @ [Event (Open kind)] @ drop marker_index (b_events b)\<rparr>)))"


section \<open>Token validation\<close>

definition source_end :: "string \<Rightarrow> BuildError + nat" where
  "source_end source =
     (if length source \<le> u32_max then Inr (length source)
      else Inl (SourceTooLong (length source)))"

lemma source_end_code [code]:
  "source_end source =
     (if int (length source) \<le> 4294967295 then Inr (length source)
      else Inl (SourceTooLong (length source)))"
  by (auto simp: source_end_def u32_max_def)

definition validate_token_range ::
    "string \<Rightarrow> nat \<Rightarrow> text_range \<Rightarrow> nat \<Rightarrow> nat \<Rightarrow> BuildError option" where
  "validate_token_range source token_index r expected src_end =
     (if range_start r \<noteq> expected
        then Some (NonContiguousTokenRange token_index expected (range_start r))
      else if range_is_empty r then Some (EmptyTokenRange token_index (range_start r))
      else if range_end r > src_end
        then Some (TokenRangeOutsideSource token_index r src_end)
      else if \<not> is_char_boundary source (range_start r)
        then Some (InvalidUtf8Boundary token_index (range_start r))
      else if \<not> is_char_boundary source (range_end r)
        then Some (InvalidUtf8Boundary token_index (range_end r))
      else None)"

fun validate_tokens_loop ::
    "string \<Rightarrow> nat \<Rightarrow> nat \<Rightarrow> nat \<Rightarrow> token list \<Rightarrow> BuildError + nat" where
  "validate_tokens_loop source src_end token_index expected [] =
     (if expected \<noteq> src_end then Inl (IncompleteTokenCoverage src_end expected)
      else Inr src_end)"
| "validate_tokens_loop source src_end token_index expected ((_, r) # rest) =
     (case validate_token_range source token_index r expected src_end of
        Some e \<Rightarrow> Inl e
      | None \<Rightarrow> validate_tokens_loop source src_end (Suc token_index) (range_end r) rest)"

definition validate_tokens :: "string \<Rightarrow> token list \<Rightarrow> BuildError + nat" where
  "validate_tokens source tokens =
     (case source_end source of
        Inl e \<Rightarrow> Inl e
      | Inr end \<Rightarrow> validate_tokens_loop source end 0 0 tokens)"


section \<open>Folding events\<close>

record pending_node =
  pn_kind :: syntax_kind
  pn_children :: "green_element list"
  pn_start :: nat

record fold_state =
  fs_stack :: "pending_node list"
  fs_roots :: "green_node list"
  fs_token_index :: nat
  fs_offset :: nat

definition open_node ::
    "pending_node list \<Rightarrow> nat \<Rightarrow> syntax_kind \<Rightarrow> nat \<Rightarrow> BuildError + pending_node list" where
  "open_node stack event_index kind offset =
     (if \<not> is_node kind then Inl (ExpectedNodeKind event_index kind)
      else if kind = Nod ROOT \<and> stack \<noteq> [] then Inl (NestedRoot event_index)
      else Inr (\<lparr>pn_kind = kind, pn_children = [], pn_start = offset\<rparr> # stack))"

definition advance_token ::
    "string \<Rightarrow> token list \<Rightarrow> pending_node list \<Rightarrow> nat \<Rightarrow> nat \<Rightarrow>
       BuildError + (nat \<times> pending_node list)" where
  "advance_token source tokens stack event_index token_index =
     (case stack of
        [] \<Rightarrow> Inl (AdvanceOutsideNode event_index)
      | parent # rest \<Rightarrow>
          (case get_at tokens token_index of
             None \<Rightarrow> Inl (AdvancePastTokens event_index (length tokens))
           | Some (kind, r) \<Rightarrow>
               Inr (range_end r,
                 parent\<lparr>pn_children := pn_children parent @
                   [Token (green_token_new (syntax_kind_from_token kind) source r)]\<rparr> # rest)))"

definition close_node ::
    "pending_node list \<Rightarrow> green_node list \<Rightarrow> nat \<Rightarrow> nat \<Rightarrow>
       BuildError + (pending_node list \<times> green_node list)" where
  "close_node stack roots event_index offset =
     (case stack of
        [] \<Rightarrow> Inl (CloseWithoutOpen event_index)
      | pending # rest \<Rightarrow>
          (let node = GreenNode (pn_kind pending) (pn_children pending)
                        (text_range (pn_start pending) offset)
           in case rest of
                [] \<Rightarrow> Inr ([], roots @ [node])
              | parent # rest' \<Rightarrow>
                  Inr (parent\<lparr>pn_children := pn_children parent @ [Node node]\<rparr> # rest',
                    roots)))"

definition finish_root ::
    "pending_node list \<Rightarrow> green_node list \<Rightarrow> nat \<Rightarrow> nat \<Rightarrow> nat \<Rightarrow> BuildError + green_node" where
  "finish_root stack roots consumed total_count src_end =
     (if stack \<noteq> [] then Inl (UnclosedNodes (length stack))
      else if consumed \<noteq> total_count then Inl (UnconsumedTokens consumed total_count)
      else case roots of
        [] \<Rightarrow> Inl MissingRoot
      | [root] \<Rightarrow>
          (if green_kind root \<noteq> Nod ROOT then Inl (ExpectedRootKind (green_kind root))
           else if green_range root \<noteq> text_range 0 src_end
             then Inl (IncompleteTokenCoverage src_end (range_end (green_range root)))
           else Inr root)
      | _ \<Rightarrow> Inl (MultipleRoots (length roots)))"

fun fold_step ::
    "string \<Rightarrow> token list \<Rightarrow> nat \<Rightarrow> event \<Rightarrow> fold_state \<Rightarrow> BuildError + fold_state" where
  "fold_step source tokens event_index (Open kind) st =
     (case open_node (fs_stack st) event_index kind (fs_offset st) of
        Inl e \<Rightarrow> Inl e
      | Inr stack \<Rightarrow> Inr (st\<lparr>fs_stack := stack\<rparr>))"
| "fold_step source tokens event_index Advance st =
     (case advance_token source tokens (fs_stack st) event_index (fs_token_index st) of
        Inl e \<Rightarrow> Inl e
      | Inr (offset, stack) \<Rightarrow>
          Inr (st\<lparr>fs_stack := stack, fs_offset := offset,
                 fs_token_index := Suc (fs_token_index st)\<rparr>))"
| "fold_step source tokens event_index Close st =
     (case close_node (fs_stack st) (fs_roots st) event_index (fs_offset st) of
        Inl e \<Rightarrow> Inl e
      | Inr (stack, roots) \<Rightarrow> Inr (st\<lparr>fs_stack := stack, fs_roots := roots\<rparr>))"

fun fold_loop ::
    "string \<Rightarrow> token list \<Rightarrow> nat \<Rightarrow> event list \<Rightarrow> fold_state \<Rightarrow> BuildError + fold_state" where
  "fold_loop source tokens event_index [] st = Inr st"
| "fold_loop source tokens event_index (e # es) st =
     (case fold_step source tokens event_index e st of
        Inl err \<Rightarrow> Inl err
      | Inr st' \<Rightarrow> fold_loop source tokens (Suc event_index) es st')"

definition fold_init :: fold_state where
  "fold_init = \<lparr>fs_stack = [], fs_roots = [], fs_token_index = 0, fs_offset = 0\<rparr>"

definition fold_events ::
    "string \<Rightarrow> token list \<Rightarrow> event list \<Rightarrow> nat \<Rightarrow> BuildError + green_node" where
  "fold_events source tokens events src_end =
     (case fold_loop source tokens 0 events fold_init of
        Inl e \<Rightarrow> Inl e
      | Inr st \<Rightarrow>
          finish_root (fs_stack st) (fs_roots st) (fs_token_index st) (length tokens) src_end)"

definition builder_finish :: "builder \<Rightarrow> BuildError + green_node" where
  "builder_finish b =
     (case validate_tokens (b_source b) (b_tokens b) of
        Inl e \<Rightarrow> Inl e
      | Inr end \<Rightarrow>
          fold_events (b_source b) (b_tokens b)
            (List.map_filter builder_event_event (b_events b)) end)"


section \<open>Validation accepts exactly the tilings of the source\<close>

definition ordered_ranges :: "token list \<Rightarrow> bool" where
  "ordered_ranges ts \<longleftrightarrow> (\<forall>(k, r)\<in>set ts. range_start r \<le> range_end r)"

lemma ordered_ranges_simps [simp]:
  "ordered_ranges []"
  "ordered_ranges ((k, r) # ts) \<longleftrightarrow> range_start r \<le> range_end r \<and> ordered_ranges ts"
  by (auto simp: ordered_ranges_def)

lemma token_spans_simps [simp]:
  "token_spans [] = []"
  "token_spans ((k, r) # ts) = (range_start r, range_end r) # token_spans ts"
  by (simp_all add: token_spans_def)

lemma tiles_ordered_ranges: "tiles s i (token_spans ts) \<Longrightarrow> ordered_ranges ts"
proof (induction ts arbitrary: i)
  case (Cons t ts)
  then show ?case by (cases t) (auto simp: less_imp_le)
qed simp

lemma validate_tokens_loop_iff:
  "ordered_ranges ts \<Longrightarrow> is_char_boundary s i \<Longrightarrow>
     validate_tokens_loop s (length s) n i ts = Inr e \<longleftrightarrow>
       e = length s \<and> tiles s i (token_spans ts)"
proof (induction ts arbitrary: n i)
  case (Cons t ts)
  then show ?case
    by (cases t)
      (auto simp: validate_token_range_def range_is_empty_def not_less
        dest: is_char_boundary_le)
qed auto

lemma validate_tokens_iff:
  "ordered_ranges ts \<Longrightarrow>
     validate_tokens s ts = Inr e \<longleftrightarrow>
       length s \<le> u32_max \<and> tiles s 0 (token_spans ts) \<and> e = length s"
  by (auto simp: validate_tokens_def source_end_def validate_tokens_loop_iff)


section \<open>What the fold keeps\<close>

text \<open>
  The invariant of the fold: the leaves of the finished and the pending nodes are the consumed
  tokens in order, the rest of the stream tiles the source from the current offset, pending
  nodes start at or before that offset, and every range built so far is ordered.
\<close>

definition leaf :: "string \<Rightarrow> token \<Rightarrow> green_token" where
  "leaf source t = green_token_new (syntax_kind_from_token (fst t)) source (snd t)"

definition state_leaves :: "fold_state \<Rightarrow> green_token list" where
  "state_leaves st =
     concat (map flatten_node (fs_roots st)) @
     concat (map (\<lambda>p. concat (map flatten (pn_children p))) (rev (fs_stack st)))"

definition pending_ordered :: "nat \<Rightarrow> pending_node \<Rightarrow> bool" where
  "pending_ordered offset p \<longleftrightarrow>
     pn_start p \<le> offset \<and> (\<forall>c\<in>set (pn_children p). ranges_ordered c)"

definition fold_inv :: "string \<Rightarrow> token list \<Rightarrow> fold_state \<Rightarrow> bool" where
  "fold_inv source tokens st \<longleftrightarrow>
     fs_token_index st \<le> length tokens \<and>
     state_leaves st = map (leaf source) (take (fs_token_index st) tokens) \<and>
     tiles source (fs_offset st) (token_spans (drop (fs_token_index st) tokens)) \<and>
     (\<forall>p\<in>set (fs_stack st). pending_ordered (fs_offset st) p) \<and>
     (\<forall>n\<in>set (fs_roots st). node_ranges_ordered n)"

lemma fold_inv_init: "tiles source 0 (token_spans tokens) \<Longrightarrow> fold_inv source tokens fold_init"
  by (simp add: fold_inv_def fold_init_def state_leaves_def)

lemma pending_ordered_mono: "pending_ordered a p \<Longrightarrow> a \<le> b \<Longrightarrow> pending_ordered b p"
  by (auto simp: pending_ordered_def)

lemma open_node_inv:
  assumes "open_node (fs_stack st) i k (fs_offset st) = Inr stack" "fold_inv source tokens st"
  shows "fold_inv source tokens (st\<lparr>fs_stack := stack\<rparr>)"
  using assms
  by (auto simp: open_node_def fold_inv_def state_leaves_def pending_ordered_def split: if_splits)

lemma close_node_inv:
  assumes "close_node (fs_stack st) (fs_roots st) i (fs_offset st) = Inr (stack, roots)"
    "fold_inv source tokens st"
  shows "fold_inv source tokens (st\<lparr>fs_stack := stack, fs_roots := roots\<rparr>)"
  using assms
  by (auto simp: close_node_def fold_inv_def state_leaves_def pending_ordered_def
      list_all_iff Let_def split: list.splits)

lemma advance_token_inv:
  assumes adv: "advance_token source tokens (fs_stack st) i (fs_token_index st) =
      Inr (offset, stack)"
    and inv: "fold_inv source tokens st"
  shows "fold_inv source tokens
    (st\<lparr>fs_stack := stack, fs_offset := offset, fs_token_index := Suc (fs_token_index st)\<rparr>)"
proof -
  let ?i = "fs_token_index st"
  from adv obtain parent rest k r where stk: "fs_stack st = parent # rest"
    and lt: "?i < length tokens" and tok: "tokens ! ?i = (k, r)" and off: "offset = range_end r"
    and stack: "stack = parent\<lparr>pn_children := pn_children parent @
          [Token (green_token_new (syntax_kind_from_token k) source r)]\<rparr> # rest"
    by (auto simp: advance_token_def get_at_Some_iff split: list.splits option.splits prod.splits)
  have drop: "drop ?i tokens = (k, r) # drop (Suc ?i) tokens"
    using lt tok by (metis Cons_nth_drop_Suc)
  have take: "take (Suc ?i) tokens = take ?i tokens @ [(k, r)]"
    using lt tok by (simp add: take_Suc_conv_app_nth)
  from inv drop have "fs_offset st = range_start r" "range_start r < range_end r"
    "tiles source (range_end r) (token_spans (drop (Suc ?i) tokens))"
    by (auto simp: fold_inv_def)
  with inv stk lt take off stack show ?thesis
    by (auto simp: fold_inv_def state_leaves_def leaf_def pending_ordered_def
        green_token_new_def)
qed

lemma fold_step_inv:
  assumes "fold_step source tokens i e st = Inr st'" and "fold_inv source tokens st"
  shows "fold_inv source tokens st'"
  using assms open_node_inv advance_token_inv close_node_inv
  by (cases e) (fastforce split: sum.splits prod.splits)+

lemma fold_loop_inv:
  "fold_loop source tokens i es st = Inr st' \<Longrightarrow> fold_inv source tokens st \<Longrightarrow>
     fold_inv source tokens st'"
proof (induction es arbitrary: i st)
  case (Cons e es)
  then show ?case by (auto split: sum.splits dest: fold_step_inv)
qed simp

text \<open>The text of the leaves of a tiling is the source.\<close>

lemma leaf_text:
  "is_char_boundary s i \<Longrightarrow> tiles s i (token_spans ts) \<Longrightarrow>
     concat (map (token_text \<circ> leaf s) ts) = drop i s"
proof (induction ts arbitrary: i)
  case (Cons t ts)
  obtain k r where t: "t = (k, r)" by force
  with Cons.prems have r: "range_start r = i" "i < range_end r"
    "is_char_boundary s (range_end r)" "tiles s (range_end r) (token_spans ts)" by auto
  then have "range_end r \<le> length s" by (simp add: is_char_boundary_le)
  then have full: "list_slice i (range_end r) s @ drop (range_end r) s = drop i s"
    using r(2) by (metis append_take_drop_id drop_drop le_add_diff_inverse2 less_imp_le list_slice_def)
  have "token_text (leaf s t) = list_slice i (range_end r) s"
    using r Cons.prems(1) t
    by (simp add: token_text_def leaf_def green_token_new_def str_get_def)
  with Cons.IH [OF r(3,4)] full show ?case by simp
qed simp

lemma builder_finish_sound:
  assumes ok: "builder_finish b = Inr root" and ord: "ordered_ranges (b_tokens b)"
  shows "flatten_node root = map (leaf (b_source b)) (b_tokens b)"
    and "node_text root = b_source b"
    and "green_kind root = Nod ROOT"
    and "green_range root = text_range 0 (length (b_source b))"
    and "node_ranges_ordered root"
proof -
  let ?s = "b_source b" and ?ts = "b_tokens b"
  from ok obtain src_end where v: "validate_tokens ?s ?ts = Inr src_end"
    and f: "fold_events ?s ?ts (List.map_filter builder_event_event (b_events b)) src_end =
        Inr root"
    by (auto simp: builder_finish_def split: sum.splits)
  from v ord have tiles: "tiles ?s 0 (token_spans ?ts)" and e: "src_end = length ?s"
    by (simp_all add: validate_tokens_iff)
  from f obtain st where
    fold: "fold_loop ?s ?ts 0 (List.map_filter builder_event_event (b_events b)) fold_init = Inr st"
    and fin: "finish_root (fs_stack st) (fs_roots st) (fs_token_index st) (length ?ts) src_end =
        Inr root"
    by (auto simp: fold_events_def split: sum.splits)
  have inv: "fold_inv ?s ?ts st"
    using fold_loop_inv [OF fold fold_inv_init [OF tiles]] .
  from fin have closed: "fs_stack st = []" "fs_token_index st = length ?ts" "fs_roots st = [root]"
    "green_kind root = Nod ROOT" "green_range root = text_range 0 src_end"
    by (auto simp: finish_root_def split: if_splits list.splits)
  with inv show flat: "flatten_node root = map (leaf ?s) ?ts"
    by (auto simp: fold_inv_def state_leaves_def)
  show "node_text root = ?s"
    using leaf_text [OF _ tiles] by (simp add: node_text_flatten flat)
  show "green_kind root = Nod ROOT" "green_range root = text_range 0 (length ?s)"
    using closed e by simp_all
  from inv closed show "node_ranges_ordered root" by (simp add: fold_inv_def)
qed


section \<open>Which event streams are accepted\<close>

text \<open>
  \<open>nest d es\<close> runs the nesting depth of a stream from \<open>d\<close>: a \<open>ROOT\<close> opens only at depth 0,
  tokens are consumed only inside a node, and a close needs an open node. \<open>tops d es\<close> lists
  the kinds opened at depth 0 and \<open>advances es\<close> counts consumed tokens.
\<close>

fun nest :: "nat \<Rightarrow> event list \<Rightarrow> nat option" where
  "nest d [] = Some d"
| "nest d (Open k # es) = (if is_node k \<and> (k = Nod ROOT \<longrightarrow> d = 0) then nest (Suc d) es else None)"
| "nest d (Advance # es) = (if d = 0 then None else nest d es)"
| "nest d (Close # es) = (if d = 0 then None else nest (d - 1) es)"

fun tops :: "nat \<Rightarrow> event list \<Rightarrow> syntax_kind list" where
  "tops d [] = []"
| "tops d (Open k # es) = (if d = 0 then [k] else []) @ tops (Suc d) es"
| "tops d (Advance # es) = tops d es"
| "tops d (Close # es) = tops (d - 1) es"

fun advances :: "event list \<Rightarrow> nat" where
  "advances [] = 0"
| "advances (e # es) = (if e = Advance then Suc (advances es) else advances es)"

lemma advances_append [simp]: "advances (xs @ ys) = advances xs + advances ys"
  by (induction xs) auto

text \<open>The kinds of the finished roots followed by the kind of the node at the stack's bottom.\<close>

definition root_kinds :: "fold_state \<Rightarrow> syntax_kind list" where
  "root_kinds st =
     map green_kind (fs_roots st) @ (if fs_stack st = [] then [] else [pn_kind (last (fs_stack st))])"

lemma fold_step_nest:
  "(\<exists>st'. fold_step s ts i e st = Inr st') \<longleftrightarrow>
     nest (length (fs_stack st)) [e] \<noteq> None \<and>
     fs_token_index st + advances [e] \<le> max (fs_token_index st) (length ts)"
  by (cases e)
    (auto simp: open_node_def advance_token_def close_node_def get_at_def Let_def
      split: list.splits option.splits prod.splits)

lemma fold_step_effect:
  assumes "fold_step s ts i e st = Inr st'"
  shows "nest (length (fs_stack st)) [e] = Some (length (fs_stack st'))"
    and "fs_token_index st' = fs_token_index st + advances [e]"
    and "root_kinds st' = root_kinds st @ tops (length (fs_stack st)) [e]"
  using assms
  by (cases e;
      auto simp: open_node_def advance_token_def close_node_def get_at_def Let_def root_kinds_def
        split: list.splits option.splits prod.splits if_splits)+

lemma nest_Cons: "nest d (e # es) = Option.bind (nest d [e]) (\<lambda>d'. nest d' es)"
  by (cases e) auto

lemma tops_Cons: "nest d [e] = Some d' \<Longrightarrow> tops d (e # es) = tops d [e] @ tops d' es"
  by (cases e) (auto split: if_splits)

lemma fold_loop_accepts:
  "nest (length (fs_stack st)) es \<noteq> None \<Longrightarrow> fs_token_index st + advances es \<le> length ts \<Longrightarrow>
     \<exists>st'. fold_loop s ts i es st = Inr st'"
proof (induction es arbitrary: i st)
  case (Cons e es)
  have le: "fs_token_index st + advances [e] \<le> max (fs_token_index st) (length ts)"
    using Cons.prems(2) by (auto split: if_splits)
  have "nest (length (fs_stack st)) [e] \<noteq> None"
    using Cons.prems(1) nest_Cons [of "length (fs_stack st)" e es]
    by (metis Option.bind_eq_None_conv)
  with le obtain st' where st': "fold_step s ts i e st = Inr st'"
    using fold_step_nest by blast
  note eff = fold_step_effect [OF st']
  have "nest (length (fs_stack st')) es \<noteq> None"
    using Cons.prems(1) eff(1) nest_Cons [of "length (fs_stack st)" e es] by simp
  moreover have "fs_token_index st' + advances es \<le> length ts"
    using Cons.prems(2) eff(2) by (auto split: if_splits)
  ultimately show ?case using st' Cons.IH by fastforce
qed simp

lemma fold_loop_effect:
  "fold_loop s ts i es st = Inr st' \<Longrightarrow>
     nest (length (fs_stack st)) es = Some (length (fs_stack st')) \<and>
     fs_token_index st' = fs_token_index st + advances es \<and>
     root_kinds st' = root_kinds st @ tops (length (fs_stack st)) es"
proof (induction es arbitrary: i st)
  case (Cons e es)
  then obtain st1 where st1: "fold_step s ts i e st = Inr st1"
    and rest: "fold_loop s ts (Suc i) es st1 = Inr st'" by (auto split: sum.splits)
  note eff = fold_step_effect [OF st1]
  show ?case
    using Cons.IH [OF rest] eff nest_Cons [of "length (fs_stack st)" e es]
      tops_Cons [OF eff(1), of es] by simp
qed simp

text \<open>Until a second root appears, the first top-level node starts at offset 0.\<close>

definition first_root_inv :: "fold_state \<Rightarrow> bool" where
  "first_root_inv st \<longleftrightarrow>
     (case fs_roots st of
        [] \<Rightarrow> (if fs_stack st = [] then fs_offset st = 0 else pn_start (last (fs_stack st)) = 0)
      | [r] \<Rightarrow> (fs_stack st = [] \<longrightarrow> green_range r = text_range 0 (fs_offset st))
      | _ \<Rightarrow> True)"

lemma fold_step_first_root:
  "fold_step s ts i e st = Inr st' \<Longrightarrow> first_root_inv st \<Longrightarrow> first_root_inv st'"
  by (cases e)
    (auto simp: open_node_def advance_token_def close_node_def Let_def first_root_inv_def
      split: list.splits option.splits prod.splits if_splits)

lemma fold_loop_first_root:
  "fold_loop s ts i es st = Inr st' \<Longrightarrow> first_root_inv st \<Longrightarrow> first_root_inv st'"
proof (induction es arbitrary: i st)
  case (Cons e es)
  then show ?case by (auto split: sum.splits dest: fold_step_first_root)
qed simp

definition one_root :: "nat \<Rightarrow> event list \<Rightarrow> bool" where
  "one_root n es \<longleftrightarrow> nest 0 es = Some 0 \<and> tops 0 es = [Nod ROOT] \<and> advances es = n"

lemma fold_events_iff:
  assumes tiles: "tiles s 0 (token_spans ts)"
  shows "(\<exists>root. fold_events s ts es (length s) = Inr root) \<longleftrightarrow> one_root (length ts) es"
proof
  assume "\<exists>root. fold_events s ts es (length s) = Inr root"
  then obtain root st where fold: "fold_loop s ts 0 es fold_init = Inr st"
    and fin: "finish_root (fs_stack st) (fs_roots st) (fs_token_index st) (length ts) (length s) =
        Inr root"
    by (auto simp: fold_events_def split: sum.splits)
  from fin have "fs_stack st = []" "fs_token_index st = length ts" "fs_roots st = [root]"
    "green_kind root = Nod ROOT"
    by (auto simp: finish_root_def split: if_splits list.splits)
  with fold_loop_effect [OF fold] show "one_root (length ts) es"
    by (auto simp: one_root_def root_kinds_def fold_init_def)
next
  assume one: "one_root (length ts) es"
  then obtain st where fold: "fold_loop s ts 0 es fold_init = Inr st"
    using fold_loop_accepts [of fold_init es ts s 0] by (auto simp: one_root_def fold_init_def)
  from one fold_loop_effect [OF fold] have stk: "fs_stack st = []"
    and ti: "fs_token_index st = length ts" and kinds: "map green_kind (fs_roots st) = [Nod ROOT]"
    by (auto simp: one_root_def root_kinds_def fold_init_def)
  have "first_root_inv st"
    using fold_loop_first_root [OF fold] by (simp add: first_root_inv_def fold_init_def)
  moreover have "fs_offset st = length s"
    using fold_loop_inv [OF fold fold_inv_init [OF tiles]] ti by (simp add: fold_inv_def)
  ultimately show "\<exists>root. fold_events s ts es (length s) = Inr root"
    using fold stk ti kinds
    by (auto simp: fold_events_def finish_root_def first_root_inv_def split: list.splits)
qed


section \<open>Building from pushed events\<close>

lemma fold_builder_push:
  "b_events (fold builder_push es b) = b_events b @ map Event es"
  "b_source (fold builder_push es b) = b_source b" "b_tokens (fold builder_push es b) = b_tokens b"
  by (induction es arbitrary: b) (auto simp: builder_push_def)

lemma pushed_events: "List.map_filter builder_event_event (map Event es) = es"
  by (induction es) (simp_all add: map_filter_simps)

lemma leaf_tokens:
  "flatten_node root = map (leaf source) ts \<Longrightarrow>
     map (\<lambda>t. (tok_kind t, tok_range t)) (node_tokens root) = map (\<lambda>(k, r). (Tok k, r)) ts"
  by (auto simp: node_tokens_def iter_collect_flatten flatten_node_eq leaf_def
      green_token_new_def syntax_kind_from_token_def)

lemma finish_of_events:
  assumes "length source \<le> u32_max" and tiles: "tiles source 0 (token_spans ts)"
    and "one_root (length ts) es"
  obtains root where "builder_finish (fold builder_push es (builder_new owner source ts)) = Inr root"
    "node_text root = source"
    "map (\<lambda>t. (tok_kind t, tok_range t)) (node_tokens root) = map (\<lambda>(k, r). (Tok k, r)) ts"
    "green_kind root = Nod ROOT" "node_ranges_ordered root"
proof -
  let ?b = "fold builder_push es (builder_new owner source ts)"
  have sel: "b_source ?b = source" "b_tokens ?b = ts" "b_events ?b = map Event es"
    by (simp_all add: fold_builder_push builder_new_def)
  have ord: "ordered_ranges ts" using tiles_ordered_ranges [OF tiles] .
  have "builder_finish ?b = fold_events source ts es (length source)"
    using validate_tokens_iff [OF ord, of source "length source"] assms(1) tiles
    by (simp add: builder_finish_def sel pushed_events)
  with fold_events_iff [OF tiles] assms(3) obtain root where fin: "builder_finish ?b = Inr root"
    by metis
  from builder_finish_sound [OF this] ord sel have "node_text root = source"
    "flatten_node root = map (leaf source) ts" "green_kind root = Nod ROOT"
    "node_ranges_ordered root" by simp_all
  with fin leaf_tokens that show ?thesis by blast
qed


section \<open>Properties of the builder\<close>

text \<open>Whatever events a parser pushes, a tree that \<^verbatim>\<open>finish\<close> returns is lossless: its
  text is the source, its tokens are the lexer's tokens in order with their kinds and ranges,
  its root is a \<open>ROOT\<close> node spanning the source, and every range in it is ordered.\<close>

theorem builder_finish_lossless:
  assumes "builder_finish b = Inr root" and "ordered_ranges (b_tokens b)"
  shows "node_text root = b_source b \<and>
    map (\<lambda>t. (tok_kind t, tok_range t)) (node_tokens root) =
      map (\<lambda>(k, r). (Tok k, r)) (b_tokens b) \<and>
    green_kind root = Nod ROOT \<and> green_range root = text_range 0 (length (b_source b)) \<and>
    node_ranges_ordered root"
  using builder_finish_sound [OF assms] leaf_tokens by blast

text \<open>C15: \<^verbatim>\<open>finish\<close> returns a tree exactly when the source fits the \<^verbatim>\<open>u32\<close> limit, the
  tokens tile it on character boundaries, and the events form one properly nested \<open>ROOT\<close> node
  that consumes every token; every other input is an error.\<close>

theorem builder_finish_iff:
  assumes "ordered_ranges (b_tokens b)"
  shows "(\<exists>root. builder_finish b = Inr root) \<longleftrightarrow>
    length (b_source b) \<le> u32_max \<and> tiles (b_source b) 0 (token_spans (b_tokens b)) \<and>
    one_root (length (b_tokens b)) (List.map_filter builder_event_event (b_events b))"
proof (cases "validate_tokens (b_source b) (b_tokens b)")
  case (Inl e)
  then have "\<not> (length (b_source b) \<le> u32_max \<and> tiles (b_source b) 0 (token_spans (b_tokens b)))"
    using validate_tokens_iff [OF assms] by (metis Inl_Inr_False)
  with Inl show ?thesis by (auto simp: builder_finish_def)
next
  case (Inr e)
  then have "length (b_source b) \<le> u32_max" "tiles (b_source b) 0 (token_spans (b_tokens b))"
    "e = length (b_source b)"
    using validate_tokens_iff [OF assms] by blast+
  with Inr fold_events_iff show ?thesis by (simp add: builder_finish_def)
qed


section \<open>Witnesses\<close>

definition sample_builder :: builder where
  "sample_builder = fold builder_push [Open (Nod ROOT), Advance, Close]
     (builder_new 0 ''a'' [(IDENT, text_range 0 1)])"

definition sample_root :: green_node where
  "sample_root = GreenNode (Nod ROOT)
     [Token (green_token_new (Tok IDENT) ''a'' (text_range 0 1))] (text_range 0 1)"

lemma sample_finish: "builder_finish sample_builder = Inr sample_root"
  by code_simp

lemma sample_ordered: "ordered_ranges (b_tokens sample_builder)"
  by (simp add: sample_builder_def builder_push_def builder_new_def)

theorem builder_finish_lossless_witness: "node_text sample_root = ''a''"
  using builder_finish_lossless [OF sample_finish sample_ordered]
  by (simp add: sample_builder_def builder_push_def builder_new_def)

theorem builder_finish_iff_witness:
  "one_root 1 [Open (Nod ROOT), Advance, Close]"
  using builder_finish_iff [OF sample_ordered] sample_finish
  by (simp add: sample_builder_def builder_push_def builder_new_def map_filter_simps)

end
