(* ===== verification/EventStream.thy ===== *)
theory EventStream
  imports TreeBuilder
begin

text \<open>
  The query parser's event arena (\<^verbatim>\<open>EventStream\<close> in \<^verbatim>\<open>crates/pure-analyzer-parser/src/m3.rs\<close>):
  events are kept in a vector of links so that an \<open>Open\<close> can be inserted after an earlier event
  in constant time, and are flattened once at the end. The abstract value of a stream is the
  list of the indices its links visit; \<open>append\<close> and \<open>insert_after\<close> refine insertion into that
  list, and \<open>into_events\<close> returns its events.

  The indexed accesses of the source panic out of range; the links of a well-formed stream stay
  in range (\<open>chained\<close>), so the model's list update and lookup agree with them.
\<close>

section \<open>The arena\<close>

record event_link =
  link_event :: event
  link_next :: "nat option"

record event_stream =
  es_nodes :: "event_link list"
  es_head :: "nat option"
  es_tail :: "nat option"

definition stream_new :: event_stream where
  "stream_new = \<lparr>es_nodes = [], es_head = None, es_tail = None\<rparr>"

definition stream_append :: "event \<Rightarrow> event_stream \<Rightarrow> event_stream" where
  "stream_append e st =
     (let index = length (es_nodes st);
          nodes = es_nodes st @ [\<lparr>link_event = e, link_next = None\<rparr>]
      in case es_tail st of
           Some tail \<Rightarrow>
             st\<lparr>es_nodes := nodes[tail := (nodes ! tail)\<lparr>link_next := Some index\<rparr>],
               es_tail := Some index\<rparr>
         | None \<Rightarrow> st\<lparr>es_nodes := nodes, es_head := Some index, es_tail := Some index\<rparr>)"

definition anchor :: "event_stream \<Rightarrow> nat option" where
  "anchor st = es_tail st"

definition insert_after :: "nat \<Rightarrow> event \<Rightarrow> event_stream \<Rightarrow> event_stream" where
  "insert_after a e st =
     (let index = length (es_nodes st);
          next = link_next (es_nodes st ! a);
          nodes = es_nodes st @ [\<lparr>link_event = e, link_next = next\<rparr>]
      in st\<lparr>es_nodes := nodes[a := (nodes ! a)\<lparr>link_next := Some index\<rparr>],
           es_tail := (if es_tail st = Some a then Some index else es_tail st)\<rparr>)"

definition into_events :: "event_stream \<Rightarrow> event list option" where
  "into_events st =
     loop (\<lambda>(current, events).
       case current of
         Some index \<Rightarrow>
           (let link = es_nodes st ! index
            in Some (Inl (link_next link, events @ [link_event link])))
       | None \<Rightarrow> Some (Inr events))
       (es_head st, [])"


section \<open>The list a stream stands for\<close>

text \<open>\<open>linked nodes c ids\<close>: following the links from \<open>c\<close> visits exactly \<open>ids\<close> and then ends.\<close>

fun linked :: "event_link list \<Rightarrow> nat option \<Rightarrow> nat list \<Rightarrow> bool" where
  "linked nodes c [] \<longleftrightarrow> c = None"
| "linked nodes c (i # ids) \<longleftrightarrow>
     c = Some i \<and> i < length nodes \<and> linked nodes (link_next (nodes ! i)) ids"

definition chained :: "event_stream \<Rightarrow> nat list \<Rightarrow> bool" where
  "chained st ids \<longleftrightarrow>
     distinct ids \<and> linked (es_nodes st) (es_head st) ids \<and>
     es_tail st = (if ids = [] then None else Some (last ids))"

definition chain_events :: "event_stream \<Rightarrow> nat list \<Rightarrow> event list" where
  "chain_events st ids = map (\<lambda>i. link_event (es_nodes st ! i)) ids"

lemma chain_events_append: "chain_events st (xs @ ys) = chain_events st xs @ chain_events st ys"
  by (simp add: chain_events_def)

lemma linked_bound: "linked nodes c ids \<Longrightarrow> i \<in> set ids \<Longrightarrow> i < length nodes"
  by (induction ids arbitrary: c) auto

lemma linked_unique: "linked nodes c xs \<Longrightarrow> linked nodes c ys \<Longrightarrow> xs = ys"
proof (induction xs arbitrary: c ys)
  case Nil
  then show ?case by (cases ys) auto
next
  case (Cons x xs)
  then show ?case by (cases ys) auto
qed

lemma linked_append_nodes: "linked nodes c ids \<Longrightarrow> linked (nodes @ xs) c ids"
  by (induction ids arbitrary: c) (auto simp: nth_append)

lemma linked_update:
  "linked nodes c ids \<Longrightarrow> j \<notin> set ids \<Longrightarrow> linked (nodes[j := x]) c ids"
  by (induction ids arbitrary: c) auto

text \<open>Redirecting the link of \<open>a\<close> to a fresh node that continues where \<open>a\<close> did.\<close>

lemma linked_splice:
  assumes "linked nodes c (xs @ a # ys)" and "distinct (xs @ a # ys)"
    and "length nodes = n"
  shows "linked ((nodes @ [\<lparr>link_event = e, link_next = link_next (nodes ! a)\<rparr>])
      [a := (nodes ! a)\<lparr>link_next := Some n\<rparr>]) c (xs @ a # n # ys)"
  using assms
proof (induction xs arbitrary: c)
  case Nil
  then have a: "a < length nodes" and rest: "linked nodes (link_next (nodes ! a)) ys"
    and notin: "a \<notin> set ys" by auto
  from linked_update [OF linked_append_nodes [OF rest] notin] a Nil.prems(3)
  show ?case using Nil.prems(1) by (simp add: nth_append)
next
  case (Cons x xs)
  then show ?case by (auto simp: nth_append)
qed

lemma chained_bound: "chained st ids \<Longrightarrow> i \<in> set ids \<Longrightarrow> i < length (es_nodes st)"
  unfolding chained_def by (blast dest: linked_bound)

lemma chained_anchor: "chained st ids \<Longrightarrow> anchor st = Some a \<Longrightarrow> ids \<noteq> [] \<and> last ids = a"
  by (auto simp: chained_def anchor_def split: if_splits)

lemma chained_new: "chained stream_new []"
  by (simp add: chained_def stream_new_def)

lemma insert_after_chained:
  assumes ch: "chained st (xs @ a # ys)"
  shows "chained (insert_after a e st) (xs @ a # length (es_nodes st) # ys)"
proof -
  let ?n = "length (es_nodes st)"
  have fresh: "?n \<notin> set (xs @ a # ys)" using chained_bound [OF ch] by blast
  have a: "a < ?n" using chained_bound [OF ch] by simp
  have "linked (es_nodes (insert_after a e st)) (es_head st) (xs @ a # ?n # ys)"
    using linked_splice [of "es_nodes st" "es_head st" xs a ys ?n e] ch a
    by (simp add: chained_def insert_after_def Let_def nth_append)
  moreover have "es_tail (insert_after a e st) = Some (last (xs @ a # ?n # ys))"
    using ch by (auto simp: chained_def insert_after_def Let_def)
  ultimately show ?thesis
    using ch fresh by (auto simp: chained_def insert_after_def Let_def)
qed

lemma insert_after_events:
  assumes ch: "chained st (xs @ a # ys)"
  shows "chain_events (insert_after a e st) (xs @ a # length (es_nodes st) # ys) =
    chain_events st (xs @ [a]) @ e # chain_events st ys"
proof -
  have "link_event (es_nodes (insert_after a e st) ! i) = link_event (es_nodes st ! i)"
    if "i \<in> set (xs @ a # ys)" for i
    using chained_bound [OF ch that] chained_bound [OF ch, of a]
    by (auto simp: insert_after_def Let_def nth_append nth_list_update)
  moreover have "a < length (es_nodes st)" using chained_bound [OF ch] by simp
  ultimately show ?thesis
    by (simp add: chain_events_def insert_after_def Let_def nth_append)
qed

text \<open>Appending is insertion after the tail, or the first link of an empty stream.\<close>

lemma stream_append_insert:
  assumes "chained st ids" and "ids \<noteq> []"
  shows "stream_append e st = insert_after (last ids) e st"
proof -
  have "linked (es_nodes st) (es_head st) ids \<Longrightarrow> link_next (es_nodes st ! last ids) = None"
  proof -
    have "linked nodes c ids \<Longrightarrow> ids \<noteq> [] \<Longrightarrow> link_next (nodes ! last ids) = None" for nodes c
      by (induction ids arbitrary: c) auto
    then show "linked (es_nodes st) (es_head st) ids \<Longrightarrow>
        link_next (es_nodes st ! last ids) = None" using assms(2) by blast
  qed
  with assms show ?thesis
    by (simp add: chained_def stream_append_def insert_after_def Let_def)
qed

lemma stream_append_chained:
  assumes ch: "chained st ids"
  shows "chained (stream_append e st) (ids @ [length (es_nodes st)])"
    and "chain_events (stream_append e st) (ids @ [length (es_nodes st)]) =
      chain_events st ids @ [e]"
proof -
  show "chained (stream_append e st) (ids @ [length (es_nodes st)])"
  proof (cases ids rule: rev_cases)
    case Nil
    with ch show ?thesis by (auto simp: chained_def stream_append_def Let_def)
  next
    case (snoc xs a)
    then show ?thesis
      using insert_after_chained [of st xs a "[]" e] ch stream_append_insert [OF ch] by simp
  qed
  show "chain_events (stream_append e st) (ids @ [length (es_nodes st)]) =
      chain_events st ids @ [e]"
  proof (cases ids rule: rev_cases)
    case Nil
    with ch show ?thesis by (auto simp: chained_def stream_append_def Let_def chain_events_def)
  next
    case (snoc xs a)
    then show ?thesis
      using insert_after_events [of st xs a "[]" e] ch stream_append_insert [OF ch]
      by (simp add: chain_events_def)
  qed
qed

lemma into_events_loop:
  "linked nodes c ids \<Longrightarrow>
     loop (\<lambda>(current, events).
       case current of
         Some index \<Rightarrow>
           (let link = nodes ! index
            in Some (Inl (link_next link, events @ [link_event link])))
       | None \<Rightarrow> Some (Inr events)) (c, acc) =
     Some (acc @ map (\<lambda>i. link_event (nodes ! i)) ids)"
proof (induction ids arbitrary: c acc)
  case Nil
  then show ?case by (subst loop.simps) simp
next
  case (Cons i ids)
  then show ?case by (subst loop.simps) (simp add: Let_def)
qed

lemma into_events_chained: "chained st ids \<Longrightarrow> into_events st = Some (chain_events st ids)"
  unfolding into_events_def chained_def chain_events_def
  using into_events_loop [of "es_nodes st" "es_head st" ids "[]"] by simp


section \<open>Streams as lists of events\<close>

text \<open>
  What a client of an event log relies on: emitting an event appends it to the log's content,
  and wrapping at an earlier position inserts it there. The parser of Domain files pushes into
  a vector, the query parser into the arena; both meet the appending half.
\<close>

locale event_log =
  fixes emit :: "event \<Rightarrow> 'log \<Rightarrow> 'log" and content :: "'log \<Rightarrow> event list option"
    and empty_log :: 'log and log_ok :: "'log \<Rightarrow> bool"
  assumes empty_ok: "log_ok empty_log" and empty_content: "content empty_log = Some []"
    and emit_ok: "log_ok l \<Longrightarrow> log_ok (emit e l)"
    and emit_content: "log_ok l \<Longrightarrow> content l = Some es \<Longrightarrow> content (emit e l) = Some (es @ [e])"
begin

lemma fold_emit:
  "log_ok l \<Longrightarrow> content l = Some es \<Longrightarrow>
     log_ok (fold emit xs l) \<and> content (fold emit xs l) = Some (es @ xs)"
proof (induction xs arbitrary: l es)
  case (Cons x xs)
  then show ?case using emit_ok [of l x] emit_content [of l es x] by (simp add: Cons.IH)
qed simp

lemma content_emitted: "content (fold emit xs empty_log) = Some xs"
  using fold_emit [OF empty_ok empty_content] by simp

end

definition stream_ok :: "event_stream \<Rightarrow> bool" where
  "stream_ok st \<longleftrightarrow> (\<exists>ids. chained st ids)"

interpretation arena: event_log stream_append into_events stream_new stream_ok
proof
  show "stream_ok stream_new" using chained_new by (auto simp: stream_ok_def)
  show "into_events stream_new = Some []"
    using into_events_chained [OF chained_new] by (simp add: chain_events_def)
  show "stream_ok (stream_append e l)" if "stream_ok l" for e l
    using that stream_append_chained(1) by (auto simp: stream_ok_def)
  show "into_events (stream_append e l) = Some (es @ [e])"
    if "stream_ok l" "into_events l = Some es" for e l es
    using that stream_append_chained into_events_chained by (fastforce simp: stream_ok_def)
qed

interpretation event_vec: event_log "\<lambda>e es. es @ [e]" Some "[]" "\<lambda>_. True"
  by unfold_locales simp_all

text \<open>The linked event arena refines a list with insertion: flattening terminates,
  appending adds an event at the end, and inserting after an anchor that was the tail when \<open>n\<close>
  events were recorded puts the event at position \<open>n\<close>, in front of everything recorded since.\<close>

theorem stream_insert_after_refines:
  assumes "chained st ids" and "anchor st = Some a"
  shows "into_events (insert_after a e (fold stream_append later st)) =
    Some (chain_events st ids @ e # later)"
proof -
  have gen: "\<exists>ids'. chained (fold stream_append later st') (ids0 @ ids') \<and>
      chain_events (fold stream_append later st') ids0 = chain_events st' ids0 \<and>
      chain_events (fold stream_append later st') ids' = later"
    if "chained st' ids0" for st' ids0
    using that
  proof (induction later arbitrary: st' ids0)
    case Nil
    then show ?case by (auto simp: chain_events_def intro: exI [of _ "[]"])
  next
    case (Cons x later)
    let ?st = "stream_append x st'" and ?n = "length (es_nodes st')"
    note app = stream_append_chained [OF Cons.prems, of x]
    from Cons.IH [OF app(1)] obtain ids' where
      "chained (fold stream_append later ?st) ((ids0 @ [?n]) @ ids')"
      "chain_events (fold stream_append later ?st) (ids0 @ [?n]) = chain_events ?st (ids0 @ [?n])"
      "chain_events (fold stream_append later ?st) ids' = later" by blast
    with app(2) show ?case
      by (auto simp: chain_events_def intro!: exI [of _ "?n # ids'"])
  qed
  from assms have ids: "ids = butlast ids @ [a]" "ids \<noteq> []"
    using chained_anchor [OF assms] by (auto simp: append_butlast_last_id)
  from gen [OF assms(1)] obtain ids' where
    ch: "chained (fold stream_append later st) (ids @ ids')"
    and ev: "chain_events (fold stream_append later st) ids = chain_events st ids"
      "chain_events (fold stream_append later st) ids' = later" by blast
  let ?st = "fold stream_append later st"
  have ch': "chained ?st (butlast ids @ a # ids')" using ch ids by (metis append_Cons append_assoc append_Nil)
  have "into_events (insert_after a e ?st) =
      Some (chain_events ?st (butlast ids @ [a]) @ e # chain_events ?st ids')"
    using into_events_chained [OF insert_after_chained [OF ch']] insert_after_events [OF ch'] by simp
  with ev ids show ?thesis by simp
qed

text \<open>Witness: wrapping what followed the root.\<close>

theorem stream_insert_after_refines_witness:
  "into_events (insert_after 0 (Open (Nod BINARY_EXPR))
     (fold stream_append [Advance, Close] (stream_append (Open (Nod ROOT)) stream_new))) =
   Some [Open (Nod ROOT), Open (Nod BINARY_EXPR), Advance, Close]"
proof -
  let ?st = "stream_append (Open (Nod ROOT)) stream_new"
  have "chained ?st [0]" "chain_events ?st [0] = [Open (Nod ROOT)]"
    using stream_append_chained [OF chained_new, of "Open (Nod ROOT)"]
    by (simp_all add: stream_new_def chain_events_def)
  moreover have "anchor ?st = Some 0" by (simp add: anchor_def stream_append_def stream_new_def)
  ultimately show ?thesis using stream_insert_after_refines [of ?st "[0]" 0 _ "[Advance, Close]"] by simp
qed

end
