(* ===== verification/Diagnostics.thy ===== *)
theory Diagnostics
  imports Prelude "HOL-Library.Word" "HOL-Library.Char_ord" "HOL-Library.List_Lexorder"
    "HOL-Library.Product_Lexorder" "HOL-Library.Option_ord"
begin

text \<open>
  The shared diagnostics crate (\<^verbatim>\<open>crates/pure-analyzer-diagnostics/src\<close>): file identities
  (\<^verbatim>\<open>file.rs\<close>), the closed registries of diagnostic codes (\<^verbatim>\<open>code.rs\<close>) and reason codes
  (\<^verbatim>\<open>verdict.rs\<close>) with their wire identifiers and boundary parsers, labels, fixes and the
  diagnostic record with its builder (\<^verbatim>\<open>fix.rs\<close>, \<^verbatim>\<open>diagnostic.rs\<close>).
\<close>

section \<open>Files\<close>

datatype file_id = FileId (file_index: "32 word")

instantiation file_id :: linorder
begin

definition less_eq_file_id :: "file_id \<Rightarrow> file_id \<Rightarrow> bool" where
  "less_eq_file_id a b \<longleftrightarrow> file_index a \<le> file_index b"

definition less_file_id :: "file_id \<Rightarrow> file_id \<Rightarrow> bool" where
  "less_file_id a b \<longleftrightarrow> file_index a < file_index b"

instance
  by standard (auto simp: less_eq_file_id_def less_file_id_def file_id.expand)

end


section \<open>Diagnostic codes\<close>

datatype DiagCode =
    UnterminatedIsland
  | BadToken
  | MalformedSyntax
  | ParenthesizedTuple
  | IllegalBracketIndex
  | MalformedMilestoningArguments
  | UnknownJoinKind
  | WrongMilestoningArity
  | UnknownProperty
  | UnknownSource
  | ModelMergeConflict
  | DuplicateModelDeclaration
  | UnresolvedModelAssociation

definition ALL_DIAG_CODES :: "DiagCode list" where
  "ALL_DIAG_CODES =
     [UnterminatedIsland, BadToken, MalformedSyntax, ParenthesizedTuple, IllegalBracketIndex,
      MalformedMilestoningArguments, UnknownJoinKind, WrongMilestoningArity, UnknownProperty,
      UnknownSource, ModelMergeConflict, DuplicateModelDeclaration, UnresolvedModelAssociation]"

fun as_str :: "DiagCode \<Rightarrow> string" where
  "as_str UnterminatedIsland = ''PUR0101''"
| "as_str BadToken = ''PUR0102''"
| "as_str MalformedSyntax = ''PUR1200''"
| "as_str ParenthesizedTuple = ''PUR1201''"
| "as_str IllegalBracketIndex = ''PUR1202''"
| "as_str MalformedMilestoningArguments = ''PUR1204''"
| "as_str UnknownJoinKind = ''PUR1210''"
| "as_str WrongMilestoningArity = ''PUR2001''"
| "as_str UnknownProperty = ''PUR2002''"
| "as_str UnknownSource = ''PUR2101''"
| "as_str ModelMergeConflict = ''PUR9000''"
| "as_str DuplicateModelDeclaration = ''PUR9002''"
| "as_str UnresolvedModelAssociation = ''PUR9003''"

datatype DiagFamily = Lexer | Parser | Lint | Tool

fun family :: "DiagCode \<Rightarrow> DiagFamily" where
  "family UnterminatedIsland = Lexer"
| "family BadToken = Lexer"
| "family MalformedSyntax = Parser"
| "family ParenthesizedTuple = Parser"
| "family IllegalBracketIndex = Parser"
| "family MalformedMilestoningArguments = Parser"
| "family UnknownJoinKind = Parser"
| "family WrongMilestoningArity = Lint"
| "family UnknownProperty = Lint"
| "family UnknownSource = Lint"
| "family ModelMergeConflict = Tool"
| "family DuplicateModelDeclaration = Tool"
| "family UnresolvedModelAssociation = Tool"

datatype UnknownDiagCode = UnknownDiagCode (unknown_code_value: string)

definition diag_code_from_str :: "string \<Rightarrow> UnknownDiagCode + DiagCode" where
  "diag_code_from_str v =
     (case find (\<lambda>code. as_str code = v) ALL_DIAG_CODES of
        Some code \<Rightarrow> Inr code
      | None \<Rightarrow> Inl (UnknownDiagCode v))"


section \<open>Reason codes\<close>

datatype ReasonBucket = Fundamental | Recoverable

datatype ReasonCode =
    IndWindow
  | IndPareto
  | IndMultistepFiscal
  | IndDivisionRatio
  | IndMilestoningAsof
  | IndOrderUnderdetermined
  | IndOpaquePredicate
  | IndDifferentSources
  | IndMissingRewrite
  | IndUnmodeledOp
  | IndOpaqueFunctionInWitness
  | IndUnresolvedSchema
  | IndWitnessBudgetExhausted
  | IndPredicateNormalFormGap
  | IndUnparseable
  | ModelIncomplete
  | RelationRowTypeUnknown

definition ALL_REASON_CODES :: "ReasonCode list" where
  "ALL_REASON_CODES =
     [IndWindow, IndPareto, IndMultistepFiscal, IndDivisionRatio, IndMilestoningAsof,
      IndOrderUnderdetermined, IndOpaquePredicate, IndDifferentSources, IndMissingRewrite,
      IndUnmodeledOp, IndOpaqueFunctionInWitness, IndUnresolvedSchema,
      IndWitnessBudgetExhausted, IndPredicateNormalFormGap, IndUnparseable, ModelIncomplete,
      RelationRowTypeUnknown]"

fun reason_id :: "ReasonCode \<Rightarrow> string" where
  "reason_id IndWindow = ''IND_WINDOW''"
| "reason_id IndPareto = ''IND_PARETO''"
| "reason_id IndMultistepFiscal = ''IND_MULTISTEP_FISCAL''"
| "reason_id IndDivisionRatio = ''IND_DIVISION_RATIO''"
| "reason_id IndMilestoningAsof = ''IND_MILESTONING_ASOF''"
| "reason_id IndOrderUnderdetermined = ''IND_ORDER_UNDERDETERMINED''"
| "reason_id IndOpaquePredicate = ''IND_OPAQUE_PREDICATE''"
| "reason_id IndDifferentSources = ''IND_DIFFERENT_SOURCES''"
| "reason_id IndMissingRewrite = ''IND_MISSING_REWRITE''"
| "reason_id IndUnmodeledOp = ''IND_UNMODELED_OP''"
| "reason_id IndOpaqueFunctionInWitness = ''IND_OPAQUE_FUNCTION_IN_WITNESS''"
| "reason_id IndUnresolvedSchema = ''IND_UNRESOLVED_SCHEMA''"
| "reason_id IndWitnessBudgetExhausted = ''IND_WITNESS_BUDGET_EXHAUSTED''"
| "reason_id IndPredicateNormalFormGap = ''IND_PREDICATE_NORMAL_FORM_GAP''"
| "reason_id IndUnparseable = ''IND_UNPARSEABLE''"
| "reason_id ModelIncomplete = ''MODEL_INCOMPLETE''"
| "reason_id RelationRowTypeUnknown = ''RELATION_ROW_TYPE_UNKNOWN''"

definition reason_bucket :: "ReasonCode \<Rightarrow> ReasonBucket" where
  "reason_bucket r =
     (if r \<in> {IndWindow, IndPareto, IndMultistepFiscal, IndDivisionRatio, IndMilestoningAsof,
              IndOrderUnderdetermined, IndOpaquePredicate, IndDifferentSources}
      then Fundamental else Recoverable)"

datatype UnknownReasonCode = UnknownReasonCode (unknown_reason_value: string)

definition reason_from_str :: "string \<Rightarrow> UnknownReasonCode + ReasonCode" where
  "reason_from_str v =
     (case find (\<lambda>reason. reason_id reason = v) ALL_REASON_CODES of
        Some reason \<Rightarrow> Inr reason
      | None \<Rightarrow> Inl (UnknownReasonCode v))"


section \<open>Fixes\<close>

datatype Applicability = MachineApplicable | Suggested | Unsafe

datatype FixProvenance = SyntaxOnly | ModelDependent | SingleArityProven

definition permits_machine_application :: "FixProvenance \<Rightarrow> bool" where
  "permits_machine_application p \<longleftrightarrow> p = SyntaxOnly \<or> p = SingleArityProven"

record text_edit =
  edit_file :: file_id
  edit_span :: text_range
  new_text :: string

text \<open>The key of \<^verbatim>\<open>TextEdit\<close>'s total order.\<close>

definition text_edit_key :: "text_edit \<Rightarrow> file_id \<times> nat \<times> nat \<times> string" where
  "text_edit_key e =
     (edit_file e, range_start (edit_span e), range_end (edit_span e), new_text e)"

record fix_rec =
  fix_title :: string
  applicability :: Applicability
  provenance :: FixProvenance
  fix_edits :: "text_edit list"

definition model_dependent :: "string \<Rightarrow> text_edit list \<Rightarrow> fix_rec" where
  "model_dependent title edits =
     \<lparr>fix_title = title, applicability = Suggested, provenance = ModelDependent,
      fix_edits = edits\<rparr>"

definition single_arity_proven :: "string \<Rightarrow> text_edit list \<Rightarrow> fix_rec" where
  "single_arity_proven title edits =
     \<lparr>fix_title = title, applicability = MachineApplicable, provenance = SingleArityProven,
      fix_edits = edits\<rparr>"


section \<open>Labels and diagnostics\<close>

datatype Severity = Error | Warning | Info | Hint

record label =
  label_file :: file_id
  label_span :: text_range
  label_note :: string

definition label_new :: "file_id \<Rightarrow> text_range \<Rightarrow> label" where
  "label_new file span = \<lparr>label_file = file, label_span = span, label_note = []\<rparr>"

definition label_with_note :: "file_id \<Rightarrow> text_range \<Rightarrow> string \<Rightarrow> label" where
  "label_with_note file span note = \<lparr>label_file = file, label_span = span, label_note = note\<rparr>"

definition label_key :: "label \<Rightarrow> file_id \<times> nat \<times> nat \<times> string" where
  "label_key l =
     (label_file l, range_start (label_span l), range_end (label_span l), label_note l)"

record diagnostic =
  diag_code :: DiagCode
  diag_severity :: Severity
  diag_message :: string
  diag_primary :: label
  diag_secondary :: "label list"
  diag_fix :: "fix_rec option"
  diag_url :: "string option"

text \<open>
  \<^verbatim>\<open>Diagnostic::builder(..)\<close> holds the diagnostic it builds; \<^verbatim>\<open>build\<close> returns it, and each
  \<^verbatim>\<open>with\<close> step updates one field.
\<close>

definition diagnostic_builder :: "DiagCode \<Rightarrow> Severity \<Rightarrow> string \<Rightarrow> label \<Rightarrow> diagnostic" where
  "diagnostic_builder code severity message primary =
     \<lparr>diag_code = code, diag_severity = severity, diag_message = message,
      diag_primary = primary, diag_secondary = [], diag_fix = None, diag_url = None\<rparr>"

definition builder_secondary :: "label \<Rightarrow> diagnostic \<Rightarrow> diagnostic" where
  "builder_secondary l d = d\<lparr>diag_secondary := diag_secondary d @ [l]\<rparr>"

definition builder_fix :: "fix_rec \<Rightarrow> diagnostic \<Rightarrow> diagnostic" where
  "builder_fix f d = d\<lparr>diag_fix := Some f\<rparr>"

definition builder_url :: "string \<Rightarrow> diagnostic \<Rightarrow> diagnostic" where
  "builder_url u d = d\<lparr>diag_url := Some u\<rparr>"

lemma label_new_sel [diag_simps]:
  "label_file (label_new file span) = file"
  "label_span (label_new file span) = span"
  "label_note (label_new file span) = []"
  by (simp_all add: label_new_def)

lemma diagnostic_builder_sel [diag_simps]:
  "diag_code (diagnostic_builder c sv m p) = c"
  "diag_severity (diagnostic_builder c sv m p) = sv"
  "diag_message (diagnostic_builder c sv m p) = m"
  "diag_primary (diagnostic_builder c sv m p) = p"
  "diag_secondary (diagnostic_builder c sv m p) = []"
  "diag_fix (diagnostic_builder c sv m p) = None"
  "diag_url (diagnostic_builder c sv m p) = None"
  by (simp_all add: diagnostic_builder_def)


section \<open>The registries\<close>

interpretation diag_registry: code_registry ALL_DIAG_CODES as_str
proof
  show "c \<in> set ALL_DIAG_CODES" for c
    by (cases c) (simp_all add: ALL_DIAG_CODES_def)
  show "distinct (map as_str ALL_DIAG_CODES)"
    by (simp add: ALL_DIAG_CODES_def)
qed

interpretation reason_registry: code_registry ALL_REASON_CODES reason_id
proof
  show "c \<in> set ALL_REASON_CODES" for c
    by (cases c) (simp_all add: ALL_REASON_CODES_def)
  show "distinct (map reason_id ALL_REASON_CODES)"
    by (simp add: ALL_REASON_CODES_def)
qed

text \<open>The boundary parser of diagnostic codes accepts exactly the registered wire
  identifiers, returns the code that owns the identifier, and otherwise reports the rejected
  text.\<close>

theorem diag_code_from_str_exact:
  "(diag_code_from_str v = Inr c \<longleftrightarrow> as_str c = v) \<and>
   (diag_code_from_str v = Inl e \<longleftrightarrow> e = UnknownDiagCode v \<and> (\<forall>c. as_str c \<noteq> v))"
  unfolding diag_code_from_str_def diag_registry.parse_iff diag_registry.parse_unknown_iff
  by auto

text \<open>The boundary parser of reason codes accepts exactly the registered reason
  identifiers, returns the reason that owns the identifier, and otherwise reports the
  rejected text.\<close>

theorem reason_from_str_exact:
  "(reason_from_str v = Inr r \<longleftrightarrow> reason_id r = v) \<and>
   (reason_from_str v = Inl e \<longleftrightarrow> e = UnknownReasonCode v \<and> (\<forall>r. reason_id r \<noteq> v))"
  unfolding reason_from_str_def reason_registry.parse_iff reason_registry.parse_unknown_iff
  by auto

text \<open>The family of a code is the one its first decimal digit names.\<close>

definition digit_family :: "char \<Rightarrow> DiagFamily option" where
  "digit_family d =
     map_of [(CHR ''0'', Lexer), (CHR ''1'', Parser), (CHR ''2'', Lint), (CHR ''9'', Tool)] d"

text \<open>Every diagnostic code is written as the three letters PUR and four decimal digits,
  and the first digit names the code's family.\<close>

theorem as_str_family:
  "take 3 (as_str c) = ''PUR'' \<and> length (as_str c) = 7 \<and>
   list_all (\<lambda>d. d \<in> set ''0123456789'') (drop 3 (as_str c)) \<and>
   digit_family (as_str c ! 3) = Some (family c)"
  by (cases c) (simp_all add: digit_family_def)

end
