(* ===== verification/ParserCursor.thy ===== *)
theory ParserCursor
  imports EventStream Diagnostics
begin

text \<open>
  The part both parsers share: a cursor over the token stream with the lookahead functions that
  \<^verbatim>\<open>m3.rs\<close> and \<^verbatim>\<open>domain.rs\<close> (\<^verbatim>\<open>crates/pure-analyzer-parser/src\<close>) repeat word for word, and
  the notion of a \<open>trace\<close>: the events and diagnostics a piece of parsing adds while it moves
  the cursor from one token to another. Each parser extends \<open>cursor\<close> by its own event store.
\<close>

section \<open>The cursor\<close>

record cursor =
  c_file :: file_id
  c_tokens :: "token list"
  c_index :: nat
  c_diagnostics :: "diagnostic list"
  c_depth :: nat

definition is_trivia :: "token_kind \<Rightarrow> bool" where
  "is_trivia k \<longleftrightarrow> k = WHITESPACE \<or> k = LINE_COMMENT \<or> k = BLOCK_COMMENT"

definition is_name :: "token_kind \<Rightarrow> bool" where
  "is_name k \<longleftrightarrow>
     k \<in> {IDENT, ALL_KW, LET_KW, ALL_VERSIONS_KW, ALL_VERSIONS_IN_RANGE_KW, TO_BYTES_KW}"

definition raw_kind :: "'a cursor_scheme \<Rightarrow> token_kind option" where
  "raw_kind s = map_option fst (get_at (c_tokens s) (c_index s))"

definition at_eof :: "'a cursor_scheme \<Rightarrow> bool" where
  "at_eof s \<longleftrightarrow> length (c_tokens s) \<le> c_index s"

text \<open>\<^verbatim>\<open>tokens.get(start..)\<close> is \<open>None\<close> when \<open>start\<close> is past the end.\<close>

definition next_significant_index_from :: "nat \<Rightarrow> 'a cursor_scheme \<Rightarrow> nat option" where
  "next_significant_index_from start s =
     (if start \<le> length (c_tokens s)
      then map_option (\<lambda>offset. start + offset)
             (position (\<lambda>(kind, _). \<not> is_trivia kind) (drop start (c_tokens s)))
      else None)"

definition significant_index :: "'a cursor_scheme \<Rightarrow> nat option" where
  "significant_index s = next_significant_index_from (c_index s) s"

definition significant_kind :: "'a cursor_scheme \<Rightarrow> token_kind option" where
  "significant_kind s =
     Option.bind (significant_index s) (\<lambda>index. map_option fst (get_at (c_tokens s) index))"

definition next_significant_kind :: "nat \<Rightarrow> 'a cursor_scheme \<Rightarrow> token_kind option" where
  "next_significant_kind start s =
     map_option (\<lambda>index. fst (c_tokens s ! index)) (next_significant_index_from start s)"

definition at :: "token_kind \<Rightarrow> 'a cursor_scheme \<Rightarrow> bool" where
  "at kind s \<longleftrightarrow> significant_kind s = Some kind"

definition at_any :: "token_kind list \<Rightarrow> 'a cursor_scheme \<Rightarrow> bool" where
  "at_any kinds s \<longleftrightarrow>
     (case significant_kind s of Some kind \<Rightarrow> kind \<in> set kinds | None \<Rightarrow> False)"

definition eof_span :: "'a cursor_scheme \<Rightarrow> text_range" where
  "eof_span s =
     (let end = (case c_tokens s of [] \<Rightarrow> 0 | ts \<Rightarrow> range_end (snd (last ts)))
      in text_range end end)"

definition current_span :: "'a cursor_scheme \<Rightarrow> text_range" where
  "current_span s =
     (case get_at (c_tokens s) (c_index s) of Some (_, r) \<Rightarrow> r | None \<Rightarrow> eof_span s)"

definition push_diagnostic ::
    "DiagCode \<Rightarrow> text_range \<Rightarrow> string \<Rightarrow> 'a cursor_scheme \<Rightarrow> 'a cursor_scheme" where
  "push_diagnostic code span message s =
     s\<lparr>c_diagnostics := c_diagnostics s @
         [diagnostic_builder code Error message (label_new (c_file s) span)]\<rparr>"

text \<open>\<^verbatim>\<open>error_current\<close> of the query parser, \<^verbatim>\<open>syntax_error\<close> of the Domain parser.\<close>

definition error_current :: "string \<Rightarrow> 'a cursor_scheme \<Rightarrow> 'a cursor_scheme" where
  "error_current message s = push_diagnostic MalformedSyntax (current_span s) message s"

definition leave_parse_depth :: "'a cursor_scheme \<Rightarrow> 'a cursor_scheme" where
  "leave_parse_depth s = s\<lparr>c_depth := c_depth s - 1\<rparr>"


subsection \<open>Lookahead\<close>

lemma next_significant_indexD:
  assumes "next_significant_index_from i s = Some j"
  shows "i \<le> j" "j < length (c_tokens s)" "\<not> is_trivia (fst (c_tokens s ! j))"
    "\<And>k. i \<le> k \<Longrightarrow> k < j \<Longrightarrow> is_trivia (fst (c_tokens s ! k))"
proof -
  from assms obtain p where le: "i \<le> length (c_tokens s)" and j: "j = i + p"
    and pos: "position (\<lambda>(kind, _). \<not> is_trivia kind) (drop i (c_tokens s)) = Some p"
    by (auto simp: next_significant_index_from_def split: if_splits)
  note D = position_SomeD [OF pos]
  show "i \<le> j" using j by simp
  show "j < length (c_tokens s)" using D j le by auto
  show "\<not> is_trivia (fst (c_tokens s ! j))" using D j by (auto simp: case_prod_beta)
  show "is_trivia (fst (c_tokens s ! k))" if "i \<le> k" "k < j" for k
    using D that j le_Suc_ex [OF that(1)] by (auto simp: case_prod_beta)
qed

lemma next_significant_decreases:
  "next_significant_index_from i s = Some j \<Longrightarrow>
     length (c_tokens s) - (j + 1) < length (c_tokens s) - i"
  using next_significant_indexD(1,2) [of i s j] by linarith

lemma raw_kind_Some_iff:
  "raw_kind s = Some k \<longleftrightarrow> c_index s < length (c_tokens s) \<and> fst (c_tokens s ! c_index s) = k"
  by (cases "c_tokens s ! c_index s") (auto simp: raw_kind_def get_at_def)

lemma raw_kind_None_iff: "raw_kind s = None \<longleftrightarrow> length (c_tokens s) \<le> c_index s"
  by (auto simp: raw_kind_def get_at_def)

text \<open>When the cursor is not on trivia, the next significant token is the current one.\<close>

lemma significant_kind_raw:
  assumes "raw_kind s = Some k" and "\<not> is_trivia k"
  shows "significant_kind s = Some k"
proof -
  let ?i = "c_index s"
  have "?i < length (c_tokens s)" using assms by (simp add: raw_kind_Some_iff)
  then have "drop ?i (c_tokens s) = c_tokens s ! ?i # drop (Suc ?i) (c_tokens s)"
    by (simp add: Cons_nth_drop_Suc)
  then show ?thesis
    using assms
    by (auto simp: significant_kind_def significant_index_def next_significant_index_from_def
        raw_kind_Some_iff get_at_def case_prod_beta)
qed

lemma significant_kind_Some:
  assumes "significant_kind s = Some k"
  shows "c_index s < length (c_tokens s)" "\<not> is_trivia k"
proof -
  from assms obtain j where j: "next_significant_index_from (c_index s) s = Some j"
    "j < length (c_tokens s)" "fst (c_tokens s ! j) = k"
    by (auto simp: significant_kind_def significant_index_def get_at_Some_iff
        split: bind_splits)
  from next_significant_indexD [OF j(1)] j show "c_index s < length (c_tokens s)" "\<not> is_trivia k"
    by auto
qed


section \<open>Traces\<close>

text \<open>
  \<open>event_depth d es\<close> runs the nesting depth of a fragment from \<open>d\<close>; a fragment never opens a
  \<open>ROOT\<close> and never closes a node it did not open.
\<close>

fun event_depth :: "nat \<Rightarrow> event list \<Rightarrow> nat option" where
  "event_depth d [] = Some d"
| "event_depth d (Open k # es) =
     (if is_node k \<and> k \<noteq> Nod ROOT then event_depth (Suc d) es else None)"
| "event_depth d (Advance # es) = event_depth d es"
| "event_depth d (Close # es) = (if d = 0 then None else event_depth (d - 1) es)"

lemma event_depth_append:
  "event_depth d (xs @ ys) = Option.bind (event_depth d xs) (\<lambda>d'. event_depth d' ys)"
  by (induction d xs rule: event_depth.induct) auto

lemma event_depth_shift: "event_depth d es = Some d' \<Longrightarrow> event_depth (d + c) es = Some (d' + c)"
  by (induction d es rule: event_depth.induct) (auto split: if_splits)

lemma event_depth_nest:
  "event_depth d es = Some d' \<Longrightarrow> nest (Suc d) es = Some (Suc d') \<and> tops (Suc d) es = []"
proof (induction d es rule: event_depth.induct)
  case (4 d es)
  then show ?case by (cases d) auto
qed (auto split: if_splits)

lemma one_root_wrap:
  assumes "event_depth 0 es = Some 0" and "advances es = n"
  shows "one_root n (Open (Nod ROOT) # es @ [Close])"
proof -
  have "nest d (xs @ ys) = Option.bind (nest d xs) (\<lambda>d'. nest d' ys)" for d xs ys
    by (induction d xs rule: nest.induct) auto
  moreover have "tops d (xs @ [Close]) = tops d xs" for d xs
    by (induction d xs rule: tops.induct) auto
  ultimately show ?thesis
    using event_depth_nest [OF assms(1)] assms(2) by (simp add: one_root_def)
qed

text \<open>The span a diagnostic at token position \<open>p\<close> points at.\<close>

definition span_at :: "token list \<Rightarrow> nat \<Rightarrow> text_range" where
  "span_at ts p =
     (if p < length ts then snd (ts ! p)
      else let end = (case ts of [] \<Rightarrow> 0 | _ \<Rightarrow> range_end (snd (last ts))) in text_range end end)"

lemma current_span_at: "current_span s = span_at (c_tokens s) (c_index s)"
  by (auto simp: current_span_def span_at_def get_at_def eof_span_def split: prod.splits list.splits)

text \<open>
  The diagnostics added between token positions \<open>i\<close> and \<open>j\<close>: each one is an error of this file
  at a position in between, positions do not decrease, and the \<open>BadToken\<close> diagnostics are
  exactly one for each unlexable token passed.
\<close>

definition diag_trace :: "token list \<Rightarrow> file_id \<Rightarrow> nat \<Rightarrow> nat \<Rightarrow> diagnostic list \<Rightarrow> bool" where
  "diag_trace ts f i j ds \<longleftrightarrow>
     (\<exists>ps. sorted ps \<and> (\<forall>p\<in>set ps. i \<le> p \<and> p \<le> j) \<and>
        list_all2 (\<lambda>p d. label_span (diag_primary d) = span_at ts p \<and>
          label_file (diag_primary d) = f \<and> diag_severity d = Error) ps ds \<and>
        map fst (filter (\<lambda>(p, d). diag_code d = BadToken) (zip ps ds)) =
          filter (\<lambda>k. fst (ts ! k) = ERROR) [i..<j])"

definition trace ::
    "token list \<Rightarrow> file_id \<Rightarrow> nat \<Rightarrow> nat \<Rightarrow> nat \<Rightarrow> event list \<Rightarrow> diagnostic list \<Rightarrow> bool" where
  "trace ts f n i j es ds \<longleftrightarrow>
     event_depth 0 es = Some n \<and> j = i + advances es \<and> j \<le> length ts \<and> diag_trace ts f i j ds"

lemma diag_trace_nil [simp]: "diag_trace ts f i i []"
  by (simp add: diag_trace_def)

lemma diag_trace_append:
  assumes "diag_trace ts f i j ds" "diag_trace ts f j k ds'" "i \<le> j" "j \<le> k"
  shows "diag_trace ts f i k (ds @ ds')"
proof -
  let ?R = "\<lambda>p d. label_span (diag_primary d) = span_at ts p \<and>
          label_file (diag_primary d) = f \<and> diag_severity d = Error"
  from assms(1) obtain ps where ps: "sorted ps" "\<forall>p\<in>set ps. i \<le> p \<and> p \<le> j" "list_all2 ?R ps ds"
    "map fst (filter (\<lambda>(p, d). diag_code d = BadToken) (zip ps ds)) =
       filter (\<lambda>k. fst (ts ! k) = ERROR) [i..<j]"
    unfolding diag_trace_def by blast
  from assms(2) obtain qs where qs: "sorted qs" "\<forall>p\<in>set qs. j \<le> p \<and> p \<le> k" "list_all2 ?R qs ds'"
    "map fst (filter (\<lambda>(p, d). diag_code d = BadToken) (zip qs ds')) =
       filter (\<lambda>k. fst (ts ! k) = ERROR) [j..<k]"
    unfolding diag_trace_def by blast
  have "sorted (ps @ qs)" using ps(1,2) qs(1,2) sorted_append_bound [of ps qs j] by blast
  moreover have "\<forall>p\<in>set (ps @ qs). i \<le> p \<and> p \<le> k"
    using ps(2) qs(2) assms(3,4) by fastforce
  moreover have "list_all2 ?R (ps @ qs) (ds @ ds')" using ps(3) qs(3) by (rule list_all2_appendI)
  moreover have "[i..<k] = [i..<j] @ [j..<k]"
    using assms(3,4) by (metis le_add_diff_inverse upt_add_eq_append)
  then have "map fst (filter (\<lambda>(p, d). diag_code d = BadToken) (zip (ps @ qs) (ds @ ds'))) =
      filter (\<lambda>k. fst (ts ! k) = ERROR) [i..<k]"
    using ps(4) qs(4) list_all2_lengthD [OF ps(3)] by simp
  ultimately show ?thesis unfolding diag_trace_def by blast
qed

lemma diag_trace_error:
  "diag_code d \<noteq> BadToken \<Longrightarrow> label_span (diag_primary d) = span_at ts i \<Longrightarrow>
     label_file (diag_primary d) = f \<Longrightarrow> diag_severity d = Error \<Longrightarrow> diag_trace ts f i i [d]"
  unfolding diag_trace_def by (rule exI [of _ "[i]"]) auto

lemma diag_trace_skip: "fst (ts ! i) \<noteq> ERROR \<Longrightarrow> diag_trace ts f i (Suc i) []"
  by (simp add: diag_trace_def)

lemma diag_trace_bad_token:
  "fst (ts ! i) = ERROR \<Longrightarrow> diag_code d = BadToken \<Longrightarrow>
     label_span (diag_primary d) = span_at ts i \<Longrightarrow> label_file (diag_primary d) = f \<Longrightarrow>
     diag_severity d = Error \<Longrightarrow> diag_trace ts f i (Suc i) [d]"
  unfolding diag_trace_def by (rule exI [of _ "[i]"]) auto

lemma trace_nil: "i \<le> length ts \<Longrightarrow> trace ts f 0 i i [] []"
  by (simp add: trace_def)

lemma trace_append:
  assumes "trace ts f n i j es ds" and "trace ts f m j k es' ds'"
  shows "trace ts f (n + m) i k (es @ es') (ds @ ds')"
  using assms diag_trace_append [of ts f i j ds k ds'] event_depth_shift [of 0 es' m n]
  by (auto simp: trace_def event_depth_append add.commute)

lemma trace_open:
  "trace ts f n i j es ds \<Longrightarrow> is_node k \<Longrightarrow> k \<noteq> Nod ROOT \<Longrightarrow>
     trace ts f (Suc n) i j (es @ [Open k]) ds"
  by (auto simp: trace_def event_depth_append)

lemma trace_wrap:
  "trace ts f n i j es ds \<Longrightarrow> is_node k \<Longrightarrow> k \<noteq> Nod ROOT \<Longrightarrow>
     trace ts f (Suc n) i j (Open k # es) ds"
  using event_depth_shift [of 0 es n 1] by (auto simp: trace_def)

lemma trace_close: "trace ts f (Suc n) i j es ds \<Longrightarrow> trace ts f n i j (es @ [Close]) ds"
  by (auto simp: trace_def event_depth_append)

lemma trace_diag:
  assumes "trace ts f n i j es ds" and "diag_trace ts f j j ds'"
  shows "trace ts f n i j es (ds @ ds')"
  using assms diag_trace_append [of ts f i j ds j ds'] by (auto simp: trace_def)

lemma trace_advance:
  assumes "trace ts f n i j es ds" and "diag_trace ts f j (Suc j) ds'" and "j < length ts"
  shows "trace ts f n i (Suc j) (es @ [Advance]) (ds @ ds')"
  using assms diag_trace_append [of ts f i j ds "Suc j" ds']
  by (auto simp: trace_def event_depth_append)

lemma push_diagnostic_sel [simp]:
  "c_file (push_diagnostic c sp m s) = c_file s"
  "c_tokens (push_diagnostic c sp m s) = c_tokens s"
  "c_index (push_diagnostic c sp m s) = c_index s"
  "c_depth (push_diagnostic c sp m s) = c_depth s"
  "cursor.more (push_diagnostic c sp m s) = cursor.more s"
  "c_diagnostics (push_diagnostic c sp m s) =
     c_diagnostics s @ [diagnostic_builder c Error m (label_new (c_file s) sp)]"
  by (simp_all add: push_diagnostic_def)


section \<open>Diagnostics of a whole parse\<close>

text \<open>Over the whole stream the \<open>BadToken\<close> diagnostics point at the unlexable tokens in order.\<close>

lemma diag_trace_bad_tokens:
  assumes "diag_trace ts f 0 (length ts) ds"
  shows "map (\<lambda>d. label_span (diag_primary d)) (filter (\<lambda>d. diag_code d = BadToken) ds) =
    map snd (filter (\<lambda>t. fst t = ERROR) ts)"
proof -
  from assms obtain ps where
    spans: "list_all2 (\<lambda>p d. label_span (diag_primary d) = span_at ts p \<and>
        label_file (diag_primary d) = f \<and> diag_severity d = Error) ps ds"
    and bad: "map fst (filter (\<lambda>(p, d). diag_code d = BadToken) (zip ps ds)) =
        filter (\<lambda>k. fst (ts ! k) = ERROR) [0..<length ts]"
    unfolding diag_trace_def by blast
  have "map (\<lambda>d. label_span (diag_primary d)) (filter (\<lambda>d. diag_code d = BadToken) ds) =
      map (span_at ts) (map fst (filter (\<lambda>(p, d). diag_code d = BadToken) (zip ps ds)))"
    using spans by (induction rule: list_all2_induct) auto
  also have "\<dots> = map (\<lambda>k. snd (ts ! k)) (filter (\<lambda>k. fst (ts ! k) = ERROR) [0..<length ts])"
    unfolding bad by (simp add: span_at_def)
  also have "\<dots> = map snd (filter (\<lambda>t. fst t = ERROR) (map ((!) ts) [0..<length ts]))"
    by (simp add: filter_map o_def)
  finally show ?thesis by (simp add: map_nth)
qed

text \<open>Positions in a token stream that tiles a source grow with the source.\<close>

lemma tiles_token:
  "tiles s i (token_spans ts) \<Longrightarrow> t \<in> set ts \<Longrightarrow>
     i \<le> range_start (snd t) \<and> range_start (snd t) \<le> range_end (snd t) \<and>
     range_end (snd t) \<le> length s"
proof -
  assume "tiles s i (token_spans ts)" "t \<in> set ts"
  moreover from this(2) have "(range_start (snd t), range_end (snd t)) \<in> set (token_spans ts)"
    by (force simp: token_spans_def case_prod_beta)
  ultimately show ?thesis by (auto dest: tiles_bounds)
qed

lemma tiles_starts_sorted:
  "tiles s i (token_spans ts) \<Longrightarrow> sorted (map (\<lambda>t. range_start (snd t)) ts)"
proof (induction ts arbitrary: i)
  case (Cons t ts)
  obtain k r where t: "t = (k, r)" by (cases t)
  with Cons.prems have "tiles s (range_end r) (token_spans ts)" "range_start r < range_end r"
    by auto
  with Cons.IH tiles_token [of s "range_end r" ts] t show ?case by fastforce
qed simp

lemma tiles_last_end:
  "tiles s i (token_spans ts) \<Longrightarrow> (case ts of [] \<Rightarrow> i | _ \<Rightarrow> range_end (snd (last ts))) = length s"
proof (induction ts arbitrary: i)
  case (Cons t ts)
  then show ?case by (cases t) (force split: list.splits)
qed simp

lemma span_at_bounds:
  assumes "tiles s 0 (token_spans ts)"
  shows "range_start (span_at ts p) \<le> range_end (span_at ts p) \<and> range_end (span_at ts p) \<le> length s"
  using tiles_token [OF assms, of "ts ! p"] tiles_last_end [OF assms]
  by (auto simp: span_at_def Let_def)

lemma span_at_mono:
  assumes "tiles s 0 (token_spans ts)" and "p \<le> q"
  shows "range_start (span_at ts p) \<le> range_start (span_at ts q)"
proof (cases "q < length ts")
  case True
  with assms sorted_nth_mono [OF tiles_starts_sorted [OF assms(1)] assms(2)] show ?thesis
    by (simp add: span_at_def)
next
  case False
  then have "range_start (span_at ts q) = length s"
    using tiles_last_end [OF assms(1)] by (simp add: span_at_def Let_def)
  with span_at_bounds [OF assms(1), of p] show ?thesis by simp
qed

lemma diag_trace_ordered:
  assumes "tiles s 0 (token_spans ts)" and "diag_trace ts f i j ds"
  shows "sorted (map (\<lambda>d. range_start (label_span (diag_primary d))) ds) \<and>
    (\<forall>d\<in>set ds. label_file (diag_primary d) = f \<and> diag_severity d = Error \<and>
       range_end (label_span (diag_primary d)) \<le> length s)"
proof -
  from assms(2) obtain ps where ps: "sorted ps" and all: "list_all2 (\<lambda>p d.
      label_span (diag_primary d) = span_at ts p \<and> label_file (diag_primary d) = f \<and>
      diag_severity d = Error) ps ds"
    unfolding diag_trace_def by blast
  have "sorted (map (\<lambda>p. range_start (span_at ts p)) ps)"
    using ps span_at_mono [OF assms(1)] by (auto simp: sorted_map intro: sorted_wrt_mono_rel)
  moreover have "map (\<lambda>d. range_start (label_span (diag_primary d))) ds =
      map (\<lambda>p. range_start (span_at ts p)) ps"
    using all by (induction rule: list_all2_induct) auto
  moreover have "label_file (diag_primary d) = f \<and> diag_severity d = Error \<and>
      range_end (label_span (diag_primary d)) \<le> length s" if "d \<in> set ds" for d
    using all that span_at_bounds [OF assms(1)]
    by (auto simp: list_all2_conv_all_nth in_set_conv_nth)
  ultimately show ?thesis by simp
qed

end
