(* ===== verification/M3Parser.thy ===== *)
theory M3Parser
  imports ParserCursor
begin

text \<open>
  The query parser (\<^verbatim>\<open>crates/pure-analyzer-parser/src/m3.rs\<close>), function by function in its own
  order of dependency. A parser state is the shared cursor extended by the event arena.

  Loops of the source are \<open>loop\<close>s over their local variables (a \<open>continue\<close> is \<open>Inl\<close>, a \<open>break\<close>
  or early return \<open>Inr\<close>), or recursive functions where only tokens are skipped. The grammar
  functions call each other recursively through expressions, types and lambda bodies: each
  takes the recursive call as its first argument \<open>rc\<close>, and \<open>m3_run\<close> ties the knot with fuel.
  A result \<open>None\<close> means that the computation did not return.
\<close>

section \<open>State and primitive operations\<close>

record m3_parser = cursor +
  m3_events :: event_stream

definition LOWEST_PRECEDENCE :: nat where "LOWEST_PRECEDENCE = 0"
definition EQUALITY_PRECEDENCE :: nat where "EQUALITY_PRECEDENCE = 1"
definition ADDITIVE_PRECEDENCE :: nat where "ADDITIVE_PRECEDENCE = 2"
definition MULTIPLICATIVE_PRECEDENCE :: nat where "MULTIPLICATIVE_PRECEDENCE = 3"
definition MAX_RECURSION_DEPTH :: nat where "MAX_RECURSION_DEPTH = 256"
definition MAX_UNARY_OPERATOR_COUNT :: nat where "MAX_UNARY_OPERATOR_COUNT = 256"
definition MAX_RETROACTIVE_WRAP_DEPTH :: nat where "MAX_RETROACTIVE_WRAP_DEPTH = 256"

definition EXPRESSION_BOUNDARIES :: "token_kind list" where
  "EXPRESSION_BOUNDARIES = [COMMA, PAREN_CLOSE, BRACKET_CLOSE, BRACE_CLOSE, SEMICOLON]"

definition CODE_BLOCK_BOUNDARIES :: "token_kind list" where
  "CODE_BLOCK_BOUNDARIES = [BRACE_CLOSE, COMMA, PAREN_CLOSE, BRACKET_CLOSE]"

definition m3_new :: "file_id \<Rightarrow> token list \<Rightarrow> m3_parser" where
  "m3_new file tokens =
     \<lparr>c_file = file, c_tokens = tokens, c_index = 0, c_diagnostics = [], c_depth = 0,
      m3_events = stream_new\<rparr>"

definition p_open :: "syntax_kind \<Rightarrow> m3_parser \<Rightarrow> m3_parser" where
  "p_open kind s = s\<lparr>m3_events := stream_append (Open kind) (m3_events s)\<rparr>"

definition p_close :: "m3_parser \<Rightarrow> m3_parser" where
  "p_close s = s\<lparr>m3_events := stream_append Close (m3_events s)\<rparr>"

definition wrap_from :: "nat \<Rightarrow> syntax_kind \<Rightarrow> m3_parser \<Rightarrow> m3_parser" where
  "wrap_from a kind s = s\<lparr>m3_events := insert_after a (Open kind) (m3_events s)\<rparr>"

definition bump :: "m3_parser \<Rightarrow> bool \<times> m3_parser" where
  "bump s =
     (if length (c_tokens s) \<le> c_index s then (False, s)
      else
        let s = (if raw_kind s = Some ERROR
                 then push_diagnostic BadToken (current_span s) ''unrecognized token'' s else s);
            s = s\<lparr>m3_events := stream_append Advance (m3_events s)\<rparr>
        in (True, s\<lparr>c_index := c_index s + 1\<rparr>))"

definition enter_parse_depth :: "m3_parser \<Rightarrow> bool \<times> m3_parser" where
  "enter_parse_depth s =
     (if MAX_RECURSION_DEPTH \<le> c_depth s
      then (False, error_current ''parser nesting limit reached'' s)
      else (True, s\<lparr>c_depth := c_depth s + 1\<rparr>))"

lemma bump_sel:
  "c_tokens (snd (bump s)) = c_tokens s"
  "fst (bump s) \<longleftrightarrow> c_index s < length (c_tokens s)"
  "c_index (snd (bump s)) = (if c_index s < length (c_tokens s) then Suc (c_index s) else c_index s)"
  by (auto simp: bump_def Let_def)

function consume_trivia :: "m3_parser \<Rightarrow> m3_parser" where
  "consume_trivia s =
     (case raw_kind s of
        None \<Rightarrow> s
      | Some kind \<Rightarrow>
          if \<not> is_trivia kind then s
          else let (bumped, s') = bump s
               in if \<not> bumped then s'
                  else if c_index s' = c_index s then s'
                  else consume_trivia s')"
  by pat_completeness auto
termination consume_trivia
proof (relation "measure (\<lambda>s. length (c_tokens s) - c_index s)")
  show "wf (measure (\<lambda>s. length (c_tokens s) - c_index (s :: m3_parser)))" by simp
  show "(s', s) \<in> measure (\<lambda>s. length (c_tokens s) - c_index s)"
    if "x = bump s" "(bumped, s') = x" "\<not> \<not> bumped" for s s' :: m3_parser and x bumped
    using bump_sel [of s] that by (cases "bump s") auto
qed

declare consume_trivia.simps [simp del]

definition expect :: "token_kind \<Rightarrow> string \<Rightarrow> m3_parser \<Rightarrow> bool \<times> m3_parser" where
  "expect kind expected s =
     (let s = consume_trivia s
      in if raw_kind s = Some kind then bump s
         else (False, error_current (''expected '' @ expected) s))"

definition consume_if :: "token_kind \<Rightarrow> m3_parser \<Rightarrow> bool \<times> m3_parser" where
  "consume_if kind s =
     (let s = consume_trivia s in if raw_kind s = Some kind then bump s else (False, s))"

definition consume_name :: "string \<Rightarrow> m3_parser \<Rightarrow> bool \<times> m3_parser" where
  "consume_name expected s =
     (let s = consume_trivia s
      in if (case raw_kind s of Some kind \<Rightarrow> is_name kind | None \<Rightarrow> False) then bump s
         else (False, error_current (''expected '' @ expected) s))"


section \<open>Recovery\<close>

definition recover_one :: "m3_parser \<Rightarrow> m3_parser" where
  "recover_one s =
     (if at_eof s then p_close (p_open (Nod ERROR_NODE) s)
      else p_close (snd (bump (p_open (Nod ERROR_NODE) s))))"

function recover_until_loop :: "token_kind list \<Rightarrow> m3_parser \<Rightarrow> m3_parser" where
  "recover_until_loop boundaries s =
     (if at_eof s then s
      else if at_any boundaries s then s
      else let s' = snd (bump s)
           in if c_index s' = c_index s then s' else recover_until_loop boundaries s')"
  by pat_completeness auto
termination recover_until_loop
  by (relation "measure (\<lambda>(_, s). length (c_tokens s) - c_index s)")
    (auto simp: bump_sel split: if_splits)

declare recover_until_loop.simps [simp del]

definition recover_until :: "token_kind list \<Rightarrow> m3_parser \<Rightarrow> m3_parser" where
  "recover_until boundaries s = p_close (recover_until_loop boundaries (p_open (Nod ERROR_NODE) s))"

definition unterminated_island :: "m3_parser \<Rightarrow> m3_parser" where
  "unterminated_island s =
     p_close (p_open (Nod ERROR_NODE)
       (push_diagnostic UnterminatedIsland (current_span s) ''unterminated island'' s))"

function recover_island_end_loop :: "m3_parser \<Rightarrow> m3_parser" where
  "recover_island_end_loop s =
     (if \<not> at_eof s \<and> \<not> at_any [ISLAND_END, SEMICOLON] s
      then let s' = snd (bump s)
           in if c_index s' = c_index s then s' else recover_island_end_loop s'
      else s)"
  by pat_completeness auto
termination recover_island_end_loop
  by (relation "measure (\<lambda>s. length (c_tokens s) - c_index s)")
    (auto simp: bump_sel split: if_splits)

declare recover_island_end_loop.simps [simp del]

definition recover_island_end :: "m3_parser \<Rightarrow> m3_parser" where
  "recover_island_end s =
     p_close (snd (consume_if ISLAND_END (recover_island_end_loop (p_open (Nod ERROR_NODE) s))))"


section \<open>Lookahead\<close>

definition next_significant_is_from :: "nat \<Rightarrow> token_kind \<Rightarrow> m3_parser \<Rightarrow> bool" where
  "next_significant_is_from start kind s \<longleftrightarrow> next_significant_kind start s = Some kind"

definition next_significant_is :: "token_kind \<Rightarrow> m3_parser \<Rightarrow> bool" where
  "next_significant_is kind s =
     (case significant_index s of
        None \<Rightarrow> False
      | Some index \<Rightarrow> next_significant_is_from (index + 1) kind s)"

definition at_code_block_boundary :: "m3_parser \<Rightarrow> bool" where
  "at_code_block_boundary s = (if at_eof s then True else at_any CODE_BLOCK_BOUNDARIES s)"

definition is_qualified_name_start :: "token_kind \<Rightarrow> bool" where
  "is_qualified_name_start kind \<longleftrightarrow> kind = PATH_SEPARATOR \<or> is_name kind"

definition dot_starts_all_expression :: "m3_parser \<Rightarrow> bool" where
  "dot_starts_all_expression s =
     (case significant_index s of
        None \<Rightarrow> False
      | Some dot_index \<Rightarrow>
          (case next_significant_kind (dot_index + 1) s of
             None \<Rightarrow> False
           | Some kind \<Rightarrow> kind \<in> {ALL_KW, ALL_VERSIONS_KW, ALL_VERSIONS_IN_RANGE_KW}))"

definition is_named_argument_start :: "m3_parser \<Rightarrow> bool" where
  "is_named_argument_start s =
     (case significant_index s of
        None \<Rightarrow> False
      | Some name_index \<Rightarrow>
          (case get_at (c_tokens s) name_index of
             None \<Rightarrow> False
           | Some (kind, _) \<Rightarrow>
               is_name kind \<and> next_significant_is_from (name_index + 1) ASSIGN s))"

function typed_short_lambda_has_pipe :: "nat \<Rightarrow> nat \<Rightarrow> nat \<Rightarrow> m3_parser \<Rightarrow> bool" where
  "typed_short_lambda_has_pipe index angles brackets s =
     (case next_significant_index_from index s of
        None \<Rightarrow> False
      | Some next \<Rightarrow>
          (let kind = fst (c_tokens s ! next);
               at_top_level = (angles = 0 \<and> brackets = 0)
           in if kind = PIPE \<and> at_top_level then True
              else if kind = LT
                then typed_short_lambda_has_pipe (next + 1) (angles + 1) brackets s
              else if kind = GT
                then typed_short_lambda_has_pipe (next + 1) (angles - 1) brackets s
              else if kind = BRACKET_OPEN
                then typed_short_lambda_has_pipe (next + 1) angles (brackets + 1) s
              else if kind = BRACKET_CLOSE \<and> brackets \<noteq> 0
                then typed_short_lambda_has_pipe (next + 1) angles (brackets - 1) s
              else if kind \<in> {COMMA, SEMICOLON, BRACE_CLOSE, PAREN_CLOSE, BRACKET_CLOSE} \<and>
                  at_top_level
                then False
              else typed_short_lambda_has_pipe (next + 1) angles brackets s))"
  by pat_completeness auto
termination typed_short_lambda_has_pipe
  by (relation "measure (\<lambda>(index, _, _, s). length (c_tokens s) - index)")
    (simp_all del: One_nat_def add_Suc_right add: next_significant_decreases)

declare typed_short_lambda_has_pipe.simps [simp del]

definition is_short_lambda_start :: "m3_parser \<Rightarrow> bool" where
  "is_short_lambda_start s =
     (case significant_index s of
        None \<Rightarrow> False
      | Some index \<Rightarrow>
          if \<not> (case get_at (c_tokens s) index of
                   Some (kind, _) \<Rightarrow> is_name kind
                 | None \<Rightarrow> False)
          then False
          else case next_significant_index_from (index + 1) s of
            None \<Rightarrow> False
          | Some next \<Rightarrow>
              (let kind = fst (c_tokens s ! next)
               in if kind = PIPE then True
                  else if kind = COLON then typed_short_lambda_has_pipe (next + 1) 0 0 s
                  else False))"

definition is_lambda_body_start :: "m3_parser \<Rightarrow> bool" where
  "is_lambda_body_start s =
     (if significant_kind s = Some BRACE_OPEN \<or> significant_kind s = Some PIPE then True
      else is_short_lambda_start s)"

definition binary_precedence :: "m3_parser \<Rightarrow> nat option" where
  "binary_precedence s =
     (case significant_kind s of
        None \<Rightarrow> None
      | Some kind \<Rightarrow>
          if kind \<in> {EQ, NEQ, LE, LT, GE, GT} then Some EQUALITY_PRECEDENCE
          else if kind \<in> {PLUS, MINUS} then Some ADDITIVE_PRECEDENCE
          else if kind \<in> {STAR, SLASH} then Some MULTIPLICATIVE_PRECEDENCE
          else None)"

definition reserve_retroactive_wrap :: "nat \<Rightarrow> m3_parser \<Rightarrow> bool \<times> nat \<times> m3_parser" where
  "reserve_retroactive_wrap wrap_depth s =
     (if MAX_RETROACTIVE_WRAP_DEPTH \<le> wrap_depth
      then (False, wrap_depth, error_current ''expression nesting limit reached'' s)
      else (True, wrap_depth + 1, s))"

end
