(* ===== verification/M3Grammar.thy ===== *)
theory M3Grammar
  imports M3Parser
begin

text \<open>
  The grammar functions of the query parser (\<^verbatim>\<open>crates/pure-analyzer-parser/src/m3.rs\<close>) and the
  entry point \<^verbatim>\<open>parse_query\<close>. The first argument \<open>rc\<close> of a grammar function is its recursive
  call: \<open>rc (Expr p)\<close> is \<^verbatim>\<open>parse_expression(p)\<close>, \<open>rc TypeRef\<close> is \<^verbatim>\<open>parse_type_reference\<close>, and
  \<open>rc Primary\<close> is the one call of \<^verbatim>\<open>parse_primary_expression\<close> that closes a cycle, from the
  body of a column specification.
\<close>

datatype m3_call = Expr nat | Primary | TypeRef

type_synonym m3_rec = "m3_call \<Rightarrow> m3_parser \<Rightarrow> (bool \<times> m3_parser) option"


section \<open>Names, types and multiplicities\<close>

definition parse_qualified_name :: "m3_parser \<Rightarrow> (bool \<times> m3_parser) option" where
  "parse_qualified_name s =
     do {
       let s = p_open (Nod QUALIFIED_NAME) s;
       let (_, s) = consume_if PATH_SEPARATOR s;
       let (valid, s) = consume_name ''a name'' s;
       (valid, s) \<leftarrow> loop (\<lambda>(valid, s).
         let start_index = c_index s;
             (has_separator, s) = consume_if PATH_SEPARATOR s
         in if c_index s = start_index \<or> \<not> has_separator then Some (Inr (valid, s))
            else let (valid, s) = consume_name ''a name after `::`'' s
                 in if \<not> valid then Some (Inr (valid, s)) else Some (Inl (valid, s)))
         (valid, s);
       Some (valid, p_close s)
     }"

definition consume_multiplicity_bound :: "m3_parser \<Rightarrow> m3_parser" where
  "consume_multiplicity_bound s =
     (let (is_integer, s) = consume_if INTEGER s
      in if is_integer then s
         else let (is_star, s) = consume_if STAR s
              in if is_star then s else error_current ''expected a multiplicity bound'' s)"

definition parse_multiplicity :: "m3_parser \<Rightarrow> m3_parser" where
  "parse_multiplicity s =
     (let s = p_open (Nod MULTIPLICITY) s;
          (_, s) = expect BRACKET_OPEN ''`[` before a multiplicity'' s;
          s = consume_multiplicity_bound s;
          (has_dot, s) = consume_if DOT s;
          s = (if has_dot
               then let (_, s) = expect DOT ''a second `.` in a multiplicity range'' s
                    in consume_multiplicity_bound s
               else s);
          (_, s) = expect BRACKET_CLOSE ''`]` after a multiplicity'' s
      in p_close s)"

definition parse_optional_multiplicity :: "m3_parser \<Rightarrow> m3_parser" where
  "parse_optional_multiplicity s = (if at BRACKET_OPEN s then parse_multiplicity s else s)"

definition parse_column_info :: "m3_rec \<Rightarrow> m3_parser \<Rightarrow> m3_parser option" where
  "parse_column_info rc s =
     do {
       let s = p_open (Nod COLUMN_INFO) s;
       let (_, s) = consume_name ''a relation column name'' s;
       let (_, s) = expect COLON ''`:` after a relation column name'' s;
       (_, s) \<leftarrow> rc TypeRef s;
       let s = parse_optional_multiplicity s;
       Some (p_close s)
     }"

definition parse_relation_type :: "m3_rec \<Rightarrow> m3_parser \<Rightarrow> m3_parser option" where
  "parse_relation_type rc s =
     do {
       let s = p_open (Nod RELATION_TYPE) s;
       let (_, s) = expect PAREN_OPEN ''`(` before relation columns'' s;
       s \<leftarrow> (if \<not> at PAREN_CLOSE s
             then loop (\<lambda>s. do {
                    let start_index = c_index s;
                    s \<leftarrow> parse_column_info rc s;
                    let (has_comma, s) = consume_if COMMA s;
                    if c_index s = start_index \<or> \<not> has_comma then Some (Inr s) else Some (Inl s)
                  }) s
             else Some s);
       let (_, s) = expect PAREN_CLOSE ''`)` after relation columns'' s;
       Some (p_close s)
     }"

definition parse_type_arguments :: "m3_rec \<Rightarrow> m3_parser \<Rightarrow> m3_parser option" where
  "parse_type_arguments rc s =
     (if at PAREN_OPEN s then parse_relation_type rc s
      else loop (\<lambda>s. do {
             let start_index = c_index s;
             (_, s) \<leftarrow> rc TypeRef s;
             let (has_comma, s) = consume_if COMMA s;
             if c_index s = start_index \<or> \<not> has_comma then Some (Inr s) else Some (Inl s)
           }) s)"

definition parse_type_reference :: "m3_rec \<Rightarrow> m3_parser \<Rightarrow> (bool \<times> m3_parser) option" where
  "parse_type_reference rc s =
     (let (entered, s) = enter_parse_depth s
      in if \<not> entered then Some (False, s)
         else do {
           let s = p_open (Nod TYPE_REF) s;
           (valid, s) \<leftarrow> parse_qualified_name s;
           let (has_arguments, s) = consume_if LT s;
           (valid, s) \<leftarrow> (if has_arguments
             then do {
               s \<leftarrow> parse_type_arguments rc s;
               let (closed, s) = expect GT ''`>` after type arguments'' s;
               Some (closed \<and> valid, s)
             }
             else Some (valid, s));
           let s = p_close s;
           Some (valid, leave_parse_depth s)
         })"


section \<open>Arguments, lambdas and code blocks\<close>

definition parse_query_expression :: "m3_rec \<Rightarrow> m3_parser \<Rightarrow> m3_parser option" where
  "parse_query_expression rc s =
     do {
       let s = p_open (Nod QUERY_EXPR) s;
       (parsed, s) \<leftarrow> rc (Expr LOWEST_PRECEDENCE) s;
       let s = (if \<not> parsed then recover_one (error_current ''expected an expression'' s) else s);
       Some (p_close s)
     }"

definition parse_argument :: "m3_rec \<Rightarrow> bool \<Rightarrow> m3_parser \<Rightarrow> m3_parser option" where
  "parse_argument rc allow_named s =
     do {
       let s = (if allow_named \<and> is_named_argument_start s
                then let (_, s) = consume_name ''an argument name'' s;
                         (_, s) = expect ASSIGN ''`=` after an argument name'' s
                     in s
                else s);
       (parsed, s) \<leftarrow> rc (Expr LOWEST_PRECEDENCE) s;
       Some (if \<not> parsed
             then recover_until [COMMA, PAREN_CLOSE, SEMICOLON]
                    (error_current ''expected an argument expression'' s)
             else s)
     }"

definition parse_argument_list :: "m3_rec \<Rightarrow> bool \<Rightarrow> m3_parser \<Rightarrow> m3_parser option" where
  "parse_argument_list rc allow_named s =
     (if at PAREN_CLOSE s then Some s
      else loop (\<lambda>s. do {
        let start_index = c_index s;
        s \<leftarrow> parse_argument rc allow_named s;
        let s = consume_trivia s;
        if at SEMICOLON s then Some (Inr s)
        else do {
          let (has_comma, s) = consume_if COMMA s;
          if c_index s = start_index then Some (Inr s)
          else if has_comma then
            (if at PAREN_CLOSE s
             then Some (Inr (error_current ''expected an argument after `,`'' s))
             else Some (Inl s))
          else if at PAREN_CLOSE s \<or> at_eof s then Some (Inr s)
          else do {
            let s = error_current ''expected `,` or `)` after an argument'' s;
            let s = recover_until [COMMA, PAREN_CLOSE, SEMICOLON] s;
            if at SEMICOLON s then Some (Inr s)
            else if c_index s = start_index then Some (Inr s)
            else Some (Inl s)
          }
        }
      }) s)"

definition parse_call_arguments :: "m3_rec \<Rightarrow> bool \<Rightarrow> m3_parser \<Rightarrow> m3_parser option" where
  "parse_call_arguments rc allow_named s =
     do {
       let s = p_open (Nod CALL_ARGS) s;
       let (has_open, s) = expect PAREN_OPEN ''`(` before arguments'' s;
       s \<leftarrow> (if has_open then parse_argument_list rc allow_named s else Some s);
       let (_, s) = expect PAREN_CLOSE ''`)` after arguments'' s;
       Some (p_close s)
     }"

definition parse_let_statement :: "m3_rec \<Rightarrow> m3_parser \<Rightarrow> m3_parser option" where
  "parse_let_statement rc s =
     do {
       let s = p_open (Nod LET_STMT) s;
       let (_, s) = expect LET_KW ''`let`'' s;
       let (_, s) = consume_name ''a binding name'' s;
       let (_, s) = expect ASSIGN ''`=` after a binding name'' s;
       (parsed, s) \<leftarrow> rc (Expr LOWEST_PRECEDENCE) s;
       let s = (if \<not> parsed
                then recover_until [SEMICOLON, BRACE_CLOSE, COMMA, PAREN_CLOSE, BRACKET_CLOSE]
                       (error_current ''expected an expression after `=`'' s)
                else s);
       Some (p_close s)
     }"

definition parse_code_block :: "m3_rec \<Rightarrow> m3_parser \<Rightarrow> m3_parser option" where
  "parse_code_block rc s =
     do {
       let s = p_open (Nod CODE_BLOCK) s;
       s \<leftarrow> loop (\<lambda>s.
         if at_code_block_boundary s then Some (Inr s)
         else do {
           let start_index = c_index s;
           s \<leftarrow> (if at LET_KW s then parse_let_statement rc s else parse_query_expression rc s);
           let s = consume_trivia s;
           let (has_separator, s) = consume_if SEMICOLON s;
           if c_index s = start_index then Some (Inr s)
           else if \<not> has_separator then Some (Inr s)
           else Some (Inl (consume_trivia s))
         }) s;
       Some (p_close s)
     }"

definition parse_optional_parameter_type :: "m3_rec \<Rightarrow> m3_parser \<Rightarrow> m3_parser option" where
  "parse_optional_parameter_type rc s =
     (let (has_colon, s) = consume_if COLON s
      in if has_colon
         then do {
           (_, s) \<leftarrow> rc TypeRef s;
           Some (parse_optional_multiplicity s)
         }
         else Some s)"

definition parse_lambda_parameters :: "m3_rec \<Rightarrow> m3_parser \<Rightarrow> m3_parser option" where
  "parse_lambda_parameters rc s =
     (if at PIPE s then Some s
      else do {
        let s = p_open (Nod LAMBDA_PARAMS) s;
        s \<leftarrow> loop (\<lambda>s. do {
          let start_index = c_index s;
          let (parsed_parameter, s) = consume_name ''a lambda parameter'' s;
          s \<leftarrow> parse_optional_parameter_type rc s;
          let (has_comma, s) = consume_if COMMA s;
          if c_index s = start_index then Some (Inr s)
          else if \<not> parsed_parameter \<or> \<not> has_comma then Some (Inr s)
          else Some (Inl s)
        }) s;
        Some (p_close s)
      })"

definition parse_braced_lambda :: "m3_rec \<Rightarrow> m3_parser \<Rightarrow> (bool \<times> m3_parser) option" where
  "parse_braced_lambda rc s =
     do {
       let s = p_open (Nod LAMBDA_EXPR) s;
       let (_, s) = expect BRACE_OPEN ''`{` before a lambda'' s;
       s \<leftarrow> parse_lambda_parameters rc s;
       let (has_pipe, s) = expect PIPE ''`|` after lambda parameters'' s;
       s \<leftarrow> parse_code_block rc s;
       let (has_close, s) = expect BRACE_CLOSE ''`}` after a lambda body'' s;
       Some (has_pipe \<and> has_close, p_close s)
     }"

definition parse_short_lambda :: "m3_rec \<Rightarrow> m3_parser \<Rightarrow> (bool \<times> m3_parser) option" where
  "parse_short_lambda rc s =
     do {
       let s = p_open (Nod LAMBDA_EXPR) s;
       let s = p_open (Nod LAMBDA_PARAMS) s;
       let (_, s) = consume_name ''a lambda parameter'' s;
       s \<leftarrow> parse_optional_parameter_type rc s;
       let s = p_close s;
       let (has_pipe, s) = expect PIPE ''`|` after a lambda parameter'' s;
       s \<leftarrow> parse_code_block rc s;
       Some (has_pipe, p_close s)
     }"

definition parse_parameterless_lambda :: "m3_rec \<Rightarrow> m3_parser \<Rightarrow> (bool \<times> m3_parser) option" where
  "parse_parameterless_lambda rc s =
     do {
       let s = p_open (Nod LAMBDA_EXPR) s;
       let (has_pipe, s) = expect PIPE ''`|` before lambda body'' s;
       s \<leftarrow> parse_code_block rc s;
       Some (has_pipe, p_close s)
     }"


section \<open>Column specifications\<close>

definition parse_column_name :: "m3_parser \<Rightarrow> bool \<times> m3_parser" where
  "parse_column_name s =
     (let s = consume_trivia s;
          name = (case raw_kind s of Some kind \<Rightarrow> is_name kind \<or> kind = STRING | None \<Rightarrow> False)
      in if \<not> name then (False, error_current ''expected a column name'' s)
         else (True, p_close (snd (bump (p_open (Nod COLUMN_NAME) s)))))"

definition parse_column_spec_body :: "m3_rec \<Rightarrow> m3_parser \<Rightarrow> m3_parser option" where
  "parse_column_spec_body rc s =
     do {
       s \<leftarrow> (if is_lambda_body_start s
             then do { (_, s) \<leftarrow> rc Primary s; Some s }
             else do { (_, s) \<leftarrow> rc TypeRef s; Some (parse_optional_multiplicity s) });
       let (has_colon, s) = consume_if COLON s;
       if has_colon
       then if is_lambda_body_start s
            then do { (_, s) \<leftarrow> rc Primary s; Some s }
            else Some (error_current ''expected a lambda after `:` in a column specification'' s)
       else Some s
     }"

definition parse_column_spec :: "m3_rec \<Rightarrow> bool \<Rightarrow> m3_parser \<Rightarrow> (bool \<times> m3_parser) option" where
  "parse_column_spec rc has_tilde s =
     do {
       let s = p_open (Nod COLUMN_SPEC) s;
       let s = (if has_tilde then snd (expect TILDE ''`~` before a column name'' s) else s);
       let (name, s) = parse_column_name s;
       let (has_colon, s) = consume_if COLON s;
       s \<leftarrow> (if has_colon then parse_column_spec_body rc s else Some s);
       Some (name, p_close s)
     }"

definition parse_column_spec_array_items :: "m3_rec \<Rightarrow> m3_parser \<Rightarrow> m3_parser option" where
  "parse_column_spec_array_items rc s =
     (if at BRACKET_CLOSE s then Some s
      else loop (\<lambda>s. do {
        let start_index = c_index s;
        (_, s) \<leftarrow> parse_column_spec rc False s;
        let s = consume_trivia s;
        if at SEMICOLON s then Some (Inr s)
        else do {
          let (has_comma, s) = consume_if COMMA s;
          if c_index s = start_index then do {
            let s = recover_until [COMMA, BRACKET_CLOSE, SEMICOLON] s;
            if significant_kind s \<noteq> Some COMMA then Some (Inr s)
            else do {
              let comma_index = c_index s;
              let (recovered_comma, s) = consume_if COMMA s;
              if \<not> (recovered_comma \<and> comma_index < c_index s) then Some (Inr s)
              else if at BRACKET_CLOSE s \<or> at_eof s
                then Some (Inr (error_current ''expected a column specification after `,`'' s))
              else Some (Inl s)
            }
          }
          else if has_comma then
            (if at BRACKET_CLOSE s \<or> at_eof s
             then Some (Inr (error_current ''expected a column specification after `,`'' s))
             else Some (Inl s))
          else if at BRACKET_CLOSE s \<or> at_eof s then Some (Inr s)
          else do {
            let s = error_current ''expected `,` or `]` after a column specification'' s;
            let recovery_start = c_index s;
            let s = recover_until [COMMA, BRACKET_CLOSE, SEMICOLON] s;
            if at SEMICOLON s \<or> at BRACKET_CLOSE s \<or> at_eof s then Some (Inr s)
            else if c_index s = recovery_start then Some (Inr s)
            else do {
              let (_, s) = consume_if COMMA s;
              if at BRACKET_CLOSE s \<or> at_eof s
              then Some (Inr (error_current ''expected a column specification after `,`'' s))
              else Some (Inl s)
            }
          }
        }
      }) s)"

definition parse_column_spec_array :: "m3_rec \<Rightarrow> m3_parser \<Rightarrow> (bool \<times> m3_parser) option" where
  "parse_column_spec_array rc s =
     do {
       let s = p_open (Nod COLUMN_SPEC_ARRAY) s;
       let (_, s) = expect TILDE ''`~` before a column specification'' s;
       let (_, s) = expect BRACKET_OPEN ''`[` after `~`'' s;
       s \<leftarrow> parse_column_spec_array_items rc s;
       let (has_close, s) = expect BRACKET_CLOSE ''`]` after column specifications'' s;
       let s = p_close s;
       Some (has_close \<or> at SEMICOLON s, s)
     }"

definition parse_column_builder :: "m3_rec \<Rightarrow> m3_parser \<Rightarrow> (bool \<times> m3_parser) option" where
  "parse_column_builder rc s =
     (if next_significant_is BRACKET_OPEN s then parse_column_spec_array rc s
      else parse_column_spec rc True s)"


section \<open>Islands\<close>

datatype OpaqueIslandDelimiter = IslandDelimiter | BraceDelimiter

definition parse_store_table_pointer :: "m3_parser \<Rightarrow> (bool \<times> m3_parser) option" where
  "parse_store_table_pointer s =
     do {
       let s = p_open (Nod ISLAND) s;
       let s = p_open (Nod STORE_TABLE_POINTER) s;
       let (_, s) = expect HASH_STORE_OPEN ''`#>{` before a table pointer'' s;
       (has_path, s) \<leftarrow> parse_qualified_name s;
       let (has_dot, s) = expect DOT ''`.` between a database and table name'' s;
       let (has_table, s) = consume_name ''a table name'' s;
       let (has_close, s) = consume_if ISLAND_END s;
       let s = (if \<not> has_close then recover_island_end (unterminated_island s) else s);
       let s = p_close (p_close s);
       Some (has_path \<and> has_dot \<and> has_table \<and> has_close, s)
     }"

definition parse_navigation_path_island :: "m3_parser \<Rightarrow> bool \<times> m3_parser" where
  "parse_navigation_path_island s =
     (let s = p_open (Nod ISLAND) s;
          s = p_open (Nod NAV_PATH_ISLAND) s;
          (consumed, s) = bump s
      in (consumed, p_close (p_close s)))"

text \<open>The loop leaves with \<open>True\<close> when the outermost island is closed. The head of the
  delimiter list is the top of the source's stack.\<close>

definition parse_braced_opaque_island :: "m3_parser \<Rightarrow> (bool \<times> m3_parser) option" where
  "parse_braced_opaque_island s =
     do {
       let s = p_open (Nod ISLAND) s;
       let s = p_open (Nod OPAQUE_ISLAND) s;
       let (_, s) = bump s;
       (closed, s) \<leftarrow> loop (\<lambda>(delimiters, s).
         if at_eof s then Some (Inr (False, s))
         else
           let start_index = c_index s;
               kind = raw_kind s
           in if kind = Some HASH_ISLAND_OPEN \<or> kind = Some HASH_STORE_OPEN then
                (let (_, s) = bump s
                 in if c_index s = start_index then Some (Inr (False, s))
                    else Some (Inl (IslandDelimiter # delimiters, s)))
              else if kind = Some BRACE_OPEN then
                (let (_, s) = bump s
                 in if c_index s = start_index then Some (Inr (False, s))
                    else Some (Inl (BraceDelimiter # delimiters, s)))
              else if kind = Some BRACE_CLOSE \<and> get_at delimiters 0 = Some BraceDelimiter then
                (let (_, s) = bump s
                 in if c_index s = start_index then Some (Inr (False, s))
                    else Some (Inl (tl delimiters, s)))
              else if kind = Some ISLAND_END \<and> get_at delimiters 0 = Some IslandDelimiter then
                (let delimiters = tl delimiters;
                     (_, s) = bump s
                 in if delimiters = [] then Some (Inr (True, p_close (p_close s)))
                    else if c_index s = start_index then Some (Inr (False, s))
                    else Some (Inl (delimiters, s)))
              else
                (let (_, s) = bump s
                 in if c_index s = start_index then Some (Inr (False, s))
                    else Some (Inl (delimiters, s))))
         ([IslandDelimiter], s);
       if closed then Some (True, s)
       else Some (False, p_close (p_close (unterminated_island s)))
     }"

definition parse_hash_opaque_island :: "m3_parser \<Rightarrow> (bool \<times> m3_parser) option" where
  "parse_hash_opaque_island s =
     do {
       let s = p_open (Nod ISLAND) s;
       let s = p_open (Nod OPAQUE_ISLAND) s;
       let (_, s) = bump s;
       (closed, s) \<leftarrow> loop (\<lambda>s.
         if at_eof s then Some (Inr (False, s))
         else if raw_kind s = Some HASH \<or> raw_kind s = Some ISLAND_END then
           Some (Inr (True, p_close (p_close (snd (bump s)))))
         else
           let start_index = c_index s;
               (_, s) = bump s
           in if c_index s = start_index then Some (Inr (False, s)) else Some (Inl s)) s;
       if closed then Some (True, s)
       else Some (False, p_close (p_close (unterminated_island s)))
     }"

definition parse_island :: "m3_parser \<Rightarrow> (bool \<times> m3_parser) option" where
  "parse_island s =
     (if raw_kind s = Some HASH_STORE_OPEN then parse_store_table_pointer s
      else if raw_kind s = Some NAV_PATH_BLOCK then Some (parse_navigation_path_island s)
      else if raw_kind s = Some HASH_ISLAND_OPEN then parse_braced_opaque_island s
      else if raw_kind s = Some HASH then parse_hash_opaque_island s
      else Some (False, s))"


section \<open>Primary expressions\<close>

definition parse_bad_token :: "m3_parser \<Rightarrow> bool \<times> m3_parser" where
  "parse_bad_token s =
     (let (consumed, s) = bump (p_open (Nod ERROR_NODE) s) in (consumed, p_close s))"

definition parse_variable_expression :: "m3_parser \<Rightarrow> bool \<times> m3_parser" where
  "parse_variable_expression s =
     (let s = p_open (Nod VARIABLE_EXPR) s;
          (has_dollar, s) = expect DOLLAR ''`$` before a variable name'' s;
          (has_name, s) = consume_name ''a variable name'' s
      in (has_dollar \<and> has_name, p_close s))"

definition parse_literal_expression :: "m3_parser \<Rightarrow> bool \<times> m3_parser" where
  "parse_literal_expression s =
     (let (consumed, s) = bump (p_open (Nod LITERAL_EXPR) s) in (consumed, p_close s))"

definition parse_parenthesized_items :: "m3_rec \<Rightarrow> m3_parser \<Rightarrow> m3_parser option" where
  "parse_parenthesized_items rc s =
     (if at PAREN_CLOSE s then Some s
      else loop (\<lambda>s. do {
        let start_index = c_index s;
        (parsed, s) \<leftarrow> rc (Expr LOWEST_PRECEDENCE) s;
        let s = (if \<not> parsed
                 then recover_until [COMMA, PAREN_CLOSE, SEMICOLON]
                        (error_current ''expected an expression inside parentheses'' s)
                 else s);
        let (has_comma, s) = consume_if COMMA s;
        if c_index s = start_index \<or> \<not> has_comma then Some (Inr s)
        else if at PAREN_CLOSE s
          then Some (Inr (error_current ''expected an expression after `,`'' s))
        else Some (Inl s)
      }) s)"

definition parse_parenthesized_expression ::
    "m3_rec \<Rightarrow> m3_parser \<Rightarrow> (bool \<times> m3_parser) option" where
  "parse_parenthesized_expression rc s =
     do {
       let s = p_open (Nod PAREN_EXPR) s;
       let (has_open, s) = expect PAREN_OPEN ''`(` before an expression'' s;
       s \<leftarrow> parse_parenthesized_items rc s;
       let (has_close, s) = expect PAREN_CLOSE ''`)` after an expression'' s;
       Some (has_open \<and> has_close, p_close s)
     }"

definition parse_collection_items :: "m3_rec \<Rightarrow> m3_parser \<Rightarrow> m3_parser option" where
  "parse_collection_items rc s =
     (if at BRACKET_CLOSE s then Some s
      else loop (\<lambda>s. do {
        let start_index = c_index s;
        (parsed, s) \<leftarrow> rc (Expr LOWEST_PRECEDENCE) s;
        let s = (if \<not> parsed
                 then recover_until [COMMA, BRACKET_CLOSE, SEMICOLON]
                        (error_current ''expected an expression inside a collection literal'' s)
                 else s);
        let s = consume_trivia s;
        if at SEMICOLON s then Some (Inr s)
        else do {
          let (has_comma, s) = consume_if COMMA s;
          if c_index s = start_index then Some (Inr s)
          else if has_comma then
            (if at BRACKET_CLOSE s
             then Some (Inr (error_current ''expected an expression after `,`'' s))
             else Some (Inl s))
          else if at BRACKET_CLOSE s \<or> at_eof s then Some (Inr s)
          else do {
            let s = error_current ''expected `,` or `]` after a collection item'' s;
            let recovery_start = c_index s;
            let s = recover_until [COMMA, BRACKET_CLOSE, SEMICOLON] s;
            if at SEMICOLON s \<or> at BRACKET_CLOSE s \<or> at_eof s then Some (Inr s)
            else if c_index s = recovery_start then Some (Inr s)
            else do {
              let (_, s) = consume_if COMMA s;
              if at BRACKET_CLOSE s
              then Some (Inr (error_current ''expected an expression after `,`'' s))
              else Some (Inl s)
            }
          }
        }
      }) s)"

definition parse_collection_literal :: "m3_rec \<Rightarrow> m3_parser \<Rightarrow> (bool \<times> m3_parser) option" where
  "parse_collection_literal rc s =
     do {
       let s = p_open (Nod COLLECTION_LITERAL) s;
       let (_, s) = expect BRACKET_OPEN ''`[` before a collection literal'' s;
       s \<leftarrow> parse_collection_items rc s;
       let (has_close, s) = expect BRACKET_CLOSE ''`]` after a collection literal'' s;
       Some (has_close, p_close s)
     }"

definition parse_new_instance_expression ::
    "m3_rec \<Rightarrow> m3_parser \<Rightarrow> (bool \<times> m3_parser) option" where
  "parse_new_instance_expression rc s =
     do {
       let s = p_open (Nod NEW_INSTANCE_EXPR) s;
       let (_, s) = expect NEW_SYMBOL ''`^` before an instance type'' s;
       (has_target, s) \<leftarrow> (if at DOLLAR s then Some (parse_variable_expression s)
                           else parse_qualified_name s);
       s \<leftarrow> (if at PAREN_OPEN s then parse_call_arguments rc True s else Some s);
       Some (has_target, p_close s)
     }"

definition parse_cast_expression :: "m3_rec \<Rightarrow> m3_parser \<Rightarrow> (bool \<times> m3_parser) option" where
  "parse_cast_expression rc s =
     do {
       let s = p_open (Nod CAST_EXPR) s;
       let (_, s) = expect AT ''`@` before a cast type'' s;
       (has_type, s) \<leftarrow> rc TypeRef s;
       Some (has_type, p_close s)
     }"

definition parse_primary_expression :: "m3_rec \<Rightarrow> m3_parser \<Rightarrow> (bool \<times> m3_parser) option" where
  "parse_primary_expression rc s =
     (let s = consume_trivia s
      in case raw_kind s of
           None \<Rightarrow> Some (False, s)
         | Some kind \<Rightarrow>
             if kind = DOLLAR then Some (parse_variable_expression s)
             else if kind \<in> {INTEGER, BOOLEAN, STRING, DATE_TIME, STRICT_DATE, LATEST_DATE}
               then Some (parse_literal_expression s)
             else if kind = PAREN_OPEN then parse_parenthesized_expression rc s
             else if kind = BRACKET_OPEN then parse_collection_literal rc s
             else if kind = BRACE_OPEN then parse_braced_lambda rc s
             else if kind = PIPE then parse_parameterless_lambda rc s
             else if kind = TILDE then parse_column_builder rc s
             else if kind = NEW_SYMBOL then parse_new_instance_expression rc s
             else if kind = AT then parse_cast_expression rc s
             else if kind \<in> {HASH_STORE_OPEN, HASH_ISLAND_OPEN, NAV_PATH_BLOCK, HASH}
               then parse_island s
             else if kind = ERROR then Some (parse_bad_token s)
             else if is_name kind \<and> is_short_lambda_start s then parse_short_lambda rc s
             else if is_qualified_name_start kind then parse_qualified_name s
             else Some (False, s))"


section \<open>Postfix, unary and binary expressions\<close>

definition parse_all_expression :: "m3_rec \<Rightarrow> nat \<Rightarrow> m3_parser \<Rightarrow> m3_parser option" where
  "parse_all_expression rc expression_start s =
     do {
       let s = wrap_from expression_start (Nod ALL_EXPR) s;
       let (_, s) = expect DOT ''`.` before an all-expression'' s;
       let s = consume_trivia s;
       s \<leftarrow> (if raw_kind s = Some ALL_KW \<or> raw_kind s = Some ALL_VERSIONS_IN_RANGE_KW
             then let (_, s) = bump s
                  in if at PAREN_OPEN s then parse_call_arguments rc False s
                     else Some (error_current ''expected arguments after an all-expression name'' s)
             else if raw_kind s = Some ALL_VERSIONS_KW then Some (snd (bump s))
             else Some (error_current ''expected an all-expression name'' s));
       Some (p_close s)
     }"

definition parse_property_navigation :: "m3_rec \<Rightarrow> m3_parser \<Rightarrow> m3_parser option" where
  "parse_property_navigation rc s =
     do {
       let s = p_open (Nod PROPERTY_NAV) s;
       let (_, s) = expect DOT ''`.` before a property name'' s;
       let (_, s) = consume_name ''a property name'' s;
       s \<leftarrow> (if at PAREN_OPEN s then parse_call_arguments rc False s else Some s);
       Some (p_close s)
     }"

definition parse_arrow_call :: "m3_rec \<Rightarrow> m3_parser \<Rightarrow> m3_parser option" where
  "parse_arrow_call rc s =
     do {
       let s = p_open (Nod ARROW_CALL) s;
       let (_, s) = expect ARROW ''`->`'' s;
       (_, s) \<leftarrow> parse_qualified_name s;
       s \<leftarrow> (if at PAREN_OPEN s then parse_call_arguments rc False s
             else Some (error_current ''expected arguments after an arrow-call name'' s));
       Some (p_close s)
     }"

definition parse_function_call :: "m3_rec \<Rightarrow> nat \<Rightarrow> m3_parser \<Rightarrow> m3_parser option" where
  "parse_function_call rc expression_start s =
     do {
       let s = wrap_from expression_start (Nod FUNCTION_CALL) s;
       s \<leftarrow> parse_call_arguments rc False s;
       Some (p_close s)
     }"

definition parse_bracket_index :: "m3_rec \<Rightarrow> m3_parser \<Rightarrow> m3_parser option" where
  "parse_bracket_index rc s =
     do {
       let s = p_open (Nod BRACKET_INDEX) s;
       let (_, s) = expect BRACKET_OPEN ''`[` before an index'' s;
       s \<leftarrow> (if \<not> at BRACKET_CLOSE s
             then do {
               (parsed, s) \<leftarrow> rc (Expr LOWEST_PRECEDENCE) s;
               Some (if \<not> parsed
                     then recover_until [BRACKET_CLOSE, SEMICOLON]
                            (error_current ''expected an index expression'' s)
                     else s)
             }
             else Some s);
       let (_, s) = expect BRACKET_CLOSE ''`]` after an index'' s;
       Some (p_close s)
     }"

definition parse_postfix_expression :: "m3_rec \<Rightarrow> m3_parser \<Rightarrow> (bool \<times> m3_parser) option" where
  "parse_postfix_expression rc s =
     (case anchor (m3_events s) of
        None \<Rightarrow> Some (False, error_current ''parser has no containing syntax node'' s)
      | Some expression_start \<Rightarrow> do {
          (parsed, s) \<leftarrow> parse_primary_expression rc s;
          if \<not> parsed then Some (False, s)
          else do {
            s \<leftarrow> loop (\<lambda>(wrap_depth, s).
              case significant_kind s of
                None \<Rightarrow> Some (Inr s)
              | Some kind \<Rightarrow>
                  (let start_index = c_index s;
                       next = (\<lambda>wrap_depth s.
                         if c_index s = start_index then Some (Inr s) else Some (Inl (wrap_depth, s)))
                   in if kind = DOT \<and> dot_starts_all_expression s then
                        (let (reserved, wrap_depth, s) = reserve_retroactive_wrap wrap_depth s
                         in if \<not> reserved then Some (Inr s)
                            else do {
                              s \<leftarrow> parse_all_expression rc expression_start s;
                              next wrap_depth s
                            })
                      else if kind = DOT then do {
                        s \<leftarrow> parse_property_navigation rc s;
                        next wrap_depth s
                      }
                      else if kind = ARROW then do {
                        s \<leftarrow> parse_arrow_call rc s;
                        next wrap_depth s
                      }
                      else if kind = BRACKET_OPEN then do {
                        s \<leftarrow> parse_bracket_index rc s;
                        next wrap_depth s
                      }
                      else if kind = PAREN_OPEN then
                        (let (reserved, wrap_depth, s) = reserve_retroactive_wrap wrap_depth s
                         in if \<not> reserved then Some (Inr s)
                            else do {
                              s \<leftarrow> parse_function_call rc expression_start s;
                              next wrap_depth s
                            })
                      else Some (Inr s)))
              (0, s);
            Some (True, s)
          }
        })"

definition parse_unary_expression :: "m3_rec \<Rightarrow> m3_parser \<Rightarrow> (bool \<times> m3_parser) option" where
  "parse_unary_expression rc s =
     do {
       let s = consume_trivia s;
       (limit_reached, unary_count, s) \<leftarrow> loop (\<lambda>(unary_count, s).
         if at_any [PLUS, MINUS] s then
           (if unary_count = MAX_UNARY_OPERATOR_COUNT
            then Some (Inr (True, unary_count,
                   (p_close ^^ unary_count)
                     (error_current ''unary-expression nesting limit reached'' s)))
            else Some (Inl (unary_count + 1, snd (bump (p_open (Nod UNARY_EXPR) s)))))
         else Some (Inr (False, unary_count, s)))
         (0, s);
       if limit_reached then Some (False, s)
       else do {
         (parsed_operand, s) \<leftarrow> parse_postfix_expression rc s;
         let s = (if \<not> parsed_operand \<and> 0 < unary_count
                  then error_current ''expected an operand after a unary operator'' s else s);
         Some (parsed_operand, (p_close ^^ unary_count) s)
       }
     }"

definition parse_expression_at_depth ::
    "m3_rec \<Rightarrow> nat \<Rightarrow> m3_parser \<Rightarrow> (bool \<times> m3_parser) option" where
  "parse_expression_at_depth rc minimum_precedence s =
     (case anchor (m3_events s) of
        None \<Rightarrow> Some (False, error_current ''parser has no containing syntax node'' s)
      | Some expression_start \<Rightarrow> do {
          (parsed, s) \<leftarrow> parse_unary_expression rc s;
          if \<not> parsed then Some (False, s)
          else do {
            (active, s) \<leftarrow> loop (\<lambda>(active, s).
              case binary_precedence s of
                None \<Rightarrow> Some (Inr (active, s))
              | Some precedence \<Rightarrow>
                  (let start_index = c_index s
                   in if precedence < minimum_precedence then Some (Inr (active, s))
                      else do {
                        let (active, s) =
                          (if active \<noteq> Some precedence
                           then let s = (if active \<noteq> None then p_close s else s)
                                in (Some precedence, wrap_from expression_start (Nod BINARY_EXPR) s)
                           else (active, s));
                        let s = consume_trivia s;
                        let (_, s) = bump s;
                        (parsed, s) \<leftarrow> rc (Expr (precedence + 1)) s;
                        let s = (if \<not> parsed
                                 then recover_until EXPRESSION_BOUNDARIES
                                   (error_current ''expected an expression after an operator'' s)
                                 else s);
                        if c_index s = start_index then Some (Inr (active, s)) else Some (Inl (active, s))
                      }))
              (None, s);
            Some (True, if active \<noteq> None then p_close s else s)
          }
        })"

definition parse_expression :: "m3_rec \<Rightarrow> nat \<Rightarrow> m3_parser \<Rightarrow> (bool \<times> m3_parser) option" where
  "parse_expression rc minimum_precedence s =
     (let (entered, s) = enter_parse_depth s
      in if \<not> entered then Some (False, s)
         else do {
           (parsed, s) \<leftarrow> parse_expression_at_depth rc minimum_precedence s;
           Some (parsed, leave_parse_depth s)
         })"


section \<open>Tying the recursive calls\<close>

fun m3_dispatch :: "m3_rec \<Rightarrow> m3_rec" where
  "m3_dispatch rc (Expr p) = parse_expression rc p"
| "m3_dispatch rc Primary = parse_primary_expression rc"
| "m3_dispatch rc TypeRef = parse_type_reference rc"

fun m3_run :: "nat \<Rightarrow> m3_rec" where
  "m3_run 0 call s = None"
| "m3_run (Suc fuel) call s = m3_dispatch (m3_run fuel) call s"

text \<open>
  Every cycle of calls passes through \<^verbatim>\<open>enter_parse_depth\<close>, which admits 256 levels; each level
  uses at most two nested calls (an expression or type, and the lambda of a column
  specification).
\<close>

definition m3_fuel :: nat where
  "m3_fuel = 2 * MAX_RECURSION_DEPTH + 1"


section \<open>Whole sources\<close>

definition consume_source_separator :: "m3_parser \<Rightarrow> m3_parser" where
  "consume_source_separator s =
     (if at_eof s then s
      else let (consumed, s) = consume_if SEMICOLON s
           in if consumed then s
              else let s = error_current ''expected `;` between query expressions'' s;
                       s = recover_until [SEMICOLON] s
                   in snd (consume_if SEMICOLON s))"

text \<open>One round of the loop of \<^verbatim>\<open>parse_source\<close>, then the loop.\<close>

definition parse_source_round :: "m3_rec \<Rightarrow> m3_parser \<Rightarrow> (m3_parser + m3_parser) option" where
  "parse_source_round rc s =
     (if c_index s < length (c_tokens s) then
        (let start_index = c_index s;
             (is_separator, s) = consume_if SEMICOLON s
         in if is_separator then
              (let s = consume_trivia s
               in if c_index s = start_index then Some (Inr s) else Some (Inl s))
            else do {
              s \<leftarrow> parse_query_expression rc s;
              let s = consume_trivia s;
              let s = consume_source_separator s;
              if c_index s = start_index then Some (Inr s) else Some (Inl (consume_trivia s))
            })
      else Some (Inr s))"

definition parse_source :: "m3_rec \<Rightarrow> m3_parser \<Rightarrow> m3_parser option" where
  "parse_source rc s = loop (parse_source_round rc) (consume_trivia s)"

definition m3_parse :: "m3_parser \<Rightarrow> (event list \<times> diagnostic list) option" where
  "m3_parse s =
     do {
       let s = p_open (Nod ROOT) s;
       s \<leftarrow> parse_source (m3_run m3_fuel) s;
       let s = p_close s;
       events \<leftarrow> into_events (m3_events s);
       Some (events, c_diagnostics s)
     }"

record parse =
  parse_green :: green_node
  parse_diagnostics :: "diagnostic list"

definition parse_query ::
    "logos \<Rightarrow> nat \<Rightarrow> string \<Rightarrow> file_id \<Rightarrow> (BuildError + parse) option" where
  "parse_query logos owner source file =
     do {
       let tokens = lex logos source;
       (events, diagnostics) \<leftarrow> m3_parse (m3_new file tokens);
       let builder = fold builder_push events (builder_new owner source tokens);
       Some (case builder_finish builder of
               Inl e \<Rightarrow> Inl e
             | Inr green \<Rightarrow> Inr \<lparr>parse_green = green, parse_diagnostics = diagnostics\<rparr>)
     }"

end
