(* ===== verification/ParseRules.thy ===== *)
theory ParseRules
  imports ParserCursor
begin

text \<open>
  Symbolic execution of grammar functions, shared by the two parsers. Each parser has its own
  relation \<open>ext d n i s0 s\<close> between the state \<open>s0\<close> where parsing of a construct began and a
  later state \<open>s\<close>: nesting counter \<open>d\<close>, \<open>n\<close> nodes opened and not closed since, the cursor at
  least at token \<open>i\<close>. The locale \<open>parse_trace\<close> states what the rules need of it.

  The \<open>wp\<close> rules run a grammar function one statement at a time: the first premise of each is
  the \<open>ext\<close> fact of the current state, the last continues with the next state and its fact.
\<close>

lemma wp_let_plain: "returns (f x) Q \<Longrightarrow> returns (Let x f) Q"
  by simp

lemma wp_case_prod [wp]:
  "(\<And>a b. c = (a, b) \<Longrightarrow> returns (f a b s) Q) \<Longrightarrow> returns ((case c of (a, b) \<Rightarrow> f a b) s) Q"
  by (cases c) simp

text \<open>
  What one round of a loop owes when it starts at token \<open>j\<close>: it continues only if the cursor
  has moved. \<open>pi\<close> and \<open>po\<close> project the parser state from the loop's variables and its result,
  \<open>ni\<close> and \<open>no\<close> give the number of nodes that are open there.
\<close>

definition round_post ::
    "(nat \<Rightarrow> nat \<Rightarrow> nat \<Rightarrow> 's \<Rightarrow> 's \<Rightarrow> bool) \<Rightarrow> ('x \<Rightarrow> 's) \<Rightarrow> ('y \<Rightarrow> 's) \<Rightarrow>
       ('x \<Rightarrow> nat) \<Rightarrow> ('y \<Rightarrow> nat) \<Rightarrow> nat \<Rightarrow> nat \<Rightarrow> 's \<Rightarrow> ('x + 'y) \<Rightarrow> bool" where
  "round_post ext pi po ni no d j s0 r =
     (case r of Inl x \<Rightarrow> ext d (ni x) (Suc j) s0 (pi x) | Inr y \<Rightarrow> ext d (no y) j s0 (po y))"

locale parse_trace =
  fixes ext :: "nat \<Rightarrow> nat \<Rightarrow> nat \<Rightarrow> 'a cursor_scheme \<Rightarrow> 'a cursor_scheme \<Rightarrow> bool"
  assumes trace_tokens: "ext d n i s0 s \<Longrightarrow> c_tokens s = c_tokens s0"
    and trace_index: "ext d n i s0 s \<Longrightarrow> i \<le> c_index s"
    and trace_bound: "ext d n i s0 s \<Longrightarrow> c_index s \<le> length (c_tokens s)"
    and trace_lower: "ext d n i s0 s \<Longrightarrow> j \<le> c_index s \<Longrightarrow> ext d n j s0 s"
    and trace_trans: "ext d n i s0 s \<Longrightarrow> ext d' m (c_index s) s s' \<Longrightarrow> ext d' (n + m) i s0 s'"
begin

lemma ext_if [ext_intro]: "ext d n i s0 s \<Longrightarrow> ext d n i s0 s' \<Longrightarrow> ext d n i s0 (if b then s else s')"
  by simp

lemma ext_snd_if [ext_intro]:
  "ext d n i s0 (snd x) \<Longrightarrow> ext d n i s0 (snd y) \<Longrightarrow> ext d n i s0 (snd (if b then x else y))"
  by simp

lemma ext_let_pair [ext_intro]:
  "ext d n i s0 (snd x) \<Longrightarrow> (\<And>b s. ext d n i s0 s \<Longrightarrow> ext d n i s0 (f b s)) \<Longrightarrow>
     ext d n i s0 (let (b, s) = x in f b s)"
  by (cases x) simp

lemma wp_let [wp]:
  "ext d n i s0 x \<Longrightarrow> (\<And>s. ext d n i s0 s \<Longrightarrow> returns (f s) Q) \<Longrightarrow> returns (Let x f) Q"
  by simp

lemma wp_let_pair [wp]:
  "ext d n i s0 (snd x) \<Longrightarrow> (\<And>b s. ext d n i s0 s \<Longrightarrow> returns (f b s) Q) \<Longrightarrow>
     returns (Let x (\<lambda>(b, s). f b s)) Q"
  by (cases x) simp

lemma wp_bind_state [wp]:
  "returns m (\<lambda>s. ext d n i s0 s) \<Longrightarrow> (\<And>s. ext d n i s0 s \<Longrightarrow> returns (f s) Q) \<Longrightarrow>
     returns (Option.bind m f) Q"
  by (auto simp: returns_def)

lemma wp_bind_pair [wp]:
  "returns m (\<lambda>(b, s). ext d n i s0 s) \<Longrightarrow> (\<And>b s. ext d n i s0 s \<Longrightarrow> returns (f b s) Q) \<Longrightarrow>
     returns (Option.bind m (\<lambda>(b, s). f b s)) Q"
  by (auto simp: returns_def)

lemma wp_bind_triple [wp]:
  "returns m (\<lambda>(a, b, s). ext d n i s0 s) \<Longrightarrow> (\<And>a b s. ext d n i s0 s \<Longrightarrow> returns (f a b s) Q) \<Longrightarrow>
     returns (Option.bind m (\<lambda>(a, b, s). f a b s)) Q"
  by (auto simp: returns_def)

lemma wp_Some_triple [wp]:
  "ext d n i s0 s \<Longrightarrow> returns (Some (a, b, s)) (\<lambda>(a, b, s). ext d n i s0 s)"
  by simp

lemma wp_Some_state [wp]: "ext d n i s0 s \<Longrightarrow> returns (Some s) (\<lambda>s. ext d n i s0 s)"
  by simp

lemma wp_Some_pair [wp]:
  "ext d n i s0 s \<Longrightarrow> returns (Some (b, s)) (\<lambda>(b, s). ext d n i s0 s)"
  by simp

lemma wp_Some_result [wp]:
  "ext d n i s0 (snd x) \<Longrightarrow> returns (Some x) (\<lambda>(b, s). ext d n i s0 s)"
  by (simp add: case_prod_beta)

lemma wp_rebase:
  assumes "ext d n i s0 s" and "returns m (\<lambda>(b, s'). ext d 0 (c_index s) s s')"
  shows "returns m (\<lambda>(b, s'). ext d n i s0 s')"
  using assms(2) by (rule returns_mono) (auto dest: trace_trans [OF assms(1)])

lemma loop_ext:
  assumes "ext d (ni x) i s0 (pi x)"
    and body: "\<And>x. ext d (ni x) (c_index (pi x)) s0 (pi x) \<Longrightarrow>
      returns (body x) (round_post ext pi po ni no d (c_index (pi x)) s0)"
  shows "returns (loop body x) (\<lambda>y. ext d (no y) i s0 (po y))"
proof (rule loop_returns [where Inv = "\<lambda>x. ext d (ni x) i s0 (pi x)"
      and meas = "\<lambda>x. length (c_tokens s0) - c_index (pi x)"])
  show "ext d (ni x) i s0 (pi x)" by fact
next
  fix x assume e: "ext d (ni x) i s0 (pi x)"
  have "returns (body x) (round_post ext pi po ni no d (c_index (pi x)) s0)"
    by (rule body, rule trace_lower [OF e order_refl])
  then show "returns (body x)
      (\<lambda>r. case r of
        Inl x' \<Rightarrow> ext d (ni x') i s0 (pi x') \<and>
          length (c_tokens s0) - c_index (pi x') < length (c_tokens s0) - c_index (pi x)
      | Inr y \<Rightarrow> ext d (no y) i s0 (po y))"
  proof (rule returns_mono)
    fix r assume r: "round_post ext pi po ni no d (c_index (pi x)) s0 r"
    note i = trace_index [OF e]
    show "case r of
        Inl x' \<Rightarrow> ext d (ni x') i s0 (pi x') \<and>
          length (c_tokens s0) - c_index (pi x') < length (c_tokens s0) - c_index (pi x)
      | Inr y \<Rightarrow> ext d (no y) i s0 (po y)"
    proof (cases r)
      case (Inl x')
      with r have e': "ext d (ni x') (Suc (c_index (pi x))) s0 (pi x')" by (simp add: round_post_def)
      from trace_index [OF e'] trace_bound [OF e'] trace_tokens [OF e'] trace_lower [OF e', of i] i Inl
      show ?thesis by simp
    next
      case (Inr y)
      with r have e': "ext d (no y) (c_index (pi x)) s0 (po y)" by (simp add: round_post_def)
      from trace_index [OF e'] trace_lower [OF e', of i] i Inr show ?thesis by simp
    qed
  qed
qed

lemma wp_loop_state [wp]:
  assumes "ext d n i s0 s"
    and "\<And>s. ext d n (c_index s) s0 s \<Longrightarrow>
      returns (body s) (round_post ext (\<lambda>s. s) (\<lambda>s. s) (\<lambda>_. n) (\<lambda>_. n) d (c_index s) s0)"
  shows "returns (loop body s) (\<lambda>s. ext d n i s0 s)"
  using loop_ext [of d "\<lambda>_. n" s i s0 "\<lambda>s. s" body "\<lambda>s. s" "\<lambda>_. n"] assms by simp

lemma wp_loop_pair [wp]:
  assumes "ext d n i s0 s"
    and "\<And>b s. ext d n (c_index s) s0 s \<Longrightarrow>
      returns (body b s) (round_post ext snd snd (\<lambda>_. n) (\<lambda>_. n) d (c_index s) s0)"
  shows "returns (loop (\<lambda>(b, s). body b s) (b, s)) (\<lambda>(b, s). ext d n i s0 s)"
  using loop_ext [of d "\<lambda>_. n" "(b, s)" i s0 snd "\<lambda>(b, s). body b s" snd "\<lambda>_. n"] assms
  by (simp add: case_prod_unfold)

lemma wp_loop_result [wp]:
  assumes "ext d n i s0 s"
    and "\<And>s. ext d n (c_index s) s0 s \<Longrightarrow>
      returns (body s) (round_post ext (\<lambda>s. s) snd (\<lambda>_. n) (\<lambda>_. n) d (c_index s) s0)"
  shows "returns (loop body s) (\<lambda>(b, s). ext d n i s0 s)"
  using loop_ext [of d "\<lambda>_. n" s i s0 "\<lambda>s. s" body snd "\<lambda>_. n"] assms
  by (simp add: case_prod_unfold)

lemma wp_loop_counter [wp]:
  assumes "ext d n i s0 s"
    and "\<And>c s. ext d n (c_index s) s0 s \<Longrightarrow>
      returns (body c s) (round_post ext snd (\<lambda>s. s) (\<lambda>_. n) (\<lambda>_. n) d (c_index s) s0)"
  shows "returns (loop (\<lambda>(c, s). body c s) (c, s)) (\<lambda>s. ext d n i s0 s)"
  using loop_ext [of d "\<lambda>_. n" "(c, s)" i s0 snd "\<lambda>(c, s). body c s" "\<lambda>s. s" "\<lambda>_. n"] assms
  by (simp add: case_prod_unfold)

lemma wp_continue [wp]:
  "ext d (ni x) (Suc j) s0 (pi x) \<Longrightarrow> returns (Some (Inl x)) (round_post ext pi po ni no d j s0)"
  by (simp add: round_post_def)

lemma wp_break [wp]:
  "ext d (no y) k s0 (po y) \<Longrightarrow> j \<le> k \<Longrightarrow> returns (Some (Inr y)) (round_post ext pi po ni no d j s0)"
  using trace_lower [of d "no y" k s0 "po y" j] trace_index [of d "no y" k s0 "po y"]
  by (simp add: round_post_def)

text \<open>A progress test turns the lower bound of the cursor into a strict one.\<close>

lemma ext_progress: "ext d n j s0 s \<Longrightarrow> c_index s \<noteq> j \<Longrightarrow> ext d n (Suc j) s0 s"
  using trace_index [of d n j s0 s] trace_lower [of d n j s0 s "Suc j"] by simp

lemma if_progress:
  assumes "ext d n j s0 s"
    and "ext d n j s0 s \<Longrightarrow> returns m Q"
    and "ext d n (Suc j) s0 s \<Longrightarrow> returns m' Q"
  shows "returns (if c_index s = j then m else m') Q"
  using assms ext_progress [OF assms(1)] by auto

lemma if_progress_or:
  assumes "ext d n j s0 s"
    and "ext d n j s0 s \<Longrightarrow> returns m Q"
    and "ext d n (Suc j) s0 s \<Longrightarrow> returns m' Q"
  shows "returns (if c_index s = j \<or> b then m else m') Q"
  using assms ext_progress [OF assms(1)] by auto

lemma if_progress_less:
  assumes "ext d n j s0 s'" and "ext d n j s0 s"
    and "ext d n j s0 s' \<Longrightarrow> returns m Q"
    and "ext d n (Suc j) s0 s' \<Longrightarrow> returns m' Q"
  shows "returns (if \<not> (b \<and> c_index s < c_index s') then m else m') Q"
  using assms ext_progress [OF assms(1)] trace_index [OF assms(2)] by auto

end

end
