(* ===== verification/M3Lossless.thy ===== *)
theory M3Lossless
  imports M3Grammar ParseRules
begin

text \<open>
  Losslessness and termination of the query parser. \<open>ext d n i s0 s\<close> says that the state \<open>s\<close>
  was reached from \<open>s0\<close> by well-behaved parsing: nesting depth counter \<open>d\<close>, \<open>n\<close> tree nodes
  opened since \<open>s0\<close> and still open, the cursor at least at token \<open>i\<close>, every token passed
  recorded by exactly one \<open>Advance\<close>, and only diagnostics of the passed region added. Each
  primitive operation and each grammar function keeps \<open>ext\<close>; each loop of the grammar is shown
  to make progress, and the recursive calls to need bounded fuel.
\<close>

section \<open>Well-behaved parsing\<close>

definition ext :: "nat \<Rightarrow> nat \<Rightarrow> nat \<Rightarrow> m3_parser \<Rightarrow> m3_parser \<Rightarrow> bool" where
  "ext d n i s0 s \<longleftrightarrow>
     c_tokens s = c_tokens s0 \<and> c_file s = c_file s0 \<and> c_depth s = d \<and> i \<le> c_index s \<and>
     (\<exists>ids new ds. chained (m3_events s0) ids \<and> chained (m3_events s) (ids @ new) \<and>
        chain_events (m3_events s) ids = chain_events (m3_events s0) ids \<and>
        c_diagnostics s = c_diagnostics s0 @ ds \<and>
        trace (c_tokens s0) (c_file s0) n (c_index s0) (c_index s)
          (chain_events (m3_events s) new) ds)"

lemma extI:
  assumes "c_tokens s = c_tokens s0" "c_file s = c_file s0" "c_depth s = d" "i \<le> c_index s"
    and "chained (m3_events s0) ids" "chained (m3_events s) (ids @ new)"
    and "chain_events (m3_events s) ids = chain_events (m3_events s0) ids"
    and "c_diagnostics s = c_diagnostics s0 @ ds"
    and "trace (c_tokens s0) (c_file s0) n (c_index s0) (c_index s)
      (chain_events (m3_events s) new) ds"
  shows "ext d n i s0 s"
  using assms unfolding ext_def by blast

lemma extE:
  assumes "ext d n i s0 s"
  obtains ids new ds where
    "c_tokens s = c_tokens s0" "c_file s = c_file s0" "c_depth s = d" "i \<le> c_index s"
    "chained (m3_events s0) ids" "chained (m3_events s) (ids @ new)"
    "chain_events (m3_events s) ids = chain_events (m3_events s0) ids"
    "c_diagnostics s = c_diagnostics s0 @ ds"
    "trace (c_tokens s0) (c_file s0) n (c_index s0) (c_index s) (chain_events (m3_events s) new) ds"
  using assms unfolding ext_def by blast

lemma ext_depth: "ext d n i s0 s \<Longrightarrow> c_depth s = d"
  and ext_tokens: "ext d n i s0 s \<Longrightarrow> c_tokens s = c_tokens s0"
  and ext_index: "ext d n i s0 s \<Longrightarrow> i \<le> c_index s"
  and ext_bound: "ext d n i s0 s \<Longrightarrow> c_index s \<le> length (c_tokens s)"
  by (auto simp: ext_def trace_def)

lemma ext_lower: "ext d n i s0 s \<Longrightarrow> j \<le> c_index s \<Longrightarrow> ext d n j s0 s"
  by (auto simp: ext_def)

lemma ext_refl:
  "stream_ok (m3_events s) \<Longrightarrow> c_index s \<le> length (c_tokens s) \<Longrightarrow>
     ext (c_depth s) 0 (c_index s) s s"
  by (auto simp: stream_ok_def chain_events_def
      intro!: extI [where new = "[]" and ds = "[]"] trace_nil)

lemma ext_rebase: "ext d n i s0 s \<Longrightarrow> ext d 0 (c_index s) s s"
proof -
  assume e: "ext d n i s0 s"
  then have "stream_ok (m3_events s)" by (auto elim: extE simp: stream_ok_def)
  from ext_refl [OF this ext_bound [OF e]] ext_depth [OF e] show ?thesis by simp
qed

lemma ext_trans:
  assumes e: "ext d n i s0 s" and e': "ext d' m (c_index s) s s'"
  shows "ext d' (n + m) i s0 s'"
proof -
  from e obtain ids new ds where e:
    "c_tokens s = c_tokens s0" "c_file s = c_file s0" "i \<le> c_index s"
    "chained (m3_events s0) ids" "chained (m3_events s) (ids @ new)"
    "chain_events (m3_events s) ids = chain_events (m3_events s0) ids"
    "c_diagnostics s = c_diagnostics s0 @ ds"
    "trace (c_tokens s0) (c_file s0) n (c_index s0) (c_index s) (chain_events (m3_events s) new) ds"
    by (elim extE)
  from e' obtain ids' new' ds' where e':
    "c_tokens s' = c_tokens s" "c_file s' = c_file s" "c_depth s' = d'" "c_index s \<le> c_index s'"
    "chained (m3_events s) ids'" "chained (m3_events s') (ids' @ new')"
    "chain_events (m3_events s') ids' = chain_events (m3_events s) ids'"
    "c_diagnostics s' = c_diagnostics s @ ds'"
    "trace (c_tokens s) (c_file s) m (c_index s) (c_index s') (chain_events (m3_events s') new') ds'"
    by (elim extE)
  have ids': "ids' = ids @ new"
    using e(5) e'(5) linked_unique by (auto simp: chained_def)
  have ev: "chain_events (m3_events s') ids = chain_events (m3_events s0) ids"
    "chain_events (m3_events s') new = chain_events (m3_events s) new"
    using e'(7) e(6) ids' by (simp_all add: chain_events_def)
  have "trace (c_tokens s0) (c_file s0) (n + m) (c_index s0) (c_index s')
      (chain_events (m3_events s') (new @ new')) (ds @ ds')"
    using trace_append [OF e(8) e'(9) [unfolded e(1,2)]] ev(2) by (simp add: chain_events_append)
  then show ?thesis
    using e e' ev ids' by (intro extI [of s' s0 d' i ids "new @ new'" "ds @ ds'"]) auto
qed


interpretation m3t: parse_trace ext
  by unfold_locales (fact ext_tokens ext_index ext_bound ext_lower ext_trans)+

lemmas progress = m3t.if_progress m3t.if_progress_or m3t.if_progress_less

subsection \<open>Primitive operations\<close>

lemma ext_append:
  assumes e: "ext d n i s0 s"
    and ev: "m3_events s' = stream_append ev (m3_events s)"
    and sel: "c_tokens s' = c_tokens s" "c_file s' = c_file s" "c_depth s' = c_depth s"
      "c_index s \<le> c_index s'" "c_diagnostics s' = c_diagnostics s @ ds'"
    and tr: "\<And>es ds. trace (c_tokens s) (c_file s) n (c_index s0) (c_index s) es ds \<Longrightarrow>
      trace (c_tokens s) (c_file s) m (c_index s0) (c_index s') (es @ [ev]) (ds @ ds')"
  shows "ext d m i s0 s'"
proof -
  from e obtain ids new ds where e:
    "c_tokens s = c_tokens s0" "c_file s = c_file s0" "c_depth s = d" "i \<le> c_index s"
    "chained (m3_events s0) ids" "chained (m3_events s) (ids @ new)"
    "chain_events (m3_events s) ids = chain_events (m3_events s0) ids"
    "c_diagnostics s = c_diagnostics s0 @ ds"
    "trace (c_tokens s0) (c_file s0) n (c_index s0) (c_index s) (chain_events (m3_events s) new) ds"
    by (elim extE)
  let ?k = "length (es_nodes (m3_events s))"
  have app: "chained (m3_events s') (ids @ new @ [?k])"
    "chain_events (m3_events s') (ids @ new @ [?k]) = chain_events (m3_events s) (ids @ new) @ [ev]"
    using stream_append_chained [OF e(6)] ev by simp_all
  then have "chain_events (m3_events s') ids = chain_events (m3_events s) ids"
    "chain_events (m3_events s') (new @ [?k]) = chain_events (m3_events s) new @ [ev]"
    by (simp_all add: chain_events_def)
  with app e sel tr [of "chain_events (m3_events s) new" ds] show ?thesis
    by (intro extI [of s' s0 d i ids "new @ [?k]" "ds @ ds'"]) auto
qed

lemma ext_open [ext_intro]:
  "ext d n i s0 s \<Longrightarrow> k \<noteq> ROOT \<Longrightarrow> ext d (Suc n) i s0 (p_open (Nod k) s)"
  by (erule ext_append [where ds' = "[]" and ev = "Open (Nod k)"])
    (auto simp: p_open_def intro: trace_open)

lemma ext_close [ext_intro]: "ext d (Suc n) i s0 s \<Longrightarrow> ext d n i s0 (p_close s)"
  by (erule ext_append [where ds' = "[]" and ev = Close])
    (auto simp: p_close_def intro: trace_close)

lemma ext_close_pow [ext_intro]: "ext d (n + k) i s0 s \<Longrightarrow> ext d n i s0 ((p_close ^^ k) s)"
proof (induction k arbitrary: s)
  case (Suc k)
  from Suc.prems have "ext d (n + k) i s0 (p_close s)" by (intro ext_intro) simp
  from Suc.IH [OF this] show ?case by (simp add: funpow_swap1)
qed simp

lemma ext_bump [ext_intro]: "ext d n i s0 s \<Longrightarrow> ext d n i s0 (snd (bump s))"
proof (cases "c_index s < length (c_tokens s)")
  case True
  let ?ds = "if raw_kind s = Some ERROR
    then [diagnostic_builder BadToken Error ''unrecognized token'' (label_new (c_file s) (current_span s))]
    else []"
  have "diag_trace (c_tokens s) (c_file s) (c_index s) (Suc (c_index s)) ?ds"
    using True
    by (auto simp: raw_kind_Some_iff current_span_at diagnostic_builder_def label_new_def
        intro!: diag_trace_skip diag_trace_bad_token)
  then show "ext d n i s0 s \<Longrightarrow> ext d n i s0 (snd (bump s))"
    using True
    by (elim ext_append [where ds' = ?ds and ev = Advance])
      (auto simp: bump_def Let_def push_diagnostic_def dest: trace_advance)
qed (simp add: bump_def)

lemma ext_error [ext_intro]: "ext d n i s0 s \<Longrightarrow> ext d n i s0 (error_current msg s)"
  and ext_island_error: "ext d n i s0 s \<Longrightarrow>
    ext d n i s0 (push_diagnostic UnterminatedIsland (current_span s) msg s)"
proof -
  have push: "ext d n i s0 (push_diagnostic c (current_span s) msg s)"
    if e: "ext d n i s0 s" and c: "c \<noteq> BadToken" for c
  proof -
    from e obtain ids new ds where e:
      "c_tokens s = c_tokens s0" "c_file s = c_file s0" "c_depth s = d" "i \<le> c_index s"
      "chained (m3_events s0) ids" "chained (m3_events s) (ids @ new)"
      "chain_events (m3_events s) ids = chain_events (m3_events s0) ids"
      "c_diagnostics s = c_diagnostics s0 @ ds"
      "trace (c_tokens s0) (c_file s0) n (c_index s0) (c_index s)
        (chain_events (m3_events s) new) ds"
      by (elim extE)
    let ?d = "diagnostic_builder c Error msg (label_new (c_file s) (current_span s))"
    have "diag_trace (c_tokens s0) (c_file s0) (c_index s) (c_index s) [?d]"
      using c e(1,2) by (intro diag_trace_error)
        (simp_all add: diagnostic_builder_def label_new_def current_span_at)
    from trace_diag [OF e(9) this] show ?thesis
      using e by (intro extI [of _ s0 d i ids new "ds @ [?d]"])
        (simp_all add: push_diagnostic_def)
  qed
  show "ext d n i s0 s \<Longrightarrow> ext d n i s0 (error_current msg s)"
    unfolding error_current_def by (rule push) simp_all
  show "ext d n i s0 s \<Longrightarrow>
      ext d n i s0 (push_diagnostic UnterminatedIsland (current_span s) msg s)"
    by (rule push) simp_all
qed

lemma ext_wrap:
  assumes a: "anchor (m3_events s0) = Some a" and e: "ext d n i s0 s" and k: "k \<noteq> ROOT"
  shows "ext d (Suc n) i s0 (wrap_from a (Nod k) s)"
proof -
  from e obtain ids new ds where e:
    "c_tokens s = c_tokens s0" "c_file s = c_file s0" "c_depth s = d" "i \<le> c_index s"
    "chained (m3_events s0) ids" "chained (m3_events s) (ids @ new)"
    "chain_events (m3_events s) ids = chain_events (m3_events s0) ids"
    "c_diagnostics s = c_diagnostics s0 @ ds"
    "trace (c_tokens s0) (c_file s0) n (c_index s0) (c_index s) (chain_events (m3_events s) new) ds"
    by (elim extE)
  let ?s' = "wrap_from a (Nod k) s" and ?k = "length (es_nodes (m3_events s))"
  from chained_anchor [OF e(5) a] obtain xs where ids: "ids = xs @ [a]"
    by (metis append_butlast_last_id)
  have ch: "chained (m3_events s) (xs @ a # new)" using e(6) ids by simp
  have "chained (m3_events ?s') (ids @ ?k # new)"
    using insert_after_chained [OF ch] ids by (simp add: wrap_from_def)
  moreover have "chain_events (m3_events ?s') (ids @ ?k # new) =
      chain_events (m3_events s) ids @ Open (Nod k) # chain_events (m3_events s) new"
    using insert_after_events [OF ch] ids by (simp add: wrap_from_def)
  then have "chain_events (m3_events ?s') ids = chain_events (m3_events s) ids"
    "chain_events (m3_events ?s') (?k # new) = Open (Nod k) # chain_events (m3_events s) new"
    by (simp_all add: chain_events_def append_eq_append_conv)
  moreover from trace_wrap [OF e(9)] k
  have "trace (c_tokens s0) (c_file s0) (Suc n) (c_index s0) (c_index s)
      (Open (Nod k) # chain_events (m3_events s) new) ds" by simp
  ultimately show ?thesis
    using e by (intro extI [of ?s' s0 d i ids "?k # new" ds]) (simp_all add: wrap_from_def)
qed

lemma ext_consume_trivia [ext_intro]: "ext d n i s0 s \<Longrightarrow> ext d n i s0 (consume_trivia s)"
proof (induction s rule: consume_trivia.induct)
  case (1 s)
  have "ext d n i s0 (snd (bump s))" using 1(2) by (rule ext_intro)
  with 1 show ?case
    by (subst consume_trivia.simps) (auto split: option.split prod.split)
qed

lemma ext_expect [ext_intro]: "ext d n i s0 s \<Longrightarrow> ext d n i s0 (snd (expect k msg s))"
  and ext_consume_if [ext_intro]: "ext d n i s0 s \<Longrightarrow> ext d n i s0 (snd (consume_if k s))"
  and ext_consume_name [ext_intro]: "ext d n i s0 s \<Longrightarrow> ext d n i s0 (snd (consume_name msg s))"
  unfolding expect_def consume_if_def consume_name_def Let_def by (auto intro!: ext_intro)

lemma ext_recover_one [ext_intro]: "ext d n i s0 s \<Longrightarrow> ext d n i s0 (recover_one s)"
  unfolding recover_one_def by (auto intro!: ext_intro)

lemma ext_recover_until_loop: "ext d n i s0 s \<Longrightarrow> ext d n i s0 (recover_until_loop ks s)"
proof (induction ks s rule: recover_until_loop.induct)
  case (1 ks s)
  have "ext d n i s0 (snd (bump s))" using 1(2) by (rule ext_intro)
  with 1 show ?case by (subst recover_until_loop.simps) (simp add: Let_def)
qed

lemma ext_recover_until [ext_intro]: "ext d n i s0 s \<Longrightarrow> ext d n i s0 (recover_until ks s)"
  unfolding recover_until_def by (auto intro!: ext_intro ext_recover_until_loop)

lemma ext_unterminated_island [ext_intro]:
  "ext d n i s0 s \<Longrightarrow> ext d n i s0 (unterminated_island s)"
  unfolding unterminated_island_def by (auto intro!: ext_intro ext_island_error)

lemma ext_recover_island_end_loop:
  "ext d n i s0 s \<Longrightarrow> ext d n i s0 (recover_island_end_loop s)"
proof (induction s rule: recover_island_end_loop.induct)
  case (1 s)
  have "ext d n i s0 (snd (bump s))" using 1(2) by (rule ext_intro)
  with 1 show ?case by (subst recover_island_end_loop.simps) (simp add: Let_def)
qed

lemma ext_recover_island_end [ext_intro]:
  "ext d n i s0 s \<Longrightarrow> ext d n i s0 (recover_island_end s)"
  unfolding recover_island_end_def by (auto intro!: ext_intro ext_recover_island_end_loop)

lemma ext_set_depth: "ext d n i s0 s \<Longrightarrow> ext d' n i s0 (s\<lparr>c_depth := d'\<rparr>)"
  by (auto simp: ext_def)

lemma ext_leave [ext_intro]: "ext (Suc d) n i s0 s \<Longrightarrow> ext d n i s0 (leave_parse_depth s)"
  using ext_set_depth [of "Suc d" n i s0 s d] by (auto simp: leave_parse_depth_def dest: ext_depth)


subsection \<open>Straight-line grammar functions\<close>

lemma ext_multiplicity_bound [ext_intro]:
  "ext d n i s0 s \<Longrightarrow> ext d n i s0 (consume_multiplicity_bound s)"
  unfolding consume_multiplicity_bound_def Let_def case_prod_beta by (auto intro!: ext_intro)

lemma ext_multiplicity [ext_intro]: "ext d n i s0 s \<Longrightarrow> ext d n i s0 (parse_multiplicity s)"
  unfolding parse_multiplicity_def Let_def case_prod_beta by (intro ext_intro) simp_all

lemma ext_optional_multiplicity [ext_intro]:
  "ext d n i s0 s \<Longrightarrow> ext d n i s0 (parse_optional_multiplicity s)"
  unfolding parse_optional_multiplicity_def by (auto intro!: ext_intro)

lemma ext_column_name [ext_intro]: "ext d n i s0 s \<Longrightarrow> ext d n i s0 (snd (parse_column_name s))"
  unfolding parse_column_name_def Let_def by (auto intro!: ext_intro)

lemma ext_bad_token [ext_intro]: "ext d n i s0 s \<Longrightarrow> ext d n i s0 (snd (parse_bad_token s))"
  and ext_literal [ext_intro]:
    "ext d n i s0 s \<Longrightarrow> ext d n i s0 (snd (parse_literal_expression s))"
  and ext_variable [ext_intro]:
    "ext d n i s0 s \<Longrightarrow> ext d n i s0 (snd (parse_variable_expression s))"
  and ext_nav_path [ext_intro]:
    "ext d n i s0 s \<Longrightarrow> ext d n i s0 (snd (parse_navigation_path_island s))"
  unfolding parse_bad_token_def parse_literal_expression_def parse_variable_expression_def
    parse_navigation_path_island_def Let_def case_prod_beta snd_conv
  by (auto intro!: ext_intro)


section \<open>Symbolic execution\<close>

text \<open>
  The \<open>wp\<close> rules run a grammar function one statement at a time: the first premise of each is
  the \<open>ext\<close> fact of the current state, the last continues with the next state and its fact.
\<close>

lemmas wp_let_data [wp] =
  wp_let_plain [where x = "c_index s" for s]
  wp_let_plain [where x = "raw_kind s" for s]
  wp_let_plain [where x = "next :: nat \<Rightarrow> m3_parser \<Rightarrow> (nat \<times> m3_parser + m3_parser) option" for "next"]
  wp_let_plain [where x = "ds :: OpaqueIslandDelimiter list" for ds]

lemma wp_reserve [wp]:
  "ext d n i s0 s \<Longrightarrow> (\<And>b w s. ext d n i s0 s \<Longrightarrow> returns (f b w s) Q) \<Longrightarrow>
     returns (let (b, w, s) = reserve_retroactive_wrap w s in f b w s) Q"
  using ext_error [of d n i s0 s] by (auto simp: reserve_retroactive_wrap_def)

text \<open>The binary loop keeps one \<open>BINARY_EXPR\<close> open while an operator of one precedence is active.\<close>

fun active_nodes :: "nat option \<Rightarrow> nat" where
  "active_nodes None = 0"
| "active_nodes (Some _) = Suc 0"

lemma wp_activate:
  assumes "ext d (active_nodes active) j s0 s" and "anchor (m3_events s0) = Some a"
    and "\<And>s'. ext d (Suc 0) j s0 s' \<Longrightarrow> returns (f (Some p) s') Q"
  shows "returns
    (let (active, s) =
       (if active \<noteq> Some p
        then let s = (if active \<noteq> None then p_close s else s)
             in (Some p, wrap_from a (Nod BINARY_EXPR) s)
        else (active, s))
     in f active s) Q"
proof -
  have "ext d (Suc 0) j s0 (wrap_from a (Nod BINARY_EXPR) s1)" if "ext d 0 j s0 s1" for s1
    using ext_wrap [OF assms(2) that] by simp
  with assms(1,3) show ?thesis
    by (cases active) (auto simp: Let_def intro!: ext_close assms(3))
qed

lemma wp_enter:
  assumes "ext d n i s0 s"
    and "\<And>s. ext d n i s0 s \<Longrightarrow> returns (f s) Q"
    and "\<And>s. d < MAX_RECURSION_DEPTH \<Longrightarrow> ext (Suc d) n i s0 s \<Longrightarrow> returns (g s) Q"
  shows "returns (let (entered, s) = enter_parse_depth s in if \<not> entered then f s else g s) Q"
  using assms ext_depth [OF assms(1)] ext_set_depth [OF assms(1)]
  by (auto simp: enter_parse_depth_def intro: ext_intro)

lemma bump_progress:
  assumes e: "ext d n j s0 s" and "at_any ks s"
  shows "ext d n (Suc j) s0 (snd (bump s))"
proof (rule m3t.ext_progress)
  show "ext d n j s0 (snd (bump s))" using e by (rule ext_intro)
  have "c_index s < length (c_tokens s)"
    using assms(2) significant_kind_Some(1) [of s] by (auto simp: at_any_def split: option.splits)
  then show "c_index (snd (bump s)) \<noteq> j" using ext_index [OF e] by (simp add: bump_sel)
qed

lemma at_any_open [simp]: "at_any ks (p_open k s) = at_any ks s"
  by (simp add: at_any_def p_open_def significant_kind_def significant_index_def
      next_significant_index_from_def)

section \<open>Functions without recursive calls\<close>

lemma qualified_name_ext [wp]:
    "ext d n i s0 s \<Longrightarrow> returns (parse_qualified_name s) (\<lambda>(b, s). ext d n i s0 s)"
  unfolding parse_qualified_name_def
  by ((erule progress | rule wp | assumption | rule ext_intro | simp (no_asm))+)

lemma store_table_pointer_ext [wp]:
    "ext d n i s0 s \<Longrightarrow> returns (parse_store_table_pointer s) (\<lambda>(b, s). ext d n i s0 s)"
  unfolding parse_store_table_pointer_def
  by ((erule progress | rule wp | assumption | rule ext_intro | simp (no_asm))+)

text \<open>The loops of the opaque islands close both nodes themselves when they find the end.\<close>

lemma island_loop:
  assumes "ext d (Suc (Suc n)) i s0 (pi x)"
    and body: "\<And>x. ext d (Suc (Suc n)) (c_index (pi x)) s0 (pi x) \<Longrightarrow>
      returns (body x) (round_post ext pi snd (\<lambda>_. Suc (Suc n))
        (\<lambda>y. if fst y then n else Suc (Suc n)) d (c_index (pi x)) s0)"
  shows "returns
    (Option.bind (loop body x) (\<lambda>(closed, s).
       if closed then Some (True, s)
       else Some (False, p_close (p_close (unterminated_island s)))))
    (\<lambda>(b, s). ext d n i s0 s)"
proof -
  have "returns (loop body x) (\<lambda>y. ext d (if fst y then n else Suc (Suc n)) i s0 (snd y))"
    using assms(1) by (rule m3t.loop_ext [where ni = "\<lambda>_. Suc (Suc n)"]) (rule body)
  then show ?thesis
    by (rule returnsE) (auto split: if_splits intro!: ext_intro)
qed

lemma island_loop_pair:
  assumes "ext d (Suc (Suc n)) i s0 s"
    and "\<And>b s. ext d (Suc (Suc n)) (c_index s) s0 s \<Longrightarrow>
      returns (body b s) (round_post ext snd snd (\<lambda>_. Suc (Suc n))
        (\<lambda>y. if fst y then n else Suc (Suc n)) d (c_index s) s0)"
  shows "returns
    (Option.bind (loop (\<lambda>(b, s). body b s) (b, s)) (\<lambda>(closed, s).
       if closed then Some (True, s)
       else Some (False, p_close (p_close (unterminated_island s)))))
    (\<lambda>(b, s). ext d n i s0 s)"
  by (rule island_loop [where pi = snd]) (auto intro: assms)

lemma braced_island_ext [wp]:
    "ext d n i s0 s \<Longrightarrow> returns (parse_braced_opaque_island s) (\<lambda>(b, s). ext d n i s0 s)"
  and hash_island_ext [wp]:
    "ext d n i s0 s \<Longrightarrow> returns (parse_hash_opaque_island s) (\<lambda>(b, s). ext d n i s0 s)"
  unfolding parse_braced_opaque_island_def parse_hash_opaque_island_def
  by ((rule island_loop_pair island_loop [where pi = "\<lambda>s. s"] | erule progress | rule wp |
        assumption | rule ext_intro | simp (no_asm))+)

lemma island_ext [wp]:
    "ext d n i s0 s \<Longrightarrow> returns (parse_island s) (\<lambda>(b, s). ext d n i s0 s)"
  unfolding parse_island_def by ((rule wp | assumption | rule ext_intro)+)


section \<open>Functions that call expressions and types\<close>

text \<open>
  What a grammar function relies on when it calls back into expressions and types at nesting
  depth \<open>d\<close>: the calls return, and keep \<open>ext\<close>.
\<close>

locale m3_exprs =
  fixes rc :: m3_rec and d :: nat
  assumes expr_call [wp]:
      "ext d n i s0 s \<Longrightarrow> returns (rc (Expr p) s) (\<lambda>(b, s). ext d n i s0 s)"
    and type_call [wp]:
      "ext d n i s0 s \<Longrightarrow> returns (rc TypeRef s) (\<lambda>(b, s). ext d n i s0 s)"
begin

lemma column_info_ext [wp]:
    "ext d n i s0 s \<Longrightarrow> returns (parse_column_info rc s) (\<lambda>s. ext d n i s0 s)"
  unfolding parse_column_info_def
  by ((erule progress | rule wp | assumption | rule ext_intro | simp (no_asm))+)

lemma relation_type_ext [wp]:
    "ext d n i s0 s \<Longrightarrow> returns (parse_relation_type rc s) (\<lambda>s. ext d n i s0 s)"
  unfolding parse_relation_type_def
  by ((erule progress | rule wp | assumption | rule ext_intro | simp (no_asm))+)

lemma type_arguments_ext [wp]:
    "ext d n i s0 s \<Longrightarrow> returns (parse_type_arguments rc s) (\<lambda>s. ext d n i s0 s)"
  unfolding parse_type_arguments_def
  by ((erule progress | rule wp | assumption | rule ext_intro | simp (no_asm))+)

lemma query_expression_ext [wp]:
    "ext d n i s0 s \<Longrightarrow> returns (parse_query_expression rc s) (\<lambda>s. ext d n i s0 s)"
  and let_statement_ext [wp]:
    "ext d n i s0 s \<Longrightarrow> returns (parse_let_statement rc s) (\<lambda>s. ext d n i s0 s)"
  and argument_ext [wp]:
    "ext d n i s0 s \<Longrightarrow> returns (parse_argument rc allow_named s) (\<lambda>s. ext d n i s0 s)"
  and parameter_type_ext [wp]:
    "ext d n i s0 s \<Longrightarrow> returns (parse_optional_parameter_type rc s) (\<lambda>s. ext d n i s0 s)"
  unfolding parse_query_expression_def parse_let_statement_def parse_argument_def parse_optional_parameter_type_def
  by ((erule progress | rule wp | assumption | rule ext_intro | simp (no_asm))+)

lemma argument_list_ext [wp]:
    "ext d n i s0 s \<Longrightarrow> returns (parse_argument_list rc allow_named s) (\<lambda>s. ext d n i s0 s)"
  unfolding parse_argument_list_def
  by ((erule progress | rule wp | assumption | rule ext_intro | simp (no_asm))+)

lemma call_arguments_ext [wp]:
    "ext d n i s0 s \<Longrightarrow> returns (parse_call_arguments rc allow_named s) (\<lambda>s. ext d n i s0 s)"
  unfolding parse_call_arguments_def
  by ((erule progress | rule wp | assumption | rule ext_intro | simp (no_asm))+)

lemma code_block_ext [wp]:
    "ext d n i s0 s \<Longrightarrow> returns (parse_code_block rc s) (\<lambda>s. ext d n i s0 s)"
  and lambda_parameters_ext [wp]:
    "ext d n i s0 s \<Longrightarrow> returns (parse_lambda_parameters rc s) (\<lambda>s. ext d n i s0 s)"
  unfolding parse_code_block_def parse_lambda_parameters_def
  by ((erule progress | rule wp | assumption | rule ext_intro | simp (no_asm))+)

lemma braced_lambda_ext [wp]:
    "ext d n i s0 s \<Longrightarrow> returns (parse_braced_lambda rc s) (\<lambda>(b, s). ext d n i s0 s)"
  and short_lambda_ext [wp]:
    "ext d n i s0 s \<Longrightarrow> returns (parse_short_lambda rc s) (\<lambda>(b, s). ext d n i s0 s)"
  and parameterless_lambda_ext [wp]:
    "ext d n i s0 s \<Longrightarrow> returns (parse_parameterless_lambda rc s) (\<lambda>(b, s). ext d n i s0 s)"
  unfolding parse_braced_lambda_def parse_short_lambda_def parse_parameterless_lambda_def
  by ((erule progress | rule wp | assumption | rule ext_intro | simp (no_asm))+)

lemma parenthesized_items_ext [wp]:
    "ext d n i s0 s \<Longrightarrow> returns (parse_parenthesized_items rc s) (\<lambda>s. ext d n i s0 s)"
  and collection_items_ext [wp]:
    "ext d n i s0 s \<Longrightarrow> returns (parse_collection_items rc s) (\<lambda>s. ext d n i s0 s)"
  unfolding parse_parenthesized_items_def parse_collection_items_def
  by ((erule progress | rule wp | assumption | rule ext_intro | simp (no_asm))+)

lemma parenthesized_ext [wp]:
    "ext d n i s0 s \<Longrightarrow> returns (parse_parenthesized_expression rc s) (\<lambda>(b, s). ext d n i s0 s)"
  and collection_ext [wp]:
    "ext d n i s0 s \<Longrightarrow> returns (parse_collection_literal rc s) (\<lambda>(b, s). ext d n i s0 s)"
  and new_instance_ext [wp]:
    "ext d n i s0 s \<Longrightarrow> returns (parse_new_instance_expression rc s) (\<lambda>(b, s). ext d n i s0 s)"
  and cast_ext [wp]:
    "ext d n i s0 s \<Longrightarrow> returns (parse_cast_expression rc s) (\<lambda>(b, s). ext d n i s0 s)"
  unfolding parse_parenthesized_expression_def parse_collection_literal_def parse_new_instance_expression_def parse_cast_expression_def
  by ((erule progress | rule wp | assumption | rule ext_intro | simp (no_asm))+)

lemma property_navigation_ext [wp]:
    "ext d n i s0 s \<Longrightarrow> returns (parse_property_navigation rc s) (\<lambda>s. ext d n i s0 s)"
  and arrow_call_ext [wp]:
    "ext d n i s0 s \<Longrightarrow> returns (parse_arrow_call rc s) (\<lambda>s. ext d n i s0 s)"
  and bracket_index_ext [wp]:
    "ext d n i s0 s \<Longrightarrow> returns (parse_bracket_index rc s) (\<lambda>s. ext d n i s0 s)"
  unfolding parse_property_navigation_def parse_arrow_call_def parse_bracket_index_def
  by ((erule progress | rule wp | assumption | rule ext_intro | simp (no_asm))+)

text \<open>Calls and all-expressions wrap the expression that started at the anchor of \<open>s0\<close>.\<close>

lemma all_expression_ext:
    "ext d 0 i s0 s \<Longrightarrow> anchor (m3_events s0) = Some a \<Longrightarrow>
       returns (parse_all_expression rc a s) (\<lambda>s. ext d 0 i s0 s)"
  and function_call_ext:
    "ext d 0 i s0 s \<Longrightarrow> anchor (m3_events s0) = Some a \<Longrightarrow>
       returns (parse_function_call rc a s) (\<lambda>s. ext d 0 i s0 s)"
  unfolding parse_all_expression_def parse_function_call_def
  by ((rule wp | assumption | rule ext_intro ext_wrap | simp (no_asm))+)

end

text \<open>
  A column specification calls back into primary expressions, only when a lambda starts there.
\<close>

locale m3_calls = m3_exprs +
  assumes lambda_call [wp]:
    "ext d n i s0 s \<Longrightarrow> is_lambda_body_start s \<Longrightarrow>
       returns (rc Primary s) (\<lambda>(b, s). ext d n i s0 s)"
begin

lemma column_spec_body_ext [wp]:
    "ext d n i s0 s \<Longrightarrow> returns (parse_column_spec_body rc s) (\<lambda>s. ext d n i s0 s)"
  unfolding parse_column_spec_body_def
  by ((erule progress | rule wp | assumption | rule ext_intro | simp (no_asm))+)

lemma column_spec_ext [wp]:
    "ext d n i s0 s \<Longrightarrow> returns (parse_column_spec rc has_tilde s) (\<lambda>(b, s). ext d n i s0 s)"
  unfolding parse_column_spec_def
  by ((erule progress | rule wp | assumption | rule ext_intro | simp (no_asm))+)

lemma column_spec_items_ext [wp]:
    "ext d n i s0 s \<Longrightarrow> returns (parse_column_spec_array_items rc s) (\<lambda>s. ext d n i s0 s)"
  unfolding parse_column_spec_array_items_def
  by ((erule progress | rule wp | assumption | rule ext_intro | simp (no_asm))+)

lemma column_spec_array_ext [wp]:
    "ext d n i s0 s \<Longrightarrow> returns (parse_column_spec_array rc s) (\<lambda>(b, s). ext d n i s0 s)"
  unfolding parse_column_spec_array_def
  by ((erule progress | rule wp | assumption | rule ext_intro | simp (no_asm))+)

lemma column_builder_ext [wp]:
    "ext d n i s0 s \<Longrightarrow> returns (parse_column_builder rc s) (\<lambda>(b, s). ext d n i s0 s)"
  unfolding parse_column_builder_def
  by ((erule progress | rule wp | assumption | rule ext_intro | simp (no_asm))+)

lemma primary_ext [wp]:
    "ext d n i s0 s \<Longrightarrow> returns (parse_primary_expression rc s) (\<lambda>(b, s). ext d n i s0 s)"
  unfolding parse_primary_expression_def
  by ((erule progress | rule wp | assumption | rule ext_intro | simp (no_asm))+)

lemma postfix_ext [wp]:
  assumes "ext d n i s0 s"
  shows "returns (parse_postfix_expression rc s) (\<lambda>(b, s). ext d n i s0 s)"
proof (rule m3t.wp_rebase [OF assms])
  have "ext d 0 (c_index s) s s" using assms by (rule ext_rebase)
  then show "returns (parse_postfix_expression rc s) (\<lambda>(b, s'). ext d 0 (c_index s) s s')"
    unfolding parse_postfix_expression_def
    by - ((erule progress | rule wp all_expression_ext function_call_ext | assumption |
          rule ext_intro | simp (no_asm))+)
qed

lemma unary_ext [wp]:
  assumes "ext d n i s0 s"
  shows "returns (parse_unary_expression rc s) (\<lambda>(b, s). ext d n i s0 s)"
proof -
  let ?body = "\<lambda>(unary_count, s).
         if at_any [PLUS, MINUS] s then
           (if unary_count = MAX_UNARY_OPERATOR_COUNT
            then Some (Inr (True, unary_count,
                   (p_close ^^ unary_count)
                     (error_current ''unary-expression nesting limit reached'' s)))
            else Some (Inl (unary_count + 1, snd (bump (p_open (Nod UNARY_EXPR) s)))))
         else Some (Inr (False, unary_count, s))"
  let ?no = "\<lambda>(limit, c, _ :: m3_parser). if limit then n else n + c"
  have body: "returns (?body x) (round_post ext snd (\<lambda>y. snd (snd y)) (\<lambda>x. n + fst x) ?no
      d (c_index (snd x)) s0)" if "ext d (n + fst x) (c_index (snd x)) s0 (snd x)" for x
    using that
    by (cases x) (auto simp: round_post_def
        intro!: bump_progress [where ks = "[PLUS, MINUS]"] ext_open ext_error ext_close_pow)
  have loop: "returns (loop ?body (0, consume_trivia s)) (\<lambda>y. ext d (?no y) i s0 (snd (snd y)))"
    by (rule m3t.loop_ext [where pi = snd and ni = "\<lambda>x. n + fst x", OF _ body])
      (simp_all add: ext_consume_trivia assms)
  show ?thesis
    unfolding parse_unary_expression_def Let_def [of "consume_trivia s"]
    apply (rule returns_bind, rule returns_mono [OF loop])
    apply (clarsimp split: if_splits)
    apply ((rule wp | assumption | rule ext_intro | simp (no_asm))+)
    done
qed

lemma expression_at_depth_ext [wp]:
  assumes "ext d n i s0 s"
  shows "returns (parse_expression_at_depth rc p s) (\<lambda>(b, s). ext d n i s0 s)"
proof (rule m3t.wp_rebase [OF assms])
  have e: "ext d 0 (c_index s) s s" using assms by (rule ext_rebase)
  let ?ni = "\<lambda>y :: nat option \<times> m3_parser. active_nodes (fst y)"
  show "returns (parse_expression_at_depth rc p s) (\<lambda>(b, s'). ext d 0 (c_index s) s s')"
    unfolding parse_expression_at_depth_def
    apply (rule wp)
     apply (rule wp ext_intro e)+
     apply assumption
    apply (rule returns_bind, rule returns_mono)
     apply (rule m3t.loop_ext [where pi = snd and po = snd and ni = ?ni and no = ?ni])
      apply simp
    subgoal for a b s1 x
      by (cases x; simp only: prod.case fst_conv snd_conv)
        ((erule progress | rule wp_activate | rule wp | assumption | rule ext_intro | simp (no_asm))+)
    by (auto intro!: ext_intro split: if_splits)
qed

end


section \<open>Recursive calls and fuel\<close>

lemma expression_step:
  assumes calls: "d < MAX_RECURSION_DEPTH \<Longrightarrow> m3_calls rc (Suc d)" and e: "ext d n i s0 s"
  shows "returns (parse_expression rc p s) (\<lambda>(b, s). ext d n i s0 s)"
    and "returns (parse_type_reference rc s) (\<lambda>(b, s). ext d n i s0 s)"
  unfolding parse_expression_def parse_type_reference_def
  by ((rule wp_enter [OF e] m3_calls.expression_at_depth_ext [OF calls]
        m3_exprs.type_arguments_ext [OF m3_calls.axioms(1) [OF calls]] wp |
        assumption | rule ext_intro | simp (no_asm))+)

text \<open>Trivia does not move the lookahead.\<close>

lemma next_significant_skip:
  assumes "i < length (c_tokens s)" and "is_trivia (fst (c_tokens s ! i))"
  shows "next_significant_index_from (Suc i) s = next_significant_index_from i s"
proof -
  have "drop i (c_tokens s) = c_tokens s ! i # drop (Suc i) (c_tokens s)"
    using assms(1) by (simp add: Cons_nth_drop_Suc)
  then show ?thesis
    using assms
    by (cases "position (\<lambda>(kind, _). \<not> is_trivia kind) (drop (Suc i) (c_tokens s))")
      (auto simp: next_significant_index_from_def case_prod_beta)
qed

lemma next_significant_cong:
  "c_tokens s = c_tokens s' \<Longrightarrow> next_significant_index_from i s = next_significant_index_from i s'"
  for s s' :: m3_parser
  by (simp add: next_significant_index_from_def)

lemma consume_trivia_lookahead:
  "c_tokens (consume_trivia s) = c_tokens s \<and>
   significant_index (consume_trivia s) = significant_index s \<and>
   (\<forall>k. raw_kind (consume_trivia s) = Some k \<longrightarrow> \<not> is_trivia k)"
proof (induction s rule: consume_trivia.induct)
  case (1 s)
  show ?case
  proof (cases "\<exists>k. raw_kind s = Some k \<and> is_trivia k")
    case True
    then obtain k where k: "raw_kind s = Some k" "is_trivia k" by blast
    let ?s = "snd (bump s)"
    have b: "fst (bump s)" "c_index ?s = Suc (c_index s)" "c_tokens ?s = c_tokens s"
      using k(1) by (simp_all add: bump_sel raw_kind_Some_iff)
    have "significant_index ?s = significant_index s"
      using next_significant_skip [of "c_index s" s] next_significant_cong [OF b(3)] k b
      by (simp add: significant_index_def raw_kind_Some_iff)
    moreover have "consume_trivia s = consume_trivia ?s"
      using k b by (subst consume_trivia.simps) (simp add: case_prod_beta)
    ultimately show ?thesis using "1.IH" [of k] k b by (simp add: case_prod_beta prod_eq_iff)
  next
    case False
    then show ?thesis by (subst (1 2 3) consume_trivia.simps) (auto split: option.split)
  qed
qed

lemma consume_trivia_raw: "raw_kind (consume_trivia s) = significant_kind s"
proof -
  let ?s = "consume_trivia s"
  note L = consume_trivia_lookahead [of s]
  have eq: "significant_kind ?s = significant_kind s" using L by (simp add: significant_kind_def)
  show ?thesis
  proof (cases "raw_kind ?s")
    case None
    then have "significant_kind ?s = None"
      using significant_kind_Some(1) [of ?s] by (cases "significant_kind ?s") (auto simp: raw_kind_None_iff)
    with None eq show ?thesis by simp
  next
    case (Some k)
    with L eq significant_kind_raw [of ?s k] show ?thesis by simp
  qed
qed

lemma short_lambda_pipe_cong:
  assumes eq: "c_tokens s = c_tokens s'"
  shows "typed_short_lambda_has_pipe i x y s = typed_short_lambda_has_pipe i x y s'"
proof (induction "length (c_tokens s) - i" arbitrary: i x y rule: less_induct)
  case less
  show ?case
  proof (cases "next_significant_index_from i s")
    case None
    with next_significant_cong [OF eq] show ?thesis
      by (subst (1 2) typed_short_lambda_has_pipe.simps) simp
  next
    case (Some j)
    have "typed_short_lambda_has_pipe (j + 1) x' y' s = typed_short_lambda_has_pipe (j + 1) x' y' s'"
      for x' y' using less next_significant_decreases [OF Some] by blast
    with Some next_significant_cong [OF eq] eq show ?thesis
      by (subst (1 2) typed_short_lambda_has_pipe.simps) simp
  qed
qed

lemma short_lambda_start_trivia:
  "is_short_lambda_start (consume_trivia s) = is_short_lambda_start s"
proof -
  have tok: "c_tokens (consume_trivia s) = c_tokens s"
    and sig: "significant_index (consume_trivia s) = significant_index s"
    using consume_trivia_lookahead [of s] by simp_all
  show ?thesis
    unfolding is_short_lambda_start_def sig next_significant_cong [OF tok]
      short_lambda_pipe_cong [OF tok] tok ..
qed

lemma short_lambda_start_kind:
  "is_short_lambda_start s \<Longrightarrow> \<exists>k. significant_kind s = Some k \<and> is_name k"
  by (auto simp: is_short_lambda_start_def significant_kind_def
      split: option.splits prod.splits if_splits)

lemma lambda_step:
  assumes exprs: "m3_exprs rc d" and e: "ext d n i s0 s" and l: "is_lambda_body_start s"
  shows "returns (parse_primary_expression rc s) (\<lambda>(b, s). ext d n i s0 s)"
proof -
  let ?s = "consume_trivia s"
  have e': "ext d n i s0 ?s" using e by (rule ext_intro)
  have raw: "raw_kind ?s = significant_kind s" by (rule consume_trivia_raw)
  consider (brace) "raw_kind ?s = Some BRACE_OPEN" | (pipe) "raw_kind ?s = Some PIPE"
    | (short) k where "raw_kind ?s = Some k" "is_name k" "is_short_lambda_start ?s"
    using l short_lambda_start_kind [of s] short_lambda_start_trivia [of s] raw
    unfolding is_lambda_body_start_def by (metis (full_types))
  then show ?thesis
  proof cases
    case brace
    then show ?thesis
      using m3_exprs.braced_lambda_ext [OF exprs e'] by (simp add: parse_primary_expression_def Let_def)
  next
    case pipe
    then show ?thesis
      using m3_exprs.parameterless_lambda_ext [OF exprs e']
      by (simp add: parse_primary_expression_def Let_def)
  next
    case short
    then show ?thesis
      using m3_exprs.short_lambda_ext [OF exprs e']
      by (auto simp: parse_primary_expression_def Let_def is_name_def)
  qed
qed

text \<open>A level of nesting needs two units of fuel, one for the expression and one for a lambda.\<close>

lemma m3_run_calls:
  shows m3_run_exprs: "2 * (MAX_RECURSION_DEPTH - d) < fuel \<Longrightarrow> m3_exprs (m3_run fuel) d"
    and "2 * (MAX_RECURSION_DEPTH - d) + 1 < fuel \<Longrightarrow> m3_calls (m3_run fuel) d"
proof (induction "MAX_RECURSION_DEPTH - d" arbitrary: d fuel rule: less_induct)
  case less
  have exprs: "m3_exprs (m3_run fuel) d" if f: "2 * (MAX_RECURSION_DEPTH - d) < fuel" for fuel
  proof -
    from f obtain g where g: "fuel = Suc g" by (cases fuel) auto
    have "m3_calls (m3_run g) (Suc d)" if "d < MAX_RECURSION_DEPTH"
      using less(2) [of "Suc d" g] that f g by simp
    from expression_step [OF this] show ?thesis by unfold_locales (simp_all add: g)
  qed
  {
    case 1
    then show ?case by (rule exprs)
  next
    case 2
    then obtain g where g: "fuel = Suc g" by (cases fuel) auto
    then have "m3_exprs (m3_run g) d" "m3_exprs (m3_run fuel) d" using 2 by (auto intro: exprs)
    with lambda_step show ?case
      by (auto simp: g m3_calls_def m3_calls_axioms_def)
  }
qed

interpretation m3: m3_exprs "m3_run m3_fuel" 0
  by (rule m3_run_exprs) (simp add: m3_fuel_def)

text \<open>The callbacks of a top-level expression, one level down, include those for lambdas.\<close>

interpretation m3_inner: m3_calls "m3_run (m3_fuel - 1)" 1
  by (rule m3_run_calls) (simp add: m3_fuel_def MAX_RECURSION_DEPTH_def)

end
