(* ===== verification/QueryParser.thy ===== *)
theory QueryParser
  imports M3Lossless
begin

text \<open>
  The query parser as a whole: \<^verbatim>\<open>parse_source\<close>, \<^verbatim>\<open>Parser::parse\<close> and \<^verbatim>\<open>parse_query\<close> of
  \<^verbatim>\<open>crates/pure-analyzer-parser/src/m3.rs\<close>. The parser returns on every token stream, consumes
  all of it, and its events always build a lossless tree.
\<close>

section \<open>Whole sources\<close>

lemma ext_source_separator: "ext d n i s0 s \<Longrightarrow> ext d n i s0 (consume_source_separator s)"
  unfolding consume_source_separator_def by (auto simp: Let_def case_prod_beta intro!: ext_intro)

lemma ext_moves: "ext d n (Suc (c_index s)) s0 s' \<Longrightarrow> c_index s < c_index s'"
  by (drule ext_index) simp

text \<open>A separator step at a token that is not a separator skips at least that token.\<close>

lemma recover_until_progress:
  assumes "ext d n i s0 s" "\<not> at_eof s" "\<not> at_any ks s"
  shows "c_index s < c_index (recover_until ks s)"
proof -
  let ?s = "p_open (Nod ERROR_NODE) s"
  have e: "ext d (Suc n) (c_index s) s0 ?s"
    by (intro ext_intro ext_lower [OF assms(1)]) simp_all
  have "\<not> at_eof ?s" "c_index ?s = c_index s"
    using assms(2) by (simp_all add: at_eof_def p_open_def)
  moreover from this have "ext d (Suc n) (Suc (c_index s)) s0 (snd (bump ?s))"
    by (intro m3t.ext_progress ext_bump e) (simp add: bump_sel at_eof_def)
  moreover from this have "c_index (snd (bump ?s)) \<noteq> c_index ?s"
    using \<open>c_index ?s = c_index s\<close> by (auto dest: ext_moves)
  ultimately have "recover_until_loop ks ?s = recover_until_loop ks (snd (bump ?s))"
    using assms(3) by (subst recover_until_loop.simps) (simp add: Let_def)
  with ext_recover_until_loop [OF \<open>ext d (Suc n) (Suc (c_index s)) s0 (snd (bump ?s))\<close>, of ks]
  show ?thesis by (auto simp: recover_until_def p_close_def dest: ext_moves)
qed

lemma consume_if_eq:
  "consume_if k s =
     (if significant_kind s = Some k then (True, snd (bump (consume_trivia s)))
      else (False, consume_trivia s))"
  using bump_sel(2) [of "consume_trivia s"] raw_kind_Some_iff [of "consume_trivia s" k]
  by (cases "bump (consume_trivia s)") (auto simp: consume_if_def consume_trivia_raw Let_def)

lemma consume_if_moves:
  assumes e: "ext d n i s0 s" and k: "significant_kind s = Some k"
  shows "c_index s < c_index (snd (consume_if k s))"
proof -
  have "ext d n (c_index s) s0 (consume_trivia s)" by (intro ext_intro ext_lower [OF e]) simp
  moreover have "c_index (consume_trivia s) < length (c_tokens (consume_trivia s))"
    using k consume_trivia_raw [of s] by (simp add: raw_kind_Some_iff)
  ultimately show ?thesis using k by (auto simp: consume_if_eq bump_sel dest: ext_index)
qed

lemma source_separator_eq:
  assumes "\<not> at_eof s"
  shows "consume_source_separator s =
    (if significant_kind s = Some SEMICOLON then snd (consume_if SEMICOLON s)
     else snd (consume_if SEMICOLON (recover_until [SEMICOLON]
       (error_current ''expected `;` between query expressions'' (consume_trivia s)))))"
  unfolding consume_source_separator_def using assms
  by (subst (1 3) consume_if_eq) (simp only: Let_def if_False if_True prod.case snd_conv split: if_split, simp)

lemma source_separator_moves:
  assumes e: "ext d n i s0 s" and eof: "\<not> at_eof s"
  shows "c_index s < c_index (consume_source_separator s)"
proof (cases "significant_kind s = Some SEMICOLON")
  case True
  with consume_if_moves [OF e True] show ?thesis by (simp only: source_separator_eq [OF eof] if_P)
next
  case False
  let ?s = "error_current ''expected `;` between query expressions'' (consume_trivia s)"
  let ?r = "recover_until [SEMICOLON] ?s"
  have e1: "ext d n (c_index s) s0 ?s" by (intro ext_intro ext_lower [OF e]) simp
  have "ext d n (c_index ?r) s0 (snd (consume_if SEMICOLON ?r))"
    by (intro ext_intro ext_lower [OF ext_recover_until [OF e1]]) simp
  then have "c_index ?r \<le> c_index (snd (consume_if SEMICOLON ?r))" by (rule ext_index)
  moreover have "c_index s < c_index ?r"
  proof (cases "at_eof ?s")
    case True
    then have "c_index s < c_index ?s"
      using eof ext_tokens [OF e] ext_tokens [OF e1] by (simp add: at_eof_def)
    moreover have "ext d n (c_index ?s) s0 ?r"
      by (rule ext_recover_until, rule ext_lower [OF e1]) simp
    then have "c_index ?s \<le> c_index ?r" by (rule ext_index)
    ultimately show ?thesis by simp
  next
    case more: False
    have raw: "raw_kind ?s = significant_kind s"
      using consume_trivia_raw [of s] by (simp add: error_current_def raw_kind_def)
    moreover from more obtain k where "raw_kind ?s = Some k"
      by (cases "raw_kind ?s") (simp_all add: at_eof_def raw_kind_None_iff)
    ultimately have k: "raw_kind ?s = Some k" "k \<noteq> SEMICOLON" "\<not> is_trivia k"
      using False significant_kind_Some(2) [of s k] by auto
    then have "\<not> at_any [SEMICOLON] ?s"
      using significant_kind_raw [OF k(1,3)] by (simp add: at_any_def)
    from recover_until_progress [OF e1 more this] ext_index [OF e1] show ?thesis by simp
  qed
  ultimately show ?thesis using False by (simp only: source_separator_eq [OF eof] if_False)
qed

lemma source_separator_progress:
  assumes e: "ext d n j s0 s" and "j < length (c_tokens s0)"
  shows "ext d n (Suc j) s0 (consume_source_separator s)"
proof (rule m3t.ext_progress [OF ext_source_separator [OF e]])
  show "c_index (consume_source_separator s) \<noteq> j"
  proof (cases "at_eof s")
    case True
    then show ?thesis
      using assms(2) ext_tokens [OF e] by (auto simp: at_eof_def consume_source_separator_def)
  next
    case False
    with source_separator_moves [OF e] ext_index [OF e] show ?thesis by fastforce
  qed
qed

context m3_exprs begin

lemma source_round_ext:
  assumes e: "ext d n i s0 s" and lt: "c_index s < length (c_tokens s)"
  shows "returns (parse_source_round rc s)
    (\<lambda>r. case r of Inl s' \<Rightarrow> ext d n (Suc (c_index s)) s0 s' | Inr _ \<Rightarrow> False)"
proof -
  have low: "ext d n (c_index s) s0 s" using e by (rule ext_lower) simp
  have moved: "returns (if c_index s' = c_index s then Some (Inr s') else Some (Inl x))
      (\<lambda>r. case r of Inl s' \<Rightarrow> ext d n (Suc (c_index s)) s0 s' | Inr _ \<Rightarrow> False)"
    if "ext d n (Suc (c_index s)) s0 s'" "ext d n (Suc (c_index s)) s0 x" for s' x
    using that ext_index [OF that(1)] by simp
  show ?thesis
  proof (cases "significant_kind s = Some SEMICOLON")
    case True
    have "ext d n (Suc (c_index s)) s0 (snd (consume_if SEMICOLON s))"
      using consume_if_moves [OF e True] by (intro m3t.ext_progress ext_consume_if low) simp
    then have "ext d n (Suc (c_index s)) s0 (consume_trivia (snd (bump (consume_trivia s))))"
      using True by (simp add: consume_if_eq ext_consume_trivia)
    with True lt moved show ?thesis by (simp add: parse_source_round_def consume_if_eq Let_def)
  next
    case False
    have "returns (parse_query_expression rc (consume_trivia s)) (ext d n (c_index s) s0)"
      by (rule query_expression_ext, rule ext_intro, rule low)
    then obtain x where x: "parse_query_expression rc (consume_trivia s) = Some x"
      "ext d n (c_index s) s0 x" by (rule returnsE)
    from lt ext_tokens [OF e]
    have "ext d n (Suc (c_index s)) s0 (consume_source_separator (consume_trivia x))"
      by (intro source_separator_progress ext_consume_trivia x(2)) simp
    from moved [OF this ext_consume_trivia [OF this]] False lt x(1) show ?thesis
      by (simp add: parse_source_round_def consume_if_eq Let_def)
  qed
qed

lemma source_ext:
  assumes "ext d n i s0 s"
  shows "returns (parse_source rc s) (\<lambda>s. ext d n i s0 s \<and> c_index s = length (c_tokens s0))"
  unfolding parse_source_def
proof (rule loop_returns [where Inv = "ext d n i s0"
      and meas = "\<lambda>s. length (c_tokens s0) - c_index s"])
  show "ext d n i s0 (consume_trivia s)" using assms by (rule ext_intro)
next
  fix s assume e: "ext d n i s0 s"
  show "returns (parse_source_round rc s)
     (\<lambda>r. case r of
        Inl s' \<Rightarrow> ext d n i s0 s' \<and>
          length (c_tokens s0) - c_index s' < length (c_tokens s0) - c_index s
      | Inr s' \<Rightarrow> ext d n i s0 s' \<and> c_index s' = length (c_tokens s0))"
  proof (cases "c_index s < length (c_tokens s)")
    case True
    show ?thesis
      using source_round_ext [OF e True]
    proof (rule returns_mono)
      fix r :: "m3_parser + m3_parser"
      assume "case r of Inl s' \<Rightarrow> ext d n (Suc (c_index s)) s0 s' | Inr _ \<Rightarrow> False"
      then obtain s' where r: "r = Inl s'" and e': "ext d n (Suc (c_index s)) s0 s'"
        by (cases r) auto
      from ext_index [OF e'] ext_index [OF e] have "ext d n i s0 s'" "c_index s < c_index s'"
        by (auto intro: ext_lower [OF e'])
      with r True ext_tokens [OF e] show "case r of
          Inl s' \<Rightarrow> ext d n i s0 s' \<and>
            length (c_tokens s0) - c_index s' < length (c_tokens s0) - c_index s
        | Inr s' \<Rightarrow> ext d n i s0 s' \<and> c_index s' = length (c_tokens s0)" by simp
    qed
  next
    case False
    with e ext_bound [OF e] ext_tokens [OF e] show ?thesis by (simp add: parse_source_round_def)
  qed
qed

end


section \<open>The parser\<close>

lemma m3_parse_returns:
  obtains events ds where "m3_parse (m3_new file ts) = Some (events, ds)"
    "one_root (length ts) events" "diag_trace ts file 0 (length ts) ds"
proof -
  let ?s0 = "p_open (Nod ROOT) (m3_new file ts)"
  have ch: "chained (m3_events ?s0) [0]" "chain_events (m3_events ?s0) [0] = [Open (Nod ROOT)]"
    using stream_append_chained [OF chained_new, of "Open (Nod ROOT)"]
    by (simp_all add: p_open_def m3_new_def stream_new_def chain_events_def)
  have "ext 0 0 0 ?s0 ?s0"
    using ext_refl [of ?s0] ch(1) by (auto simp: stream_ok_def p_open_def m3_new_def)
  from m3.source_ext [OF this] obtain s where run: "parse_source (m3_run m3_fuel) ?s0 = Some s"
    and e: "ext 0 0 0 ?s0 s" and eof: "c_index s = length ts"
    by (auto elim!: returnsE simp: p_open_def m3_new_def)
  from e obtain ids new ds where
    s: "chained (m3_events ?s0) ids" "chained (m3_events s) (ids @ new)"
      "chain_events (m3_events s) ids = chain_events (m3_events ?s0) ids"
      "c_diagnostics s = c_diagnostics ?s0 @ ds"
      "trace (c_tokens ?s0) (c_file ?s0) 0 (c_index ?s0) (c_index s) (chain_events (m3_events s) new) ds"
    by (elim extE)
  have ids: "ids = [0]" using s(1) ch(1) linked_unique by (auto simp: chained_def)
  let ?es = "chain_events (m3_events s) new"
  have tr: "trace ts file 0 0 (length ts) ?es ds"
    using s(5) eof by (simp add: p_open_def m3_new_def)
  have "into_events (m3_events (p_close s)) = Some (Open (Nod ROOT) # ?es @ [Close])"
    using into_events_chained [OF stream_append_chained(1) [OF s(2)], of Close]
      stream_append_chained(2) [OF s(2), of Close] s(3) ch(2) ids
      chain_events_append [of "m3_events s" "[0]" new]
    by (simp add: p_close_def)
  moreover have "one_root (length ts) (Open (Nod ROOT) # ?es @ [Close])"
    using tr by (intro one_root_wrap) (auto simp: trace_def)
  moreover have "c_diagnostics (p_close s) = ds"
    using s(4) by (simp add: p_close_def p_open_def m3_new_def)
  moreover have "diag_trace ts file 0 (length ts) ds" using tr unfolding trace_def by blast
  ultimately show thesis
    using run that by (simp add: m3_parse_def Let_def)
qed

lemma parse_query_run:
  obtains events ds where "one_root (length (lex logos source)) events"
    "diag_trace (lex logos source) file 0 (length (lex logos source)) ds"
    "parse_query logos owner source file =
       Some (case builder_finish
               (fold builder_push events (builder_new owner source (lex logos source))) of
             Inl e \<Rightarrow> Inl e
           | Inr green \<Rightarrow> Inr \<lparr>parse_green = green, parse_diagnostics = ds\<rparr>)"
proof -
  obtain events ds where "m3_parse (m3_new file (lex logos source)) = Some (events, ds)"
    "one_root (length (lex logos source)) events"
    "diag_trace (lex logos source) file 0 (length (lex logos source)) ds"
    by (rule m3_parse_returns)
  then show thesis by (intro that [of events ds]) (simp_all add: parse_query_def Let_def)
qed

lemma parse_query_tree:
  assumes "logos_covers logos source" and "length source \<le> u32_max"
  obtains p where "parse_query logos owner source file = Some (Inr p)"
    "node_text (parse_green p) = source"
    "map (\<lambda>t. (tok_kind t, tok_range t)) (node_tokens (parse_green p)) =
      map (\<lambda>(k, r). (Tok k, r)) (lex logos source)"
    "green_kind (parse_green p) = Nod ROOT" "node_ranges_ordered (parse_green p)"
proof -
  obtain events ds where one: "one_root (length (lex logos source)) events"
    and run: "parse_query logos owner source file =
       Some (case builder_finish
               (fold builder_push events (builder_new owner source (lex logos source))) of
             Inl e \<Rightarrow> Inl e
           | Inr green \<Rightarrow> Inr \<lparr>parse_green = green, parse_diagnostics = ds\<rparr>)"
    by (rule parse_query_run)
  obtain root where "builder_finish
        (fold builder_push events (builder_new owner source (lex logos source))) = Inr root"
    "node_text root = source"
    "map (\<lambda>t. (tok_kind t, tok_range t)) (node_tokens root) =
       map (\<lambda>(k, r). (Tok k, r)) (lex logos source)"
    "green_kind root = Nod ROOT" "node_ranges_ordered root"
    using finish_of_events [OF assms(2) lex_tiles [OF assms] one] by blast
  with run show thesis by (intro that [of "\<lparr>parse_green = root, parse_diagnostics = ds\<rparr>"]) simp_all
qed


section \<open>Properties of the query parser\<close>

text \<open>C2: The query parser always terminates: for every source, and whatever tokens the lexer
  produced for it, \<^verbatim>\<open>parse_query\<close> returns a result. No loop of the grammar can stall and the
  nesting limit bounds the recursion.\<close>

theorem parse_query_terminates: "\<exists>r. parse_query logos owner source file = Some r"
proof -
  obtain events ds where "parse_query logos owner source file =
       Some (case builder_finish
               (fold builder_push events (builder_new owner source (lex logos source))) of
             Inl e \<Rightarrow> Inl e
           | Inr green \<Rightarrow> Inr \<lparr>parse_green = green, parse_diagnostics = ds\<rparr>)"
    by (rule parse_query_run)
  then show ?thesis by blast
qed

text \<open>C1: Parsing is total and lossless: on every source up to 4 GiB that the lexer covers, well
  formed or not, \<^verbatim>\<open>parse_query\<close> returns a tree, the text of the tree is the source, and its
  leaves are the lexer's tokens in order with their kinds and ranges.\<close>

theorem parse_query_lossless:
  assumes "logos_covers logos source" and "length source \<le> u32_max"
  shows "\<exists>p. parse_query logos owner source file = Some (Inr p) \<and>
    node_text (parse_green p) = source \<and>
    map (\<lambda>t. (tok_kind t, tok_range t)) (node_tokens (parse_green p)) =
      map (\<lambda>(k, r). (Tok k, r)) (lex logos source) \<and>
    green_kind (parse_green p) = Nod ROOT \<and> node_ranges_ordered (parse_green p)"
  by (rule parse_query_tree [OF assms]) blast

text \<open>C3: The diagnostics of a parse come in source order, each one an error of the parsed file
  inside the source, and the \<open>BadToken\<close> diagnostics are exactly one for each unlexable token, with
  its range and in its order: no lexical error is lost or reported twice, wherever recovery met it.\<close>

theorem parse_query_diagnostics:
  assumes "logos_covers logos source" and "length source \<le> u32_max"
    and "parse_query logos owner source file = Some (Inr p)"
  shows "sorted (map (\<lambda>d. range_start (label_span (diag_primary d))) (parse_diagnostics p)) \<and>
    list_all (\<lambda>d. label_file (diag_primary d) = file \<and> diag_severity d = Error \<and>
       range_end (label_span (diag_primary d)) \<le> length source) (parse_diagnostics p) \<and>
    map (\<lambda>d. label_span (diag_primary d))
      (filter (\<lambda>d. diag_code d = BadToken) (parse_diagnostics p)) =
    map snd (filter (\<lambda>t. fst t = ERROR) (lex logos source))"
proof -
  obtain events ds where tr: "diag_trace (lex logos source) file 0 (length (lex logos source)) ds"
    and run: "parse_query logos owner source file =
       Some (case builder_finish
               (fold builder_push events (builder_new owner source (lex logos source))) of
             Inl e \<Rightarrow> Inl e
           | Inr green \<Rightarrow> Inr \<lparr>parse_green = green, parse_diagnostics = ds\<rparr>)"
    by (rule parse_query_run)
  from run assms(3) have "parse_diagnostics p = ds" by (auto split: sum.splits)
  with diag_trace_ordered [OF lex_tiles [OF assms(1,2)] tr] diag_trace_bad_tokens [OF tr]
  show ?thesis by (simp add: list_all_iff)
qed

text \<open>Trivia between two unary operators opens a node of its own: the loop of
  \<^verbatim>\<open>parse_unary_expression\<close> looks past trivia for the next operator but then bumps the raw token,
  so \<^verbatim>\<open>- -1\<close> gets three nested \<open>UNARY_EXPR\<close> nodes, the middle one holding only the space, where
  \<^verbatim>\<open>--1\<close> gets two.\<close>

theorem unary_trivia_extra_node:
  "map_option fst (m3_parse (m3_new (FileId 0)
       [(MINUS, text_range 0 1), (WHITESPACE, text_range 1 2), (MINUS, text_range 2 3),
        (INTEGER, text_range 3 4)])) =
     Some [Open (Nod ROOT), Open (Nod QUERY_EXPR), Open (Nod UNARY_EXPR), Advance,
       Open (Nod UNARY_EXPR), Advance, Open (Nod UNARY_EXPR), Advance,
       Open (Nod LITERAL_EXPR), Advance, Close, Close, Close, Close, Close, Close] \<and>
   map_option fst (m3_parse (m3_new (FileId 0)
       [(MINUS, text_range 0 1), (MINUS, text_range 1 2), (INTEGER, text_range 2 3)])) =
     Some [Open (Nod ROOT), Open (Nod QUERY_EXPR), Open (Nod UNARY_EXPR), Advance,
       Open (Nod UNARY_EXPR), Advance,
       Open (Nod LITERAL_EXPR), Advance, Close, Close, Close, Close, Close]"
  by (rule conjI) code_simp+


section \<open>Witnesses\<close>

text \<open>A lexer result for the source \<^verbatim>\<open>- #1\<close> whose third byte is not a token.\<close>

definition sample_logos :: logos where
  "sample_logos text =
     [(Some MINUS, 0, 1), (Some WHITESPACE, 1, 2), (None, 2, 3), (Some INTEGER, 3, 4)]"

lemma sample_covers: "logos_covers sample_logos ''- #1''" "length ''- #1'' \<le> u32_max"
  by (simp_all add: logos_covers_def sample_logos_def is_char_boundary_def is_continuation_byte_def
      u32_max_def)

theorem parse_query_lossless_witness:
  "\<exists>p. parse_query sample_logos 0 ''- #1'' (FileId 0) = Some (Inr p) \<and>
     node_text (parse_green p) = ''- #1''"
  using parse_query_lossless [OF sample_covers, of 0 "FileId 0"] by blast

theorem parse_query_diagnostics_witness:
  "\<exists>p. parse_query sample_logos 0 ''- #1'' (FileId 0) = Some (Inr p) \<and>
     map (\<lambda>d. label_span (diag_primary d))
      (filter (\<lambda>d. diag_code d = BadToken) (parse_diagnostics p)) = [text_range 2 3]"
proof -
  obtain p where p: "parse_query sample_logos 0 ''- #1'' (FileId 0) = Some (Inr p)"
    by (rule parse_query_tree [OF sample_covers])
  have "map snd (filter (\<lambda>t. fst t = ERROR) (lex sample_logos ''- #1'')) = [text_range 2 3]"
    by (simp add: lex_def sample_logos_def saturate_u32_def u32_max_def)
  with parse_query_diagnostics [OF sample_covers p] p show ?thesis by simp
qed

end
