(* ===== verification/DomainParser.thy ===== *)
theory DomainParser
  imports ParserCursor
begin

text \<open>
  The parser of Domain (model) files (\<^verbatim>\<open>crates/pure-analyzer-parser/src/domain.rs\<close>), function by
  function. Its state is the shared cursor with the source text, a plain vector of events and
  the coverage gaps. Functions that \<^verbatim>\<open>m3.rs\<close> has under the same name carry the prefix \<open>d_\<close>.

  A \<^verbatim>\<open>while\<close> is a \<open>loop\<close>; a \<^verbatim>\<open>for _ in 0..budget\<close> is \<open>for_budget\<close>, which ends with \<open>fin\<close> of its
  variables when the budget is used up. Type references recurse with fuel; a result \<open>None\<close>
  means that the computation did not return.
\<close>

section \<open>State\<close>

datatype DomainCoverageGapKind = UnsupportedTopLevel | UnsupportedMember | MalformedDeclaration

record domain_coverage_gap =
  gap_span :: text_range
  gap_kind :: DomainCoverageGapKind

datatype DeclarationKind = Class | Association | Profile

record d_parser = cursor +
  d_source :: string
  d_events :: "event list"
  d_gaps :: "domain_coverage_gap list"

definition MAX_PARSE_DEPTH :: nat where "MAX_PARSE_DEPTH = 256"

fun for_budget :: "nat \<Rightarrow> ('s \<Rightarrow> ('s + 'r) option) \<Rightarrow> ('s \<Rightarrow> 'r) \<Rightarrow> 's \<Rightarrow> 'r option" where
  "for_budget 0 body fin s = Some (fin s)"
| "for_budget (Suc n) body fin s =
     Option.bind (body s) (\<lambda>r. case r of Inl s' \<Rightarrow> for_budget n body fin s' | Inr x \<Rightarrow> Some x)"

definition d_new :: "string \<Rightarrow> file_id \<Rightarrow> token list \<Rightarrow> d_parser" where
  "d_new source file tokens =
     \<lparr>c_file = file, c_tokens = tokens, c_index = 0, c_diagnostics = [], c_depth = 0,
      d_source = source, d_events = [], d_gaps = []\<rparr>"

definition d_open :: "syntax_kind \<Rightarrow> d_parser \<Rightarrow> d_parser" where
  "d_open kind s = s\<lparr>d_events := d_events s @ [Open kind]\<rparr>"

definition d_close :: "d_parser \<Rightarrow> d_parser" where
  "d_close s = s\<lparr>d_events := d_events s @ [Close]\<rparr>"

definition d_bump :: "d_parser \<Rightarrow> bool \<times> d_parser" where
  "d_bump s =
     (case raw_kind s of
        None \<Rightarrow> (False, s)
      | Some kind \<Rightarrow>
          let s = (if kind = ERROR
                   then push_diagnostic BadToken (current_span s) ''unrecognized token'' s else s);
              s = s\<lparr>d_events := d_events s @ [Advance]\<rparr>
          in (True, s\<lparr>c_index := c_index s + 1\<rparr>))"

definition d_enter_parse_depth :: "d_parser \<Rightarrow> bool \<times> d_parser" where
  "d_enter_parse_depth s =
     (if MAX_PARSE_DEPTH \<le> c_depth s
      then (False, error_current ''Domain type nesting limit reached'' s)
      else (True, s\<lparr>c_depth := c_depth s + 1\<rparr>))"

definition raw_at :: "token_kind \<Rightarrow> d_parser \<Rightarrow> bool" where
  "raw_at kind s \<longleftrightarrow> raw_kind s = Some kind"

definition d_consume_trivia :: "d_parser \<Rightarrow> d_parser option" where
  "d_consume_trivia s =
     for_budget (length (c_tokens s)) (\<lambda>s.
       case raw_kind s of
         None \<Rightarrow> Some (Inr s)
       | Some kind \<Rightarrow>
           if \<not> is_trivia kind then Some (Inr s)
           else (let start = c_index s;
                     (_, s) = d_bump s
                 in if c_index s = start then Some (Inr s) else Some (Inl s)))
       id s"

definition consume_if_raw :: "token_kind \<Rightarrow> d_parser \<Rightarrow> d_parser" where
  "consume_if_raw kind s = (if raw_at kind s then snd (d_bump s) else s)"

definition d_consume_if :: "token_kind \<Rightarrow> d_parser \<Rightarrow> (bool \<times> d_parser) option" where
  "d_consume_if kind s =
     do {
       s \<leftarrow> d_consume_trivia s;
       let start = c_index s;
       let s = consume_if_raw kind s;
       Some (c_index s \<noteq> start, s)
     }"

definition d_expect :: "token_kind \<Rightarrow> string \<Rightarrow> d_parser \<Rightarrow> (bool \<times> d_parser) option" where
  "d_expect kind expected s =
     do {
       s \<leftarrow> d_consume_trivia s;
       Some (if raw_kind s = Some kind then d_bump s
             else (False, error_current (''expected '' @ expected) s))
     }"

definition d_consume_name :: "string \<Rightarrow> d_parser \<Rightarrow> (bool \<times> d_parser) option" where
  "d_consume_name expected s =
     do {
       s \<leftarrow> d_consume_trivia s;
       Some (if (case raw_kind s of Some kind \<Rightarrow> is_name kind | None \<Rightarrow> False) then d_bump s
             else (False, error_current (''expected '' @ expected) s))
     }"

definition source_text :: "text_range \<Rightarrow> d_parser \<Rightarrow> string" where
  "source_text r s =
     (case str_get (d_source s) (range_start r) (range_end r) of Some t \<Rightarrow> t | None \<Rightarrow> [])"

definition at_keyword :: "string \<Rightarrow> d_parser \<Rightarrow> bool" where
  "at_keyword keyword s =
     (case significant_index s of
        None \<Rightarrow> False
      | Some index \<Rightarrow>
          (case get_at (c_tokens s) index of
             None \<Rightarrow> False
           | Some (kind, r) \<Rightarrow> is_name kind \<and> source_text r s = keyword))"

definition expect_keyword :: "string \<Rightarrow> d_parser \<Rightarrow> (bool \<times> d_parser) option" where
  "expect_keyword keyword s =
     do {
       s \<leftarrow> d_consume_trivia s;
       Some (if at_keyword keyword s then d_bump s
             else (False, error_current (''expected `'' @ keyword @ ''`'') s))
     }"

text \<open>\<^verbatim>\<open>mark_gap_from\<close> extends the last gap when it has the same kind and touches the new span.\<close>

definition mark_gap_from :: "nat \<Rightarrow> DomainCoverageGapKind \<Rightarrow> d_parser \<Rightarrow> d_parser" where
  "mark_gap_from start kind s =
     (let span = (case get_at (c_tokens s) start of
                    Some (_, r) \<Rightarrow>
                      (let end = (case get_at (c_tokens s) (c_index s - 1) of
                                    Some (_, e) \<Rightarrow> range_end e
                                  | None \<Rightarrow> range_end r)
                       in text_range (range_start r) end)
                  | None \<Rightarrow> eof_span s);
          gaps = d_gaps s
      in if gaps \<noteq> [] \<and> gap_kind (last gaps) = kind \<and>
            range_start span \<le> range_end (gap_span (last gaps)) \<and>
            range_start (gap_span (last gaps)) \<le> range_end span
         then s\<lparr>d_gaps := butlast gaps @ [(last gaps)\<lparr>gap_span := text_range
                (min (range_start (gap_span (last gaps))) (range_start span))
                (max (range_end (gap_span (last gaps))) (range_end span))\<rparr>]\<rparr>
         else s\<lparr>d_gaps := gaps @ [\<lparr>gap_span = span, gap_kind = kind\<rparr>]\<rparr>)"


section \<open>Lookahead\<close>

definition declaration_kind :: "d_parser \<Rightarrow> DeclarationKind option" where
  "declaration_kind s =
     (if at_keyword ''Class'' s then Some Class
      else if at_keyword ''Association'' s then Some Association
      else if at_keyword ''Profile'' s then Some Profile
      else None)"

text \<open>A significant name followed by the given token.\<close>

definition member_starts_property :: "d_parser \<Rightarrow> bool" where
  "member_starts_property s =
     (case significant_index s of
        None \<Rightarrow> False
      | Some name \<Rightarrow>
          (case get_at (c_tokens s) name of Some (kind, _) \<Rightarrow> is_name kind | None \<Rightarrow> False) \<and>
          next_significant_kind (name + 1) s = Some COLON)"

definition member_starts_qualified_property :: "d_parser \<Rightarrow> bool" where
  "member_starts_qualified_property s =
     (case significant_index s of
        None \<Rightarrow> False
      | Some name \<Rightarrow>
          (case get_at (c_tokens s) name of Some (kind, _) \<Rightarrow> is_name kind | None \<Rightarrow> False) \<and>
          next_significant_kind (name + 1) s = Some PAREN_OPEN)"

definition at_double_angle_open :: "d_parser \<Rightarrow> bool" where
  "at_double_angle_open s =
     (if at LT s
      then (case significant_index s of
              None \<Rightarrow> False
            | Some index \<Rightarrow> next_significant_kind (index + 1) s = Some LT)
      else False)"

definition at_double_angle_close :: "d_parser \<Rightarrow> bool" where
  "at_double_angle_close s \<longleftrightarrow>
     at GT s \<and>
     (case significant_index s of
        None \<Rightarrow> False
      | Some index \<Rightarrow> next_significant_kind (index + 1) s = Some GT)"

definition at_section_header :: "d_parser \<Rightarrow> bool" where
  "at_section_header s =
     (case significant_index s of
        None \<Rightarrow> False
      | Some first \<Rightarrow>
          list_all (\<lambda>index. case get_at (c_tokens s) index of
                             Some (kind, _) \<Rightarrow> kind = HASH
                           | None \<Rightarrow> False) [first..<first + 3])"

definition at_ignored_top_level :: "d_parser \<Rightarrow> bool" where
  "at_ignored_top_level s \<longleftrightarrow> at_keyword ''import'' s \<or> at_section_header s"

definition at_declaration_header_recovery_boundary :: "d_parser \<Rightarrow> bool" where
  "at_declaration_header_recovery_boundary s =
     (if raw_at SEMICOLON s then True
      else if raw_at BRACE_CLOSE s then True
      else declaration_kind s \<noteq> None)"

definition at_member_recovery_boundary :: "d_parser \<Rightarrow> bool" where
  "at_member_recovery_boundary s =
     (if at SEMICOLON s then True
      else if at BRACE_CLOSE s then True
      else if declaration_kind s \<noteq> None then True
      else if member_starts_property s then True
      else member_starts_qualified_property s)"

definition at_opaque_member_recovery_boundary :: "bool \<Rightarrow> d_parser \<Rightarrow> bool" where
  "at_opaque_member_recovery_boundary saw_property_colon s =
     (if raw_at BRACE_CLOSE s then True
      else if member_starts_property s then True
      else if saw_property_colon \<and> member_starts_qualified_property s then True
      else declaration_kind s \<noteq> None)"

text \<open>The three delimiter counters, in the order parentheses, brackets, braces.\<close>

definition adjust_delimiter_depths :: "d_parser \<Rightarrow> nat \<times> nat \<times> nat \<Rightarrow> nat \<times> nat \<times> nat" where
  "adjust_delimiter_depths s depths =
     (let (parentheses, brackets, braces) = depths; kind = raw_kind s
      in if kind = Some PAREN_OPEN then (parentheses + 1, brackets, braces)
         else if kind = Some PAREN_CLOSE then (parentheses - 1, brackets, braces)
         else if kind = Some BRACKET_OPEN then (parentheses, brackets + 1, braces)
         else if kind = Some BRACKET_CLOSE then (parentheses, brackets - 1, braces)
         else if kind = Some BRACE_OPEN then (parentheses, brackets, braces + 1)
         else if kind = Some BRACE_CLOSE then (parentheses, brackets, braces - 1)
         else (parentheses, brackets, braces))"

abbreviation no_delimiters :: "nat \<times> nat \<times> nat \<Rightarrow> bool" where
  "no_delimiters depths \<equiv> depths = (0, 0, 0)"


section \<open>Annotations\<close>

function annotation_path_loop ::
    "nat \<Rightarrow> nat \<Rightarrow> bool \<Rightarrow> bool \<Rightarrow> bool \<Rightarrow> d_parser \<Rightarrow> bool" where
  "annotation_path_loop cursor end saw_name expect_name leading_allowed s =
     (case next_significant_index_from cursor s of
        None \<Rightarrow> saw_name \<and> \<not> expect_name
      | Some index \<Rightarrow>
          if end \<le> index then saw_name \<and> \<not> expect_name
          else
            (let kind = fst (c_tokens s ! index)
             in if expect_name then
                  (if is_name kind then annotation_path_loop (index + 1) end True False False s
                   else if \<not> saw_name \<and> leading_allowed \<and> kind = PATH_SEPARATOR
                     then annotation_path_loop (index + 1) end saw_name expect_name False s
                   else False)
                else if kind = PATH_SEPARATOR \<or> kind = DOT
                  then annotation_path_loop (index + 1) end saw_name True leading_allowed s
                else False))"
  by pat_completeness auto
termination annotation_path_loop
  by (relation "measure (\<lambda>(cursor, _, _, _, _, s). length (c_tokens s) - cursor)")
    (simp_all del: One_nat_def add_Suc_right add: next_significant_decreases)

declare annotation_path_loop.simps [simp del]

definition annotation_path_is_valid :: "nat \<Rightarrow> nat \<Rightarrow> d_parser \<Rightarrow> bool" where
  "annotation_path_is_valid start end s = annotation_path_loop start end False True True s"

text \<open>The scan of a braced annotation walks the remaining tokens with their indices.\<close>

fun braced_annotation_scan ::
    "nat \<Rightarrow> token list \<Rightarrow> nat \<Rightarrow> nat \<Rightarrow> nat option \<Rightarrow> d_parser \<Rightarrow> bool" where
  "braced_annotation_scan open_index [] index depth assignment s = False"
| "braced_annotation_scan open_index ((kind, r) # rest) index depth assignment s =
     (if kind = BRACE_OPEN
        then braced_annotation_scan open_index rest (index + 1) (depth + 1) assignment s
      else if kind = BRACE_CLOSE
        then (if depth - 1 = 0
              then (case assignment of
                      None \<Rightarrow> False
                    | Some a \<Rightarrow>
                        if annotation_path_is_valid (open_index + 1) a s
                        then (case next_significant_index_from (a + 1) s of
                                None \<Rightarrow> False
                              | Some value \<Rightarrow> value < index)
                        else False)
              else braced_annotation_scan open_index rest (index + 1) (depth - 1) assignment s)
      else if kind = ASSIGN \<and> assignment = None \<and> depth = 1
        then braced_annotation_scan open_index rest (index + 1) depth (Some index) s
      else braced_annotation_scan open_index rest (index + 1) depth assignment s)"

definition braced_annotation_is_valid :: "d_parser \<Rightarrow> bool" where
  "braced_annotation_is_valid s =
     (case significant_index s of
        None \<Rightarrow> False
      | Some open_index \<Rightarrow>
          if fst (c_tokens s ! open_index) \<noteq> BRACE_OPEN then False
          else braced_annotation_scan open_index (drop (open_index + 1) (c_tokens s))
                 (open_index + 1) 1 None s)"

function double_angle_scan :: "nat \<Rightarrow> nat \<Rightarrow> d_parser \<Rightarrow> bool" where
  "double_angle_scan second_open cursor s =
     (case next_significant_index_from cursor s of
        None \<Rightarrow> False
      | Some first_close \<Rightarrow>
          if fst (c_tokens s ! first_close) = GT \<and>
             (case next_significant_index_from (first_close + 1) s of
                None \<Rightarrow> False
              | Some second_close \<Rightarrow> fst (c_tokens s ! second_close) = GT)
          then annotation_path_is_valid (second_open + 1) first_close s
          else double_angle_scan second_open (first_close + 1) s)"
  by pat_completeness auto
termination double_angle_scan
  by (relation "measure (\<lambda>(_, cursor, s). length (c_tokens s) - cursor)")
    (simp_all del: One_nat_def add_Suc_right add: next_significant_decreases)

declare double_angle_scan.simps [simp del]

definition double_angle_stereotype_is_valid :: "d_parser \<Rightarrow> bool" where
  "double_angle_stereotype_is_valid s =
     (case significant_index s of
        None \<Rightarrow> False
      | Some first_open \<Rightarrow>
          (case next_significant_index_from (first_open + 1) s of
             None \<Rightarrow> False
           | Some second_open \<Rightarrow>
               if fst (c_tokens s ! first_open) = LT \<and> fst (c_tokens s ! second_open) = LT
               then double_angle_scan second_open (second_open + 1) s
               else False))"

end
