(* ===== verification/DomainGrammar.thy ===== *)
theory DomainGrammar
  imports DomainParser
begin

text \<open>
  The grammar functions of \<^verbatim>\<open>crates/pure-analyzer-parser/src/domain.rs\<close> and the entry point
  \<^verbatim>\<open>parse_domain\<close>.
\<close>

section \<open>Recovery and opaque regions\<close>

definition d_recover_until :: "token_kind list \<Rightarrow> d_parser \<Rightarrow> d_parser option" where
  "d_recover_until boundaries s =
     loop (\<lambda>s.
       if raw_kind s \<noteq> None \<and> \<not> at_any boundaries s
       then (let start = c_index s;
                 (_, s) = d_bump s
             in if c_index s = start then Some (Inr s) else Some (Inl s))
       else Some (Inr s)) s"

definition recover_declaration_header :: "d_parser \<Rightarrow> d_parser option" where
  "recover_declaration_header s =
     do {
       let s = d_open (Nod ERROR_NODE) s;
       s \<leftarrow> loop (\<lambda>s.
         if raw_kind s \<noteq> None then
           (if at_declaration_header_recovery_boundary s then Some (Inr s)
            else let start = c_index s;
                     (_, s) = d_bump s
                 in if c_index s = start then Some (Inr s) else Some (Inl s))
         else Some (Inr s)) s;
       let semicolon_start = c_index s;
       let s = consume_if_raw SEMICOLON s;
       let s = (if c_index s = semicolon_start \<and> raw_at SEMICOLON s
                then error_current
                  ''parser made no progress while consuming Domain recovery terminator'' s
                else s);
       Some (d_close s)
     }"

definition recover_member_tail :: "d_parser \<Rightarrow> d_parser option" where
  "recover_member_tail s =
     (if at_member_recovery_boundary s then Some s
      else do {
        let s = d_open (Nod ERROR_NODE) s;
        s \<leftarrow> loop (\<lambda>s.
          if raw_kind s \<noteq> None then
            (if at_member_recovery_boundary s then Some (Inr s)
             else let start = c_index s;
                      (_, s) = d_bump s
                  in if c_index s = start then Some (Inr s) else Some (Inl s))
          else Some (Inr s)) s;
        s \<leftarrow> (if at SEMICOLON s
              then do { (_, s) \<leftarrow> d_consume_if SEMICOLON s; Some s }
              else Some s);
        Some (d_close s)
      })"

definition consume_member_terminator :: "d_parser \<Rightarrow> (bool \<times> d_parser) option" where
  "consume_member_terminator s =
     do {
       s \<leftarrow> d_consume_trivia s;
       let semicolon_start = c_index s;
       let s = consume_if_raw SEMICOLON s;
       if c_index s \<noteq> semicolon_start then Some (True, s)
       else do {
         let s = error_current ''expected `;` after a property declaration'' s;
         s \<leftarrow> (if raw_kind s \<noteq> None then recover_member_tail s else Some s);
         Some (False, s)
       }
     }"

definition consume_balanced_braces :: "d_parser \<Rightarrow> (bool \<times> d_parser) option" where
  "consume_balanced_braces s =
     do {
       (opened, s) \<leftarrow> d_expect BRACE_OPEN ''`{` before a braced Domain construct'' s;
       if \<not> opened then Some (False, s)
       else do {
         (closed, s) \<leftarrow> for_budget (length (c_tokens s)) (\<lambda>(depth, s).
           if raw_kind s = None then Some (Inr (False, s))
           else
             let start = c_index s
             in if raw_kind s = Some BRACE_CLOSE then
                  (let depth = depth - 1;
                       (_, s) = d_bump s
                   in if c_index s = start then Some (Inr (False, s))
                      else if depth = 0 then Some (Inr (True, s))
                      else Some (Inl (depth, s)))
                else
                  (let depth = (if raw_kind s = Some BRACE_OPEN then depth + 1 else depth);
                       (_, s) = d_bump s
                   in if c_index s = start then Some (Inr (False, s)) else Some (Inl (depth, s))))
           (\<lambda>(_, s). (False, s)) (1 :: nat, s);
         if closed then Some (True, s)
         else Some (False, error_current ''expected `}` before end of file'' s)
       }
     }"

definition consume_double_angle :: "d_parser \<Rightarrow> (bool \<times> d_parser) option" where
  "consume_double_angle s =
     do {
       (first, s) \<leftarrow> d_expect LT ''first `<` before stereotype applications'' s;
       (second, s) \<leftarrow> d_expect LT ''second `<` before stereotype applications'' s;
       if \<not> (first \<and> second) then Some (False, s)
       else do {
         (closed, s) \<leftarrow> for_budget (length (c_tokens s)) (\<lambda>s.
           if raw_kind s = None then Some (Inr (False, s))
           else
             let start = c_index s
             in if at_double_angle_close s then do {
                  (first, s) \<leftarrow> d_expect GT ''first `>` after stereotype applications'' s;
                  (second, s) \<leftarrow> d_expect GT ''second `>` after stereotype applications'' s;
                  if first \<and> second then Some (Inr (True, s)) else Some (Inr (False, s))
                }
                else
                  (let (_, s) = d_bump s
                   in if c_index s = start then Some (Inr (False, s)) else Some (Inl s)))
           (\<lambda>s. (False, s)) s;
         if closed then Some (True, s)
         else Some (False, error_current ''expected `>>` before end of file'' s)
       }
     }"

definition parse_opaque_body :: "d_parser \<Rightarrow> d_parser option" where
  "parse_opaque_body s =
     do {
       let s = d_open (Nod DOMAIN_OPAQUE_BODY) s;
       (_, s) \<leftarrow> consume_balanced_braces s;
       Some (d_close s)
     }"

definition parse_opaque_expression :: "d_parser \<Rightarrow> d_parser option" where
  "parse_opaque_expression s =
     do {
       let s = d_open (Nod DOMAIN_OPAQUE_BODY) s;
       s \<leftarrow> loop (\<lambda>(depths, s).
         if raw_kind s \<noteq> None then
           (if no_delimiters depths \<and> (raw_at SEMICOLON s \<or> raw_at BRACE_CLOSE s)
            then Some (Inr s)
            else let (_, s') = d_bump s
                 in Some (Inl (adjust_delimiter_depths s depths, s')))
         else Some (Inr s)) ((0, 0, 0), s);
       Some (d_close s)
     }"

definition consume_top_level_construct :: "node_kind \<Rightarrow> d_parser \<Rightarrow> d_parser option" where
  "consume_top_level_construct kind s =
     do {
       let s = d_open (Nod kind) s;
       s \<leftarrow> loop (\<lambda>((depths, consumed), s).
         if raw_kind s \<noteq> None then
           (if consumed \<and> no_delimiters depths \<and>
               (declaration_kind s \<noteq> None \<or> at_ignored_top_level s)
            then Some (Inr s)
            else if consumed \<and> no_delimiters depths \<and> raw_at BRACE_CLOSE s then Some (Inr s)
            else
              let ends_declaration = (raw_at SEMICOLON s \<and> no_delimiters depths);
                  ends_braced_declaration = (raw_at BRACE_CLOSE s \<and> snd (snd depths) = 1);
                  depths = adjust_delimiter_depths s depths;
                  (bumped, s) = d_bump s
              in if \<not> bumped then Some (Inr s)
                 else if ends_declaration \<or> ends_braced_declaration then Some (Inr s)
                 else Some (Inl ((depths, True), s)))
         else Some (Inr s)) (((0, 0, 0), False), s);
       Some (d_close s)
     }"

definition parse_opaque_top_level :: "d_parser \<Rightarrow> d_parser option" where
  "parse_opaque_top_level s =
     do {
       let start = c_index s;
       s \<leftarrow> consume_top_level_construct DOMAIN_OPAQUE_NODE s;
       Some (mark_gap_from start UnsupportedTopLevel s)
     }"

definition parse_ignored_top_level :: "d_parser \<Rightarrow> d_parser option" where
  "parse_ignored_top_level s = consume_top_level_construct DOMAIN_IGNORED_TOP_LEVEL s"

definition parse_opaque_member :: "d_parser \<Rightarrow> d_parser option" where
  "parse_opaque_member s =
     do {
       let start = c_index s;
       let s = d_open (Nod DOMAIN_OPAQUE_NODE) s;
       s \<leftarrow> loop (\<lambda>((depths, consumed, saw_property_colon), s).
         if raw_kind s \<noteq> None then
           (if consumed \<and> no_delimiters depths \<and>
               at_opaque_member_recovery_boundary saw_property_colon s
            then Some (Inr s)
            else
              let ends_member = (raw_at SEMICOLON s \<and> no_delimiters depths);
                  saw_property_colon =
                    (saw_property_colon \<or> (raw_at COLON s \<and> no_delimiters depths));
                  depths = adjust_delimiter_depths s depths;
                  (_, s) = d_bump s
              in if ends_member then Some (Inr s)
                 else Some (Inl ((depths, True, saw_property_colon), s)))
         else Some (Inr s)) (((0, 0, 0), False, False), s);
       let s = d_close s;
       Some (mark_gap_from start UnsupportedMember s)
     }"


section \<open>Stereotype applications\<close>

definition parse_stereotype_applications :: "d_parser \<Rightarrow> d_parser option" where
  "parse_stereotype_applications s =
     do {
       s \<leftarrow> d_consume_trivia s;
       for_budget (length (c_tokens s)) (\<lambda>s.
         if raw_kind s = None \<or> \<not> (at BRACE_OPEN s \<or> at_double_angle_open s) then Some (Inr s)
         else do {
           let start = c_index s;
           let braced = at BRACE_OPEN s;
           let structurally_valid = (if braced then braced_annotation_is_valid s
                                     else double_angle_stereotype_is_valid s);
           let s = d_open (Nod (if structurally_valid then DOMAIN_STEREOTYPE_APPLICATIONS
                                else ERROR_NODE)) s;
           (closed, s) \<leftarrow> (if braced then consume_balanced_braces s else consume_double_angle s);
           let s = d_close s;
           if c_index s = start then do {
             let s = error_current
               ''parser made no progress while reading Domain stereotype applications'' s;
             let s = d_open (Nod ERROR_NODE) s;
             let (_, s) = d_bump s;
             Some (Inr (d_close s))
           }
           else do {
             let s = (if \<not> structurally_valid \<or> \<not> closed
                      then mark_gap_from start MalformedDeclaration
                        (if closed
                         then error_current
                           ''malformed Domain stereotype or tagged-value application'' s
                         else s)
                      else s);
             s \<leftarrow> d_consume_trivia s;
             Some (Inl s)
           }
         }) id s
     }"


section \<open>Names, types and multiplicities\<close>

definition parse_domain_qualified_name :: "string \<Rightarrow> d_parser \<Rightarrow> (bool \<times> d_parser) option" where
  "parse_domain_qualified_name expected s =
     do {
       let s = d_open (Nod DOMAIN_QUALIFIED_NAME) s;
       (_, s) \<leftarrow> d_consume_if PATH_SEPARATOR s;
       (valid, s) \<leftarrow> d_consume_name expected s;
       (valid, s) \<leftarrow> loop (\<lambda>(valid, s). do {
         (has_separator, s') \<leftarrow> d_consume_if PATH_SEPARATOR s;
         if \<not> has_separator then Some (Inr (valid, s'))
         else do {
           (name, s'') \<leftarrow> d_consume_name ''a name after `::`'' s';
           let valid = (valid \<and> name);
           if \<not> valid then Some (Inr (valid, s'')) else Some (Inl (valid, s''))
         }
       }) (valid, s);
       Some (valid, d_close s)
     }"

definition d_consume_multiplicity_bound :: "d_parser \<Rightarrow> (bool \<times> d_parser) option" where
  "d_consume_multiplicity_bound s =
     do {
       (is_integer, s) \<leftarrow> d_consume_if INTEGER s;
       if is_integer then Some (True, s)
       else do {
         (is_star, s) \<leftarrow> d_consume_if STAR s;
         if is_star then Some (True, s)
         else Some (False, error_current ''expected a multiplicity bound'' s)
       }
     }"

definition parse_domain_multiplicity :: "d_parser \<Rightarrow> (bool \<times> d_parser) option" where
  "parse_domain_multiplicity s =
     do {
       s \<leftarrow> d_consume_trivia s;
       if \<not> at BRACKET_OPEN s
       then Some (False, error_current ''expected a multiplicity after a type'' s)
       else do {
         let s = d_open (Nod DOMAIN_MULTIPLICITY) s;
         (opened, s) \<leftarrow> d_expect BRACKET_OPEN ''`[` before a multiplicity'' s;
         (lower, s) \<leftarrow> d_consume_multiplicity_bound s;
         (has_dot, s) \<leftarrow> d_consume_if DOT s;
         (upper, s) \<leftarrow> (if has_dot
           then do {
             (second, s) \<leftarrow> d_expect DOT ''second `.` in a multiplicity range'' s;
             if second then d_consume_multiplicity_bound s else Some (False, s)
           }
           else Some (True, s));
         (closed, s) \<leftarrow> d_expect BRACKET_CLOSE ''`]` after a multiplicity'' s;
         Some (opened \<and> lower \<and> upper \<and> closed, d_close s)
       }
     }"

text \<open>One round of the loop over type arguments; \<open>rc\<close> parses the argument.\<close>

definition type_argument_round ::
    "(d_parser \<Rightarrow> (bool \<times> d_parser) option) \<Rightarrow> bool \<Rightarrow> d_parser \<Rightarrow>
       (bool \<times> d_parser + bool \<times> d_parser) option" where
  "type_argument_round rc valid s =
     (if raw_kind s \<noteq> None \<and> \<not> at GT s then do {
        let argument_start = c_index s;
        (argument, s) \<leftarrow> rc s;
        let valid = (valid \<and> argument);
        s \<leftarrow> d_consume_trivia s;
        let comma_start = c_index s;
        let s = consume_if_raw COMMA s;
        if c_index s \<noteq> comma_start then do {
          s \<leftarrow> d_consume_trivia s;
          if c_index s = argument_start
          then Some (Inr (False, error_current
            ''parser made no progress after Domain type argument separator'' s))
          else Some (Inl (valid, s))
        }
        else do {
          (stop, s) \<leftarrow> (if \<not> at GT s then do {
              let s = error_current ''expected `,` or `>` after a type argument'' s;
              s \<leftarrow> d_recover_until [COMMA, GT] s;
              let comma_start = c_index s;
              let s = consume_if_raw COMMA s;
              Some (c_index s = comma_start \<and> raw_at COMMA s, s)
            }
            else Some (False, s));
          if stop then Some (Inr (False, s))
          else if c_index s = argument_start
            then Some (Inr (False, error_current
              ''parser made no progress while recovering Domain type arguments'' s))
          else Some (Inl (valid, s))
        }
      }
      else Some (Inr (valid, s)))"

fun type_reference_fuel :: "nat \<Rightarrow> d_parser \<Rightarrow> (bool \<times> d_parser) option" where
  "type_reference_fuel 0 s = None"
| "type_reference_fuel (Suc fuel) s =
     (let (entered, s) = d_enter_parse_depth s
      in if \<not> entered then Some (False, s)
         else do {
           let s = d_open (Nod DOMAIN_TYPE_REF) s;
           (valid, s) \<leftarrow> parse_domain_qualified_name ''a type name'' s;
           (has_arguments, s) \<leftarrow> d_consume_if LT s;
           (valid, s) \<leftarrow> (if has_arguments then do {
               s \<leftarrow> d_consume_trivia s;
               let (valid, s) = (if at GT s
                 then (False, error_current ''expected a type argument after `<`'' s)
                 else (valid, s));
               (valid, s) \<leftarrow> loop (\<lambda>(valid, s).
                 type_argument_round (type_reference_fuel fuel) valid s) (valid, s);
               (closed, s) \<leftarrow> d_expect GT ''`>` after type arguments'' s;
               Some (valid \<and> closed, s)
             }
             else Some (valid, s));
           let s = d_close s;
           Some (valid, leave_parse_depth s)
         })"

text \<open>The nesting limit of 256 bounds the recursion, so one more unit of fuel is enough.\<close>

definition parse_domain_type_reference :: "d_parser \<Rightarrow> (bool \<times> d_parser) option" where
  "parse_domain_type_reference = type_reference_fuel (MAX_PARSE_DEPTH + 1)"


section \<open>Members\<close>

definition parse_parameter_list :: "d_parser \<Rightarrow> (bool \<times> d_parser) option" where
  "parse_parameter_list s =
     do {
       s \<leftarrow> d_consume_trivia s;
       if at PAREN_CLOSE s then Some (True, s)
       else loop (\<lambda>(valid, s). do {
         let start = c_index s;
         let s = d_open (Nod DOMAIN_PARAMETER_DECL) s;
         (name, s) \<leftarrow> d_consume_name ''a parameter name'' s;
         (colon, s) \<leftarrow> d_expect COLON ''`:` after a parameter name'' s;
         (ty, s) \<leftarrow> parse_domain_type_reference s;
         (multiplicity, s) \<leftarrow> parse_domain_multiplicity s;
         let s = d_close s;
         let valid = (valid \<and> name \<and> colon \<and> ty \<and> multiplicity);
         s \<leftarrow> d_consume_trivia s;
         let comma_start = c_index s;
         let s = consume_if_raw COMMA s;
         if c_index s \<noteq> comma_start then do {
           s \<leftarrow> d_consume_trivia s;
           if at PAREN_CLOSE s
             then Some (Inr (False, error_current ''expected a parameter after `,`'' s))
           else if c_index s = start
             then Some (Inr (False, error_current
               ''parser made no progress after qualified-property parameter separator'' s))
           else Some (Inl (valid, s))
         }
         else if at PAREN_CLOSE s \<or> raw_kind s = None then Some (Inr (valid, s))
         else do {
           let s = error_current ''expected `,` or `)` after a qualified-property parameter'' s;
           s \<leftarrow> d_recover_until [COMMA, PAREN_CLOSE, BRACE_CLOSE] s;
           if c_index s = start then Some (Inr (False, s))
           else do {
             let comma_start = c_index s;
             let s = consume_if_raw COMMA s;
             if c_index s \<noteq> comma_start then
               (if c_index s = start
                then Some (Inr (False, error_current
                  ''parser made no progress after qualified-property parameter recovery'' s))
                else Some (Inl (False, s)))
             else Some (Inr (False, s))
           }
         }
       }) (True, s)
     }"

definition parse_property :: "d_parser \<Rightarrow> d_parser option" where
  "parse_property s =
     do {
       let start = c_index s;
       let s = d_open (Nod DOMAIN_PROPERTY_DECL) s;
       (name, s) \<leftarrow> d_consume_name ''a property name'' s;
       (colon, s) \<leftarrow> d_expect COLON ''`:` after a property name'' s;
       (ty, s) \<leftarrow> parse_domain_type_reference s;
       (multiplicity, s) \<leftarrow> parse_domain_multiplicity s;
       (has_default, s) \<leftarrow> d_consume_if ASSIGN s;
       s \<leftarrow> (if has_default then parse_opaque_expression s else Some s);
       (terminator, s) \<leftarrow> consume_member_terminator s;
       let s = (if \<not> (name \<and> colon \<and> ty \<and> multiplicity \<and> terminator)
                then mark_gap_from start MalformedDeclaration s else s);
       Some (d_close s)
     }"

definition parse_qualified_property :: "d_parser \<Rightarrow> d_parser option" where
  "parse_qualified_property s =
     do {
       let start = c_index s;
       let s = d_open (Nod DOMAIN_QUALIFIED_PROPERTY_DECL) s;
       (name, s) \<leftarrow> d_consume_name ''a qualified-property name'' s;
       (opened, s) \<leftarrow> d_expect PAREN_OPEN ''`(` after a qualified-property name'' s;
       (parameters, s) \<leftarrow> (if opened then parse_parameter_list s else Some (False, s));
       (closed, s) \<leftarrow> (if opened
         then d_expect PAREN_CLOSE ''`)` after qualified-property parameters'' s
         else Some (False, s));
       (colon, s) \<leftarrow> d_expect COLON ''`:` after qualified-property parameters'' s;
       (ty, s) \<leftarrow> parse_domain_type_reference s;
       (multiplicity, s) \<leftarrow> parse_domain_multiplicity s;
       (body, s) \<leftarrow> (if at BRACE_OPEN s
         then do { s \<leftarrow> parse_opaque_body s; Some (True, s) }
         else do {
           let s = error_current ''expected `{` before a qualified-property body'' s;
           s \<leftarrow> recover_member_tail s;
           Some (False, s)
         });
       (_, s) \<leftarrow> d_consume_if SEMICOLON s;
       let s = (if \<not> (name \<and> opened \<and> parameters \<and> closed \<and> colon \<and> ty \<and> multiplicity \<and> body)
                then mark_gap_from start MalformedDeclaration s else s);
       Some (d_close s)
     }"

definition parse_member :: "DeclarationKind \<Rightarrow> d_parser \<Rightarrow> d_parser option" where
  "parse_member kind s =
     do {
       s \<leftarrow> parse_stereotype_applications s;
       s \<leftarrow> d_consume_trivia s;
       if raw_kind s = None then Some s
       else if member_starts_property s then parse_property s
       else if kind = Class \<and> member_starts_qualified_property s then parse_qualified_property s
       else parse_opaque_member s
     }"


section \<open>Declarations\<close>

text \<open>The error node the loops emit when a step did not advance.\<close>

definition skip_one :: "string \<Rightarrow> d_parser \<Rightarrow> d_parser" where
  "skip_one message s =
     (let s = error_current message s;
          s = d_open (Nod ERROR_NODE) s;
          (_, s) = d_bump s
      in d_close s)"

definition parse_declaration_body ::
    "DeclarationKind \<Rightarrow> d_parser \<Rightarrow> (bool \<times> d_parser) option" where
  "parse_declaration_body kind s =
     do {
       (opened, s) \<leftarrow> d_expect BRACE_OPEN ''`{` before declaration body'' s;
       if \<not> opened then do { s \<leftarrow> recover_declaration_header s; Some (False, s) }
       else loop (\<lambda>s.
         let eof = (\<lambda>s. Some (Inr (False, error_current ''expected `}` before end of file'' s)))
         in if raw_kind s = None then eof s
            else do {
              s \<leftarrow> d_consume_trivia s;
              if raw_kind s = None then eof s
              else if at BRACE_CLOSE s then Some (Inr (True, snd (d_bump s)))
              else if declaration_kind s \<noteq> None
                then Some (Inr (False,
                  error_current ''expected `}` before the next Domain declaration'' s))
              else do {
                let semicolon_start = c_index s;
                let s = consume_if_raw SEMICOLON s;
                let consumed_semicolon = (c_index s \<noteq> semicolon_start);
                s \<leftarrow> (if \<not> consumed_semicolon then do {
                    let start = c_index s;
                    s \<leftarrow> parse_member kind s;
                    Some (if c_index s = start
                          then skip_one ''parser made no progress while reading a Domain member'' s
                          else s)
                  }
                  else Some s);
                let s = (if c_index s = semicolon_start
                         then skip_one
                           ''parser made no progress after checking a Domain member terminator'' s
                         else s);
                Some (Inl s)
              }
            }) s
     }"

definition parse_stereotype_list :: "d_parser \<Rightarrow> (bool \<times> d_parser) option" where
  "parse_stereotype_list s =
     do {
       s \<leftarrow> d_consume_trivia s;
       for_budget (length (c_tokens s)) (\<lambda>(valid, s).
         if raw_kind s = None \<or> at BRACKET_CLOSE s then Some (Inr (valid, s))
         else do {
           let start = c_index s;
           let s = d_open (Nod DOMAIN_STEREOTYPE_DECL) s;
           (name, s) \<leftarrow> d_consume_name ''a stereotype name'' s;
           let s = d_close s;
           let valid = (valid \<and> name);
           s \<leftarrow> (if \<not> name then d_recover_until [COMMA, BRACKET_CLOSE] s else Some s);
           s \<leftarrow> d_consume_trivia s;
           let comma_start = c_index s;
           let s = consume_if_raw COMMA s;
           if c_index s \<noteq> comma_start then do {
             s \<leftarrow> d_consume_trivia s;
             Some (Inl (valid, s))
           }
           else do {
             (stop, valid, s) \<leftarrow> (if \<not> at BRACKET_CLOSE s then do {
                 let s = error_current ''expected `,` or `]` after a stereotype name'' s;
                 s \<leftarrow> d_recover_until [COMMA, BRACKET_CLOSE] s;
                 let comma_start = c_index s;
                 let s = consume_if_raw COMMA s;
                 Some (c_index s = comma_start \<and> raw_at COMMA s, False, s)
               }
               else Some (False, valid, s));
             if stop then Some (Inr (False, s))
             else if c_index s = start
               then Some (Inr (False, skip_one ''parser made no progress in stereotype list'' s))
             else Some (Inl (valid, s))
           }
         }) id (True, s)
     }"

definition consume_profile_tag_list :: "d_parser \<Rightarrow> d_parser option" where
  "consume_profile_tag_list s =
     loop (\<lambda>(depth, s).
       if raw_kind s \<noteq> None then
         (if raw_kind s = Some BRACKET_CLOSE \<and> depth = 0 then Some (Inr s)
          else
            let depth' = (if raw_at BRACKET_OPEN s \<or> raw_at PAREN_OPEN s \<or> raw_at BRACE_OPEN s
                          then depth + 1
                          else if raw_at BRACKET_CLOSE s \<or> raw_at PAREN_CLOSE s \<or> raw_at BRACE_CLOSE s
                          then depth - 1
                          else depth);
                (_, s) = d_bump s
            in Some (Inl (depth', s)))
       else Some (Inr s)) (0 :: nat, s)"

definition parse_profile_section :: "d_parser \<Rightarrow> (bool \<times> d_parser) option" where
  "parse_profile_section s =
     do {
       let stereotypes = at_keyword ''stereotypes'' s;
       let s = d_open (Nod DOMAIN_PROFILE_SECTION) s;
       let (_, s) = d_bump s;
       (colon, s) \<leftarrow> d_expect COLON ''`:` after a profile section name'' s;
       (opened, s) \<leftarrow> d_expect BRACKET_OPEN ''`[` after a profile section name'' s;
       let header = (colon \<and> opened);
       (contents, s) \<leftarrow> (if header
         then if stereotypes then parse_stereotype_list s
              else do { s \<leftarrow> consume_profile_tag_list s; Some (True, s) }
         else Some (False, s));
       (closed, s) \<leftarrow> (if header then d_expect BRACKET_CLOSE ''`]` after a profile section'' s
                      else Some (False, s));
       (_, s) \<leftarrow> d_consume_if SEMICOLON s;
       Some (header \<and> contents \<and> closed, d_close s)
     }"

definition parse_profile_body :: "d_parser \<Rightarrow> (bool \<times> d_parser) option" where
  "parse_profile_body s =
     do {
       (opened, s) \<leftarrow> d_expect BRACE_OPEN ''`{` before profile body'' s;
       if \<not> opened then do { s \<leftarrow> recover_declaration_header s; Some (False, s) }
       else loop (\<lambda>(valid, s).
         let eof = (\<lambda>s. Some (Inr (False, error_current ''expected `}` before end of file'' s)))
         in if raw_kind s = None then eof s
            else do {
              s \<leftarrow> d_consume_trivia s;
              if raw_kind s = None then eof s
              else if at BRACE_CLOSE s then Some (Inr (valid, snd (d_bump s)))
              else if declaration_kind s \<noteq> None
                then Some (Inr (False,
                  error_current ''expected `}` before the next Domain declaration'' s))
              else do {
                let start = c_index s;
                (valid, s) \<leftarrow> (if at_keyword ''stereotypes'' s \<or> at_keyword ''tags'' s
                  then do {
                    (section_valid, s) \<leftarrow> parse_profile_section s;
                    Some (valid \<and> section_valid, s)
                  }
                  else do {
                    let semicolon_start = c_index s;
                    let s = consume_if_raw SEMICOLON s;
                    s \<leftarrow> (if c_index s = semicolon_start then parse_opaque_member s else Some s);
                    Some (valid, s)
                  });
                if c_index s = start
                then Some (Inl (False, skip_one
                  ''parser made no progress while reading Domain profile member'' s))
                else Some (Inl (valid, s))
              }
            }) (True, s)
     }"

definition parse_extends_clause :: "d_parser \<Rightarrow> (bool \<times> d_parser) option" where
  "parse_extends_clause s =
     do {
       let s = d_open (Nod DOMAIN_EXTENDS_CLAUSE) s;
       (keyword, s) \<leftarrow> expect_keyword ''extends'' s;
       (valid, s) \<leftarrow> (if keyword
         then parse_domain_qualified_name ''a supertype after `extends`'' s
         else Some (False, s));
       (valid, s) \<leftarrow> loop (\<lambda>(valid, s). do {
         s \<leftarrow> d_consume_trivia s;
         let comma_start = c_index s;
         let s = consume_if_raw COMMA s;
         if c_index s = comma_start then Some (Inr (valid, s))
         else do {
           (name, s) \<leftarrow> parse_domain_qualified_name ''a supertype after `,`'' s;
           let valid = (valid \<and> name);
           if c_index s = comma_start
           then Some (Inr (False, error_current
             ''parser made no progress after Domain extends separator'' s))
           else Some (Inl (valid, s))
         }
       }) (valid, s);
       let s = (if \<not> valid
                then error_current ''expected a valid supertype after `extends`'' s else s);
       Some (valid, d_close s)
     }"

definition parse_class :: "d_parser \<Rightarrow> d_parser option" where
  "parse_class s =
     do {
       let start = c_index s;
       let s = d_open (Nod DOMAIN_CLASS_DECL) s;
       (keyword, s) \<leftarrow> expect_keyword ''Class'' s;
       s \<leftarrow> parse_stereotype_applications s;
       (name, s) \<leftarrow> parse_domain_qualified_name ''a class name'' s;
       (extends, s) \<leftarrow> (if at_keyword ''extends'' s then parse_extends_clause s else Some (True, s));
       (body, s) \<leftarrow> parse_declaration_body Class s;
       let s = (if \<not> (keyword \<and> name \<and> extends \<and> body)
                then mark_gap_from start MalformedDeclaration s else s);
       Some (d_close s)
     }"

definition parse_association :: "d_parser \<Rightarrow> d_parser option" where
  "parse_association s =
     do {
       let start = c_index s;
       let s = d_open (Nod DOMAIN_ASSOCIATION_DECL) s;
       (keyword, s) \<leftarrow> expect_keyword ''Association'' s;
       s \<leftarrow> parse_stereotype_applications s;
       (name, s) \<leftarrow> parse_domain_qualified_name ''an association name'' s;
       (body, s) \<leftarrow> parse_declaration_body Association s;
       let s = (if \<not> (keyword \<and> name \<and> body)
                then mark_gap_from start MalformedDeclaration s else s);
       Some (d_close s)
     }"

definition parse_profile :: "d_parser \<Rightarrow> d_parser option" where
  "parse_profile s =
     do {
       let start = c_index s;
       let s = d_open (Nod DOMAIN_PROFILE_DECL) s;
       (keyword, s) \<leftarrow> expect_keyword ''Profile'' s;
       s \<leftarrow> parse_stereotype_applications s;
       (name, s) \<leftarrow> parse_domain_qualified_name ''a profile name'' s;
       (body, s) \<leftarrow> parse_profile_body s;
       let s = (if \<not> (keyword \<and> name \<and> body)
                then mark_gap_from start MalformedDeclaration s else s);
       Some (d_close s)
     }"


section \<open>Whole files\<close>

definition parse_top_level :: "d_parser \<Rightarrow> (d_parser + d_parser) option" where
  "parse_top_level s =
     (if raw_kind s = None then Some (Inr s)
      else do {
        s \<leftarrow> d_consume_trivia s;
        if raw_kind s = None then Some (Inr s)
        else
          let (bumped, s) = (if raw_at SEMICOLON s then d_bump s else (False, s))
          in if bumped then Some (Inl s)
             else do {
               let start = c_index s;
               s \<leftarrow> (if declaration_kind s = Some Class then parse_class s
                     else if declaration_kind s = Some Association then parse_association s
                     else if declaration_kind s = Some Profile then parse_profile s
                     else if at_ignored_top_level s then parse_ignored_top_level s
                     else parse_opaque_top_level s);
               if c_index s \<noteq> start then Some (Inl s)
               else do {
                 let s = error_current
                   ''parser made no progress while reading a Domain declaration'' s;
                 let s = d_open (Nod ERROR_NODE) s;
                 let (bumped, s) = d_bump s;
                 if \<not> bumped then Some (Inr (d_close s)) else Some (Inl (d_close s))
               }
             }
      })"

definition d_parse ::
    "d_parser \<Rightarrow> (event list \<times> diagnostic list \<times> domain_coverage_gap list) option" where
  "d_parse s =
     do {
       let s = d_open (Nod ROOT) s;
       let s = d_open (Nod DOMAIN_FILE) s;
       s \<leftarrow> for_budget (length (c_tokens s)) parse_top_level id s;
       let s = d_close (d_close s);
       Some (d_events s, c_diagnostics s,
         sort_key (\<lambda>g. (range_start (gap_span g), range_end (gap_span g))) (d_gaps s))
     }"

record domain_parse =
  dp_green :: green_node
  dp_diagnostics :: "diagnostic list"
  dp_coverage_gaps :: "domain_coverage_gap list"

definition parse_domain ::
    "logos \<Rightarrow> nat \<Rightarrow> string \<Rightarrow> file_id \<Rightarrow> (BuildError + domain_parse) option" where
  "parse_domain logos owner source file =
     do {
       let tokens = lex logos source;
       (events, diagnostics, coverage_gaps) \<leftarrow> d_parse (d_new source file tokens);
       let builder = fold builder_push events (builder_new owner source tokens);
       Some (case builder_finish builder of
               Inl e \<Rightarrow> Inl e
             | Inr green \<Rightarrow> Inr \<lparr>dp_green = green, dp_diagnostics = diagnostics,
                 dp_coverage_gaps = coverage_gaps\<rparr>)
     }"

end
