(* ===== verification/DomainLossless.thy ===== *)
theory DomainLossless
  imports DomainGrammar ParseRules
begin

text \<open>
  Losslessness and termination of the Domain parser, over the rules of \<open>ParseRules\<close>.
  \<open>dext d n i s0 s\<close> is the Domain parser's \<open>parse_trace\<close>: the events appended since \<open>s0\<close> advance
  over every token passed, the diagnostics added lie in the passed region, and the coverage
  gaps stay inside the source.
\<close>

section \<open>Well-behaved parsing\<close>

definition gap_in :: "string \<Rightarrow> domain_coverage_gap \<Rightarrow> bool" where
  "gap_in source g \<longleftrightarrow>
     range_start (gap_span g) \<le> range_end (gap_span g) \<and> range_end (gap_span g) \<le> length source"

definition gaps_ok :: "d_parser \<Rightarrow> bool" where
  "gaps_ok s \<longleftrightarrow>
     (tiles (d_source s) 0 (token_spans (c_tokens s)) \<longrightarrow> list_all (gap_in (d_source s)) (d_gaps s))"

definition dext :: "nat \<Rightarrow> nat \<Rightarrow> nat \<Rightarrow> d_parser \<Rightarrow> d_parser \<Rightarrow> bool" where
  "dext d n i s0 s \<longleftrightarrow>
     c_tokens s = c_tokens s0 \<and> c_file s = c_file s0 \<and> d_source s = d_source s0 \<and>
     c_depth s = d \<and> i \<le> c_index s \<and> (gaps_ok s0 \<longrightarrow> gaps_ok s) \<and>
     (\<exists>es ds. d_events s = d_events s0 @ es \<and> c_diagnostics s = c_diagnostics s0 @ ds \<and>
        trace (c_tokens s0) (c_file s0) n (c_index s0) (c_index s) es ds)"

lemma dext_depth: "dext d n i s0 s \<Longrightarrow> c_depth s = d"
  and dext_tokens: "dext d n i s0 s \<Longrightarrow> c_tokens s = c_tokens s0"
  and dext_index: "dext d n i s0 s \<Longrightarrow> i \<le> c_index s"
  and dext_bound: "dext d n i s0 s \<Longrightarrow> c_index s \<le> length (c_tokens s)"
  by (auto simp: dext_def trace_def)

lemma dext_lower: "dext d n i s0 s \<Longrightarrow> j \<le> c_index s \<Longrightarrow> dext d n j s0 s"
  by (auto simp: dext_def)

lemma dext_weaken: "dext d n k s0 s \<Longrightarrow> j \<le> k \<Longrightarrow> dext d n j s0 s"
  by (auto simp: dext_def)

lemma dext_Suc: "dext d n (Suc j) s0 s \<Longrightarrow> dext d n j s0 s"
  by (erule dext_weaken) simp

lemma dext_refl: "c_index s \<le> length (c_tokens s) \<Longrightarrow> dext (c_depth s) 0 (c_index s) s s"
  by (auto simp: dext_def intro: trace_nil)

lemma dext_trans:
  assumes "dext d n i s0 s" and "dext d' m (c_index s) s s'"
  shows "dext d' (n + m) i s0 s'"
proof -
  from assms(1) obtain es ds where "d_events s = d_events s0 @ es"
    "c_diagnostics s = c_diagnostics s0 @ ds"
    and tr: "trace (c_tokens s0) (c_file s0) n (c_index s0) (c_index s) es ds"
    by (auto simp: dext_def)
  moreover from assms obtain es' ds' where "d_events s' = d_events s @ es'"
    "c_diagnostics s' = c_diagnostics s @ ds'"
    and tr': "trace (c_tokens s0) (c_file s0) m (c_index s) (c_index s') es' ds'"
    by (auto simp: dext_def)
  ultimately have "d_events s' = d_events s0 @ es @ es'"
    "c_diagnostics s' = c_diagnostics s0 @ ds @ ds'" by simp_all
  with assms trace_append [OF tr tr'] show ?thesis unfolding dext_def by auto
qed

interpretation dt: parse_trace dext
  by unfold_locales (fact dext_tokens dext_index dext_bound dext_lower dext_trans)+


subsection \<open>Primitive operations\<close>

lemma dext_step:
  assumes e: "dext d n i s0 s"
    and ev: "d_events s' = d_events s @ es'" "c_diagnostics s' = c_diagnostics s @ ds'"
    and sel: "c_tokens s' = c_tokens s" "c_file s' = c_file s" "d_source s' = d_source s"
      "d_gaps s' = d_gaps s" "c_depth s' = c_depth s" "c_index s \<le> c_index s'"
    and tr: "\<And>es ds. trace (c_tokens s) (c_file s) n (c_index s0) (c_index s) es ds \<Longrightarrow>
      trace (c_tokens s) (c_file s) m (c_index s0) (c_index s') (es @ es') (ds @ ds')"
  shows "dext d m i s0 s'"
proof -
  from e obtain es ds where "d_events s = d_events s0 @ es"
    "c_diagnostics s = c_diagnostics s0 @ ds"
    "trace (c_tokens s0) (c_file s0) n (c_index s0) (c_index s) es ds"
    by (auto simp: dext_def)
  moreover have "c_tokens s = c_tokens s0" "c_file s = c_file s0" using e by (auto simp: dext_def)
  ultimately have "d_events s' = d_events s0 @ es @ es'"
    "c_diagnostics s' = c_diagnostics s0 @ ds @ ds'"
    "trace (c_tokens s0) (c_file s0) m (c_index s0) (c_index s') (es @ es') (ds @ ds')"
    using ev tr [of es ds] by simp_all
  moreover have "gaps_ok s' = gaps_ok s" using sel by (simp add: gaps_ok_def)
  ultimately show ?thesis using e sel unfolding dext_def by auto
qed

lemma dext_open [ext_intro]:
  "dext d n i s0 s \<Longrightarrow> k \<noteq> ROOT \<Longrightarrow> dext d (Suc n) i s0 (d_open (Nod k) s)"
  by (erule dext_step [where ds' = "[]" and es' = "[Open (Nod k)]"])
    (auto simp: d_open_def intro: trace_open)

lemma dext_close [ext_intro]: "dext d (Suc n) i s0 s \<Longrightarrow> dext d n i s0 (d_close s)"
  by (erule dext_step [where ds' = "[]" and es' = "[Close]"])
    (auto simp: d_close_def intro: trace_close)

lemma push_diagnostic_domain [simp]:
  "d_events (push_diagnostic c sp m s) = d_events s"
  "d_source (push_diagnostic c sp m s) = d_source s"
  "d_gaps (push_diagnostic c sp m s) = d_gaps s"
  by (simp_all add: push_diagnostic_def)

lemma dext_error [ext_intro]: "dext d n i s0 s \<Longrightarrow> dext d n i s0 (error_current msg s)"
proof (erule dext_step [where es' = "[]"])
  let ?d = "diagnostic_builder MalformedSyntax Error msg (label_new (c_file s) (current_span s))"
  show "c_diagnostics (error_current msg s) = c_diagnostics s @ [?d]" by (simp add: error_current_def)
  have "diag_trace (c_tokens s) (c_file s) (c_index s) (c_index s) [?d]"
    by (intro diag_trace_error)
      (simp_all add: diagnostic_builder_def label_new_def current_span_at)
  then show "trace (c_tokens s) (c_file s) n (c_index s0) (c_index (error_current msg s))
      (es @ []) (ds @ [?d])"
    if "trace (c_tokens s) (c_file s) n (c_index s0) (c_index s) es ds" for es ds
    using trace_diag [OF that] by (simp add: error_current_def)
qed (simp_all add: error_current_def)

lemma d_bump_sel:
  "c_index (snd (d_bump s)) = (if c_index s < length (c_tokens s) then Suc (c_index s) else c_index s)"
  "fst (d_bump s) \<longleftrightarrow> c_index s < length (c_tokens s)"
  by (auto simp: d_bump_def Let_def raw_kind_None_iff raw_kind_Some_iff split: option.splits)

lemma dext_bump [ext_intro]: "dext d n i s0 s \<Longrightarrow> dext d n i s0 (snd (d_bump s))"
proof (cases "c_index s < length (c_tokens s)")
  case True
  let ?ds = "if raw_kind s = Some ERROR
    then [diagnostic_builder BadToken Error ''unrecognized token'' (label_new (c_file s) (current_span s))]
    else []"
  have "diag_trace (c_tokens s) (c_file s) (c_index s) (Suc (c_index s)) ?ds"
    using True
    by (auto simp: raw_kind_Some_iff current_span_at diagnostic_builder_def label_new_def
        intro!: diag_trace_skip diag_trace_bad_token)
  moreover obtain k where "raw_kind s = Some k" using True by (auto simp: raw_kind_def get_at_def)
  ultimately show "dext d n i s0 s \<Longrightarrow> dext d n i s0 (snd (d_bump s))"
    using True
    by (elim dext_step [where ds' = ?ds and es' = "[Advance]"])
      (auto simp: d_bump_def Let_def dest: trace_advance)
next
  case False
  then have "raw_kind s = None" by (simp add: raw_kind_None_iff)
  then show "dext d n i s0 s \<Longrightarrow> dext d n i s0 (snd (d_bump s))" by (simp add: d_bump_def)
qed

lemma dext_consume_if_raw [ext_intro]: "dext d n i s0 s \<Longrightarrow> dext d n i s0 (consume_if_raw k s)"
  unfolding consume_if_raw_def by (intro ext_intro)

lemma dext_set_depth: "dext d n i s0 s \<Longrightarrow> dext d' n i s0 (s\<lparr>c_depth := d'\<rparr>)"
  by (auto simp: dext_def gaps_ok_def)

lemma dext_leave [ext_intro]: "dext (Suc d) n i s0 s \<Longrightarrow> dext d n i s0 (leave_parse_depth s)"
  using dext_set_depth [of "Suc d" n i s0 s d] by (auto simp: leave_parse_depth_def dest: dext_depth)

text \<open>A gap that starts no later than the cursor is a valid range of the source.\<close>

lemma tiles_adjacent:
  "tiles s i (token_spans ts) \<Longrightarrow> Suc p < length ts \<Longrightarrow>
     range_end (snd (ts ! p)) = range_start (snd (ts ! Suc p))"
proof (induction ts arbitrary: i p)
  case (Cons t ts)
  then show ?case by (cases t; cases ts; cases p) (auto simp: token_spans_def case_prod_beta)
qed simp

lemma token_range_order:
  assumes t: "tiles source 0 (token_spans ts)" and "p \<le> q" "q < length ts"
  shows "range_start (snd (ts ! p)) \<le> range_end (snd (ts ! q))"
    "range_end (snd (ts ! q)) \<le> length source"
  using span_at_mono [OF t assms(2)] span_at_bounds [OF t, of q] assms(2,3)
  by (auto simp: span_at_def)

lemma gap_before_cursor:
  assumes t: "tiles source 0 (token_spans ts)"
    and "p \<le> q" "q \<le> length ts" "p < length ts"
  shows "range_start (snd (ts ! p)) \<le> range_end (snd (ts ! (q - 1))) \<and>
    range_end (snd (ts ! (q - 1))) \<le> length source"
proof (cases "p \<le> q - 1")
  case True
  with token_range_order [OF t True] assms show ?thesis by (cases q) auto
next
  case False
  with assms(2) have "q = p" "0 < p" by auto
  with tiles_adjacent [OF t, of "p - 1"] token_range_order(2) [OF t, of "p - 1" "p - 1"] assms(4)
  show ?thesis by simp
qed

lemma mark_gap_from_ok:
  assumes e: "dext d n i s0 s" and g: "gaps_ok s"
  shows "gaps_ok (mark_gap_from i kind s)"
proof -
  let ?ts = "c_tokens s"
  let ?span = "case get_at ?ts i of
        Some (_, r) \<Rightarrow> (let end = (case get_at ?ts (c_index s - 1) of
                                    Some (_, e) \<Rightarrow> range_end e | None \<Rightarrow> range_end r)
                        in text_range (range_start r) end)
      | None \<Rightarrow> eof_span s"
  have "gap_in (d_source s) \<lparr>gap_span = ?span, gap_kind = kind\<rparr>"
    if t: "tiles (d_source s) 0 (token_spans ?ts)"
  proof (cases "i < length ?ts")
    case True
    then have "c_index s - 1 < length ?ts" using dext_index [OF e] dext_bound [OF e] by auto
    with True gap_before_cursor [OF t dext_index [OF e] dext_bound [OF e] True] show ?thesis
      by (auto simp: get_at_def gap_in_def case_prod_beta Let_def)
  next
    case False
    with tiles_last_end [OF t] show ?thesis
      by (auto simp: get_at_def gap_in_def eof_span_def Let_def split: list.splits)
  qed
  moreover have "gap_in (d_source s) (last (d_gaps s))" "list_all (gap_in (d_source s)) (butlast (d_gaps s))"
    if "tiles (d_source s) 0 (token_spans ?ts)" "d_gaps s \<noteq> []"
    using g that by (auto simp: gaps_ok_def list_all_iff dest: in_set_butlastD)
  ultimately show ?thesis
    using g by (auto simp: gaps_ok_def mark_gap_from_def Let_def gap_in_def min_def max_def)
qed

lemma dext_mark_gap [ext_intro]:
  assumes e: "dext d n i s0 s"
  shows "dext d n i s0 (mark_gap_from i kind s)"
proof -
  have "c_tokens (mark_gap_from i kind s) = c_tokens s" "c_file (mark_gap_from i kind s) = c_file s"
    "c_index (mark_gap_from i kind s) = c_index s" "c_depth (mark_gap_from i kind s) = c_depth s"
    "c_diagnostics (mark_gap_from i kind s) = c_diagnostics s"
    "d_events (mark_gap_from i kind s) = d_events s" "d_source (mark_gap_from i kind s) = d_source s"
    by (simp_all add: mark_gap_from_def Let_def)
  with e mark_gap_from_ok [OF e, of kind] show ?thesis unfolding dext_def by auto
qed


section \<open>Symbolic execution\<close>

lemmas wp_let_domain_data [wp] =
  wp_let_plain [where x = "c_index s" for s]
  wp_let_plain [where x = "b :: bool" for b]
  wp_let_plain [where x = "b :: nat" for b]
  wp_let_plain [where x = "ds :: nat \<times> nat \<times> nat" for ds]

text \<open>
  A \<^verbatim>\<open>for\<close> over a budget ends whatever its rounds do, so a round need not move the cursor.
\<close>

definition budget_post ::
    "('x \<Rightarrow> d_parser) \<Rightarrow> ('y \<Rightarrow> d_parser) \<Rightarrow> nat \<Rightarrow> nat \<Rightarrow> nat \<Rightarrow> d_parser \<Rightarrow> ('x + 'y) \<Rightarrow> bool" where
  "budget_post pi po d n j s0 r =
     (case r of Inl x \<Rightarrow> dext d n j s0 (pi x) | Inr y \<Rightarrow> dext d n j s0 (po y))"

lemma budget_dext:
  assumes "dext d n i s0 (pi x)"
    and body: "\<And>x. dext d n (c_index (pi x)) s0 (pi x) \<Longrightarrow>
      returns (body x) (budget_post pi po d n (c_index (pi x)) s0)"
    and "\<And>x. po (fin x) = pi x"
  shows "returns (for_budget k body fin x) (\<lambda>y. dext d n i s0 (po y))"
  using assms(1)
proof (induction k arbitrary: x)
  case (Suc k)
  note i = dext_index [OF Suc.prems]
  have "returns (body x) (budget_post pi po d n (c_index (pi x)) s0)"
    by (rule body, rule dext_lower [OF Suc.prems]) simp
  then have "returns (body x) (budget_post pi po d n i s0)"
    by (rule returns_mono) (auto simp: budget_post_def split: sum.splits elim!: dext_weaken [OF _ i])
  with Suc.IH show ?case
    by (auto elim!: returnsE simp: budget_post_def split: sum.splits)
qed (simp add: assms(3))

lemma wp_budget_state [wp]:
  assumes "dext d n i s0 s"
    and "\<And>s. dext d n (c_index s) s0 s \<Longrightarrow>
      returns (body s) (budget_post (\<lambda>s. s) (\<lambda>s. s) d n (c_index s) s0)"
  shows "returns (for_budget k body id s) (\<lambda>s. dext d n i s0 s)"
  using budget_dext [of d n i s0 "\<lambda>s. s" s body "\<lambda>s. s" id] assms by simp

lemma wp_budget_pair [wp]:
  assumes "dext d n i s0 s"
    and "\<And>b s. dext d n (c_index s) s0 s \<Longrightarrow>
      returns (body b s) (budget_post snd snd d n (c_index s) s0)"
  shows "returns (for_budget k (\<lambda>(b, s). body b s) id (b, s)) (\<lambda>(b, s). dext d n i s0 s)"
  using budget_dext [of d n i s0 snd "(b, s)" "\<lambda>(b, s). body b s" snd id] assms
  by (simp add: case_prod_unfold)

lemma wp_budget_counter [wp]:
  assumes "dext d n i s0 s"
    and "\<And>c s. dext d n (c_index s) s0 s \<Longrightarrow>
      returns (body c s) (budget_post snd snd d n (c_index s) s0)"
  shows "returns (for_budget k (\<lambda>(c, s). body c s) (\<lambda>(_, s). (b, s)) (c, s)) (\<lambda>(b, s). dext d n i s0 s)"
  using budget_dext [of d n i s0 snd "(c, s)" "\<lambda>(c, s). body c s" snd "\<lambda>(_, s). (b, s)"] assms
  by (simp add: case_prod_unfold)

lemma wp_budget_result [wp]:
  assumes "dext d n i s0 s"
    and "\<And>s. dext d n (c_index s) s0 s \<Longrightarrow>
      returns (body s) (budget_post (\<lambda>s. s) snd d n (c_index s) s0)"
  shows "returns (for_budget k body (\<lambda>s. (b, s)) s) (\<lambda>(b, s). dext d n i s0 s)"
  using budget_dext [of d n i s0 "\<lambda>s. s" s body snd "\<lambda>s. (b, s)"] assms
  by (simp add: case_prod_unfold)

lemma wp_budget_continue [wp]:
  "dext d n k s0 (pi x) \<Longrightarrow> j \<le> k \<Longrightarrow> returns (Some (Inl x)) (budget_post pi po d n j s0)"
  by (auto simp: budget_post_def elim: dext_weaken)

lemma wp_budget_break [wp]:
  "dext d n k s0 (po y) \<Longrightarrow> j \<le> k \<Longrightarrow> returns (Some (Inr y)) (budget_post pi po d n j s0)"
  by (auto simp: budget_post_def elim: dext_weaken)

text \<open>Functions that remember where they began take that position as the lower bound.\<close>

lemma wp_from_here:
  assumes "dext d n i s0 s"
    and "dext d n (c_index s) s0 s \<Longrightarrow> returns m (\<lambda>s'. dext d n (c_index s) s0 s')"
  shows "returns m (\<lambda>s'. dext d n i s0 s')"
proof -
  have "returns m (\<lambda>s'. dext d n (c_index s) s0 s')"
    by (rule assms(2), rule dext_lower [OF assms(1)]) simp
  then show ?thesis
    by (rule returns_mono) (rule dext_weaken [OF _ dext_index [OF assms(1)]])
qed

lemma wp_lower:
  "returns m (\<lambda>(b, s'). dext d n k s0 s') \<Longrightarrow> i \<le> k \<Longrightarrow> returns m (\<lambda>(b, s'). dext d n i s0 s')"
  by (erule returns_mono) (auto elim: dext_weaken)

text \<open>Progress by consuming a token.\<close>

lemma bump_past:
  "raw_kind s \<noteq> None \<Longrightarrow> dext d n j s0 s \<Longrightarrow> dext d n (Suc j) s0 (snd (d_bump s))"
  using dt.ext_progress [OF dext_bump, of d n j s0 s] dext_index [of d n j s0 s]
  by (auto simp: d_bump_sel raw_kind_None_iff)

lemma wp_bump_past:
  assumes "raw_kind s \<noteq> None" "dext d n j s0 s"
    and "\<And>b s'. dext d n (Suc j) s0 s' \<Longrightarrow> returns (f b s') Q"
  shows "returns (let (b, s') = d_bump s in f b s') Q"
  using bump_past [OF assms(1,2)] assms(3) by (auto simp: case_prod_beta)

lemma if_progressed:
  "dext d n (Suc j) s0 s \<Longrightarrow> (dext d n (Suc j) s0 s \<Longrightarrow> returns m' Q) \<Longrightarrow>
     returns (if c_index s = j then m else m') Q"
  using dext_index [of d n "Suc j" s0 s] by auto

lemma if_consumed:
  assumes "dext d n i s0 s"
    and "\<And>s'. dext d n (Suc i) s0 s' \<Longrightarrow> returns (f s') Q"
    and "\<And>s'. dext d n i s0 s' \<Longrightarrow> returns (g s') Q"
  shows "returns (let start = c_index s; s' = consume_if_raw k s
    in if c_index s' \<noteq> start then f s' else g s') Q"
proof -
  note e = dext_consume_if_raw [OF assms(1), of k]
  have "dext d n (Suc i) s0 (consume_if_raw k s)" if "c_index (consume_if_raw k s) \<noteq> c_index s"
    using that dt.ext_progress [OF e] dext_index [OF assms(1)]
    by (auto simp: consume_if_raw_def d_bump_sel split: if_splits)
  with e assms(2,3) show ?thesis by (simp add: Let_def)
qed

lemmas d_progress = dt.if_progress dt.if_progress_or if_progressed wp_bump_past if_consumed


section \<open>Functions without recursive calls\<close>

lemma d_consume_trivia_dext [wp]:
  "dext d n i s0 s \<Longrightarrow> returns (d_consume_trivia s) (\<lambda>s. dext d n i s0 s)"
  unfolding d_consume_trivia_def
  by ((erule d_progress | rule wp | assumption | rule ext_intro | erule dext_Suc | simp (no_asm))+)

lemma d_consume_if_dext [wp]:
  "dext d n i s0 s \<Longrightarrow> returns (d_consume_if k s) (\<lambda>(b, s). dext d n i s0 s)"
  unfolding d_consume_if_def
  by ((rule wp | assumption | rule ext_intro | erule dext_Suc | simp (no_asm))+)

lemma d_expect_dext [wp]:
    "dext d n i s0 s \<Longrightarrow> returns (d_expect k msg s) (\<lambda>(b, s). dext d n i s0 s)"
  and d_consume_name_dext [wp]:
    "dext d n i s0 s \<Longrightarrow> returns (d_consume_name msg s) (\<lambda>(b, s). dext d n i s0 s)"
  and expect_keyword_dext [wp]:
    "dext d n i s0 s \<Longrightarrow> returns (expect_keyword msg s) (\<lambda>(b, s). dext d n i s0 s)"
  unfolding d_expect_def d_consume_name_def expect_keyword_def if_distrib [of Some]
  by ((rule wp | assumption | rule ext_intro | erule dext_Suc | simp (no_asm))+)

lemma d_recover_until_dext [wp]:
  "dext d n i s0 s \<Longrightarrow> returns (d_recover_until ks s) (\<lambda>s. dext d n i s0 s)"
  unfolding d_recover_until_def
  by ((erule d_progress | rule wp | assumption | rule ext_intro | erule dext_Suc | simp (no_asm))+)

lemma recover_declaration_header_dext [wp]:
  "dext d n i s0 s \<Longrightarrow> returns (recover_declaration_header s) (\<lambda>s. dext d n i s0 s)"
  unfolding recover_declaration_header_def
  by ((erule d_progress | rule wp | assumption | rule ext_intro | erule dext_Suc | simp (no_asm))+)

lemma recover_member_tail_dext [wp]:
  "dext d n i s0 s \<Longrightarrow> returns (recover_member_tail s) (\<lambda>s. dext d n i s0 s)"
  unfolding recover_member_tail_def
  by ((erule d_progress | rule wp | assumption | rule ext_intro | erule dext_Suc | simp (no_asm))+)

lemma consume_member_terminator_dext [wp]:
  "dext d n i s0 s \<Longrightarrow> returns (consume_member_terminator s) (\<lambda>(b, s). dext d n i s0 s)"
  unfolding consume_member_terminator_def
  by ((erule d_progress | rule wp | assumption | rule ext_intro | erule dext_Suc | simp (no_asm))+)

lemma consume_balanced_braces_dext [wp]:
  "dext d n i s0 s \<Longrightarrow> returns (consume_balanced_braces s) (\<lambda>(b, s). dext d n i s0 s)"
  unfolding consume_balanced_braces_def
  by ((erule d_progress | rule wp | assumption | rule ext_intro | erule dext_Suc | simp (no_asm))+)

lemma consume_double_angle_dext [wp]:
  "dext d n i s0 s \<Longrightarrow> returns (consume_double_angle s) (\<lambda>(b, s). dext d n i s0 s)"
  unfolding consume_double_angle_def
  by ((erule d_progress | rule wp | assumption | rule ext_intro | erule dext_Suc | simp (no_asm))+)

lemma parse_opaque_body_dext [wp]:
  "dext d n i s0 s \<Longrightarrow> returns (parse_opaque_body s) (\<lambda>s. dext d n i s0 s)"
  unfolding parse_opaque_body_def
  by ((erule d_progress | rule wp | assumption | rule ext_intro | erule dext_Suc | simp (no_asm))+)

lemma parse_opaque_expression_dext [wp]:
  "dext d n i s0 s \<Longrightarrow> returns (parse_opaque_expression s) (\<lambda>s. dext d n i s0 s)"
  unfolding parse_opaque_expression_def
  by ((erule d_progress | rule wp | assumption | rule ext_intro | erule dext_Suc | simp (no_asm))+)

lemma consume_top_level_construct_dext [wp]:
  "dext d n i s0 s \<Longrightarrow> k \<noteq> ROOT \<Longrightarrow>
     returns (consume_top_level_construct k s) (\<lambda>s. dext d n i s0 s)"
  unfolding consume_top_level_construct_def
  by ((erule d_progress | rule wp | assumption | rule ext_intro | erule dext_Suc | simp (no_asm))+)

lemma parse_opaque_top_level_dext [wp]:
  "dext d n i s0 s \<Longrightarrow> returns (parse_opaque_top_level s) (\<lambda>s. dext d n i s0 s)"
  unfolding parse_opaque_top_level_def
  by (erule wp_from_here)
    ((erule d_progress | rule wp | assumption | rule ext_intro | erule dext_Suc | simp (no_asm))+)

lemma parse_ignored_top_level_dext [wp]:
  "dext d n i s0 s \<Longrightarrow> returns (parse_ignored_top_level s) (\<lambda>s. dext d n i s0 s)"
  unfolding parse_ignored_top_level_def
  by ((erule d_progress | rule wp | assumption | rule ext_intro | erule dext_Suc | simp (no_asm))+)

lemma parse_opaque_member_dext [wp]:
  "dext d n i s0 s \<Longrightarrow> returns (parse_opaque_member s) (\<lambda>s. dext d n i s0 s)"
  unfolding parse_opaque_member_def
  by (erule wp_from_here)
    ((erule d_progress | rule wp | assumption | rule ext_intro | erule dext_Suc | simp (no_asm))+)

lemma parse_stereotype_applications_dext [wp]:
  "dext d n i s0 s \<Longrightarrow> returns (parse_stereotype_applications s) (\<lambda>s. dext d n i s0 s)"
  unfolding parse_stereotype_applications_def
  by ((erule d_progress | rule wp | assumption | rule ext_intro | erule dext_Suc | simp (no_asm))+)

lemma wp_separator:
  assumes "dext d n i s0 s"
    and "\<And>s'. dext d n i s0 s' \<Longrightarrow> returns (f s') Q"
    and "\<And>s'. dext d n (Suc i) s0 s' \<Longrightarrow> returns (g s') Q"
  shows "returns (Option.bind (d_consume_if k s) (\<lambda>(b, s'). if \<not> b then f s' else g s')) Q"
proof -
  have "returns (d_consume_trivia s) (\<lambda>s. dext d n i s0 s)" by (rule wp) fact
  then obtain x where x: "d_consume_trivia s = Some x" "dext d n i s0 x" by (rule returnsE)
  from if_consumed [OF x(2) assms(3,2), where k = k] show ?thesis
    by (auto simp: d_consume_if_def x(1) Let_def split: if_splits)
qed

lemma parse_domain_qualified_name_dext [wp]:
  "dext d n i s0 s \<Longrightarrow> returns (parse_domain_qualified_name msg s) (\<lambda>(b, s). dext d n i s0 s)"
  unfolding parse_domain_qualified_name_def
  by ((erule d_progress wp_separator | rule wp | assumption | rule ext_intro | erule dext_Suc | simp (no_asm))+)

lemma d_consume_multiplicity_bound_dext [wp]:
  "dext d n i s0 s \<Longrightarrow> returns (d_consume_multiplicity_bound s) (\<lambda>(b, s). dext d n i s0 s)"
  unfolding d_consume_multiplicity_bound_def
  by ((erule d_progress | rule wp | assumption | rule ext_intro | erule dext_Suc | simp (no_asm))+)

lemma parse_domain_multiplicity_dext [wp]:
  "dext d n i s0 s \<Longrightarrow> returns (parse_domain_multiplicity s) (\<lambda>(b, s). dext d n i s0 s)"
  unfolding parse_domain_multiplicity_def
  by ((erule d_progress | rule wp | assumption | rule ext_intro | erule dext_Suc | simp (no_asm))+)


section \<open>Type references\<close>

lemma wp_d_enter:
  assumes "dext d n i s0 s"
    and "\<And>s. dext d n i s0 s \<Longrightarrow> returns (f s) Q"
    and "\<And>s. d < MAX_PARSE_DEPTH \<Longrightarrow> dext (Suc d) n i s0 s \<Longrightarrow> returns (g s) Q"
  shows "returns (let (entered, s) = d_enter_parse_depth s in if \<not> entered then f s else g s) Q"
  using assms dext_depth [OF assms(1)] dext_set_depth [OF assms(1)]
  by (auto simp: d_enter_parse_depth_def intro: ext_intro)

lemma type_argument_round_dext:
  assumes rc [wp]: "\<And>n i s0 s. dext d n i s0 s \<Longrightarrow> returns (rc s) (\<lambda>(b, s). dext d n i s0 s)"
  shows "dext d n (c_index s) s0 s \<Longrightarrow> returns (type_argument_round rc valid s)
    (round_post dext snd snd (\<lambda>_. n) (\<lambda>_. n) d (c_index s) s0)"
  unfolding type_argument_round_def
  by ((erule d_progress | rule wp | assumption | rule ext_intro | erule dext_Suc | simp (no_asm))+)

lemma type_reference_fuel_dext:
  "MAX_PARSE_DEPTH - d < fuel \<Longrightarrow> dext d n i s0 s \<Longrightarrow>
     returns (type_reference_fuel fuel s) (\<lambda>(b, s). dext d n i s0 s)"
proof (induction fuel arbitrary: d n i s0 s)
  case (Suc fuel)
  note round = type_argument_round_dext [OF Suc.IH]
  from Suc.prems(2) show ?case
    unfolding type_reference_fuel.simps
  proof (rule wp_d_enter)
    fix s assume e: "dext d n i s0 s"
    then show "returns (Some (False, s)) (\<lambda>(b, s). dext d n i s0 s)" by simp
  next
    fix s assume lt: "d < MAX_PARSE_DEPTH" and e: "dext (Suc d) n i s0 s"
    have fuel: "MAX_PARSE_DEPTH - Suc d < fuel" using lt Suc.prems(1) by simp
    from e show "returns
      (do {
         let s = d_open (Nod DOMAIN_TYPE_REF) s;
         (valid, s) \<leftarrow> parse_domain_qualified_name ''a type name'' s;
         (has_arguments, s) \<leftarrow> d_consume_if LT s;
         (valid, s) \<leftarrow> (if has_arguments then do {
             s \<leftarrow> d_consume_trivia s;
             let (valid, s) = (if at GT s
               then (False, error_current ''expected a type argument after `<`'' s)
               else (valid, s));
             (valid, s) \<leftarrow> loop (\<lambda>(valid, s).
               type_argument_round (type_reference_fuel fuel) valid s) (valid, s);
             (closed, s) \<leftarrow> d_expect GT ''`>` after type arguments'' s;
             Some (valid \<and> closed, s)
           }
           else Some (valid, s));
         let s = d_close s;
         Some (valid, leave_parse_depth s)
       }) (\<lambda>(b, s). dext d n i s0 s)"
      by - ((rule round [OF fuel] | rule wp | assumption | rule ext_intro | simp (no_asm))+)
  qed
qed simp

lemma parse_domain_type_reference_dext [wp]:
  "dext d n i s0 s \<Longrightarrow> returns (parse_domain_type_reference s) (\<lambda>(b, s). dext d n i s0 s)"
  unfolding parse_domain_type_reference_def by (rule type_reference_fuel_dext) simp_all


section \<open>Members and declarations\<close>

lemma parse_parameter_list_dext [wp]:
  "dext d n i s0 s \<Longrightarrow> returns (parse_parameter_list s) (\<lambda>(b, s). dext d n i s0 s)"
  unfolding parse_parameter_list_def
  by ((erule d_progress | rule wp | assumption | rule ext_intro | erule dext_Suc | simp (no_asm))+)

lemma parse_property_dext [wp]:
  "dext d n i s0 s \<Longrightarrow> returns (parse_property s) (\<lambda>s. dext d n i s0 s)"
  unfolding parse_property_def
  by (erule wp_from_here)
    ((erule d_progress | rule wp | assumption | rule ext_intro | erule dext_Suc | simp (no_asm))+)

lemma parse_qualified_property_dext [wp]:
  "dext d n i s0 s \<Longrightarrow> returns (parse_qualified_property s) (\<lambda>s. dext d n i s0 s)"
  unfolding parse_qualified_property_def
  by (erule wp_from_here)
    ((erule d_progress | rule wp | assumption | rule ext_intro | erule dext_Suc | simp (no_asm))+)

lemma parse_member_dext [wp]:
  "dext d n i s0 s \<Longrightarrow> returns (parse_member kind s) (\<lambda>s. dext d n i s0 s)"
  unfolding parse_member_def
  by ((erule d_progress | rule wp | assumption | rule ext_intro | erule dext_Suc | simp (no_asm))+)

lemma dext_skip_one [ext_intro]: "dext d n i s0 s \<Longrightarrow> dext d n i s0 (skip_one msg s)"
  unfolding skip_one_def Let_def case_prod_beta by (intro ext_intro) simp_all

lemma parse_stereotype_list_dext [wp]:
  "dext d n i s0 s \<Longrightarrow> returns (parse_stereotype_list s) (\<lambda>(b, s). dext d n i s0 s)"
  unfolding parse_stereotype_list_def
  by ((erule d_progress | rule wp | assumption | rule ext_intro | erule dext_Suc | simp (no_asm))+)

lemma consume_profile_tag_list_dext [wp]:
  "dext d n i s0 s \<Longrightarrow> returns (consume_profile_tag_list s) (\<lambda>s. dext d n i s0 s)"
  unfolding consume_profile_tag_list_def
  by ((erule d_progress | rule wp | assumption | rule ext_intro | erule dext_Suc | simp (no_asm))+)

lemma parse_profile_section_dext [wp]:
  "dext d n i s0 s \<Longrightarrow> returns (parse_profile_section s) (\<lambda>(b, s). dext d n i s0 s)"
  unfolding parse_profile_section_def
  by ((erule d_progress | rule wp | assumption | rule ext_intro | erule dext_Suc | simp (no_asm))+)

lemma wp_consumed_or:
  assumes "dext d n i s0 s"
    and "\<And>s'. dext d n i s0 s' \<Longrightarrow> returns (g s') Q"
    and "\<And>x s'. i \<le> x \<Longrightarrow> dext d n (Suc x) s0 s' \<Longrightarrow> returns (f x s') Q"
  shows "returns (let start = c_index s; s' = consume_if_raw k s
    in if c_index s' = start then g s' else f start s') Q"
proof -
  have low: "dext d n (c_index s) s0 s" using assms(1) by (rule dext_lower) simp
  from if_consumed [OF low, where k = k and f = "f (c_index s)" and g = g and Q = Q]
    assms(2) assms(3) [OF dext_index [OF assms(1)]] dext_weaken [OF _ dext_index [OF assms(1)]]
  show ?thesis by (auto simp: Let_def)
qed

lemma parse_extends_clause_dext [wp]:
  "dext d n i s0 s \<Longrightarrow> returns (parse_extends_clause s) (\<lambda>(b, s). dext d n i s0 s)"
  unfolding parse_extends_clause_def
  by ((erule d_progress wp_consumed_or | rule wp | assumption | rule ext_intro |
        erule dext_weaken | simp (no_asm) | linarith)+)

text \<open>
  The member loops remember where a member starts, which is before the end of the file, and skip
  a token when the member did not move the cursor.
\<close>

lemma wp_mark:
  assumes "raw_kind s \<noteq> None" and "dext d n j s0 s"
    and "c_index s < length (c_tokens s0) \<Longrightarrow> j \<le> c_index s \<Longrightarrow> dext d n (c_index s) s0 s \<Longrightarrow>
      returns (f (c_index s)) Q"
  shows "returns (Let (c_index s) f) Q"
  using assms dext_index [OF assms(2)] dext_tokens [OF assms(2)] dext_lower [OF assms(2), of "c_index s"]
  by (simp add: raw_kind_None_iff)

lemma skip_one_past:
  assumes "c < length (c_tokens s0)" "dext d n c s0 s" "j \<le> c"
  shows "dext d n (Suc j) s0 (skip_one msg s)"
proof -
  let ?s = "d_open (Nod ERROR_NODE) (error_current msg s)"
  have e: "dext d (Suc n) c s0 ?s" using assms(2) by (intro ext_intro) simp_all
  have "dext d (Suc n) (Suc c) s0 (snd (d_bump ?s))"
  proof (cases "raw_kind ?s = None")
    case True
    then have "Suc c \<le> c_index ?s" using assms(1) dext_tokens [OF e] by (simp add: raw_kind_None_iff)
    then show ?thesis by (intro dext_bump) (rule dext_lower [OF e])
  next
    case False
    then show ?thesis using e by (rule bump_past)
  qed
  then have "dext d n (Suc c) s0 (skip_one msg s)"
    unfolding skip_one_def Let_def case_prod_beta by (rule dext_close)
  then show ?thesis using assms(3) by (elim dext_weaken) simp
qed

lemma wp_let_skip:
  assumes "c < length (c_tokens s0)" "dext d n c s0 s"
    and "\<And>s'. dext d n (Suc c) s0 s' \<Longrightarrow> returns (f s') Q"
  shows "returns (let s' = (if c_index s = c then skip_one msg s else s) in f s') Q"
  using assms(3) skip_one_past [OF assms(1,2)] dt.ext_progress [OF assms(2)] by auto

lemmas wp_let_eof [wp] =
  wp_let_plain [where x = "eof :: d_parser \<Rightarrow> (d_parser + bool \<times> d_parser) option" for eof]
  wp_let_plain [where x = "eof :: d_parser \<Rightarrow> (bool \<times> d_parser + bool \<times> d_parser) option" for eof]

lemma parse_declaration_body_dext [wp]:
  "dext d n i s0 s \<Longrightarrow> returns (parse_declaration_body kind s) (\<lambda>(b, s). dext d n i s0 s)"
  unfolding parse_declaration_body_def
  by ((erule wp_mark wp_let_skip | rule wp | assumption | rule ext_intro | erule dext_weaken |
        simp (no_asm) | linarith)+)

lemma parse_profile_body_dext [wp]:
  "dext d n i s0 s \<Longrightarrow> returns (parse_profile_body s) (\<lambda>(b, s). dext d n i s0 s)"
  unfolding parse_profile_body_def
  by ((erule wp_mark d_progress skip_one_past | rule wp | assumption | rule ext_intro |
        erule dext_weaken | simp (no_asm) | linarith)+)

lemma parse_class_dext [wp]:
  "dext d n i s0 s \<Longrightarrow> returns (parse_class s) (\<lambda>s. dext d n i s0 s)"
  unfolding parse_class_def
  by (erule wp_from_here)
    ((erule d_progress | rule wp | assumption | rule ext_intro | erule dext_Suc | simp (no_asm))+)

lemma parse_association_dext [wp]:
  "dext d n i s0 s \<Longrightarrow> returns (parse_association s) (\<lambda>s. dext d n i s0 s)"
  unfolding parse_association_def
  by (erule wp_from_here)
    ((erule d_progress | rule wp | assumption | rule ext_intro | erule dext_Suc | simp (no_asm))+)

lemma parse_profile_dext [wp]:
  "dext d n i s0 s \<Longrightarrow> returns (parse_profile s) (\<lambda>s. dext d n i s0 s)"
  unfolding parse_profile_def
  by (erule wp_from_here)
    ((erule d_progress | rule wp | assumption | rule ext_intro | erule dext_Suc | simp (no_asm))+)


section \<open>Whole files\<close>

text \<open>A round of the top-level loop moves the cursor, and the loop ends only at the end of the file.\<close>

lemma parse_top_level_round:
  assumes e: "dext d n i s0 s"
  shows "returns (parse_top_level s) (\<lambda>r. case r of
      Inl s' \<Rightarrow> dext d n (Suc (c_index s)) s0 s'
    | Inr s' \<Rightarrow> dext d n (c_index s) s0 s' \<and> c_index s' = length (c_tokens s0))"
proof -
  have low: "dext d n (c_index s) s0 s" using e by (rule dext_lower) simp
  have at_end: "c_index x = length (c_tokens s0)" if "dext d n (c_index s) s0 x" "raw_kind x = None" for x
    using that dext_bound [OF that(1)] dext_tokens [OF that(1)] by (simp add: raw_kind_None_iff)
  have "returns (d_consume_trivia s) (\<lambda>s'. dext d n (c_index s) s0 s')" using low by (rule wp)
  then obtain x where x: "d_consume_trivia s = Some x" and ex: "dext d n (c_index s) s0 x"
    by (rule returnsE)
  have lowx: "dext d n (c_index x) s0 x" using ex by (rule dext_lower) simp
  note ge = dext_index [OF ex]
  consider (eof) "raw_kind s = None" | (eof') "raw_kind s \<noteq> None" "raw_kind x = None"
    | (semi) "raw_kind s \<noteq> None" "raw_kind x \<noteq> None" "raw_at SEMICOLON x"
    | (decl) "raw_kind s \<noteq> None" "raw_kind x \<noteq> None" "\<not> raw_at SEMICOLON x" by blast
  then show ?thesis
  proof cases
    case eof
    then show ?thesis using low at_end [OF low eof] by (simp add: parse_top_level_def)
  next
    case eof'
    then show ?thesis using ex at_end [OF ex eof'(2)] x by (auto simp: parse_top_level_def)
  next
    case semi
    have "fst (d_bump x)" using semi by (simp add: d_bump_sel raw_kind_None_iff)
    with semi x bump_past [OF semi(2) ex] show ?thesis
      by (auto simp: parse_top_level_def case_prod_beta Let_def)
  next
    case decl
    let ?m = "if declaration_kind x = Some Class then parse_class x
      else if declaration_kind x = Some Association then parse_association x
      else if declaration_kind x = Some Profile then parse_profile x
      else if at_ignored_top_level x then parse_ignored_top_level x
      else parse_opaque_top_level x"
    let ?msg = "''parser made no progress while reading a Domain declaration''"
    have "returns ?m (\<lambda>s'. dext d n (c_index x) s0 s')"
      using lowx by - ((rule wp | assumption)+)
    then obtain y where y: "?m = Some y" and ey: "dext d n (c_index x) s0 y" by (rule returnsE)
    have lt: "c_index x < length (c_tokens s0)"
      using decl(2) dext_tokens [OF ex] by (simp add: raw_kind_None_iff)
    let ?z = "d_open (Nod ERROR_NODE) (error_current ?msg y)"
    have skip: "dext d n (Suc (c_index s)) s0 (d_close (snd (d_bump ?z)))"
      using skip_one_past [OF lt ey ge] by (simp add: skip_one_def Let_def case_prod_beta)
    have moved: "dext d n (Suc (c_index s)) s0 y" if "c_index y \<noteq> c_index x"
      using dt.ext_progress [OF ey that] ge by (elim dext_weaken) simp
    have bumped: "fst (d_bump ?z)" if "c_index y = c_index x"
      using that lt dext_tokens [OF ey] by (simp add: d_bump_sel d_open_def error_current_def)
    show ?thesis
      using decl x y skip moved bumped
      by (cases "c_index y = c_index x") (auto simp: parse_top_level_def case_prod_beta Let_def)
  qed
qed

lemma top_level_loop:
  assumes "dext d n i s0 s" and "length (c_tokens s0) - c_index s \<le> k"
  shows "returns (for_budget k parse_top_level id s)
    (\<lambda>s. dext d n i s0 s \<and> c_index s = length (c_tokens s0))"
  using assms
proof (induction k arbitrary: s)
  case 0
  then show ?case using dext_bound [OF 0(1)] dext_tokens [OF 0(1)] by simp
next
  case (Suc k)
  from parse_top_level_round [OF Suc.prems(1)] obtain r where r: "parse_top_level s = Some r"
    and post: "case r of Inl s' \<Rightarrow> dext d n (Suc (c_index s)) s0 s'
      | Inr s' \<Rightarrow> dext d n (c_index s) s0 s' \<and> c_index s' = length (c_tokens s0)"
    by (rule returnsE)
  note i = dext_index [OF Suc.prems(1)]
  show ?case
  proof (cases r)
    case (Inl s')
    with post have e: "dext d n (Suc (c_index s)) s0 s'" by simp
    then have "dext d n i s0 s'" using i by (elim dext_weaken) simp
    moreover have "length (c_tokens s0) - c_index s' \<le> k"
      using dext_index [OF e] Suc.prems(2) by simp
    ultimately show ?thesis using Suc.IH r Inl by simp
  next
    case (Inr s')
    with post r show ?thesis using i by (auto elim: dext_weaken)
  qed
qed

end
