(* ===== verification/DomainProperties.thy ===== *)
theory DomainProperties
  imports DomainLossless
begin

text \<open>
  What the Domain parser guarantees on every input: it returns, loses no byte of the source,
  reports its diagnostics in order and its coverage gaps inside the source.
\<close>

section \<open>The parser\<close>

lemma d_parse_returns:
  obtains events ds gaps where "d_parse (d_new source file ts) = Some (events, ds, gaps)"
    "one_root (length ts) events" "diag_trace ts file 0 (length ts) ds"
    "tiles source 0 (token_spans ts) \<longrightarrow> list_all (gap_in source) gaps"
    "sorted (map (\<lambda>g. (range_start (gap_span g), range_end (gap_span g))) gaps)"
proof -
  let ?s0 = "d_open (Nod ROOT) (d_new source file ts)"
  let ?s1 = "d_open (Nod DOMAIN_FILE) ?s0"
  have init: "c_tokens ?s0 = ts" "c_file ?s0 = file" "c_index ?s0 = 0" "c_depth ?s0 = 0"
    "c_diagnostics ?s0 = []" "d_events ?s0 = [Open (Nod ROOT)]" "gaps_ok ?s0" "d_source ?s0 = source"
    by (simp_all add: d_open_def d_new_def gaps_ok_def)
  have "dext 0 (Suc 0) 0 ?s0 ?s1"
    using dext_refl [of ?s0] init by (intro dext_open) simp_all
  moreover have "c_index ?s1 = 0" "c_tokens ?s1 = ts" by (simp_all add: d_open_def d_new_def)
  ultimately obtain s where run: "for_budget (length ts) parse_top_level id ?s1 = Some s"
    and e: "dext 0 (Suc 0) 0 ?s0 s" and eof: "c_index s = length ts"
    using top_level_loop [of 0 "Suc 0" 0 ?s0 ?s1 "length ts"] init(1) by (auto elim!: returnsE)
  have e': "dext 0 0 0 ?s0 (d_close s)" using e by (rule dext_close)
  have ix: "c_index (d_close s) = length ts" using eof by (simp add: d_close_def)
  from e' init obtain es ds where
    s: "d_events (d_close s) = Open (Nod ROOT) # es" "c_diagnostics (d_close s) = ds"
      "trace ts file 0 0 (length ts) es ds" "gaps_ok (d_close s)" "c_tokens (d_close s) = ts"
      "d_source (d_close s) = source"
    unfolding dext_def ix by auto
  let ?key = "\<lambda>g. (range_start (gap_span g), range_end (gap_span g))"
  let ?gaps = "sort_key ?key (d_gaps s)"
  have close: "d_events (d_close (d_close s)) = d_events (d_close s) @ [Close]"
    "c_diagnostics (d_close (d_close s)) = c_diagnostics (d_close s)"
    "d_gaps (d_close (d_close s)) = d_gaps s" "d_gaps (d_close s) = d_gaps s"
    by (simp_all add: d_close_def)
  have "d_parse (d_new source file ts) = Some (Open (Nod ROOT) # es @ [Close], ds, ?gaps)"
    using run s(1,2) close \<open>c_tokens ?s1 = ts\<close> by (simp add: d_parse_def Let_def)
  moreover have "one_root (length ts) (Open (Nod ROOT) # es @ [Close])"
    using s(3) by (intro one_root_wrap) (auto simp: trace_def)
  moreover have "diag_trace ts file 0 (length ts) ds" using s(3) unfolding trace_def by blast
  moreover have "tiles source 0 (token_spans ts) \<longrightarrow> list_all (gap_in source) ?gaps"
    using s(4-6) close(4) by (simp add: gaps_ok_def list_all_iff)
  moreover have "sorted (map ?key ?gaps)" by (rule sorted_sort_key)
  ultimately show thesis by (rule that)
qed

lemma parse_domain_run:
  obtains events ds gaps where "one_root (length (lex logos source)) events"
    "diag_trace (lex logos source) file 0 (length (lex logos source)) ds"
    "tiles source 0 (token_spans (lex logos source)) \<longrightarrow> list_all (gap_in source) gaps"
    "sorted (map (\<lambda>g. (range_start (gap_span g), range_end (gap_span g))) gaps)"
    "parse_domain logos owner source file =
       Some (case builder_finish
               (fold builder_push events (builder_new owner source (lex logos source))) of
             Inl e \<Rightarrow> Inl e
           | Inr green \<Rightarrow> Inr \<lparr>dp_green = green, dp_diagnostics = ds, dp_coverage_gaps = gaps\<rparr>)"
proof -
  obtain events ds gaps where
    "d_parse (d_new source file (lex logos source)) = Some (events, ds, gaps)"
    "one_root (length (lex logos source)) events"
    "diag_trace (lex logos source) file 0 (length (lex logos source)) ds"
    "tiles source 0 (token_spans (lex logos source)) \<longrightarrow> list_all (gap_in source) gaps"
    "sorted (map (\<lambda>g. (range_start (gap_span g), range_end (gap_span g))) gaps)"
    by (rule d_parse_returns)
  then show thesis by (intro that [of events ds gaps]) (simp_all add: parse_domain_def Let_def)
qed

lemma parse_domain_tree:
  assumes "logos_covers logos source" and "length source \<le> u32_max"
  obtains p where "parse_domain logos owner source file = Some (Inr p)"
    "node_text (dp_green p) = source"
    "map (\<lambda>t. (tok_kind t, tok_range t)) (node_tokens (dp_green p)) =
      map (\<lambda>(k, r). (Tok k, r)) (lex logos source)"
    "green_kind (dp_green p) = Nod ROOT" "node_ranges_ordered (dp_green p)"
proof -
  obtain events ds gaps where one: "one_root (length (lex logos source)) events"
    and run: "parse_domain logos owner source file =
       Some (case builder_finish
               (fold builder_push events (builder_new owner source (lex logos source))) of
             Inl e \<Rightarrow> Inl e
           | Inr green \<Rightarrow> Inr \<lparr>dp_green = green, dp_diagnostics = ds, dp_coverage_gaps = gaps\<rparr>)"
    by (rule parse_domain_run)
  obtain root where "builder_finish
        (fold builder_push events (builder_new owner source (lex logos source))) = Inr root"
    "node_text root = source"
    "map (\<lambda>t. (tok_kind t, tok_range t)) (node_tokens root) =
       map (\<lambda>(k, r). (Tok k, r)) (lex logos source)"
    "green_kind root = Nod ROOT" "node_ranges_ordered root"
    using finish_of_events [OF assms(2) lex_tiles [OF assms] one] by blast
  with run show thesis
    by (intro that [of "\<lparr>dp_green = root, dp_diagnostics = ds, dp_coverage_gaps = gaps\<rparr>"]) simp_all
qed


section \<open>Properties of the Domain parser\<close>

text \<open>C4: Parsing a Domain file is total and lossless: on every source up to 4 GiB that the lexer
  covers, well formed or not, \<^verbatim>\<open>parse_domain\<close> returns a tree, no loop or recursion stalls, the text
  of the tree is the source, and its leaves are the lexer's tokens in order.\<close>

theorem parse_domain_lossless:
  assumes "logos_covers logos source" and "length source \<le> u32_max"
  shows "\<exists>p. parse_domain logos owner source file = Some (Inr p) \<and>
    node_text (dp_green p) = source \<and>
    map (\<lambda>t. (tok_kind t, tok_range t)) (node_tokens (dp_green p)) =
      map (\<lambda>(k, r). (Tok k, r)) (lex logos source) \<and>
    green_kind (dp_green p) = Nod ROOT \<and> node_ranges_ordered (dp_green p)"
  by (rule parse_domain_tree [OF assms]) blast

text \<open>C39: The reports of a Domain parse: the diagnostics come in source order inside the parsed
  file, with exactly one \<open>BadToken\<close> for each unlexable token; the coverage gaps are sorted, and
  each is a well-formed range inside the source, although it is put together from the start of
  one token and the end of another.\<close>

theorem parse_domain_reports:
  assumes "logos_covers logos source" and "length source \<le> u32_max"
    and "parse_domain logos owner source file = Some (Inr p)"
  shows "sorted (map (\<lambda>d. range_start (label_span (diag_primary d))) (dp_diagnostics p)) \<and>
    list_all (\<lambda>d. label_file (diag_primary d) = file \<and> diag_severity d = Error \<and>
       range_end (label_span (diag_primary d)) \<le> length source) (dp_diagnostics p) \<and>
    map (\<lambda>d. label_span (diag_primary d))
      (filter (\<lambda>d. diag_code d = BadToken) (dp_diagnostics p)) =
      map snd (filter (\<lambda>t. fst t = ERROR) (lex logos source)) \<and>
    sorted (map (\<lambda>g. (range_start (gap_span g), range_end (gap_span g))) (dp_coverage_gaps p)) \<and>
    list_all (\<lambda>g. range_start (gap_span g) \<le> range_end (gap_span g) \<and>
      range_end (gap_span g) \<le> length source) (dp_coverage_gaps p)"
proof -
  obtain events ds gaps
    where tr: "diag_trace (lex logos source) file 0 (length (lex logos source)) ds"
    and gaps: "tiles source 0 (token_spans (lex logos source)) \<longrightarrow> list_all (gap_in source) gaps"
      "sorted (map (\<lambda>g. (range_start (gap_span g), range_end (gap_span g))) gaps)"
    and run: "parse_domain logos owner source file =
       Some (case builder_finish
               (fold builder_push events (builder_new owner source (lex logos source))) of
             Inl e \<Rightarrow> Inl e
           | Inr green \<Rightarrow> Inr \<lparr>dp_green = green, dp_diagnostics = ds, dp_coverage_gaps = gaps\<rparr>)"
    by (rule parse_domain_run)
  from run assms(3) have p: "dp_diagnostics p = ds" "dp_coverage_gaps p = gaps"
    by (auto split: sum.splits)
  with diag_trace_ordered [OF lex_tiles [OF assms(1,2)] tr] diag_trace_bad_tokens [OF tr]
    gaps(1) [rule_format, OF lex_tiles [OF assms(1,2)]] gaps(2)
  show ?thesis by (simp add: list_all_iff gap_in_def)
qed

text \<open>Junk between type arguments is reported but not marked: after the error
  \<^verbatim>\<open>expected `,` or `>` after a type argument\<close> the recovery leaves the declaration valid, so
  \<^verbatim>\<open>Class A{p:B<C D>[1];}\<close> has a syntax error and no coverage gap, where junk between parameters or
  stereotypes gives a \<open>MalformedDeclaration\<close>.\<close>

theorem type_argument_junk_has_no_gap:
  "map_option (\<lambda>(_, ds, gaps). (map diag_message ds, gaps))
     (d_parse (d_new ''Class A{p:B<C D>[1];}'' (FileId 0)
       [(IDENT, text_range 0 5), (WHITESPACE, text_range 5 6), (IDENT, text_range 6 7),
        (BRACE_OPEN, text_range 7 8), (IDENT, text_range 8 9), (COLON, text_range 9 10),
        (IDENT, text_range 10 11), (LT, text_range 11 12), (IDENT, text_range 12 13),
        (WHITESPACE, text_range 13 14), (IDENT, text_range 14 15), (GT, text_range 15 16),
        (BRACKET_OPEN, text_range 16 17), (INTEGER, text_range 17 18),
        (BRACKET_CLOSE, text_range 18 19), (SEMICOLON, text_range 19 20),
        (BRACE_CLOSE, text_range 20 21)])) =
   Some ([''expected `,` or `>` after a type argument''], [])"
  by code_simp


section \<open>Witnesses\<close>

text \<open>A lexer result for the source \<^verbatim>\<open>x#;\<close> whose second byte is not a token.\<close>

definition domain_sample_logos :: logos where
  "domain_sample_logos text = [(Some IDENT, 0, 1), (None, 1, 2), (Some SEMICOLON, 2, 3)]"

lemma domain_sample_covers:
  "logos_covers domain_sample_logos ''x#;''" "length ''x#;'' \<le> u32_max"
  by (simp_all add: logos_covers_def domain_sample_logos_def is_char_boundary_def
      is_continuation_byte_def u32_max_def)

theorem parse_domain_lossless_witness:
  "\<exists>p. parse_domain domain_sample_logos 0 ''x#;'' (FileId 0) = Some (Inr p) \<and>
     node_text (dp_green p) = ''x#;''"
  using parse_domain_lossless [OF domain_sample_covers, of 0 "FileId 0"] by blast

theorem parse_domain_reports_witness:
  "\<exists>p. parse_domain domain_sample_logos 0 ''x#;'' (FileId 0) = Some (Inr p) \<and>
     map (\<lambda>d. label_span (diag_primary d))
      (filter (\<lambda>d. diag_code d = BadToken) (dp_diagnostics p)) = [text_range 1 2]"
proof -
  obtain p where p: "parse_domain domain_sample_logos 0 ''x#;'' (FileId 0) = Some (Inr p)"
    by (rule parse_domain_tree [OF domain_sample_covers])
  have "map snd (filter (\<lambda>t. fst t = ERROR) (lex domain_sample_logos ''x#;'')) = [text_range 1 2]"
    by (simp add: lex_def domain_sample_logos_def saturate_u32_def u32_max_def)
  with parse_domain_reports [OF domain_sample_covers p] p show ?thesis by simp
qed

end
