(* ===== verification/OrderedMap.thy ===== *)
theory OrderedMap
  imports Prelude
begin

text \<open>
  Ordered maps (\<^verbatim>\<open>std::collections::BTreeMap\<close>) as association lists with strictly increasing
  keys: iteration order is list order. The locale \<open>ordered_map\<close> is the contract the clients use;
  its interpretation discharges it for the lists. Also Rust's \<^verbatim>\<open>for\<close> loop with the \<^verbatim>\<open>?\<close> operator.
\<close>

section \<open>The contract\<close>

locale ordered_map =
  fixes empty :: 'm and insert :: "'k \<Rightarrow> 'v \<Rightarrow> 'm \<Rightarrow> 'm" and get :: "'m \<Rightarrow> 'k \<Rightarrow> 'v option"
    and ok :: "'m \<Rightarrow> bool"
  assumes empty_ok: "ok empty" and insert_ok: "ok m \<Longrightarrow> ok (insert k v m)"
    and get_empty: "get empty k = None"
    and get_insert: "ok m \<Longrightarrow> get (insert k v m) k' = (if k' = k then Some v else get m k')"
    and ext_eq: "ok m \<Longrightarrow> ok m' \<Longrightarrow> (\<And>k. get m k = get m' k) \<Longrightarrow> m = m'"
begin

lemma fold_insert_ok: "ok m \<Longrightarrow> ok (fold (\<lambda>x m. insert (key x) (val x m) m) xs m)"
  by (induction xs arbitrary: m) (simp_all add: insert_ok)

lemma get_fold_insert:
  "ok m \<Longrightarrow> distinct (map key xs) \<Longrightarrow>
     get (fold (\<lambda>x m. insert (key x) (val x) m) xs m) k =
       (case find (\<lambda>x. key x = k) xs of Some x \<Rightarrow> Some (val x) | None \<Rightarrow> get m k)"
proof (induction xs arbitrary: m)
  case (Cons x xs)
  have "find (\<lambda>x. key x = k) xs = None" if "key x = k"
    using Cons.prems(2) that by (auto simp: find_None_iff) (metis image_eqI)
  with Cons show ?case by (auto simp: insert_ok get_insert split: option.split)
qed simp

end


section \<open>Association lists with increasing keys\<close>

type_synonym ('k, 'v) btree_map = "('k \<times> 'v) list"

fun bt_insert :: "'k::linorder \<Rightarrow> 'v \<Rightarrow> ('k, 'v) btree_map \<Rightarrow> ('k, 'v) btree_map" where
  "bt_insert k v [] = [(k, v)]"
| "bt_insert k v ((k', v') # m) =
     (if k < k' then (k, v) # (k', v') # m
      else if k = k' then (k, v) # m
      else (k', v') # bt_insert k v m)"

definition bt_get :: "('k, 'v) btree_map \<Rightarrow> 'k \<Rightarrow> 'v option" where
  "bt_get m k = map_of m k"

definition bt_remove :: "'k \<Rightarrow> ('k, 'v) btree_map \<Rightarrow> ('k, 'v) btree_map" where
  "bt_remove k m = filter (\<lambda>(k', _). k' \<noteq> k) m"

definition bt_contains :: "('k, 'v) btree_map \<Rightarrow> 'k \<Rightarrow> bool" where
  "bt_contains m k \<longleftrightarrow> bt_get m k \<noteq> None"

text \<open>\<^verbatim>\<open>map.entry(k).or_default().push(x)\<close>\<close>

definition bt_push :: "'k::linorder \<Rightarrow> 'v \<Rightarrow> ('k, 'v list) btree_map \<Rightarrow> ('k, 'v list) btree_map" where
  "bt_push k x m = bt_insert k ((case bt_get m k of Some xs \<Rightarrow> xs | None \<Rightarrow> []) @ [x]) m"

definition bt_ok :: "('k::linorder, 'v) btree_map \<Rightarrow> bool" where
  "bt_ok m \<longleftrightarrow> sorted_wrt (<) (map fst m)"

lemma bt_ok_Cons: "bt_ok ((k, v) # m) \<longleftrightarrow> (\<forall>(k', v')\<in>set m. k < k') \<and> bt_ok m"
  by (auto simp: bt_ok_def)

lemma bt_insert_keys: "fst ` set (bt_insert k v m) = insert k (fst ` set m)"
  by (induction k v m rule: bt_insert.induct) auto

lemma bt_insert_ok: "bt_ok m \<Longrightarrow> bt_ok (bt_insert k v m)"
proof (induction k v m rule: bt_insert.induct)
  case (2 k v k' v' m)
  have "k' < x" if "x \<in> fst ` set (bt_insert k v m)" "\<not> k < k'" "k \<noteq> k'" for x
    using that 2(2) by (auto simp: bt_insert_keys bt_ok_Cons)
  with 2 show ?case by (force simp: bt_ok_Cons)
qed (simp add: bt_ok_def)

lemma bt_get_insert: "bt_ok m \<Longrightarrow> bt_get (bt_insert k v m) k' = (if k' = k then Some v else bt_get m k')"
proof (induction k v m rule: bt_insert.induct)
  case (2 k v k1 v1 m)
  have "k \<notin> fst ` set m" if "k = k1" using that 2(2) by (force simp: bt_ok_Cons)
  with 2 show ?case by (auto simp: bt_get_def bt_ok_Cons)
qed (simp add: bt_get_def)

lemma bt_ok_distinct: "bt_ok m \<Longrightarrow> distinct (map fst m)"
  by (simp add: bt_ok_def strict_sorted_iff)

lemma bt_ext:
  assumes "bt_ok m" "bt_ok m'" "\<And>k. bt_get m k = bt_get m' k"
  shows "m = m'"
proof -
  have eq: "map_of m = map_of m'" using assms(3) by (auto simp: bt_get_def)
  then have "set (map fst m) = set (map fst m')" by (metis dom_map_of_conv_image_fst list.set_map)
  then have "map fst m = map fst m'"
    using assms(1,2) by (auto simp: bt_ok_def strict_sorted_iff intro: sorted_distinct_set_unique)
  moreover have "map snd m = map snd m'"
  proof (rule nth_equalityI)
    show len: "length (map snd m) = length (map snd m')"
      using calculation by (metis length_map)
    fix i assume "i < length (map snd m)"
    then have i: "i < length m" "i < length m'" using len by simp_all
    then have "fst (m ! i) = fst (m' ! i)" using calculation by (metis nth_map)
    with eq i bt_ok_distinct [OF assms(1)] bt_ok_distinct [OF assms(2)] show "map snd m ! i = map snd m' ! i"
      by (metis map_of_eq_Some_iff nth_map nth_mem option.inject prod.collapse)
  qed
  ultimately show ?thesis by (simp add: pair_list_eqI)
qed

lemma bt_remove_ok: "bt_ok m \<Longrightarrow> bt_ok (bt_remove k m)"
  by (induction m) (auto simp: bt_ok_def bt_remove_def)

lemma bt_get_remove: "bt_get (bt_remove k m) k' = (if k' = k then None else bt_get m k')"
  by (induction m) (auto simp: bt_get_def bt_remove_def)

interpretation bt: ordered_map "[]" bt_insert bt_get bt_ok
  by unfold_locales (auto simp: bt_insert_ok bt_get_insert bt_ext, simp_all add: bt_ok_def bt_get_def)

lemma bt_push_ok: "bt_ok m \<Longrightarrow> bt_ok (bt_push k x m)"
  by (simp add: bt_push_def bt_insert_ok)

lemma bt_get_push:
  "bt_ok m \<Longrightarrow> bt_get (bt_push k x m) k' =
     (if k' = k then Some ((case bt_get m k of Some xs \<Rightarrow> xs | None \<Rightarrow> []) @ [x]) else bt_get m k')"
  by (simp add: bt_push_def bt_get_insert)

lemma bt_insert_fresh:
  "bt_ok m \<Longrightarrow> (\<forall>g\<in>set fs. bt_get (bt_insert (key f) v m) (key g) = None) \<longleftrightarrow>
     key f \<notin> key ` set fs \<and> (\<forall>g\<in>set fs. bt_get m (key g) = None)"
  by (simp add: bt_get_insert image_iff) metis

text \<open>Pushing every element under its key groups a list by key, in order.\<close>

definition bt_group :: "('x \<Rightarrow> 'k::linorder) \<Rightarrow> 'x list \<Rightarrow> ('k, 'x list) btree_map" where
  "bt_group key xs = fold (\<lambda>x. bt_push (key x) x) xs []"

lemma bt_group_snoc: "bt_group key (xs @ [x]) = bt_push (key x) x (bt_group key xs)"
  by (simp add: bt_group_def)

lemma bt_group_ok: "bt_ok (bt_group key xs)"
  by (induction xs rule: rev_induct) (simp_all add: bt_group_snoc bt_push_ok, simp add: bt_group_def bt_ok_def)

lemma bt_get_group:
  "bt_get (bt_group key xs) k =
     (let ys = filter (\<lambda>x. key x = k) xs in if ys = [] then None else Some ys)"
proof (induction xs rule: rev_induct)
  case Nil
  then show ?case by (simp add: bt_group_def bt_get_def)
next
  case (snoc x xs)
  then show ?case by (auto simp: bt_group_snoc bt_get_push bt_group_ok Let_def)
qed

lemma bt_get_in_set: "bt_ok m \<Longrightarrow> (k, v) \<in> set m \<longleftrightarrow> bt_get m k = Some v"
  by (simp add: bt_get_def bt_ok_distinct)


section \<open>Loops that stop at the first error\<close>

fun fold_result :: "('x \<Rightarrow> 's \<Rightarrow> 'e + 's) \<Rightarrow> 'x list \<Rightarrow> 's \<Rightarrow> 'e + 's" where
  "fold_result f [] s = Inr s"
| "fold_result f (x # xs) s = (case f x s of Inl e \<Rightarrow> Inl e | Inr s' \<Rightarrow> fold_result f xs s')"

lemma fold_result_append:
  "fold_result f (xs @ ys) s =
     (case fold_result f xs s of Inl e \<Rightarrow> Inl e | Inr s' \<Rightarrow> fold_result f ys s')"
  by (induction xs arbitrary: s) (auto split: sum.split)

lemma fold_result_nested:
  "fold_result (\<lambda>x. fold_result (g x) (h x)) xs s =
     fold_result (\<lambda>(x, y). g x y) (concat (map (\<lambda>x. map (Pair x) (h x)) xs)) s"
proof (induction xs arbitrary: s)
  case (Cons x xs)
  have "fold_result (\<lambda>(x, y). g x y) (map (Pair x) ys) s = fold_result (g x) ys s" for ys s
    by (induction ys arbitrary: s) (auto split: sum.split)
  with Cons show ?case by (auto simp: fold_result_append split: sum.split)
qed simp

end
