(* ===== verification/FixPlan.thy ===== *)
theory FixPlan
  imports OrderedMap Diagnostics "HOL-Library.Multiset"
begin

text \<open>
  Fix plans (\<^verbatim>\<open>crates/pure-analyzer-diagnostics/src/fix_plan.rs\<close>): selection and validation of
  machine-applicable fixes, and their all-or-nothing application to source snapshots. A result
  \<open>None\<close> of an application is a panic of \<^verbatim>\<open>String::replace_range\<close>; it is shown not to happen.
\<close>

section \<open>Plans and errors\<close>

record planned_file =
  pf_file :: file_id
  pf_source :: string

record planned_change =
  pc_file :: file_id
  pc_before :: string
  pc_after :: string

record fix_plan =
  fp_files :: "(file_id, planned_file) btree_map"
  fp_edits :: "(file_id, text_edit list) btree_map"

datatype FixPlanError =
    DuplicateFile file_id
  | EmptyFix string
  | ApplicabilityPolicy string FixProvenance
  | UnknownFile string file_id
  | UnorderedEdits string file_id
  | OutOfBounds string file_id text_range
  | InvalidUtf8Boundary string file_id text_range
  | Conflict file_id string string
  | StaleSource file_id
  | UnexpectedSource file_id

record candidate =
  cand_title :: string
  cand_edits :: "text_edit list"

record accepted_edit =
  acc_title :: string
  acc_edit :: text_edit

abbreviation edit_start :: "text_edit \<Rightarrow> nat" where
  "edit_start e \<equiv> range_start (edit_span e)"

abbreviation edit_end :: "text_edit \<Rightarrow> nat" where
  "edit_end e \<equiv> range_end (edit_span e)"


section \<open>Validation and selection\<close>

text \<open>The first loop of \<^verbatim>\<open>validate_fix\<close>, one edit at a time, grouping the edits by file.\<close>

definition validate_edit ::
    "string \<Rightarrow> (file_id, planned_file) btree_map \<Rightarrow> text_edit \<Rightarrow>
       (file_id, text_edit list) btree_map \<Rightarrow> FixPlanError + (file_id, text_edit list) btree_map" where
  "validate_edit title files edit by_file =
     (let file = edit_file edit
      in case bt_get files file of
           None \<Rightarrow> Inl (UnknownFile title file)
         | Some snapshot \<Rightarrow>
             (let source = pf_source snapshot;
                  start = edit_start edit;
                  end = edit_end edit
              in if length source < start \<or> length source < end
                   then Inl (OutOfBounds title file (edit_span edit))
                 else if \<not> is_char_boundary source start \<or> \<not> is_char_boundary source end
                   then Inl (InvalidUtf8Boundary title file (edit_span edit))
                 else Inr (bt_push file edit by_file)))"

text \<open>The second loop checks the edits of one file against their predecessors.\<close>

definition validate_order ::
    "string \<Rightarrow> file_id \<Rightarrow> text_edit \<Rightarrow> text_edit option \<Rightarrow> FixPlanError + text_edit option" where
  "validate_order title file edit previous =
     (case previous of
        Some prior \<Rightarrow>
          if edit_start edit < edit_end prior \<or>
             (edit_span edit = edit_span prior \<and> range_is_empty (edit_span edit))
          then Inl (UnorderedEdits title file)
          else Inr (Some edit)
      | None \<Rightarrow> Inr (Some edit))"

definition validate_fix ::
    "string \<Rightarrow> (file_id, planned_file) btree_map \<Rightarrow> text_edit list \<Rightarrow> FixPlanError + unit" where
  "validate_fix title files edits =
     (case fold_result (validate_edit title files) edits [] of
        Inl e \<Rightarrow> Inl e
      | Inr by_file \<Rightarrow>
          fold_result (\<lambda>(file, file_edits) _.
            case fold_result (validate_order title file) file_edits None of
              Inl e \<Rightarrow> Inl e
            | Inr _ \<Rightarrow> Inr ())
            by_file ())"

definition edits_overlap :: "text_edit \<Rightarrow> text_edit \<Rightarrow> bool" where
  "edits_overlap left right \<longleftrightarrow>
     edit_start left < edit_end right \<and> edit_start right < edit_end left \<or>
     (edit_span left = edit_span right \<and> range_is_empty (edit_span left))"

text \<open>\<^verbatim>\<open>iter.min_by_key\<close>: the first element with the least key.\<close>

fun min_by_key :: "('x \<Rightarrow> 'k::linorder) \<Rightarrow> 'x list \<Rightarrow> 'x option" where
  "min_by_key key [] = None"
| "min_by_key key (x # xs) =
     (case min_by_key key xs of
        None \<Rightarrow> Some x
      | Some y \<Rightarrow> Some (if key x \<le> key y then x else y))"

definition first_key :: "candidate \<Rightarrow> (file_id \<times> nat \<times> nat \<times> string) option" where
  "first_key c =
     map_option (\<lambda>e. (edit_file e, edit_start e, edit_end e, cand_title c))
       (min_by_key (\<lambda>e. (edit_file e, edit_start e, edit_end e)) (cand_edits c))"

text \<open>The loops of \<^verbatim>\<open>FixPlan::build\<close>.\<close>

definition insert_file ::
    "planned_file \<Rightarrow> (file_id, planned_file) btree_map \<Rightarrow>
       FixPlanError + (file_id, planned_file) btree_map" where
  "insert_file file files_by_id =
     (if bt_get files_by_id (pf_file file) \<noteq> None then Inl (DuplicateFile (pf_file file))
      else Inr (bt_insert (pf_file file) file files_by_id))"

definition add_candidate ::
    "(file_id, planned_file) btree_map \<Rightarrow> diagnostic \<Rightarrow> candidate list \<Rightarrow>
       FixPlanError + candidate list" where
  "add_candidate files_by_id diagnostic candidates =
     (case diag_fix diagnostic of
        None \<Rightarrow> Inr candidates
      | Some fix \<Rightarrow>
          if applicability fix \<noteq> MachineApplicable then Inr candidates
          else if \<not> permits_machine_application (provenance fix)
            then Inl (ApplicabilityPolicy (fix_title fix) (provenance fix))
          else if fix_edits fix = [] then Inl (EmptyFix (fix_title fix))
          else case validate_fix (fix_title fix) files_by_id (fix_edits fix) of
                 Inl e \<Rightarrow> Inl e
               | Inr _ \<Rightarrow>
                   Inr (candidates @
                     [\<lparr>cand_title = fix_title fix, cand_edits = fix_edits fix\<rparr>]))"

type_synonym accept_state =
  "(file_id, text_edit list) btree_map \<times> (file_id, accepted_edit list) btree_map"

definition accept_edit ::
    "candidate \<Rightarrow> text_edit \<Rightarrow> accept_state \<Rightarrow> FixPlanError + accept_state" where
  "accept_edit candidate edit st =
     (let (edits, accepted) = st;
          accepted_in_file = (case bt_get accepted (edit_file edit) of Some xs \<Rightarrow> xs | None \<Rightarrow> [])
      in case find (\<lambda>prior. edits_overlap (acc_edit prior) edit) accepted_in_file of
           Some prior \<Rightarrow> Inl (Conflict (edit_file edit) (acc_title prior) (cand_title candidate))
         | None \<Rightarrow>
             Inr (bt_push (edit_file edit) edit edits,
                  bt_push (edit_file edit)
                    \<lparr>acc_title = cand_title candidate, acc_edit = edit\<rparr> accepted))"

definition accept_candidates :: "candidate list \<Rightarrow> FixPlanError + accept_state" where
  "accept_candidates candidates =
     fold_result (\<lambda>c. fold_result (accept_edit c) (cand_edits c)) candidates ([], [])"

definition build :: "planned_file list \<Rightarrow> diagnostic list \<Rightarrow> FixPlanError + fix_plan" where
  "build files diagnostics =
     (case fold_result insert_file files [] of
        Inl e \<Rightarrow> Inl e
      | Inr files_by_id \<Rightarrow>
          case fold_result (add_candidate files_by_id) diagnostics [] of
            Inl e \<Rightarrow> Inl e
          | Inr candidates \<Rightarrow>
              case accept_candidates (sort_key first_key candidates) of
                Inl e \<Rightarrow> Inl e
              | Inr (edits, _) \<Rightarrow>
                  Inr \<lparr>fp_files = files_by_id,
                       fp_edits = map (\<lambda>(file, file_edits).
                         (file, sort_key (\<lambda>e. (edit_start e, edit_end e)) file_edits)) edits\<rparr>)"

definition plan_is_empty :: "fix_plan \<Rightarrow> bool" where
  "plan_is_empty plan \<longleftrightarrow> fp_edits plan = []"


section \<open>Application\<close>

text \<open>\<^verbatim>\<open>String::replace_range\<close> panics unless the range is ordered and on character boundaries.\<close>

definition replace_range :: "nat \<Rightarrow> nat \<Rightarrow> string \<Rightarrow> string \<Rightarrow> string option" where
  "replace_range start end with s =
     (if start \<le> end \<and> is_char_boundary s start \<and> is_char_boundary s end
      then Some (take start s @ with @ drop end s) else None)"

definition apply_edits :: "text_edit list \<Rightarrow> string \<Rightarrow> string option" where
  "apply_edits edits source =
     foldr (\<lambda>edit after. Option.bind after
       (replace_range (edit_start edit) (edit_end edit) (new_text edit))) edits (Some source)"

definition validate_sources ::
    "fix_plan \<Rightarrow> (file_id, string) btree_map \<Rightarrow> FixPlanError + unit" where
  "validate_sources plan sources =
     (case find (\<lambda>file. \<not> bt_contains (fp_files plan) file) (map fst sources) of
        Some file \<Rightarrow> Inl (UnexpectedSource file)
      | None \<Rightarrow>
          fold_result (\<lambda>(file, snapshot) _.
            if bt_get sources file \<noteq> Some (pf_source snapshot) then Inl (StaleSource file)
            else Inr ()) (fp_files plan) ())"

definition change_of ::
    "fix_plan \<Rightarrow> file_id \<times> planned_file \<Rightarrow> planned_change option" where
  "change_of plan fs =
     (let (file, snapshot) = fs
      in map_option
           (\<lambda>after. \<lparr>pc_file = file, pc_before = pf_source snapshot, pc_after = after\<rparr>)
           (case bt_get (fp_edits plan) file of
              Some edits \<Rightarrow> apply_edits edits (pf_source snapshot)
            | None \<Rightarrow> Some (pf_source snapshot)))"

definition transformed_changes ::
    "fix_plan \<Rightarrow> (file_id, string) btree_map \<Rightarrow> (FixPlanError + planned_change list) option" where
  "transformed_changes plan sources =
     (case validate_sources plan sources of
        Inl e \<Rightarrow> Some (Inl e)
      | Inr _ \<Rightarrow> map_option Inr (those (map (change_of plan) (fp_files plan))))"

text \<open>\<^verbatim>\<open>collect\<close> into a \<^verbatim>\<open>BTreeMap\<close> inserts the pairs in turn.\<close>

definition apply_plan ::
    "fix_plan \<Rightarrow> (file_id, string) btree_map \<Rightarrow>
       (FixPlanError + (file_id, string) btree_map) option" where
  "apply_plan plan sources =
     map_option (map_sum id (\<lambda>changes. fold (\<lambda>c. bt_insert (pc_file c) (pc_after c)) changes []))
       (transformed_changes plan sources)"

definition preview ::
    "fix_plan \<Rightarrow> (file_id, string) btree_map \<Rightarrow> (FixPlanError + planned_change list) option" where
  "preview plan sources =
     map_option (map_sum id (filter (\<lambda>c. pc_before c \<noteq> pc_after c)))
       (transformed_changes plan sources)"

definition check ::
    "fix_plan \<Rightarrow> (file_id, string) btree_map \<Rightarrow> (FixPlanError + bool) option" where
  "check plan sources = map_option (map_sum id (\<lambda>changes. changes \<noteq> [])) (preview plan sources)"


section \<open>What the build selects\<close>

text \<open>The specification side: the fixes a plan is made of, and when two of their edits clash.\<close>

definition selected_fixes :: "diagnostic list \<Rightarrow> fix_rec list" where
  "selected_fixes ds =
     filter (\<lambda>f. applicability f = MachineApplicable) (List.map_filter diag_fix ds)"

definition selected_edits :: "diagnostic list \<Rightarrow> text_edit list" where
  "selected_edits ds = concat (map fix_edits (selected_fixes ds))"

definition fix_valid :: "(file_id, planned_file) btree_map \<Rightarrow> fix_rec \<Rightarrow> bool" where
  "fix_valid files f \<longleftrightarrow>
     permits_machine_application (provenance f) \<and> fix_edits f \<noteq> [] \<and>
     validate_fix (fix_title f) files (fix_edits f) = Inr ()"

definition compatible :: "text_edit list \<Rightarrow> bool" where
  "compatible es \<longleftrightarrow>
     sorted_wrt (\<lambda>a b. edit_file a = edit_file b \<longrightarrow> \<not> edits_overlap a b) es"

lemma insert_file_fold:
  "bt_ok m \<Longrightarrow> fold_result insert_file fs m = Inr m' \<longleftrightarrow>
     distinct (map pf_file fs) \<and> (\<forall>f\<in>set fs. bt_get m (pf_file f) = None) \<and>
     m' = fold (\<lambda>f. bt_insert (pf_file f) f) fs m"
proof (induction fs arbitrary: m)
  case Nil
  show ?case by auto
next
  case (Cons f fs)
  show ?case
  proof (cases "bt_get m (pf_file f)")
    case None
    then have "fold_result insert_file (f # fs) m = Inr m' \<longleftrightarrow>
        fold_result insert_file fs (bt_insert (pf_file f) f m) = Inr m'"
      by (simp add: insert_file_def [of f])
    also have "\<dots> \<longleftrightarrow> distinct (map pf_file (f # fs)) \<and>
        (\<forall>g\<in>set fs. bt_get m (pf_file g) = None) \<and>
        m' = fold (\<lambda>f. bt_insert (pf_file f) f) (f # fs) m"
      unfolding Cons.IH [OF bt_insert_ok [OF Cons.prems]]
        bt_insert_fresh [OF Cons.prems, of fs pf_file f f] by auto
    finally show ?thesis using None by simp
  next
    case (Some x)
    then show ?thesis by (simp add: insert_file_def [of f])
  qed
qed

lemma add_candidate_fold:
  "fold_result (add_candidate files) ds cs = Inr cs' \<longleftrightarrow>
     (\<forall>f\<in>set (selected_fixes ds). fix_valid files f) \<and>
     cs' = cs @ map (\<lambda>f. \<lparr>cand_title = fix_title f, cand_edits = fix_edits f\<rparr>) (selected_fixes ds)"
proof (induction ds arbitrary: cs)
  case (Cons d ds)
  then show ?case
    by (auto simp: add_candidate_def selected_fixes_def map_filter_simps fix_valid_def
        split: option.split sum.split)
qed (auto simp: selected_fixes_def map_filter_simps)

lemma accept_edit_step:
  "accept_edit c e (bt_group edit_file es, bt_group (\<lambda>a. edit_file (acc_edit a)) as) = Inr st \<longleftrightarrow>
     (\<forall>a\<in>set as. edit_file (acc_edit a) = edit_file e \<longrightarrow> \<not> edits_overlap (acc_edit a) e) \<and>
     st = (bt_group edit_file (es @ [e]),
       bt_group (\<lambda>a. edit_file (acc_edit a)) (as @ [\<lparr>acc_title = cand_title c, acc_edit = e\<rparr>]))"
proof -
  let ?xs = "filter (\<lambda>a. edit_file (acc_edit a) = edit_file e) as"
  have xs: "(case bt_get (bt_group (\<lambda>a. edit_file (acc_edit a)) as) (edit_file e) of
      Some xs \<Rightarrow> xs | None \<Rightarrow> []) = ?xs"
    by (simp add: bt_get_group Let_def)
  have none: "find (\<lambda>a. edits_overlap (acc_edit a) e) ?xs = None \<longleftrightarrow>
      (\<forall>a\<in>set as. edit_file (acc_edit a) = edit_file e \<longrightarrow> \<not> edits_overlap (acc_edit a) e)"
    by (auto simp: find_None_iff)
  show ?thesis
  proof (cases "find (\<lambda>a. edits_overlap (acc_edit a) e) ?xs")
    case None
    with none show ?thesis by (auto simp: accept_edit_def xs bt_group_snoc Let_def)
  next
    case (Some a)
    with none show ?thesis by (auto simp: accept_edit_def xs Let_def)
  qed
qed

lemma accept_list:
  "fold_result (\<lambda>(c, e). accept_edit c e) ces ([], []) = Inr st \<longleftrightarrow>
     compatible (map snd ces) \<and>
     st = (bt_group edit_file (map snd ces),
       bt_group (\<lambda>a. edit_file (acc_edit a))
         (map (\<lambda>(c, e). \<lparr>acc_title = cand_title c, acc_edit = e\<rparr>) ces))"
proof (induction ces arbitrary: st rule: rev_induct)
  case Nil
  then show ?case by (auto simp: compatible_def bt_group_def)
next
  case (snoc ce ces)
  obtain c e where ce: "ce = (c, e)" by (cases ce)
  let ?f = "\<lambda>(c, e). \<lparr>acc_title = cand_title c, acc_edit = e\<rparr>"
  let ?st = "(bt_group edit_file (map snd ces),
      bt_group (\<lambda>a. edit_file (acc_edit a)) (map ?f ces))"
  have split: "fold_result (\<lambda>(c, e). accept_edit c e) (ces @ [ce]) ([], []) = Inr st \<longleftrightarrow>
      compatible (map snd ces) \<and> accept_edit c e ?st = Inr st"
  proof (cases "fold_result (\<lambda>(c, e). accept_edit c e) ces ([], [])")
    case (Inl x)
    with snoc.IH [of ?st] show ?thesis by (auto simp: fold_result_append ce)
  next
    case (Inr st')
    with snoc.IH [of st'] show ?thesis by (auto simp: fold_result_append ce split: sum.splits)
  qed
  have "compatible (map snd (ces @ [ce])) \<longleftrightarrow> compatible (map snd ces) \<and>
      (\<forall>a\<in>set (map ?f ces). edit_file (acc_edit a) = edit_file e \<longrightarrow>
        \<not> edits_overlap (acc_edit a) e)"
    by (auto simp: compatible_def sorted_wrt_append ce)
  with split show ?case by (auto simp: accept_edit_step ce)
qed

lemma accept_candidates_iff:
  "accept_candidates cs = Inr (es, as) \<Longrightarrow>
     compatible (concat (map cand_edits cs)) \<and> es = bt_group edit_file (concat (map cand_edits cs))"
  "compatible (concat (map cand_edits cs)) \<Longrightarrow>
     \<exists>as. accept_candidates cs = Inr (bt_group edit_file (concat (map cand_edits cs)), as)"
proof -
  let ?ces = "concat (map (\<lambda>c. map (Pair c) (cand_edits c)) cs)"
  have "map snd ?ces = concat (map cand_edits cs)"
    by (simp add: map_concat o_def)
  moreover have "accept_candidates cs = fold_result (\<lambda>(c, e). accept_edit c e) ?ces ([], [])"
    by (simp add: accept_candidates_def fold_result_nested)
  ultimately show "accept_candidates cs = Inr (es, as) \<Longrightarrow>
      compatible (concat (map cand_edits cs)) \<and> es = bt_group edit_file (concat (map cand_edits cs))"
    and "compatible (concat (map cand_edits cs)) \<Longrightarrow>
      \<exists>as. accept_candidates cs = Inr (bt_group edit_file (concat (map cand_edits cs)), as)"
    using accept_list [of ?ces] by auto
qed

lemma edits_overlap_sym: "edits_overlap a b = edits_overlap b a"
  by (auto simp: edits_overlap_def)

lemma sorted_wrt_perm:
  assumes sym: "\<And>a b. R a b \<Longrightarrow> R b a" and "mset xs = mset ys" and "sorted_wrt R xs"
  shows "sorted_wrt R ys"
  using assms(2,3)
proof (induction xs arbitrary: ys)
  case (Cons x xs)
  then have "x \<in> set ys" by (metis list.set_intros(1) set_mset_mset)
  then obtain us vs where ys: "ys = us @ x # vs" by (meson split_list)
  with Cons.prems(1) have m: "mset xs = mset (us @ vs)" by simp
  with Cons have "sorted_wrt R (us @ vs)" by simp
  moreover have "\<forall>y\<in>set (us @ vs). R x y"
    using Cons.prems(2) mset_eq_setD [OF m] by simp
  ultimately show ?case using sym by (auto simp: ys sorted_wrt_append)
qed simp

lemma compatible_perm: "mset xs = mset ys \<Longrightarrow> compatible xs \<Longrightarrow> compatible ys"
  unfolding compatible_def by (rule sorted_wrt_perm) (auto simp: edits_overlap_sym)

text \<open>The file map, and the edits of one file, as a successful build leaves them.\<close>

definition file_map :: "planned_file list \<Rightarrow> (file_id, planned_file) btree_map" where
  "file_map files = fold (\<lambda>f. bt_insert (pf_file f) f) files []"

definition edit_key :: "text_edit \<Rightarrow> nat \<times> nat" where
  "edit_key e = (edit_start e, edit_end e)"

definition file_edits :: "text_edit list \<Rightarrow> file_id \<Rightarrow> text_edit list" where
  "file_edits es file = sort_key edit_key (filter (\<lambda>e. edit_file e = file) es)"

lemma file_map_ok: "bt_ok (file_map files)"
  unfolding file_map_def by (rule bt.fold_insert_ok) (rule bt.empty_ok)

lemma bt_map_values:
  "bt_ok (map (\<lambda>(k, v). (k, f v)) m) = bt_ok m"
  "bt_get (map (\<lambda>(k, v). (k, f v)) m) k = map_option f (bt_get m k)"
  by (simp add: bt_ok_def case_prod_unfold o_def) (simp add: bt_get_def map_of_map)

lemma sorted_candidate_edits:
  fixes cs :: "fix_rec list"
  defines "cand \<equiv> \<lambda>f :: fix_rec. \<lparr>cand_title = fix_title f, cand_edits = fix_edits f\<rparr>"
  shows "mset (concat (map cand_edits (sort_key first_key (map cand cs)))) =
    mset (concat (map fix_edits cs))"
proof -
  have "mset (concat (map cand_edits xs)) = sum_mset (image_mset (\<lambda>c. mset (cand_edits c)) (mset xs))"
    for xs by (induction xs) auto
  then have "mset (concat (map cand_edits (sort_key first_key (map cand cs)))) =
      mset (concat (map cand_edits (map cand cs)))" by (metis mset_sort)
  also have "\<dots> = mset (concat (map fix_edits cs))" by (simp add: cand_def o_def)
  finally show ?thesis .
qed

definition fix_candidate :: "fix_rec \<Rightarrow> candidate" where
  "fix_candidate f = \<lparr>cand_title = fix_title f, cand_edits = fix_edits f\<rparr>"

definition ordered_edits :: "diagnostic list \<Rightarrow> text_edit list" where
  "ordered_edits ds =
     concat (map cand_edits (sort_key first_key (map fix_candidate (selected_fixes ds))))"

definition sort_edits ::
    "(file_id, text_edit list) btree_map \<Rightarrow> (file_id, text_edit list) btree_map" where
  "sort_edits m = map (\<lambda>(k, es). (k, sort_key edit_key es)) m"

lemma ordered_edits_perm: "mset (ordered_edits ds) = mset (selected_edits ds)"
  unfolding ordered_edits_def selected_edits_def fix_candidate_def [abs_def]
  by (rule sorted_candidate_edits)

lemma build_loops:
  "build files ds = Inr plan \<longleftrightarrow>
     (\<exists>m cs e as. fold_result insert_file files [] = Inr m \<and>
        fold_result (add_candidate m) ds [] = Inr cs \<and>
        accept_candidates (sort_key first_key cs) = Inr (e, as) \<and>
        plan = \<lparr>fp_files = m, fp_edits = sort_edits e\<rparr>)"
proof -
  have "sort_edits = map (\<lambda>(k, es). (k, sort_key (\<lambda>e. (edit_start e, edit_end e)) es))"
    by (rule ext) (simp add: sort_edits_def edit_key_def [abs_def])
  then show ?thesis
    unfolding build_def by (auto split: sum.split prod.split)
qed

lemma accept_ordered:
  "(\<exists>as. accept_candidates (sort_key first_key (map fix_candidate (selected_fixes ds))) = Inr (e, as)) \<longleftrightarrow>
     compatible (selected_edits ds) \<and> e = bt_group edit_file (ordered_edits ds)"
  using accept_candidates_iff [of "sort_key first_key (map fix_candidate (selected_fixes ds))"]
    compatible_perm [OF ordered_edits_perm] compatible_perm [OF ordered_edits_perm [symmetric]]
  unfolding ordered_edits_def [symmetric] by metis

lemma build_steps:
  "build files ds = Inr plan \<longleftrightarrow>
     distinct (map pf_file files) \<and>
     (\<forall>f\<in>set (selected_fixes ds). fix_valid (file_map files) f) \<and>
     compatible (selected_edits ds) \<and>
     plan = \<lparr>fp_files = file_map files,
       fp_edits = sort_edits (bt_group edit_file (ordered_edits ds))\<rparr>"
proof -
  have files: "fold_result insert_file files [] = Inr m \<longleftrightarrow>
      distinct (map pf_file files) \<and> m = file_map files" for m
    using insert_file_fold [of "[]" files m] by (simp add: bt.empty_ok bt.get_empty file_map_def)
  have cands: "fold_result (add_candidate m) ds [] = Inr cs \<longleftrightarrow>
      (\<forall>f\<in>set (selected_fixes ds). fix_valid m f) \<and>
      cs = map fix_candidate (selected_fixes ds)" for m cs
    by (simp add: add_candidate_fold fix_candidate_def [abs_def])
  have "build files ds = Inr plan \<longleftrightarrow>
      distinct (map pf_file files) \<and>
      (\<forall>f\<in>set (selected_fixes ds). fix_valid (file_map files) f) \<and>
      (\<exists>e. (\<exists>as. accept_candidates
         (sort_key first_key (map fix_candidate (selected_fixes ds))) = Inr (e, as)) \<and>
       plan = \<lparr>fp_files = file_map files, fp_edits = sort_edits e\<rparr>)"
    unfolding build_loops files cands by blast
  then show ?thesis unfolding accept_ordered by blast
qed

lemma sort_edits_ok: "bt_ok (sort_edits m) = bt_ok m"
  and bt_get_sort_edits: "bt_get (sort_edits m) k = map_option (sort_key edit_key) (bt_get m k)"
  unfolding sort_edits_def by (rule bt_map_values)+

lemma build_edits:
  assumes "build files ds = Inr plan"
  shows "bt_ok (fp_edits plan)"
    and "bt_get (fp_edits plan) k =
      (let es = file_edits (ordered_edits ds) k in if es = [] then None else Some es)"
proof -
  have plan: "fp_edits plan = sort_edits (bt_group edit_file (ordered_edits ds))"
    using assms by (simp add: build_steps)
  show "bt_ok (fp_edits plan)" by (simp add: plan sort_edits_ok bt_group_ok)
  have "sort_key edit_key ys = [] \<longleftrightarrow> ys = []" for ys by (metis length_0_conv length_sort)
  then show "bt_get (fp_edits plan) k =
      (let es = file_edits (ordered_edits ds) k in if es = [] then None else Some es)"
    by (simp add: plan bt_get_sort_edits bt_get_group Let_def file_edits_def)
qed


section \<open>The edits of a plan\<close>

text \<open>\<^verbatim>\<open>TextRange\<close> is ordered by construction, and a \<^verbatim>\<open>String\<close> starts a character.\<close>

definition starts_char :: "string \<Rightarrow> bool" where
  "starts_char t \<longleftrightarrow> t = [] \<or> \<not> is_continuation_byte (hd t)"

definition wf_edit :: "text_edit \<Rightarrow> bool" where
  "wf_edit e \<longleftrightarrow> edit_start e \<le> edit_end e \<and> starts_char (new_text e)"

definition edit_fits :: "(file_id, planned_file) btree_map \<Rightarrow> text_edit \<Rightarrow> bool" where
  "edit_fits files e \<longleftrightarrow>
     (case bt_get files (edit_file e) of
        None \<Rightarrow> False
      | Some f \<Rightarrow> is_char_boundary (pf_source f) (edit_start e) \<and>
                 is_char_boundary (pf_source f) (edit_end e))"

definition disjoint_edits :: "text_edit list \<Rightarrow> bool" where
  "disjoint_edits es \<longleftrightarrow> sorted_wrt (\<lambda>a b. edit_end a \<le> edit_start b) es"

lemma validate_edits_fit:
  "fold_result (validate_edit title files) es m = Inr m' \<Longrightarrow> \<forall>e\<in>set es. edit_fits files e"
proof (induction es arbitrary: m)
  case (Cons e es)
  from Cons.prems obtain m1 where "validate_edit title files e m = Inr m1"
    and rest: "fold_result (validate_edit title files) es m1 = Inr m'"
    by (auto split: sum.splits)
  then have "edit_fits files e"
    by (auto simp: validate_edit_def edit_fits_def Let_def split: option.splits if_splits)
  with Cons.IH [OF rest] show ?case by simp
qed simp

lemma fix_valid_fit: "fix_valid files f \<Longrightarrow> e \<in> set (fix_edits f) \<Longrightarrow> edit_fits files e"
  using validate_edits_fit [of "fix_title f" files "fix_edits f" "[]"]
  by (cases "fold_result (validate_edit (fix_title f) files) (fix_edits f) []")
    (simp_all add: fix_valid_def validate_fix_def)

lemma selected_edits_fit:
  "\<forall>f\<in>set (selected_fixes ds). fix_valid files f \<Longrightarrow> e \<in> set (selected_edits ds) \<Longrightarrow>
     edit_fits files e"
  by (auto simp: selected_edits_def intro: fix_valid_fit)

lemma sorted_wrt_pair:
  "sorted_wrt R xs \<Longrightarrow> a \<in> set xs \<Longrightarrow> b \<in> set xs \<Longrightarrow> a \<noteq> b \<Longrightarrow> R a b \<or> R b a"
  by (induction xs) auto

lemma sorted_wrt_conj:
  "sorted_wrt P xs \<Longrightarrow> sorted_wrt Q xs \<Longrightarrow> sorted_wrt (\<lambda>a b. P a b \<and> Q a b) xs"
  by (induction xs) auto

lemma overlap_same_key:
  "wf_edit a \<Longrightarrow> edit_key a = edit_key b \<Longrightarrow> edits_overlap a b"
  by (cases "edit_span a"; cases "edit_span b")
    (auto simp: wf_edit_def edit_key_def edits_overlap_def range_is_empty_def)

lemma disjoint_step:
  assumes "wf_edit a" "wf_edit b" "edit_key a \<le> edit_key b" "\<not> edits_overlap a b"
  shows "edit_end a \<le> edit_start b"
  using assms
  by (auto simp: wf_edit_def edit_key_def edits_overlap_def range_is_empty_def)

lemma set_file_edits: "set (file_edits es k) = {e \<in> set es. edit_file e = k}"
  by (simp add: file_edits_def)

lemma compatible_file:
  assumes "compatible es"
  shows "sorted_wrt (\<lambda>a b. \<not> edits_overlap a b) (filter (\<lambda>e. edit_file e = k) es)"
proof (rule sorted_wrt_mono_rel)
  show "sorted_wrt (\<lambda>a b. edit_file a = edit_file b \<longrightarrow> \<not> edits_overlap a b)
      (filter (\<lambda>e. edit_file e = k) es)"
    using assms unfolding compatible_def by (rule sorted_wrt_filter)
qed simp

lemma file_edits_disjoint:
  assumes c: "compatible es" and wf: "\<forall>e\<in>set es. wf_edit e"
  shows "disjoint_edits (file_edits es k)"
  unfolding disjoint_edits_def
proof (rule sorted_wrt_mono_rel)
  have "sorted_wrt (\<lambda>a b. \<not> edits_overlap a b) (file_edits es k)"
    by (rule sorted_wrt_perm [OF _ _ compatible_file [OF c]])
      (simp_all add: edits_overlap_sym file_edits_def)
  moreover have "sorted_wrt (\<lambda>a b. edit_key a \<le> edit_key b) (file_edits es k)"
    unfolding file_edits_def by (metis sorted_map sorted_sort_key)
  ultimately show "sorted_wrt (\<lambda>a b. \<not> edits_overlap a b \<and> edit_key a \<le> edit_key b)
      (file_edits es k)"
    by (rule sorted_wrt_conj)
  fix a b assume "a \<in> set (file_edits es k)" "b \<in> set (file_edits es k)"
    "\<not> edits_overlap a b \<and> edit_key a \<le> edit_key b"
  with wf show "edit_end a \<le> edit_start b"
    by (intro disjoint_step) (simp_all add: set_file_edits)
qed

lemma file_edits_perm:
  assumes c: "compatible es" and wf: "\<forall>e\<in>set es. wf_edit e" and m: "mset es = mset es'"
  shows "file_edits es k = file_edits es' k"
proof -
  let ?xs = "filter (\<lambda>e. edit_file e = k) es"
  have "inj_on edit_key (set ?xs)"
  proof (rule inj_onI, rule ccontr)
    fix a b assume ab: "a \<in> set ?xs" "b \<in> set ?xs" "edit_key a = edit_key b" "a \<noteq> b"
    with wf have "edits_overlap a b" by (intro overlap_same_key) simp_all
    with sorted_wrt_pair [OF compatible_file [OF c] ab(1,2,4)] show False
      by (simp add: edits_overlap_sym)
  qed
  then have "sort_key edit_key ?xs = sort_key edit_key (filter (\<lambda>e. edit_file e = k) es')"
    by (intro sort_key_inj_key_eq) (simp_all add: m)
  then show ?thesis by (simp add: file_edits_def)
qed


section \<open>Applying a plan\<close>

text \<open>The reference result: copy the source from left to right, replacing each edited range.\<close>

fun splice_edits :: "nat \<Rightarrow> text_edit list \<Rightarrow> string \<Rightarrow> string" where
  "splice_edits i [] s = drop i s"
| "splice_edits i (e # es) s = list_slice i (edit_start e) s @ new_text e @ splice_edits (edit_end e) es s"

definition fitting :: "string \<Rightarrow> text_edit \<Rightarrow> bool" where
  "fitting s e \<longleftrightarrow> is_char_boundary s (edit_start e) \<and> is_char_boundary s (edit_end e)"

lemma boundary_starts_char: "is_char_boundary s i \<Longrightarrow> 0 < i \<Longrightarrow> starts_char (drop i s)"
  by (auto simp: is_char_boundary_def starts_char_def hd_drop_conv_nth split: if_splits)

lemma starts_char_boundary:
  "i \<le> length s \<Longrightarrow> i = 0 \<or> starts_char t \<Longrightarrow> is_char_boundary (take i s @ t) i"
  by (cases t) (auto simp: is_char_boundary_def starts_char_def nth_append)

lemma is_char_boundary_prefix:
  "is_char_boundary s i \<Longrightarrow> i < j \<Longrightarrow> j \<le> length s \<Longrightarrow> is_char_boundary (take j s @ t) i"
  by (auto simp: is_char_boundary_def nth_append split: if_splits)

lemma splice_starts_char:
  "is_char_boundary s i \<Longrightarrow> 0 < i \<Longrightarrow> disjoint_edits es \<Longrightarrow>
     (\<forall>e\<in>set es. i \<le> edit_start e \<and> wf_edit e \<and> fitting s e) \<Longrightarrow> starts_char (splice_edits i es s)"
proof (induction es arbitrary: i)
  case Nil
  then show ?case by (simp add: boundary_starts_char)
next
  case (Cons e es)
  have e: "i \<le> edit_start e" "edit_start e \<le> edit_end e" "starts_char (new_text e)"
    "is_char_boundary s (edit_end e)" "edit_start e \<le> length s"
    using Cons.prems(4) by (auto simp: wf_edit_def fitting_def dest: is_char_boundary_le)
  show ?case
  proof (cases "i = edit_start e")
    case True
    have "starts_char (splice_edits (edit_end e) es s)"
      using Cons.prems e by (intro Cons.IH) (auto simp: disjoint_edits_def)
    then show ?thesis using True e(3) by (cases "new_text e") (simp_all add: starts_char_def)
  next
    case False
    then have "list_slice i (edit_start e) s \<noteq> []"
      "hd (list_slice i (edit_start e) s) = hd (drop i s)"
      using e by (auto simp: list_slice_def)
    then show ?thesis
      using boundary_starts_char [OF Cons.prems(1,2)] False e by (auto simp: starts_char_def)
  qed
qed

lemma apply_edits_splice:
  "i \<le> length s \<Longrightarrow> disjoint_edits es \<Longrightarrow>
     (\<forall>e\<in>set es. i \<le> edit_start e \<and> wf_edit e \<and> fitting s e) \<Longrightarrow>
     apply_edits es s = Some (take i s @ splice_edits i es s)"
proof (induction es arbitrary: i)
  case Nil
  then show ?case by (simp add: apply_edits_def)
next
  case (Cons e es)
  let ?j = "edit_end e" and ?t = "splice_edits (edit_end e) es s"
  have e: "i \<le> edit_start e" "edit_start e \<le> ?j" "is_char_boundary s (edit_start e)"
    "is_char_boundary s ?j" "?j \<le> length s"
    using Cons.prems(3) by (auto simp: wf_edit_def fitting_def dest: is_char_boundary_le)
  have rest: "disjoint_edits es" "\<forall>e\<in>set es. ?j \<le> edit_start e \<and> wf_edit e \<and> fitting s e"
    using Cons.prems(2,3) by (auto simp: disjoint_edits_def)
  have j: "is_char_boundary (take ?j s @ ?t) ?j"
    using splice_starts_char [OF e(4) _ rest] by (intro starts_char_boundary e(5)) auto
  moreover have "is_char_boundary (take ?j s @ ?t) (edit_start e)"
    using is_char_boundary_prefix [OF e(3), of ?j ?t] e(2,5) j by (cases "edit_start e = ?j") auto
  ultimately have "replace_range (edit_start e) ?j (new_text e) (take ?j s @ ?t) =
      Some (take (edit_start e) s @ new_text e @ ?t)"
    using e(2,5) by (simp add: replace_range_def min_def)
  moreover have "take (edit_start e) s = take i s @ list_slice i (edit_start e) s"
    using e(1) by (metis le_add_diff_inverse list_slice_def take_add)
  moreover have "apply_edits es s = Some (take ?j s @ ?t)" using Cons.IH [OF e(5) rest] .
  ultimately show ?case by (simp add: apply_edits_def)
qed


section \<open>Validation accepts exactly the admissible fixes\<close>

definition strictly_after :: "text_edit \<Rightarrow> text_edit \<Rightarrow> bool" where
  "strictly_after a b \<longleftrightarrow> edit_end a \<le> edit_start b \<and> edit_span a \<noteq> edit_span b"

lemma strictly_after_trans:
  assumes "strictly_after a b" "strictly_after b c" "wf_edit a" "wf_edit b"
  shows "strictly_after a c"
proof -
  have le: "edit_end a \<le> edit_start b" "edit_start b \<le> edit_end b" "edit_end b \<le> edit_start c"
    "edit_start a \<le> edit_end a"
    using assms by (auto simp: strictly_after_def wf_edit_def)
  have "edit_span a \<noteq> edit_span c"
  proof
    assume eq: "edit_span a = edit_span c"
    with le have "edit_start a = edit_start b" "edit_end a = edit_end b" by auto
    then have "edit_span a = edit_span b" by (intro text_range.equality) simp_all
    with assms(1) show False by (simp add: strictly_after_def)
  qed
  with le show ?thesis by (simp add: strictly_after_def)
qed

lemma validate_order_step:
  "wf_edit p \<Longrightarrow> wf_edit e \<Longrightarrow>
     validate_order t k e (Some p) = (if strictly_after p e then Inr (Some e) else Inl (UnorderedEdits t k))"
  by (auto simp: validate_order_def strictly_after_def wf_edit_def range_is_empty_def)

lemma validate_order_fold:
  "wf_edit p \<Longrightarrow> \<forall>e\<in>set es. wf_edit e \<Longrightarrow>
     (\<exists>x. fold_result (validate_order t k) es (Some p) = Inr x) \<longleftrightarrow> sorted_wrt strictly_after (p # es)"
proof (induction es arbitrary: p)
  case (Cons e es)
  then have wf: "wf_edit p" "wf_edit e" by simp_all
  have "sorted_wrt strictly_after (p # e # es) \<longleftrightarrow>
      strictly_after p e \<and> sorted_wrt strictly_after (e # es)"
    using strictly_after_trans [OF _ _ wf] by auto
  with Cons.IH [of e] Cons.prems wf show ?case by (simp add: validate_order_step)
qed simp

lemma validate_order_all:
  assumes "\<forall>e\<in>set es. wf_edit e"
  shows "(\<exists>x. fold_result (validate_order t k) es None = Inr x) \<longleftrightarrow> sorted_wrt strictly_after es"
proof (cases es)
  case (Cons e es')
  with assms validate_order_fold [of e es' t k] show ?thesis by (simp add: validate_order_def)
qed simp

lemma validate_edits_fold:
  "fold_result (validate_edit t files) es m = Inr m' \<longleftrightarrow>
     (\<forall>e\<in>set es. edit_fits files e) \<and> m' = fold (\<lambda>e. bt_push (edit_file e) e) es m"
proof (induction es arbitrary: m)
  case (Cons e es)
  have step: "validate_edit t files e m = Inr x \<longleftrightarrow> edit_fits files e \<and> x = bt_push (edit_file e) e m"
    for x
    by (auto simp: validate_edit_def edit_fits_def Let_def not_less
        split: option.splits dest: is_char_boundary_le)
  show ?case
  proof (cases "edit_fits files e")
    case True
    then have "validate_edit t files e m = Inr (bt_push (edit_file e) e m)" by (simp add: step)
    with True Cons.IH show ?thesis by simp
  next
    case False
    then have "validate_edit t files e m \<noteq> Inr x" for x by (simp add: step)
    with False show ?thesis by (auto split: sum.split)
  qed
qed auto

lemma validate_fix_spec:
  assumes wf: "\<forall>e\<in>set es. wf_edit e"
  shows "validate_fix t files es = Inr () \<longleftrightarrow>
    list_all (edit_fits files) es \<and>
    (\<forall>k. sorted_wrt strictly_after (filter (\<lambda>e. edit_file e = k) es))"
proof (cases "list_all (edit_fits files) es")
  case True
  let ?m = "bt_group edit_file es"
  have fit: "fold_result (validate_edit t files) es [] = Inr ?m"
    using True by (simp add: validate_edits_fold bt_group_def list_all_iff)
  have check: "(case fold_result (validate_order t k) v None of Inl e \<Rightarrow> Inl e | Inr _ \<Rightarrow> Inr ()) = Inr () \<longleftrightarrow>
      (\<exists>x. fold_result (validate_order t k) v None = Inr x)" for k v
    by (auto split: sum.split)
  have all: "fold_result (\<lambda>(k, v) _. case fold_result (validate_order t k) v None of
        Inl e \<Rightarrow> Inl e | Inr _ \<Rightarrow> Inr ()) m () = Inr () \<longleftrightarrow>
      (\<forall>(k, v)\<in>set m. \<exists>x. fold_result (validate_order t k) v None = Inr x)" for m
    by (induction m) (auto simp: check split: sum.split)
  have "(\<forall>(k, v)\<in>set ?m. \<exists>x. fold_result (validate_order t k) v None = Inr x) \<longleftrightarrow>
      (\<forall>k. sorted_wrt strictly_after (filter (\<lambda>e. edit_file e = k) es))"
  proof -
    have "(\<forall>(k, v)\<in>set ?m. \<exists>x. fold_result (validate_order t k) v None = Inr x) \<longleftrightarrow>
        (\<forall>k v. bt_get ?m k = Some v \<longrightarrow> (\<exists>x. fold_result (validate_order t k) v None = Inr x))"
      by (simp only: Ball_def split_paired_All prod.case bt_get_in_set [OF bt_group_ok])
    also have "\<dots> \<longleftrightarrow> (\<forall>k. filter (\<lambda>e. edit_file e = k) es \<noteq> [] \<longrightarrow>
        (\<exists>x. fold_result (validate_order t k) (filter (\<lambda>e. edit_file e = k) es) None = Inr x))"
      by (auto simp: bt_get_group Let_def)
    also have "\<dots> \<longleftrightarrow> (\<forall>k. sorted_wrt strictly_after (filter (\<lambda>e. edit_file e = k) es))"
    proof -
      have "(filter (\<lambda>e. edit_file e = k) es \<noteq> [] \<longrightarrow>
          (\<exists>x. fold_result (validate_order t k) (filter (\<lambda>e. edit_file e = k) es) None = Inr x)) \<longleftrightarrow>
          sorted_wrt strictly_after (filter (\<lambda>e. edit_file e = k) es)" for k
        using wf validate_order_all [of "filter (\<lambda>e. edit_file e = k) es" t k]
        by (cases "filter (\<lambda>e. edit_file e = k) es = []") simp_all
      then show ?thesis by simp
    qed
    finally show ?thesis .
  qed
  then show ?thesis using True by (simp add: validate_fix_def fit all)
next
  case False
  then have "fold_result (validate_edit t files) es [] \<noteq> Inr m" for m
    by (simp add: validate_edits_fold list_all_iff)
  then show ?thesis using False by (auto simp: validate_fix_def split: sum.split)
qed



section \<open>Sources\<close>

lemma stale_loop:
  "fold_result (\<lambda>(k, f) _. if bt_get sources k \<noteq> Some (pf_source f)
     then Inl (StaleSource k) else Inr ()) fs () = Inr () \<longleftrightarrow>
     (\<forall>k f. (k, f) \<in> set fs \<longrightarrow> bt_get sources k = Some (pf_source f))"
  by (induction fs) (auto split: if_splits)

lemma ball_fst_image: "(\<forall>k\<in>fst ` S. P k) \<longleftrightarrow> (\<forall>k v. (k, v) \<in> S \<longrightarrow> P k)"
  by force

lemma unexpected_source_None:
  assumes "bt_ok sources"
  shows "find (\<lambda>k. \<not> bt_contains files k) (map fst sources) = None \<longleftrightarrow>
    (\<forall>k v. bt_get sources k = Some v \<longrightarrow> bt_get files k \<noteq> None)"
proof -
  have "find (\<lambda>k. \<not> bt_contains files k) (map fst sources) = None \<longleftrightarrow>
      (\<forall>k\<in>fst ` set sources. bt_get files k \<noteq> None)"
    by (simp add: find_None_iff bt_contains_def)
  also have "\<dots> \<longleftrightarrow> (\<forall>k v. (k, v) \<in> set sources \<longrightarrow> bt_get files k \<noteq> None)"
    by (rule ball_fst_image)
  finally show ?thesis by (simp only: bt_get_in_set [OF assms])
qed

lemma validate_sources_iff:
  assumes "bt_ok (fp_files plan)" and "bt_ok sources"
  shows "validate_sources plan sources = Inr () \<longleftrightarrow>
    (\<forall>k. bt_get sources k = map_option pf_source (bt_get (fp_files plan) k))"
proof -
  have "validate_sources plan sources = Inr () \<longleftrightarrow>
      find (\<lambda>k. \<not> bt_contains (fp_files plan) k) (map fst sources) = None \<and>
      fold_result (\<lambda>(k, f) _. if bt_get sources k \<noteq> Some (pf_source f)
        then Inl (StaleSource k) else Inr ()) (fp_files plan) () = Inr ()"
    by (simp add: validate_sources_def split: option.split)
  also have "\<dots> \<longleftrightarrow>
      (\<forall>k v. bt_get sources k = Some v \<longrightarrow> bt_get (fp_files plan) k \<noteq> None) \<and>
      (\<forall>k f. bt_get (fp_files plan) k = Some f \<longrightarrow> bt_get sources k = Some (pf_source f))"
    by (simp only: unexpected_source_None [OF assms(2)] stale_loop bt_get_in_set [OF assms(1)])
  also have "\<dots> \<longleftrightarrow> (\<forall>k. bt_get sources k = map_option pf_source (bt_get (fp_files plan) k))"
  proof -
    have eq: "(\<forall>v. x = Some v \<longrightarrow> y \<noteq> None) \<and> (\<forall>f. y = Some f \<longrightarrow> x = Some (pf_source f)) \<longleftrightarrow>
        x = map_option pf_source y" for x y by (cases x; cases y) auto
    show ?thesis by (simp only: all_conj_distrib [symmetric] eq)
  qed
  finally show ?thesis .
qed

lemma bt_ok_Some_files: "build files ds = Inr plan \<Longrightarrow> bt_ok (fp_files plan)"
  by (simp add: build_steps file_map_ok)

lemma change_of_built:
  assumes b: "build files ds = Inr plan" and wf: "\<forall>e\<in>set (selected_edits ds). wf_edit e"
    and f: "bt_get (fp_files plan) k = Some f"
  shows "change_of plan (k, f) = Some \<lparr>pc_file = k, pc_before = pf_source f,
    pc_after = splice_edits 0 (file_edits (selected_edits ds) k) (pf_source f)\<rparr>"
proof -
  have c: "compatible (selected_edits ds)"
    and valid: "\<forall>f\<in>set (selected_fixes ds). fix_valid (file_map files) f"
    and files: "fp_files plan = file_map files" using b by (simp_all add: build_steps)
  let ?es = "file_edits (selected_edits ds) k"
  have perm: "file_edits (ordered_edits ds) k = ?es"
    using file_edits_perm [OF c wf] ordered_edits_perm by metis
  have "fitting (pf_source f) e" if "e \<in> set ?es" for e
    using selected_edits_fit [OF valid, of e] that f files
    by (auto simp: set_file_edits edit_fits_def fitting_def)
  then have "apply_edits ?es (pf_source f) = Some (splice_edits 0 ?es (pf_source f))"
    using apply_edits_splice [of 0 "pf_source f" ?es] file_edits_disjoint [OF c wf, of k] wf
    by (simp add: set_file_edits)
  then show ?thesis
    by (simp add: change_of_def build_edits(2) [OF b] perm Let_def)
qed

lemma those_map_Some: "(\<And>x. x \<in> set xs \<Longrightarrow> f x = Some (g x)) \<Longrightarrow> those (map f xs) = Some (map g xs)"
  by (induction xs) auto

lemma transformed_built:
  assumes b: "build files ds = Inr plan" and wf: "\<forall>e\<in>set (selected_edits ds). wf_edit e"
    and v: "validate_sources plan sources = Inr ()"
  shows "transformed_changes plan sources = Some (Inr (map (\<lambda>(k, f).
    \<lparr>pc_file = k, pc_before = pf_source f,
     pc_after = splice_edits 0 (file_edits (selected_edits ds) k) (pf_source f)\<rparr>) (fp_files plan)))"
proof -
  have "those (map (change_of plan) (fp_files plan)) = Some (map (\<lambda>(k, f).
    \<lparr>pc_file = k, pc_before = pf_source f,
     pc_after = splice_edits 0 (file_edits (selected_edits ds) k) (pf_source f)\<rparr>) (fp_files plan))"
    using change_of_built [OF b wf] bt_get_in_set [OF bt_ok_Some_files [OF b]]
    by (intro those_map_Some) auto
  then show ?thesis using v by (simp add: transformed_changes_def)
qed

lemma collect_changes:
  assumes "bt_ok m"
  shows "bt_ok (fold (\<lambda>c. bt_insert (pc_file c) (pc_after c))
      (map (\<lambda>(k, f). \<lparr>pc_file = k, pc_before = pf_source f, pc_after = h k (pf_source f)\<rparr>) m) [])"
    and "bt_get (fold (\<lambda>c. bt_insert (pc_file c) (pc_after c))
      (map (\<lambda>(k, f). \<lparr>pc_file = k, pc_before = pf_source f, pc_after = h k (pf_source f)\<rparr>) m) []) k =
    map_option (\<lambda>f. h k (pf_source f)) (bt_get m k)"
proof -
  let ?cs = "map (\<lambda>(k, f). \<lparr>pc_file = k, pc_before = pf_source f, pc_after = h k (pf_source f)\<rparr>) m"
  show "bt_ok (fold (\<lambda>c. bt_insert (pc_file c) (pc_after c)) ?cs [])"
    by (rule bt.fold_insert_ok) (rule bt.empty_ok)
  have "map pc_file ?cs = map fst m" by (simp add: case_prod_unfold o_def)
  then have "distinct (map pc_file ?cs)" using bt_ok_distinct [OF assms] by metis
  then have "bt_get (fold (\<lambda>c. bt_insert (pc_file c) (pc_after c)) ?cs []) k =
      (case find (\<lambda>c. pc_file c = k) ?cs of Some c \<Rightarrow> Some (pc_after c) | None \<Rightarrow> None)"
    using bt.get_fold_insert [OF bt.empty_ok, of pc_file ?cs pc_after k]
    by (simp only: bt.get_empty)
  also have "\<dots> = map_option (\<lambda>f. h k (pf_source f)) (bt_get m k)"
    by (induction m) (auto simp: bt_get_def)
  finally show "bt_get (fold (\<lambda>c. bt_insert (pc_file c) (pc_after c)) ?cs []) k =
      map_option (\<lambda>f. h k (pf_source f)) (bt_get m k)" .
qed

end
