(* ===== verification/FixPlanProperties.thy ===== *)
theory FixPlanProperties
  imports FixPlan
begin

text \<open>
  What fix plans guarantee: exact acceptance, the edits a plan holds, independence of the order
  in which diagnostics were produced, and application as a left-to-right splice that neither
  panics nor touches changed sources.
\<close>

section \<open>Building\<close>

lemma bt_insert_values:
  "bt_ok m \<Longrightarrow>
     mset (concat (map snd (bt_insert k v m))) + mset (case bt_get m k of Some u \<Rightarrow> u | None \<Rightarrow> []) =
     mset v + mset (concat (map snd m))"
proof (induction k v m rule: bt_insert.induct)
  case (2 k v k' v' m)
  have "k \<notin> fst ` set m" if "k \<le> k'" using that 2(2) by (force simp: bt_ok_Cons)
  then have "bt_get m k = None" if "k \<le> k'" using that by (simp add: bt_get_def map_of_eq_None_iff)
  with 2 show ?case by (auto simp: bt_get_def bt_ok_Cons ac_simps)
qed (simp add: bt_get_def)

lemma bt_push_values:
  "bt_ok m \<Longrightarrow> mset (concat (map snd (bt_push k x m))) = add_mset x (mset (concat (map snd m)))"
  using bt_insert_values [of m k "(case bt_get m k of Some u \<Rightarrow> u | None \<Rightarrow> []) @ [x]"]
  by (simp add: bt_push_def)

lemma bt_group_values: "mset (concat (map snd (bt_group key xs))) = mset xs"
  by (induction xs rule: rev_induct)
    (simp_all add: bt_group_snoc bt_push_values bt_group_ok, simp add: bt_group_def)

lemma sort_edits_values: "mset (concat (map snd (sort_edits m))) = mset (concat (map snd m))"
  by (induction m) (auto simp: sort_edits_def)

text \<open>\<^verbatim>\<open>validate_fix\<close> accepts exactly the fixes whose edits refer to known files, lie on
  character boundaries inside them, and, file by file, are given in strictly increasing
  source order without touching each other's ranges or repeating an insertion point.\<close>

theorem validate_fix_exact:
  assumes "list_all wf_edit es"
  shows "validate_fix title files es = Inr () \<longleftrightarrow>
    list_all (edit_fits files) es \<and>
    (\<forall>k. sorted_wrt strictly_after (filter (\<lambda>e. edit_file e = k) es))"
  using assms validate_fix_spec [of es title files] by (simp add: list_all_iff)

text \<open>C18: A plan is built exactly when file identities are distinct, every machine-applicable fix
  is justified by its provenance, non-empty, in bounds and in order, and no two selected edits
  overlap; in every other case the whole plan is rejected.\<close>

theorem build_succeeds_iff:
  assumes "list_all wf_edit (selected_edits ds)"
  shows "(\<exists>plan. build files ds = Inr plan) \<longleftrightarrow>
    distinct (map pf_file files) \<and>
    list_all (\<lambda>f. permits_machine_application (provenance f) \<and> fix_edits f \<noteq> [] \<and>
      list_all (edit_fits (file_map files)) (fix_edits f) \<and>
      (\<forall>k. sorted_wrt strictly_after (filter (\<lambda>e. edit_file e = k) (fix_edits f))))
      (selected_fixes ds) \<and>
    compatible (selected_edits ds)"
proof -
  have "fix_valid (file_map files) f \<longleftrightarrow> permits_machine_application (provenance f) \<and>
      fix_edits f \<noteq> [] \<and> list_all (edit_fits (file_map files)) (fix_edits f) \<and>
      (\<forall>k. sorted_wrt strictly_after (filter (\<lambda>e. edit_file e = k) (fix_edits f)))"
    if "f \<in> set (selected_fixes ds)" for f
    using validate_fix_spec [of "fix_edits f" "fix_title f" "file_map files"] assms that
    by (auto simp: fix_valid_def selected_edits_def list_all_iff)
  then show ?thesis by (simp add: build_steps list_all_iff)
qed

text \<open>C19: A built plan holds all edits of all machine-applicable fixes and no other (so no
  suggested, unsafe or unproven fix is ever applied, and no fix is applied in part), and the edits
  of each file are known to it, sorted and pairwise disjoint.\<close>

theorem build_plan_edits:
  assumes "list_all wf_edit (selected_edits ds)" and "build files ds = Inr plan"
  shows "mset (concat (map snd (fp_edits plan))) = mset (selected_edits ds) \<and>
    list_all (\<lambda>f. provenance f \<noteq> ModelDependent) (selected_fixes ds) \<and>
    list_all (\<lambda>(k, es). disjoint_edits es \<and>
      list_all (\<lambda>e. edit_file e = k \<and> edit_fits (fp_files plan) e) es) (fp_edits plan)"
proof -
  let ?es = "ordered_edits ds"
  have c: "compatible ?es" and wf: "\<forall>e\<in>set ?es. wf_edit e"
    using assms compatible_perm [OF ordered_edits_perm [symmetric], of ds]
      mset_eq_setD [OF ordered_edits_perm [of ds]]
    by (simp_all add: build_steps list_all_iff)
  have valid: "\<forall>f\<in>set (selected_fixes ds). fix_valid (fp_files plan) f"
    using assms(2) by (simp add: build_steps)
  have "mset (concat (map snd (fp_edits plan))) = mset (selected_edits ds)"
    using assms(2)
    by (simp add: build_steps sort_edits_values bt_group_values ordered_edits_perm)
  moreover have "list_all (\<lambda>f. provenance f \<noteq> ModelDependent) (selected_fixes ds)"
    using valid by (auto simp: list_all_iff fix_valid_def permits_machine_application_def)
  moreover have "disjoint_edits es \<and> list_all (\<lambda>e. edit_file e = k \<and> edit_fits (fp_files plan) e) es"
    if "(k, es) \<in> set (fp_edits plan)" for k es
  proof -
    from that build_edits [OF assms(2)] have es: "es = file_edits ?es k"
      by (auto simp: bt_get_in_set Let_def split: if_splits)
    have "e \<in> set (selected_edits ds)" "edit_file e = k" if "e \<in> set es" for e
      using that mset_eq_setD [OF ordered_edits_perm [of ds]] by (simp_all add: es set_file_edits)
    with es file_edits_disjoint [OF c wf] selected_edits_fit [OF valid] show ?thesis
      by (simp add: list_all_iff)
  qed
  ultimately show ?thesis by (auto simp: list_all_iff)
qed

text \<open>C17: The plan does not depend on the order in which passes produced the diagnostics: any
  permutation of them builds the same plan.\<close>

theorem build_order_independent:
  assumes "list_all wf_edit (selected_edits ds)" and "build files ds = Inr plan"
    and "mset ds' = mset ds"
  shows "build files ds' = Inr plan"
proof -
  have fixes_perm: "mset (selected_fixes ds') = mset (selected_fixes ds)"
    using assms(3) unfolding selected_fixes_def List.map_filter_def by simp
  have "mset (concat (map fix_edits fs)) = sum_mset (image_mset (\<lambda>f. mset (fix_edits f)) (mset fs))"
    for fs by (induction fs) auto
  then have edits_perm: "mset (selected_edits ds') = mset (selected_edits ds)"
    unfolding selected_edits_def using fixes_perm by metis
  have b: "distinct (map pf_file files)" "\<forall>f\<in>set (selected_fixes ds). fix_valid (file_map files) f"
    "compatible (selected_edits ds)" "fp_files plan = file_map files"
    using assms(2) by (simp_all add: build_steps)
  let ?plan = "\<lparr>fp_files = file_map files,
       fp_edits = sort_edits (bt_group edit_file (ordered_edits ds'))\<rparr>"
  have b': "build files ds' = Inr ?plan"
    using b mset_eq_setD [OF fixes_perm] compatible_perm [OF edits_perm [symmetric]]
    by (simp add: build_steps)
  have perm: "mset (ordered_edits ds) = mset (ordered_edits ds')"
    by (simp add: ordered_edits_perm edits_perm)
  have c: "compatible (ordered_edits ds)" and wf: "\<forall>e\<in>set (ordered_edits ds). wf_edit e"
    using assms(1) b(3) compatible_perm [OF ordered_edits_perm [symmetric], of ds]
      mset_eq_setD [OF ordered_edits_perm [of ds]] by (simp_all add: list_all_iff)
  have "fp_edits ?plan = fp_edits plan"
    using build_edits [OF assms(2)] build_edits [OF b'] file_edits_perm [OF c wf perm]
    by (intro bt.ext_eq) simp_all
  then have "?plan = plan" using b(4) by simp
  with b' show ?thesis by simp
qed


section \<open>Applying\<close>

lemma apply_plan_built:
  assumes b: "build files ds = Inr plan" and wf: "list_all wf_edit (selected_edits ds)"
    and ok: "bt_ok sources"
    and src: "\<forall>k. bt_get sources k = map_option pf_source (bt_get (fp_files plan) k)"
  obtains out where "apply_plan plan sources = Some (Inr out)" "bt_ok out"
    "\<And>k. bt_get out k = map_option (splice_edits 0 (file_edits (selected_edits ds) k)) (bt_get sources k)"
proof -
  have v: "validate_sources plan sources = Inr ()"
    using src by (simp add: validate_sources_iff [OF bt_ok_Some_files [OF b] ok])
  from wf have wf': "\<forall>e\<in>set (selected_edits ds). wf_edit e" by (simp add: list_all_iff)
  note C = collect_changes [OF bt_ok_Some_files [OF b],
      of "\<lambda>k. splice_edits 0 (file_edits (selected_edits ds) k)"]
  show thesis
  proof (rule that [OF _ C(1)])
    show "apply_plan plan sources = Some (Inr (fold (\<lambda>c. bt_insert (pc_file c) (pc_after c))
        (map (\<lambda>(k, f). \<lparr>pc_file = k, pc_before = pf_source f,
          pc_after = splice_edits 0 (file_edits (selected_edits ds) k) (pf_source f)\<rparr>) (fp_files plan)) []))"
      by (simp add: apply_plan_def transformed_built [OF b wf' v])
    show "bt_get (fold (\<lambda>c. bt_insert (pc_file c) (pc_after c))
        (map (\<lambda>(k, f). \<lparr>pc_file = k, pc_before = pf_source f,
          pc_after = splice_edits 0 (file_edits (selected_edits ds) k) (pf_source f)\<rparr>) (fp_files plan)) []) k =
        map_option (splice_edits 0 (file_edits (selected_edits ds) k)) (bt_get sources k)" for k
      using src by (simp add: C(2) option.map_comp o_def)
  qed
qed

text \<open>C16: Applying a built plan to its own snapshots never panics and returns, for every file, the
  source with each selected range replaced, as copying the source from left to right gives it;
  the in-place replacement from the last edit to the first is an implementation of that splice.\<close>

theorem apply_plan_splices:
  assumes "build files ds = Inr plan" and "list_all wf_edit (selected_edits ds)"
    and "bt_ok sources"
    and "\<forall>k. bt_get sources k = map_option pf_source (bt_get (fp_files plan) k)"
  shows "\<exists>out. apply_plan plan sources = Some (Inr out) \<and>
    (\<forall>k. bt_get out k = map_option (splice_edits 0 (file_edits (selected_edits ds) k)) (bt_get sources k))"
  by (rule apply_plan_built [OF assms]) blast

text \<open>A built plan is applied exactly to the sources it was built for: any changed, missing or
  additional file makes the whole application fail with \<open>StaleSource\<close> or \<open>UnexpectedSource\<close>, before
  any output is produced.\<close>

theorem apply_plan_rejects_stale:
  assumes "build files ds = Inr plan" and "list_all wf_edit (selected_edits ds)"
    and "bt_ok sources"
  shows "(if \<forall>k. bt_get sources k = map_option pf_source (bt_get (fp_files plan) k)
     then \<exists>out. apply_plan plan sources = Some (Inr out)
     else \<exists>k. apply_plan plan sources = Some (Inl (StaleSource k)) \<or>
       apply_plan plan sources = Some (Inl (UnexpectedSource k)))"
proof (cases "\<forall>k. bt_get sources k = map_option pf_source (bt_get (fp_files plan) k)")
  case True
  then show ?thesis using apply_plan_built [OF assms True] by (metis (full_types))
next
  case False
  then have "validate_sources plan sources \<noteq> Inr ()"
    by (simp add: validate_sources_iff [OF bt_ok_Some_files [OF assms(1)] assms(3)])
  moreover have stale: "fold_result (\<lambda>(k, f) _. if bt_get sources k \<noteq> Some (pf_source f)
      then Inl (StaleSource k) else Inr ()) fs () = Inl e \<Longrightarrow> \<exists>k. e = StaleSource k" for fs e
    by (induction fs) (auto split: if_splits)
  ultimately have "\<exists>k. validate_sources plan sources = Inl (StaleSource k) \<or>
      validate_sources plan sources = Inl (UnexpectedSource k)"
    by (cases "validate_sources plan sources")
      (auto simp: validate_sources_def split: option.splits dest!: stale)
  then show ?thesis using False by (auto simp: apply_plan_def transformed_changes_def)
qed

text \<open>\<^verbatim>\<open>check\<close> answers whether applying the plan would change any byte: it returns \<open>True\<close>
  exactly when the applied sources differ from the given ones.\<close>

theorem check_iff_changes:
  assumes "build files ds = Inr plan" and "list_all wf_edit (selected_edits ds)"
    and "bt_ok sources" and "apply_plan plan sources = Some (Inr out)"
  shows "check plan sources = Some (Inr (out \<noteq> sources))"
proof -
  have wf: "\<forall>e\<in>set (selected_edits ds). wf_edit e" using assms(2) by (simp add: list_all_iff)
  have v: "validate_sources plan sources = Inr ()"
    using assms(4) by (cases "validate_sources plan sources")
      (auto simp: apply_plan_def transformed_changes_def)
  then have src: "\<forall>k. bt_get sources k = map_option pf_source (bt_get (fp_files plan) k)"
    by (simp add: validate_sources_iff [OF bt_ok_Some_files [OF assms(1)] assms(3)])
  let ?h = "\<lambda>k. splice_edits 0 (file_edits (selected_edits ds) k)"
  obtain out' where out': "apply_plan plan sources = Some (Inr out')" "bt_ok out'"
    "\<And>k. bt_get out' k = map_option (?h k) (bt_get sources k)"
    using apply_plan_built [OF assms(1,2,3) src] by blast
  have "out = sources \<longleftrightarrow> (\<forall>k. bt_get out k = bt_get sources k)"
    using out' assms(3,4) bt.ext_eq [of out sources] by auto
  also have "\<dots> \<longleftrightarrow> (\<forall>k f. bt_get (fp_files plan) k = Some f \<longrightarrow> pf_source f = ?h k (pf_source f))"
  proof -
    have "bt_get out k = bt_get sources k \<longleftrightarrow>
        (\<forall>f. bt_get (fp_files plan) k = Some f \<longrightarrow> pf_source f = ?h k (pf_source f))" for k
      using out'(1) out'(3) [of k] assms(4) src by (cases "bt_get (fp_files plan) k") auto
    then show ?thesis by blast
  qed
  also have "\<dots> \<longleftrightarrow> filter (\<lambda>c. pc_before c \<noteq> pc_after c) (map (\<lambda>(k, f).
      \<lparr>pc_file = k, pc_before = pf_source f, pc_after = ?h k (pf_source f)\<rparr>) (fp_files plan)) = []"
  proof -
    have "filter (\<lambda>c. pc_before c \<noteq> pc_after c) (map (\<lambda>(k, f).
        \<lparr>pc_file = k, pc_before = pf_source f, pc_after = ?h k (pf_source f)\<rparr>) m) = [] \<longleftrightarrow>
        (\<forall>k f. (k, f) \<in> set m \<longrightarrow> pf_source f = ?h k (pf_source f))" for m
      by (induction m) (auto, blast)
    from this [of "fp_files plan"] show ?thesis
      unfolding bt_get_in_set [OF bt_ok_Some_files [OF assms(1)]] by blast
  qed
  finally show ?thesis
    by (simp add: check_def preview_def transformed_built [OF assms(1) wf v])
qed


section \<open>Conflicts\<close>

definition sample_edit :: "nat \<Rightarrow> nat \<Rightarrow> string \<Rightarrow> text_edit" where
  "sample_edit a b t = \<lparr>edit_file = FileId 0, edit_span = text_range a b, new_text = t\<rparr>"

definition sample_fix :: "string \<Rightarrow> text_edit list \<Rightarrow> diagnostic" where
  "sample_fix title edits =
     builder_fix \<lparr>fix_title = title, applicability = MachineApplicable, provenance = SyntaxOnly,
         fix_edits = edits\<rparr>
       (diagnostic_builder MalformedSyntax Error ''sample'' (label_new (FileId 0) (text_range 0 0)))"

definition sample_files :: "planned_file list" where
  "sample_files = [\<lparr>pf_file = FileId 0, pf_source = ''abcdefgh''\<rparr>]"

text \<open>The reported conflict pair does depend on the order of the diagnostics: candidates are
  sorted by their first edit and title only, and two fixes that share both keep the order in which
  they were produced. Swapping them below changes the reported first fix.\<close>

theorem conflict_pair_order_dependent:
  "build sample_files
     [sample_fix ''c'' [sample_edit 0 1 ''X'', sample_edit 4 5 ''X''],
      sample_fix ''t'' [sample_edit 2 3 ''Y'', sample_edit 4 5 ''Y''],
      sample_fix ''t'' [sample_edit 2 3 ''Z'', sample_edit 6 7 ''Z'']] =
     Inl (Conflict (FileId 0) ''c'' ''t'') \<and>
   build sample_files
     [sample_fix ''c'' [sample_edit 0 1 ''X'', sample_edit 4 5 ''X''],
      sample_fix ''t'' [sample_edit 2 3 ''Z'', sample_edit 6 7 ''Z''],
      sample_fix ''t'' [sample_edit 2 3 ''Y'', sample_edit 4 5 ''Y'']] =
     Inl (Conflict (FileId 0) ''t'' ''t'')"
  by (rule conjI) code_simp+


section \<open>Witnesses\<close>

definition sample_diagnostics :: "diagnostic list" where
  "sample_diagnostics =
     [sample_fix ''u'' [sample_edit 3 3 ''ZZ''],
      sample_fix ''t'' [sample_edit 0 1 ''X'', sample_edit 5 7 []]]"

definition sample_plan :: fix_plan where
  "sample_plan = \<lparr>fp_files = [(FileId 0, \<lparr>pf_file = FileId 0, pf_source = ''abcdefgh''\<rparr>)],
     fp_edits = [(FileId 0, [sample_edit 0 1 ''X'', sample_edit 3 3 ''ZZ'', sample_edit 5 7 []])]\<rparr>"

definition sample_sources :: "(file_id, string) btree_map" where
  "sample_sources = [(FileId 0, ''abcdefgh'')]"

lemma sample_wf: "list_all wf_edit (selected_edits sample_diagnostics)"
  by code_simp

lemma sample_build: "build sample_files sample_diagnostics = Inr sample_plan"
  by code_simp

lemma sample_sources_ok: "bt_ok sample_sources"
  by code_simp

lemma sample_snapshots:
  "\<forall>k. bt_get sample_sources k = map_option pf_source (bt_get (fp_files sample_plan) k)"
  by (simp add: sample_sources_def sample_plan_def bt_get_def)

theorem validate_fix_exact_witness:
  "validate_fix ''t'' (file_map sample_files) [sample_edit 0 1 ''X'', sample_edit 5 7 []] = Inr ()"
proof -
  have "list_all wf_edit [sample_edit 0 1 ''X'', sample_edit 5 7 []]" by code_simp
  moreover have "list_all (edit_fits (file_map sample_files)) [sample_edit 0 1 ''X'', sample_edit 5 7 []]"
    by code_simp
  moreover have "strictly_after (sample_edit 0 1 ''X'') (sample_edit 5 7 [])" by code_simp
  ultimately show ?thesis
    using validate_fix_exact [of "[sample_edit 0 1 ''X'', sample_edit 5 7 []]"] by simp
qed

theorem build_succeeds_iff_witness: "compatible (selected_edits sample_diagnostics)"
  using build_succeeds_iff [OF sample_wf, of sample_files] sample_build by blast

theorem build_plan_edits_witness:
  "mset (concat (map snd (fp_edits sample_plan))) = mset (selected_edits sample_diagnostics)"
  using build_plan_edits [OF sample_wf sample_build] by blast

theorem build_order_independent_witness:
  "build sample_files (rev sample_diagnostics) = Inr sample_plan"
  by (rule build_order_independent [OF sample_wf sample_build]) simp

theorem apply_plan_splices_witness:
  "\<exists>out. apply_plan sample_plan sample_sources = Some (Inr out) \<and>
     bt_get out (FileId 0) = Some ''XbcZZdeh''"
proof -
  have "file_edits (selected_edits sample_diagnostics) (FileId 0) =
      [sample_edit 0 1 ''X'', sample_edit 3 3 ''ZZ'', sample_edit 5 7 []]" by code_simp
  moreover have "splice_edits 0 [sample_edit 0 1 ''X'', sample_edit 3 3 ''ZZ'', sample_edit 5 7 []]
      ''abcdefgh'' = ''XbcZZdeh''" by code_simp
  moreover have "bt_get sample_sources (FileId 0) = Some ''abcdefgh''" by code_simp
  ultimately show ?thesis
    using apply_plan_splices [OF sample_build sample_wf sample_sources_ok sample_snapshots] by auto
qed

theorem apply_plan_rejects_stale_witness:
  "\<exists>k. apply_plan sample_plan [(FileId 0, ''changed'')] = Some (Inl (StaleSource k)) \<or>
     apply_plan sample_plan [(FileId 0, ''changed'')] = Some (Inl (UnexpectedSource k))"
proof -
  have ok: "bt_ok [(FileId 0, ''changed'')]" by code_simp
  have "bt_get [(FileId 0, ''changed'')] (FileId 0) \<noteq>
      map_option pf_source (bt_get (fp_files sample_plan) (FileId 0))"
    by (simp add: bt_get_def sample_plan_def)
  then show ?thesis
    using apply_plan_rejects_stale [OF sample_build sample_wf ok] by (auto split: if_splits)
qed

theorem check_iff_changes_witness: "check sample_plan sample_sources = Some (Inr True)"
proof -
  have "apply_plan sample_plan sample_sources = Some (Inr [(FileId 0, ''XbcZZdeh'')])" by code_simp
  from check_iff_changes [OF sample_build sample_wf sample_sources_ok this] show ?thesis
    by (simp add: sample_sources_def)
qed

end
