(* ===== verification/BitMask.thy ===== *)
theory BitMask
  imports Prelude "HOL-Library.Word"
begin

unbundle bit_operations_syntax

text \<open>
  The dense bit mask over token ids of constrained decoding
  (\<^verbatim>\<open>crates/pure-analyzer-purecard/src/mask.rs\<close>): 64-bit words, bit \<open>i\<close> at position \<open>i mod 64\<close> of
  word \<open>i div 64\<close>. Token ids are natural numbers below \<open>2 ^ 32\<close>. The mask refines a finite set
  of ids; the locale \<open>id_set\<close> is the interface the decoder uses it through.
\<close>

section \<open>Operations\<close>

record bit_mask =
  bm_words :: "64 word list"
  bm_len :: nat

definition WORD_BITS :: nat where "WORD_BITS = 64"

definition div_ceil :: "nat \<Rightarrow> nat \<Rightarrow> nat" where
  "div_ceil a b = (a + b - 1) div b"

definition locate :: "nat \<Rightarrow> nat \<times> nat" where
  "locate i = (i div WORD_BITS, i mod WORD_BITS)"

definition with_len :: "nat \<Rightarrow> bit_mask" where
  "with_len len = \<lparr>bm_words = replicate (div_ceil len WORD_BITS) 0, bm_len = len\<rparr>"

definition bm_is_empty :: "bit_mask \<Rightarrow> bool" where
  "bm_is_empty m \<longleftrightarrow> bm_len m = 0"

definition bm_set :: "nat \<Rightarrow> bit_mask \<Rightarrow> bit_mask" where
  "bm_set i m =
     (if bm_len m \<le> i then m
      else let (word, pos) = locate i
           in m\<lparr>bm_words := (bm_words m)[word := (bm_words m ! word) OR push_bit pos 1]\<rparr>)"

definition bm_clear :: "nat \<Rightarrow> bit_mask \<Rightarrow> bit_mask" where
  "bm_clear i m =
     (if bm_len m \<le> i then m
      else let (word, pos) = locate i
           in m\<lparr>bm_words := (bm_words m)[word := (bm_words m ! word) AND NOT (push_bit pos 1)]\<rparr>)"

definition bm_test :: "nat \<Rightarrow> bit_mask \<Rightarrow> bool" where
  "bm_test i m =
     (if bm_len m \<le> i then False
      else let (word, pos) = locate i
           in drop_bit pos (bm_words m ! word) AND 1 = 1)"

definition clear_all :: "bit_mask \<Rightarrow> bit_mask" where
  "clear_all m = m\<lparr>bm_words := map (\<lambda>_. 0) (bm_words m)\<rparr>"

text \<open>The loops over \<^verbatim>\<open>zip\<close> leave words without a partner as they are.\<close>

definition bm_intersect :: "bit_mask \<Rightarrow> bit_mask \<Rightarrow> bit_mask" where
  "bm_intersect other m =
     m\<lparr>bm_words := map (\<lambda>(word, mask). word AND mask) (zip (bm_words m) (bm_words other)) @
         drop (length (bm_words other)) (bm_words m)\<rparr>"

definition copy_from :: "bit_mask \<Rightarrow> bit_mask \<Rightarrow> bit_mask" where
  "copy_from other m =
     m\<lparr>bm_words := map (\<lambda>(dst, src). src) (zip (bm_words m) (bm_words other)) @
         drop (length (bm_words other)) (bm_words m)\<rparr>"

definition to_le_bytes :: "64 word \<Rightarrow> 8 word list" where
  "to_le_bytes w = map (\<lambda>k. ucast (drop_bit (8 * k) w)) [0..<8]"

definition pack_le_bytes_into :: "bit_mask \<Rightarrow> 8 word list" where
  "pack_le_bytes_into m =
     (let buf = replicate (div_ceil (bm_len m) 8) 0
      in fold (\<lambda>(word_idx, word) buf.
           let base = word_idx * 8
           in fold (\<lambda>(offset, byte) buf.
                if base + offset < length buf then buf[base + offset := byte] else buf)
              (enumerate 0 (to_le_bytes word)) buf)
         (enumerate 0 (bm_words m)) buf)"

definition iter_ones :: "bit_mask \<Rightarrow> nat list" where
  "iter_ones m =
     concat (map (\<lambda>(word, bits).
         let base = word * WORD_BITS
         in map (\<lambda>pos. base + pos) (filter (\<lambda>pos. bits AND push_bit pos 1 \<noteq> 0) [0..<WORD_BITS]))
       (enumerate 0 (bm_words m)))"


section \<open>The mask as a set of ids\<close>

text \<open>The fields are private: every mask has the words for its length and no bit beyond it.\<close>

definition mask_bit :: "bit_mask \<Rightarrow> nat \<Rightarrow> bool" where
  "mask_bit m i \<longleftrightarrow> i div 64 < length (bm_words m) \<and> bit (bm_words m ! (i div 64)) (i mod 64)"

definition mask_ok :: "bit_mask \<Rightarrow> bool" where
  "mask_ok m \<longleftrightarrow> length (bm_words m) = div_ceil (bm_len m) 64 \<and> (\<forall>i. mask_bit m i \<longrightarrow> i < bm_len m)"

lemma word_index: "i < n \<Longrightarrow> i div 64 < div_ceil n 64"
  by (simp add: div_ceil_def)

lemma bm_test_bit: "bm_test i m \<longleftrightarrow> i < bm_len m \<and> bit (bm_words m ! (i div 64)) (i mod 64)"
  by (simp add: bm_test_def locate_def WORD_BITS_def bit_iff_and_drop_bit_eq_1)

lemma bm_test_mask_bit: "mask_ok m \<Longrightarrow> bm_test i m \<longleftrightarrow> mask_bit m i"
  using word_index by (auto simp: bm_test_bit mask_ok_def mask_bit_def)

lemma bm_len_simps [simp]:
  "bm_len (with_len n) = n" "bm_len (bm_set i m) = bm_len m" "bm_len (bm_clear i m) = bm_len m"
  "bm_len (clear_all m) = bm_len m" "bm_len (bm_intersect k m) = bm_len m"
  "bm_len (copy_from k m) = bm_len m"
  by (simp_all add: with_len_def bm_set_def bm_clear_def clear_all_def bm_intersect_def
      copy_from_def Let_def case_prod_beta)

lemma same_position: "i div 64 = j div 64 \<Longrightarrow> i mod 64 = j mod 64 \<Longrightarrow> i = (j :: nat)"
  by (metis div_mult_mod_eq)

lemma with_len_ok: "mask_ok (with_len n)" and test_with_len: "\<not> bm_test i (with_len n)"
  by (auto simp: mask_ok_def mask_bit_def with_len_def WORD_BITS_def bm_test_bit
      intro!: word_index dest: word_index)

lemma mask_bit_set:
  assumes "mask_ok m"
  shows "mask_bit (bm_set i m) j \<longleftrightarrow> (j = i \<and> i < bm_len m) \<or> mask_bit m j"
  using assms word_index [of i "bm_len m"] same_position [of i j]
  by (auto simp: mask_bit_def bm_set_def locate_def WORD_BITS_def Let_def mask_ok_def nth_list_update
      bit_or_iff bit_exp_iff)

lemma mask_bit_clear:
  assumes "mask_ok m"
  shows "mask_bit (bm_clear i m) j \<longleftrightarrow> mask_bit m j \<and> j \<noteq> i"
  using assms word_index [of i "bm_len m"] same_position [of i j]
  by (auto simp: mask_bit_def bm_clear_def locate_def WORD_BITS_def Let_def mask_ok_def nth_list_update
      bit_and_iff bit_not_iff bit_exp_iff)


lemma set_ok: "mask_ok m \<Longrightarrow> mask_ok (bm_set i m)"
  using mask_bit_set [of m i]
  by (auto simp: mask_ok_def bm_set_def Let_def locate_def)

lemma clear_ok: "mask_ok m \<Longrightarrow> mask_ok (bm_clear i m)"
  using mask_bit_clear [of m i]
  by (auto simp: mask_ok_def bm_clear_def Let_def locate_def)

lemma mask_bit_intersect:
  "length (bm_words k) = length (bm_words m) \<Longrightarrow>
     mask_bit (bm_intersect k m) j \<longleftrightarrow> mask_bit m j \<and> mask_bit k j"
  by (auto simp: mask_bit_def bm_intersect_def bit_and_iff)

lemma mask_bit_copy:
  "length (bm_words k) = length (bm_words m) \<Longrightarrow> mask_bit (copy_from k m) j \<longleftrightarrow> mask_bit k j"
  by (auto simp: mask_bit_def copy_from_def)

lemma copy_same: "mask_ok k \<Longrightarrow> mask_ok m \<Longrightarrow> bm_len k = bm_len m \<Longrightarrow> copy_from k m = k"
proof -
  have "map (\<lambda>(dst, src). src) (zip ws vs) = vs" if "length vs = length ws" for ws vs :: "64 word list"
    using that by (intro nth_equalityI) auto
  then show "mask_ok k \<Longrightarrow> mask_ok m \<Longrightarrow> bm_len k = bm_len m \<Longrightarrow> copy_from k m = k"
    by (auto simp: mask_ok_def copy_from_def intro: bit_mask.equality)
qed

text \<open>
  What the decoder relies on: an operation that allocates a mask of a given length, tests, sets
  and clears ids, and copies or intersects masks of one length.
\<close>

locale id_set =
  fixes ok :: "'m \<Rightarrow> bool" and len :: "'m \<Rightarrow> nat" and new :: "nat \<Rightarrow> 'm"
    and test :: "nat \<Rightarrow> 'm \<Rightarrow> bool" and add :: "nat \<Rightarrow> 'm \<Rightarrow> 'm" and del :: "nat \<Rightarrow> 'm \<Rightarrow> 'm"
    and inter :: "'m \<Rightarrow> 'm \<Rightarrow> 'm" and copy :: "'m \<Rightarrow> 'm \<Rightarrow> 'm"
  assumes new_laws: "ok (new n)" "len (new n) = n" "\<not> test i (new n)"
    and add_laws: "ok m \<Longrightarrow> ok (add i m)" "ok m \<Longrightarrow> len (add i m) = len m"
      "ok m \<Longrightarrow> test j (add i m) \<longleftrightarrow> (j = i \<and> i < len m) \<or> test j m"
    and del_laws: "ok m \<Longrightarrow> ok (del i m)" "ok m \<Longrightarrow> len (del i m) = len m"
      "ok m \<Longrightarrow> test j (del i m) \<longleftrightarrow> test j m \<and> j \<noteq> i"
    and inter_laws: "ok m \<Longrightarrow> ok k \<Longrightarrow> len k = len m \<Longrightarrow> ok (inter k m)"
      "ok m \<Longrightarrow> ok k \<Longrightarrow> len k = len m \<Longrightarrow> len (inter k m) = len m"
      "ok m \<Longrightarrow> ok k \<Longrightarrow> len k = len m \<Longrightarrow> test j (inter k m) \<longleftrightarrow> test j m \<and> test j k"
    and copy_laws: "ok m \<Longrightarrow> ok k \<Longrightarrow> len k = len m \<Longrightarrow> ok (copy k m)"
      "ok m \<Longrightarrow> ok k \<Longrightarrow> len k = len m \<Longrightarrow> len (copy k m) = len m"
      "ok m \<Longrightarrow> ok k \<Longrightarrow> len k = len m \<Longrightarrow> test j (copy k m) \<longleftrightarrow> test j k"
begin

text \<open>Setting the ids of a list that pass a test, in any order.\<close>

lemma fold_add:
  "ok m \<Longrightarrow> ok (fold (\<lambda>i m. if P i then add i m else m) ids m) \<and>
     len (fold (\<lambda>i m. if P i then add i m else m) ids m) = len m \<and>
     (test j (fold (\<lambda>i m. if P i then add i m else m) ids m) \<longleftrightarrow>
       test j m \<or> (j \<in> set ids \<and> P j \<and> j < len m))"
  by (induction ids arbitrary: m) (auto simp: add_laws)

end

interpretation bm: id_set mask_ok bm_len with_len bm_test bm_set bm_clear bm_intersect copy_from
proof
  fix m k :: bit_mask and i j n :: nat
  show "mask_ok (with_len n)" by (rule with_len_ok)
  show "\<not> bm_test i (with_len n)" by (rule test_with_len)
  show "mask_ok m \<Longrightarrow> mask_ok (bm_set i m)" by (rule set_ok)
  show "mask_ok m \<Longrightarrow> mask_ok (bm_clear i m)" by (rule clear_ok)
  show "mask_ok m \<Longrightarrow> bm_test j (bm_set i m) \<longleftrightarrow> (j = i \<and> i < bm_len m) \<or> bm_test j m"
    using set_ok [of m i] by (simp add: bm_test_mask_bit mask_bit_set)
  show "mask_ok m \<Longrightarrow> bm_test j (bm_clear i m) \<longleftrightarrow> bm_test j m \<and> j \<noteq> i"
    using clear_ok [of m i] by (simp add: bm_test_mask_bit mask_bit_clear)
  assume ok: "mask_ok m" "mask_ok k" and len: "bm_len k = bm_len m"
  then have words: "length (bm_words k) = length (bm_words m)" by (simp add: mask_ok_def)
  have inter: "mask_ok (bm_intersect k m)"
    using ok len mask_bit_intersect [OF words] by (auto simp: mask_ok_def bm_intersect_def)
  then show "mask_ok (bm_intersect k m)" .
  show "bm_test j (bm_intersect k m) \<longleftrightarrow> bm_test j m \<and> bm_test j k"
    using inter ok mask_bit_intersect [OF words] by (simp add: bm_test_mask_bit)
  show "mask_ok (copy_from k m)" "bm_test j (copy_from k m) \<longleftrightarrow> bm_test j k"
    using ok copy_same [OF ok(2,1) len] by simp_all
qed simp_all


section \<open>Iteration and packing\<close>

lemma iter_words:
  "concat (map (\<lambda>(word, bits).
       let base = word * WORD_BITS
       in map (\<lambda>pos. base + pos) (filter (\<lambda>pos. bits AND push_bit pos 1 \<noteq> 0) [0..<WORD_BITS]))
     (enumerate 0 ws)) =
   filter (\<lambda>i. bit (ws ! (i div 64)) (i mod 64)) [0..<length ws * 64]"
proof (induction ws rule: rev_induct)
  case (snoc w ws)
  let ?n = "length ws"
  have upt: "[0..<Suc ?n * 64] = [0..<?n * 64] @ map (\<lambda>pos. ?n * 64 + pos) [0..<64]"
    using upt_add_eq_append [of 0 "?n * 64" 64] by (simp add: map_add_upt add.commute)
  have old: "filter (\<lambda>i. bit ((ws @ [w]) ! (i div 64)) (i mod 64)) [0..<?n * 64] =
      filter (\<lambda>i. bit (ws ! (i div 64)) (i mod 64)) [0..<?n * 64]"
    by (rule filter_cong) (simp_all add: nth_append less_mult_imp_div_less)
  have new: "filter (\<lambda>i. bit ((ws @ [w]) ! (i div 64)) (i mod 64)) (map (\<lambda>pos. ?n * 64 + pos) [0..<64]) =
      map (\<lambda>pos. ?n * 64 + pos) (filter (\<lambda>pos. w AND push_bit pos 1 \<noteq> 0) [0..<64])"
    by (auto simp: filter_map o_def nth_append bit_iff_and_push_bit_not_eq_0
        intro!: arg_cong [where f = "map _"] filter_cong)
  have "concat (map (\<lambda>(word, bits).
         let base = word * WORD_BITS
         in map (\<lambda>pos. base + pos) (filter (\<lambda>pos. bits AND push_bit pos 1 \<noteq> 0) [0..<WORD_BITS]))
       (enumerate 0 (ws @ [w]))) =
     filter (\<lambda>i. bit (ws ! (i div 64)) (i mod 64)) [0..<?n * 64] @
     map (\<lambda>pos. ?n * 64 + pos) (filter (\<lambda>pos. w AND push_bit pos 1 \<noteq> 0) [0..<64])"
    using snoc.IH by (simp add: enumerate_append_eq WORD_BITS_def Let_def)
  then show ?case
    by (simp only: length_append length_Cons list.size add_0_right add_Suc_right upt filter_append old new)
qed simp

lemma filter_upt_prefix: "\<forall>i. P i \<longrightarrow> i < n \<Longrightarrow> n \<le> k \<Longrightarrow> filter P [0..<k] = filter P [0..<n]"
proof -
  assume P: "\<forall>i. P i \<longrightarrow> i < n" and "n \<le> k"
  then have "[0..<k] = [0..<n] @ [n..<k]" using upt_add_eq_append [of 0 n "k - n"] by simp
  moreover have "filter P [n..<k] = []" using P by (auto simp: filter_empty_conv)
  ultimately show ?thesis by simp
qed

lemma iter_ones_filter: "mask_ok m \<Longrightarrow> iter_ones m = filter (\<lambda>i. bm_test i m) [0..<bm_len m]"
proof -
  assume ok: "mask_ok m"
  let ?k = "length (bm_words m) * 64"
  have k: "bm_len m \<le> ?k" using ok by (simp add: mask_ok_def div_ceil_def)
  have "filter (\<lambda>i. bit (bm_words m ! (i div 64)) (i mod 64)) [0..<?k] = filter (mask_bit m) [0..<?k]"
    by (rule filter_cong) (auto simp: mask_bit_def less_mult_imp_div_less)
  moreover have "filter (mask_bit m) [0..<?k] = filter (mask_bit m) [0..<bm_len m]"
    using ok k by (intro filter_upt_prefix) (auto simp: mask_ok_def)
  ultimately show ?thesis
    unfolding iter_ones_def iter_words bm_test_mask_bit [OF ok] by simp
qed


text \<open>Packing overwrites the bytes of one word after the other.\<close>

lemma fold_bytes:
  "length (fold (\<lambda>(offset, byte) buf. if base + offset < length buf then buf[base + offset := byte] else buf)
       (enumerate k bs) buf) = length buf \<and>
   (\<forall>p<length buf. fold (\<lambda>(offset, byte) buf.
       if base + offset < length buf then buf[base + offset := byte] else buf) (enumerate k bs) buf ! p =
     (if base + k \<le> p \<and> p < base + k + length bs then bs ! (p - (base + k)) else buf ! p))"
proof (induction bs arbitrary: k buf)
  case (Cons b bs)
  let ?buf = "if base + k < length buf then buf[base + k := b] else buf"
  have len: "length ?buf = length buf" by simp
  show ?case
    using Cons.IH [of "Suc k" ?buf]
    by (auto simp: nth_list_update nth_Cons' Suc_diff_le not_less_eq_eq le_Suc_eq)
qed auto

lemma fold_words:
  "length (fold (\<lambda>(word_idx, word) buf.
       let base = word_idx * 8
       in fold (\<lambda>(offset, byte) buf.
            if base + offset < length buf then buf[base + offset := byte] else buf)
          (enumerate 0 (to_le_bytes word)) buf) (enumerate k ws) buf) = length buf \<and>
   (\<forall>p<length buf. fold (\<lambda>(word_idx, word) buf.
       let base = word_idx * 8
       in fold (\<lambda>(offset, byte) buf.
            if base + offset < length buf then buf[base + offset := byte] else buf)
          (enumerate 0 (to_le_bytes word)) buf) (enumerate k ws) buf ! p =
     (if k * 8 \<le> p \<and> p < (k + length ws) * 8 then to_le_bytes (ws ! (p div 8 - k)) ! (p mod 8)
      else buf ! p))"
proof (induction ws arbitrary: k buf)
  case (Cons w ws)
  let ?buf = "fold (\<lambda>(offset, byte) buf.
      if k * 8 + offset < length buf then buf[k * 8 + offset := byte] else buf)
    (enumerate 0 (to_le_bytes w)) buf"
  have len: "length (to_le_bytes w) = 8" by (simp add: to_le_bytes_def)
  have buf: "length ?buf = length buf"
    "\<forall>p<length buf. ?buf ! p = (if k * 8 \<le> p \<and> p < k * 8 + 8 then to_le_bytes w ! (p - k * 8) else buf ! p)"
    using fold_bytes [of "k * 8" 0 "to_le_bytes w" buf] len by simp_all
  have word: "p div 8 = k \<and> p mod 8 = p - k * 8" if "k * 8 \<le> p" "p < k * 8 + 8" for p
  proof -
    have "p div 8 = k" using that by (intro div_nat_eqI) simp_all
    then show ?thesis by (simp add: minus_div_mult_eq_mod [symmetric])
  qed
  have later: "p div 8 - k = Suc (p div 8 - Suc k)" if "Suc k * 8 \<le> p" for p
  proof -
    have "Suc k \<le> p div 8" using that by (simp only: less_eq_div_iff_mult_less_eq)
    then show ?thesis by linarith
  qed
  note IH = Cons.IH [of "Suc k" ?buf, unfolded buf(1)]
  show ?case (is "length ?r = _ \<and> (\<forall>p<_. ?r ! p = _)")
  proof (intro conjI allI impI)
    have r: "?r = fold (\<lambda>(word_idx, word) buf.
       let base = word_idx * 8
       in fold (\<lambda>(offset, byte) buf.
            if base + offset < length buf then buf[base + offset := byte] else buf)
          (enumerate 0 (to_le_bytes word)) buf) (enumerate (Suc k) ws) ?buf"
      by (simp add: Let_def)
    show "length ?r = length buf" unfolding r using IH by blast
    fix p assume p: "p < length buf"
    have r_p: "?r ! p = (if Suc k * 8 \<le> p \<and> p < (Suc k + length ws) * 8
        then to_le_bytes (ws ! (p div 8 - Suc k)) ! (p mod 8) else ?buf ! p)"
      unfolding r using IH p by blast
    have "p < k * 8 \<or> (k * 8 \<le> p \<and> p < k * 8 + 8) \<or> Suc k * 8 \<le> p" by simp linarith
    then consider "p < k * 8" | "k * 8 \<le> p" "p < k * 8 + 8" | "Suc k * 8 \<le> p" by blast
    then show "?r ! p = (if k * 8 \<le> p \<and> p < (k + length (w # ws)) * 8
        then to_le_bytes ((w # ws) ! (p div 8 - k)) ! (p mod 8) else buf ! p)"
      unfolding r_p using buf(2) p word [of p] later [of p] by cases simp_all
  qed
qed auto


lemma pack_bytes:
  assumes "p < div_ceil (bm_len m) 8" and ok: "mask_ok m"
  shows "pack_le_bytes_into m ! p = ucast (drop_bit (8 * (p mod 8)) (bm_words m ! (p div 8)))"
proof -
  have p: "p < length (bm_words m) * 8"
    using assms by (simp add: mask_ok_def div_ceil_def)
  have "pack_le_bytes_into m ! p = to_le_bytes (bm_words m ! (p div 8)) ! (p mod 8)"
    unfolding pack_le_bytes_into_def Let_def
    using fold_words [of 0 "bm_words m" "replicate (div_ceil (bm_len m) 8) 0"] assms(1) p
    by (simp add: Let_def)
  then show ?thesis by (simp add: to_le_bytes_def)
qed

lemma length_pack: "length (pack_le_bytes_into m) = div_ceil (bm_len m) 8"
  unfolding pack_le_bytes_into_def Let_def
  using fold_words [of 0 "bm_words m" "replicate (div_ceil (bm_len m) 8) 0"] by (simp add: Let_def)

lemma pack_bit:
  assumes ok: "mask_ok m" and p: "p < div_ceil (bm_len m) 8" and k: "k < 8"
  shows "bit (pack_le_bytes_into m ! p) k \<longleftrightarrow> bm_test (8 * p + k) m"
proof -
  have "(8 * p + k) div 64 = p div 8"
    using k by (simp add: div_mult2_eq [of _ 8 8, simplified])
  moreover have "(8 * p + k) mod 64 = 8 * (p mod 8) + k"
    using k mod_mult2_eq [of "8 * p + k" 8 8] by simp
  moreover have "p div 8 < length (bm_words m)"
    using p ok by (simp add: mask_ok_def div_ceil_def)
  ultimately show ?thesis
    using k pack_bytes [OF p ok]
    by (simp add: bm_test_mask_bit [OF ok] mask_bit_def bit_simps)
qed


section \<open>Properties\<close>

definition mask_ids :: "bit_mask \<Rightarrow> nat set" where
  "mask_ids m = {i. bm_test i m}"

text \<open>A bit mask refines a set of token ids: a fresh mask is empty, setting and clearing change
  exactly one id and nothing when the id is out of range, intersecting and copying masks of one
  length are the set operations, whatever word an id falls in.\<close>

theorem mask_refines_set:
  assumes "mask_ok m" and "mask_ok k" and "bm_len k = bm_len m"
  shows "mask_ids (with_len n) = {} \<and>
    mask_ids (bm_set i m) = mask_ids m \<union> ({i} \<inter> {..<bm_len m}) \<and>
    mask_ids (bm_clear i m) = mask_ids m - {i} \<and>
    mask_ids (clear_all m) = {} \<and>
    mask_ids (bm_intersect k m) = mask_ids m \<inter> mask_ids k \<and>
    mask_ids (copy_from k m) = mask_ids k"
proof -
  have "mask_ids (clear_all m) = {}"
    using assms(1) word_index by (auto simp: mask_ids_def bm_test_bit clear_all_def mask_ok_def)
  with assms show ?thesis
    by (auto simp: mask_ids_def bm.new_laws bm.add_laws bm.del_laws bm.inter_laws bm.copy_laws)
qed

text \<open>The three views of a mask agree: iteration lists exactly the ids that test as set, in
  increasing order and once each, and bit \<open>i mod 8\<close> of byte \<open>i div 8\<close> of the packed form is the test
  of id \<open>i\<close>, with no stray bit in the last byte.\<close>

theorem mask_views_agree:
  assumes "mask_ok m"
  shows "iter_ones m = filter (\<lambda>i. bm_test i m) [0..<bm_len m] \<and>
    length (pack_le_bytes_into m) = div_ceil (bm_len m) 8 \<and>
    list_all (\<lambda>i. bit (pack_le_bytes_into m ! (i div 8)) (i mod 8) \<longleftrightarrow> bm_test i m)
      [0..<8 * div_ceil (bm_len m) 8]"
proof -
  have "bit (pack_le_bytes_into m ! (i div 8)) (i mod 8) \<longleftrightarrow> bm_test i m"
    if "i < 8 * div_ceil (bm_len m) 8" for i
    using pack_bit [OF assms, of "i div 8" "i mod 8"] that by (simp add: less_mult_imp_div_less mult.commute)
  then show ?thesis using iter_ones_filter [OF assms] by (simp add: length_pack list_all_iff)
qed

theorem mask_refines_set_witness:
  "mask_ids (bm_set 65 (with_len 70)) = {65} \<and>
   mask_ids (bm_intersect (with_len 70) (bm_set 65 (with_len 70))) = {}"
proof -
  have "mask_ids (with_len 70) = {}" by (simp add: mask_ids_def bm.new_laws)
  with mask_refines_set [OF bm.new_laws(1) bm.new_laws(1), of 70 70 0 65]
    mask_refines_set [OF bm.add_laws(1) [OF bm.new_laws(1)] bm.new_laws(1), of 70 65 70 0 0]
  show ?thesis by simp
qed

theorem mask_views_agree_witness:
  "iter_ones (bm_set 65 (with_len 70)) = filter (\<lambda>i. bm_test i (bm_set 65 (with_len 70))) [0..<70]"
  using mask_views_agree [OF bm.add_laws(1) [OF bm.new_laws(1)], of 65 70] by simp

end
