(* ===== verification/Pushdown.thy ===== *)
theory Pushdown
  imports Prelude
begin

text \<open>
  What the two byte automata of constrained decoding share: the outcome of a transition and the
  driver loops, which \<^verbatim>\<open>grammar/pda.rs\<close> (fixed grammar) and \<^verbatim>\<open>grammar/compile.rs\<close> (grammar from a
  specification) of \<^verbatim>\<open>crates/pure-analyzer-purecard/src\<close> repeat for their own transition function.
  The loops take the transition function as an argument. A byte is a \<open>char\<close>; the stack is a list
  with its top at the head.

  The locale \<open>pushdown\<close> states what makes the token partition of the mask cache sound: a
  transition that succeeds on the empty stack is the same on every stack.
\<close>

section \<open>Byte classes of the standard library\<close>

definition is_ascii_digit :: "char \<Rightarrow> bool" where
  "is_ascii_digit b \<longleftrightarrow> (let n = (of_char b :: nat) in 48 \<le> n \<and> n \<le> 57)"

definition is_ascii_alphabetic :: "char \<Rightarrow> bool" where
  "is_ascii_alphabetic b \<longleftrightarrow> (let n = (of_char b :: nat) in (65 \<le> n \<and> n \<le> 90) \<or> (97 \<le> n \<and> n \<le> 122))"


section \<open>Transitions and driver loops\<close>

datatype ('f, 's) Step = Next 's | Push 'f 's | Pop 's | Dead

record probe =
  alive :: bool
  consulted_ambient :: bool

definition top_of :: "'f list \<Rightarrow> 'f option" where
  "top_of stack = (case stack of [] \<Rightarrow> None | f # _ \<Rightarrow> Some f)"

definition advance_with ::
    "('s \<Rightarrow> 'f option \<Rightarrow> char \<Rightarrow> ('f, 's) Step) \<Rightarrow> 's \<times> 'f list \<Rightarrow> char \<Rightarrow> ('s \<times> 'f list) option" where
  "advance_with step cfg byte =
     (let (state, stack) = cfg
      in case step state (top_of stack) byte of
           Next next \<Rightarrow> Some (next, stack)
         | Push frame next \<Rightarrow> Some (next, frame # stack)
         | Pop next \<Rightarrow> Some (next, tl stack)
         | Dead \<Rightarrow> None)"

text \<open>The clone-and-commit loop of \<^verbatim>\<open>try_accept_token\<close>: all bytes, or none.\<close>

fun fold_token ::
    "('s \<Rightarrow> 'f option \<Rightarrow> char \<Rightarrow> ('f, 's) Step) \<Rightarrow> char list \<Rightarrow> 's \<times> 'f list \<Rightarrow> ('s \<times> 'f list) option" where
  "fold_token step [] cfg = Some cfg"
| "fold_token step (byte # bytes) cfg =
     (case advance_with step cfg byte of
        None \<Rightarrow> None
      | Some cfg' \<Rightarrow> fold_token step bytes cfg')"

fun admits_with ::
    "('s \<Rightarrow> 'f option \<Rightarrow> char \<Rightarrow> ('f, 's) Step) \<Rightarrow> char list \<Rightarrow> 's \<Rightarrow> 'f list \<Rightarrow> bool" where
  "admits_with step [] state scratch = True"
| "admits_with step (byte # bytes) state scratch =
     (case step state (top_of scratch) byte of
        Next next \<Rightarrow> admits_with step bytes next scratch
      | Push frame next \<Rightarrow> admits_with step bytes next (frame # scratch)
      | Pop next \<Rightarrow> admits_with step bytes next (tl scratch)
      | Dead \<Rightarrow> False)"

fun probe_with ::
    "('s \<Rightarrow> 'f option \<Rightarrow> char \<Rightarrow> ('f, 's) Step) \<Rightarrow> 'f list \<Rightarrow> char list \<Rightarrow> 's \<Rightarrow> 'f list \<Rightarrow> probe" where
  "probe_with step frames [] state scratch = \<lparr>alive = True, consulted_ambient = False\<rparr>"
| "probe_with step frames (byte # bytes) state scratch =
     (case step state (top_of scratch) byte of
        Next next \<Rightarrow> probe_with step frames bytes next scratch
      | Push frame next \<Rightarrow> probe_with step frames bytes next (frame # scratch)
      | Pop next \<Rightarrow> probe_with step frames bytes next (tl scratch)
      | Dead \<Rightarrow> \<lparr>alive = False,
          consulted_ambient = (scratch = [] \<and> list_ex (\<lambda>f. step state (Some f) byte \<noteq> Dead) frames)\<rparr>)"

lemma top_of_simps [simp]: "top_of [] = None" "top_of (f # st) = Some f"
  by (simp_all add: top_of_def)

lemma admits_fold: "admits_with step bytes state stack \<longleftrightarrow> fold_token step bytes (state, stack) \<noteq> None"
  by (induction step bytes state stack rule: admits_with.induct)
    (auto simp: advance_with_def split: Step.splits)

lemma fold_token_append:
  "fold_token step (xs @ ys) cfg = Option.bind (fold_token step xs cfg) (fold_token step ys)"
  by (induction step xs cfg rule: fold_token.induct) (auto split: option.splits)

lemma alive_admits: "alive (probe_with step frames bytes state stack) \<longleftrightarrow> admits_with step bytes state stack"
  by (induction step frames bytes state stack rule: probe_with.induct) (auto split: Step.splits)


section \<open>Independence of the ambient stack\<close>

locale pushdown =
  fixes step :: "'s \<Rightarrow> 'f option \<Rightarrow> char \<Rightarrow> ('f, 's) Step" and frames :: "'f list"
  assumes ambient: "step s None b \<noteq> Dead \<Longrightarrow> step s (Some f) b = step s None b"
    and no_pop: "step s None b \<noteq> Pop t"
    and frames_complete: "step s (Some f) b \<noteq> Dead \<Longrightarrow> f \<in> set frames"
begin

lemma ambient_top: "step s None b \<noteq> Dead \<Longrightarrow> step s (top_of stack) b = step s None b"
  by (cases stack) (simp_all add: ambient)

text \<open>A token that survives on a local stack survives, and acts alike, on top of any other stack.\<close>

lemma survivor:
  "admits_with step bytes s local \<Longrightarrow> admits_with step bytes s (local @ stack)"
proof (induction bytes arbitrary: s "local")
  case (Cons b bytes)
  show ?case
  proof (cases "local")
    case Nil
    with Cons show ?thesis using ambient_top [of s b stack] no_pop [of s b]
      by (auto split: Step.splits) (metis append_Cons append_Nil)+
  next
    case (Cons f st)
    with Cons.prems Cons.IH show ?thesis by (auto split: Step.splits) (metis append_Cons)+
  qed
qed simp

text \<open>A token that dies without looking below its own frames dies on every stack.\<close>

lemma dead_token:
  "\<not> alive (probe_with step frames bytes s local) \<Longrightarrow>
     \<not> consulted_ambient (probe_with step frames bytes s local) \<Longrightarrow>
     \<not> admits_with step bytes s (local @ stack)"
proof (induction bytes arbitrary: s "local")
  case (Cons b bytes)
  show ?case
  proof (cases "local")
    case Nil
    show ?thesis
    proof (cases "step s None b = Dead")
      case True
      with Cons.prems Nil have "\<forall>f\<in>set frames. step s (Some f) b = Dead"
        by (simp add: list_ex_iff)
      then have "step s (top_of stack) b = Dead"
        using True frames_complete by (cases stack) force+
      with Nil show ?thesis by simp
    next
      case False
      with Cons Nil show ?thesis using ambient_top [of s b stack] no_pop [of s b]
        by (auto split: Step.splits) (metis append_Cons append_Nil)+
    qed
  next
    case (Cons f st)
    with Cons.prems Cons.IH show ?thesis by (auto split: Step.splits) (metis append_Cons)+
  qed
qed simp

text \<open>
  The partition of the mask cache: the verdict of a token that was not deferred is its verdict
  on every stack, and a deferred token is dead on the empty one.
\<close>

lemma partition_exact:
  assumes "\<not> consulted_ambient (probe_with step frames bytes s [])"
  shows "admits_with step bytes s stack \<longleftrightarrow> alive (probe_with step frames bytes s [])"
  using survivor [of bytes s "[]" stack] dead_token [OF _ assms, of stack]
  by (auto simp: alive_admits)

lemma deferred_dead:
  "consulted_ambient (probe_with step frames bytes s local) \<Longrightarrow> \<not> admits_with step bytes s local"
  by (induction bytes arbitrary: s "local") (auto split: Step.splits)

end

end
