(* ===== verification/FixedPda.thy ===== *)
theory FixedPda
  imports Pushdown
begin

text \<open>
  The hand-written byte automaton of the emitted-Pure grammar
  (\<^verbatim>\<open>crates/pure-analyzer-purecard/src/grammar/pda.rs\<close>), function by function. A \<^verbatim>\<open>match\<close> on the byte
  is a chain of conditionals in the order of its arms. Where a function delegates a byte to
  another state by calling \<^verbatim>\<open>step\<close> again, the model calls that state's function directly, which is
  the arm \<^verbatim>\<open>step\<close> selects.
\<close>

section \<open>States and frames\<close>


datatype (plugins only: size) State =
    Start | ExpectSource | AfterBraceOpen | BlockStmt | BlockStmtClose | InSourceIdent
  | SourceColon | SourceColon2 | SourceDash | LetL | LetLe | LetLet | ExpectBinder | InBinder
  | AfterBinder | InMultiplicity | ExpectBraceBinder | AfterColonWs | ExpectValue
  | ExpectValueReq | AfterValue | AfterName | AfterMemberName | AfterStrLit | InIdent
  | InMemberIdent | SawNumSign | InNumberInt | NeedFracDigit | InNumberFrac | SawExp
  | NeedExpDigit | InExp | InStrLit bool | SawPercent | InDateLit | DateSep | InDateTime
  | DateTimeSep | DateFrac | InDateFrac | MilestoneL | MilestoneLa | MilestoneLat
  | MilestoneLate | MilestoneLates | InMilestoneLit | AfterDollar | AfterDot | AfterArrow
  | AfterColon | AfterValueColon | AfterColon2 | InBinderType | AfterBinderType
  | BinderTypeColon | BinderTypeColon2 | InBinderTypePath | AfterBinderTypePath
  | ExpectBinderMult | InBinderMult | AfterBinderMultToken | AfterBinderMult | ExpectLambdaBody
  | SawDash | SawPipe | SawValuePipe | SawEq | SawBang | SawGt | SawLt | SawAmp | SawTilde
  | ExpectBinderValue | InBinderValueIdent | ExpectBinderCallClose | InRelColIdent
  | InRelColStrLit bool | AfterRelColName | ExpectRelColSpec | ExpectRelColSpecReq
  | AfterRelColColon | InRelColLambdaBinder | AfterRelColLambdaBinder | InArrowIdent
  | AfterArrowName | InRelAggReduceBinder | AfterRelAggReduceBinder

datatype Frame = Paren | Group | Bracket | Brace | BraceLambda | RelColBracket

primrec state_name :: "State \<Rightarrow> string" where
  "state_name Start = ''Start''" | "state_name ExpectSource = ''ExpectSource''"
| "state_name AfterBraceOpen = ''AfterBraceOpen''" | "state_name BlockStmt = ''BlockStmt''"
| "state_name BlockStmtClose = ''BlockStmtClose''"
| "state_name InSourceIdent = ''InSourceIdent''" | "state_name SourceColon = ''SourceColon''"
| "state_name SourceColon2 = ''SourceColon2''" | "state_name SourceDash = ''SourceDash''"
| "state_name LetL = ''LetL''" | "state_name LetLe = ''LetLe''" | "state_name LetLet = ''LetLet''"
| "state_name ExpectBinder = ''ExpectBinder''" | "state_name InBinder = ''InBinder''"
| "state_name AfterBinder = ''AfterBinder''"
| "state_name ExpectBinderValue = ''ExpectBinderValue''"
| "state_name InBinderValueIdent = ''InBinderValueIdent''"
| "state_name ExpectBinderCallClose = ''ExpectBinderCallClose''"
| "state_name InMultiplicity = ''InMultiplicity''"
| "state_name ExpectBraceBinder = ''ExpectBraceBinder''"
| "state_name AfterColonWs = ''AfterColonWs''" | "state_name ExpectValue = ''ExpectValue''"
| "state_name ExpectValueReq = ''ExpectValueReq''" | "state_name AfterValue = ''AfterValue''"
| "state_name AfterName = ''AfterName''" | "state_name AfterMemberName = ''AfterMemberName''"
| "state_name AfterStrLit = ''AfterStrLit''" | "state_name InIdent = ''InIdent''"
| "state_name InMemberIdent = ''InMemberIdent''" | "state_name SawNumSign = ''SawNumSign''"
| "state_name InNumberInt = ''InNumberInt''" | "state_name NeedFracDigit = ''NeedFracDigit''"
| "state_name InNumberFrac = ''InNumberFrac''" | "state_name SawExp = ''SawExp''"
| "state_name NeedExpDigit = ''NeedExpDigit''" | "state_name InExp = ''InExp''"
| "state_name (InStrLit escaped) = (if escaped then ''InStrLit(pendingQuote)'' else ''InStrLit'')"
| "state_name SawPercent = ''SawPercent''" | "state_name InDateLit = ''InDateLit''"
| "state_name DateSep = ''DateSep''" | "state_name InDateTime = ''InDateTime''"
| "state_name DateTimeSep = ''DateTimeSep''" | "state_name DateFrac = ''DateFrac''"
| "state_name InDateFrac = ''InDateFrac''" | "state_name MilestoneL = ''MilestoneL''"
| "state_name MilestoneLa = ''MilestoneLa''" | "state_name MilestoneLat = ''MilestoneLat''"
| "state_name MilestoneLate = ''MilestoneLate''"
| "state_name MilestoneLates = ''MilestoneLates''"
| "state_name InMilestoneLit = ''InMilestoneLit''" | "state_name AfterDollar = ''AfterDollar''"
| "state_name AfterDot = ''AfterDot''" | "state_name AfterArrow = ''AfterArrow''"
| "state_name AfterColon = ''AfterColon''" | "state_name AfterValueColon = ''AfterValueColon''"
| "state_name AfterColon2 = ''AfterColon2''" | "state_name InBinderType = ''InBinderType''"
| "state_name AfterBinderType = ''AfterBinderType''"
| "state_name BinderTypeColon = ''BinderTypeColon''"
| "state_name BinderTypeColon2 = ''BinderTypeColon2''"
| "state_name InBinderTypePath = ''InBinderTypePath''"
| "state_name AfterBinderTypePath = ''AfterBinderTypePath''"
| "state_name ExpectBinderMult = ''ExpectBinderMult''"
| "state_name InBinderMult = ''InBinderMult''"
| "state_name AfterBinderMultToken = ''AfterBinderMultToken''"
| "state_name AfterBinderMult = ''AfterBinderMult''"
| "state_name ExpectLambdaBody = ''ExpectLambdaBody''" | "state_name SawDash = ''SawDash''"
| "state_name SawPipe = ''SawPipe''" | "state_name SawValuePipe = ''SawValuePipe''"
| "state_name SawEq = ''SawEq''" | "state_name SawBang = ''SawBang''"
| "state_name SawGt = ''SawGt''" | "state_name SawLt = ''SawLt''"
| "state_name SawAmp = ''SawAmp''" | "state_name SawTilde = ''SawTilde''"
| "state_name InRelColIdent = ''InRelColIdent''"
| "state_name (InRelColStrLit escaped) = (if escaped then ''InRelColStrLit(pendingQuote)'' else ''InRelColStrLit'')"
| "state_name AfterRelColName = ''AfterRelColName''"
| "state_name ExpectRelColSpec = ''ExpectRelColSpec''"
| "state_name ExpectRelColSpecReq = ''ExpectRelColSpecReq''"
| "state_name AfterRelColColon = ''AfterRelColColon''"
| "state_name InRelColLambdaBinder = ''InRelColLambdaBinder''"
| "state_name AfterRelColLambdaBinder = ''AfterRelColLambdaBinder''"
| "state_name InArrowIdent = ''InArrowIdent''" | "state_name AfterArrowName = ''AfterArrowName''"
| "state_name InRelAggReduceBinder = ''InRelAggReduceBinder''"
| "state_name AfterRelAggReduceBinder = ''AfterRelAggReduceBinder''"

primrec state_index :: "State \<Rightarrow> nat" where
  "state_index Start = 0" | "state_index ExpectSource = 1" | "state_index AfterBraceOpen = 2"
| "state_index BlockStmt = 3" | "state_index BlockStmtClose = 4" | "state_index InSourceIdent = 5"
| "state_index SourceColon = 6" | "state_index SourceColon2 = 7" | "state_index SourceDash = 8"
| "state_index LetL = 9" | "state_index LetLe = 10" | "state_index LetLet = 11"
| "state_index ExpectBinder = 12" | "state_index InBinder = 13" | "state_index AfterBinder = 14"
| "state_index InMultiplicity = 15" | "state_index ExpectBraceBinder = 16"
| "state_index AfterColonWs = 17" | "state_index ExpectValue = 18"
| "state_index ExpectValueReq = 19" | "state_index AfterValue = 20" | "state_index InIdent = 21"
| "state_index SawNumSign = 22" | "state_index InNumberInt = 23"
| "state_index NeedFracDigit = 24" | "state_index InNumberFrac = 25"
| "state_index (InStrLit escaped) = (if escaped then 27 else 26)" | "state_index SawPercent = 28"
| "state_index InDateLit = 29" | "state_index AfterDollar = 30" | "state_index AfterDot = 31"
| "state_index AfterArrow = 32" | "state_index AfterColon = 33" | "state_index AfterColon2 = 34"
| "state_index SawDash = 35" | "state_index SawPipe = 36" | "state_index SawEq = 37"
| "state_index SawBang = 38" | "state_index SawGt = 39" | "state_index SawLt = 40"
| "state_index SawAmp = 41" | "state_index InMilestoneLit = 42" | "state_index SawTilde = 43"
| "state_index SawExp = 44" | "state_index NeedExpDigit = 45" | "state_index InExp = 46"
| "state_index AfterName = 47" | "state_index MilestoneL = 48" | "state_index MilestoneLa = 49"
| "state_index MilestoneLat = 50" | "state_index MilestoneLate = 51"
| "state_index MilestoneLates = 52" | "state_index InBinderType = 53"
| "state_index AfterBinderType = 54" | "state_index BinderTypeColon = 55"
| "state_index BinderTypeColon2 = 56" | "state_index ExpectBinderMult = 57"
| "state_index InBinderMult = 58" | "state_index AfterBinderMultToken = 59"
| "state_index AfterBinderMult = 60" | "state_index ExpectLambdaBody = 61"
| "state_index AfterMemberName = 62" | "state_index InMemberIdent = 63"
| "state_index AfterStrLit = 64" | "state_index DateSep = 65" | "state_index InDateTime = 66"
| "state_index DateTimeSep = 67" | "state_index DateFrac = 68" | "state_index InDateFrac = 69"
| "state_index SawValuePipe = 70" | "state_index InBinderTypePath = 71"
| "state_index AfterBinderTypePath = 72" | "state_index AfterValueColon = 73"
| "state_index ExpectBinderValue = 74" | "state_index InBinderValueIdent = 75"
| "state_index ExpectBinderCallClose = 76" | "state_index InRelColIdent = 77"
| "state_index (InRelColStrLit escaped) = (if escaped then 79 else 78)"
| "state_index AfterRelColName = 80" | "state_index ExpectRelColSpec = 81"
| "state_index ExpectRelColSpecReq = 82" | "state_index AfterRelColColon = 83"
| "state_index InRelColLambdaBinder = 84" | "state_index AfterRelColLambdaBinder = 85"
| "state_index InArrowIdent = 86" | "state_index AfterArrowName = 87"
| "state_index InRelAggReduceBinder = 88" | "state_index AfterRelAggReduceBinder = 89"

definition STATE_COUNT :: nat where "STATE_COUNT = 90"

definition ALL_STATES :: "State list" where
  "ALL_STATES =
     [Start, ExpectSource, AfterBraceOpen, BlockStmt, BlockStmtClose, InSourceIdent, SourceColon
  , SourceColon2, SourceDash, LetL, LetLe, LetLet, ExpectBinder, InBinder, AfterBinder
  , ExpectBinderValue, InBinderValueIdent, ExpectBinderCallClose, InMultiplicity
  , ExpectBraceBinder, AfterColonWs, ExpectValue, ExpectValueReq, AfterValue, AfterName
  , AfterMemberName, AfterStrLit, InIdent, InMemberIdent, SawNumSign, InNumberInt, NeedFracDigit
  , InNumberFrac, SawExp, NeedExpDigit, InExp, InStrLit False, InStrLit True, SawPercent
  , InDateLit, DateSep, InDateTime, DateTimeSep, DateFrac, InDateFrac, MilestoneL, MilestoneLa
  , MilestoneLat, MilestoneLate, MilestoneLates, InMilestoneLit, AfterDollar, AfterDot
  , AfterArrow, AfterColon, AfterValueColon, AfterColon2, InBinderType, AfterBinderType
  , BinderTypeColon, BinderTypeColon2, InBinderTypePath, AfterBinderTypePath, ExpectBinderMult
  , InBinderMult, AfterBinderMultToken, AfterBinderMult, ExpectLambdaBody, SawDash, SawPipe
  , SawValuePipe, SawEq, SawBang, SawGt, SawLt, SawAmp, SawTilde, InRelColIdent
  , InRelColStrLit False, InRelColStrLit True, AfterRelColName, ExpectRelColSpec
  , ExpectRelColSpecReq, AfterRelColColon, InRelColLambdaBinder, AfterRelColLambdaBinder
  , InArrowIdent, AfterArrowName, InRelAggReduceBinder, AfterRelAggReduceBinder]"

definition completes_a_term :: "State \<Rightarrow> bool" where
  "completes_a_term s \<longleftrightarrow> s \<in> {AfterValue, AfterName, AfterMemberName, AfterStrLit, AfterRelColName}"

definition ALL_FRAMES :: "Frame list" where
  "ALL_FRAMES = [Paren, Group, Bracket, Brace, BraceLambda, RelColBracket]"

primrec frame_name :: "Frame \<Rightarrow> string" where
  "frame_name Paren = ''Paren''" | "frame_name Group = ''Group''" | "frame_name Bracket = ''Bracket''"
| "frame_name Brace = ''Brace''" | "frame_name BraceLambda = ''BraceLambda''"
| "frame_name RelColBracket = ''RelColBracket''"

type_synonym pda_step = "(Frame, State) Step"


section \<open>Byte classes\<close>

definition is_ws :: "char \<Rightarrow> bool" where
  "is_ws b \<longleftrightarrow> b \<in> set [CHR '' '', CHR 0x09, CHR 0x0A, CHR 0x0D]"

definition is_ident_start :: "char \<Rightarrow> bool" where
  "is_ident_start b \<longleftrightarrow> is_ascii_alphabetic b \<or> b = CHR ''_''"

definition is_ident_tail :: "char \<Rightarrow> bool" where
  "is_ident_tail b \<longleftrightarrow> (is_ascii_alphabetic b \<or> is_ascii_digit b) \<or> b = CHR ''_''"

definition VALUE_BOUNDARY :: char where "VALUE_BOUNDARY = CHR '' ''"

definition MILESTONE_LATEST :: string where "MILESTONE_LATEST = ''latest''"

definition separates_elements :: "Frame option \<Rightarrow> bool" where
  "separates_elements stack_top \<longleftrightarrow>
     (case stack_top of Some f \<Rightarrow> f \<in> {Paren, Bracket, BraceLambda, RelColBracket} | None \<Rightarrow> False)"

definition holds_a_lambda_slot :: "Frame option \<Rightarrow> bool" where
  "holds_a_lambda_slot stack_top \<longleftrightarrow> separates_elements stack_top \<or> stack_top = Some Group"

definition close_to :: "Frame option \<Rightarrow> char \<Rightarrow> State \<Rightarrow> pda_step" where
  "close_to stack_top byte resume =
     (if (stack_top = Some Paren \<or> stack_top = Some Group) \<and> byte = CHR '')''
        \<or> (stack_top = Some Bracket \<or> stack_top = Some RelColBracket) \<and> byte = CHR '']''
        \<or> stack_top = Some Brace \<and> byte = CHR ''}''
        \<or> stack_top = Some BraceLambda \<and> byte = CHR ''}''
      then Pop resume else Dead)"


section \<open>The transition function, state by state\<close>


definition close :: "Frame option \<Rightarrow> char \<Rightarrow> pda_step" where
  "close stack_top byte =
     close_to stack_top byte AfterValue"

definition value_position :: "Frame option \<Rightarrow> char \<Rightarrow> bool \<Rightarrow> pda_step" where
  "value_position stack_top byte allow_close =
     (let ws_state = (if allow_close then ExpectValue else ExpectValueReq)
     in if is_ws byte then Next ws_state
     else if is_ident_start byte then Next InIdent
     else if is_ascii_digit byte then Next InNumberInt
     else if byte = CHR ''-'' then Next SawNumSign
     else if byte = CHR ''.'' then Next NeedFracDigit
     else if byte = CHR 0x27 then Next (InStrLit False)
     else if byte = CHR ''%'' then Next SawPercent
     else if byte = CHR ''$'' then Next AfterDollar
     else if byte = CHR ''~'' then Next SawTilde
     else if byte = CHR ''('' then Push Group ExpectValue
     else if byte = CHR ''['' then Push Bracket ExpectValue
     else if byte = CHR ''{'' then Push BraceLambda ExpectBraceBinder
     else if byte = CHR ''|'' then Next ExpectValueReq
     else if byte = CHR ''!'' then Next ExpectValueReq
     else if byte = CHR ''*'' \<and> allow_close \<and> stack_top = Some Bracket then Next InMultiplicity
     else if (byte = CHR '')'' \<or> byte = CHR '']'' \<or> byte = CHR ''}'') \<and> allow_close then close stack_top byte
     else Dead)"

definition rel_col_spec_position :: "Frame option \<Rightarrow> char \<Rightarrow> bool \<Rightarrow> pda_step" where
  "rel_col_spec_position stack_top byte allow_close =
     (let ws_state = (if allow_close then ExpectRelColSpec else ExpectRelColSpecReq)
     in if is_ws byte then Next ws_state
     else if is_ident_start byte then Next InRelColIdent
     else if byte = CHR 0x27 then Next (InRelColStrLit False)
     else if byte = CHR '']'' \<and> allow_close then close stack_top byte
     else Dead)"

definition step_expect_rel_col_spec :: "Frame option \<Rightarrow> char \<Rightarrow> pda_step" where
  "step_expect_rel_col_spec stack_top byte =
     rel_col_spec_position stack_top byte True"

definition step_expect_rel_col_spec_req :: "Frame option \<Rightarrow> char \<Rightarrow> pda_step" where
  "step_expect_rel_col_spec_req stack_top byte =
     rel_col_spec_position stack_top byte False"

definition block_stmt :: "Frame option \<Rightarrow> char \<Rightarrow> bool \<Rightarrow> pda_step" where
  "block_stmt stack_top byte allow_close =
     (let ws_state = (if allow_close then BlockStmtClose else BlockStmt)
     in if is_ws byte then Next ws_state
     else if byte = CHR ''l'' then Next LetL
     else if is_ident_start byte then Next InSourceIdent
     else if byte = CHR ''$'' then Next AfterDollar
     else if byte = CHR ''}'' \<and> allow_close then close stack_top byte
     else Dead)"

definition step_start :: "char \<Rightarrow> pda_step" where
  "step_start byte =
     (if is_ws byte then Next Start
     else if byte = CHR ''|'' then Next ExpectSource
     else if byte = CHR ''{'' then Push Brace AfterBraceOpen
     else Dead)"

definition step_expect_source :: "char \<Rightarrow> pda_step" where
  "step_expect_source byte =
     (if is_ws byte then Next ExpectSource
     else if is_ident_start byte then Next InSourceIdent
     else Dead)"

definition step_after_brace_open :: "char \<Rightarrow> pda_step" where
  "step_after_brace_open byte =
     (if is_ws byte then Next AfterBraceOpen
     else if byte = CHR ''|'' then Next BlockStmt
     else Dead)"

definition step_block_stmt :: "Frame option \<Rightarrow> char \<Rightarrow> pda_step" where
  "step_block_stmt stack_top byte =
     block_stmt stack_top byte False"

definition step_block_stmt_close :: "Frame option \<Rightarrow> char \<Rightarrow> pda_step" where
  "step_block_stmt_close stack_top byte =
     block_stmt stack_top byte True"

definition step_expect_value :: "Frame option \<Rightarrow> char \<Rightarrow> pda_step" where
  "step_expect_value stack_top byte =
     value_position stack_top byte True"

definition step_expect_value_req :: "Frame option \<Rightarrow> char \<Rightarrow> pda_step" where
  "step_expect_value_req stack_top byte =
     value_position stack_top byte False"

definition step_after_value :: "Frame option \<Rightarrow> char \<Rightarrow> pda_step" where
  "step_after_value stack_top byte =
     (if is_ws byte then Next AfterValue
     else if byte = CHR ''-'' then Next SawDash
     else if byte = CHR ''>'' then Next SawGt
     else if byte = CHR ''<'' then Next SawLt
     else if byte = CHR ''='' then Next SawEq
     else if byte = CHR ''!'' then Next SawBang
     else if byte = CHR ''&'' then Next SawAmp
     else if byte = CHR ''|'' then Next SawValuePipe
     else if byte = CHR ''+'' \<or> byte = CHR ''*'' \<or> byte = CHR ''/'' then Next ExpectValueReq
     else if byte = CHR ''.'' then Next AfterDot
     else if byte = CHR '':'' \<and> holds_a_lambda_slot stack_top then Next AfterValueColon
     else if byte = CHR '','' \<and> stack_top = Some RelColBracket then Next ExpectRelColSpecReq
     else if byte = CHR '','' \<and> separates_elements stack_top then Next ExpectValueReq
     else if byte = CHR '';'' \<and> stack_top = Some Brace then Next BlockStmtClose
     else if byte = CHR '')'' \<or> byte = CHR '']'' \<or> byte = CHR ''}'' then close stack_top byte
     else Dead)"

definition step_after_name :: "Frame option \<Rightarrow> char \<Rightarrow> pda_step" where
  "step_after_name stack_top byte =
     (if is_ws byte then Next AfterName
     else if byte = CHR ''('' then Push Paren ExpectValue
     else if byte = CHR ''|'' then Next SawPipe
     else if byte = CHR '':'' then Next AfterColon
     else step_after_value stack_top byte)"

definition step_in_ident :: "Frame option \<Rightarrow> char \<Rightarrow> pda_step" where
  "step_in_ident stack_top byte =
     (if is_ident_tail byte then Next InIdent
     else step_after_name stack_top byte)"

definition step_after_member_name :: "Frame option \<Rightarrow> char \<Rightarrow> pda_step" where
  "step_after_member_name stack_top byte =
     (if is_ws byte then Next AfterMemberName
     else if byte = CHR ''('' then Push Paren ExpectValue
     else step_after_value stack_top byte)"

definition step_in_member_ident :: "Frame option \<Rightarrow> char \<Rightarrow> pda_step" where
  "step_in_member_ident stack_top byte =
     (if is_ident_tail byte then Next InMemberIdent
     else step_after_member_name stack_top byte)"

definition step_after_arrow_name :: "char \<Rightarrow> pda_step" where
  "step_after_arrow_name byte =
     (if is_ws byte then Next AfterArrowName
     else if byte = CHR ''('' then Push Paren ExpectValue
     else Dead)"

definition step_in_arrow_ident :: "Frame option \<Rightarrow> char \<Rightarrow> pda_step" where
  "step_in_arrow_ident stack_top byte =
     (if is_ident_tail byte then Next InArrowIdent
     else step_after_arrow_name byte)"

definition step_after_str_lit :: "Frame option \<Rightarrow> char \<Rightarrow> pda_step" where
  "step_after_str_lit stack_top byte =
     (if is_ws byte then Next AfterStrLit
     else if byte = CHR ''|'' then Next SawPipe
     else if byte = CHR '':'' then Next AfterColon
     else step_after_value stack_top byte)"

definition step_after_rel_col_name :: "Frame option \<Rightarrow> char \<Rightarrow> pda_step" where
  "step_after_rel_col_name stack_top byte =
     (if is_ws byte then Next AfterRelColName
     else if byte = CHR '':'' then Next AfterRelColColon
     else if byte = CHR ''|'' then Dead
     else step_after_value stack_top byte)"

definition step_in_rel_col_ident :: "Frame option \<Rightarrow> char \<Rightarrow> pda_step" where
  "step_in_rel_col_ident stack_top byte =
     (if is_ident_tail byte then Next InRelColIdent
     else step_after_rel_col_name stack_top byte)"

definition step_in_rel_col_str_lit :: "bool \<Rightarrow> Frame option \<Rightarrow> char \<Rightarrow> pda_step" where
  "step_in_rel_col_str_lit escaped stack_top byte =
     (if escaped then (if byte = CHR 0x27 then Next (InRelColStrLit False)
     else step_after_rel_col_name stack_top byte)
     else if byte = CHR 0x27 then Next (InRelColStrLit True)
     else Next (InRelColStrLit False))"

definition step_after_rel_col_colon :: "char \<Rightarrow> pda_step" where
  "step_after_rel_col_colon byte =
     (if is_ws byte then Next AfterRelColColon
     else if byte = CHR ''{'' then Push BraceLambda ExpectBraceBinder
     else if is_ident_start byte then Next InRelColLambdaBinder
     else Dead)"

definition step_after_rel_col_lambda_binder :: "char \<Rightarrow> pda_step" where
  "step_after_rel_col_lambda_binder byte =
     (if is_ws byte then Next AfterRelColLambdaBinder
     else if byte = CHR ''|'' then Next SawPipe
     else Dead)"

definition step_in_rel_col_lambda_binder :: "char \<Rightarrow> pda_step" where
  "step_in_rel_col_lambda_binder byte =
     (if is_ident_tail byte then Next InRelColLambdaBinder
     else step_after_rel_col_lambda_binder byte)"

definition step_after_value_colon :: "char \<Rightarrow> pda_step" where
  "step_after_value_colon byte =
     (if is_ws byte then Next AfterValueColon
     else if is_ident_start byte then Next InRelAggReduceBinder
     else Dead)"

definition step_after_rel_agg_reduce_binder :: "char \<Rightarrow> pda_step" where
  "step_after_rel_agg_reduce_binder byte =
     (if is_ws byte then Next AfterRelAggReduceBinder
     else if byte = CHR ''|'' then Next SawPipe
     else Dead)"

definition step_in_rel_agg_reduce_binder :: "char \<Rightarrow> pda_step" where
  "step_in_rel_agg_reduce_binder byte =
     (if is_ident_tail byte then Next InRelAggReduceBinder
     else step_after_rel_agg_reduce_binder byte)"

definition source_ident :: "char \<Rightarrow> bool \<Rightarrow> pda_step" where
  "source_ident byte allow_call =
     (let self_state = (if allow_call then InBinderValueIdent else InSourceIdent)
     in if is_ident_tail byte then Next self_state
     else if byte = CHR ''.'' then Next AfterDot
     else if byte = CHR ''-'' then Next SourceDash
     else if byte = CHR '':'' then Next SourceColon
     else if byte = CHR ''('' \<and> allow_call then Push Paren ExpectBinderCallClose
     else Dead)"

definition step_in_source_ident :: "char \<Rightarrow> pda_step" where
  "step_in_source_ident byte =
     source_ident byte False"

definition step_in_binder_value_ident :: "char \<Rightarrow> pda_step" where
  "step_in_binder_value_ident byte =
     source_ident byte True"

definition step_source_colon :: "char \<Rightarrow> pda_step" where
  "step_source_colon byte =
     (if byte = CHR '':'' then Next SourceColon2
     else Dead)"

definition step_source_colon2 :: "char \<Rightarrow> pda_step" where
  "step_source_colon2 byte =
     (if is_ident_start byte then Next InSourceIdent
     else Dead)"

definition step_source_dash :: "char \<Rightarrow> pda_step" where
  "step_source_dash byte =
     (if byte = CHR ''>'' then Next AfterArrow
     else Dead)"

definition step_let_l :: "Frame option \<Rightarrow> char \<Rightarrow> pda_step" where
  "step_let_l stack_top byte =
     (if byte = CHR ''e'' then Next LetLe
     else step_in_source_ident byte)"

definition step_let_le :: "Frame option \<Rightarrow> char \<Rightarrow> pda_step" where
  "step_let_le stack_top byte =
     (if byte = CHR ''t'' then Next LetLet
     else step_in_source_ident byte)"

definition step_let_let :: "Frame option \<Rightarrow> char \<Rightarrow> pda_step" where
  "step_let_let stack_top byte =
     (if is_ws byte then Next ExpectBinder
     else step_in_source_ident byte)"

definition step_expect_binder :: "char \<Rightarrow> pda_step" where
  "step_expect_binder byte =
     (if is_ws byte then Next ExpectBinder
     else if is_ident_start byte then Next InBinder
     else Dead)"

definition step_in_binder :: "char \<Rightarrow> pda_step" where
  "step_in_binder byte =
     (if is_ident_tail byte then Next InBinder
     else if is_ws byte then Next AfterBinder
     else if byte = CHR ''='' then Next ExpectBinderValue
     else Dead)"

definition step_after_binder :: "char \<Rightarrow> pda_step" where
  "step_after_binder byte =
     (if is_ws byte then Next AfterBinder
     else if byte = CHR ''='' then Next ExpectBinderValue
     else Dead)"

definition step_expect_binder_value :: "char \<Rightarrow> pda_step" where
  "step_expect_binder_value byte =
     (if is_ws byte then Next ExpectBinderValue
     else if is_ident_start byte then Next InBinderValueIdent
     else if byte = CHR ''%'' then Next SawPercent
     else Dead)"

definition step_expect_binder_call_close :: "Frame option \<Rightarrow> char \<Rightarrow> pda_step" where
  "step_expect_binder_call_close stack_top byte =
     (if is_ws byte then Next ExpectBinderCallClose
     else if byte = CHR '')'' then close stack_top byte
     else Dead)"

definition step_in_multiplicity :: "Frame option \<Rightarrow> char \<Rightarrow> pda_step" where
  "step_in_multiplicity stack_top byte =
     (if byte = CHR '']'' then close stack_top byte
     else Dead)"

definition step_expect_brace_binder :: "char \<Rightarrow> pda_step" where
  "step_expect_brace_binder byte =
     (if is_ws byte then Next ExpectBraceBinder
     else if is_ident_start byte then Next InIdent
     else Dead)"

definition step_saw_num_sign :: "char \<Rightarrow> pda_step" where
  "step_saw_num_sign byte =
     (if is_ascii_digit byte then Next InNumberInt
     else if byte = CHR ''.'' then Next NeedFracDigit
     else Dead)"

definition step_in_number_int :: "Frame option \<Rightarrow> char \<Rightarrow> pda_step" where
  "step_in_number_int stack_top byte =
     (if is_ascii_digit byte then Next InNumberInt
     else if byte = CHR ''.'' then Next NeedFracDigit
     else step_after_value stack_top byte)"

definition step_need_frac_digit :: "char \<Rightarrow> pda_step" where
  "step_need_frac_digit byte =
     (if is_ascii_digit byte then Next InNumberFrac
     else Dead)"

definition step_in_number_frac :: "Frame option \<Rightarrow> char \<Rightarrow> pda_step" where
  "step_in_number_frac stack_top byte =
     (if is_ascii_digit byte then Next InNumberFrac
     else if byte = CHR ''e'' \<or> byte = CHR ''E'' then Next SawExp
     else step_after_value stack_top byte)"

definition step_saw_exp :: "char \<Rightarrow> pda_step" where
  "step_saw_exp byte =
     (if byte = CHR ''+'' \<or> byte = CHR ''-'' then Next NeedExpDigit
     else if is_ascii_digit byte then Next InExp
     else Dead)"

definition step_need_exp_digit :: "char \<Rightarrow> pda_step" where
  "step_need_exp_digit byte =
     (if is_ascii_digit byte then Next InExp
     else Dead)"

definition step_in_exp :: "Frame option \<Rightarrow> char \<Rightarrow> pda_step" where
  "step_in_exp stack_top byte =
     (if is_ascii_digit byte then Next InExp
     else step_after_value stack_top byte)"

definition step_in_str_lit :: "bool \<Rightarrow> Frame option \<Rightarrow> char \<Rightarrow> pda_step" where
  "step_in_str_lit escaped stack_top byte =
     (if escaped then (if byte = CHR 0x27 then Next (InStrLit False)
     else step_after_str_lit stack_top byte)
     else if byte = CHR 0x27 then Next (InStrLit True)
     else Next (InStrLit False))"

definition step_saw_percent :: "char \<Rightarrow> pda_step" where
  "step_saw_percent byte =
     (if is_ascii_digit byte then Next InDateLit
     else if byte = MILESTONE_LATEST ! 0 then Next MilestoneL
     else Dead)"

definition milestone_link :: "char \<Rightarrow> State \<Rightarrow> char \<Rightarrow> pda_step" where
  "milestone_link expected next byte =
     (if byte = expected then Next next
     else Dead)"

definition step_in_date_lit :: "Frame option \<Rightarrow> char \<Rightarrow> pda_step" where
  "step_in_date_lit stack_top byte =
     (if is_ascii_digit byte then Next InDateLit
     else if byte = CHR ''-'' \<or> byte = CHR ''T'' then Next DateSep
     else if byte = CHR '':'' then Next DateTimeSep
     else step_after_value stack_top byte)"

definition date_field :: "State \<Rightarrow> char \<Rightarrow> pda_step" where
  "date_field next byte =
     (if is_ascii_digit byte then Next next
     else Dead)"

definition step_date_sep :: "char \<Rightarrow> pda_step" where
  "step_date_sep byte =
     date_field InDateLit byte"

definition step_date_time_sep :: "char \<Rightarrow> pda_step" where
  "step_date_time_sep byte =
     date_field InDateTime byte"

definition step_in_date_time :: "Frame option \<Rightarrow> char \<Rightarrow> pda_step" where
  "step_in_date_time stack_top byte =
     (if is_ascii_digit byte then Next InDateTime
     else if byte = CHR ''-'' \<or> byte = CHR '':'' then Next DateTimeSep
     else if byte = CHR ''.'' then Next DateFrac
     else step_after_value stack_top byte)"

definition step_date_frac :: "char \<Rightarrow> pda_step" where
  "step_date_frac byte =
     date_field InDateFrac byte"

definition step_in_date_frac :: "Frame option \<Rightarrow> char \<Rightarrow> pda_step" where
  "step_in_date_frac stack_top byte =
     (if is_ascii_digit byte then Next InDateFrac
     else step_after_value stack_top byte)"

definition step_in_milestone_lit :: "Frame option \<Rightarrow> char \<Rightarrow> pda_step" where
  "step_in_milestone_lit stack_top byte =
     step_after_value stack_top byte"

definition step_after_dollar :: "char \<Rightarrow> pda_step" where
  "step_after_dollar byte =
     (if is_ident_start byte then Next InMemberIdent
     else Dead)"

definition step_after_dot :: "char \<Rightarrow> pda_step" where
  "step_after_dot byte =
     (if is_ws byte then Next AfterDot
     else if is_ident_start byte then Next InMemberIdent
     else if byte = CHR 0x27 then Next (InStrLit False)
     else Dead)"

definition step_after_arrow :: "char \<Rightarrow> pda_step" where
  "step_after_arrow byte =
     (if is_ws byte then Next AfterArrow
     else if is_ident_start byte then Next InArrowIdent
     else Dead)"

definition step_after_colon :: "Frame option \<Rightarrow> char \<Rightarrow> pda_step" where
  "step_after_colon stack_top byte =
     (if byte = CHR '':'' then Next AfterColon2
     else if \<not> holds_a_lambda_slot stack_top then Dead
     else if is_ws byte then Next AfterColonWs
     else if is_ident_start byte then Next InBinderType
     else if byte = CHR ''{'' then Push BraceLambda ExpectBraceBinder
     else Dead)"

definition step_after_colon_ws :: "char \<Rightarrow> pda_step" where
  "step_after_colon_ws byte =
     (if is_ws byte then Next AfterColonWs
     else if is_ident_start byte then Next InBinderType
     else if byte = CHR ''{'' then Push BraceLambda ExpectBraceBinder
     else Dead)"

definition step_after_colon2 :: "char \<Rightarrow> pda_step" where
  "step_after_colon2 byte =
     (if is_ident_start byte then Next InIdent
     else Dead)"

definition step_in_binder_type :: "char \<Rightarrow> pda_step" where
  "step_in_binder_type byte =
     (if is_ident_tail byte then Next InBinderType
     else if byte = CHR '':'' then Next BinderTypeColon
     else if is_ws byte then Next AfterBinderType
     else if byte = CHR ''['' then Push Bracket ExpectBinderMult
     else if byte = CHR ''|'' then Next ExpectLambdaBody
     else Dead)"

definition step_after_binder_type :: "char \<Rightarrow> pda_step" where
  "step_after_binder_type byte =
     (if is_ws byte then Next AfterBinderType
     else if byte = CHR '':'' then Next BinderTypeColon
     else if byte = CHR ''['' then Push Bracket ExpectBinderMult
     else if byte = CHR ''|'' then Next ExpectLambdaBody
     else Dead)"

definition step_binder_type_colon :: "char \<Rightarrow> pda_step" where
  "step_binder_type_colon byte =
     (if byte = CHR '':'' then Next BinderTypeColon2
     else Dead)"

definition step_binder_type_colon2 :: "char \<Rightarrow> pda_step" where
  "step_binder_type_colon2 byte =
     (if is_ident_start byte then Next InBinderTypePath
     else Dead)"

definition step_in_binder_type_path :: "char \<Rightarrow> pda_step" where
  "step_in_binder_type_path byte =
     (if is_ident_tail byte then Next InBinderTypePath
     else if byte = CHR '':'' then Next BinderTypeColon
     else if is_ws byte then Next AfterBinderTypePath
     else if byte = CHR ''['' then Push Bracket ExpectBinderMult
     else Dead)"

definition step_after_binder_type_path :: "char \<Rightarrow> pda_step" where
  "step_after_binder_type_path byte =
     (if is_ws byte then Next AfterBinderTypePath
     else if byte = CHR '':'' then Next BinderTypeColon
     else if byte = CHR ''['' then Push Bracket ExpectBinderMult
     else Dead)"

definition step_expect_binder_mult :: "char \<Rightarrow> pda_step" where
  "step_expect_binder_mult byte =
     (if is_ws byte then Next ExpectBinderMult
     else if is_ascii_digit byte then Next InBinderMult
     else if byte = CHR ''*'' then Next AfterBinderMultToken
     else Dead)"

definition step_in_binder_mult :: "Frame option \<Rightarrow> char \<Rightarrow> pda_step" where
  "step_in_binder_mult stack_top byte =
     (if is_ascii_digit byte then Next InBinderMult
     else if is_ws byte then Next AfterBinderMultToken
     else if byte = CHR '']'' then close_to stack_top byte AfterBinderMult
     else Dead)"

definition step_after_binder_mult_token :: "Frame option \<Rightarrow> char \<Rightarrow> pda_step" where
  "step_after_binder_mult_token stack_top byte =
     (if is_ws byte then Next AfterBinderMultToken
     else if byte = CHR '']'' then close_to stack_top byte AfterBinderMult
     else Dead)"

definition step_after_binder_mult :: "Frame option \<Rightarrow> char \<Rightarrow> pda_step" where
  "step_after_binder_mult stack_top byte =
     (if is_ws byte then Next AfterBinderMult
     else if byte = CHR ''|'' then Next ExpectLambdaBody
     else if byte = CHR '','' \<and> stack_top = Some BraceLambda then Next ExpectBraceBinder
     else Dead)"

definition step_expect_lambda_body :: "Frame option \<Rightarrow> char \<Rightarrow> pda_step" where
  "step_expect_lambda_body stack_top byte =
     (if byte = CHR ''|'' then Dead
     else step_expect_value_req stack_top byte)"

definition step_saw_dash :: "Frame option \<Rightarrow> char \<Rightarrow> pda_step" where
  "step_saw_dash stack_top byte =
     (if byte = CHR ''>'' then Next AfterArrow
     else step_expect_value_req stack_top byte)"

definition step_saw_pipe :: "Frame option \<Rightarrow> char \<Rightarrow> pda_step" where
  "step_saw_pipe stack_top byte =
     (if byte = CHR ''|'' then Next ExpectValueReq
     else if \<not> holds_a_lambda_slot stack_top then Dead
     else step_expect_value_req stack_top byte)"

definition step_saw_value_pipe :: "char \<Rightarrow> pda_step" where
  "step_saw_value_pipe byte =
     (if byte = CHR ''|'' then Next ExpectValueReq
     else Dead)"

definition step_saw_eq :: "char \<Rightarrow> pda_step" where
  "step_saw_eq byte =
     (if byte = CHR ''='' then Next ExpectValueReq
     else Dead)"

definition step_saw_bang :: "char \<Rightarrow> pda_step" where
  "step_saw_bang byte =
     (if byte = CHR ''='' then Next ExpectValueReq
     else Dead)"

definition step_saw_gt :: "Frame option \<Rightarrow> char \<Rightarrow> pda_step" where
  "step_saw_gt stack_top byte =
     (if byte = CHR ''='' then Next ExpectValueReq
     else step_expect_value_req stack_top byte)"

definition step_saw_lt :: "Frame option \<Rightarrow> char \<Rightarrow> pda_step" where
  "step_saw_lt stack_top byte =
     (if byte = CHR ''='' then Next ExpectValueReq
     else step_expect_value_req stack_top byte)"

definition step_saw_amp :: "char \<Rightarrow> pda_step" where
  "step_saw_amp byte =
     (if byte = CHR ''&'' then Next ExpectValueReq
     else Dead)"

definition step_saw_tilde :: "char \<Rightarrow> pda_step" where
  "step_saw_tilde byte =
     (if byte = CHR ''['' then Push RelColBracket ExpectRelColSpec
     else if byte = CHR 0x27 then Next (InRelColStrLit False)
     else if is_ident_start byte then Next InRelColIdent
     else Dead)"

primrec step :: "State \<Rightarrow> Frame option \<Rightarrow> char \<Rightarrow> pda_step" where
  "step Start stack_top byte = step_start byte"
| "step ExpectSource stack_top byte = step_expect_source byte"
| "step AfterBraceOpen stack_top byte = step_after_brace_open byte"
| "step BlockStmt stack_top byte = step_block_stmt stack_top byte"
| "step BlockStmtClose stack_top byte = step_block_stmt_close stack_top byte"
| "step InSourceIdent stack_top byte = step_in_source_ident byte"
| "step SourceColon stack_top byte = step_source_colon byte"
| "step SourceColon2 stack_top byte = step_source_colon2 byte"
| "step SourceDash stack_top byte = step_source_dash byte"
| "step LetL stack_top byte = step_let_l stack_top byte"
| "step LetLe stack_top byte = step_let_le stack_top byte"
| "step LetLet stack_top byte = step_let_let stack_top byte"
| "step ExpectBinder stack_top byte = step_expect_binder byte"
| "step InBinder stack_top byte = step_in_binder byte"
| "step AfterBinder stack_top byte = step_after_binder byte"
| "step ExpectBinderValue stack_top byte = step_expect_binder_value byte"
| "step InBinderValueIdent stack_top byte = step_in_binder_value_ident byte"
| "step ExpectBinderCallClose stack_top byte = step_expect_binder_call_close stack_top byte"
| "step InMultiplicity stack_top byte = step_in_multiplicity stack_top byte"
| "step ExpectBraceBinder stack_top byte = step_expect_brace_binder byte"
| "step AfterColonWs stack_top byte = step_after_colon_ws byte"
| "step ExpectValue stack_top byte = step_expect_value stack_top byte"
| "step ExpectValueReq stack_top byte = step_expect_value_req stack_top byte"
| "step AfterValue stack_top byte = step_after_value stack_top byte"
| "step AfterName stack_top byte = step_after_name stack_top byte"
| "step AfterMemberName stack_top byte = step_after_member_name stack_top byte"
| "step AfterStrLit stack_top byte = step_after_str_lit stack_top byte"
| "step InIdent stack_top byte = step_in_ident stack_top byte"
| "step InMemberIdent stack_top byte = step_in_member_ident stack_top byte"
| "step SawNumSign stack_top byte = step_saw_num_sign byte"
| "step InNumberInt stack_top byte = step_in_number_int stack_top byte"
| "step NeedFracDigit stack_top byte = step_need_frac_digit byte"
| "step InNumberFrac stack_top byte = step_in_number_frac stack_top byte"
| "step SawExp stack_top byte = step_saw_exp byte"
| "step NeedExpDigit stack_top byte = step_need_exp_digit byte"
| "step InExp stack_top byte = step_in_exp stack_top byte"
| "step (InStrLit escaped) stack_top byte = step_in_str_lit escaped stack_top byte"
| "step SawPercent stack_top byte = step_saw_percent byte"
| "step InDateLit stack_top byte = step_in_date_lit stack_top byte"
| "step DateSep stack_top byte = step_date_sep byte"
| "step InDateTime stack_top byte = step_in_date_time stack_top byte"
| "step DateTimeSep stack_top byte = step_date_time_sep byte"
| "step DateFrac stack_top byte = step_date_frac byte"
| "step InDateFrac stack_top byte = step_in_date_frac stack_top byte"
| "step MilestoneL stack_top byte = milestone_link (MILESTONE_LATEST ! 1) MilestoneLa byte"
| "step MilestoneLa stack_top byte = milestone_link (MILESTONE_LATEST ! 2) MilestoneLat byte"
| "step MilestoneLat stack_top byte = milestone_link (MILESTONE_LATEST ! 3) MilestoneLate byte"
| "step MilestoneLate stack_top byte = milestone_link (MILESTONE_LATEST ! 4) MilestoneLates byte"
| "step MilestoneLates stack_top byte = milestone_link (MILESTONE_LATEST ! 5) InMilestoneLit byte"
| "step InMilestoneLit stack_top byte = step_in_milestone_lit stack_top byte"
| "step AfterDollar stack_top byte = step_after_dollar byte"
| "step AfterDot stack_top byte = step_after_dot byte"
| "step AfterArrow stack_top byte = step_after_arrow byte"
| "step AfterColon stack_top byte = step_after_colon stack_top byte"
| "step AfterValueColon stack_top byte = step_after_value_colon byte"
| "step AfterColon2 stack_top byte = step_after_colon2 byte"
| "step InBinderType stack_top byte = step_in_binder_type byte"
| "step AfterBinderType stack_top byte = step_after_binder_type byte"
| "step BinderTypeColon stack_top byte = step_binder_type_colon byte"
| "step BinderTypeColon2 stack_top byte = step_binder_type_colon2 byte"
| "step InBinderTypePath stack_top byte = step_in_binder_type_path byte"
| "step AfterBinderTypePath stack_top byte = step_after_binder_type_path byte"
| "step ExpectBinderMult stack_top byte = step_expect_binder_mult byte"
| "step InBinderMult stack_top byte = step_in_binder_mult stack_top byte"
| "step AfterBinderMultToken stack_top byte = step_after_binder_mult_token stack_top byte"
| "step AfterBinderMult stack_top byte = step_after_binder_mult stack_top byte"
| "step ExpectLambdaBody stack_top byte = step_expect_lambda_body stack_top byte"
| "step SawDash stack_top byte = step_saw_dash stack_top byte"
| "step SawPipe stack_top byte = step_saw_pipe stack_top byte"
| "step SawValuePipe stack_top byte = step_saw_value_pipe byte"
| "step SawEq stack_top byte = step_saw_eq byte"
| "step SawBang stack_top byte = step_saw_bang byte"
| "step SawGt stack_top byte = step_saw_gt stack_top byte"
| "step SawLt stack_top byte = step_saw_lt stack_top byte"
| "step SawAmp stack_top byte = step_saw_amp byte"
| "step SawTilde stack_top byte = step_saw_tilde byte"
| "step InRelColIdent stack_top byte = step_in_rel_col_ident stack_top byte"
| "step (InRelColStrLit escaped) stack_top byte = step_in_rel_col_str_lit escaped stack_top byte"
| "step AfterRelColName stack_top byte = step_after_rel_col_name stack_top byte"
| "step ExpectRelColSpec stack_top byte = step_expect_rel_col_spec stack_top byte"
| "step ExpectRelColSpecReq stack_top byte = step_expect_rel_col_spec_req stack_top byte"
| "step AfterRelColColon stack_top byte = step_after_rel_col_colon byte"
| "step InRelColLambdaBinder stack_top byte = step_in_rel_col_lambda_binder byte"
| "step AfterRelColLambdaBinder stack_top byte = step_after_rel_col_lambda_binder byte"
| "step InArrowIdent stack_top byte = step_in_arrow_ident stack_top byte"
| "step AfterArrowName stack_top byte = step_after_arrow_name byte"
| "step InRelAggReduceBinder stack_top byte = step_in_rel_agg_reduce_binder byte"
| "step AfterRelAggReduceBinder stack_top byte = step_after_rel_agg_reduce_binder byte"


section \<open>The driver\<close>

record pda =
  pda_state :: State
  pda_stack :: "Frame list"

record dead_state =
  dead_in :: string
  dead_top :: string

definition pda_new :: pda where
  "pda_new = \<lparr>pda_state = Start, pda_stack = []\<rparr>"

definition pda_at :: "State \<Rightarrow> pda" where
  "pda_at state = \<lparr>pda_state = state, pda_stack = []\<rparr>"

definition pda_stack_top :: "pda \<Rightarrow> Frame option" where
  "pda_stack_top p = top_of (pda_stack p)"

definition pda_advance :: "char \<Rightarrow> pda \<Rightarrow> dead_state + pda" where
  "pda_advance byte p =
     (case advance_with step (pda_state p, pda_stack p) byte of
        Some (state, stack) \<Rightarrow> Inr \<lparr>pda_state = state, pda_stack = stack\<rparr>
      | None \<Rightarrow> Inl \<lparr>dead_in = state_name (pda_state p),
          dead_top = (case pda_stack_top p of None \<Rightarrow> ''none'' | Some f \<Rightarrow> frame_name f)\<rparr>)"

definition pda_is_accepting :: "pda \<Rightarrow> bool" where
  "pda_is_accepting p \<longleftrightarrow>
     pda_stack p = [] \<and>
     (case step (pda_state p) None VALUE_BOUNDARY of Next next \<Rightarrow> completes_a_term next | _ \<Rightarrow> False)"

definition pda_reset :: "pda \<Rightarrow> pda" where
  "pda_reset p = p\<lparr>pda_state := Start, pda_stack := []\<rparr>"

definition pda_admits :: "char list \<Rightarrow> pda \<Rightarrow> bool" where
  "pda_admits bytes p = admits_with step bytes (pda_state p) (pda_stack p)"

definition pda_probe :: "char list \<Rightarrow> pda \<Rightarrow> probe" where
  "pda_probe bytes p = probe_with step ALL_FRAMES bytes (pda_state p) (pda_stack p)"


lemmas step_defs =
  close_def value_position_def rel_col_spec_position_def step_expect_rel_col_spec_def
  step_expect_rel_col_spec_req_def block_stmt_def step_start_def step_expect_source_def
  step_after_brace_open_def step_block_stmt_def step_block_stmt_close_def step_expect_value_def
  step_expect_value_req_def step_after_value_def step_after_name_def step_in_ident_def
  step_after_member_name_def step_in_member_ident_def step_after_arrow_name_def
  step_in_arrow_ident_def step_after_str_lit_def step_after_rel_col_name_def
  step_in_rel_col_ident_def step_in_rel_col_str_lit_def step_after_rel_col_colon_def
  step_after_rel_col_lambda_binder_def step_in_rel_col_lambda_binder_def
  step_after_value_colon_def step_after_rel_agg_reduce_binder_def
  step_in_rel_agg_reduce_binder_def source_ident_def step_in_source_ident_def
  step_in_binder_value_ident_def step_source_colon_def step_source_colon2_def
  step_source_dash_def step_let_l_def step_let_le_def step_let_let_def step_expect_binder_def
  step_in_binder_def step_after_binder_def step_expect_binder_value_def
  step_expect_binder_call_close_def step_in_multiplicity_def step_expect_brace_binder_def
  step_saw_num_sign_def step_in_number_int_def step_need_frac_digit_def step_in_number_frac_def
  step_saw_exp_def step_need_exp_digit_def step_in_exp_def step_in_str_lit_def
  step_saw_percent_def milestone_link_def step_in_date_lit_def date_field_def step_date_sep_def
  step_date_time_sep_def step_in_date_time_def step_date_frac_def step_in_date_frac_def
  step_in_milestone_lit_def step_after_dollar_def step_after_dot_def step_after_arrow_def
  step_after_colon_def step_after_colon_ws_def step_after_colon2_def step_in_binder_type_def
  step_after_binder_type_def step_binder_type_colon_def step_binder_type_colon2_def
  step_in_binder_type_path_def step_after_binder_type_path_def step_expect_binder_mult_def
  step_in_binder_mult_def step_after_binder_mult_token_def step_after_binder_mult_def
  step_expect_lambda_body_def step_saw_dash_def step_saw_pipe_def step_saw_value_pipe_def
  step_saw_eq_def step_saw_bang_def step_saw_gt_def step_saw_lt_def step_saw_amp_def
  step_saw_tilde_def close_to_def

end
