(* ===== verification/PdaProperties.thy ===== *)
theory PdaProperties
  imports FixedPda
begin

text \<open>
  The fixed automaton meets the interface \<open>pushdown\<close>, its state numbering is a bijection, and what
  it accepts is balanced: the frames on its stack are the brackets that are open outside string
  literals, as a scanner that knows nothing of the grammar finds them.
\<close>

section \<open>Independence of the stack\<close>

definition stack_free :: "(Frame option \<Rightarrow> pda_step) \<Rightarrow> bool" where
  "stack_free g \<longleftrightarrow> (\<forall>t. g None \<noteq> Pop t) \<and> (g None \<noteq> Dead \<longrightarrow> (\<forall>f. g (Some f) = g None))"

lemma sf_Next: "stack_free (\<lambda>_. Next s)" and sf_Push: "stack_free (\<lambda>_. Push f s)"
  and sf_Dead: "stack_free (\<lambda>_. Dead)"
  by (simp_all add: stack_free_def)

lemma sf_if:
  "(c \<Longrightarrow> stack_free (\<lambda>t. g t)) \<Longrightarrow> (\<not> c \<Longrightarrow> stack_free (\<lambda>t. h t)) \<Longrightarrow> stack_free (\<lambda>t. if c then g t else h t)"
  by (cases c) simp_all

lemma sf_dead: "g None = Dead \<Longrightarrow> stack_free g"
  by (simp add: stack_free_def)

lemma sf_close_to: "stack_free (\<lambda>t. close_to t b s)"
  by (simp add: stack_free_def close_to_def)

lemma sf_close: "stack_free (\<lambda>t. close t b)"
  unfolding close_def by (rule sf_close_to)

lemmas sf_rules = sf_Next sf_Push sf_Dead sf_close sf_close_to sf_if sf_dead

lemma sf_value_position: "stack_free (\<lambda>t. value_position t b c)"
  unfolding value_position_def Let_def
  by ((rule sf_rules | simp add: close_def close_to_def)+)

lemma sf_after_value: "stack_free (\<lambda>t. step_after_value t b)"
  unfolding step_after_value_def
  by ((rule sf_rules | simp add: close_def close_to_def holds_a_lambda_slot_def separates_elements_def)+)

lemmas step_wrappers =
  rel_col_spec_position_def step_expect_rel_col_spec_def step_expect_rel_col_spec_req_def
  block_stmt_def step_start_def step_expect_source_def step_after_brace_open_def
  step_block_stmt_def step_block_stmt_close_def step_expect_value_def step_expect_value_req_def
  step_after_name_def step_in_ident_def step_after_member_name_def step_in_member_ident_def
  step_after_arrow_name_def step_in_arrow_ident_def step_after_str_lit_def
  step_after_rel_col_name_def step_in_rel_col_ident_def step_in_rel_col_str_lit_def
  step_after_rel_col_colon_def step_after_rel_col_lambda_binder_def
  step_in_rel_col_lambda_binder_def step_after_value_colon_def
  step_after_rel_agg_reduce_binder_def step_in_rel_agg_reduce_binder_def source_ident_def
  step_in_source_ident_def step_in_binder_value_ident_def step_source_colon_def
  step_source_colon2_def step_source_dash_def step_let_l_def step_let_le_def step_let_let_def
  step_expect_binder_def step_in_binder_def step_after_binder_def step_expect_binder_value_def
  step_expect_binder_call_close_def step_in_multiplicity_def step_expect_brace_binder_def
  step_saw_num_sign_def step_in_number_int_def step_need_frac_digit_def step_in_number_frac_def
  step_saw_exp_def step_need_exp_digit_def step_in_exp_def step_in_str_lit_def
  step_saw_percent_def milestone_link_def step_in_date_lit_def date_field_def step_date_sep_def
  step_date_time_sep_def step_in_date_time_def step_date_frac_def step_in_date_frac_def
  step_in_milestone_lit_def step_after_dollar_def step_after_dot_def step_after_arrow_def
  step_after_colon_def step_after_colon_ws_def step_after_colon2_def step_in_binder_type_def
  step_after_binder_type_def step_binder_type_colon_def step_binder_type_colon2_def
  step_in_binder_type_path_def step_after_binder_type_path_def step_expect_binder_mult_def
  step_in_binder_mult_def step_after_binder_mult_token_def step_after_binder_mult_def
  step_expect_lambda_body_def step_saw_dash_def step_saw_pipe_def step_saw_value_pipe_def
  step_saw_eq_def step_saw_bang_def step_saw_gt_def step_saw_lt_def step_saw_amp_def
  step_saw_tilde_def

lemma sf_step: "stack_free (\<lambda>t. step s t b)"
  unfolding step_wrappers Let_def
  by (cases s; simp only: step.simps step_wrappers Let_def;
      (rule sf_value_position sf_after_value sf_rules | simp add: holds_a_lambda_slot_def separates_elements_def)+)

interpretation fixed: pushdown step ALL_FRAMES
proof
  fix s b f t
  show "step s None b \<noteq> Dead \<Longrightarrow> step s (Some f) b = step s None b" "step s None b \<noteq> Pop t"
    using sf_step [of s b] by (simp_all add: stack_free_def)
  show "f \<in> set ALL_FRAMES" by (cases f) (simp_all add: ALL_FRAMES_def)
qed


section \<open>State numbering\<close>

lemma all_states: "s \<in> set ALL_STATES"
  by (cases s) (simp_all add: ALL_STATES_def)

lemma state_index_distinct: "distinct (map state_index ALL_STATES)"
  by (simp add: ALL_STATES_def)

lemma state_index_less: "list_all (\<lambda>s. state_index s < STATE_COUNT) ALL_STATES"
  by (simp add: ALL_STATES_def STATE_COUNT_def)

lemma state_count: "length ALL_STATES = STATE_COUNT"
  by (simp add: ALL_STATES_def STATE_COUNT_def)

text \<open>The numbering of the automaton's states, by which the per-state mask cache is indexed, is
  dense and injective: the table of all states lists each state once and has \<^verbatim>\<open>State::COUNT\<close>
  entries, and \<^verbatim>\<open>State::index\<close> is a bijection onto the numbers below that count, so that no cache
  access is out of range, no two states share an entry and no entry is unused.
\<close>

theorem state_numbering:
  "set ALL_STATES = UNIV \<and> distinct ALL_STATES \<and> length ALL_STATES = STATE_COUNT \<and>
   bij_betw state_index UNIV {..<STATE_COUNT}"
proof -
  have u: "set ALL_STATES = UNIV" using all_states by blast
  have inj: "inj_on state_index (set ALL_STATES)" and d: "distinct ALL_STATES"
    using state_index_distinct by (simp_all add: distinct_map)
  have "state_index ` set ALL_STATES \<subseteq> {..<STATE_COUNT}"
    using state_index_less by (auto simp: list_all_iff)
  moreover have "card (state_index ` set ALL_STATES) = STATE_COUNT"
    using card_image [OF inj] distinct_card [OF d] state_count by simp
  ultimately have "state_index ` set ALL_STATES = {..<STATE_COUNT}"
    by (intro card_subset_eq) simp_all
  with u inj d state_count show ?thesis by (simp add: bij_betw_def)
qed


section \<open>Brackets and strings\<close>

text \<open>
  A scanner that knows only string quotes and brackets: within a string it looks for the quote
  (a doubled quote leaves and enters the string again), outside it keeps the closers it is owed.
\<close>

definition openers :: "char list" where "openers = [CHR ''('', CHR ''['', CHR ''{'']"

definition closers :: "char list" where "closers = [CHR '')'', CHR '']'', CHR ''}'']"

definition closer :: "char \<Rightarrow> char" where
  "closer b = (if b = CHR ''('' then CHR '')'' else if b = CHR ''['' then CHR '']'' else CHR ''}'')"

fun scan_brackets :: "char list \<Rightarrow> bool \<Rightarrow> char list \<Rightarrow> (bool \<times> char list) option" where
  "scan_brackets [] in_str owed = Some (in_str, owed)"
| "scan_brackets (b # bs) in_str owed =
     (if in_str then scan_brackets bs (b \<noteq> CHR 0x27) owed
      else if b = CHR 0x27 then scan_brackets bs True owed
      else if b \<in> set openers then scan_brackets bs False (closer b # owed)
      else if b \<in> set closers then
        (case owed of [] \<Rightarrow> None
         | c # owed' \<Rightarrow> if c = b then scan_brackets bs False owed' else None)
      else scan_brackets bs False owed)"

primrec frame_opener :: "Frame \<Rightarrow> char" where
  "frame_opener Paren = CHR ''(''" | "frame_opener Group = CHR ''(''"
| "frame_opener Bracket = CHR ''[''" | "frame_opener RelColBracket = CHR ''[''"
| "frame_opener Brace = CHR ''{''" | "frame_opener BraceLambda = CHR ''{''"

definition in_string :: "State \<Rightarrow> bool" where
  "in_string s \<longleftrightarrow> s \<in> {InStrLit False, InRelColStrLit False}"

definition plain :: "char \<Rightarrow> bool" where
  "plain b \<longleftrightarrow> b \<noteq> CHR 0x27 \<and> b \<notin> set openers \<and> b \<notin> set closers"

definition tracks :: "char \<Rightarrow> Frame option \<Rightarrow> pda_step \<Rightarrow> bool" where
  "tracks b t r \<longleftrightarrow>
     (case r of
        Next s \<Rightarrow> if b = CHR 0x27 then in_string s else plain b \<and> \<not> in_string s
      | Push f s \<Rightarrow> b = frame_opener f \<and> \<not> in_string s
      | Pop s \<Rightarrow> (\<exists>f. t = Some f \<and> b = closer (frame_opener f)) \<and> \<not> in_string s
      | Dead \<Rightarrow> True)"

lemma plain_ws [simp]: "is_ws b \<Longrightarrow> plain b"
  by (auto simp: is_ws_def plain_def openers_def closers_def)

lemma plain_ident_tail [simp]: "is_ident_tail b \<Longrightarrow> plain b"
  by (auto simp: is_ident_tail_def is_ascii_alphabetic_def is_ascii_digit_def plain_def openers_def
      closers_def Let_def)

lemma plain_ident_start [simp]: "is_ident_start b \<Longrightarrow> plain b" and plain_digit [simp]: "is_ascii_digit b \<Longrightarrow> plain b"
  by (rule plain_ident_tail, simp add: is_ident_start_def is_ident_tail_def; blast)+

lemma plain_quote [simp]: "\<not> plain (CHR 0x27)"
  by (simp add: plain_def)

lemma tracks_Next: "plain b \<Longrightarrow> \<not> in_string s \<Longrightarrow> tracks b t (Next s)"
  by (auto simp: tracks_def plain_def)

lemma tracks_quote: "b = CHR 0x27 \<Longrightarrow> in_string s \<Longrightarrow> tracks b t (Next s)"
  by (simp add: tracks_def)

lemma tracks_Push: "b = frame_opener f \<Longrightarrow> \<not> in_string s \<Longrightarrow> tracks b t (Push f s)"
  by (simp add: tracks_def)

lemma tracks_Dead: "tracks b t Dead"
  by (simp add: tracks_def)

lemma tracks_if: "(c \<Longrightarrow> tracks b t g) \<Longrightarrow> (\<not> c \<Longrightarrow> tracks b t h) \<Longrightarrow> tracks b t (if c then g else h)"
  by simp

lemma tracks_close_to: "\<not> in_string s \<Longrightarrow> tracks b t (close_to t b s)"
  by (simp only: close_to_def, rule tracks_if; (rule tracks_Dead)?; elim disjE conjE)
    (simp_all add: tracks_def closer_def)

lemma tracks_close: "tracks b t (close t b)"
  unfolding close_def by (rule tracks_close_to) (simp add: in_string_def)

lemmas tracks_rules = tracks_if tracks_Dead tracks_close tracks_close_to tracks_Push tracks_Next tracks_quote

lemma plain_literals [simp]:
  "plain (CHR ''-'')" "plain (CHR ''.'')" "plain (CHR ''%'')" "plain (CHR ''$'')" "plain (CHR ''~'')"
  "plain (CHR ''|'')" "plain (CHR ''!'')" "plain (CHR ''*'')" "plain (CHR ''>'')" "plain (CHR ''<'')"
  "plain (CHR ''='')" "plain (CHR ''&'')" "plain (CHR ''+'')" "plain (CHR ''/'')" "plain (CHR '':'')"
  "plain (CHR '','')" "plain (CHR '';'')" "plain (CHR ''l'')" "plain (CHR ''e'')" "plain (CHR ''E'')"
  "plain (CHR ''t'')" "plain (CHR ''T'')"
  by (simp_all add: plain_def openers_def closers_def)

lemma tracks_value_position: "tracks b t (value_position t b c)"
  unfolding value_position_def Let_def
  by ((rule tracks_rules | simp add: in_string_def)+)

lemma tracks_after_value: "tracks b t (step_after_value t b)"
  unfolding step_after_value_def
  by ((rule tracks_rules | simp add: in_string_def | elim disjE conjE)+)

lemma plain_milestone [simp]: "i < 6 \<Longrightarrow> plain (MILESTONE_LATEST ! i)"
  using nth_mem [of i MILESTONE_LATEST] by (auto simp: MILESTONE_LATEST_def plain_def openers_def closers_def)

lemma tracks_step: "\<not> in_string s \<Longrightarrow> tracks b t (step s t b)"
  by (cases s; simp only: step.simps step_wrappers Let_def;
      (rule tracks_value_position tracks_after_value tracks_if tracks_Dead tracks_close
       | (rule tracks_Push tracks_Next tracks_close_to tracks_quote; (simp add: in_string_def; fail))
       | (elim disjE; rule tracks_Next; (simp add: in_string_def; fail)))+)

lemma step_in_string:
  "in_string s \<Longrightarrow> \<exists>s'. step s t b = Next s' \<and> (in_string s' \<longleftrightarrow> b \<noteq> CHR 0x27)"
  by (auto simp: in_string_def step_in_str_lit_def step_in_rel_col_str_lit_def)

lemma opener_not_closer [simp]:
  "frame_opener f \<in> set openers" "closer (frame_opener f) \<in> set closers"
  "closer (frame_opener f) \<notin> set openers" "closer (frame_opener f) \<noteq> CHR 0x27" "frame_opener f \<noteq> CHR 0x27"
  by (cases f; simp add: openers_def closers_def closer_def)+

text \<open>The scanner's state is a function of the automaton's: one step of the simulation.\<close>

lemma advance_scans:
  assumes "advance_with step (s, st) b = Some (s', st')"
  shows "scan_brackets (b # bs) (in_string s) (map (closer \<circ> frame_opener) st) =
         scan_brackets bs (in_string s') (map (closer \<circ> frame_opener) st')"
proof (cases "in_string s")
  case True
  with step_in_string [OF True, of "top_of st" b] assms show ?thesis
    by (auto simp: advance_with_def)
next
  case False
  with tracks_step [OF False, of b "top_of st"] assms show ?thesis
    by (cases "step s (top_of st) b"; cases st)
      (auto simp: advance_with_def tracks_def plain_def split: if_splits)
qed

lemma fold_scans:
  "fold_token step bytes (s, st) = Some (s', st') \<Longrightarrow>
     scan_brackets bytes (in_string s) (map (closer \<circ> frame_opener) st) =
       Some (in_string s', map (closer \<circ> frame_opener) st')"
proof (induction bytes arbitrary: s st)
  case (Cons b bytes)
  then obtain s1 st1 where a: "advance_with step (s, st) b = Some (s1, st1)"
    and f: "fold_token step bytes (s1, st1) = Some (s', st')"
    by (auto split: option.splits)
  show ?case unfolding advance_scans [OF a] by (rule Cons.IH [OF f])
qed simp

lemma accepting_not_in_string: "pda_is_accepting p \<Longrightarrow> \<not> in_string (pda_state p)"
  by (auto simp: pda_is_accepting_def in_string_def completes_a_term_def step_in_str_lit_def
      step_in_rel_col_str_lit_def VALUE_BOUNDARY_def)

end
