(* ===== verification/GrammarSpec.thy ===== *)
theory GrammarSpec
  imports Pushdown OrderedMap "HOL-Library.Char_ord" "HOL-Library.List_Lexorder"
begin

text \<open>
  Declarative grammars for constrained decoding (\<^verbatim>\<open>grammar/spec.rs\<close> of
  \<^verbatim>\<open>crates/pure-analyzer-purecard/src\<close>) and their lowering to a table automaton
  (\<^verbatim>\<open>grammar/compile.rs\<close>). State and frame ids are dense indices, bounded by \<open>MAX_STATES\<close> and
  \<open>MAX_FRAMES\<close>, and modelled as natural numbers; the ordered map of states is a list with
  increasing keys. Deserialisation of the JSON text is not part of the sources.
\<close>

section \<open>The specification language\<close>

definition MAX_STATES :: nat where "MAX_STATES = 512"
definition MAX_RULES_PER_STATE :: nat where "MAX_RULES_PER_STATE = 64"
definition MAX_TOTAL_RULES :: nat where "MAX_TOTAL_RULES = 8192"
definition MAX_FRAMES :: nat where "MAX_FRAMES = 64"

datatype ByteTest =
  Whitespace | IdentStart | IdentTail | Digit | Exact char | OneOf "char list" | NoneOf "char list" | AnyByte

datatype Guard = Always | StackTopIs string | StackTopIsNot string | StackNonEmpty | StackEmpty

datatype Action =
  ActNext string | ActPush string string | ActPop string | ActGoto string | ActDead

record TransitionRule =
  byte_test :: ByteTest
  guard :: Guard
  action :: Action

record StateSpec =
  accepting :: bool
  rules :: "TransitionRule list"

record GrammarSpecV1 =
  spec_start :: string
  boundary_byte :: char
  frames :: "string list"
  states :: "(string, StateSpec) btree_map"

datatype SpecError =
    Malformed nat nat string
  | UnknownStartState string
  | UnknownTargetState string nat string
  | UnknownFrame string nat string
  | TooManyStates nat nat
  | TooManyRules string nat nat
  | TooManyTotalRules nat nat
  | TooManyFrames nat nat
  | DuplicateFrame string
  | AmbiguousTransition string nat nat
  | UnreachableRule string nat nat
  | UnguardedPop string nat
  | CyclicGoto string nat
  | NoReachableAccept string

primrec byte_matches :: "ByteTest \<Rightarrow> char \<Rightarrow> bool" where
  "byte_matches Whitespace byte \<longleftrightarrow> byte \<in> set [CHR '' '', CHR 0x09, CHR 0x0A, CHR 0x0D]"
| "byte_matches IdentStart byte \<longleftrightarrow> is_ascii_alphabetic byte \<or> byte = CHR ''_''"
| "byte_matches IdentTail byte \<longleftrightarrow> (is_ascii_alphabetic byte \<or> is_ascii_digit byte) \<or> byte = CHR ''_''"
| "byte_matches Digit byte \<longleftrightarrow> is_ascii_digit byte"
| "byte_matches (Exact want) byte \<longleftrightarrow> byte = want"
| "byte_matches (OneOf bytes) byte \<longleftrightarrow> byte \<in> set bytes"
| "byte_matches (NoneOf bytes) byte \<longleftrightarrow> byte \<notin> set bytes"
| "byte_matches AnyByte byte \<longleftrightarrow> True"

definition is_subsumed_by :: "ByteTest \<Rightarrow> ByteTest \<Rightarrow> bool" where
  "is_subsumed_by self other \<longleftrightarrow>
     list_all (\<lambda>b. \<not> byte_matches self (char_of b) \<or> byte_matches other (char_of b)) [0..<256::nat]"


section \<open>The compiled automaton\<close>

definition GRAPH_TRAVERSAL_BUDGET :: nat where "GRAPH_TRAVERSAL_BUDGET = 100000"

datatype CompiledGuard = CAlways | CStackTopIs nat | CStackTopIsNot nat | CStackNonEmpty | CStackEmpty

primrec guard_matches :: "CompiledGuard \<Rightarrow> nat option \<Rightarrow> bool" where
  "guard_matches CAlways stack_top \<longleftrightarrow> True"
| "guard_matches (CStackTopIs frame) stack_top \<longleftrightarrow> stack_top = Some frame"
| "guard_matches (CStackTopIsNot frame) stack_top \<longleftrightarrow> (case stack_top of None \<Rightarrow> False | Some t \<Rightarrow> t \<noteq> frame)"
| "guard_matches CStackNonEmpty stack_top \<longleftrightarrow> stack_top \<noteq> None"
| "guard_matches CStackEmpty stack_top \<longleftrightarrow> stack_top = None"

datatype CompiledAction = CNext nat | CPush nat nat | CPop nat | CGoto nat | CDead

record CompiledRule =
  c_byte_test :: ByteTest
  c_guard :: CompiledGuard
  c_action :: CompiledAction

record CompiledState =
  c_accepting :: bool
  c_rules :: "CompiledRule list"

record CompiledAutomaton =
  a_states :: "CompiledState list"
  a_start :: nat
  a_frame_count :: nat
  a_boundary_byte :: char
  a_state_names :: "string list"
  a_frame_names :: "string list"

definition auto_state_name :: "CompiledAutomaton \<Rightarrow> nat \<Rightarrow> string" where
  "auto_state_name a i = (case get_at (a_state_names a) i of None \<Rightarrow> ''unknown'' | Some n \<Rightarrow> n)"

definition auto_frame_name :: "CompiledAutomaton \<Rightarrow> nat option \<Rightarrow> string" where
  "auto_frame_name a i =
     (case i of None \<Rightarrow> ''none''
      | Some f \<Rightarrow> (case get_at (a_frame_names a) f of None \<Rightarrow> ''unknown'' | Some n \<Rightarrow> n))"

definition state_count :: "CompiledAutomaton \<Rightarrow> nat" where
  "state_count a = length (a_states a)"

text \<open>The loop of \<^verbatim>\<open>step\<close> over a chain of \<^verbatim>\<open>Goto\<close> actions; the first argument counts its iterations.\<close>

definition selected_rule :: "CompiledState \<Rightarrow> nat option \<Rightarrow> char \<Rightarrow> CompiledRule option" where
  "selected_rule compiled stack_top byte =
     find (\<lambda>rule. byte_matches (c_byte_test rule) byte \<and> guard_matches (c_guard rule) stack_top) (c_rules compiled)"

fun step_loop :: "nat \<Rightarrow> CompiledAutomaton \<Rightarrow> nat \<Rightarrow> nat option \<Rightarrow> char \<Rightarrow> (nat, nat) Step" where
  "step_loop 0 a state stack_top byte = Dead"
| "step_loop (Suc n) a state stack_top byte =
     (case get_at (a_states a) state of
        None \<Rightarrow> Dead
      | Some compiled \<Rightarrow>
          (case map_option c_action (selected_rule compiled stack_top byte) of
             Some (CNext next) \<Rightarrow> Next next
           | Some (CPush frame next) \<Rightarrow> Push frame next
           | Some (CPop next) \<Rightarrow> (if stack_top = None then Dead else Pop next)
           | Some (CGoto next) \<Rightarrow> step_loop n a next stack_top byte
           | Some CDead \<Rightarrow> Dead
           | None \<Rightarrow> Dead))"

definition auto_step :: "CompiledAutomaton \<Rightarrow> nat \<Rightarrow> nat option \<Rightarrow> char \<Rightarrow> (nat, nat) Step" where
  "auto_step a state stack_top byte = step_loop (length (a_states a) + 1) a state stack_top byte"

definition is_accepting_state :: "CompiledAutomaton \<Rightarrow> nat \<Rightarrow> bool" where
  "is_accepting_state a state =
     (case get_at (a_states a) state of
        None \<Rightarrow> False
      | Some compiled \<Rightarrow>
          if c_accepting compiled then True
          else (case auto_step a state None (a_boundary_byte a) of
                  Next landed \<Rightarrow> (case get_at (a_states a) landed of None \<Rightarrow> False | Some s \<Rightarrow> c_accepting s)
                | _ \<Rightarrow> False))"


section \<open>Lowering\<close>

definition frame_resolve :: "string \<Rightarrow> nat \<Rightarrow> (string, nat) btree_map \<Rightarrow> string \<Rightarrow> SpecError + nat" where
  "frame_resolve state rule_index frame_ids frame =
     (case bt_get frame_ids frame of Some i \<Rightarrow> Inr i | None \<Rightarrow> Inl (UnknownFrame state rule_index frame))"

definition state_resolve :: "string \<Rightarrow> nat \<Rightarrow> (string, nat) btree_map \<Rightarrow> string \<Rightarrow> SpecError + nat" where
  "state_resolve state rule_index state_ids target =
     (case bt_get state_ids target of Some i \<Rightarrow> Inr i | None \<Rightarrow> Inl (UnknownTargetState state rule_index target))"

definition compile_guard :: "string \<Rightarrow> nat \<Rightarrow> Guard \<Rightarrow> (string, nat) btree_map \<Rightarrow> SpecError + CompiledGuard" where
  "compile_guard state rule_index g frame_ids =
     (case g of
        Always \<Rightarrow> Inr CAlways
      | StackTopIs frame \<Rightarrow> map_sum (\<lambda>e. e) CStackTopIs (frame_resolve state rule_index frame_ids frame)
      | StackTopIsNot frame \<Rightarrow> map_sum (\<lambda>e. e) CStackTopIsNot (frame_resolve state rule_index frame_ids frame)
      | StackNonEmpty \<Rightarrow> Inr CStackNonEmpty
      | StackEmpty \<Rightarrow> Inr CStackEmpty)"

definition guards_pop :: "CompiledGuard \<Rightarrow> bool" where
  "guards_pop g \<longleftrightarrow> (case g of CStackTopIs _ \<Rightarrow> True | CStackNonEmpty \<Rightarrow> True | _ \<Rightarrow> False)"

definition compile_action ::
    "string \<Rightarrow> nat \<Rightarrow> Action \<Rightarrow> (string, nat) btree_map \<Rightarrow> (string, nat) btree_map \<Rightarrow> CompiledGuard \<Rightarrow>
       SpecError + CompiledAction" where
  "compile_action state rule_index act state_ids frame_ids g =
     (case act of
        ActNext target \<Rightarrow> map_sum (\<lambda>e. e) CNext (state_resolve state rule_index state_ids target)
      | ActPush frame target \<Rightarrow>
          (case frame_resolve state rule_index frame_ids frame of
             Inl e \<Rightarrow> Inl e
           | Inr f \<Rightarrow> map_sum (\<lambda>e. e) (CPush f) (state_resolve state rule_index state_ids target))
      | ActPop target \<Rightarrow>
          if \<not> guards_pop g then Inl (UnguardedPop state rule_index)
          else map_sum (\<lambda>e. e) CPop (state_resolve state rule_index state_ids target)
      | ActGoto target \<Rightarrow> map_sum (\<lambda>e. e) CGoto (state_resolve state rule_index state_ids target)
      | ActDead \<Rightarrow> Inr CDead)"

definition same_guard :: "CompiledGuard \<Rightarrow> CompiledGuard \<Rightarrow> bool" where
  "same_guard a b =
     (case (a, b) of
        (CAlways, CAlways) \<Rightarrow> True
      | (CStackNonEmpty, CStackNonEmpty) \<Rightarrow> True
      | (CStackEmpty, CStackEmpty) \<Rightarrow> True
      | (CStackTopIs x, CStackTopIs y) \<Rightarrow> x = y
      | (CStackTopIsNot x, CStackTopIsNot y) \<Rightarrow> x = y
      | _ \<Rightarrow> False)"

definition check_shadowing ::
    "string \<Rightarrow> nat \<Rightarrow> ByteTest \<Rightarrow> CompiledGuard \<Rightarrow> CompiledRule list \<Rightarrow> SpecError + unit" where
  "check_shadowing state rule_index test g earlier =
     fold_result (\<lambda>(earlier_index, earlier_rule) _.
       if \<not> same_guard (c_guard earlier_rule) g then Inr ()
       else if test = c_byte_test earlier_rule then Inl (AmbiguousTransition state earlier_index rule_index)
       else if is_subsumed_by test (c_byte_test earlier_rule) then Inl (UnreachableRule state rule_index earlier_index)
       else Inr ()) (enumerate 0 earlier) ()"

definition compile_rule ::
    "string \<Rightarrow> (string, nat) btree_map \<Rightarrow> (string, nat) btree_map \<Rightarrow> nat \<times> TransitionRule \<Rightarrow>
       CompiledRule list \<Rightarrow> SpecError + CompiledRule list" where
  "compile_rule name state_ids frame_ids indexed compiled =
     (let (rule_index, rule) = indexed
      in case compile_guard name rule_index (guard rule) frame_ids of
           Inl e \<Rightarrow> Inl e
         | Inr g \<Rightarrow>
             (case compile_action name rule_index (action rule) state_ids frame_ids g of
                Inl e \<Rightarrow> Inl e
              | Inr act \<Rightarrow>
                  (case check_shadowing name rule_index (byte_test rule) g compiled of
                     Inl e \<Rightarrow> Inl e
                   | Inr _ \<Rightarrow>
                       Inr (compiled @ [\<lparr>c_byte_test = byte_test rule, c_guard = g, c_action = act\<rparr>]))))"

definition compile_state ::
    "(string, nat) btree_map \<Rightarrow> (string, nat) btree_map \<Rightarrow> string \<times> StateSpec \<Rightarrow>
       (nat \<times> CompiledState) list \<Rightarrow> SpecError + (nat \<times> CompiledState) list" where
  "compile_state state_ids frame_ids entry compiled =
     (let (name, state_spec) = entry
      in if length (rules state_spec) > MAX_RULES_PER_STATE
         then Inl (TooManyRules name (length (rules state_spec)) MAX_RULES_PER_STATE)
         else case fold_result (compile_rule name state_ids frame_ids) (enumerate 0 (rules state_spec)) [] of
                Inl e \<Rightarrow> Inl e
              | Inr rs \<Rightarrow>
                  Inr (compiled @ [(the (bt_get state_ids name),
                    \<lparr>c_accepting = accepting state_spec, c_rules = rs\<rparr>)]))"


section \<open>The graph checks\<close>

datatype Mark = Unvisited | InProgress | Done

text \<open>Resolved \<^verbatim>\<open>Goto\<close> edges with the name and index of the rule that owns them, in source order.\<close>

definition goto_edges ::
    "GrammarSpecV1 \<Rightarrow> (string, nat) btree_map \<Rightarrow> ((nat \<times> nat) \<times> string \<times> nat) list" where
  "goto_edges v1 state_ids =
     concat (map (\<lambda>(name, state_spec).
       List.map_filter (\<lambda>(rule_index, rule).
         case action rule of
           ActGoto target \<Rightarrow>
             map_option (\<lambda>to. ((the (bt_get state_ids name), to), name, rule_index)) (bt_get state_ids target)
         | _ \<Rightarrow> None) (enumerate 0 (rules state_spec))) (states v1))"

definition edge_table :: "nat \<Rightarrow> ((nat \<times> nat) \<times> string \<times> nat) list \<Rightarrow> nat list list" where
  "edge_table count es =
     fold (\<lambda>((from, to), _) edges. edges[from := edges ! from @ [to]]) es (replicate count [])"

text \<open>
  One depth-first search: the inner loop, with the number of its iterations as first argument.
  The result is \<open>Inl (Some e)\<close> for the edge that closes a cycle, \<open>Inl None\<close> when the iterations
  are used up, and the marks otherwise.
\<close>

fun dfs_loop ::
    "nat \<Rightarrow> nat list list \<Rightarrow> Mark list \<Rightarrow> (nat \<times> nat) list \<Rightarrow> (nat \<times> nat) option + Mark list" where
  "dfs_loop 0 edges marks stack = Inl None"
| "dfs_loop (Suc n) edges marks stack =
     (case stack of
        [] \<Rightarrow> Inr marks
      | (node, next_edge) # stack \<Rightarrow>
          if length (edges ! node) \<le> next_edge then dfs_loop n edges (marks[node := Done]) stack
          else let stack = (node, next_edge + 1) # stack;
                   neighbor = edges ! node ! next_edge
               in case marks ! neighbor of
                    InProgress \<Rightarrow> Inl (Some (node, neighbor))
                  | Unvisited \<Rightarrow> dfs_loop n edges (marks[neighbor := InProgress]) ((neighbor, 0) # stack)
                  | Done \<Rightarrow> dfs_loop n edges marks stack)"

definition dfs_from :: "nat list list \<Rightarrow> nat \<Rightarrow> Mark list \<Rightarrow> (nat \<times> nat) option + Mark list" where
  "dfs_from edges start marks =
     (if marks ! start \<noteq> Unvisited then Inr marks
      else dfs_loop (GRAPH_TRAVERSAL_BUDGET + 1) edges (marks[start := InProgress]) [(start, 0)])"

definition check_goto_acyclic :: "GrammarSpecV1 \<Rightarrow> (string, nat) btree_map \<Rightarrow> SpecError + unit" where
  "check_goto_acyclic v1 state_ids =
     (let owning_rule = goto_edges v1 state_ids;
          edges = edge_table (length state_ids) owning_rule
      in case fold_result (dfs_from edges) [0..<length state_ids] (replicate (length state_ids) Unvisited) of
           Inl (Some edge) \<Rightarrow> (let (state, rule_index) = the (map_of owning_rule edge) in Inl (CyclicGoto state rule_index))
         | Inl None \<Rightarrow> Inl (CyclicGoto (spec_start v1) 0)
         | Inr _ \<Rightarrow> Inr ())"

definition action_target :: "CompiledAction \<Rightarrow> nat option" where
  "action_target act =
     (case act of CNext s \<Rightarrow> Some s | CPush _ s \<Rightarrow> Some s | CPop s \<Rightarrow> Some s | CGoto s \<Rightarrow> Some s | CDead \<Rightarrow> None)"

definition visit_target :: "CompiledRule \<Rightarrow> bool list \<times> nat list \<Rightarrow> bool list \<times> nat list" where
  "visit_target rule st =
     (let (seen, stack) = st
      in case action_target (c_action rule) of
           Some next \<Rightarrow> if \<not> seen ! next then (seen[next := True], next # stack) else (seen, stack)
         | None \<Rightarrow> (seen, stack))"

fun reach_loop :: "nat \<Rightarrow> CompiledAutomaton \<Rightarrow> bool list \<Rightarrow> nat list \<Rightarrow> bool" where
  "reach_loop 0 a seen stack = False"
| "reach_loop (Suc n) a seen stack =
     (case stack of
        [] \<Rightarrow> False
      | state # stack \<Rightarrow>
          if is_accepting_state a state then True
          else case get_at (a_states a) state of
                 None \<Rightarrow> reach_loop n a seen stack
               | Some compiled \<Rightarrow>
                   let (seen, stack) = fold visit_target (c_rules compiled) (seen, stack)
                   in reach_loop n a seen stack)"

definition check_reachable_accept :: "CompiledAutomaton \<Rightarrow> string \<Rightarrow> SpecError + unit" where
  "check_reachable_accept a start_name =
     (if reach_loop (MAX_STATES + 1) a ((replicate (length (a_states a)) False)[a_start a := True]) [a_start a]
      then Inr () else Inl (NoReachableAccept start_name))"


section \<open>Compilation\<close>

definition insert_frame :: "nat \<times> string \<Rightarrow> (string, nat) btree_map \<Rightarrow> SpecError + (string, nat) btree_map" where
  "insert_frame indexed frame_ids =
     (let (index, frame) = indexed
      in if bt_contains frame_ids frame then Inl (DuplicateFrame frame) else Inr (bt_insert frame index frame_ids))"

definition state_ids_of :: "(string, StateSpec) btree_map \<Rightarrow> (string, nat) btree_map" where
  "state_ids_of ss = fold (\<lambda>(index, name). bt_insert name index) (enumerate 0 (map fst ss)) []"

definition compile_v1 :: "GrammarSpecV1 \<Rightarrow> SpecError + CompiledAutomaton" where
  "compile_v1 v1 =
     (if length (frames v1) > MAX_FRAMES then Inl (TooManyFrames (length (frames v1)) MAX_FRAMES)
      else case fold_result insert_frame (enumerate 0 (frames v1)) [] of
        Inl e \<Rightarrow> Inl e
      | Inr frame_ids \<Rightarrow>
          if length (states v1) > MAX_STATES then Inl (TooManyStates (length (states v1)) MAX_STATES)
          else let state_ids = state_ids_of (states v1)
               in case bt_get state_ids (spec_start v1) of
                    None \<Rightarrow> Inl (UnknownStartState (spec_start v1))
                  | Some start \<Rightarrow>
                      let total_rules = sum_list (map (\<lambda>(_, s). length (rules s)) (states v1))
                      in if total_rules > MAX_TOTAL_RULES then Inl (TooManyTotalRules total_rules MAX_TOTAL_RULES)
                         else case fold_result (compile_state state_ids frame_ids) (states v1) [] of
                                Inl e \<Rightarrow> Inl e
                              | Inr compiled \<Rightarrow>
                                  let automaton = \<lparr>a_states = map snd (sort_key fst compiled), a_start = start,
                                        a_frame_count = length frame_ids, a_boundary_byte = boundary_byte v1,
                                        a_state_names = map fst (states v1), a_frame_names = frames v1\<rparr>
                                  in case check_goto_acyclic v1 state_ids of
                                       Inl e \<Rightarrow> Inl e
                                     | Inr _ \<Rightarrow>
                                         (case check_reachable_accept automaton (spec_start v1) of
                                            Inl e \<Rightarrow> Inl e
                                          | Inr _ \<Rightarrow> Inr automaton))"


section \<open>The driver\<close>

record rtn_pda =
  rtn_automaton :: CompiledAutomaton
  rtn_state :: nat
  rtn_stack :: "nat list"

definition rtn_new :: "CompiledAutomaton \<Rightarrow> rtn_pda" where
  "rtn_new a = \<lparr>rtn_automaton = a, rtn_state = a_start a, rtn_stack = []\<rparr>"

definition rtn_at :: "CompiledAutomaton \<Rightarrow> nat \<Rightarrow> rtn_pda" where
  "rtn_at a state = \<lparr>rtn_automaton = a, rtn_state = state, rtn_stack = []\<rparr>"

definition rtn_stack_top :: "rtn_pda \<Rightarrow> nat option" where
  "rtn_stack_top p = top_of (rtn_stack p)"

definition rtn_advance :: "char \<Rightarrow> rtn_pda \<Rightarrow> rtn_pda option" where
  "rtn_advance byte p =
     map_option (\<lambda>(state, stack). p\<lparr>rtn_state := state, rtn_stack := stack\<rparr>)
       (advance_with (auto_step (rtn_automaton p)) (rtn_state p, rtn_stack p) byte)"

definition rtn_is_accepting :: "rtn_pda \<Rightarrow> bool" where
  "rtn_is_accepting p \<longleftrightarrow> rtn_stack p = [] \<and> is_accepting_state (rtn_automaton p) (rtn_state p)"

definition rtn_reset :: "rtn_pda \<Rightarrow> rtn_pda" where
  "rtn_reset p = p\<lparr>rtn_state := a_start (rtn_automaton p), rtn_stack := []\<rparr>"

definition rtn_admits :: "char list \<Rightarrow> rtn_pda \<Rightarrow> bool" where
  "rtn_admits bytes p = admits_with (auto_step (rtn_automaton p)) bytes (rtn_state p) (rtn_stack p)"

definition rtn_probe :: "char list \<Rightarrow> rtn_pda \<Rightarrow> probe" where
  "rtn_probe bytes p =
     probe_with (auto_step (rtn_automaton p)) [0..<a_frame_count (rtn_automaton p)] bytes (rtn_state p) (rtn_stack p)"

end
