(* ===== verification/GotoCheck.thy ===== *)
theory GotoCheck
  imports GrammarSpec
begin

text \<open>
  The depth-first search of \<^verbatim>\<open>check_goto_acyclic\<close> is correct: on a graph whose nodes and edges number
  at most \<open>GRAPH_TRAVERSAL_BUDGET\<close> it finds no cycle exactly when there is none, and then yields an
  order of the nodes in which every edge points forward. Its iterations never run out.
\<close>

section \<open>Graphs, orders and the search's invariant\<close>

definition goto_rel :: "nat list list \<Rightarrow> (nat \<times> nat) set" where
  "goto_rel edges = {(n, m). n < length edges \<and> m \<in> set (edges ! n)}"

definition graph_ok :: "nat list list \<Rightarrow> bool" where
  "graph_ok edges \<longleftrightarrow> (\<forall>n<length edges. \<forall>m\<in>set (edges ! n). m < length edges)"

text \<open>Every node of the list has its successors further down the list.\<close>

fun topo :: "nat list list \<Rightarrow> nat list \<Rightarrow> bool" where
  "topo edges [] \<longleftrightarrow> True"
| "topo edges (n # ns) \<longleftrightarrow> n \<notin> set ns \<and> set (edges ! n) \<subseteq> set ns \<and> topo edges ns"

lemma topo_closed: "topo edges ns \<Longrightarrow> n \<in> set ns \<Longrightarrow> (n, m) \<in> (goto_rel edges)\<^sup>* \<Longrightarrow> m \<in> set ns"
proof (rotate_tac 2, induction rule: rtrancl_induct)
  case (step y z)
  have "set (edges ! x) \<subseteq> set ns" if "topo edges ns" "x \<in> set ns" for x ns
    using that by (induction ns) auto
  with step show ?case by (auto simp: goto_rel_def)
qed simp

lemma topo_no_cycle: "topo edges ns \<Longrightarrow> n \<in> set ns \<Longrightarrow> (n, n) \<notin> (goto_rel edges)\<^sup>+"
proof (induction ns)
  case (Cons x ns)
  show ?case
  proof (cases "n = x")
    case True
    show ?thesis
    proof
      assume "(n, n) \<in> (goto_rel edges)\<^sup>+"
      then obtain m where "(n, m) \<in> goto_rel edges" "(m, n) \<in> (goto_rel edges)\<^sup>*"
        by (meson tranclD)
      with Cons.prems True topo_closed [of edges ns m n] show False by (auto simp: goto_rel_def)
    qed
  next
    case False
    with Cons show ?thesis by simp
  qed
qed simp

lemma topo_acyclic: "topo edges ns \<Longrightarrow> {..<length edges} \<subseteq> set ns \<Longrightarrow> acyclic (goto_rel edges)"
proof (rule acyclicI, rule allI)
  fix n assume t: "topo edges ns" and all: "{..<length edges} \<subseteq> set ns"
  show "(n, n) \<notin> (goto_rel edges)\<^sup>+"
  proof
    assume c: "(n, n) \<in> (goto_rel edges)\<^sup>+"
    then have "n < length edges" by (metis (no_types, lifting) CollectD case_prodD goto_rel_def tranclD)
    with all topo_no_cycle [OF t] c show False by blast
  qed
qed

definition done_nodes :: "Mark list \<Rightarrow> nat set" where
  "done_nodes marks = {n. n < length marks \<and> marks ! n = Done}"

text \<open>Edges already followed from a stack entry lead to finished nodes or to the entry above.\<close>

fun followed :: "nat list list \<Rightarrow> Mark list \<Rightarrow> nat option \<Rightarrow> (nat \<times> nat) list \<Rightarrow> bool" where
  "followed edges marks upper [] \<longleftrightarrow> True"
| "followed edges marks upper ((n, k) # st) \<longleftrightarrow>
     k \<le> length (edges ! n) \<and>
     (\<forall>m\<in>set (take k (edges ! n)). m \<in> done_nodes marks \<or> upper = Some m) \<and>
     (case upper of None \<Rightarrow> True | Some m \<Rightarrow> (n, m) \<in> goto_rel edges) \<and>
     followed edges marks (Some n) st"

definition dfs_inv :: "nat list list \<Rightarrow> Mark list \<Rightarrow> (nat \<times> nat) list \<Rightarrow> bool" where
  "dfs_inv edges marks st \<longleftrightarrow>
     length marks = length edges \<and> distinct (map fst st) \<and>
     (\<forall>n<length edges. marks ! n = InProgress \<longleftrightarrow> n \<in> fst ` set st) \<and>
     fst ` set st \<subseteq> {..<length edges} \<and>
     followed edges marks None st \<and>
     (\<exists>fin. topo edges fin \<and> set fin = done_nodes marks)"

lemma followed_mono:
  "followed edges marks upper st \<Longrightarrow> done_nodes marks \<subseteq> done_nodes marks' \<Longrightarrow> followed edges marks' upper st"
  by (induction edges marks upper st rule: followed.induct) auto

text \<open>The stack is a path of the graph, so an edge back into it closes a cycle.\<close>

lemma followed_path:
  "followed edges marks upper st \<Longrightarrow> x \<in> fst ` set st \<Longrightarrow>
     (case upper of None \<Rightarrow> st \<noteq> [] \<and> (x, fst (hd st)) \<in> (goto_rel edges)\<^sup>* | Some m \<Rightarrow> (x, m) \<in> (goto_rel edges)\<^sup>*)"
proof (induction edges marks upper st rule: followed.induct)
  case (2 edges marks upper n k st)
  show ?case
  proof (cases "x = n")
    case True
    with "2.prems" show ?thesis by (auto split: option.splits)
  next
    case False
    with 2 have "(x, n) \<in> (goto_rel edges)\<^sup>*" by auto
    with "2.prems" show ?thesis by (auto split: option.splits intro: rtrancl_into_rtrancl)
  qed
qed simp


section \<open>One iteration keeps the invariant\<close>

lemma done_nodes_update:
  "n < length marks \<Longrightarrow> done_nodes (marks[n := Done]) = insert n (done_nodes marks)"
  "n < length marks \<Longrightarrow> marks ! n \<noteq> Done \<Longrightarrow> done_nodes (marks[n := InProgress]) = done_nodes marks"
  by (auto simp: done_nodes_def nth_list_update split: if_splits)

lemma dfs_inv_finish:
  assumes inv: "dfs_inv edges marks ((n, k) # st)" and k: "length (edges ! n) \<le> k"
  shows "dfs_inv edges (marks[n := Done]) st"
proof -
  from inv have n: "n < length marks" "n < length edges" "marks ! n = InProgress" and len: "length marks = length edges"
    by (auto simp: dfs_inv_def)
  from inv obtain fin where fin: "topo edges fin" "set fin = done_nodes marks" by (auto simp: dfs_inv_def)
  from inv k have succs: "set (edges ! n) \<subseteq> done_nodes marks" by (auto simp: dfs_inv_def)
  have "n \<notin> set fin" using fin(2) n by (simp add: done_nodes_def)
  with fin succs n have "topo edges (n # fin) \<and> set (n # fin) = done_nodes (marks[n := Done])"
    by (simp add: done_nodes_update)
  then have "\<exists>fin. topo edges fin \<and> set fin = done_nodes (marks[n := Done])" by blast
  moreover have "followed edges (marks[n := Done]) None st"
  proof (cases st)
    case (Cons e st')
    obtain n' k' where e: "e = (n', k')" by force
    from inv have f: "followed edges marks (Some n) st" by (simp add: dfs_inv_def)
    have "followed edges (marks[n := Done]) (Some n') st'"
      by (rule followed_mono [of _ marks]) (use f Cons e n in \<open>auto simp: done_nodes_update\<close>)
    with f Cons e n show ?thesis by (auto simp: done_nodes_update)
  qed simp
  ultimately show ?thesis using inv n len
    by (auto simp: dfs_inv_def nth_list_update)
qed

lemma dfs_inv_visit:
  assumes inv: "dfs_inv edges marks ((n, k) # st)" and ok: "graph_ok edges"
    and k: "k < length (edges ! n)" and m: "marks ! (edges ! n ! k) = Unvisited"
  shows "dfs_inv edges (marks[edges ! n ! k := InProgress]) ((edges ! n ! k, 0) # (n, k + 1) # st)"
proof -
  let ?m = "edges ! n ! k"
  from inv ok k have n: "n < length edges" and ml: "?m < length marks" "?m < length edges"
    by (auto simp: dfs_inv_def graph_ok_def)
  have nin: "?m \<notin> fst ` set ((n, k) # st)" using inv m ml unfolding dfs_inv_def by (metis Mark.distinct(1))
  have done_eq: "done_nodes (marks[?m := InProgress]) = done_nodes marks"
    using ml m by (simp add: done_nodes_update)
  have "followed edges marks (Some n) st" using inv by (simp add: dfs_inv_def)
  then have "followed edges (marks[?m := InProgress]) (Some n) st"
    by (rule followed_mono) (simp add: done_eq)
  with inv n ml nin k done_eq show ?thesis
    by (auto simp: dfs_inv_def nth_list_update take_Suc_conv_app_nth goto_rel_def)
qed

lemma dfs_inv_skip:
  assumes inv: "dfs_inv edges marks ((n, k) # st)" and ok: "graph_ok edges"
    and k: "k < length (edges ! n)" and m: "marks ! (edges ! n ! k) = Done"
  shows "dfs_inv edges marks ((n, k + 1) # st)"
proof -
  have "edges ! n ! k \<in> done_nodes marks"
    using inv ok k m by (auto simp: dfs_inv_def graph_ok_def done_nodes_def)
  with inv k show ?thesis
    by (auto simp: dfs_inv_def take_Suc_conv_app_nth)
qed

lemma dfs_inv_cycle:
  assumes inv: "dfs_inv edges marks ((n, k) # st)" and ok: "graph_ok edges"
    and k: "k < length (edges ! n)" and m: "marks ! (edges ! n ! k) = InProgress"
  shows "\<not> acyclic (goto_rel edges)" and "(n, edges ! n ! k) \<in> goto_rel edges"
proof -
  let ?m = "edges ! n ! k"
  from inv ok k have n: "n < length edges" "?m < length edges" by (auto simp: dfs_inv_def graph_ok_def)
  with k show e: "(n, ?m) \<in> goto_rel edges" by (simp add: goto_rel_def)
  from inv n m have "?m \<in> fst ` set ((n, k) # st)" by (simp add: dfs_inv_def)
  with inv followed_path [of edges marks None "(n, k) # st" ?m] have "(?m, n) \<in> (goto_rel edges)\<^sup>*"
    by (auto simp: dfs_inv_def)
  with e show "\<not> acyclic (goto_rel edges)" by (auto simp: acyclic_def dest: rtrancl_into_trancl1)
qed


section \<open>The iterations suffice\<close>

definition node_cost :: "nat list list \<Rightarrow> nat \<Rightarrow> nat" where
  "node_cost edges n = length (edges ! n) + 1"

definition unvisited_cost :: "nat list list \<Rightarrow> Mark list \<Rightarrow> nat" where
  "unvisited_cost edges marks = (\<Sum>n\<in>{n. n < length edges \<and> marks ! n = Unvisited}. node_cost edges n)"

definition stack_cost :: "nat list list \<Rightarrow> (nat \<times> nat) list \<Rightarrow> nat" where
  "stack_cost edges st = sum_list (map (\<lambda>(n, k). length (edges ! n) - k + 1) st)"

definition graph_size :: "nat list list \<Rightarrow> nat" where
  "graph_size edges = (\<Sum>n<length edges. node_cost edges n)"

lemma unvisited_cost_visit:
  assumes "m < length edges" "length marks = length edges" "marks ! m = Unvisited" "x \<noteq> Unvisited"
  shows "unvisited_cost edges marks = node_cost edges m + unvisited_cost edges (marks[m := x])"
proof -
  have "{n. n < length edges \<and> marks ! n = Unvisited} =
        insert m {n. n < length edges \<and> marks[m := x] ! n = Unvisited}"
    using assms by (auto simp: nth_list_update)
  moreover have "m \<notin> {n. n < length edges \<and> marks[m := x] ! n = Unvisited}" using assms by simp
  ultimately show ?thesis by (simp add: unvisited_cost_def)
qed

lemma unvisited_cost_keep:
  "marks ! m \<noteq> Unvisited \<Longrightarrow> x \<noteq> Unvisited \<Longrightarrow> unvisited_cost edges (marks[m := x]) = unvisited_cost edges marks"
  by (cases "m < length marks") (auto simp: unvisited_cost_def nth_list_update list_update_beyond intro!: sum.cong)

lemma unvisited_cost_le: "unvisited_cost edges marks \<le> graph_size edges"
  unfolding unvisited_cost_def graph_size_def by (rule sum_mono2) auto

definition grows :: "Mark list \<Rightarrow> Mark list \<Rightarrow> bool" where
  "grows marks marks' \<longleftrightarrow> (\<forall>n. marks ! n \<noteq> Unvisited \<longrightarrow> marks' ! n \<noteq> Unvisited)"

lemma grows_update: "x \<noteq> Unvisited \<Longrightarrow> grows marks (marks[n := x])"
  by (cases "n < length marks") (auto simp: grows_def nth_list_update list_update_beyond)

lemma grows_trans: "grows a b \<Longrightarrow> grows b c \<Longrightarrow> grows a c"
  by (simp add: grows_def)

lemma dfs_loop_correct:
  assumes "dfs_inv edges marks st" "graph_ok edges" "unvisited_cost edges marks + stack_cost edges st < n"
  shows "case dfs_loop n edges marks st of
           Inl None \<Rightarrow> False
         | Inl (Some e) \<Rightarrow> \<not> acyclic (goto_rel edges) \<and> e \<in> goto_rel edges
         | Inr marks' \<Rightarrow> dfs_inv edges marks' [] \<and> grows marks marks'"
  using assms
proof (induction n edges marks st rule: dfs_loop.induct)
  case (2 n edges marks st)
  note inv = "2.prems"(1) and ok = "2.prems"(2)
  show ?case
  proof (cases st)
    case Nil
    with 2 show ?thesis by (simp add: grows_def)
  next
    case (Cons e rest)
    obtain node k where e: "e = (node, k)" by force
    have inv': "dfs_inv edges marks ((node, k) # rest)" using inv Cons e by simp
    have nd: "marks ! node \<noteq> Unvisited" "length marks = length edges" using inv' by (auto simp: dfs_inv_def)
    show ?thesis
    proof (cases "length (edges ! node) \<le> k")
      case True
      from "2.IH"(1) [OF Cons e [symmetric] True dfs_inv_finish [OF inv' True] ok] "2.prems"(3) Cons e nd True
      show ?thesis
        by (auto simp: stack_cost_def unvisited_cost_keep split: sum.splits option.splits
            intro: grows_trans [OF grows_update])
    next
      case False
      then have k: "k < length (edges ! node)" by simp
      let ?m = "edges ! node ! k"
      have ml: "?m < length edges" using inv' ok k by (auto simp: dfs_inv_def graph_ok_def)
      show ?thesis
      proof (cases "marks ! ?m")
        case Unvisited
        have fuel: "unvisited_cost edges (marks[?m := InProgress]) +
            stack_cost edges ((?m, 0) # (node, k + 1) # rest) < n"
          using "2.prems"(3) Cons e k unvisited_cost_visit [OF ml nd(2) Unvisited, of InProgress]
          by (simp add: stack_cost_def node_cost_def)
        from "2.IH"(2) [OF Cons e [symmetric] False refl refl Unvisited
            dfs_inv_visit [OF inv' ok k Unvisited] ok fuel]
        show ?thesis using Cons e k Unvisited
          by (auto simp: Let_def split: sum.splits option.splits intro: grows_trans [OF grows_update])
      next
        case InProgress
        with Cons e k dfs_inv_cycle [OF inv' ok k InProgress] show ?thesis by simp
      next
        case Done
        have fuel: "unvisited_cost edges marks + stack_cost edges ((node, k + 1) # rest) < n"
          using "2.prems"(3) Cons e k by (simp add: stack_cost_def)
        from "2.IH"(3) [OF Cons e [symmetric] False refl refl Done
            dfs_inv_skip [OF inv' ok k Done] ok fuel]
        show ?thesis using Cons e k Done by (simp add: Let_def)
      qed
    qed
  qed
qed simp


section \<open>The search over all nodes\<close>

lemma dfs_from_correct:
  assumes inv: "dfs_inv edges marks []" and ok: "graph_ok edges" and start: "start < length edges"
    and size: "graph_size edges \<le> GRAPH_TRAVERSAL_BUDGET"
  shows "case dfs_from edges start marks of
           Inl None \<Rightarrow> False
         | Inl (Some e) \<Rightarrow> \<not> acyclic (goto_rel edges) \<and> e \<in> goto_rel edges
         | Inr marks' \<Rightarrow> dfs_inv edges marks' [] \<and> grows marks marks' \<and> marks' ! start \<noteq> Unvisited"
proof (cases "marks ! start = Unvisited")
  case True
  let ?marks = "marks[start := InProgress]"
  have len: "length marks = length edges" using inv by (simp add: dfs_inv_def)
  have "dfs_inv edges ?marks [(start, 0)]"
    using inv start True by (auto simp: dfs_inv_def nth_list_update done_nodes_update)
  moreover have "unvisited_cost edges ?marks + stack_cost edges [(start, 0)] < GRAPH_TRAVERSAL_BUDGET + 1"
    using unvisited_cost_visit [OF start len True, of InProgress] unvisited_cost_le [of edges marks] size
    by (simp add: stack_cost_def node_cost_def)
  ultimately have post: "case dfs_loop (GRAPH_TRAVERSAL_BUDGET + 1) edges ?marks [(start, 0)] of
      Inl None \<Rightarrow> False
    | Inl (Some e) \<Rightarrow> \<not> acyclic (goto_rel edges) \<and> e \<in> goto_rel edges
    | Inr marks' \<Rightarrow> dfs_inv edges marks' [] \<and> grows ?marks marks'"
    by (rule dfs_loop_correct [OF _ ok])
  have up: "grows marks ?marks" by (rule grows_update) simp
  have st: "?marks ! start = InProgress" using start len by simp
  have "grows marks marks' \<and> marks' ! start \<noteq> Unvisited" if g: "grows ?marks marks'" for marks'
    using grows_trans [OF up g] g st unfolding grows_def by (metis Mark.distinct(1))
  with post True show ?thesis
    by (auto simp: dfs_from_def simp del: dfs_loop.simps split: sum.splits option.splits)
next
  case False
  with inv show ?thesis by (simp add: dfs_from_def grows_def)
qed

lemma dfs_all_correct:
  assumes "dfs_inv edges marks []" "graph_ok edges" "graph_size edges \<le> GRAPH_TRAVERSAL_BUDGET"
    "set starts \<subseteq> {..<length edges}"
  shows "case fold_result (dfs_from edges) starts marks of
           Inl None \<Rightarrow> False
         | Inl (Some e) \<Rightarrow> \<not> acyclic (goto_rel edges) \<and> e \<in> goto_rel edges
         | Inr marks' \<Rightarrow> dfs_inv edges marks' [] \<and> grows marks marks' \<and> (\<forall>n\<in>set starts. marks' ! n \<noteq> Unvisited)"
  using assms(1,4)
proof (induction starts arbitrary: marks)
  case Nil
  then show ?case by (simp add: grows_def)
next
  case (Cons x starts)
  have x: "x < length edges" using Cons.prems by simp
  note post = dfs_from_correct [OF Cons.prems(1) assms(2) x assms(3)]
  show ?case
  proof (cases "dfs_from edges x marks")
    case (Inl e)
    with post show ?thesis by simp
  next
    case (Inr marks')
    with post have p: "dfs_inv edges marks' []" "grows marks marks'" "marks' ! x \<noteq> Unvisited" by auto
    have "grows marks' m \<Longrightarrow> grows marks m \<and> m ! x \<noteq> Unvisited" for m
      using p grows_trans by (auto simp: grows_def)
    with Cons.IH [OF p(1)] Cons.prems Inr show ?thesis
      by (auto split: sum.splits option.splits)
  qed
qed

lemma dfs_inv_init: "dfs_inv edges (replicate (length edges) Unvisited) []"
  by (auto simp: dfs_inv_def done_nodes_def intro!: exI [of _ "[]"])

text \<open>What the search decides.\<close>

lemma goto_search:
  assumes ok: "graph_ok edges" and size: "graph_size edges \<le> GRAPH_TRAVERSAL_BUDGET"
  shows "case fold_result (dfs_from edges) [0..<length edges] (replicate (length edges) Unvisited) of
           Inl None \<Rightarrow> False
         | Inl (Some e) \<Rightarrow> \<not> acyclic (goto_rel edges) \<and> e \<in> goto_rel edges
         | Inr marks' \<Rightarrow> acyclic (goto_rel edges) \<and> (\<exists>fin. topo edges fin \<and> set fin = {..<length edges})"
proof -
  note post = dfs_all_correct [OF dfs_inv_init ok size, of "[0..<length edges]"]
  have "acyclic (goto_rel edges) \<and> (\<exists>fin. topo edges fin \<and> set fin = {..<length edges})"
    if inv: "dfs_inv edges marks []" and vis: "\<forall>n<length edges. marks ! n \<noteq> Unvisited" for marks
  proof -
    from inv have nip: "\<forall>n<length edges. marks ! n \<noteq> InProgress" and len: "length marks = length edges"
      by (auto simp: dfs_inv_def)
    with vis have "marks ! n = Done" if "n < length edges" for n
      using that by (cases "marks ! n") auto
    with len have "done_nodes marks = {..<length edges}" by (auto simp: done_nodes_def)
    with inv obtain fin where "topo edges fin" "set fin = {..<length edges}" by (auto simp: dfs_inv_def)
    then show ?thesis using topo_acyclic by blast
  qed
  with post show ?thesis
    by (auto simp: lessThan_atLeast0 split: sum.splits option.splits)
qed

end
