(* ===== verification/SpecCompile.thy ===== *)
theory SpecCompile
  imports GotoCheck
begin

text \<open>
  What compilation of a declarative grammar establishes: ids are positions in the ordered map of
  states, every compiled rule is well-formed, and the edges searched for cycles are exactly the
  \<^verbatim>\<open>Goto\<close> actions of the compiled automaton.
\<close>

section \<open>Numbering of states and frames\<close>

lemma map_of_zip_upt:
  "distinct ks \<Longrightarrow> map_of (zip ks [0..<length ks]) k = Some i \<longleftrightarrow> i < length ks \<and> ks ! i = k"
  by (auto simp: set_zip)

lemma state_ids_of_eq:
  assumes "bt_ok ss"
  shows "state_ids_of ss = zip (map fst ss) [0..<length ss]" (is "_ = ?zip")
proof (rule bt.ext_eq)
  have d: "distinct (map fst ss)" using assms by (rule bt_ok_distinct)
  have ok: "bt_ok ([] :: (string, nat) btree_map)" by (simp add: bt_ok_def)
  let ?e = "enumerate 0 (map fst ss)"
  have eq: "state_ids_of ss = fold (\<lambda>x m. bt_insert (snd x) (fst x) m) ?e []"
    by (simp add: state_ids_of_def case_prod_unfold)
  show "bt_ok (state_ids_of ss)" unfolding eq by (rule bt.fold_insert_ok [OF ok])
  show "bt_ok ?zip" using assms by (simp add: bt_ok_def map_fst_zip_take)
  fix k
  have "bt_get (state_ids_of ss) k = (case find (\<lambda>x. snd x = k) ?e of Some x \<Rightarrow> Some (fst x) | None \<Rightarrow> None)"
    unfolding eq using d by (subst bt.get_fold_insert [OF ok]) (simp_all add: bt.get_empty cong: option.case_cong)
  also have "\<dots> = map_of ?zip k"
  proof (cases "find (\<lambda>x. snd x = k) ?e")
    case None
    then have "k \<notin> set (map snd ?e)" by (auto simp: find_None_iff image_iff simp del: map_snd_enumerate)
    then have "k \<notin> set (map fst ss)" unfolding map_snd_enumerate .
    then have "map_of ?zip k = None" by (subst map_of_zip_is_None) simp_all
    then show ?thesis unfolding None by (simp only: option.case)
  next
    case (Some x)
    then have "x \<in> set ?e" "snd x = k" by (auto simp: find_Some_iff)
    then have "map_of ?zip k = Some (fst x)"
      using map_of_zip_upt [OF d, of k "fst x"] by (auto simp: in_set_enumerate_eq)
    with Some show ?thesis by simp
  qed
  finally show "bt_get (state_ids_of ss) k = bt_get ?zip k" by (simp add: bt_get_def)
qed

lemma state_ids_get:
  "bt_ok ss \<Longrightarrow> bt_get (state_ids_of ss) name = Some i \<longleftrightarrow> i < length ss \<and> fst (ss ! i) = name"
  using map_of_zip_upt [OF bt_ok_distinct, of ss name i] by (auto simp: state_ids_of_eq bt_get_def)

lemma length_state_ids: "bt_ok ss \<Longrightarrow> length (state_ids_of ss) = length ss"
  by (simp add: state_ids_of_eq)

lemma insert_frames:
  assumes "fold_result insert_frame (enumerate n fs) m = Inr m'" "bt_ok m" "\<And>f i. bt_get m f = Some i \<Longrightarrow> i < n" "length m = n"
  shows "bt_ok m' \<and> length m' = n + length fs \<and> (\<forall>f i. bt_get m' f = Some i \<longrightarrow> i < n + length fs)"
  using assms
proof (induction fs arbitrary: n m)
  case Nil
  then show ?case by auto
next
  case (Cons f fs)
  have ins: "insert_frame (n, f) m = (if bt_contains m f then Inl (DuplicateFrame f) else Inr (bt_insert f n m))"
    by (simp add: insert_frame_def)
  from Cons.prems(1) have new: "bt_get m f = None"
    and rest: "fold_result insert_frame (enumerate (Suc n) fs) (bt_insert f n m) = Inr m'"
    by (auto simp: ins bt_contains_def split: if_splits)
  have len: "length (bt_insert k v m) = Suc (length m)" if "bt_ok m" "bt_get m k = None" for k v and m :: "(string, nat) btree_map"
    using that by (induction k v m rule: bt_insert.induct) (auto simp: bt_get_def bt_ok_Cons split: if_splits)
  have "\<And>g i. bt_get (bt_insert f n m) g = Some i \<Longrightarrow> i < Suc n"
    using Cons.prems by (auto simp: bt_get_insert less_Suc_eq split: if_splits)
  from Cons.IH [OF rest bt_insert_ok [OF Cons.prems(2)] this] len [OF Cons.prems(2) new] Cons.prems(4)
  show ?case by simp
qed


section \<open>Loops that collect results\<close>

lemma list_all2_setD: "list_all2 R xs ys \<Longrightarrow> y \<in> set ys \<Longrightarrow> \<exists>x\<in>set xs. R x y"
  by (induction rule: list_all2_induct) auto

lemma fold_result_collect:
  assumes "fold_result f xs acc = Inr acc'"
    and "\<And>x acc acc'. x \<in> set xs \<Longrightarrow> f x acc = Inr acc' \<Longrightarrow> \<exists>y. acc' = acc @ [y] \<and> R x y"
  shows "\<exists>ys. acc' = acc @ ys \<and> list_all2 R xs ys"
  using assms
proof (induction xs arbitrary: acc)
  case (Cons x xs)
  from Cons.prems(1) obtain a where a: "f x acc = Inr a" and r: "fold_result f xs a = Inr acc'"
    by (auto split: sum.splits)
  from Cons.prems(2) [OF _ a] obtain y where y: "a = acc @ [y]" "R x y" by auto
  have "\<exists>ys. acc' = a @ ys \<and> list_all2 R xs ys"
    by (rule Cons.IH [OF r]) (use Cons.prems(2) in auto)
  with y show ?case by force
qed simp


section \<open>Well-formed rules\<close>

definition action_ok :: "nat \<Rightarrow> nat \<Rightarrow> CompiledGuard \<Rightarrow> CompiledAction \<Rightarrow> bool" where
  "action_ok ns nf g act \<longleftrightarrow>
     (case act of
        CNext s \<Rightarrow> s < ns
      | CPush f s \<Rightarrow> f < nf \<and> s < ns
      | CPop s \<Rightarrow> guards_pop g \<and> s < ns
      | CGoto s \<Rightarrow> s < ns
      | CDead \<Rightarrow> True)"

definition guard_ok :: "nat \<Rightarrow> CompiledGuard \<Rightarrow> bool" where
  "guard_ok nf g \<longleftrightarrow> (case g of CStackTopIs f \<Rightarrow> f < nf | CStackTopIsNot f \<Rightarrow> f < nf | _ \<Rightarrow> True)"

definition rule_ok :: "nat \<Rightarrow> nat \<Rightarrow> CompiledRule \<Rightarrow> bool" where
  "rule_ok ns nf rule \<longleftrightarrow>
     guard_ok nf (c_guard rule) \<and> action_ok ns nf (c_guard rule) (c_action rule)"

definition automaton_ok :: "CompiledAutomaton \<Rightarrow> bool" where
  "automaton_ok a \<longleftrightarrow>
     a_start a < state_count a \<and> state_count a \<le> MAX_STATES \<and> a_frame_count a \<le> MAX_FRAMES \<and>
     length (a_state_names a) = state_count a \<and> length (a_frame_names a) = a_frame_count a \<and>
     (\<forall>s\<in>set (a_states a). length (c_rules s) \<le> MAX_RULES_PER_STATE \<and>
        (\<forall>r\<in>set (c_rules s). rule_ok (state_count a) (a_frame_count a) r))"

text \<open>What the compiled form of a rule keeps of its source, relative to the numbering.\<close>

definition rule_rel ::
    "(string, nat) btree_map \<Rightarrow> TransitionRule \<Rightarrow> CompiledRule \<Rightarrow> bool" where
  "rule_rel state_ids rule c \<longleftrightarrow>
     c_byte_test c = byte_test rule \<and>
     (\<forall>t. c_action c = CGoto t \<longleftrightarrow> (\<exists>target. action rule = ActGoto target \<and> bt_get state_ids target = Some t))"

lemma frame_resolve_Inr: "frame_resolve st i ids f = Inr j \<longleftrightarrow> bt_get ids f = Some j"
  by (simp add: frame_resolve_def split: option.splits)

lemma state_resolve_Inr: "state_resolve st i ids f = Inr j \<longleftrightarrow> bt_get ids f = Some j"
  by (simp add: state_resolve_def split: option.splits)

lemma map_sum_Inr: "map_sum (\<lambda>e. e) h x = Inr y \<longleftrightarrow> (\<exists>z. x = Inr z \<and> h z = y)"
  by (cases x) auto

lemmas resolve_simps = frame_resolve_Inr state_resolve_Inr map_sum_Inr

lemma compile_rule_ok:
  assumes "compile_rule name state_ids frame_ids (i, rule) acc = Inr acc'"
    and "\<And>s j. bt_get state_ids s = Some j \<Longrightarrow> j < ns" "\<And>f j. bt_get frame_ids f = Some j \<Longrightarrow> j < nf"
  shows "\<exists>c. acc' = acc @ [c] \<and> rule_ok ns nf c \<and> rule_rel state_ids rule c"
  using assms
  by (auto simp: compile_rule_def compile_guard_def compile_action_def rule_ok_def guard_ok_def action_ok_def
      rule_rel_def resolve_simps split: sum.splits Guard.splits Action.splits if_splits)

section \<open>The compiled states\<close>

definition state_rel :: "(string, nat) btree_map \<Rightarrow> nat \<Rightarrow> string \<times> StateSpec \<Rightarrow> nat \<times> CompiledState \<Rightarrow> bool" where
  "state_rel state_ids nf entry c \<longleftrightarrow>
     fst c = the (bt_get state_ids (fst entry)) \<and> c_accepting (snd c) = accepting (snd entry) \<and>
     length (c_rules (snd c)) \<le> MAX_RULES_PER_STATE \<and>
     (\<forall>r\<in>set (c_rules (snd c)). rule_ok (length state_ids) nf r) \<and>
     list_all2 (rule_rel state_ids) (rules (snd entry)) (c_rules (snd c))"

lemma compile_state_rel:
  assumes "compile_state state_ids frame_ids entry acc = Inr acc'"
    and ids: "\<And>s j. bt_get state_ids s = Some j \<Longrightarrow> j < length state_ids"
      "\<And>f j. bt_get frame_ids f = Some j \<Longrightarrow> j < nf"
  shows "\<exists>c. acc' = acc @ [c] \<and> state_rel state_ids nf entry c"
proof -
  obtain name st where entry: "entry = (name, st)" by force
  let ?R = "\<lambda>(i, rule) c. rule_ok (length state_ids) nf c \<and> rule_rel state_ids rule c"
  from assms(1) entry obtain cs where bound: "length (rules st) \<le> MAX_RULES_PER_STATE"
    and cs: "fold_result (compile_rule name state_ids frame_ids) (enumerate 0 (rules st)) [] = Inr cs"
    and acc': "acc' = acc @ [(the (bt_get state_ids name), \<lparr>c_accepting = accepting st, c_rules = cs\<rparr>)]"
    by (auto simp: compile_state_def split: if_splits sum.splits)
  have all: "list_all2 ?R (enumerate 0 (rules st)) cs"
    using fold_result_collect [OF cs, of ?R] compile_rule_ok [OF _ ids] by fastforce
  then have "list_all2 (rule_rel state_ids) (rules st) cs"
    by (auto simp: list_all2_conv_all_nth nth_enumerate_eq)
  moreover have "\<forall>r\<in>set cs. rule_ok (length state_ids) nf r"
    using list_all2_setD [OF all] by auto
  ultimately show ?thesis using acc' entry bound all
    by (auto simp: state_rel_def dest: list_all2_lengthD)
qed

lemma compile_states_rel:
  assumes "fold_result (compile_state (state_ids_of ss) frame_ids) ss [] = Inr compiled" and ok: "bt_ok ss"
    and fr: "\<forall>f j. bt_get frame_ids f = Some j \<longrightarrow> j < nf"
  shows "list_all2 (state_rel (state_ids_of ss) nf) ss compiled" "sort_key fst compiled = compiled"
proof -
  have ids: "\<And>s j. bt_get (state_ids_of ss) s = Some j \<Longrightarrow> j < length (state_ids_of ss)"
    using state_ids_get [OF ok] length_state_ids [OF ok] by simp
  show rel: "list_all2 (state_rel (state_ids_of ss) nf) ss compiled"
    using fold_result_collect [OF assms(1), of "state_rel (state_ids_of ss) nf"] compile_state_rel [OF _ ids fr [rule_format]]
    by fastforce
  have "map fst compiled = [0..<length ss]"
  proof (rule nth_equalityI)
    fix i assume i: "i < length (map fst compiled)"
    with rel have "bt_get (state_ids_of ss) (fst (ss ! i)) = Some i" "i < length ss"
      using state_ids_get [OF ok, of "fst (ss ! i)" i] by (auto dest: list_all2_lengthD)
    with rel i show "map fst compiled ! i = [0..<length ss] ! i"
      by (auto simp: list_all2_conv_all_nth state_rel_def)
  qed (use rel in \<open>simp add: list_all2_lengthD\<close>)
  then show "sort_key fst compiled = compiled" by (simp add: sort_key_id_if_sorted)
qed

text \<open>A successful compilation taken apart.\<close>

lemma compile_v1_Inr:
  assumes "compile_v1 v1 = Inr a" and ok: "bt_ok (states v1)"
  obtains compiled where
    "a_states a = map snd compiled" "a_frame_count a = length (frames v1)"
    "list_all2 (state_rel (state_ids_of (states v1)) (length (frames v1))) (states v1) compiled"
    "check_goto_acyclic v1 (state_ids_of (states v1)) = Inr ()"
    "check_reachable_accept a (spec_start v1) = Inr ()" "automaton_ok a"
    "a_state_names a ! a_start a = spec_start v1"
    "sum_list (map (\<lambda>(_, s). length (rules s)) (states v1)) \<le> MAX_TOTAL_RULES"
proof -
  let ?ids = "state_ids_of (states v1)"
  from assms(1) obtain frame_ids start compiled where
    fr: "length (frames v1) \<le> MAX_FRAMES" "fold_result insert_frame (enumerate 0 (frames v1)) [] = Inr frame_ids"
    and st: "length (states v1) \<le> MAX_STATES" "bt_get ?ids (spec_start v1) = Some start"
    and tot: "sum_list (map (\<lambda>(_, s). length (rules s)) (states v1)) \<le> MAX_TOTAL_RULES"
    and comp: "fold_result (compile_state ?ids frame_ids) (states v1) [] = Inr compiled"
    and a: "a = \<lparr>a_states = map snd (sort_key fst compiled), a_start = start, a_frame_count = length frame_ids,
        a_boundary_byte = boundary_byte v1, a_state_names = map fst (states v1), a_frame_names = frames v1\<rparr>"
    and checks: "check_goto_acyclic v1 ?ids = Inr ()" "check_reachable_accept a (spec_start v1) = Inr ()"
    by (auto simp: compile_v1_def Let_def split: if_splits sum.splits option.splits)
  have lenf: "length frame_ids = length (frames v1)"
    and fids: "\<forall>f j. bt_get frame_ids f = Some j \<longrightarrow> j < length (frames v1)"
    using insert_frames [OF fr(2)] by (auto simp: bt_ok_def bt_get_def)
  note rel = compile_states_rel [OF comp ok fids]
  have len: "length compiled = length (states v1)" using rel(1) by (simp add: list_all2_lengthD)
  have start: "start < length (states v1)" "fst (states v1 ! start) = spec_start v1"
    using state_ids_get [OF ok] st(2) by auto
  have "\<forall>c\<in>set compiled. length (c_rules (snd c)) \<le> MAX_RULES_PER_STATE \<and>
      (\<forall>r\<in>set (c_rules (snd c)). rule_ok (length (states v1)) (length (frames v1)) r)"
    using list_all2_setD [OF rel(1)] by (fastforce simp: state_rel_def length_state_ids [OF ok])
  then have "automaton_ok a"
    using a start st(1) fr(1) lenf len rel(2) by (auto simp: automaton_ok_def state_count_def)
  then show thesis
    using that rel a checks tot lenf start by simp
qed

section \<open>The searched graph\<close>

lemma edge_table_nth:
  assumes "\<forall>e\<in>set es. fst (fst e) < n"
  shows "length (edge_table n es) = n"
    and "i < n \<Longrightarrow> edge_table n es ! i = map (snd \<circ> fst) (filter (\<lambda>e. fst (fst e) = i) es)"
proof -
  let ?f = "\<lambda>((from, to), _) edges. edges[from := edges ! from @ [to]]"
  have *: "length (fold ?f es tab) = length tab \<and>
      (\<forall>i<length tab. fold ?f es tab ! i = tab ! i @ map (snd \<circ> fst) (filter (\<lambda>e. fst (fst e) = i) es))"
    if "\<forall>e\<in>set es. fst (fst e) < length tab" for tab
    using that
  proof (induction es arbitrary: tab)
    case (Cons e es)
    obtain a b rest where e: "e = ((a, b), rest)" by (metis surj_pair)
    have "\<forall>e\<in>set es. fst (fst e) < length (tab[a := tab ! a @ [b]])" using Cons.prems by simp
    from Cons.IH [OF this] Cons.prems e show ?case by (auto simp: nth_list_update)
  qed simp
  show "length (edge_table n es) = n" using * [of "replicate n []"] assms by (simp add: edge_table_def)
  show "i < n \<Longrightarrow> edge_table n es ! i = map (snd \<circ> fst) (filter (\<lambda>e. fst (fst e) = i) es)"
    using * [of "replicate n []"] assms by (simp add: edge_table_def)
qed

lemma goto_rel_edge_table:
  assumes "\<forall>e\<in>set es. fst (fst e) < n" shows "goto_rel (edge_table n es) = fst ` set es"
proof -
  have "(i, m) \<in> goto_rel (edge_table n es) \<longleftrightarrow> (i, m) \<in> fst ` set es" for i m
  proof (cases "i < n")
    case True
    then show ?thesis
      by (auto simp: goto_rel_def edge_table_nth [OF assms] image_iff) (blast | force)+
  next
    case False
    with assms show ?thesis by (force simp: goto_rel_def edge_table_nth(1) [OF assms])
  qed
  then show ?thesis by auto
qed

lemma sum_filter_length: "\<forall>e\<in>set es. key e < (n::nat) \<Longrightarrow> (\<Sum>i<n. length (filter (\<lambda>e. key e = i) es)) = length es"
proof (induction es)
  case (Cons e es)
  have "(\<Sum>i<n. length (filter (\<lambda>e. key e = i) (e # es))) =
        (\<Sum>i<n. (if i = key e then 1 else 0) + length (filter (\<lambda>e. key e = i) es))"
    by (rule sum.cong) auto
  moreover have "(\<Sum>i<n. if i = key e then 1 else 0 :: nat) = 1"
    using Cons.prems by (subst sum.delta) auto
  ultimately show ?case using Cons by (simp add: sum.distrib)
qed simp

lemma graph_size_edge_table:
  assumes "\<forall>e\<in>set es. fst (fst e) < n" shows "graph_size (edge_table n es) = n + length es"
proof -
  have "graph_size (edge_table n es) = (\<Sum>i<n. length (filter (\<lambda>e. fst (fst e) = i) es) + 1)"
    unfolding graph_size_def edge_table_nth(1) [OF assms]
    by (rule sum.cong) (simp_all add: node_cost_def edge_table_nth(2) [OF assms])
  also have "\<dots> = n + length es" using sum_filter_length [OF assms] by (simp add: sum_Suc)
  finally show ?thesis .
qed

lemma set_map_filter: "x \<in> set (List.map_filter f xs) \<longleftrightarrow> (\<exists>y\<in>set xs. f y = Some x)"
  by (induction xs) (auto simp: List.map_filter_simps split: option.splits)

lemma length_map_filter: "length (List.map_filter f xs) \<le> length xs"
  by (induction xs) (auto simp: List.map_filter_simps split: option.splits)

lemma goto_edges_iff:
  assumes "bt_ok (states v1)" and ids: "ids = state_ids_of (states v1)"
  shows "e \<in> fst ` set (goto_edges v1 ids) \<longleftrightarrow>
     (\<exists>i<length (states v1). \<exists>rule\<in>set (rules (snd (states v1 ! i))). \<exists>target t.
        action rule = ActGoto target \<and> bt_get ids target = Some t \<and> e = (i, t))"
proof -
  have self: "bt_get ids (fst (states v1 ! i)) = Some i" if "i < length (states v1)" for i
    using that state_ids_get [OF assms(1)] ids by simp
  have "e \<in> fst ` set (goto_edges v1 ids) \<longleftrightarrow>
     (\<exists>entry\<in>set (states v1). \<exists>rule\<in>set (rules (snd entry)). \<exists>target t.
        action rule = ActGoto target \<and> bt_get ids target = Some t \<and> e = (the (bt_get ids (fst entry)), t))"
    (is "?l \<longleftrightarrow> ?r")
  proof
    assume ?l
    then obtain name st j rule where "(name, st) \<in> set (states v1)" "(j, rule) \<in> set (enumerate 0 (rules st))"
      "(case action rule of
          ActGoto target \<Rightarrow> map_option (\<lambda>to. ((the (bt_get ids name), to), name, j)) (bt_get ids target)
        | _ \<Rightarrow> None) = Some (e, name, j)"
      by (auto simp: goto_edges_def set_map_filter split: Action.splits)
    then show ?r
      by (auto simp: in_set_enumerate_eq split: Action.splits intro!: bexI [of _ "(name, st)"] bexI [of _ rule])
  next
    assume ?r
    then obtain entry rule target t where "entry \<in> set (states v1)" "rule \<in> set (rules (snd entry))"
      "action rule = ActGoto target" "bt_get ids target = Some t" "e = (the (bt_get ids (fst entry)), t)"
      by blast
    then obtain name st j where *: "(name, st) \<in> set (states v1)" "j < length (rules st)"
      "action (rules st ! j) = ActGoto target" "bt_get ids target = Some t" "e = (the (bt_get ids name), t)"
      by (metis in_set_conv_nth prod.collapse)
    then have "(e, name, j) \<in> set (goto_edges v1 ids)"
      unfolding goto_edges_def
      by (auto simp: set_map_filter in_set_enumerate_eq intro!: bexI [of _ "(name, st)"] bexI [of _ "(j, rules st ! j)"])
    then show ?l by force
  qed
  also have "\<dots> \<longleftrightarrow> (\<exists>i<length (states v1). \<exists>rule\<in>set (rules (snd (states v1 ! i))). \<exists>target t.
        action rule = ActGoto target \<and> bt_get ids target = Some t \<and> e = (i, t))"
    (is "?r \<longleftrightarrow> ?q")
  proof
    assume ?r
    then obtain entry rule target t where *: "entry \<in> set (states v1)" "rule \<in> set (rules (snd entry))"
      "action rule = ActGoto target" "bt_get ids target = Some t" "e = (the (bt_get ids (fst entry)), t)"
      by blast
    then obtain i where i: "i < length (states v1)" "entry = states v1 ! i" by (metis in_set_conv_nth)
    with * self [OF i(1)] show ?q by auto
  next
    assume ?q
    then obtain i rule target t where *: "i < length (states v1)" "rule \<in> set (rules (snd (states v1 ! i)))"
      "action rule = ActGoto target" "bt_get ids target = Some t" "e = (i, t)"
      by blast
    with self [OF *(1)] nth_mem [OF *(1)] show ?r by (metis option.sel)
  qed
  finally show ?thesis .
qed

lemma length_goto_edges: "length (goto_edges v1 ids) \<le> sum_list (map (\<lambda>(_, s). length (rules s)) (states v1))"
  unfolding goto_edges_def length_concat map_map
  by (rule sum_list_mono) (auto intro: order_trans [OF length_map_filter])

text \<open>For a grammar within the limits, the cycle check is a decision procedure for its \<^verbatim>\<open>Goto\<close> edges.\<close>

lemma check_goto_decides:
  assumes ok: "bt_ok (states v1)" and ids: "ids = state_ids_of (states v1)"
    and lim: "length (states v1) \<le> MAX_STATES" "sum_list (map (\<lambda>(_, s). length (rules s)) (states v1)) \<le> MAX_TOTAL_RULES"
  defines "edges \<equiv> edge_table (length ids) (goto_edges v1 ids)"
  shows "check_goto_acyclic v1 ids = Inr () \<longleftrightarrow> acyclic (fst ` set (goto_edges v1 ids))"
    and "check_goto_acyclic v1 ids = Inr () \<Longrightarrow> \<exists>fin. topo edges fin \<and> set fin = {..<length (states v1)}"
    and "check_goto_acyclic v1 ids \<noteq> Inr () \<Longrightarrow>
      \<exists>e name i. (e, name, i) \<in> set (goto_edges v1 ids) \<and> check_goto_acyclic v1 ids = Inl (CyclicGoto name i)"
    and "goto_rel edges = fst ` set (goto_edges v1 ids)" "length edges = length (states v1)"
proof -
  let ?es = "goto_edges v1 ids"
  have len: "length ids = length (states v1)" using length_state_ids [OF ok] ids by simp
  have "fst (fst e) < length ids \<and> snd (fst e) < length ids" if "e \<in> set ?es" for e
  proof -
    have "fst e \<in> fst ` set ?es" using that by simp
    then show ?thesis unfolding goto_edges_iff [OF ok ids] using state_ids_get [OF ok] ids len by auto
  qed
  then have from_ok: "\<forall>e\<in>set ?es. fst (fst e) < length ids" and to_ok: "\<forall>e\<in>set ?es. snd (fst e) < length ids"
    by simp_all
  show rel: "goto_rel edges = fst ` set ?es" and elen: "length edges = length (states v1)"
    unfolding edges_def using goto_rel_edge_table [OF from_ok] edge_table_nth(1) [OF from_ok] len by simp_all
  have gok: "graph_ok edges"
    unfolding graph_ok_def
  proof (intro allI impI ballI)
    fix n m assume "n < length edges" "m \<in> set (edges ! n)"
    then have "(n, m) \<in> fst ` set ?es" by (simp add: goto_rel_def flip: rel)
    with to_ok elen len show "m < length edges" by auto
  qed
  have "graph_size edges \<le> GRAPH_TRAVERSAL_BUDGET"
    using graph_size_edge_table [OF from_ok] length_goto_edges [of v1 ids] lim len
    by (simp add: edges_def GRAPH_TRAVERSAL_BUDGET_def MAX_STATES_def MAX_TOTAL_RULES_def)
  note post = goto_search [OF gok this]
  have eq: "check_goto_acyclic v1 ids =
    (case fold_result (dfs_from edges) [0..<length edges] (replicate (length edges) Unvisited) of
       Inl (Some edge) \<Rightarrow> (let (state, rule_index) = the (map_of ?es edge) in Inl (CyclicGoto state rule_index))
     | Inl None \<Rightarrow> Inl (CyclicGoto (spec_start v1) 0) | Inr _ \<Rightarrow> Inr ())"
    unfolding check_goto_acyclic_def elen Let_def unfolding edges_def len by (rule refl)
  show "check_goto_acyclic v1 ids = Inr () \<longleftrightarrow> acyclic (fst ` set ?es)"
    using post unfolding eq rel by (auto simp: case_prod_unfold Let_def split: sum.splits option.splits)
  show "check_goto_acyclic v1 ids = Inr () \<Longrightarrow> \<exists>fin. topo edges fin \<and> set fin = {..<length (states v1)}"
    using post unfolding eq elen by (auto simp: case_prod_unfold Let_def split: sum.splits option.splits)
  show "\<exists>e name i. (e, name, i) \<in> set ?es \<and> check_goto_acyclic v1 ids = Inl (CyclicGoto name i)"
    if err: "check_goto_acyclic v1 ids \<noteq> Inr ()"
  proof -
    from err post obtain e where
      e: "fold_result (dfs_from edges) [0..<length edges] (replicate (length edges) Unvisited) = Inl (Some e)"
      "e \<in> fst ` set ?es"
      unfolding eq rel by (auto split: sum.splits option.splits)
    then obtain name i where "map_of ?es e = Some (name, i)"
      by (metis map_of_eq_None_iff not_None_eq surj_pair)
    with e map_of_SomeD [OF this] show ?thesis
      unfolding eq by (intro exI [of _ e] exI [of _ name] exI [of _ i]) simp
  qed
qed

end
