(* ===== verification/SpecProperties.thy ===== *)
theory SpecProperties
  imports SpecCompile
begin

text \<open>
  The properties of compiled grammars: their configurations stay within the tables, chains of
  \<^verbatim>\<open>Goto\<close> actions always resolve, the cycle check and the reachability check decide what they claim
  to, and a reference semantics of a transition, as an inductive relation without a bound, is what
  the bounded loop of \<^verbatim>\<open>step\<close> computes.
\<close>

section \<open>Configurations stay in range\<close>

definition config_ok :: "CompiledAutomaton \<Rightarrow> nat \<times> nat list \<Rightarrow> bool" where
  "config_ok a cfg \<longleftrightarrow> fst cfg < state_count a \<and> (\<forall>f\<in>set (snd cfg). f < a_frame_count a)"

lemma selected_rule_in: "selected_rule c t b = Some r \<Longrightarrow> r \<in> set (c_rules c) \<and> guard_matches (c_guard r) t"
  by (auto simp: selected_rule_def find_Some_iff)

lemma selected_rule_ok:
  "automaton_ok a \<Longrightarrow> get_at (a_states a) s = Some c \<Longrightarrow> selected_rule c t b = Some r \<Longrightarrow>
     rule_ok (state_count a) (a_frame_count a) r"
  by (auto simp: automaton_ok_def get_at_Some_iff dest!: selected_rule_in)

lemma step_loop_ok:
  assumes "automaton_ok a"
  shows "case step_loop n a s t b of
           Next s' \<Rightarrow> s' < state_count a | Push f s' \<Rightarrow> f < a_frame_count a \<and> s' < state_count a
         | Pop s' \<Rightarrow> s' < state_count a \<and> t \<noteq> None | Dead \<Rightarrow> True"
proof (induction n arbitrary: s)
  case (Suc n)
  show ?case
  proof (cases "get_at (a_states a) s")
    case (Some c)
    show ?thesis
    proof (cases "selected_rule c t b")
      case (Some r)
      have "rule_ok (state_count a) (a_frame_count a) r"
        by (rule selected_rule_ok [OF assms \<open>get_at (a_states a) s = _\<close> Some])
      with Some \<open>get_at (a_states a) s = _\<close> Suc show ?thesis
        by (auto simp: rule_ok_def action_ok_def split: CompiledAction.splits)
    qed (simp add: \<open>get_at (a_states a) s = _\<close>)
  qed simp
qed simp

lemma advance_config_ok:
  assumes "automaton_ok a" "config_ok a cfg" "advance_with (auto_step a) cfg b = Some cfg'"
  shows "config_ok a cfg'"
proof (cases cfg)
  case (Pair s st)
  with assms step_loop_ok [OF assms(1), where n = "length (a_states a) + 1" and s = s and t = "top_of st" and b = b] show ?thesis
    by (cases st) (auto simp: advance_with_def config_ok_def auto_step_def simp del: step_loop.simps split: Step.splits)
qed

lemma fold_config_ok:
  "automaton_ok a \<Longrightarrow> fold_token (auto_step a) bytes cfg = Some cfg' \<Longrightarrow> config_ok a cfg \<Longrightarrow> config_ok a cfg'"
proof (induction bytes arbitrary: cfg)
  case (Cons b bytes)
  then obtain cfg1 where "advance_with (auto_step a) cfg b = Some cfg1" "fold_token (auto_step a) bytes cfg1 = Some cfg'"
    by (auto split: option.splits)
  with Cons advance_config_ok show ?case by blast
qed simp

text \<open>C14: a grammar that compiles yields a well-formed automaton: all targets of its rules are declared
  states and all frames declared frames, every pop is behind a guard that excludes the empty stack,
  the start state is the declared one, and the limits on states, frames and rules hold. Every
  configuration reached from the start, by whatever bytes, has its state and all its frames inside
  the automaton's tables, so that no lookup by state or frame id is out of range.
\<close>

theorem compiled_spec_in_range:
  assumes "compile_v1 v1 = Inr a" "bt_ok (states v1)"
  shows "automaton_ok a \<and> a_state_names a ! a_start a = spec_start v1 \<and>
     (\<forall>bytes cfg. fold_token (auto_step a) bytes (a_start a, []) = Some cfg \<longrightarrow> config_ok a cfg)"
proof -
  from compile_v1_Inr [OF assms] have ok: "automaton_ok a" "a_state_names a ! a_start a = spec_start v1" by blast+
  then have "config_ok a (a_start a, [])" by (simp add: config_ok_def automaton_ok_def)
  with ok fold_config_ok show ?thesis by blast
qed


section \<open>Goto chains resolve\<close>

definition outcome :: "nat option \<Rightarrow> CompiledAction option \<Rightarrow> (nat, nat) Step" where
  "outcome t act =
     (case act of
        Some (CNext s) \<Rightarrow> Next s | Some (CPush f s) \<Rightarrow> Push f s
      | Some (CPop s) \<Rightarrow> (if t = None then Dead else Pop s) | _ \<Rightarrow> Dead)"

definition chosen_action :: "CompiledAutomaton \<Rightarrow> nat option \<Rightarrow> char \<Rightarrow> nat \<Rightarrow> CompiledAction option" where
  "chosen_action a t b s =
     (case get_at (a_states a) s of None \<Rightarrow> None | Some c \<Rightarrow> map_option c_action (selected_rule c t b))"

text \<open>A transition without a bound on the number of delegations.\<close>

inductive resolves :: "CompiledAutomaton \<Rightarrow> nat option \<Rightarrow> char \<Rightarrow> nat \<Rightarrow> (nat, nat) Step \<Rightarrow> bool"
  for a t b where
  act: "(\<And>s'. chosen_action a t b s \<noteq> Some (CGoto s')) \<Longrightarrow> resolves a t b s (outcome t (chosen_action a t b s))"
| goto: "chosen_action a t b s = Some (CGoto s') \<Longrightarrow> resolves a t b s' r \<Longrightarrow> resolves a t b s r"

inductive_cases resolvesE: "resolves a t b s r"

lemma resolves_det: "resolves a t b s r \<Longrightarrow> resolves a t b s r' \<Longrightarrow> r = r'"
proof (induction arbitrary: r' rule: resolves.induct)
  case (act s)
  from act.prems act.hyps show ?case by (auto elim: resolvesE)
next
  case (goto s s' r)
  from goto.prems have "resolves a t b s' r'"
    by (rule resolvesE) (use goto.hyps in auto)
  then show ?case by (rule goto.IH)
qed

lemma step_loop_unfold:
  "step_loop (Suc n) a s t b =
     (case chosen_action a t b s of Some (CGoto s') \<Rightarrow> step_loop n a s' t b | act \<Rightarrow> outcome t act)"
  by (simp add: chosen_action_def outcome_def split: option.splits CompiledAction.splits)

lemma topo_resolves:
  assumes "topo edges fin"
    and goto: "\<And>s s'. chosen_action a t b s = Some (CGoto s') \<Longrightarrow> s' \<in> set (edges ! s)"
    and "s \<in> set fin" "length fin \<le> n"
  shows "resolves a t b s (step_loop n a s t b)"
  using assms(1,3,4)
proof (induction fin arbitrary: s n)
  case (Cons x fin)
  show ?case
  proof (cases "s = x")
    case True
    obtain m where n: "n = Suc m" using Cons.prems(3) by (cases n) auto
    show ?thesis
    proof (cases "\<exists>s'. chosen_action a t b s = Some (CGoto s')")
      case True
      then obtain s' where g: "chosen_action a t b s = Some (CGoto s')" ..
      with goto Cons.prems \<open>s = x\<close> have "s' \<in> set fin" by auto
      with Cons.IH [of s' m] Cons.prems n have "resolves a t b s' (step_loop m a s' t b)" by simp
      with g n show ?thesis by (simp add: step_loop_unfold resolves.goto del: step_loop.simps)
    next
      case False
      then have "step_loop n a s t b = outcome t (chosen_action a t b s)"
        unfolding n step_loop_unfold by (auto simp: outcome_def split: option.splits CompiledAction.splits)
      with False show ?thesis by (auto intro: resolves.act)
    qed
  next
    case False
    with Cons show ?thesis by simp
  qed
qed simp

lemma topo_distinct: "topo edges ns \<Longrightarrow> distinct ns"
  by (induction ns) auto

lemma topo_length: "topo edges ns \<Longrightarrow> set ns = {..<n} \<Longrightarrow> length ns = n"
  by (metis card_lessThan distinct_card topo_distinct)

lemma compiled_goto_edge:
  assumes rel: "list_all2 (state_rel ids nf) (states v1) compiled" "a_states a = map snd compiled"
    and ok: "bt_ok (states v1)" "ids = state_ids_of (states v1)"
    and g: "chosen_action a t b s = Some (CGoto s')"
  shows "(s, s') \<in> fst ` set (goto_edges v1 ids)"
proof -
  from g rel(2) obtain r where s: "s < length compiled" and r: "r \<in> set (c_rules (snd (compiled ! s)))"
    and act: "c_action r = CGoto s'"
    by (auto simp: chosen_action_def get_at_Some_iff split: option.splits dest!: selected_rule_in)
  have len: "length (states v1) = length compiled" using rel(1) by (rule list_all2_lengthD)
  have "list_all2 (rule_rel ids) (rules (snd (states v1 ! s))) (c_rules (snd (compiled ! s)))"
    using list_all2_nthD2 [OF rel(1) s] by (simp add: state_rel_def)
  from list_all2_setD [OF this r] act obtain rule target where
    "rule \<in> set (rules (snd (states v1 ! s)))" "action rule = ActGoto target" "bt_get ids target = Some s'"
    unfolding rule_rel_def by metis
  with s len show ?thesis unfolding goto_edges_iff [OF ok] by auto
qed

text \<open>C13: the transition function of a compiled grammar is total in the sense its comments claim: from
  every state of the automaton, the chain of \<^verbatim>\<open>Goto\<close> actions for a byte and a stack top ends in a
  proper action, and the loop of \<^verbatim>\<open>step\<close>, which makes one more iteration than there are states, finds
  it. Its final \<^verbatim>\<open>Dead\<close>, for iterations that ran out, is never the answer.
\<close>

theorem step_resolves_goto:
  assumes "compile_v1 v1 = Inr a" "bt_ok (states v1)" "s < state_count a"
  shows "resolves a t b s r \<longleftrightarrow> r = auto_step a s t b"
proof -
  let ?ids = "state_ids_of (states v1)"
  from compile_v1_Inr [OF assms(1,2)] obtain compiled where
    rel: "list_all2 (state_rel ?ids (length (frames v1))) (states v1) compiled" "a_states a = map snd compiled"
    and chk: "check_goto_acyclic v1 ?ids = Inr ()" and aok: "automaton_ok a"
    and tot: "sum_list (map (\<lambda>(_, s). length (rules s)) (states v1)) \<le> MAX_TOTAL_RULES" by blast
  have count: "length (states v1) = state_count a"
    using list_all2_lengthD [OF rel(1)] rel(2) by (simp add: state_count_def)
  with aok have lim: "length (states v1) \<le> MAX_STATES" by (simp add: automaton_ok_def)
  note dec = check_goto_decides [OF assms(2) refl lim tot]
  from dec(2) [OF chk] count obtain fin where
    fin: "topo (edge_table (length ?ids) (goto_edges v1 ?ids)) fin" "set fin = {..<state_count a}" by auto
  have "s' \<in> set (edge_table (length ?ids) (goto_edges v1 ?ids) ! s)"
    if "chosen_action a t b s = Some (CGoto s')" for s s'
    using compiled_goto_edge [OF rel assms(2) refl that] unfolding dec(4) [symmetric] by (simp add: goto_rel_def)
  from topo_resolves [OF fin(1) this, where s = s and n = "length (a_states a) + 1"] fin(2) topo_length [OF fin] assms(3)
  have "resolves a t b s (auto_step a s t b)" by (simp add: auto_step_def state_count_def del: step_loop.simps)
  then show ?thesis using resolves_det by blast
qed

text \<open>within the limits on states and rules, the cycle check of the compiler decides exactly whether
  the \<^verbatim>\<open>Goto\<close> edges of the specification contain a cycle; on a cycle it reports a rule that is one of
  those edges. In particular its iteration budget is never what makes it fail.
\<close>

theorem goto_cycle_check_exact:
  assumes "bt_ok (states v1)" "length (states v1) \<le> MAX_STATES"
    "sum_list (map (\<lambda>(_, s). length (rules s)) (states v1)) \<le> MAX_TOTAL_RULES"
    "ids = state_ids_of (states v1)"
  shows "if acyclic (fst ` set (goto_edges v1 ids)) then check_goto_acyclic v1 ids = Inr ()
         else \<exists>e name i. (e, name, i) \<in> set (goto_edges v1 ids) \<and> check_goto_acyclic v1 ids = Inl (CyclicGoto name i)"
  using check_goto_decides [OF assms(1,4,2,3)] by simp


section \<open>Reachability of an accepting state\<close>

text \<open>The edges of the check ignore bytes and guards.\<close>

definition targets :: "CompiledAutomaton \<Rightarrow> nat \<Rightarrow> nat set" where
  "targets a s = (case get_at (a_states a) s of None \<Rightarrow> {}
     | Some c \<Rightarrow> {t. \<exists>r\<in>set (c_rules c). action_target (c_action r) = Some t})"

definition edge_rel :: "CompiledAutomaton \<Rightarrow> (nat \<times> nat) set" where
  "edge_rel a = {(s, t). t \<in> targets a s}"

definition marked :: "bool list \<Rightarrow> nat set" where
  "marked seen = {i. i < length seen \<and> seen ! i}"

definition reach_inv :: "CompiledAutomaton \<Rightarrow> bool list \<Rightarrow> nat list \<Rightarrow> bool" where
  "reach_inv a seen st \<longleftrightarrow>
     length seen = state_count a \<and> distinct st \<and> set st \<subseteq> marked seen \<and> a_start a \<in> marked seen \<and>
     marked seen \<subseteq> (edge_rel a)\<^sup>* `` {a_start a} \<and>
     (\<forall>s\<in>marked seen - set st. \<not> is_accepting_state a s \<and> targets a s \<subseteq> marked seen)"

lemma marked_update: "i < length seen \<Longrightarrow> marked (seen[i := True]) = insert i (marked seen)"
  by (auto simp: marked_def nth_list_update)

lemma targets_in_range: "automaton_ok a \<Longrightarrow> targets a s \<subseteq> {..<state_count a}"
proof
  fix t assume ok: "automaton_ok a" and "t \<in> targets a s"
  then obtain c r where c: "get_at (a_states a) s = Some c" "r \<in> set (c_rules c)"
    and t: "action_target (c_action r) = Some t"
    by (auto simp: targets_def split: option.splits)
  with ok have "rule_ok (state_count a) (a_frame_count a) r"
    by (auto simp: automaton_ok_def get_at_Some_iff)
  with t show "t \<in> {..<state_count a}"
    by (cases "c_action r") (auto simp: rule_ok_def action_ok_def action_target_def)
qed

text \<open>Visiting the rules of a state marks its targets, and pushes those that are new.\<close>

lemma visit_targets:
  assumes "\<forall>r\<in>set rs. \<forall>t. action_target (c_action r) = Some t \<longrightarrow> t < length seen"
    "distinct st" "set st \<subseteq> marked seen"
  shows "case fold visit_target rs (seen, st) of (seen', st') \<Rightarrow>
     length seen' = length seen \<and> distinct st' \<and>
     marked seen' = marked seen \<union> {t. \<exists>r\<in>set rs. action_target (c_action r) = Some t} \<and>
     set st' = set st \<union> (marked seen' - marked seen)"
  using assms
proof (induction rs arbitrary: seen st)
  case (Cons r rs)
  show ?case
  proof (cases "\<exists>t. action_target (c_action r) = Some t \<and> \<not> seen ! t")
    case True
    then obtain t where t: "action_target (c_action r) = Some t" "\<not> seen ! t" by blast
    have tl: "t < length seen" using Cons.prems(1) t(1) by simp
    then have nt: "t \<notin> marked seen" using t(2) by (simp add: marked_def)
    have v: "visit_target r (seen, st) = (seen[t := True], t # st)" using t by (simp add: visit_target_def)
    obtain seen' st' where f: "fold visit_target rs (seen[t := True], t # st) = (seen', st')" by force
    have "length seen' = length seen \<and> distinct st' \<and>
        marked seen' = insert t (marked seen) \<union> {t. \<exists>r\<in>set rs. action_target (c_action r) = Some t} \<and>
        set st' = insert t (set st) \<union> (marked seen' - insert t (marked seen))"
      using Cons.IH [of "seen[t := True]" "t # st"] Cons.prems nt tl f by (auto simp: marked_update)
    with t nt v f show ?thesis by auto
  next
    case False
    then have same: "visit_target r (seen, st) = (seen, st)"
      by (auto simp: visit_target_def split: option.splits)
    have "t \<in> marked seen" if "action_target (c_action r) = Some t" for t
      using False Cons.prems(1) that by (auto simp: marked_def)
    with Cons.IH [of seen st] Cons.prems same show ?thesis by (auto split: prod.splits)
  qed
qed simp

lemma reach_inv_step:
  assumes inv: "reach_inv a seen (s # st)" and ok: "automaton_ok a" and na: "\<not> is_accepting_state a s"
    and c: "get_at (a_states a) s = Some c" and v: "fold visit_target (c_rules c) (seen, st) = (seen', st')"
  shows "reach_inv a seen' st' \<and> card (marked seen') - card (marked seen) + length st = length st' \<and> marked seen \<subseteq> marked seen'"
proof -
  have tg: "targets a s = {t. \<exists>r\<in>set (c_rules c). action_target (c_action r) = Some t}"
    by (simp add: targets_def c)
  have pre: "\<forall>r\<in>set (c_rules c). \<forall>t. action_target (c_action r) = Some t \<longrightarrow> t < length seen"
    using targets_in_range [OF ok, of s] inv unfolding tg by (auto simp: reach_inv_def)
  from visit_targets [OF pre, of st] inv v have post: "length seen' = length seen" "distinct st'"
    "marked seen' = marked seen \<union> targets a s" "set st' = set st \<union> (marked seen' - marked seen)"
    by (auto simp: reach_inv_def tg)
  have s: "s \<in> (edge_rel a)\<^sup>* `` {a_start a}" using inv by (auto simp: reach_inv_def)
  then have "targets a s \<subseteq> (edge_rel a)\<^sup>* `` {a_start a}"
    by (auto simp: edge_rel_def intro: rtrancl_into_rtrancl)
  then have "reach_inv a seen' st'" using inv post na by (auto simp: reach_inv_def)
  moreover have "length st' = length st + card (marked seen' - marked seen)"
  proof -
    have "card (set st') = card (set st) + card (marked seen' - marked seen)"
      unfolding post(4) by (rule card_Un_disjoint) (use inv in \<open>auto simp: reach_inv_def marked_def\<close>)
    with post(2) inv show ?thesis by (simp add: distinct_card reach_inv_def)
  qed
  moreover have "card (marked seen' - marked seen) = card (marked seen') - card (marked seen)"
    by (rule card_Diff_subset) (auto simp: post(3), simp add: marked_def)
  ultimately show ?thesis by (simp add: post(3))
qed

lemma card_marked_le: "length seen = n \<Longrightarrow> card (marked seen) \<le> n"
  using card_mono [of "{..<length seen}" "marked seen"] by (auto simp: marked_def)

lemma reach_loop_correct:
  assumes "reach_inv a seen st" "automaton_ok a" "state_count a - card (marked seen) + length st < n"
  shows "reach_loop n a seen st \<longleftrightarrow> (\<exists>s. (a_start a, s) \<in> (edge_rel a)\<^sup>* \<and> is_accepting_state a s)"
  using assms
proof (induction n a seen st rule: reach_loop.induct)
  case (2 n a seen st)
  show ?case
  proof (cases st)
    case Nil
    with "2.prems"(1) have cl: "targets a s \<subseteq> marked seen" "\<not> is_accepting_state a s" if "s \<in> marked seen" for s
      using that by (auto simp: reach_inv_def)
    have "s \<in> marked seen" if "(a_start a, s) \<in> (edge_rel a)\<^sup>*" for s
      using that "2.prems"(1) by induction (use cl in \<open>auto simp: edge_rel_def reach_inv_def\<close>)
    with cl Nil show ?thesis by auto
  next
    case (Cons s rest)
    show ?thesis
    proof (cases "is_accepting_state a s")
      case True
      with "2.prems"(1) Cons show ?thesis by (auto simp: reach_inv_def)
    next
      case False
      have "s < length (a_states a)" using "2.prems"(1) Cons by (auto simp: reach_inv_def marked_def state_count_def)
      then have c: "get_at (a_states a) s = Some (a_states a ! s)" by (simp add: get_at_Some_iff)
      obtain seen' st' where v: "fold visit_target (c_rules (a_states a ! s)) (seen, rest) = (seen', st')" by force
      have inv: "reach_inv a seen (s # rest)" using "2.prems"(1) Cons by simp
      note step = reach_inv_step [OF inv "2.prems"(2) False c v]
      have "card (marked seen') \<le> state_count a" "card (marked seen) \<le> card (marked seen')"
        using step card_marked_le [of seen'] card_mono [of "marked seen'" "marked seen"]
        by (auto simp: reach_inv_def marked_def)
      then have "state_count a - card (marked seen') + length st' < n"
        using step "2.prems"(3) Cons by auto
      with "2.IH"(2) [OF Cons False c v [symmetric] refl] step "2.prems"(2) Cons False c v show ?thesis by simp
    qed
  qed
qed simp

text \<open>a specification is refused for having no reachable accepting state exactly when it has none:
  the compiler's traversal, whose iterations are limited by the maximal number of states, succeeds
  if and only if a state that accepts is reachable from the start along the rules' targets. So an
  accepted grammar is never one whose automaton can only get stuck without completing.
\<close>

theorem reachable_accept_exact:
  assumes "automaton_ok a"
  shows "check_reachable_accept a name =
    (if \<exists>s. (a_start a, s) \<in> (edge_rel a)\<^sup>* \<and> is_accepting_state a s then Inr () else Inl (NoReachableAccept name))"
proof -
  let ?seen = "(replicate (length (a_states a)) False)[a_start a := True]"
  have start: "a_start a < length (a_states a)" using assms by (simp add: automaton_ok_def state_count_def)
  then have m: "marked ?seen = {a_start a}" by (auto simp: marked_def nth_list_update)
  then have "reach_inv a ?seen [a_start a]" by (simp add: reach_inv_def state_count_def)
  moreover have "state_count a - card (marked ?seen) + length [a_start a] < MAX_STATES + 1"
    using m assms start by (auto simp: automaton_ok_def state_count_def)
  ultimately show ?thesis
    using reach_loop_correct [OF _ assms] by (simp add: check_reachable_accept_def del: reach_loop.simps)
qed


section \<open>A grammar of nested parentheses\<close>

text \<open>
  Two states; an opening parenthesis pushes, a closing one pops, an \<open>x\<close> is allowed outside all
  parentheses only, and a semicolon is delegated to the second state.
\<close>

definition sample_spec :: GrammarSpecV1 where
  "sample_spec = \<lparr>spec_start = ''s'', boundary_byte = CHR '' '', frames = [''F''],
     states = [(''s'', \<lparr>accepting = True, rules =
         [\<lparr>byte_test = Exact (CHR ''(''), guard = Always, action = ActPush ''F'' ''s''\<rparr>,
          \<lparr>byte_test = Exact (CHR '')''), guard = StackTopIs ''F'', action = ActPop ''s''\<rparr>,
          \<lparr>byte_test = Exact (CHR ''x''), guard = StackEmpty, action = ActNext ''s''\<rparr>,
          \<lparr>byte_test = Exact (CHR '';''), guard = Always, action = ActGoto ''t''\<rparr>]\<rparr>),
       (''t'', \<lparr>accepting = False, rules =
         [\<lparr>byte_test = Exact (CHR '';''), guard = Always, action = ActNext ''s''\<rparr>]\<rparr>)]\<rparr>"

definition sample_automaton :: CompiledAutomaton where
  "sample_automaton = \<lparr>a_states =
       [\<lparr>c_accepting = True, c_rules =
          [\<lparr>c_byte_test = Exact (CHR ''(''), c_guard = CAlways, c_action = CPush 0 0\<rparr>,
           \<lparr>c_byte_test = Exact (CHR '')''), c_guard = CStackTopIs 0, c_action = CPop 0\<rparr>,
           \<lparr>c_byte_test = Exact (CHR ''x''), c_guard = CStackEmpty, c_action = CNext 0\<rparr>,
           \<lparr>c_byte_test = Exact (CHR '';''), c_guard = CAlways, c_action = CGoto 1\<rparr>]\<rparr>,
        \<lparr>c_accepting = False, c_rules =
          [\<lparr>c_byte_test = Exact (CHR '';''), c_guard = CAlways, c_action = CNext 0\<rparr>]\<rparr>],
     a_start = 0, a_frame_count = 1, a_boundary_byte = CHR '' '',
     a_state_names = [''s'', ''t''], a_frame_names = [''F'']\<rparr>"

lemma is_subsumed_by_iff:
  "is_subsumed_by self other \<longleftrightarrow> (\<forall>b. byte_matches self b \<longrightarrow> byte_matches other b)"
proof -
  have "(\<forall>n<256. P (char_of (n::nat))) \<longleftrightarrow> (\<forall>b. P b)" for P
    by (metis char_of_char nat_of_char_less_256)
  from this [of "\<lambda>b. \<not> byte_matches self b \<or> byte_matches other b"] show ?thesis
    by (auto simp: is_subsumed_by_def list_all_iff)
qed

lemma sample_ids: "state_ids_of (states sample_spec) = [(''s'', 0), (''t'', Suc 0)]"
  by (simp add: state_ids_of_def sample_spec_def enumerate_eq_zip upt_rec)

lemma sample_edges: "goto_edges sample_spec [(''s'', 0), (''t'', Suc 0)] = [((0, Suc 0), ''s'', 3)]"
  by (simp add: goto_edges_def sample_spec_def enumerate_eq_zip upt_rec List.map_filter_simps bt_get_def)

lemma sample_states_ok: "bt_ok (states sample_spec)"
  by (simp add: bt_ok_def sample_spec_def)

lemma sample_limits: "length (states sample_spec) \<le> MAX_STATES"
  "sum_list (map (\<lambda>(_, s). length (rules s)) (states sample_spec)) \<le> MAX_TOTAL_RULES"
  by (simp_all add: sample_spec_def MAX_STATES_def MAX_TOTAL_RULES_def)

lemma sample_acyclic: "acyclic {(0 :: nat, Suc 0)}"
  by (simp add: acyclic_insert wf_acyclic)

lemma sample_goto: "check_goto_acyclic sample_spec [(''s'', 0), (''t'', Suc 0)] = Inr ()"
  using check_goto_decides(1) [OF sample_states_ok sample_ids [symmetric] sample_limits] sample_acyclic
  by (simp add: sample_edges)

lemma sample_reach: "check_reachable_accept sample_automaton ''s'' = Inr ()"
  by (simp add: check_reachable_accept_def sample_automaton_def is_accepting_state_def get_at_def)


lemma sample_compiles: "compile_v1 sample_spec = Inr sample_automaton"
proof -
  have fr: "fold_result insert_frame (enumerate 0 (frames sample_spec)) [] = Inr [(''F'', 0)]"
    by (simp add: sample_spec_def insert_frame_def bt_contains_def bt_get_def enumerate_eq_zip upt_rec)
  have st: "fold_result (compile_state [(''s'', 0), (''t'', Suc 0)] [(''F'', 0)]) (states sample_spec) [] =
      Inr (zip [0, Suc 0] (a_states sample_automaton))"
    by (simp add: sample_spec_def sample_automaton_def compile_state_def compile_rule_def compile_guard_def
        compile_action_def frame_resolve_def state_resolve_def guards_pop_def check_shadowing_def same_guard_def
        is_subsumed_by_iff MAX_RULES_PER_STATE_def enumerate_eq_zip upt_rec bt_get_def)
  have proj: "spec_start sample_spec = ''s''" "boundary_byte sample_spec = CHR '' ''" "frames sample_spec = [''F'']"
    "map fst (states sample_spec) = [''s'', ''t'']"
    by (simp_all add: sample_spec_def)
  have built: "\<lparr>a_states = map snd (sort_key fst (zip [0, Suc 0] (a_states sample_automaton))), a_start = 0,
      a_frame_count = Suc 0, a_boundary_byte = CHR '' '', a_state_names = [''s'', ''t''], a_frame_names = [''F'']\<rparr> =
      sample_automaton"
    by (simp add: sample_automaton_def)
  show ?thesis
    using sample_limits sample_goto sample_reach fr [unfolded proj]
    by (simp add: compile_v1_def proj sample_ids st built Let_def bt_get_def MAX_FRAMES_def not_less
        del: fold_result.simps)
qed

text \<open>Witness: the sample grammar compiles and is in order.\<close>

theorem compiled_spec_in_range_witness:
  "automaton_ok sample_automaton \<and> a_state_names sample_automaton ! a_start sample_automaton = ''s'' \<and>
   config_ok sample_automaton (0, [0])"
proof -
  have "fold_token (auto_step sample_automaton) [CHR ''(''] (a_start sample_automaton, []) = Some (0, [0])"
    by (simp add: sample_automaton_def auto_step_def advance_with_def selected_rule_def get_at_def)
  with compiled_spec_in_range [OF sample_compiles sample_states_ok] show ?thesis
    by (metis sample_spec_def GrammarSpecV1.select_convs(1))
qed

text \<open>Witness: the semicolon is delegated to the second state.\<close>

theorem step_resolves_goto_witness: "resolves sample_automaton None (CHR '';'') 0 (Next 0)"
proof -
  have "auto_step sample_automaton 0 None (CHR '';'') = Next 0" "0 < state_count sample_automaton"
    by (simp_all add: sample_automaton_def auto_step_def selected_rule_def get_at_def state_count_def)
  then show ?thesis using step_resolves_goto [OF sample_compiles sample_states_ok] by simp
qed

text \<open>Witness: one edge, no cycle.\<close>

theorem goto_cycle_check_exact_witness:
  "acyclic (fst ` set (goto_edges sample_spec (state_ids_of (states sample_spec)))) \<and>
   check_goto_acyclic sample_spec (state_ids_of (states sample_spec)) = Inr ()"
  using goto_cycle_check_exact [OF sample_states_ok sample_limits refl] sample_acyclic
  by (simp add: sample_ids sample_edges)

text \<open>Witness: the sample's start state accepts.\<close>

theorem reachable_accept_exact_witness:
  "check_reachable_accept sample_automaton ''s'' = Inr () \<and>
   (\<exists>s. (a_start sample_automaton, s) \<in> (edge_rel sample_automaton)\<^sup>* \<and> is_accepting_state sample_automaton s)"
proof -
  have "automaton_ok sample_automaton"
    by (simp add: automaton_ok_def sample_automaton_def state_count_def rule_ok_def guard_ok_def action_ok_def
        guards_pop_def MAX_STATES_def MAX_FRAMES_def MAX_RULES_PER_STATE_def)
  from reachable_accept_exact [OF this, of "''s''"] sample_reach show ?thesis by (auto split: if_splits)
qed

end
