(* ===== verification/Decoder.thy ===== *)
theory Decoder
  imports BitMask PdaProperties SpecProperties
begin

text \<open>
  The decoding session of \<^verbatim>\<open>crates/pure-analyzer-purecard/src\<close>: the vocabulary (\<^verbatim>\<open>vocab.rs\<close>), the
  compiled grammar with its lazily filled per-state partition cache (\<^verbatim>\<open>grammar/compiled.rs\<close>) and the
  session without a schema overlay (\<^verbatim>\<open>session.rs\<close>). The cache is interior-mutable in the source; here
  it is part of the grammar's state, which \<open>allowed_mask\<close> takes and returns. A result \<open>None\<close> of
  \<open>allowed_mask\<close> is a panic on a cache index out of range. The scratch stacks, which every use clears
  first, are not part of the state. Token ids are numbers below \<open>2 ^ 32\<close>.
\<close>

section \<open>Vocabulary and compiled grammar\<close>

record Vocab =
  tokens :: "char list list"

definition vocab_bytes :: "Vocab \<Rightarrow> nat \<Rightarrow> char list option" where
  "vocab_bytes v i = get_at (tokens v) i"

definition vocab_len :: "Vocab \<Rightarrow> nat" where
  "vocab_len v = length (tokens v)"

definition vocab_is_empty :: "Vocab \<Rightarrow> bool" where
  "vocab_is_empty v \<longleftrightarrow> tokens v = []"

datatype Engine = Fixed | Spec CompiledAutomaton

record Cached =
  indep :: bit_mask
  deferred :: "nat list"

record CompiledGrammar =
  cg_vocab :: Vocab
  cg_engine :: Engine
  cg_cache :: "Cached option list"

definition compile_fixed :: "Vocab \<Rightarrow> CompiledGrammar" where
  "compile_fixed v = \<lparr>cg_vocab = v, cg_engine = Fixed, cg_cache = map (\<lambda>_. None) [0..<STATE_COUNT]\<rparr>"

text \<open>The JSON parser is an argument; it yields a specification or an error of its own.\<close>

definition from_spec ::
    "('text \<Rightarrow> SpecError + GrammarSpecV1) \<Rightarrow> 'text \<Rightarrow> Vocab \<Rightarrow> SpecError + CompiledGrammar" where
  "from_spec parse_spec spec v =
     (case parse_spec spec of
        Inl e \<Rightarrow> Inl e
      | Inr parsed \<Rightarrow>
          (case compile_v1 parsed of
             Inl e \<Rightarrow> Inl e
           | Inr automaton \<Rightarrow>
               Inr \<lparr>cg_vocab = v, cg_engine = Spec automaton, cg_cache = map (\<lambda>_. None) [0..<state_count automaton]\<rparr>))"

definition eos_bit :: "CompiledGrammar \<Rightarrow> nat" where
  "eos_bit g = vocab_len (cg_vocab g) mod 2 ^ 32"

definition mask_len :: "CompiledGrammar \<Rightarrow> nat" where
  "mask_len g = eos_bit g + 1"

definition bytes_or_empty :: "Vocab \<Rightarrow> nat \<Rightarrow> char list" where
  "bytes_or_empty v i = (case vocab_bytes v i of Some bytes \<Rightarrow> bytes | None \<Rightarrow> [])"

definition partition_token :: "(char list \<Rightarrow> probe) \<Rightarrow> Vocab \<Rightarrow> nat \<Rightarrow> Cached \<Rightarrow> Cached" where
  "partition_token probe_at v i c =
     (let p = probe_at (bytes_or_empty v i)
      in if consulted_ambient p then c\<lparr>deferred := deferred c @ [i]\<rparr>
         else if alive p then c\<lparr>indep := bm_set i (indep c)\<rparr>
         else c)"

definition build_fixed :: "State \<Rightarrow> Vocab \<Rightarrow> nat \<Rightarrow> Cached" where
  "build_fixed state v len =
     fold (partition_token (\<lambda>bytes. pda_probe bytes (pda_at state)) v) [0..<vocab_len v mod 2 ^ 32]
       \<lparr>indep = with_len len, deferred = []\<rparr>"

definition build_spec :: "CompiledAutomaton \<Rightarrow> nat \<Rightarrow> Vocab \<Rightarrow> nat \<Rightarrow> Cached" where
  "build_spec a state v len =
     fold (partition_token (\<lambda>bytes. rtn_probe bytes (rtn_at a state)) v) [0..<vocab_len v mod 2 ^ 32]
       \<lparr>indep = with_len len, deferred = []\<rparr>"

definition get_or_init :: "nat \<Rightarrow> Cached \<Rightarrow> CompiledGrammar \<Rightarrow> (Cached \<times> CompiledGrammar) option" where
  "get_or_init i built g =
     (case get_at (cg_cache g) i of
        None \<Rightarrow> None
      | Some (Some c) \<Rightarrow> Some (c, g)
      | Some None \<Rightarrow> Some (built, g\<lparr>cg_cache := (cg_cache g)[i := Some built]\<rparr>))"

definition cached_fixed :: "State \<Rightarrow> CompiledGrammar \<Rightarrow> (Cached \<times> CompiledGrammar) option" where
  "cached_fixed state g = get_or_init (state_index state) (build_fixed state (cg_vocab g) (mask_len g)) g"

definition cached_spec :: "CompiledAutomaton \<Rightarrow> nat \<Rightarrow> CompiledGrammar \<Rightarrow> (Cached \<times> CompiledGrammar) option" where
  "cached_spec a i g = get_or_init i (build_spec a i (cg_vocab g) (mask_len g)) g"


section \<open>The cursor\<close>

datatype Cursor = CursorFixed pda | CursorSpec rtn_pda

definition cursor_new :: "CompiledGrammar \<Rightarrow> Cursor" where
  "cursor_new g = (case cg_engine g of Fixed \<Rightarrow> CursorFixed pda_new | Spec a \<Rightarrow> CursorSpec (rtn_new a))"

definition cursor_cached :: "Cursor \<Rightarrow> CompiledGrammar \<Rightarrow> (Cached \<times> CompiledGrammar) option" where
  "cursor_cached c g =
     (case c of CursorFixed p \<Rightarrow> cached_fixed (pda_state p) g
      | CursorSpec p \<Rightarrow> cached_spec (rtn_automaton p) (rtn_state p) g)"

definition stack_top_present :: "Cursor \<Rightarrow> bool" where
  "stack_top_present c =
     (case c of CursorFixed p \<Rightarrow> pda_stack_top p \<noteq> None | CursorSpec p \<Rightarrow> rtn_stack_top p \<noteq> None)"

definition cursor_admits :: "char list \<Rightarrow> Cursor \<Rightarrow> bool" where
  "cursor_admits bytes c = (case c of CursorFixed p \<Rightarrow> pda_admits bytes p | CursorSpec p \<Rightarrow> rtn_admits bytes p)"

definition cursor_is_accepting :: "Cursor \<Rightarrow> bool" where
  "cursor_is_accepting c = (case c of CursorFixed p \<Rightarrow> pda_is_accepting p | CursorSpec p \<Rightarrow> rtn_is_accepting p)"

definition cursor_reset :: "Cursor \<Rightarrow> Cursor" where
  "cursor_reset c = (case c of CursorFixed p \<Rightarrow> CursorFixed (pda_reset p) | CursorSpec p \<Rightarrow> CursorSpec (rtn_reset p))"

definition advance_byte :: "char \<Rightarrow> Cursor \<Rightarrow> (string \<times> string) + Cursor" where
  "advance_byte byte c =
     (case c of
        CursorFixed p \<Rightarrow>
          (case pda_advance byte p of
             Inl dead \<Rightarrow> Inl (dead_in dead, dead_top dead)
           | Inr p' \<Rightarrow> Inr (CursorFixed p'))
      | CursorSpec p \<Rightarrow>
          (case rtn_advance byte p of
             Some p' \<Rightarrow> Inr (CursorSpec p')
           | None \<Rightarrow> Inl (auto_state_name (rtn_automaton p) (rtn_state p),
                          auto_frame_name (rtn_automaton p) (rtn_stack_top p))))"

fun advance_pda_bytes :: "char list \<Rightarrow> pda \<Rightarrow> pda option" where
  "advance_pda_bytes [] probe = Some probe"
| "advance_pda_bytes (byte # bytes) probe =
     (case pda_advance byte probe of Inl _ \<Rightarrow> None | Inr probe \<Rightarrow> advance_pda_bytes bytes probe)"

fun advance_rtn_bytes :: "char list \<Rightarrow> rtn_pda \<Rightarrow> rtn_pda option" where
  "advance_rtn_bytes [] probe = Some probe"
| "advance_rtn_bytes (byte # bytes) probe =
     (case rtn_advance byte probe of None \<Rightarrow> None | Some probe \<Rightarrow> advance_rtn_bytes bytes probe)"

text \<open>The loop runs on a clone; \<open>None\<close> leaves the cursor as it is.\<close>

definition try_accept_token :: "char list \<Rightarrow> Cursor \<Rightarrow> Cursor option" where
  "try_accept_token bytes c =
     (case c of
        CursorFixed p \<Rightarrow> map_option CursorFixed (advance_pda_bytes bytes p)
      | CursorSpec p \<Rightarrow> map_option CursorSpec (advance_rtn_bytes bytes p))"


section \<open>The session\<close>

datatype DecodeError =
    DeadState nat char string string
  | InadmissibleToken nat
  | UnknownToken nat
  | UnexpectedEos
  | SchemaRequiresFixedGrammar

record session =
  ses_cursor :: Cursor
  ses_offset :: nat
  ses_mask :: bit_mask
  l2_eos :: bool

definition session_new :: "CompiledGrammar \<Rightarrow> session" where
  "session_new g = \<lparr>ses_cursor = cursor_new g, ses_offset = 0, ses_mask = with_len (mask_len g), l2_eos = True\<rparr>"

definition allowed_mask :: "CompiledGrammar \<Rightarrow> session \<Rightarrow> (session \<times> CompiledGrammar) option" where
  "allowed_mask g s =
     (case cursor_cached (ses_cursor s) g of
        None \<Rightarrow> None
      | Some (c, g) \<Rightarrow>
          let mask = copy_from (indep c) (ses_mask s);
              mask = (if stack_top_present (ses_cursor s)
                      then fold (\<lambda>i mask. if cursor_admits (bytes_or_empty (cg_vocab g) i) (ses_cursor s)
                                          then bm_set i mask else mask) (deferred c) mask
                      else mask);
              eos = eos_bit g;
              mask = (if cursor_is_accepting (ses_cursor s) then bm_set eos mask else bm_clear eos mask)
          in Some (s\<lparr>ses_mask := mask\<rparr>, g))"

definition accept_token :: "CompiledGrammar \<Rightarrow> nat \<Rightarrow> session \<Rightarrow> DecodeError + session" where
  "accept_token g i s =
     (if i = eos_bit g then
        (if cursor_is_accepting (ses_cursor s) then Inr s else Inl UnexpectedEos)
      else
        (case vocab_bytes (cg_vocab g) i of
           None \<Rightarrow> Inl (UnknownToken i)
         | Some bytes \<Rightarrow>
             (case try_accept_token bytes (ses_cursor s) of
                None \<Rightarrow> Inl (InadmissibleToken i)
              | Some c \<Rightarrow> Inr (s\<lparr>ses_cursor := c, ses_offset := ses_offset s + length bytes\<rparr>))))"

definition accept_byte :: "char \<Rightarrow> session \<Rightarrow> DecodeError + session" where
  "accept_byte byte s =
     (case advance_byte byte (ses_cursor s) of
        Inr c \<Rightarrow> Inr (s\<lparr>ses_cursor := c, ses_offset := ses_offset s + 1\<rparr>)
      | Inl (state, stack_top) \<Rightarrow> Inl (DeadState (ses_offset s) byte state stack_top))"

definition is_complete :: "session \<Rightarrow> bool" where
  "is_complete s \<longleftrightarrow> cursor_is_accepting (ses_cursor s) \<and> l2_eos s"

definition session_reset :: "session \<Rightarrow> session" where
  "session_reset s = s\<lparr>ses_cursor := cursor_reset (ses_cursor s), ses_offset := 0, l2_eos := True\<rparr>"

end
