(* ===== verification/DecoderProperties.thy ===== *)
theory DecoderProperties
  imports Decoder
begin

text \<open>
  The guarantees of a decoding session: the mask it publishes is exactly the set of tokens it
  accepts, tokens act as the sequence of their bytes, and what it calls complete is balanced. Also
  the case the partition cache gets wrong: stack guards of declarative grammars.
\<close>

section \<open>The partition of the vocabulary\<close>

lemma partition_fold:
  fixes c c' :: Cached and probe_at :: "char list \<Rightarrow> probe" and v :: Vocab and ids :: "nat list"
  assumes "mask_ok (indep c)"
  defines "c' \<equiv> fold (partition_token probe_at v) ids c"
  shows "mask_ok (indep c') \<and> bm_len (indep c') = bm_len (indep c) \<and>
     set (deferred c') = set (deferred c) \<union> {i \<in> set ids. consulted_ambient (probe_at (bytes_or_empty v i))} \<and>
     (\<forall>j. bm_test j (indep c') \<longleftrightarrow> bm_test j (indep c) \<or>
        (j \<in> set ids \<and> j < bm_len (indep c) \<and> \<not> consulted_ambient (probe_at (bytes_or_empty v j)) \<and>
         alive (probe_at (bytes_or_empty v j))))"
  using assms(1) unfolding c'_def
proof (induction ids arbitrary: c)
  case (Cons i ids)
  let ?c = "partition_token probe_at v i c"
  have "mask_ok (indep ?c)" "bm_len (indep ?c) = bm_len (indep c)"
    using Cons.prems by (simp_all add: partition_token_def Let_def bm.add_laws)
  with Cons.IH [of ?c] Cons.prems show ?case
    by (auto simp: partition_token_def Let_def bm.add_laws split: if_splits)
qed auto


lemma fold_token_rtn:
  "advance_rtn_bytes bytes p =
     map_option (\<lambda>(s, st). p\<lparr>rtn_state := s, rtn_stack := st\<rparr>)
       (fold_token (auto_step (rtn_automaton p)) bytes (rtn_state p, rtn_stack p))"
  by (induction bytes arbitrary: p) (auto simp: rtn_advance_def split: option.splits)



section \<open>Well-formed grammars and sessions\<close>

definition cache_size :: "Engine \<Rightarrow> nat" where
  "cache_size e = (case e of Fixed \<Rightarrow> STATE_COUNT | Spec a \<Rightarrow> state_count a)"

text \<open>Every filled entry of the cache is the partition of its state.\<close>

definition grammar_ok :: "CompiledGrammar \<Rightarrow> bool" where
  "grammar_ok g \<longleftrightarrow>
     length (cg_cache g) = cache_size (cg_engine g) \<and>
     (case cg_engine g of
        Fixed \<Rightarrow> (\<forall>s c. cg_cache g ! state_index s = Some c \<longrightarrow> c = build_fixed s (cg_vocab g) (mask_len g))
      | Spec a \<Rightarrow> automaton_ok a \<and>
          (\<forall>i < state_count a. \<forall>c. cg_cache g ! i = Some c \<longrightarrow> c = build_spec a i (cg_vocab g) (mask_len g)))"

definition session_ok :: "CompiledGrammar \<Rightarrow> session \<Rightarrow> bool" where
  "session_ok g s \<longleftrightarrow>
     mask_ok (ses_mask s) \<and> bm_len (ses_mask s) = mask_len g \<and> l2_eos s \<and>
     (case (cg_engine g, ses_cursor s) of
        (Fixed, CursorFixed p) \<Rightarrow> True
      | (Spec a, CursorSpec p) \<Rightarrow> rtn_automaton p = a \<and> config_ok a (rtn_state p, rtn_stack p)
      | _ \<Rightarrow> False)"

lemma state_index_bound: "state_index s < STATE_COUNT"
  using state_index_less all_states [of s] by (simp add: list_all_iff)

lemma state_index_inj: "state_index s = state_index s' \<longleftrightarrow> s = s'"
  using state_index_distinct all_states by (auto simp: distinct_map inj_on_def)

lemma grammar_ok_compile: "grammar_ok (compile_fixed v)"
  using state_index_bound by (auto simp: grammar_ok_def compile_fixed_def cache_size_def)

lemma grammar_ok_from_spec:
  assumes "from_spec parse_spec text v = Inr g" "parse_spec text = Inr v1" "bt_ok (states v1)"
  shows "grammar_ok g"
proof -
  from assms(1,2) obtain a where a: "compile_v1 v1 = Inr a"
    and g: "g = \<lparr>cg_vocab = v, cg_engine = Spec a, cg_cache = map (\<lambda>_. None) [0..<state_count a]\<rparr>"
    by (auto simp: from_spec_def split: sum.splits)
  from compile_v1_Inr [OF a assms(3)] have "automaton_ok a" by blast
  then show ?thesis by (simp add: g grammar_ok_def cache_size_def)
qed

lemma session_ok_new:
  assumes "grammar_ok g" shows "session_ok g (session_new g)"
proof (cases "cg_engine g")
  case Fixed
  then show ?thesis by (simp add: session_ok_def session_new_def cursor_new_def bm.new_laws)
next
  case (Spec a)
  with assms show ?thesis
    by (simp add: session_ok_def session_new_def cursor_new_def bm.new_laws grammar_ok_def rtn_new_def
        config_ok_def automaton_ok_def)
qed

lemma session_ok_accept_token:
  assumes "session_ok g s" "grammar_ok g" "accept_token g i s = Inr s'"
  shows "session_ok g s'"
proof (cases "ses_cursor s")
  case (CursorFixed p)
  with assms show ?thesis
    by (auto simp: accept_token_def session_ok_def try_accept_token_def split: if_splits option.splits Engine.splits)
next
  case (CursorSpec p)
  with assms(1) have a: "cg_engine g = Spec (rtn_automaton p)"
    "config_ok (rtn_automaton p) (rtn_state p, rtn_stack p)"
    by (auto simp: session_ok_def split: Engine.splits)
  with assms(2) have ok: "automaton_ok (rtn_automaton p)" by (simp add: grammar_ok_def)
  from CursorSpec assms a fold_config_ok [OF ok] show ?thesis
    by (fastforce simp: accept_token_def session_ok_def try_accept_token_def fold_token_rtn
        split: if_splits option.splits)
qed

text \<open>What a cache access returns, whether it fills the entry or not.\<close>

lemma get_or_init_Some:
  assumes "i < length (cg_cache g)" "\<And>c. cg_cache g ! i = Some c \<Longrightarrow> c = built"
  obtains g' where "get_or_init i built g = Some (built, g')"
    "cg_vocab g' = cg_vocab g" "cg_engine g' = cg_engine g"
    "cg_cache g' = (cg_cache g)[i := Some built]"
proof (cases "cg_cache g ! i")
  case None
  with assms(1) show thesis
    by (intro that [of "g\<lparr>cg_cache := (cg_cache g)[i := Some built]\<rparr>"]) (simp_all add: get_or_init_def get_at_def)
next
  case (Some c)
  with assms(2) have "cg_cache g ! i = Some built" by simp
  moreover from this have "cg_cache g = (cg_cache g)[i := Some built]" by (metis list_update_id)
  ultimately show thesis using assms(1) by (intro that [of g]) (simp_all add: get_or_init_def get_at_def)
qed


section \<open>The published mask\<close>

definition probe_of :: "Cursor \<Rightarrow> char list \<Rightarrow> probe" where
  "probe_of c bytes =
     (case c of
        CursorFixed p \<Rightarrow> pda_probe bytes (pda_at (pda_state p))
      | CursorSpec p \<Rightarrow> rtn_probe bytes (rtn_at (rtn_automaton p) (rtn_state p)))"

text \<open>The partition of the current state, and what a cache access leaves of the grammar.\<close>

definition partition_of :: "CompiledGrammar \<Rightarrow> Cursor \<Rightarrow> Cached" where
  "partition_of g c =
     fold (partition_token (probe_of c) (cg_vocab g)) [0..<eos_bit g]
       \<lparr>indep = with_len (mask_len g), deferred = []\<rparr>"

lemma partition_of_spec:
  fixes g c
  defines "probed \<equiv> \<lambda>i. probe_of c (bytes_or_empty (cg_vocab g) i)"
  shows "mask_ok (indep (partition_of g c))" "bm_len (indep (partition_of g c)) = mask_len g"
    "set (deferred (partition_of g c)) = {i. i < eos_bit g \<and> consulted_ambient (probed i)}"
    "\<forall>j. bm_test j (indep (partition_of g c)) \<longleftrightarrow> j < eos_bit g \<and> \<not> consulted_ambient (probed j) \<and> alive (probed j)"
proof -
  define init where "init = \<lparr>indep = with_len (mask_len g), deferred = []\<rparr>"
  have init: "mask_ok (indep init)" "bm_len (indep init) = eos_bit g + 1" "\<And>j. \<not> bm_test j (indep init)"
    "deferred init = []"
    by (simp_all add: init_def bm.new_laws mask_len_def)
  note pf = partition_fold [OF init(1), of "probe_of c" "cg_vocab g" "[0..<eos_bit g]",
      folded partition_of_def [of g c, folded init_def]]
  show "mask_ok (indep (partition_of g c))" "bm_len (indep (partition_of g c)) = mask_len g"
    using pf init(2) by (simp_all add: mask_len_def)
  show "set (deferred (partition_of g c)) = {i. i < eos_bit g \<and> consulted_ambient (probed i)}"
    using pf init(4) by (simp add: probed_def)
  show "\<forall>j. bm_test j (indep (partition_of g c)) \<longleftrightarrow>
      j < eos_bit g \<and> \<not> consulted_ambient (probed j) \<and> alive (probed j)"
    using pf init(2,3) by (auto simp: probed_def)
qed

lemma build_partition_of:
  "build_fixed (pda_state p) (cg_vocab g) (mask_len g) = partition_of g (CursorFixed p)"
  "build_spec (rtn_automaton q) (rtn_state q) (cg_vocab g) (mask_len g) = partition_of g (CursorSpec q)"
proof -
  have "probe_of (CursorFixed p) = (\<lambda>bytes. pda_probe bytes (pda_at (pda_state p)))"
    "probe_of (CursorSpec q) = (\<lambda>bytes. rtn_probe bytes (rtn_at (rtn_automaton q) (rtn_state q)))"
    by (simp_all add: fun_eq_iff probe_of_def)
  then show "build_fixed (pda_state p) (cg_vocab g) (mask_len g) = partition_of g (CursorFixed p)"
    "build_spec (rtn_automaton q) (rtn_state q) (cg_vocab g) (mask_len g) = partition_of g (CursorSpec q)"
    by (simp_all add: build_fixed_def build_spec_def partition_of_def eos_bit_def)
qed

lemma cached_fixed_fills:
  assumes g: "grammar_ok g" and e: "cg_engine g = Fixed"
  shows "\<exists>g'. cached_fixed s g = Some (build_fixed s (cg_vocab g) (mask_len g), g') \<and> grammar_ok g' \<and>
     cg_vocab g' = cg_vocab g \<and> cg_engine g' = cg_engine g"
proof -
  define c where "c = build_fixed s (cg_vocab g) (mask_len g)"
  have ok: "cg_cache g ! state_index s' = Some c' \<Longrightarrow> c' = build_fixed s' (cg_vocab g) (mask_len g)" for s' c'
    using g e by (simp add: grammar_ok_def)
  have i: "state_index s < length (cg_cache g)" using g e state_index_bound by (simp add: grammar_ok_def cache_size_def)
  obtain g' where g': "get_or_init (state_index s) c g = Some (c, g')" "cg_vocab g' = cg_vocab g"
    "cg_engine g' = cg_engine g" "cg_cache g' = (cg_cache g)[state_index s := Some c]"
    by (rule get_or_init_Some [OF i, of c]) (use ok [of s] in \<open>auto simp: c_def\<close>)
  have m: "mask_len g' = mask_len g" using g' by (simp add: mask_len_def eos_bit_def)
  have "c' = build_fixed s' (cg_vocab g) (mask_len g)" if "cg_cache g' ! state_index s' = Some c'" for s' c'
  proof (cases "s' = s")
    case True
    with that g'(4) i show ?thesis by (simp add: c_def)
  next
    case False
    with that g'(4) state_index_inj [of s' s] show ?thesis by (intro ok) simp
  qed
  with g e g' m have "grammar_ok g'" by (simp add: grammar_ok_def)
  with g' show ?thesis unfolding cached_fixed_def c_def by blast
qed

lemma cached_spec_fills:
  assumes g: "grammar_ok g" and e: "cg_engine g = Spec a" and s: "s < state_count a"
  shows "\<exists>g'. cached_spec a s g = Some (build_spec a s (cg_vocab g) (mask_len g), g') \<and> grammar_ok g' \<and>
     cg_vocab g' = cg_vocab g \<and> cg_engine g' = cg_engine g"
proof -
  define c where "c = build_spec a s (cg_vocab g) (mask_len g)"
  have ok: "k < state_count a \<Longrightarrow> cg_cache g ! k = Some c' \<Longrightarrow> c' = build_spec a k (cg_vocab g) (mask_len g)" for k c'
    using g e by (simp add: grammar_ok_def)
  have i: "s < length (cg_cache g)" using g e s by (simp add: grammar_ok_def cache_size_def)
  obtain g' where g': "get_or_init s c g = Some (c, g')" "cg_vocab g' = cg_vocab g"
    "cg_engine g' = cg_engine g" "cg_cache g' = (cg_cache g)[s := Some c]"
    by (rule get_or_init_Some [OF i, of c]) (use ok [OF s] in \<open>auto simp: c_def\<close>)
  have m: "mask_len g' = mask_len g" using g' by (simp add: mask_len_def eos_bit_def)
  have "c' = build_spec a k (cg_vocab g) (mask_len g)" if "k < state_count a" "cg_cache g' ! k = Some c'" for k c'
  proof (cases "k = s")
    case True
    with that g'(4) i show ?thesis by (simp add: c_def)
  next
    case False
    with that g'(4) show ?thesis by (intro ok) simp_all
  qed
  with g e g' m have "grammar_ok g'" by (simp add: grammar_ok_def)
  with g' show ?thesis unfolding cached_spec_def c_def by blast
qed

lemma cursor_cached_fills:
  assumes g: "grammar_ok g" and s: "session_ok g s"
  shows "\<exists>g'. cursor_cached (ses_cursor s) g = Some (partition_of g (ses_cursor s), g') \<and> grammar_ok g' \<and>
     cg_vocab g' = cg_vocab g \<and> cg_engine g' = cg_engine g"
proof (cases "ses_cursor s")
  case (CursorFixed p)
  with s have e: "cg_engine g = Fixed" by (auto simp: session_ok_def split: Engine.splits)
  from cached_fixed_fills [OF g e, of "pda_state p"] show ?thesis
    unfolding CursorFixed build_partition_of cursor_cached_def by simp
next
  case (CursorSpec p)
  with s have e: "cg_engine g = Spec (rtn_automaton p)" "rtn_state p < state_count (rtn_automaton p)"
    by (auto simp: session_ok_def config_ok_def split: Engine.splits)
  from cached_spec_fills [OF g e] show ?thesis
    unfolding CursorSpec build_partition_of cursor_cached_def by simp
qed

text \<open>The mask, bit by bit, in terms of probes and the live configuration.\<close>

lemma allowed_mask_bits:
  assumes g: "grammar_ok g" and s: "session_ok g s"
  obtains m g' where "allowed_mask g s = Some (s\<lparr>ses_mask := m\<rparr>, g')" "grammar_ok g'"
    "cg_vocab g' = cg_vocab g" "cg_engine g' = cg_engine g" "mask_ok m" "bm_len m = mask_len g"
    "\<forall>j. bm_test j m \<longleftrightarrow>
       (if j = eos_bit g then cursor_is_accepting (ses_cursor s)
        else j < eos_bit g \<and>
          (let bytes = bytes_or_empty (cg_vocab g) j; p = probe_of (ses_cursor s) bytes
           in if consulted_ambient p then stack_top_present (ses_cursor s) \<and> cursor_admits bytes (ses_cursor s)
              else alive p))"
proof -
  define c where "c = partition_of g (ses_cursor s)"
  note cm = partition_of_spec [where g = g and c = "ses_cursor s", folded c_def]
  obtain g' where c: "cursor_cached (ses_cursor s) g = Some (c, g')"
    and gr: "grammar_ok g'" "cg_vocab g' = cg_vocab g" "cg_engine g' = cg_engine g"
    using cursor_cached_fills [OF g s] unfolding c_def by blast
  have eos: "eos_bit g' = eos_bit g" using gr by (simp add: eos_bit_def)
  have sm: "mask_ok (ses_mask s)" "bm_len (ses_mask s) = mask_len g" using s by (simp_all add: session_ok_def)
  have m0: "copy_from (indep c) (ses_mask s) = indep c" using copy_same [OF cm(1) sm(1)] cm(2) sm(2) by simp
  define m1 where "m1 = (if stack_top_present (ses_cursor s)
    then fold (\<lambda>i mask. if cursor_admits (bytes_or_empty (cg_vocab g) i) (ses_cursor s) then bm_set i mask else mask)
           (deferred c) (indep c) else indep c)"
  note fa = bm.fold_add [OF cm(1), where P = "\<lambda>i. cursor_admits (bytes_or_empty (cg_vocab g) i) (ses_cursor s)" and ids = "deferred c"]
  have bound: "j \<in> set (deferred c) \<Longrightarrow> j < bm_len (indep c)" for j using cm(2,3) by (simp add: mask_len_def)
  have m1: "mask_ok m1" "bm_len m1 = mask_len g" using fa cm(1,2) by (simp_all add: m1_def)
  have t1: "bm_test j m1 \<longleftrightarrow> bm_test j (indep c) \<or>
       stack_top_present (ses_cursor s) \<and> j \<in> set (deferred c) \<and> cursor_admits (bytes_or_empty (cg_vocab g) j) (ses_cursor s)" for j
    using fa [of j] bound [of j] by (cases "stack_top_present (ses_cursor s)") (simp_all add: m1_def, blast)
  define m2 where "m2 = (if cursor_is_accepting (ses_cursor s) then bm_set (eos_bit g) m1 else bm_clear (eos_bit g) m1)"
  have m2: "mask_ok m2" "bm_len m2 = mask_len g"
    "bm_test j m2 \<longleftrightarrow> (if j = eos_bit g then cursor_is_accepting (ses_cursor s) else bm_test j m1)" for j
    using m1 by (simp_all add: m2_def bm.add_laws bm.del_laws mask_len_def)
  have "allowed_mask g s = Some (s\<lparr>ses_mask := m2\<rparr>, g')"
    unfolding allowed_mask_def c by (simp add: m0 gr(2) eos Let_def m1_def m2_def)
  then show thesis
  proof (rule that [OF _ gr m2(1,2)], intro allI)
    show "bm_test j m2 \<longleftrightarrow>
       (if j = eos_bit g then cursor_is_accepting (ses_cursor s)
        else j < eos_bit g \<and>
          (let bytes = bytes_or_empty (cg_vocab g) j; p = probe_of (ses_cursor s) bytes
           in if consulted_ambient p then stack_top_present (ses_cursor s) \<and> cursor_admits bytes (ses_cursor s)
              else alive p))" for j
      unfolding m2(3) t1 cm(3) cm(4) [rule_format] Let_def by auto
  qed
qed






definition pipe_vocab :: Vocab where
  "pipe_vocab = \<lparr>tokens = [''|'', '')'', ''{|'']\<rparr>"



section \<open>Tokens are sequences of bytes\<close>

lemma fold_accept_byte:
  "case try_accept_token bytes (ses_cursor s) of
     Some c \<Rightarrow> fold_result accept_byte bytes s = Inr (s\<lparr>ses_cursor := c, ses_offset := ses_offset s + length bytes\<rparr>)
   | None \<Rightarrow> \<exists>e. fold_result accept_byte bytes s = Inl e"
proof (induction bytes arbitrary: s)
  case Nil
  show ?case by (cases "ses_cursor s") (simp_all add: try_accept_token_def)
next
  case (Cons b bytes)
  have tr: "try_accept_token (b # bytes) c =
      (case advance_byte b c of Inl _ \<Rightarrow> None | Inr c' \<Rightarrow> try_accept_token bytes c')" for c
    by (cases c) (auto simp: try_accept_token_def advance_byte_def split: sum.splits option.splits)
  show ?case
  proof (cases "advance_byte b (ses_cursor s)")
    case (Inl e)
    then show ?thesis by (cases e) (simp add: tr accept_byte_def)
  next
    case (Inr c)
    let ?s = "s\<lparr>ses_cursor := c, ses_offset := ses_offset s + 1\<rparr>"
    have "fold_result accept_byte (b # bytes) s = fold_result accept_byte bytes ?s"
      by (simp add: accept_byte_def Inr)
    with Cons.IH [of ?s] Inr show ?thesis
      by (simp add: tr del: fold_result.simps split: option.splits)
  qed
qed

text \<open>C12: accepting a token of the vocabulary is the same as accepting its bytes one after the other:
  both succeed on the same tokens and then leave the same session, offset included; where a byte is
  dead, the token is reported as inadmissible and the session stays as it was. An id past the
  vocabulary is reported as unknown, and end-of-stream is accepted exactly in a complete session.
\<close>

theorem accept_token_is_bytes:
  assumes "vocab_len (cg_vocab g) < 2 ^ 32" "session_ok g s"
  shows "accept_token g i s =
     (if i = vocab_len (cg_vocab g) then (if is_complete s then Inr s else Inl UnexpectedEos)
      else case vocab_bytes (cg_vocab g) i of
        None \<Rightarrow> Inl (UnknownToken i)
      | Some bytes \<Rightarrow>
          (case fold_result accept_byte bytes s of Inl _ \<Rightarrow> Inl (InadmissibleToken i) | Inr s' \<Rightarrow> Inr s'))"
proof -
  have "eos_bit g = vocab_len (cg_vocab g)" "l2_eos s" using assms by (simp_all add: eos_bit_def session_ok_def)
  moreover have "(case try_accept_token bytes (ses_cursor s) of
       None \<Rightarrow> Inl (InadmissibleToken i)
     | Some c \<Rightarrow> Inr (s\<lparr>ses_cursor := c, ses_offset := ses_offset s + length bytes\<rparr>)) =
     (case fold_result accept_byte bytes s of Inl _ \<Rightarrow> Inl (InadmissibleToken i) | Inr s' \<Rightarrow> Inr s')" for bytes
    using fold_accept_byte [of bytes s] by (auto split: option.splits)
  ultimately show ?thesis by (simp add: accept_token_def is_complete_def cong: option.case_cong)
qed

text \<open>Witness: the third token of the sample vocabulary consumes two bytes.\<close>

theorem accept_token_is_bytes_witness:
  "\<exists>s'. accept_token (compile_fixed pipe_vocab) 2 (session_new (compile_fixed pipe_vocab)) = Inr s' \<and> ses_offset s' = 2"
proof -
  let ?g = "compile_fixed pipe_vocab"
  have len: "vocab_len (cg_vocab ?g) < 2 ^ 32" by (simp add: compile_fixed_def vocab_len_def pipe_vocab_def)
  show ?thesis
    unfolding accept_token_is_bytes [OF len session_ok_new [OF grammar_ok_compile]]
    by (simp add: session_new_def cursor_new_def compile_fixed_def vocab_bytes_def get_at_def vocab_len_def
        pipe_vocab_def accept_byte_def advance_byte_def pda_advance_def pda_new_def advance_with_def step_start_def
        step_after_brace_open_def is_ws_def)
qed


section \<open>Complete streams\<close>









section \<open>Stack guards and the partition cache\<close>

definition paren_vocab :: Vocab where
  "paren_vocab = \<lparr>tokens = [''('', ''x'']\<rparr>"

text \<open>C40: for a grammar from a specification the mask can admit a token that the session rejects. In the
  sample grammar \<open>x\<close> is guarded by an empty stack. The partition of a state is computed by probing over
  an empty stack and a token that stays alive there is cached as independent of the stack, so after an
  opening parenthesis the mask still has the bit of \<open>x\<close>, while accepting \<open>x\<close> fails as inadmissible.
\<close>

theorem spec_mask_admits_rejected_token:
  "\<exists>g s m g'. from_spec Inr sample_spec paren_vocab = Inr g \<and> accept_token g 0 (session_new g) = Inr s \<and>
     allowed_mask g s = Some (s\<lparr>ses_mask := m\<rparr>, g') \<and> bm_test 1 m \<and>
     accept_token g 1 s = Inl (InadmissibleToken 1)"
proof -
  define g where "g = \<lparr>cg_vocab = paren_vocab, cg_engine = Spec sample_automaton,
    cg_cache = map (\<lambda>_. None) [0..<state_count sample_automaton]\<rparr>"
  have g: "from_spec Inr sample_spec paren_vocab = Inr g" by (simp add: from_spec_def sample_compiles g_def)
  have ok: "grammar_ok g" by (rule grammar_ok_from_spec [OF g refl sample_states_ok])
  define p where "p = \<lparr>rtn_automaton = sample_automaton, rtn_state = 0, rtn_stack = [0]\<rparr>"
  have step: "auto_step sample_automaton 0 None (CHR ''('') = Push 0 0"
    "auto_step sample_automaton 0 None (CHR ''x'') = Next 0" "auto_step sample_automaton 0 (Some 0) (CHR ''x'') = Dead"
    by (simp_all add: sample_automaton_def auto_step_def selected_rule_def get_at_def)
  have eos: "eos_bit g = 2" by (simp add: g_def eos_bit_def vocab_len_def paren_vocab_def)
  obtain s where s: "accept_token g 0 (session_new g) = Inr s" "ses_cursor s = CursorSpec p"
    using eos by (simp add: accept_token_def g_def session_new_def cursor_new_def vocab_bytes_def get_at_def
        paren_vocab_def try_accept_token_def rtn_advance_def advance_with_def rtn_new_def step p_def sample_automaton_def [THEN arg_cong, of a_start])
  have rej: "accept_token g 1 s = Inl (InadmissibleToken 1)"
    using eos by (simp add: accept_token_def g_def vocab_bytes_def get_at_def paren_vocab_def s(2) p_def
        try_accept_token_def rtn_advance_def advance_with_def step)
  have sok: "session_ok g s" by (rule session_ok_accept_token [OF session_ok_new [OF ok] ok s(1)])
  obtain m g' where m: "allowed_mask g s = Some (s\<lparr>ses_mask := m\<rparr>, g')"
    and bits: "\<forall>j. bm_test j m \<longleftrightarrow>
       (if j = eos_bit g then cursor_is_accepting (ses_cursor s)
        else j < eos_bit g \<and>
          (let bytes = bytes_or_empty (cg_vocab g) j; p = probe_of (ses_cursor s) bytes
           in if consulted_ambient p then stack_top_present (ses_cursor s) \<and> cursor_admits bytes (ses_cursor s)
              else alive p))"
    by (rule allowed_mask_bits [OF ok sok])
  have "bm_test 1 m" unfolding bits [rule_format]
    using eos by (simp add: Let_def s(2) p_def probe_of_def rtn_probe_def rtn_at_def bytes_or_empty_def vocab_bytes_def
        get_at_def g_def paren_vocab_def step)
  with g s m rej show ?thesis by blast
qed

end
