(* ===== verification/Json.thy ===== *)
theory Json
  imports OrderedMap Complex_Main "HOL-Library.List_Lexorder" "HOL-Library.Char_ord"
begin

text \<open>
  The values of \<^verbatim>\<open>serde_json\<close> that the loader of compiled models and the language server read: objects are
  ordered maps, and numbers keep serde's three representations.
\<close>

text \<open>A float is represented by its (finite, hence rational) value, the only thing equality sees.\<close>

datatype Number = PosInt nat | NegInt int | Float rat

datatype Value =
  Null | Bool bool | Number Number | String string | Array "Value list" | Object "(string \<times> Value) list"

definition i64_max :: int where "i64_max = 2 ^ 63 - 1"

fun as_i64 :: "Value \<Rightarrow> int option" where
  "as_i64 (Number (PosInt n)) = (if int n \<le> i64_max then Some (int n) else None)"
| "as_i64 (Number (NegInt i)) = Some i"
| "as_i64 _ = None"

fun as_u64 :: "Value \<Rightarrow> nat option" where
  "as_u64 (Number (PosInt n)) = Some n"
| "as_u64 _ = None"

fun value_as_str :: "Value \<Rightarrow> string option" where
  "value_as_str (String s) = Some s"
| "value_as_str _ = None"

fun as_array :: "Value \<Rightarrow> Value list option" where
  "as_array (Array vs) = Some vs"
| "as_array _ = None"

fun as_object :: "Value \<Rightarrow> (string \<times> Value) list option" where
  "as_object (Object m) = Some m"
| "as_object _ = None"

fun value_get :: "Value \<Rightarrow> string \<Rightarrow> Value option" where
  "value_get (Object m) k = bt_get m k"
| "value_get _ k = None"

definition int_value :: "int \<Rightarrow> Value" where
  "int_value i = Number (if 0 \<le> i then PosInt (nat i) else NegInt i)"

definition u32_of :: "Value \<Rightarrow> nat option" where
  "u32_of v = (case as_u64 v of None \<Rightarrow> None | Some n \<Rightarrow> if n \<le> u32_max then Some n else None)"

definition object :: "(string \<times> Value) list \<Rightarrow> Value" where
  "object entries = Object (fold (\<lambda>(name, value). bt_insert name value) entries [])"

end
