(* ===== verification/LspDocument.thy ===== *)
theory LspDocument
  imports OrderedMap "HOL-Library.Char_ord" "HOL-Library.List_Lexorder"
begin

text \<open>
  The document store of the language server (\<^verbatim>\<open>crates/pure-analyzer-lsp/src/document.rs\<close>): client
  snapshots with versions and a revision counter, the conversion between byte offsets and protocol
  positions (lines and UTF-16 units), and incremental changes. A text is its UTF-8 bytes; a character
  is represented by its lead byte, which determines how many UTF-16 units it takes. Lines and
  characters of a position are below \<open>2 ^ 32\<close>, the revision below \<open>2 ^ 64\<close>.
\<close>

section \<open>Snapshots, positions and changes\<close>

record DocumentSnapshot =
  doc_uri :: string
  doc_text :: string
  doc_version :: "int option"

record ProtocolPosition =
  pos_line :: nat
  pos_character :: nat

record ProtocolRange =
  prange_start :: ProtocolPosition
  prange_end :: ProtocolPosition

record ContentChange =
  change_range :: "ProtocolRange option"
  change_range_length :: "nat option"
  change_text :: string

definition newline :: char where "newline = CHR 0x0A"

text \<open>\<^verbatim>\<open>str::char_indices\<close>, with the lead byte for the character, and \<^verbatim>\<open>char::len_utf16\<close>.\<close>

fun char_indices :: "nat \<Rightarrow> string \<Rightarrow> (nat \<times> char) list" where
  "char_indices i [] = []"
| "char_indices i (b # bs) =
     (if is_continuation_byte b then char_indices (Suc i) bs else (i, b) # char_indices (Suc i) bs)"

definition len_utf16 :: "char \<Rightarrow> nat" where
  "len_utf16 lead = (if (240::nat) \<le> of_char lead then 2 else 1)"

definition checked_add_u32 :: "nat \<Rightarrow> nat \<Rightarrow> nat option" where
  "checked_add_u32 a b = (if a + b \<le> u32_max then Some (a + b) else None)"

definition utf16_length :: "string \<Rightarrow> nat option" where
  "utf16_length text =
     fold (\<lambda>(_, c) acc. Option.bind acc (\<lambda>n. checked_add_u32 n (len_utf16 c))) (char_indices 0 text) (Some 0)"

fun line_start :: "nat \<Rightarrow> string \<Rightarrow> nat \<Rightarrow> nat option" where
  "line_start 0 text start = Some start"
| "line_start (Suc n) text start =
     (case position (\<lambda>b. b = newline) (drop start text) of
        None \<Rightarrow> None
      | Some nl \<Rightarrow> line_start n text (start + nl + 1))"

definition line_bounds :: "string \<Rightarrow> nat \<Rightarrow> (nat \<times> nat) option" where
  "line_bounds text line =
     (case line_start line text 0 of
        None \<Rightarrow> None
      | Some start \<Rightarrow>
          Some (start, case position (\<lambda>b. b = newline) (drop start text) of
            None \<Rightarrow> length text | Some nl \<Rightarrow> start + nl))"

fun offset_loop :: "nat \<Rightarrow> (nat \<times> char) list \<Rightarrow> nat \<Rightarrow> nat \<Rightarrow> nat \<Rightarrow> nat option" where
  "offset_loop target [] start end units = (if target = units then Some end else None)"
| "offset_loop target ((offset, c) # cs) start end units =
     (if target = units then Some (start + offset)
      else case checked_add_u32 units (len_utf16 c) of
             None \<Rightarrow> None
           | Some next \<Rightarrow> if target < next then None else offset_loop target cs start end next)"

definition byte_offset :: "string \<Rightarrow> ProtocolPosition \<Rightarrow> nat option" where
  "byte_offset text pos =
     (case line_bounds text (pos_line pos) of
        None \<Rightarrow> None
      | Some (start, end) \<Rightarrow>
          offset_loop (pos_character pos) (char_indices 0 (list_slice start end text)) start end 0)"

definition rfind_newline :: "string \<Rightarrow> nat option" where
  "rfind_newline xs = map_option (\<lambda>k. length xs - 1 - k) (position (\<lambda>b. b = newline) (rev xs))"

definition utf16_position :: "string \<Rightarrow> nat \<Rightarrow> ProtocolPosition option" where
  "utf16_position text offset =
     (if length text < offset \<or> \<not> is_char_boundary text offset then None
      else let line = length (filter (\<lambda>b. b = newline) (list_slice 0 offset text))
           in if u32_max < line then None
              else let start = (case rfind_newline (list_slice 0 offset text) of None \<Rightarrow> 0 | Some nl \<Rightarrow> nl + 1)
                   in map_option (\<lambda>character. \<lparr>pos_line = line, pos_character = character\<rparr>)
                        (utf16_length (list_slice start offset text)))"

text \<open>A change yields the new text, or \<open>None\<close> when it is refused.\<close>

definition apply_change :: "ContentChange \<Rightarrow> string \<Rightarrow> string option" where
  "apply_change change text =
     (case change_range change of
        None \<Rightarrow>
          (if (case change_range_length change of None \<Rightarrow> False | Some n \<Rightarrow> utf16_length text \<noteq> Some n) then None
           else Some (change_text change))
      | Some r \<Rightarrow>
          (case byte_offset text (prange_start r) of
             None \<Rightarrow> None
           | Some start \<Rightarrow>
               (case byte_offset text (prange_end r) of
                  None \<Rightarrow> None
                | Some end \<Rightarrow>
                    if end < start then None
                    else if (case change_range_length change of None \<Rightarrow> False
                             | Some n \<Rightarrow> utf16_length (list_slice start end text) \<noteq> Some n) then None
                    else Some (take start text @ change_text change @ drop end text))))"


section \<open>The store\<close>

record DocumentStore =
  documents :: "(string, DocumentSnapshot) btree_map"
  revision :: nat

definition store_default :: DocumentStore where
  "store_default = \<lparr>documents = [], revision = 0\<rparr>"

definition advance_revision :: "DocumentStore \<Rightarrow> DocumentStore option" where
  "advance_revision s =
     (if revision s + 1 < 2 ^ 64 then Some (s\<lparr>revision := revision s + 1\<rparr>) else None)"

definition accepts_version :: "int option \<Rightarrow> int option \<Rightarrow> bool" where
  "accepts_version current incoming =
     (case (current, incoming) of
        (Some c, Some i) \<Rightarrow> i > c
      | (Some _, None) \<Rightarrow> False
      | (None, _) \<Rightarrow> True)"

definition store_replace :: "DocumentSnapshot \<Rightarrow> DocumentStore \<Rightarrow> bool \<times> DocumentStore" where
  "store_replace d s =
     (if (case bt_get (documents s) (doc_uri d) of None \<Rightarrow> False
          | Some current \<Rightarrow> \<not> accepts_version (doc_version current) (doc_version d))
      then (False, s)
      else case advance_revision s of
             None \<Rightarrow> (False, s)
           | Some s \<Rightarrow> (True, s\<lparr>documents := bt_insert (doc_uri d) d (documents s)\<rparr>))"

definition store_remove :: "string \<Rightarrow> DocumentStore \<Rightarrow> DocumentSnapshot option \<times> DocumentStore" where
  "store_remove uri s =
     (if \<not> bt_contains (documents s) uri then (None, s)
      else case advance_revision s of
             None \<Rightarrow> (None, s)
           | Some s \<Rightarrow> (bt_get (documents s) uri, s\<lparr>documents := bt_remove uri (documents s)\<rparr>))"

definition store_get :: "DocumentStore \<Rightarrow> string \<Rightarrow> DocumentSnapshot option" where
  "store_get s uri = bt_get (documents s) uri"

definition store_len :: "DocumentStore \<Rightarrow> nat" where
  "store_len s = length (documents s)"

text \<open>The changes are applied to a copy of the text; the first refusal refuses all of them.\<close>

fun apply_all :: "ContentChange list \<Rightarrow> string \<Rightarrow> string option" where
  "apply_all [] text = Some text"
| "apply_all (c # cs) text = (case apply_change c text of None \<Rightarrow> None | Some text \<Rightarrow> apply_all cs text)"

definition apply_changes :: "string \<Rightarrow> int \<Rightarrow> ContentChange list \<Rightarrow> DocumentStore \<Rightarrow> bool \<times> DocumentStore" where
  "apply_changes uri version changes s =
     (if changes = [] then (False, s)
      else case bt_get (documents s) uri of
        None \<Rightarrow> (False, s)
      | Some document \<Rightarrow>
          if \<not> accepts_version (doc_version document) (Some version) then (False, s)
          else case apply_all changes (doc_text document) of
            None \<Rightarrow> (False, s)
          | Some text \<Rightarrow>
              (case advance_revision s of
                 None \<Rightarrow> (False, s)
               | Some s \<Rightarrow>
                   (case bt_get (documents s) uri of
                      None \<Rightarrow> (False, s)
                    | Some document \<Rightarrow>
                        (True, s\<lparr>documents := bt_insert uri
                           (document\<lparr>doc_text := text, doc_version := Some version\<rparr>) (documents s)\<rparr>))))"

end
