(* ===== verification/LspProtocol.thy ===== *)
theory LspProtocol
  imports Json LspDocument
begin

text \<open>
  The pure part of the language server's protocol layer: the outgoing
  frames of \<^verbatim>\<open>crates/pure-analyzer-lsp/src/response.rs\<close>, the workspace configuration of
  \<^verbatim>\<open>workspace.rs\<close> and the reading of request parameters in \<^verbatim>\<open>state.rs\<close>.
\<close>

section \<open>Outgoing frames\<close>

definition result_frame :: "Value \<Rightarrow> Value \<Rightarrow> Value" where
  "result_frame rid result = object [(''jsonrpc'', String ''2.0''), (''id'', rid), (''result'', result)]"

definition error_frame :: "Value \<Rightarrow> int \<Rightarrow> string \<Rightarrow> Value" where
  "error_frame rid code message =
     object [(''jsonrpc'', String ''2.0''), (''id'', rid),
             (''error'', object [(''code'', int_value code), (''message'', String message)])]"

text \<open>A writer is the list of frames written to it.\<close>

definition send_result :: "Value \<Rightarrow> Value \<Rightarrow> Value list \<Rightarrow> Value list" where
  "send_result rid result out = out @ [result_frame rid result]"

definition send_error :: "Value \<Rightarrow> int \<Rightarrow> string \<Rightarrow> Value list \<Rightarrow> Value list" where
  "send_error rid code message out = out @ [error_frame rid code message]"

record PublishedDiagnostic =
  pd_start :: ProtocolPosition
  pd_end :: ProtocolPosition
  pd_severity :: nat
  pd_code :: "string option"
  pd_message :: string

definition position_value :: "ProtocolPosition \<Rightarrow> Value" where
  "position_value p =
     object [(''line'', int_value (int (pos_line p))), (''character'', int_value (int (pos_character p)))]"

definition range_value :: "ProtocolPosition \<Rightarrow> ProtocolPosition \<Rightarrow> Value" where
  "range_value s e = object [(''start'', position_value s), (''end'', position_value e)]"

definition diagnostic_value :: "PublishedDiagnostic \<Rightarrow> Value" where
  "diagnostic_value d =
     object ([(''range'', range_value (pd_start d) (pd_end d)),
              (''severity'', int_value (int (pd_severity d)))] @
             (case pd_code d of None \<Rightarrow> [] | Some code \<Rightarrow> [(''code'', String code)]) @
             [(''source'', String ''pure-analyzer''), (''message'', String (pd_message d))])"

definition publish_diagnostics ::
    "string \<Rightarrow> int option \<Rightarrow> PublishedDiagnostic list \<Rightarrow> Value list \<Rightarrow> Value list" where
  "publish_diagnostics uri version diagnostics out =
     out @ [object [(''jsonrpc'', String ''2.0''),
                    (''method'', String ''textDocument/publishDiagnostics''),
                    (''params'', object ([(''uri'', String uri)] @
                       (case version of None \<Rightarrow> [] | Some v \<Rightarrow> [(''version'', int_value v)]) @
                       [(''diagnostics'', Array (map diagnostic_value diagnostics))]))]]"

definition initialization_result :: Value where
  "initialization_result =
     object
       [(''capabilities'', object
          [(''positionEncoding'', String ''utf-16''),
           (''hoverProvider'', Bool True),
           (''textDocumentSync'', object
              [(''openClose'', Bool True), (''change'', int_value 2),
               (''save'', object [(''includeText'', Bool False)])]),
           (''definitionProvider'', Bool True),
           (''codeActionProvider'', object [(''codeActionKinds'', Array [String ''quickfix''])])]),
        (''serverInfo'', object [(''name'', String ''pure-analyzer-lsp''), (''version'', String ''0.4.1'')])]"


section \<open>Workspace configuration\<close>

datatype ModelDocumentKind = Pmcd | Pure

record ModelDocument =
  model_uri :: string
  model_kind :: ModelDocumentKind

record WorkspaceConfiguration =
  settings :: "Value option"
  model_documents :: "ModelDocument list"
  config_revision :: nat

definition config_default :: WorkspaceConfiguration where
  "config_default = \<lparr>settings = None, model_documents = [], config_revision = 0\<rparr>"

definition route_document :: "Value \<Rightarrow> ModelDocument option" where
  "route_document route =
     Option.bind (Option.bind (value_get route ''uri'') value_as_str) (\<lambda>uri.
     Option.bind (Option.bind (value_get route ''kind'') value_as_str) (\<lambda>kind.
       if kind = ''pmcd'' then Some \<lparr>model_uri = uri, model_kind = Pmcd\<rparr>
       else if kind = ''pure'' then Some \<lparr>model_uri = uri, model_kind = Pure\<rparr>
       else None))"

fun collect_routes :: "Value list \<Rightarrow> string set \<Rightarrow> ModelDocument list" where
  "collect_routes [] seen = []"
| "collect_routes (route # routes) seen =
     (case route_document route of
        None \<Rightarrow> collect_routes routes seen
      | Some d \<Rightarrow>
          if model_uri d = [] then collect_routes routes seen
          else if model_uri d \<in> seen then collect_routes routes seen
          else d # collect_routes routes (insert (model_uri d) seen))"

definition model_documents_of :: "Value \<Rightarrow> ModelDocument list" where
  "model_documents_of value =
     (case Option.bind (value_get value ''modelDocuments'') as_array of
        None \<Rightarrow> []
      | Some routes \<Rightarrow> collect_routes routes {})"

definition config_update :: "Value \<Rightarrow> WorkspaceConfiguration \<Rightarrow> bool \<times> WorkspaceConfiguration" where
  "config_update value c =
     (if settings c = Some value then (False, c)
      else if config_revision c + 1 < 2 ^ 64
      then (True, \<lparr>settings = Some value, model_documents = model_documents_of value,
                   config_revision = config_revision c + 1\<rparr>)
      else (False, c))"

definition config_replace :: "Value \<Rightarrow> WorkspaceConfiguration \<Rightarrow> WorkspaceConfiguration" where
  "config_replace value c = snd (config_update value c)"


section \<open>Request parameters\<close>

definition protocol_position :: "Value \<Rightarrow> ProtocolPosition option" where
  "protocol_position pos =
     Option.bind (Option.bind (value_get pos ''line'') u32_of) (\<lambda>line.
     Option.bind (Option.bind (value_get pos ''character'') u32_of) (\<lambda>character.
       Some \<lparr>pos_line = line, pos_character = character\<rparr>))"

definition protocol_range :: "Value \<Rightarrow> ProtocolRange option" where
  "protocol_range rng =
     Option.bind (Option.bind (value_get rng ''start'') protocol_position) (\<lambda>s.
     Option.bind (Option.bind (value_get rng ''end'') protocol_position) (\<lambda>e.
       Some \<lparr>prange_start = s, prange_end = e\<rparr>))"

definition content_change :: "Value \<Rightarrow> ContentChange option" where
  "content_change change =
     Option.bind (Option.bind (value_get change ''text'') value_as_str) (\<lambda>src.
     Option.bind (case value_get change ''range'' of
                    Some r \<Rightarrow> map_option Some (protocol_range r)
                  | None \<Rightarrow> Some None) (\<lambda>range.
     Option.bind (case value_get change ''rangeLength'' of
                    Some value \<Rightarrow> map_option Some (u32_of value)
                  | None \<Rightarrow> Some None) (\<lambda>range_length.
       Some \<lparr>change_range = range, change_range_length = range_length, change_text = src\<rparr>)))"

text \<open>Collecting into \<^verbatim>\<open>Option<Vec<_>>\<close>: the first failure decides.\<close>

definition content_changes :: "Value option \<Rightarrow> ContentChange list option" where
  "content_changes params =
     Option.bind (Option.bind (Option.bind params (\<lambda>v. value_get v ''contentChanges'')) as_array) (\<lambda>changes.
       if changes = [] then None else those (map content_change changes))"

definition text_document_uri :: "Value \<Rightarrow> string option" where
  "text_document_uri params =
     Option.bind (Option.bind (value_get params ''textDocument'') (\<lambda>v. value_get v ''uri'')) value_as_str"

definition definition_params :: "Value option \<Rightarrow> (string \<times> ProtocolPosition) option" where
  "definition_params params =
     Option.bind params (\<lambda>params.
     Option.bind (text_document_uri params) (\<lambda>uri.
     Option.bind (Option.bind (value_get params ''position'') protocol_position) (\<lambda>position.
       Some (uri, position))))"

definition hover_request :: "Value option \<Rightarrow> (string \<times> ProtocolPosition) option" where
  "hover_request params =
     Option.bind (Option.bind params (\<lambda>v. value_get v ''textDocument'')) (\<lambda>text_document.
     Option.bind (Option.bind (value_get text_document ''uri'') value_as_str) (\<lambda>uri.
     Option.bind (Option.bind (Option.bind params (\<lambda>v. value_get v ''position'')) protocol_position) (\<lambda>position.
       Some (uri, position))))"

definition code_action_uri :: "Value option \<Rightarrow> string option" where
  "code_action_uri params =
     Option.bind params (\<lambda>params.
     Option.bind (text_document_uri params) (\<lambda>uri.
     Option.bind (Option.bind (value_get params ''range'') protocol_range) (\<lambda>_.
     Option.bind (Option.bind (Option.bind (value_get params ''context'') (\<lambda>v. value_get v ''diagnostics'')) as_array) (\<lambda>_.
       Some uri))))"

end
