(* ===== verification/LspServer.thy ===== *)
theory LspServer
  imports LspProtocol
begin

text \<open>
  The coordinator of the language server (\<^verbatim>\<open>crates/pure-analyzer-lsp/src\<close>): cancellation registry
  (\<^verbatim>\<open>cancellation.rs\<close>), request handlers (\<^verbatim>\<open>state.rs\<close>), scheduler (\<^verbatim>\<open>scheduler.rs\<close>), dispatch
  (\<^verbatim>\<open>dispatch.rs\<close>) and event loop (\<^verbatim>\<open>server.rs\<close>).

  A cancellation token (\<^verbatim>\<open>Arc<AtomicBool>\<close>) is an index into the list of flags allocated so far, so
  \<^verbatim>\<open>Arc::ptr_eq\<close> is equality of indices. The analysis a request runs on its snapshot (hover, definition,
  code actions, diagnostics) is a parameter, the record \<open>analysis\<close>. The writer is the list of frames
  written; failures of the transport and log messages are not modelled.
\<close>

section \<open>Cancellation\<close>

datatype RequestId = StringId string | NumberId int

instantiation RequestId :: linorder
begin

fun less_eq_RequestId :: "RequestId \<Rightarrow> RequestId \<Rightarrow> bool" where
  "less_eq_RequestId (StringId a) (StringId b) = (a \<le> b)"
| "less_eq_RequestId (StringId _) (NumberId _) = True"
| "less_eq_RequestId (NumberId _) (StringId _) = False"
| "less_eq_RequestId (NumberId i) (NumberId j) = (i \<le> j)"

definition less_RequestId :: "RequestId \<Rightarrow> RequestId \<Rightarrow> bool" where
  "less_RequestId a b \<longleftrightarrow> a \<le> b \<and> \<not> b \<le> a"

instance
proof
  fix a b c :: RequestId
  show "a < b \<longleftrightarrow> a \<le> b \<and> \<not> b \<le> a" by (rule less_RequestId_def)
  show "a \<le> a" by (cases a) simp_all
  show "a \<le> b \<Longrightarrow> b \<le> c \<Longrightarrow> a \<le> c" by (cases a; cases b; cases c) auto
  show "a \<le> b \<Longrightarrow> b \<le> a \<Longrightarrow> a = b" by (cases a; cases b) auto
  show "a \<le> b \<or> b \<le> a" by (cases a; cases b) auto
qed

end

fun request_id_from_json :: "Value \<Rightarrow> RequestId option" where
  "request_id_from_json (String s) = Some (StringId s)"
| "request_id_from_json (Number n) = map_option NumberId (as_i64 (Number n))"
| "request_id_from_json _ = None"

record CancellationRegistry =
  active :: "(RequestId, nat) btree_map"
  flags :: "bool list"

definition registry_default :: CancellationRegistry where
  "registry_default = \<lparr>active = [], flags = []\<rparr>"

definition token_is_cancelled :: "CancellationRegistry \<Rightarrow> nat \<Rightarrow> bool" where
  "token_is_cancelled r token \<longleftrightarrow> get_at (flags r) token = Some True"

definition token_cancel :: "nat \<Rightarrow> CancellationRegistry \<Rightarrow> CancellationRegistry" where
  "token_cancel token r = r\<lparr>flags := (flags r)[token := True]\<rparr>"

definition registry_begin :: "RequestId \<Rightarrow> CancellationRegistry \<Rightarrow> nat option \<times> CancellationRegistry" where
  "registry_begin request r =
     (if bt_contains (active r) request then (None, r)
      else let token = length (flags r) in
        (Some token, \<lparr>active = bt_insert request token (active r), flags = flags r @ [False]\<rparr>))"

definition registry_cancel :: "RequestId \<Rightarrow> CancellationRegistry \<Rightarrow> CancellationRegistry" where
  "registry_cancel request r =
     (case bt_get (active r) request of None \<Rightarrow> r | Some token \<Rightarrow> token_cancel token r)"

definition registry_finish :: "RequestId \<Rightarrow> nat \<Rightarrow> CancellationRegistry \<Rightarrow> bool \<times> CancellationRegistry" where
  "registry_finish request token r =
     (if bt_get (active r) request \<noteq> Some token then (False, r)
      else (token_is_cancelled r token, r\<lparr>active := bt_remove request (active r)\<rparr>))"


section \<open>Server state and snapshots\<close>

datatype Lifecycle = New | Running | ShuttingDown

datatype ServerExit = Clean | Unclean

record Server =
  cancellation :: CancellationRegistry
  configuration :: WorkspaceConfiguration
  store :: DocumentStore
  lifecycle :: Lifecycle

definition server_new :: Server where
  "server_new = \<lparr>cancellation = registry_default, configuration = config_default,
                 store = store_default, lifecycle = New\<rparr>"

record ModelRoute =
  route_uri :: string
  route_kind :: ModelDocumentKind

record AnalysisSnapshot =
  document_revision :: nat
  configuration_revision :: nat
  snap_documents :: "(string, DocumentSnapshot) btree_map"
  snap_models :: "ModelRoute list"

definition capture :: "Server \<Rightarrow> AnalysisSnapshot" where
  "capture server =
     (let docs = fold (\<lambda>d. bt_insert (doc_uri d) d) (map snd (documents (store server))) [];
          models = map (\<lambda>r. \<lparr>route_uri = model_uri r, route_kind = model_kind r\<rparr>)
                     (filter (\<lambda>r. bt_contains docs (model_uri r)) (model_documents (configuration server)))
      in \<lparr>document_revision = revision (store server),
          configuration_revision = config_revision (configuration server),
          snap_documents = docs, snap_models = models\<rparr>)"

definition is_current :: "AnalysisSnapshot \<Rightarrow> Server \<Rightarrow> bool" where
  "is_current snapshot server \<longleftrightarrow>
     document_revision snapshot = revision (store server) \<and>
     configuration_revision snapshot = config_revision (configuration server) \<and>
     length (snap_documents snapshot) = store_len (store server) \<and>
     (\<forall>(uri, document)\<in>set (snap_documents snapshot). store_get (store server) uri = Some document)"


section \<open>Requests\<close>

record analysis =
  hover_of :: "AnalysisSnapshot \<Rightarrow> string \<Rightarrow> ProtocolPosition \<Rightarrow> Value option"
  definition_of :: "AnalysisSnapshot \<Rightarrow> string \<Rightarrow> ProtocolPosition \<Rightarrow> Value"
  code_actions_of :: "AnalysisSnapshot \<Rightarrow> string \<Rightarrow> Value list option"
  diagnostics_of :: "AnalysisSnapshot \<Rightarrow> (string, PublishedDiagnostic list) btree_map"

datatype RequestWork =
  Hover AnalysisSnapshot string ProtocolPosition
| Definition AnalysisSnapshot string ProtocolPosition
| CodeActions AnalysisSnapshot string

record RequestCompletion =
  completion_snapshot :: AnalysisSnapshot
  stale_result :: Value
  completion_result :: Value

fun execute :: "analysis \<Rightarrow> RequestWork \<Rightarrow> RequestCompletion" where
  "execute an (Hover snapshot uri pos) =
     \<lparr>completion_snapshot = snapshot, stale_result = Null,
      completion_result = (case hover_of an snapshot uri pos of None \<Rightarrow> Null | Some v \<Rightarrow> v)\<rparr>"
| "execute an (Definition snapshot uri pos) =
     \<lparr>completion_snapshot = snapshot, stale_result = Null,
      completion_result = definition_of an snapshot uri pos\<rparr>"
| "execute an (CodeActions snapshot uri) =
     \<lparr>completion_snapshot = snapshot, stale_result = Array [],
      completion_result = Array (case code_actions_of an snapshot uri of None \<Rightarrow> [] | Some vs \<Rightarrow> vs)\<rparr>"

text \<open>The parameters of a request, or \<open>None\<close> for \<^verbatim>\<open>RequestParamsError::InvalidParams\<close>.\<close>

definition hover_work :: "Server \<Rightarrow> Value option \<Rightarrow> RequestWork option" where
  "hover_work server params = map_option (\<lambda>(uri, pos). Hover (capture server) uri pos) (hover_request params)"

definition definition_work :: "Server \<Rightarrow> Value option \<Rightarrow> RequestWork option" where
  "definition_work server params =
     map_option (\<lambda>(uri, pos). Definition (capture server) uri pos) (definition_params params)"

definition code_actions_work :: "Server \<Rightarrow> Value option \<Rightarrow> RequestWork option" where
  "code_actions_work server params = map_option (CodeActions (capture server)) (code_action_uri params)"


section \<open>Notifications\<close>

definition cancel_target :: "Value option \<Rightarrow> RequestId option" where
  "cancel_target params = Option.bind (Option.bind params (\<lambda>v. value_get v ''id'')) request_id_from_json"

definition state_cancel :: "Server \<Rightarrow> Value option \<Rightarrow> Server" where
  "state_cancel server params =
     (case cancel_target params of
        None \<Rightarrow> server
      | Some request \<Rightarrow> server\<lparr>cancellation := registry_cancel request (cancellation server)\<rparr>)"

definition publish_current_diagnostics :: "analysis \<Rightarrow> Server \<Rightarrow> Value list \<Rightarrow> Value list" where
  "publish_current_diagnostics an server out =
     (let snapshot = capture server;
          diagnostics = diagnostics_of an snapshot
      in fold (\<lambda>document out. publish_diagnostics (doc_uri document) (doc_version document)
                 (case bt_get diagnostics (doc_uri document) of None \<Rightarrow> [] | Some findings \<Rightarrow> findings) out)
           (map snd (snap_documents snapshot)) out)"

definition document_uri :: "Value option \<Rightarrow> string option" where
  "document_uri params =
     Option.bind (Option.bind (Option.bind params (\<lambda>v. value_get v ''textDocument'')) (\<lambda>v. value_get v ''uri'')) value_as_str"

definition open_document :: "analysis \<Rightarrow> Server \<Rightarrow> Value option \<Rightarrow> Value list \<Rightarrow> Server \<times> Value list" where
  "open_document an server params out =
     (case Option.bind params (\<lambda>v. value_get v ''textDocument'') of
        None \<Rightarrow> (server, out)
      | Some document \<Rightarrow>
          (case (Option.bind (value_get document ''uri'') value_as_str, Option.bind (value_get document ''text'') value_as_str) of
             (Some uri, Some src) \<Rightarrow>
               (case store_replace \<lparr>doc_uri = uri, doc_text = src,
                       doc_version = Option.bind (value_get document ''version'') as_i64\<rparr> (store server) of
                  (changed, docs) \<Rightarrow>
                    let server = server\<lparr>store := docs\<rparr> in
                    (server, if changed then publish_current_diagnostics an server out else out))
           | _ \<Rightarrow> (server, out)))"

definition change_document :: "analysis \<Rightarrow> Server \<Rightarrow> Value option \<Rightarrow> Value list \<Rightarrow> Server \<times> Value list" where
  "change_document an server params out =
     (case Option.bind params (\<lambda>v. value_get v ''textDocument'') of
        None \<Rightarrow> (server, out)
      | Some document \<Rightarrow>
          (case (Option.bind (value_get document ''uri'') value_as_str, Option.bind (value_get document ''version'') as_i64) of
             (Some uri, Some version) \<Rightarrow>
               (case content_changes params of
                  None \<Rightarrow> (server, out)
                | Some changes \<Rightarrow>
                    (case apply_changes uri version changes (store server) of
                       (changed, docs) \<Rightarrow>
                         let server = server\<lparr>store := docs\<rparr> in
                         (server, if changed then publish_current_diagnostics an server out else out)))
           | _ \<Rightarrow> (server, out)))"

definition save_document :: "analysis \<Rightarrow> Server \<Rightarrow> Value option \<Rightarrow> Value list \<Rightarrow> Value list" where
  "save_document an server params out =
     (case document_uri params of
        None \<Rightarrow> out
      | Some uri \<Rightarrow>
          if store_get (store server) uri \<noteq> None then publish_current_diagnostics an server out else out)"

definition close_document :: "analysis \<Rightarrow> Server \<Rightarrow> Value option \<Rightarrow> Value list \<Rightarrow> Server \<times> Value list" where
  "close_document an server params out =
     (case document_uri params of
        None \<Rightarrow> (server, out)
      | Some uri \<Rightarrow>
          (case store_remove uri (store server) of
             (None, docs) \<Rightarrow> (server\<lparr>store := docs\<rparr>, out)
           | (Some document, docs) \<Rightarrow>
               let server = server\<lparr>store := docs\<rparr>;
                   out = publish_diagnostics (doc_uri document) (doc_version document) [] out
               in (server, publish_current_diagnostics an server out)))"

definition update_configuration :: "analysis \<Rightarrow> Server \<Rightarrow> Value option \<Rightarrow> Value list \<Rightarrow> Server \<times> Value list" where
  "update_configuration an server params out =
     (case Option.bind params (\<lambda>v. value_get v ''settings'') of
        None \<Rightarrow> (server, out)
      | Some value \<Rightarrow>
          let server = server\<lparr>configuration := config_replace value (configuration server)\<rparr> in
          (server, publish_current_diagnostics an server out))"


section \<open>Scheduling\<close>

definition REQUEST_CANCELLED_CODE :: int where "REQUEST_CANCELLED_CODE = -32800"
definition INTERNAL_ERROR_CODE :: int where "INTERNAL_ERROR_CODE = -32603"

datatype WorkerOutcome = WorkCompleted RequestCompletion | Cancelled | Panicked

record CompletedRequest =
  response_id :: Value
  request_id :: "RequestId option"
  token :: "nat option"
  outcome :: WorkerOutcome

text \<open>A closure on the pool: what it captured, and its outcome once it has run but not yet sent it.\<close>

datatype Phase = Queued RequestWork | Executed WorkerOutcome

record Worker =
  worker_response_id :: Value
  worker_request_id :: "RequestId option"
  worker_token :: "nat option"
  phase :: Phase

record RequestScheduler =
  pending :: nat
  workers :: "Worker list"

definition scheduler_new :: RequestScheduler where
  "scheduler_new = \<lparr>pending = 0, workers = []\<rparr>"

definition is_idle :: "RequestScheduler \<Rightarrow> bool" where
  "is_idle s \<longleftrightarrow> pending s = 0"

definition usize_max :: nat where "usize_max = 2 ^ 64 - 1"

definition saturating_add :: "nat \<Rightarrow> nat \<Rightarrow> nat" where
  "saturating_add a b = min (a + b) usize_max"

datatype ScheduleResult = Scheduled | DuplicateIdentifier Value

definition spawn :: "Worker \<Rightarrow> RequestScheduler \<Rightarrow> RequestScheduler" where
  "spawn w s = \<lparr>pending = saturating_add (pending s) 1, workers = workers s @ [w]\<rparr>"

definition schedule ::
    "Server \<Rightarrow> Value \<Rightarrow> RequestWork \<Rightarrow> RequestScheduler \<Rightarrow> ScheduleResult \<times> Server \<times> RequestScheduler" where
  "schedule server rid work s =
     (case request_id_from_json rid of
        None \<Rightarrow>
          (Scheduled, server, spawn \<lparr>worker_response_id = rid, worker_request_id = None,
             worker_token = None, phase = Queued work\<rparr> s)
      | Some request \<Rightarrow>
          (case registry_begin request (cancellation server) of
             (None, registry) \<Rightarrow> (DuplicateIdentifier rid, server\<lparr>cancellation := registry\<rparr>, s)
           | (Some tok, registry) \<Rightarrow>
               (Scheduled, server\<lparr>cancellation := registry\<rparr>,
                spawn \<lparr>worker_response_id = rid, worker_request_id = Some request,
                       worker_token = Some tok, phase = Queued work\<rparr> s)))"

definition complete ::
    "Server \<Rightarrow> CompletedRequest \<Rightarrow> RequestScheduler \<Rightarrow> Value list \<Rightarrow> Server \<times> RequestScheduler \<times> Value list" where
  "complete server completed s out =
     (let s = s\<lparr>pending := pending s - 1\<rparr>;
          (cancelled, registry) =
            (case (request_id completed, token completed) of
               (Some request, Some tok) \<Rightarrow> registry_finish request tok (cancellation server)
             | (None, None) \<Rightarrow> (False, cancellation server)
             | _ \<Rightarrow> (True, cancellation server));
          server = server\<lparr>cancellation := registry\<rparr>;
          rid = response_id completed
      in if cancelled \<or> outcome completed = Cancelled
         then (server, s, send_error rid REQUEST_CANCELLED_CODE ''request cancelled'' out)
         else (server, s,
           case outcome completed of
             WorkCompleted completion \<Rightarrow>
               if is_current (completion_snapshot completion) server
               then send_result rid (completion_result completion) out
               else send_result rid (stale_result completion) out
           | Panicked \<Rightarrow> send_error rid INTERNAL_ERROR_CODE ''request failed'' out
           | Cancelled \<Rightarrow> send_error rid REQUEST_CANCELLED_CODE ''request cancelled'' out))"


section \<open>Dispatch\<close>

definition INVALID_REQUEST_CODE :: int where "INVALID_REQUEST_CODE = -32600"
definition METHOD_NOT_FOUND_CODE :: int where "METHOD_NOT_FOUND_CODE = -32601"
definition INVALID_PARAMS_CODE :: int where "INVALID_PARAMS_CODE = -32602"
definition SERVER_NOT_INITIALIZED_CODE :: int where "SERVER_NOT_INITIALIZED_CODE = -32002"

record Session =
  server :: Server
  scheduler :: RequestScheduler
  writer :: "Value list"

definition reply_error :: "Value option \<Rightarrow> int \<Rightarrow> string \<Rightarrow> Session \<Rightarrow> Session" where
  "reply_error rid code message x =
     (case rid of None \<Rightarrow> x | Some rid \<Rightarrow> x\<lparr>writer := send_error rid code message (writer x)\<rparr>)"

definition lifecycle_permits :: "string option \<Rightarrow> Value option \<Rightarrow> Session \<Rightarrow> bool \<times> Session" where
  "lifecycle_permits method rid x =
     (if method = Some ''initialize'' \<or> method = Some ''exit'' then (True, x)
      else case lifecycle (server x) of
        New \<Rightarrow> (False, reply_error rid SERVER_NOT_INITIALIZED_CODE ''server not initialized'' x)
      | ShuttingDown \<Rightarrow>
          if method = Some ''shutdown'' then (True, x)
          else (False, reply_error rid INVALID_REQUEST_CODE ''request received after shutdown'' x)
      | Running \<Rightarrow> (True, x))"

definition initialize :: "Value option \<Rightarrow> Session \<Rightarrow> Session" where
  "initialize rid x =
     (case rid of
        None \<Rightarrow> x
      | Some rid \<Rightarrow>
          if lifecycle (server x) \<noteq> New
          then x\<lparr>writer := send_error rid INVALID_REQUEST_CODE ''initialize may only run once'' (writer x)\<rparr>
          else x\<lparr>server := (server x)\<lparr>lifecycle := Running\<rparr>,
                 writer := send_result rid initialization_result (writer x)\<rparr>)"

definition shutdown :: "Value option \<Rightarrow> Session \<Rightarrow> Session" where
  "shutdown rid x =
     (case rid of
        None \<Rightarrow> x
      | Some rid \<Rightarrow>
          if lifecycle (server x) \<noteq> Running
          then x\<lparr>writer := send_error rid INVALID_REQUEST_CODE ''shutdown requires initialize'' (writer x)\<rparr>
          else x\<lparr>server := (server x)\<lparr>lifecycle := ShuttingDown\<rparr>,
                 writer := send_result rid Null (writer x)\<rparr>)"

definition exit_status :: "Server \<Rightarrow> ServerExit" where
  "exit_status s = (if lifecycle s = ShuttingDown then Clean else Unclean)"

definition dispatch_schedule :: "Value \<Rightarrow> RequestWork \<Rightarrow> Session \<Rightarrow> Session" where
  "dispatch_schedule rid work x =
     (case schedule (server x) rid work (scheduler x) of
        (Scheduled, srv, sch) \<Rightarrow> x\<lparr>server := srv, scheduler := sch\<rparr>
      | (DuplicateIdentifier rid, srv, sch) \<Rightarrow>
          \<lparr>server = srv, scheduler = sch,
           writer = send_error rid INVALID_REQUEST_CODE ''duplicate active request id'' (writer x)\<rparr>)"

definition dispatch_work :: "Value option \<Rightarrow> RequestWork option \<Rightarrow> Session \<Rightarrow> Session" where
  "dispatch_work rid work x =
     (case rid of
        None \<Rightarrow> x
      | Some rid \<Rightarrow>
          (case work of
             Some work \<Rightarrow> dispatch_schedule rid work x
           | None \<Rightarrow> x\<lparr>writer := send_error rid INVALID_PARAMS_CODE ''invalid params'' (writer x)\<rparr>))"

definition notify :: "(Server \<Rightarrow> Value list \<Rightarrow> Server \<times> Value list) \<Rightarrow> Session \<Rightarrow> Session" where
  "notify f x = (case f (server x) (writer x) of (srv, out) \<Rightarrow> x\<lparr>server := srv, writer := out\<rparr>)"

definition dispatch_method ::
    "analysis \<Rightarrow> string option \<Rightarrow> Value option \<Rightarrow> Value option \<Rightarrow> Session \<Rightarrow> ServerExit option \<times> Session" where
  "dispatch_method an method rid params x =
     (case method of
        None \<Rightarrow> (None, reply_error rid INVALID_REQUEST_CODE ''invalid request'' x)
      | Some m \<Rightarrow>
          if m = ''initialize'' then (None, initialize rid x)
          else if m = ''shutdown'' then (None, shutdown rid x)
          else if m = ''exit'' then (Some (exit_status (server x)), x)
          else if m = ''$/cancelRequest'' then (None, x\<lparr>server := state_cancel (server x) params\<rparr>)
          else if m = ''textDocument/didOpen'' then (None, notify (\<lambda>s. open_document an s params) x)
          else if m = ''textDocument/didChange'' then (None, notify (\<lambda>s. change_document an s params) x)
          else if m = ''textDocument/didSave'' then (None, x\<lparr>writer := save_document an (server x) params (writer x)\<rparr>)
          else if m = ''textDocument/didClose'' then (None, notify (\<lambda>s. close_document an s params) x)
          else if m = ''textDocument/hover'' then (None, dispatch_work rid (hover_work (server x) params) x)
          else if m = ''workspace/didChangeConfiguration'' then (None, notify (\<lambda>s. update_configuration an s params) x)
          else if m = ''textDocument/definition'' then (None, dispatch_work rid (definition_work (server x) params) x)
          else if m = ''textDocument/codeAction'' then (None, dispatch_work rid (code_actions_work (server x) params) x)
          else (None, reply_error rid METHOD_NOT_FOUND_CODE ''method not found'' x))"

definition handle :: "analysis \<Rightarrow> Value \<Rightarrow> Session \<Rightarrow> ServerExit option \<times> Session" where
  "handle an message x =
     (case as_object message of
        None \<Rightarrow> (None, x\<lparr>writer := send_error Null INVALID_REQUEST_CODE ''invalid request'' (writer x)\<rparr>)
      | Some message_fields \<Rightarrow>
          let method = Option.bind (bt_get message_fields ''method'') value_as_str;
              rid = bt_get message_fields ''id'';
              params = bt_get message_fields ''params''
          in case lifecycle_permits method rid x of
               (False, x) \<Rightarrow> (None, x)
             | (True, x) \<Rightarrow> dispatch_method an method rid params x)"


section \<open>The event loop\<close>

datatype ServerEvent = Input Value | EndOfInput | InputError string | Completed CompletedRequest

datatype ReaderAcknowledgement = Continue | Stop

text \<open>What \<^verbatim>\<open>read_frame\<close> returns, call after call: messages, then the end of the stream or an error.\<close>

datatype Frames = Frame Value Frames | EndOfStream | Broken string

text \<open>The reader thread is about to read, waits for an acknowledgement, or has returned.\<close>

datatype Reader = Reading Frames | Waiting Frames | Returned

record System = Session +
  channel :: "ServerEvent list"
  reader :: Reader
  terminal :: "ServerExit option"
  finished :: "(string + ServerExit) option"

definition serve_start :: "Frames \<Rightarrow> System" where
  "serve_start input = \<lparr>server = server_new, scheduler = scheduler_new, writer = [],
     channel = [], reader = Reading input, terminal = None, finished = None\<rparr>"

definition read_event :: "Frames \<Rightarrow> System \<Rightarrow> System" where
  "read_event input s =
     (case input of
        Frame message rest \<Rightarrow> s\<lparr>channel := channel s @ [Input message], reader := Waiting rest\<rparr>
      | EndOfStream \<Rightarrow> s\<lparr>channel := channel s @ [EndOfInput], reader := Returned\<rparr>
      | Broken e \<Rightarrow> s\<lparr>channel := channel s @ [InputError e], reader := Returned\<rparr>)"

definition acknowledge :: "ReaderAcknowledgement \<Rightarrow> System \<Rightarrow> System" where
  "acknowledge ack s =
     s\<lparr>reader := (case (ack, reader s) of (Continue, Waiting rest) \<Rightarrow> Reading rest | _ \<Rightarrow> Returned)\<rparr>"

definition session_of :: "System \<Rightarrow> Session" where
  "session_of s = \<lparr>server = server s, scheduler = scheduler s, writer = writer s\<rparr>"

definition with_session :: "Session \<Rightarrow> System \<Rightarrow> System" where
  "with_session x s = s\<lparr>server := server x, scheduler := scheduler x, writer := writer x\<rparr>"

text \<open>One round of \<^verbatim>\<open>serve_events\<close> after \<^verbatim>\<open>recv\<close> has returned the event.\<close>

definition on_event :: "analysis \<Rightarrow> ServerEvent \<Rightarrow> System \<Rightarrow> System" where
  "on_event an ev s =
     (case ev of
        Input message \<Rightarrow>
          if terminal s \<noteq> None then acknowledge Stop s
          else (case handle an message (session_of s) of
                  (Some e, x) \<Rightarrow> (acknowledge Stop (with_session x s))\<lparr>terminal := Some e\<rparr>
                | (None, x) \<Rightarrow> acknowledge Continue (with_session x s))
      | EndOfInput \<Rightarrow> s\<lparr>terminal := (case terminal s of None \<Rightarrow> Some Unclean | Some e \<Rightarrow> Some e)\<rparr>
      | InputError e \<Rightarrow> s\<lparr>finished := Some (Inl e)\<rparr>
      | Completed completed \<Rightarrow>
          (case complete (server s) completed (scheduler s) (writer s) of
             (srv, sch, out) \<Rightarrow> s\<lparr>server := srv, scheduler := sch, writer := out\<rparr>))"

text \<open>A worker runs: a token that is cancelled by then is noticed, and the work may panic.\<close>

definition work_outcomes :: "analysis \<Rightarrow> CancellationRegistry \<Rightarrow> nat option \<Rightarrow> RequestWork \<Rightarrow> WorkerOutcome list" where
  "work_outcomes an registry tok work =
     (if (case tok of None \<Rightarrow> False | Some t \<Rightarrow> token_is_cancelled registry t) then [Cancelled]
      else [WorkCompleted (execute an work), Panicked])"

definition completed_of :: "Worker \<Rightarrow> WorkerOutcome \<Rightarrow> CompletedRequest" where
  "completed_of w out = \<lparr>response_id = worker_response_id w, request_id = worker_request_id w,
                         token = worker_token w, outcome = out\<rparr>"

text \<open>
  The threads interleave freely: the reader reads, a worker runs or sends its completion, and the
  coordinator takes the next event or returns. A step is labelled with the message it dispatches.
\<close>

inductive sys_step :: "analysis \<Rightarrow> System \<Rightarrow> Value option \<Rightarrow> System \<Rightarrow> bool" for an where
  read: "finished s = None \<Longrightarrow> reader s = Reading input \<Longrightarrow> sys_step an s None (read_event input s)"
| run: "finished s = None \<Longrightarrow> workers (scheduler s) = ws @ w # ws' \<Longrightarrow> phase w = Queued work \<Longrightarrow>
     out \<in> set (work_outcomes an (cancellation (server s)) (worker_token w) work) \<Longrightarrow>
     sys_step an s None (s\<lparr>scheduler := (scheduler s)\<lparr>workers := ws @ w\<lparr>phase := Executed out\<rparr> # ws'\<rparr>\<rparr>)"
| send: "finished s = None \<Longrightarrow> workers (scheduler s) = ws @ w # ws' \<Longrightarrow> phase w = Executed out \<Longrightarrow>
     sys_step an s None (s\<lparr>scheduler := (scheduler s)\<lparr>workers := ws @ ws'\<rparr>,
                           channel := channel s @ [Completed (completed_of w out)]\<rparr>)"
| return: "finished s = None \<Longrightarrow> terminal s = Some e \<Longrightarrow> is_idle (scheduler s) \<Longrightarrow>
     sys_step an s None (s\<lparr>finished := Some (Inr e)\<rparr>)"
| receive: "finished s = None \<Longrightarrow> terminal s = None \<or> \<not> is_idle (scheduler s) \<Longrightarrow> channel s = ev # rest \<Longrightarrow>
     dispatched = (case ev of Input message \<Rightarrow> if terminal s = None then Some message else None | _ \<Rightarrow> None) \<Longrightarrow>
     sys_step an s dispatched (on_event an ev (s\<lparr>channel := rest\<rparr>))"

text \<open>Runs, with the messages dispatched in order.\<close>

inductive sys_run :: "analysis \<Rightarrow> System \<Rightarrow> Value list \<Rightarrow> System \<Rightarrow> bool" for an where
  sys_run_refl: "sys_run an s [] s"
| sys_run_step: "sys_run an s trace s' \<Longrightarrow> sys_step an s' dispatched s'' \<Longrightarrow>
     sys_run an s (trace @ (case dispatched of None \<Rightarrow> [] | Some m \<Rightarrow> [m])) s''"

end
