(* ===== verification/LspPositions.thy ===== *)
theory LspPositions
  imports LspDocument
begin

text \<open>
  Byte offsets and protocol positions are in bijection: the two conversions of the document store are
  inverse to each other on all character boundaries, whatever the line ends and however many UTF-16
  units the characters take.
\<close>

section \<open>UTF-16 units\<close>

definition units :: "string \<Rightarrow> nat" where
  "units bs = sum_list (map len_utf16 (filter (\<lambda>b. \<not> is_continuation_byte b) bs))"

lemma units_simps [simp]:
  "units [] = 0" "units (b # bs) = (if is_continuation_byte b then 0 else len_utf16 b) + units bs"
  by (simp_all add: units_def)

lemma len_utf16_pos: "0 < len_utf16 b"
  by (simp add: len_utf16_def)

lemma utf16_length_units: "utf16_length src = (if units src \<le> u32_max then Some (units src) else None)"
proof -
  let ?f = "\<lambda>(_, c) acc. Option.bind acc (\<lambda>n. checked_add_u32 n (len_utf16 c))"
  have none: "fold ?f cs None = None" for cs :: "(nat \<times> char) list" by (induction cs) auto
  have "fold ?f (char_indices i src) (Some n) = (if n + units src \<le> u32_max then Some (n + units src) else None)"
    if "n \<le> u32_max" for i n
    using that
  proof (induction src arbitrary: i n)
    case (Cons b bs)
    have add: "checked_add_u32 n m = (if n + m \<le> u32_max then Some (n + m) else None)" for m
      by (simp add: checked_add_u32_def)
    show ?case using Cons by (auto simp: add none)
  qed simp
  from this [of 0 0] show ?thesis by (simp add: utf16_length_def u32_max_def)
qed

text \<open>The loop of \<^verbatim>\<open>byte_offset\<close> stops at the boundary that has the requested number of units before it.\<close>

lemma offset_loop_iff:
  assumes "target \<le> u32_max" "end = start + i + length bs"
  shows "offset_loop target (char_indices i bs) start end u = Some off \<longleftrightarrow>
     (\<exists>j\<le>length bs. off = start + i + j \<and> (j < length bs \<longrightarrow> \<not> is_continuation_byte (bs ! j)) \<and>
        target = u + units (take j bs))"
  using assms(2)
proof (induction bs arbitrary: i u)
  case (Cons b bs)
  have end': "end = start + Suc i + length bs" using Cons.prems by simp
  let ?R = "\<lambda>i u bs off. \<exists>j\<le>length bs. off = start + i + j \<and>
    (j < length bs \<longrightarrow> \<not> is_continuation_byte (bs ! j)) \<and> target = u + units (take j bs)"
  have split: "?R i u (b # bs) off \<longleftrightarrow> (off = start + i \<and> \<not> is_continuation_byte b \<and> target = u) \<or>
      ?R (Suc i) (u + (if is_continuation_byte b then 0 else len_utf16 b)) bs off" (is "?l \<longleftrightarrow> ?a \<or> ?b")
  proof
    assume ?l
    then obtain j where j: "j \<le> length (b # bs)" "off = start + i + j"
      "j < length (b # bs) \<longrightarrow> \<not> is_continuation_byte ((b # bs) ! j)" "target = u + units (take j (b # bs))" by blast
    show "?a \<or> ?b"
    proof (cases j)
      case 0
      with j show ?thesis by simp
    next
      case (Suc k)
      with j show ?thesis by (intro disjI2 exI [of _ k]) simp
    qed
  next
    assume "?a \<or> ?b"
    then show ?l
    proof
      assume ?a
      then show ?l by (intro exI [of _ 0]) simp
    next
      assume ?b
      then obtain k where "k \<le> length bs" "off = start + Suc i + k"
        "k < length bs \<longrightarrow> \<not> is_continuation_byte (bs ! k)"
        "target = u + (if is_continuation_byte b then 0 else len_utf16 b) + units (take k bs)" by blast
      then show ?l by (intro exI [of _ "Suc k"]) simp
    qed
  qed
  show ?case
  proof (cases "is_continuation_byte b")
    case True
    with Cons.IH [OF end', of u] split show ?thesis by simp
  next
    case False
    have ge: "u + len_utf16 b \<le> target" if "?R (Suc i) (u + len_utf16 b) bs off" using that by auto
    show ?thesis
    proof (cases "u + len_utf16 b \<le> target")
      case True
      with assms(1) len_utf16_pos [of b] have ne: "target \<noteq> u"
        and ca: "checked_add_u32 u (len_utf16 b) = Some (u + len_utf16 b)"
        by (simp_all add: checked_add_u32_def)
      with False True Cons.IH [OF end', of "u + len_utf16 b"] split show ?thesis by simp
    next
      case small: False
      with ge have no: "\<not> ?R (Suc i) (u + len_utf16 b) bs off" by blast
      have "offset_loop target (char_indices i (b # bs)) start end u = (if target = u then Some (start + i) else None)"
        using False small by (simp add: checked_add_u32_def)
      with no split False show ?thesis by auto
    qed
  qed
qed auto


section \<open>Lines\<close>

abbreviation is_nl :: "char \<Rightarrow> bool" where "is_nl b \<equiv> b = newline"

definition lines_in :: "string \<Rightarrow> nat" where
  "lines_in bs = length (filter is_nl bs)"

lemma lines_in_simps [simp]: "lines_in [] = 0" "lines_in (b # bs) = (if is_nl b then 1 else 0) + lines_in bs"
  "lines_in (xs @ ys) = lines_in xs + lines_in ys"
  by (simp_all add: lines_in_def)

lemma lines_in_0: "lines_in bs = 0 \<longleftrightarrow> newline \<notin> set bs"
  by (auto simp: lines_in_def filter_empty_conv)

lemma position_nl: "position is_nl bs = Some p \<longleftrightarrow> p < length bs \<and> bs ! p = newline \<and> newline \<notin> set (take p bs)"
proof (induction bs arbitrary: p)
  case (Cons b bs)
  show ?case
  proof (cases p)
    case 0
    then show ?thesis by auto
  next
    case (Suc q)
    with Cons [of q] show ?thesis by auto
  qed
qed simp

lemma position_nl_None: "position is_nl bs = None \<longleftrightarrow> newline \<notin> set bs"
  by (induction bs) auto

text \<open>A position where a line begins, seen from an earlier one.\<close>

definition line_begin :: "string \<Rightarrow> nat \<Rightarrow> nat \<Rightarrow> bool" where
  "line_begin src s t \<longleftrightarrow> s \<le> t \<and> t \<le> length src \<and> (t = s \<or> src ! (t - 1) = newline)"

lemma list_slice_split: "s \<le> m \<Longrightarrow> m \<le> t \<Longrightarrow> list_slice s t xs = list_slice s m xs @ list_slice m t xs"
  by (simp add: list_slice_append)

lemma slice_nl_last:
  assumes "s < t" "t \<le> length src" "src ! (t - 1) = newline"
  shows "0 < lines_in (list_slice s t src)"
proof -
  have "list_slice s t src = list_slice s (t - 1) src @ [src ! (t - 1)]"
    using assms list_slice_Suc [of s "t - 1" src] by simp
  with assms(3) show ?thesis by simp
qed

lemma line_start_iff:
  "s \<le> length src \<Longrightarrow> line_start k src s = Some t \<longleftrightarrow> line_begin src s t \<and> lines_in (list_slice s t src) = k"
proof (induction k arbitrary: s)
  case 0
  then show ?case using slice_nl_last [of s t src] by (cases "s < t") (auto simp: line_begin_def)
next
  case (Suc k)
  show ?case
  proof (cases "position is_nl (drop s src)")
    case None
    then have "newline \<notin> set (list_slice s t src)"
      using position_nl_None [of "drop s src"] by (auto simp: list_slice_def dest: in_set_takeD)
    then have "lines_in (list_slice s t src) = 0" by (simp add: lines_in_0)
    with None show ?thesis by simp
  next
    case (Some p)
    then have p: "s + p < length src" "src ! (s + p) = newline" "newline \<notin> set (take p (drop s src))"
      by (auto simp: position_nl)
    let ?m = "s + p + 1"
    have head: "list_slice s ?m src = take p (drop s src) @ [newline]"
      using p by (simp add: list_slice_def take_Suc_conv_app_nth)
    then have one: "lines_in (list_slice s ?m src) = 1" using p(3) lines_in_0 [of "take p (drop s src)"] by simp
    have step: "line_start (Suc k) src s = line_start k src ?m" using Some by simp
    have IH: "line_start k src ?m = Some t \<longleftrightarrow> line_begin src ?m t \<and> lines_in (list_slice ?m t src) = k"
      using Suc.IH [of ?m] p(1) by simp
    have "line_begin src ?m t \<and> lines_in (list_slice ?m t src) = k \<longleftrightarrow>
        line_begin src s t \<and> lines_in (list_slice s t src) = Suc k"
    proof (cases "?m \<le> t")
      case True
      with one list_slice_split [of s ?m t src] p(2) show ?thesis by (auto simp: line_begin_def)
    next
      case False
      then have "set (list_slice s t src) \<subseteq> set (take p (drop s src))"
        using set_take_subset_set_take [of "t - s" p "drop s src"] by (simp add: list_slice_def)
      with p(3) have "lines_in (list_slice s t src) = 0" by (auto simp: lines_in_0)
      with False show ?thesis by (auto simp: line_begin_def)
    qed
    with step IH show ?thesis by simp
  qed
qed

lemma rfind_newline_start:
  assumes "off \<le> length src"
  defines "t \<equiv> case rfind_newline (list_slice 0 off src) of None \<Rightarrow> 0 | Some nl \<Rightarrow> nl + 1"
  shows "line_begin src 0 t \<and> t \<le> off \<and> newline \<notin> set (list_slice t off src)"
proof -
  have pre: "list_slice 0 off src = take off src" "length (take off src) = off" using assms by (simp_all add: list_slice_def)
  show ?thesis
  proof (cases "position is_nl (rev (take off src))")
    case None
    then have "t = 0" by (simp add: t_def rfind_newline_def pre)
    with None pre assms show ?thesis by (simp add: line_begin_def position_nl_None list_slice_def)
  next
    case (Some k)
    then have k: "k < off" "rev (take off src) ! k = newline" "newline \<notin> set (take k (rev (take off src)))"
      using pre(2) by (auto simp: position_nl)
    have t: "t = off - k" using Some pre k(1) by (simp add: t_def rfind_newline_def)
    have at: "src ! (t - 1) = newline" using k(1,2) t assms(1) by (simp add: rev_nth)
    have "list_slice t off src = drop (off - k) (take off src)" by (simp add: list_slice_def t drop_take)
    moreover have "set (drop (off - k) (take off src)) = set (take k (rev (take off src)))"
      using assms(1) by (simp add: take_rev)
    ultimately have "newline \<notin> set (list_slice t off src)" using k(3) by simp
    with at t k(1) assms(1) show ?thesis by (simp add: line_begin_def)
  qed
qed

text \<open>The line that holds an offset is determined by where it begins.\<close>

lemma line_of_offset:
  assumes "line_begin src 0 t" "t \<le> off" "off \<le> length src" "newline \<notin> set (list_slice t off src)"
  shows "lines_in (list_slice 0 off src) = lines_in (list_slice 0 t src)"
    and "line_begin src 0 t' \<Longrightarrow> t' \<le> off \<Longrightarrow> newline \<notin> set (list_slice t' off src) \<Longrightarrow> t' = t"
proof -
  show "lines_in (list_slice 0 off src) = lines_in (list_slice 0 t src)"
    using assms(2,4) list_slice_split [of 0 t off src] lines_in_0 [of "list_slice t off src"] by simp
  have later: False if "line_begin src 0 b" "a < b" "b \<le> off" "newline \<notin> set (list_slice a off src)" for a b
  proof -
    have "0 < lines_in (list_slice a b src)" using that assms(3) by (intro slice_nl_last) (auto simp: line_begin_def)
    with that(2,3,4) list_slice_split [of a b off src] show False by (simp flip: lines_in_0)
  qed
  show "line_begin src 0 t' \<Longrightarrow> t' \<le> off \<Longrightarrow> newline \<notin> set (list_slice t' off src) \<Longrightarrow> t' = t"
    using assms(1,2,4) later [of t' t] later [of t t'] by (meson linorder_neqE_nat)
qed

text \<open>The end of a line: the next line feed, or the end of the text.\<close>

lemma line_end:
  assumes "t \<le> length src"
  defines "e \<equiv> case position is_nl (drop t src) of None \<Rightarrow> length src | Some nl \<Rightarrow> t + nl"
  shows "t \<le> e" "e \<le> length src" "e < length src \<Longrightarrow> src ! e = newline"
    and "t \<le> off \<Longrightarrow> off \<le> length src \<Longrightarrow> off \<le> e \<longleftrightarrow> newline \<notin> set (list_slice t off src)"
proof -
  have "t \<le> e \<and> e \<le> length src \<and> (e < length src \<longrightarrow> src ! e = newline)"
  proof (cases "position is_nl (drop t src)")
    case None
    with assms(1) show ?thesis by (simp add: e_def)
  next
    case (Some p)
    with position_nl [of "drop t src" p] assms(1) show ?thesis by (auto simp: e_def)
  qed
  then show "t \<le> e" "e \<le> length src" "e < length src \<Longrightarrow> src ! e = newline" by simp_all
  assume off: "t \<le> off" "off \<le> length src"
  show "off \<le> e \<longleftrightarrow> newline \<notin> set (list_slice t off src)"
  proof (cases "position is_nl (drop t src)")
    case None
    have "e = length src" using None by (simp add: e_def)
    moreover have "newline \<notin> set (drop t src)" using None unfolding position_nl_None .
    ultimately show ?thesis using off by (auto simp: list_slice_def dest: in_set_takeD)
  next
    case (Some p)
    then have p: "t + p < length src" "src ! (t + p) = newline" "newline \<notin> set (take p (drop t src))"
      by (auto simp: position_nl)
    show ?thesis
    proof (cases "off \<le> t + p")
      case True
      then have "set (list_slice t off src) \<subseteq> set (take p (drop t src))"
        using set_take_subset_set_take [of "off - t" p "drop t src"] by (simp add: list_slice_def)
      with p(3) True Some show ?thesis by (auto simp: e_def)
    next
      case False
      then have "list_slice t off src ! p = newline" "p < length (list_slice t off src)"
        using p(1,2) off by (simp_all add: list_slice_def)
      then have "newline \<in> set (list_slice t off src)" by (metis nth_mem)
      with False Some show ?thesis by (simp add: e_def)
    qed
  qed
qed


section \<open>The conversions are inverse\<close>

text \<open>What every UTF-8 text has: a continuation byte follows a byte outside ASCII.\<close>

definition str_ok :: "string \<Rightarrow> bool" where
  "str_ok src \<longleftrightarrow>
     (\<forall>i<length src. is_continuation_byte (src ! i) \<longrightarrow> 0 < i \<and> (128::nat) \<le> of_char (src ! (i - 1)))"

lemma utf16_position_iff:
  "utf16_position src off = Some pos \<longleftrightarrow>
     off \<le> length src \<and> is_char_boundary src off \<and> pos_line pos \<le> u32_max \<and> pos_character pos \<le> u32_max \<and>
     (\<exists>t. line_begin src 0 t \<and> t \<le> off \<and> newline \<notin> set (list_slice t off src) \<and>
        pos_line pos = lines_in (list_slice 0 t src) \<and> pos_character pos = units (list_slice t off src))"
proof (cases "off \<le> length src \<and> is_char_boundary src off")
  case True
  define t where "t = (case rfind_newline (list_slice 0 off src) of None \<Rightarrow> 0 | Some nl \<Rightarrow> nl + 1)"
  have t: "line_begin src 0 t" "t \<le> off" "newline \<notin> set (list_slice t off src)"
    using rfind_newline_start [of off src] True by (simp_all add: t_def)
  note uniq = line_of_offset [OF t(1,2) _ t(3)]
  have "utf16_position src off =
      (if u32_max < lines_in (list_slice 0 off src) then None
       else map_option (\<lambda>ch. \<lparr>pos_line = lines_in (list_slice 0 off src), pos_character = ch\<rparr>)
         (utf16_length (list_slice t off src)))"
    using True by (simp add: utf16_position_def Let_def lines_in_def t_def)
  moreover have "lines_in (list_slice 0 off src) = lines_in (list_slice 0 t src)" by (rule uniq(1)) (use True in simp)
  ultimately have eq: "utf16_position src off = Some pos \<longleftrightarrow>
      pos_line pos \<le> u32_max \<and> pos_character pos \<le> u32_max \<and>
      pos_line pos = lines_in (list_slice 0 t src) \<and> pos_character pos = units (list_slice t off src)"
    by (cases pos) (auto simp: utf16_length_units)
  have "(\<exists>t'. line_begin src 0 t' \<and> t' \<le> off \<and> newline \<notin> set (list_slice t' off src) \<and> P t') \<longleftrightarrow> P t" for P
    using t uniq(2) True by blast
  with eq True show ?thesis by auto
next
  case False
  then show ?thesis by (auto simp: utf16_position_def)
qed

lemma byte_offset_iff:
  assumes ok: "str_ok src" and c: "pos_character pos \<le> u32_max"
  shows "byte_offset src pos = Some off \<longleftrightarrow>
     off \<le> length src \<and> is_char_boundary src off \<and>
     (\<exists>t. line_begin src 0 t \<and> t \<le> off \<and> newline \<notin> set (list_slice t off src) \<and>
        pos_line pos = lines_in (list_slice 0 t src) \<and> pos_character pos = units (list_slice t off src))"
    (is "_ \<longleftrightarrow> ?rhs")
proof -
  define e where "e t = (case position is_nl (drop t src) of None \<Rightarrow> length src | Some nl \<Rightarrow> t + nl)" for t
  have cont_nl: "\<not> is_continuation_byte newline" by (simp add: newline_def is_continuation_byte_def)
  have loop: "offset_loop (pos_character pos) (char_indices 0 (list_slice t (e t) src)) t (e t) 0 = Some off \<longleftrightarrow>
      t \<le> off \<and> off \<le> e t \<and> is_char_boundary src off \<and> pos_character pos = units (list_slice t off src)"
    if t: "line_begin src 0 t" for t
  proof -
    have tl: "t \<le> length src" using t by (simp add: line_begin_def)
    note en = line_end [OF tl, folded e_def]
    have len: "length (list_slice t (e t) src) = e t - t" using en by (simp add: length_list_slice)
    have bnd: "(j < e t - t \<longrightarrow> \<not> is_continuation_byte (list_slice t (e t) src ! j)) \<longleftrightarrow> is_char_boundary src (t + j)"
      if "j \<le> e t - t" for j
    proof (cases "t + j < length src")
      case True
      have "\<not> is_continuation_byte (src ! (t + j))" if "j = e t - t" using that True en(1,3) cont_nl by simp
      moreover have "\<not> is_continuation_byte (src ! (t + j))" if "t + j = 0" using that True ok by (auto simp: str_ok_def)
      moreover have "list_slice t (e t) src ! j = src ! (t + j)" if "j < e t - t"
        using that tl en by (simp add: list_slice_def)
      ultimately show ?thesis using True that by (auto simp: is_char_boundary_def)
    next
      case False
      with that en have "t + j = length src" "t + j = e t" by auto
      then show ?thesis by auto
    qed
    have tk: "take j (list_slice t (e t) src) = list_slice t (t + j) src" if "j \<le> e t - t" for j
      using that by (simp add: list_slice_def min_def)
    have "offset_loop (pos_character pos) (char_indices 0 (list_slice t (e t) src)) t (e t) 0 = Some off \<longleftrightarrow>
       (\<exists>j\<le>e t - t. off = t + j \<and> (j < e t - t \<longrightarrow> \<not> is_continuation_byte (list_slice t (e t) src ! j)) \<and>
          pos_character pos = units (take j (list_slice t (e t) src)))"
      using offset_loop_iff [OF c, of "e t" t 0 "list_slice t (e t) src" 0 off] en(1) len by simp
    also have "\<dots> \<longleftrightarrow> (\<exists>j\<le>e t - t. off = t + j \<and> is_char_boundary src (t + j) \<and> pos_character pos = units (list_slice t (t + j) src))"
    proof (rule iff_exI)
      fix j show "(j \<le> e t - t \<and> off = t + j \<and> (j < e t - t \<longrightarrow> \<not> is_continuation_byte (list_slice t (e t) src ! j)) \<and>
          pos_character pos = units (take j (list_slice t (e t) src))) \<longleftrightarrow>
        (j \<le> e t - t \<and> off = t + j \<and> is_char_boundary src (t + j) \<and> pos_character pos = units (list_slice t (t + j) src))"
        using bnd [of j] tk [of j] by (cases "j \<le> e t - t") simp_all
    qed
    also have "\<dots> \<longleftrightarrow> t \<le> off \<and> off \<le> e t \<and> is_char_boundary src off \<and> pos_character pos = units (list_slice t off src)"
      using en(1) by (auto intro!: exI [of _ "off - t"])
    finally show ?thesis .
  qed
  have "byte_offset src pos = Some off \<longleftrightarrow>
      (\<exists>t. line_begin src 0 t \<and> pos_line pos = lines_in (list_slice 0 t src) \<and>
        offset_loop (pos_character pos) (char_indices 0 (list_slice t (e t) src)) t (e t) 0 = Some off)"
  proof -
    have "byte_offset src pos = Some off \<longleftrightarrow> (\<exists>t. line_start (pos_line pos) src 0 = Some t \<and>
        offset_loop (pos_character pos) (char_indices 0 (list_slice t (e t) src)) t (e t) 0 = Some off)"
      by (cases "line_start (pos_line pos) src 0") (simp_all add: byte_offset_def line_bounds_def e_def)
    then show ?thesis using line_start_iff [of 0 src "pos_line pos"] by auto
  qed
  also have "\<dots> \<longleftrightarrow> ?rhs"
    using loop line_end(4) [where src = src and off = off, folded e_def] line_end(2) [where src = src, folded e_def]
    by (meson line_begin_def order_trans)
  finally show ?thesis .
qed

text \<open>C24: byte offsets and protocol positions of a text correspond one to one: for every position whose
  line and character are 32-bit numbers, \<^verbatim>\<open>byte_offset\<close> returns an offset if and only if that offset is a
  character boundary of the text and \<^verbatim>\<open>utf16_position\<close> returns the position for it. So every boundary of
  a text below the limits survives the round trip, a position inside a surrogate pair or past the end
  of a line is refused, and no two positions denote the same offset.
\<close>

theorem positions_bijective:
  assumes "str_ok src" "pos_line pos \<le> u32_max" "pos_character pos \<le> u32_max"
  shows "byte_offset src pos = Some off \<longleftrightarrow> utf16_position src off = Some pos"
  unfolding byte_offset_iff [OF assms(1,3)] utf16_position_iff using assms(2,3) by auto

text \<open>Witness: the second line of a text whose first line holds a character of two UTF-16 units.\<close>

definition emoji_text :: string where
  "emoji_text = [CHR ''a'', CHR 0xF0, CHR 0x9F, CHR 0x98, CHR 0x80, CHR 0x0D, CHR 0x0A, CHR ''b'']"

theorem positions_bijective_witness:
  "byte_offset emoji_text \<lparr>pos_line = 0, pos_character = 3\<rparr> = Some 5 \<and>
   utf16_position emoji_text 5 = Some \<lparr>pos_line = 0, pos_character = 3\<rparr> \<and>
   byte_offset emoji_text \<lparr>pos_line = 0, pos_character = 2\<rparr> = None"
proof -
  have ok: "str_ok emoji_text"
    by (simp add: str_ok_def emoji_text_def All_less_Suc is_continuation_byte_def)
  have *: "byte_offset emoji_text \<lparr>pos_line = 0, pos_character = 3\<rparr> = Some 5"
    "byte_offset emoji_text \<lparr>pos_line = 0, pos_character = 2\<rparr> = None"
    by (simp_all add: byte_offset_def line_bounds_def emoji_text_def newline_def list_slice_def is_continuation_byte_def
        checked_add_u32_def len_utf16_def u32_max_def)
  with positions_bijective [OF ok, of "\<lparr>pos_line = 0, pos_character = 3\<rparr>" 5] show ?thesis
    by (simp add: u32_max_def)
qed

end
