(* ===== verification/LspStore.thy ===== *)
theory LspStore
  imports LspPositions
begin

text \<open>
  The document store over time: a step relation for the operations a client can trigger, and what
  every history of steps keeps: entries under their own uri, valid texts, and a revision that grows
  with every change, so that an unchanged revision means an unchanged store.
\<close>

section \<open>Changes keep texts valid\<close>

lemma byte_offset_boundary:
  "str_ok src \<Longrightarrow> pos_character pos \<le> u32_max \<Longrightarrow> byte_offset src pos = Some off \<Longrightarrow>
     off \<le> length src \<and> is_char_boundary src off"
  by (simp add: byte_offset_iff)

lemma str_ok_append: "str_ok xs \<Longrightarrow> str_ok ys \<Longrightarrow> str_ok (xs @ ys)"
proof -
  assume x: "str_ok xs" and y: "str_ok ys"
  show "str_ok (xs @ ys)"
    unfolding str_ok_def
  proof (intro allI impI)
    fix i assume i: "i < length (xs @ ys)" "is_continuation_byte ((xs @ ys) ! i)"
    show "0 < i \<and> (128::nat) \<le> of_char ((xs @ ys) ! (i - 1))"
    proof (cases "i < length xs")
      case True
      with x i have "0 < i \<and> (128::nat) \<le> of_char (xs ! (i - 1))" by (auto simp: str_ok_def nth_append)
      with True show ?thesis by (simp add: nth_append less_imp_diff_less)
    next
      case False
      with y [unfolded str_ok_def, rule_format, of "i - length xs"] i
      have "length xs < i \<and> (128::nat) \<le> of_char (ys ! (i - length xs - 1))" by (auto simp: nth_append)
      with False show ?thesis by (auto simp: nth_append)
    qed
  qed
qed

lemma str_ok_take: "str_ok xs \<Longrightarrow> str_ok (take n xs)"
  by (auto simp: str_ok_def)

lemma str_ok_drop: "str_ok xs \<Longrightarrow> is_char_boundary xs n \<Longrightarrow> str_ok (drop n xs)"
proof -
  assume ok: "str_ok xs" and b: "is_char_boundary xs n"
  have "0 < i \<and> (128::nat) \<le> of_char (xs ! (n + (i - 1)))" if i: "i < length xs - n" "is_continuation_byte (xs ! (n + i))" for i
  proof -
    have "0 < i" using ok b i by (cases "i = 0") (auto simp: is_char_boundary_def str_ok_def split: if_splits)
    with ok i show ?thesis by (auto simp: str_ok_def)
  qed
  then show ?thesis by (auto simp: str_ok_def)
qed

definition change_ok :: "ContentChange \<Rightarrow> bool" where
  "change_ok c \<longleftrightarrow> str_ok (change_text c) \<and>
     (case change_range c of None \<Rightarrow> True
      | Some r \<Rightarrow> pos_character (prange_start r) \<le> u32_max \<and> pos_character (prange_end r) \<le> u32_max)"

lemma apply_change_ok:
  assumes "str_ok src" "change_ok c" "apply_change c src = Some src'"
  shows "str_ok src'"
proof (cases "change_range c")
  case None
  with assms show ?thesis by (auto simp: apply_change_def change_ok_def split: if_splits)
next
  case (Some r)
  with assms obtain start end' where off: "byte_offset src (prange_start r) = Some start"
    "byte_offset src (prange_end r) = Some end'" and src': "src' = take start src @ change_text c @ drop end' src"
    by (auto simp: apply_change_def split: option.splits if_splits)
  from byte_offset_boundary [OF assms(1) _ off(2)] assms(2) Some have "is_char_boundary src end'"
    by (simp add: change_ok_def)
  with assms(1,2) show ?thesis unfolding src'
    by (intro str_ok_append str_ok_take str_ok_drop) (simp_all add: change_ok_def)
qed

lemma apply_all_ok:
  "str_ok src \<Longrightarrow> \<forall>c\<in>set cs. change_ok c \<Longrightarrow> apply_all cs src = Some src' \<Longrightarrow> str_ok src'"
proof (induction cs arbitrary: src)
  case (Cons c cs)
  then obtain src1 where "apply_change c src = Some src1" "apply_all cs src1 = Some src'"
    by (auto split: option.splits)
  with Cons apply_change_ok show ?case by auto
qed simp


section \<open>Histories\<close>

definition store_ok :: "DocumentStore \<Rightarrow> bool" where
  "store_ok s \<longleftrightarrow>
     bt_ok (documents s) \<and> revision s < 2 ^ 64 \<and>
     (\<forall>uri d. bt_get (documents s) uri = Some d \<longrightarrow> doc_uri d = uri \<and> str_ok (doc_text d))"

inductive store_step :: "DocumentStore \<Rightarrow> DocumentStore \<Rightarrow> bool" where
  replace: "str_ok (doc_text d) \<Longrightarrow> store_replace d s = (ok, s') \<Longrightarrow> store_step s s'"
| remove: "store_remove uri s = (removed, s') \<Longrightarrow> store_step s s'"
| change: "\<forall>c\<in>set changes. change_ok c \<Longrightarrow> apply_changes uri version changes s = (ok, s') \<Longrightarrow> store_step s s'"

text \<open>The effect of each operation: refused and nothing changed, or one document and the revision.\<close>

lemma advance_revision_Some:
  "advance_revision s = Some s' \<longleftrightarrow> revision s + 1 < 2 ^ 64 \<and> s' = s\<lparr>revision := revision s + 1\<rparr>"
  by (auto simp: advance_revision_def)

lemma store_replace_cases:
  assumes "store_replace d s = (ok, s')"
  obtains "\<not> ok" "s' = s"
  | "ok" "revision s + 1 < 2 ^ 64"
    "s' = \<lparr>documents = bt_insert (doc_uri d) d (documents s), revision = revision s + 1\<rparr>"
    "\<forall>d'. store_get s (doc_uri d) = Some d' \<longrightarrow> accepts_version (doc_version d') (doc_version d)"
  using assms
  by (cases s) (auto simp: store_replace_def advance_revision_def store_get_def split: if_splits option.splits)

lemma store_remove_cases:
  assumes "store_remove uri s = (removed, s')"
  obtains "removed = None" "s' = s"
  | d where "removed = Some d" "store_get s uri = Some d" "revision s + 1 < 2 ^ 64"
    "s' = \<lparr>documents = bt_remove uri (documents s), revision = revision s + 1\<rparr>"
proof (cases "store_get s uri")
  case None
  with assms have "removed = None" "s' = s"
    by (auto simp: store_remove_def store_get_def bt_contains_def)
  with that(1) show ?thesis .
next
  case (Some d)
  show ?thesis
  proof (cases "revision s + 1 < 2 ^ 64")
    case True
    with assms Some have "removed = Some d" "s' = \<lparr>documents = bt_remove uri (documents s), revision = revision s + 1\<rparr>"
      by (cases s; auto simp: store_remove_def advance_revision_def store_get_def bt_contains_def)+
    with that(2) Some True show ?thesis by blast
  next
    case False
    with assms Some have "removed = None" "s' = s"
      by (auto simp: store_remove_def advance_revision_def store_get_def bt_contains_def)
    with that(1) show ?thesis .
  qed
qed

lemma apply_changes_cases:
  assumes "apply_changes uri version changes s = (ok, s')"
  obtains "\<not> ok" "s' = s"
  | d src where "ok" "changes \<noteq> []" "store_get s uri = Some d" "accepts_version (doc_version d) (Some version)"
    "apply_all changes (doc_text d) = Some src" "revision s + 1 < 2 ^ 64"
    "s' = \<lparr>documents = bt_insert uri (d\<lparr>doc_text := src, doc_version := Some version\<rparr>) (documents s),
           revision = revision s + 1\<rparr>"
  using assms
  by (cases s) (auto simp: apply_changes_def advance_revision_def store_get_def split: if_splits option.splits)

lemma store_step_effect:
  assumes "store_step s s'" "store_ok s"
  shows "store_ok s' \<and> (s' = s \<or> revision s' = revision s + 1)"
  using assms
proof (induction rule: store_step.induct)
  case (replace d s ok s')
  from replace(2) show ?case
    by (rule store_replace_cases) (use replace in \<open>auto simp: store_ok_def bt_insert_ok bt_get_insert split: if_splits\<close>)
next
  case (remove uri s removed s')
  from remove(1) show ?case
    by (rule store_remove_cases) (use remove in \<open>auto simp: store_ok_def bt_remove_ok bt_get_remove split: if_splits\<close>)
next
  case (change changes uri version s ok s')
  from change(2) show ?case
  proof (rule apply_changes_cases)
    assume "\<not> ok" "s' = s"
    with change show ?thesis by simp
  next
    fix d src
    assume d: "store_get s uri = Some d" "apply_all changes (doc_text d) = Some src" "revision s + 1 < 2 ^ 64"
      and s': "s' = \<lparr>documents = bt_insert uri (d\<lparr>doc_text := src, doc_version := Some version\<rparr>) (documents s),
           revision = revision s + 1\<rparr>"
    from d(1) change(3) have "doc_uri d = uri" "str_ok (doc_text d)" by (auto simp: store_ok_def store_get_def)
    with apply_all_ok [OF _ change(1) d(2)] change(3) d(3) s' show ?thesis
      by (auto simp: store_ok_def bt_insert_ok bt_get_insert split: if_splits)
  qed
qed



text \<open>an incremental change is all or nothing. If it is refused, the store is what it was. If it is
  accepted, the document was open, the new version is greater than the one it had, every change of the
  batch applied to the result of those before it, and exactly that document's text and version, and the
  revision by one, have changed.
\<close>

theorem apply_changes_atomic:
  assumes "store_ok s" "apply_changes uri version changes s = (ok, s')"
  shows "if ok then
       \<exists>d src. store_get s uri = Some d \<and> (\<forall>v. doc_version d = Some v \<longrightarrow> v < version) \<and>
         changes \<noteq> [] \<and> apply_all changes (doc_text d) = Some src \<and>
         store_get s' uri = Some (d\<lparr>doc_text := src, doc_version := Some version\<rparr>) \<and>
         (\<forall>uri'. uri' \<noteq> uri \<longrightarrow> store_get s' uri' = store_get s uri') \<and> revision s' = revision s + 1
     else s' = s"
  using assms(2)
proof (rule apply_changes_cases)
  fix d src
  assume *: "ok" "changes \<noteq> []" "store_get s uri = Some d" "accepts_version (doc_version d) (Some version)"
    "apply_all changes (doc_text d) = Some src"
    "s' = \<lparr>documents = bt_insert uri (d\<lparr>doc_text := src, doc_version := Some version\<rparr>) (documents s),
           revision = revision s + 1\<rparr>"
  have "bt_ok (documents s)" using assms(1) by (simp add: store_ok_def)
  with * show ?thesis by (auto simp: store_get_def bt_get_insert accepts_version_def)
qed simp

definition open_doc :: DocumentSnapshot where
  "open_doc = \<lparr>doc_uri = ''u'', doc_text = ''abc'', doc_version = Some 1\<rparr>"

definition edit_changes :: "ContentChange list" where
  "edit_changes =
     [\<lparr>change_range = Some \<lparr>prange_start = \<lparr>pos_line = 0, pos_character = 0\<rparr>, prange_end = \<lparr>pos_line = 0, pos_character = 1\<rparr>\<rparr>,
       change_range_length = Some 1, change_text = ''x''\<rparr>]"

definition one_doc :: DocumentStore where
  "one_doc = \<lparr>documents = [(''u'', open_doc)], revision = 1\<rparr>"

lemma open_doc_step: "store_step store_default one_doc"
proof (rule store_step.replace)
  show "str_ok (doc_text open_doc)" by (simp add: str_ok_def open_doc_def All_less_Suc is_continuation_byte_def)
  show "store_replace open_doc store_default = (True, one_doc)"
    by (simp add: store_replace_def store_default_def one_doc_def advance_revision_def open_doc_def bt_get_def)
qed

lemma edit_result:
  "apply_changes ''u'' 2 edit_changes one_doc =
     (True, \<lparr>documents = [(''u'', open_doc\<lparr>doc_text := ''xbc'', doc_version := Some 2\<rparr>)], revision = 2\<rparr>)"
  by (simp add: apply_changes_def edit_changes_def one_doc_def open_doc_def bt_get_def accepts_version_def
      apply_change_def byte_offset_def line_bounds_def newline_def list_slice_def is_continuation_byte_def
      checked_add_u32_def len_utf16_def u32_max_def utf16_length_def advance_revision_def)


text \<open>Witness: its first character is replaced.\<close>

theorem apply_changes_atomic_witness:
  "\<exists>s'. apply_changes ''u'' 2 edit_changes one_doc = (True, s') \<and>
     store_get s' ''u'' = Some (open_doc\<lparr>doc_text := ''xbc'', doc_version := Some 2\<rparr>) \<and> revision s' = 2"
proof -
  have "store_ok store_default" by (simp add: store_ok_def store_default_def bt_ok_def bt_get_def)
  then have "store_ok one_doc" using store_step_effect [OF open_doc_step] by blast
  from apply_changes_atomic [OF this edit_result] edit_result show ?thesis
    by (auto simp: store_get_def bt_get_def one_doc_def)
qed

end
