(* ===== verification/LspHandlers.thy ===== *)
theory LspHandlers
  imports LspServer LspStore "HOL-Library.Multiset"
begin

text \<open>
  What one dispatched message does to the coordinator: it advances documents and configuration along
  their histories, and it either answers nothing, answers at once, or schedules one worker.
\<close>

section \<open>Frames and identifiers\<close>

definition frame_id :: "Value \<Rightarrow> Value option" where
  "frame_id f = value_get f ''id''"

lemma value_get_object: "distinct (map fst kvs) \<Longrightarrow> value_get (object kvs) k = map_of kvs k"
proof -
  assume d: "distinct (map fst kvs)"
  have "map_of kvs k = (case find (\<lambda>x. fst x = k) kvs of Some x \<Rightarrow> Some (snd x) | None \<Rightarrow> None)"
    by (induction kvs) auto
  moreover have "bt_ok ([] :: (string \<times> Value) list)" "bt_get ([] :: (string \<times> Value) list) k = None"
    by (simp_all add: bt_ok_def bt_get_def)
  ultimately show ?thesis using bt.get_fold_insert [of "[]" fst kvs snd k] d
    by (simp add: object_def case_prod_beta' split: option.split)
qed

lemma frame_id_simps [simp]:
  "frame_id (result_frame rid v) = Some rid" "frame_id (error_frame rid code msg) = Some rid"
  by (simp_all add: frame_id_def result_frame_def error_frame_def value_get_object)

lemma frame_id_publish:
  "frame_id (object [(''jsonrpc'', a), (''method'', b), (''params'', c)]) = None"
  by (simp add: frame_id_def value_get_object)

lemma result_not_error [simp]: "result_frame rid v \<noteq> error_frame rid' code msg"
proof
  assume "result_frame rid v = error_frame rid' code msg"
  then have "value_get (result_frame rid v) ''result'' = value_get (error_frame rid' code msg) ''result''" by simp
  then show False by (simp add: result_frame_def error_frame_def value_get_object)
qed

text \<open>Frames without an identifier are notifications: they answer no request.\<close>

definition quiet :: "Value list \<Rightarrow> Value list \<Rightarrow> bool" where
  "quiet out out' \<longleftrightarrow> (\<exists>fs. out' = out @ fs \<and> (\<forall>f\<in>set fs. frame_id f = None))"

lemma quiet_refl [simp]: "quiet out out"
  by (simp add: quiet_def)

lemma quiet_trans: "quiet a b \<Longrightarrow> quiet b c \<Longrightarrow> quiet a c"
  by (auto simp: quiet_def)

lemma quiet_publish: "quiet out (publish_diagnostics uri version ds out)"
  by (simp add: quiet_def publish_diagnostics_def frame_id_publish)

lemma quiet_publish_current: "quiet out (publish_current_diagnostics an srv out)"
proof -
  have "quiet out (fold (\<lambda>d out. publish_diagnostics (f d) (g d) (h d) out) ds out)"
    for f g h and ds :: "DocumentSnapshot list"
    by (induction ds arbitrary: out) (auto intro: quiet_trans quiet_publish)
  then show ?thesis by (simp add: publish_current_diagnostics_def Let_def)
qed


section \<open>Histories of documents and configuration\<close>

text \<open>Every document is filed under its own uri; this does not depend on the texts being valid.\<close>

definition filed :: "DocumentStore \<Rightarrow> bool" where
  "filed s \<longleftrightarrow> bt_ok (documents s) \<and> (\<forall>uri d. bt_get (documents s) uri = Some d \<longrightarrow> doc_uri d = uri)"

definition store_older :: "DocumentStore \<Rightarrow> DocumentStore \<Rightarrow> bool" where
  "store_older s s' \<longleftrightarrow> s' = s \<or> revision s < revision s'"

definition config_older :: "WorkspaceConfiguration \<Rightarrow> WorkspaceConfiguration \<Rightarrow> bool" where
  "config_older c c' \<longleftrightarrow> c' = c \<or> config_revision c < config_revision c'"

definition older :: "Server \<Rightarrow> Server \<Rightarrow> bool" where
  "older s s' \<longleftrightarrow> store_older (store s) (store s') \<and> config_older (configuration s) (configuration s')"

lemma older_refl [simp]: "older s s"
  by (simp add: older_def store_older_def config_older_def)

lemma older_trans: "older a b \<Longrightarrow> older b c \<Longrightarrow> older a c"
  by (auto simp: older_def store_older_def config_older_def)

lemma older_cancellation [simp]:
  "older s (s'\<lparr>cancellation := r\<rparr>) = older s s'" "older s (s'\<lparr>lifecycle := l\<rparr>) = older s s'"
  by (simp_all add: older_def)

lemma filed_default: "filed store_default"
  by (simp add: filed_def store_default_def bt_ok_def bt_get_def)

lemma store_replace_effect:
  "store_replace d s = (ok, s') \<Longrightarrow> filed s \<Longrightarrow> filed s' \<and> store_older s s'"
  by (erule store_replace_cases) (auto simp: filed_def store_older_def bt_insert_ok bt_get_insert)

lemma store_remove_effect:
  "store_remove uri s = (removed, s') \<Longrightarrow> filed s \<Longrightarrow> filed s' \<and> store_older s s'"
  by (erule store_remove_cases) (auto simp: filed_def store_older_def bt_remove_ok bt_get_remove split: if_splits)

lemma apply_changes_effect:
  "apply_changes uri version changes s = (ok, s') \<Longrightarrow> filed s \<Longrightarrow> filed s' \<and> store_older s s'"
  by (erule apply_changes_cases) (auto simp: filed_def store_older_def store_get_def bt_insert_ok bt_get_insert)

lemma config_replace_effect: "config_older c (config_replace v c)"
  by (auto simp: config_older_def config_replace_def config_update_def)

text \<open>The notification handlers.\<close>

definition only_documents :: "Server \<Rightarrow> Server \<Rightarrow> bool" where
  "only_documents s s' \<longleftrightarrow> older s s' \<and> filed (store s') \<and> cancellation s' = cancellation s \<and> lifecycle s' = lifecycle s"

lemma open_document_effect:
  "open_document an s params out = (s', out') \<Longrightarrow> filed (store s) \<Longrightarrow> only_documents s s' \<and> quiet out out'"
  by (auto simp: open_document_def only_documents_def older_def config_older_def store_older_def Let_def quiet_publish_current
        dest: store_replace_effect split: option.splits prod.splits)

lemma change_document_effect:
  "change_document an s params out = (s', out') \<Longrightarrow> filed (store s) \<Longrightarrow> only_documents s s' \<and> quiet out out'"
  by (auto simp: change_document_def only_documents_def older_def config_older_def store_older_def Let_def quiet_publish_current
        dest: apply_changes_effect split: option.splits prod.splits)

lemma close_document_effect:
  "close_document an s params out = (s', out') \<Longrightarrow> filed (store s) \<Longrightarrow> only_documents s s' \<and> quiet out out'"
  by (auto simp: close_document_def only_documents_def older_def config_older_def store_older_def Let_def
        dest: store_remove_effect intro: quiet_trans quiet_publish quiet_publish_current split: option.splits prod.splits)

lemma update_configuration_effect:
  "update_configuration an s params out = (s', out') \<Longrightarrow> filed (store s) \<Longrightarrow> only_documents s s' \<and> quiet out out'"
  by (cases "Option.bind params (\<lambda>v. value_get v ''settings'')")
    (auto simp: update_configuration_def only_documents_def older_def store_older_def Let_def quiet_publish_current
       config_replace_effect intro: older_refl [unfolded older_def store_older_def])

lemma save_document_quiet: "quiet out (save_document an s params out)"
  by (auto simp: save_document_def quiet_publish_current split: option.splits)


section \<open>One message\<close>

definition answers :: "Value \<Rightarrow> Value option" where
  "answers m = (case as_object m of None \<Rightarrow> Some Null | Some fs \<Rightarrow> bt_get fs ''id'')"

definition message_method :: "Value \<Rightarrow> string option" where
  "message_method m = Option.bind (value_get m ''method'') value_as_str"

definition notification_methods :: "string list" where
  "notification_methods =
     [''exit'', ''$/cancelRequest'', ''textDocument/didOpen'', ''textDocument/didChange'',
      ''textDocument/didSave'', ''textDocument/didClose'', ''workspace/didChangeConfiguration'']"

text \<open>A message whose method is a notification carries no identifier, as JSON-RPC requires.\<close>

definition well_formed :: "Value \<Rightarrow> bool" where
  "well_formed m \<longleftrightarrow> (\<forall>method\<in>set notification_methods. message_method m = Some method \<longrightarrow> answers m = None)"

text \<open>The work a request stands for in a given server state.\<close>

definition request_work :: "Server \<Rightarrow> Value \<Rightarrow> (Value \<times> RequestWork) option" where
  "request_work srv m =
     Option.bind (answers m) (\<lambda>rid. Option.bind (message_method m) (\<lambda>method.
       map_option (Pair rid)
         (if method = ''textDocument/hover'' then hover_work srv (value_get m ''params'')
          else if method = ''textDocument/definition'' then definition_work srv (value_get m ''params'')
          else if method = ''textDocument/codeAction'' then code_actions_work srv (value_get m ''params'')
          else None)))"

definition effect_quiet :: "Session \<Rightarrow> Session \<Rightarrow> bool" where
  "effect_quiet x x' \<longleftrightarrow>
     scheduler x' = scheduler x \<and> quiet (writer x) (writer x') \<and>
     active (cancellation (server x')) = active (cancellation (server x)) \<and>
     length (flags (cancellation (server x'))) = length (flags (cancellation (server x))) \<and>
     (\<forall>t. token_is_cancelled (cancellation (server x)) t \<longrightarrow> token_is_cancelled (cancellation (server x')) t)"

definition effect_reply :: "Value option \<Rightarrow> Session \<Rightarrow> Session \<Rightarrow> bool" where
  "effect_reply rid x x' \<longleftrightarrow>
     scheduler x' = scheduler x \<and> cancellation (server x') = cancellation (server x) \<and>
     (\<exists>f. writer x' = writer x @ [f] \<and> frame_id f \<noteq> None \<and> frame_id f = rid)"

definition effect_schedule :: "(Value \<times> RequestWork) option \<Rightarrow> Session \<Rightarrow> Session \<Rightarrow> bool" where
  "effect_schedule rw x x' \<longleftrightarrow>
     writer x' = writer x \<and>
     (\<exists>rid work. rw = Some (rid, work) \<and>
        schedule (server x) rid work (scheduler x) = (Scheduled, server x', scheduler x'))"

definition same_documents :: "Session \<Rightarrow> Session \<Rightarrow> bool" where
  "same_documents x x' \<longleftrightarrow> store (server x') = store (server x) \<and> configuration (server x') = configuration (server x)"

lemma effect_quiet_refl [simp]: "effect_quiet x x"
  by (simp add: effect_quiet_def)

lemma same_documents_refl [simp]: "same_documents x x"
  by (simp add: same_documents_def)

lemma reply_error_effect:
  "same_documents x (reply_error rid code msg x) \<and>
   (if rid = None then reply_error rid code msg x = x else effect_reply rid x (reply_error rid code msg x))"
  by (auto simp: reply_error_def effect_reply_def same_documents_def send_error_def split: option.split)

lemma initialize_effect:
  "same_documents x (initialize rid x) \<and>
   (if rid = None then initialize rid x = x else effect_reply rid x (initialize rid x))"
  by (auto simp: initialize_def effect_reply_def same_documents_def send_error_def send_result_def split: option.split)

lemma shutdown_effect:
  "same_documents x (shutdown rid x) \<and>
   (if rid = None then shutdown rid x = x else effect_reply rid x (shutdown rid x))"
  by (auto simp: shutdown_def effect_reply_def same_documents_def send_error_def send_result_def split: option.split)

lemma schedule_cases:
  obtains (duplicate) "schedule srv rid work sch = (DuplicateIdentifier rid, srv, sch)"
  | (scheduled) srv' sch' where "schedule srv rid work sch = (Scheduled, srv', sch')"
    "store srv' = store srv" "configuration srv' = configuration srv"
proof (cases "request_id_from_json rid")
  case None
  then show ?thesis by (intro scheduled) (auto simp: schedule_def)
next
  case (Some r)
  show ?thesis
  proof (cases "bt_contains (active (cancellation srv)) r")
    case True
    with Some show ?thesis by (intro duplicate) (simp add: schedule_def registry_begin_def)
  next
    case False
    with Some show ?thesis
      by (intro scheduled [of "srv\<lparr>cancellation := snd (registry_begin r (cancellation srv))\<rparr>"])
        (simp_all add: schedule_def registry_begin_def Let_def)
  qed
qed

lemma dispatch_work_effect:
  "same_documents x (dispatch_work rid work x) \<and>
   (if rid = None then dispatch_work rid work x = x
    else effect_reply rid x (dispatch_work rid work x) \<or>
         effect_schedule (Option.bind rid (\<lambda>rid. map_option (Pair rid) work)) x (dispatch_work rid work x))"
proof (cases "rid = None \<or> work = None")
  case True
  then show ?thesis
    by (auto simp: dispatch_work_def effect_reply_def same_documents_def send_error_def split: option.split)
next
  case False
  then obtain r w where rw: "rid = Some r" "work = Some w" by auto
  show ?thesis
    by (rule schedule_cases [of "server x" r w "scheduler x"])
      (auto simp: rw dispatch_work_def dispatch_schedule_def effect_reply_def effect_schedule_def
         same_documents_def send_error_def)
qed

lemma notify_effect:
  assumes "\<And>s' out'. f (server x) (writer x) = (s', out') \<Longrightarrow> only_documents (server x) s' \<and> quiet (writer x) out'"
  shows "older (server x) (server (notify f x)) \<and> filed (store (server (notify f x))) \<and> effect_quiet x (notify f x)"
  using assms by (cases "f (server x) (writer x)") (auto simp: notify_def only_documents_def effect_quiet_def)

lemma token_cancel_mono: "token_is_cancelled r t \<Longrightarrow> token_is_cancelled (token_cancel t' r) t"
  by (cases "t' < length (flags r)")
    (auto simp: token_cancel_def token_is_cancelled_def get_at_def nth_list_update split: if_splits)

lemma cancel_effect:
  "same_documents x (x\<lparr>server := state_cancel (server x) params\<rparr>) \<and>
   effect_quiet x (x\<lparr>server := state_cancel (server x) params\<rparr>)"
  by (auto simp: state_cancel_def same_documents_def effect_quiet_def registry_cancel_def token_cancel_mono
        split: option.split) (simp_all add: token_cancel_def)

lemma same_documents_older:
  "same_documents x x' \<Longrightarrow> filed (store (server x)) \<Longrightarrow> older (server x) (server x') \<and> filed (store (server x'))"
  by (simp add: same_documents_def older_def store_older_def config_older_def)

definition message_effect :: "Value \<Rightarrow> Session \<Rightarrow> Session \<Rightarrow> bool" where
  "message_effect m x x' \<longleftrightarrow>
     older (server x) (server x') \<and> filed (store (server x')) \<and>
     (effect_quiet x x' \<and> (well_formed m \<longrightarrow> answers m = None) \<or>
      effect_reply (answers m) x x' \<or>
      effect_schedule (request_work (server x) m) x x')"


lemma message_effect_docs:
  "same_documents x x' \<Longrightarrow> filed (store (server x)) \<Longrightarrow>
   effect_quiet x x' \<and> (well_formed m \<longrightarrow> answers m = None) \<or> effect_reply (answers m) x x' \<or>
     effect_schedule (request_work (server x) m) x x' \<Longrightarrow> message_effect m x x'"
  using same_documents_older by (auto simp: message_effect_def)

lemma message_effect_answered:
  assumes "filed (store (server x))" "same_documents x x' \<and> (if answers m = None then x' = x else effect_reply (answers m) x x')"
  shows "message_effect m x x'"
  using assms by (intro message_effect_docs) (auto split: if_splits)

lemma message_effect_notified:
  assumes "method \<in> set notification_methods" "message_method m = Some method"
    "older (server x) (server x') \<and> filed (store (server x')) \<and> effect_quiet x x'"
  shows "message_effect m x x'"
  using assms by (auto simp: message_effect_def well_formed_def)

lemma message_effect_cancel:
  assumes "message_method m = Some ''$/cancelRequest''" "filed (store (server x))"
  shows "message_effect m x (x\<lparr>server := state_cancel (server x) params\<rparr>)"
  using assms cancel_effect
  by (intro message_effect_docs) (auto simp: well_formed_def notification_methods_def)

lemma message_effect_request:
  assumes "filed (store (server x))" "map_option (Pair rid) work = request_work (server x) m" "answers m = Some rid"
  shows "message_effect m x (dispatch_work (Some rid) work x)"
  using assms dispatch_work_effect [of x "Some rid" work]
  by (intro message_effect_docs) auto

lemma message_effect_unanswered:
  assumes "filed (store (server x))" "answers m = None"
  shows "message_effect m x (dispatch_work None work x)"
  using assms by (intro message_effect_docs) (simp_all add: dispatch_work_def)

lemma message_effect_dispatch_work:
  assumes "filed (store (server x))" "answers m = rid"
    "rid \<noteq> None \<Longrightarrow> map_option (Pair (the rid)) work = request_work (server x) m"
  shows "message_effect m x (dispatch_work rid work x)"
  using assms message_effect_request message_effect_unanswered by (cases rid) auto

lemma dispatch_method_effect:
  assumes f: "filed (store (server x))" and m: "m = Object fs" "rid = bt_get fs ''id''"
    "mth = Option.bind (bt_get fs ''method'') value_as_str" "params = bt_get fs ''params''"
    and d: "dispatch_method an mth rid params x = (e, x')"
  shows "message_effect m x x'"
proof -
  have meth: "message_method m = mth" and ans: "answers m = rid" and pars: "value_get m ''params'' = params"
    by (simp_all add: message_method_def answers_def m)
  have notif: "message_effect m x (notify g x)"
    if "mth = Some k" "k \<in> set notification_methods"
      "\<And>s' out'. g (server x) (writer x) = (s', out') \<Longrightarrow> only_documents (server x) s' \<and> quiet (writer x) out'" for g k
    using that notify_effect [OF that(3)] meth by (intro message_effect_notified) auto
  note effs = open_document_effect [OF _ f] change_document_effect [OF _ f] close_document_effect [OF _ f]
    update_configuration_effect [OF _ f]
  have replies: "message_effect m x (initialize rid x)" "message_effect m x (shutdown rid x)"
    "message_effect m x (reply_error rid code msg x)" for code msg
    using f ans initialize_effect [of x rid] shutdown_effect [of x rid] reply_error_effect [of x rid]
    by (auto intro: message_effect_answered)
  have exits: "message_effect m x x" if "mth = Some ''exit''"
    using that meth f by (intro message_effect_notified [of "''exit''"]) (auto simp: notification_methods_def)
  have cancels: "message_effect m x (x\<lparr>server := state_cancel (server x) params\<rparr>)" if "mth = Some ''$/cancelRequest''"
    using that meth f by (intro message_effect_cancel) auto
  have saves: "message_effect m x (x\<lparr>writer := save_document an (server x) params (writer x)\<rparr>)"
    if "mth = Some ''textDocument/didSave''"
    using that meth f
    by (intro message_effect_notified [of "''textDocument/didSave''"])
      (auto simp: notification_methods_def effect_quiet_def save_document_quiet)
  have works: "mth = Some ''textDocument/hover'' \<Longrightarrow> message_effect m x (dispatch_work rid (hover_work (server x) params) x)"
    "mth = Some ''textDocument/definition'' \<Longrightarrow> message_effect m x (dispatch_work rid (definition_work (server x) params) x)"
    "mth = Some ''textDocument/codeAction'' \<Longrightarrow> message_effect m x (dispatch_work rid (code_actions_work (server x) params) x)"
    by (rule message_effect_dispatch_work [OF f ans]; auto simp: request_work_def ans meth pars)+
  have notifies:
    "mth = Some ''textDocument/didOpen'' \<Longrightarrow> message_effect m x (notify (\<lambda>s. open_document an s params) x)"
    "mth = Some ''textDocument/didChange'' \<Longrightarrow> message_effect m x (notify (\<lambda>s. change_document an s params) x)"
    "mth = Some ''textDocument/didClose'' \<Longrightarrow> message_effect m x (notify (\<lambda>s. close_document an s params) x)"
    "mth = Some ''workspace/didChangeConfiguration'' \<Longrightarrow> message_effect m x (notify (\<lambda>s. update_configuration an s params) x)"
    by (rule notif, assumption, simp add: notification_methods_def, erule effs)+
  show ?thesis
  proof (cases mth)
    case None
    with d replies show ?thesis by (auto simp: dispatch_method_def)
  next
    case (Some k)
    with d replies exits cancels saves works notifies show ?thesis
      by (auto simp: dispatch_method_def split: if_splits)
  qed
qed

lemma handle_effect:
  assumes f: "filed (store (server x))" and h: "handle an m x = (e, x')"
  shows "message_effect m x x'"
proof (cases "as_object m")
  case None
  with h have "x' = reply_error (answers m) INVALID_REQUEST_CODE ''invalid request'' x"
    by (simp add: handle_def answers_def reply_error_def)
  with reply_error_effect [of x "answers m"] f show ?thesis by (intro message_effect_answered) auto
next
  case (Some fs)
  then have m: "m = Object fs" by (cases m) auto
  define rid mth where "rid = bt_get fs ''id''" and "mth = Option.bind (bt_get fs ''method'') value_as_str"
  obtain b y where l: "lifecycle_permits mth rid x = (b, y)" by fastforce
  show ?thesis
  proof (cases b)
    case True
    with l have "y = x" by (auto simp: lifecycle_permits_def split: if_splits Lifecycle.splits)
    with True h l m show ?thesis
      by (intro dispatch_method_effect [OF f m]) (auto simp: handle_def rid_def mth_def Let_def)
  next
    case False
    with h l m have "x' = y" by (auto simp: handle_def rid_def mth_def Let_def)
    moreover from False l obtain code msg where "y = reply_error rid code msg x"
      by (auto simp: lifecycle_permits_def split: if_splits Lifecycle.splits)
    moreover have "answers m = rid" by (simp add: answers_def m rid_def)
    ultimately show ?thesis using reply_error_effect [of x rid] f by (intro message_effect_answered) auto
  qed
qed

end
