(* ===== verification/LspCoordinator.thy ===== *)
theory LspCoordinator
  imports LspHandlers
begin

text \<open>
  Properties of the language server's coordinator over all interleavings of the reader, the workers
  and the event loop: every request is answered once, answers are computed on the current documents,
  a cancelled request never gets a result, and every session over a finite input ends.
\<close>

section \<open>Requests in flight\<close>

type_synonym job = "Value \<times> RequestId option \<times> nat option"

definition worker_job :: "Worker \<Rightarrow> job" where
  "worker_job w = (worker_response_id w, worker_request_id w, worker_token w)"

definition completed_job :: "CompletedRequest \<Rightarrow> job" where
  "completed_job c = (response_id c, request_id c, token c)"

fun event_jobs :: "ServerEvent list \<Rightarrow> job list" where
  "event_jobs [] = []"
| "event_jobs (Completed c # evs) = completed_job c # event_jobs evs"
| "event_jobs (Input m # evs) = event_jobs evs"
| "event_jobs (EndOfInput # evs) = event_jobs evs"
| "event_jobs (InputError e # evs) = event_jobs evs"

definition jobs :: "System \<Rightarrow> job list" where
  "jobs s = map worker_job (workers (scheduler s)) @ event_jobs (channel s)"

lemma event_jobs_append [simp]: "event_jobs (xs @ ys) = event_jobs xs @ event_jobs ys"
  by (induction xs rule: event_jobs.induct) simp_all

lemma completed_job_of [simp]: "completed_job (completed_of w out) = worker_job w"
  by (simp add: completed_job_def completed_of_def worker_job_def)

definition request_ids :: "job list \<Rightarrow> RequestId option list" where
  "request_ids js = filter (\<lambda>r. r \<noteq> None) (map (fst \<circ> snd) js)"

text \<open>The registry holds exactly the cancellable requests in flight, each once, with its token.\<close>

definition registry_ok :: "CancellationRegistry \<Rightarrow> job list \<Rightarrow> bool" where
  "registry_ok reg js \<longleftrightarrow>
     bt_ok (active reg) \<and> distinct (request_ids js) \<and>
     (\<forall>(rid, req, tok)\<in>set js. req = request_id_from_json rid \<and> (req = None \<longleftrightarrow> tok = None) \<and>
        (\<forall>t. tok = Some t \<longrightarrow> t < length (flags reg))) \<and>
     (\<forall>r t. bt_get (active reg) r = Some t \<longleftrightarrow> (\<exists>rid. (rid, Some r, Some t) \<in> set js))"

lemma registry_ok_perm: "mset js = mset js' \<Longrightarrow> registry_ok reg js \<Longrightarrow> registry_ok reg js'"
proof -
  assume m: "mset js = mset js'" and r: "registry_ok reg js"
  have "mset (request_ids js) = mset (request_ids js')" by (simp add: request_ids_def m)
  then have "distinct (request_ids js) = distinct (request_ids js')" by (rule mset_eq_imp_distinct_iff)
  moreover have "set js = set js'" using m by (rule mset_eq_setD)
  ultimately show ?thesis using r by (simp add: registry_ok_def)
qed

lemma registry_ok_mono:
  "registry_ok reg js \<Longrightarrow> active reg' = active reg \<Longrightarrow> length (flags reg') = length (flags reg) \<Longrightarrow> registry_ok reg' js"
  by (simp add: registry_ok_def)

lemma registry_ok_anonymous:
  "registry_ok reg ((rid, None, tok) # js) \<longleftrightarrow> request_id_from_json rid = None \<and> tok = None \<and> registry_ok reg js"
  by (auto simp: registry_ok_def request_ids_def)

lemma registry_ok_fresh: "registry_ok reg js \<Longrightarrow> bt_get (active reg) r = None \<Longrightarrow> (rid, Some r, tok) \<notin> set js"
proof
  assume reg: "registry_ok reg js" and none: "bt_get (active reg) r = None" and j: "(rid, Some r, tok) \<in> set js"
  from reg j obtain t where "tok = Some t" by (cases tok) (auto simp: registry_ok_def)
  with reg j have "bt_get (active reg) r = Some t" unfolding registry_ok_def by blast
  with none show False by simp
qed

lemma registry_ok_begin:
  assumes "registry_ok reg js" "registry_begin r reg = (Some t, reg')" "request_id_from_json rid = Some r"
  shows "registry_ok reg' ((rid, Some r, Some t) # js)"
proof -
  from assms(2) have r: "bt_get (active reg) r = None" "t = length (flags reg)"
    "reg' = \<lparr>active = bt_insert r t (active reg), flags = flags reg @ [False]\<rparr>"
    by (auto simp: registry_begin_def bt_contains_def Let_def split: if_splits)
  have "Some r \<notin> set (request_ids js)"
    using registry_ok_fresh [OF assms(1) r(1)] by (fastforce simp: request_ids_def)
  then show ?thesis
    using assms(1,3) registry_ok_fresh [OF assms(1) r(1)]
    by (fastforce simp: registry_ok_def r bt_insert_ok bt_get_insert request_ids_def less_Suc_eq)
qed

lemma registry_ok_finish:
  assumes "registry_ok reg ((rid, Some r, Some t) # js)"
  shows "registry_finish r t reg = (token_is_cancelled reg t, reg\<lparr>active := bt_remove r (active reg)\<rparr>)"
    "registry_ok (reg\<lparr>active := bt_remove r (active reg)\<rparr>) js"
proof -
  have "bt_get (active reg) r = Some t" using assms by (auto simp: registry_ok_def)
  then show "registry_finish r t reg = (token_is_cancelled reg t, reg\<lparr>active := bt_remove r (active reg)\<rparr>)"
    by (simp add: registry_finish_def)
  have "distinct (request_ids ((rid, Some r, Some t) # js))" using assms by (simp only: registry_ok_def)
  then have "Some r \<notin> set (request_ids js)" by (simp add: request_ids_def)
  then have fresh: "(rid', Some r, tok) \<notin> set js" for rid' tok by (force simp: request_ids_def)
  show "registry_ok (reg\<lparr>active := bt_remove r (active reg)\<rparr>) js"
    using assms fresh by (auto simp: registry_ok_def bt_remove_ok bt_get_remove request_ids_def)
qed

text \<open>A job's token is present exactly if its identifier is cancellable.\<close>

lemma registry_ok_job:
  "registry_ok reg js \<Longrightarrow> (rid, req, tok) \<in> set js \<Longrightarrow>
     req = request_id_from_json rid \<and> (req = None \<longleftrightarrow> tok = None)"
  unfolding registry_ok_def by blast


section \<open>What the workers hold\<close>

definition server_grows :: "Server \<Rightarrow> Server \<Rightarrow> bool" where
  "server_grows s s' \<longleftrightarrow> older s s' \<and>
     (\<forall>t. token_is_cancelled (cancellation s) t \<longrightarrow> token_is_cancelled (cancellation s') t)"

lemma server_grows_refl [simp]: "server_grows s s"
  by (simp add: server_grows_def)

lemma server_grows_trans: "server_grows a b \<Longrightarrow> server_grows b c \<Longrightarrow> server_grows a c"
  using older_trans by (auto simp: server_grows_def)

definition work_from :: "Value list \<Rightarrow> Server \<Rightarrow> Value \<Rightarrow> RequestWork \<Rightarrow> bool" where
  "work_from trace srv rid work \<longleftrightarrow>
     (\<exists>m\<in>set trace. \<exists>srv0. request_work srv0 m = Some (rid, work) \<and> older srv0 srv)"

fun outcome_ok :: "analysis \<Rightarrow> Value list \<Rightarrow> Server \<Rightarrow> Value \<Rightarrow> nat option \<Rightarrow> WorkerOutcome \<Rightarrow> bool" where
  "outcome_ok an trace srv rid tok (WorkCompleted c) = (\<exists>work. work_from trace srv rid work \<and> c = execute an work)"
| "outcome_ok an trace srv rid tok Cancelled = (\<exists>t. tok = Some t \<and> token_is_cancelled (cancellation srv) t)"
| "outcome_ok an trace srv rid tok Panicked = True"

fun phase_ok :: "analysis \<Rightarrow> Value list \<Rightarrow> Server \<Rightarrow> Value \<Rightarrow> nat option \<Rightarrow> Phase \<Rightarrow> bool" where
  "phase_ok an trace srv rid tok (Queued work) = work_from trace srv rid work"
| "phase_ok an trace srv rid tok (Executed out) = outcome_ok an trace srv rid tok out"

definition worker_ok :: "analysis \<Rightarrow> Value list \<Rightarrow> Server \<Rightarrow> Worker \<Rightarrow> bool" where
  "worker_ok an trace srv w = phase_ok an trace srv (worker_response_id w) (worker_token w) (phase w)"

definition completed_ok :: "analysis \<Rightarrow> Value list \<Rightarrow> Server \<Rightarrow> CompletedRequest \<Rightarrow> bool" where
  "completed_ok an trace srv c = outcome_ok an trace srv (response_id c) (token c) (outcome c)"

lemma work_from_mono:
  "work_from trace srv rid work \<Longrightarrow> server_grows srv srv' \<Longrightarrow> set trace \<subseteq> set trace' \<Longrightarrow> work_from trace' srv' rid work"
  unfolding work_from_def server_grows_def by (meson older_trans subsetD)

lemma outcome_ok_mono:
  "outcome_ok an trace srv rid tok out \<Longrightarrow> server_grows srv srv' \<Longrightarrow> set trace \<subseteq> set trace' \<Longrightarrow>
     outcome_ok an trace' srv' rid tok out"
  using work_from_mono by (cases out) (auto simp: server_grows_def, metis server_grows_def)

lemma worker_ok_mono:
  "worker_ok an trace srv w \<Longrightarrow> server_grows srv srv' \<Longrightarrow> set trace \<subseteq> set trace' \<Longrightarrow> worker_ok an trace' srv' w"
  unfolding worker_ok_def by (cases "phase w") (auto intro: work_from_mono outcome_ok_mono)

lemma completed_ok_mono:
  "completed_ok an trace srv c \<Longrightarrow> server_grows srv srv' \<Longrightarrow> set trace \<subseteq> set trace' \<Longrightarrow> completed_ok an trace' srv' c"
  unfolding completed_ok_def by (rule outcome_ok_mono)

lemma work_outcome_ok:
  "work_from trace srv rid work \<Longrightarrow> out \<in> set (work_outcomes an (cancellation srv) tok work) \<Longrightarrow>
     outcome_ok an trace srv rid tok out"
  by (auto simp: work_outcomes_def split: if_splits option.splits)


section \<open>The invariant\<close>

definition sys_inv :: "analysis \<Rightarrow> Value list \<Rightarrow> System \<Rightarrow> bool" where
  "sys_inv an trace s \<longleftrightarrow>
     filed (store (server s)) \<and> registry_ok (cancellation (server s)) (jobs s) \<and>
     pending (scheduler s) = length (jobs s) \<and> length (jobs s) \<le> length trace \<and>
     (\<forall>w\<in>set (workers (scheduler s)). worker_ok an trace (server s) w) \<and>
     (\<forall>c. Completed c \<in> set (channel s) \<longrightarrow> completed_ok an trace (server s) c)"

lemma sys_inv_start: "sys_inv an [] (serve_start input)"
  by (simp add: sys_inv_def serve_start_def server_new_def scheduler_new_def filed_default jobs_def
        registry_ok_def registry_default_def bt_ok_def bt_get_def request_ids_def)

text \<open>Steps that leave the server alone and only move jobs around.\<close>

lemma sys_inv_moved:
  assumes "sys_inv an trace s" "server s' = server s" "pending (scheduler s') = pending (scheduler s)"
    "mset (jobs s') = mset (jobs s)"
    "\<forall>w\<in>set (workers (scheduler s')). worker_ok an trace (server s) w"
    "\<forall>c. Completed c \<in> set (channel s') \<longrightarrow> completed_ok an trace (server s) c"
  shows "sys_inv an trace s'"
  using assms registry_ok_perm [of "jobs s" "jobs s'"] mset_eq_length [OF assms(4)] by (simp add: sys_inv_def)

lemma read_event_fields [simp]:
  "jobs (read_event input s) = jobs s" "server (read_event input s) = server s"
  "writer (read_event input s) = writer s" "scheduler (read_event input s) = scheduler s"
  by (simp_all add: read_event_def jobs_def split: Frames.split)

lemma sys_inv_read: "sys_inv an trace s \<Longrightarrow> sys_inv an trace (read_event input s)"
  by (rule sys_inv_moved [of an trace s]) (auto simp: read_event_def jobs_def sys_inv_def split: Frames.splits)

lemma sys_inv_run:
  assumes "sys_inv an trace s" "workers (scheduler s) = ws @ w # ws'" "phase w = Queued work"
    "out \<in> set (work_outcomes an (cancellation (server s)) (worker_token w) work)"
  shows "sys_inv an trace (s\<lparr>scheduler := (scheduler s)\<lparr>workers := ws @ w\<lparr>phase := Executed out\<rparr> # ws'\<rparr>\<rparr>)"
proof (rule sys_inv_moved [OF assms(1)])
  have "worker_job (w\<lparr>phase := Executed out\<rparr>) = worker_job w" by (simp add: worker_job_def)
  then show "mset (jobs (s\<lparr>scheduler := (scheduler s)\<lparr>workers := ws @ w\<lparr>phase := Executed out\<rparr> # ws'\<rparr>\<rparr>)) = mset (jobs s)"
    by (simp add: jobs_def assms(2))
  have "worker_ok an trace (server s) w" using assms(1,2) by (simp add: sys_inv_def)
  then have "worker_ok an trace (server s) (w\<lparr>phase := Executed out\<rparr>)"
    using work_outcome_ok assms(3,4) by (auto simp: worker_ok_def)
  then show "\<forall>v\<in>set (workers (scheduler (s\<lparr>scheduler := (scheduler s)\<lparr>workers := ws @ w\<lparr>phase := Executed out\<rparr> # ws'\<rparr>\<rparr>))).
      worker_ok an trace (server s) v"
    using assms(1,2) by (auto simp: sys_inv_def)
qed (use assms(1) in \<open>simp_all add: sys_inv_def\<close>)

lemma sys_inv_send:
  assumes "sys_inv an trace s" "workers (scheduler s) = ws @ w # ws'" "phase w = Executed out"
  shows "sys_inv an trace (s\<lparr>scheduler := (scheduler s)\<lparr>workers := ws @ ws'\<rparr>,
    channel := channel s @ [Completed (completed_of w out)]\<rparr>)"
proof (rule sys_inv_moved [OF assms(1)])
  have "worker_ok an trace (server s) w" using assms(1,2) by (simp add: sys_inv_def)
  then have "completed_ok an trace (server s) (completed_of w out)"
    using assms(3) by (simp add: worker_ok_def completed_ok_def completed_of_def)
  then show "\<forall>c. Completed c \<in> set (channel (s\<lparr>scheduler := (scheduler s)\<lparr>workers := ws @ ws'\<rparr>,
      channel := channel s @ [Completed (completed_of w out)]\<rparr>)) \<longrightarrow> completed_ok an trace (server s) c"
    using assms(1) by (auto simp: sys_inv_def)
qed (use assms(1,2) in \<open>auto simp: sys_inv_def jobs_def\<close>)

text \<open>A message.\<close>

lemma schedule_job:
  assumes "schedule srv rid work sch = (Scheduled, srv', sch')" "registry_ok (cancellation srv) js"
  obtains w where "sch' = spawn w sch" "worker_response_id w = rid" "phase w = Queued work"
    "registry_ok (cancellation srv') (worker_job w # js)" "server_grows srv srv'"
proof (cases "request_id_from_json rid")
  case None
  with assms show ?thesis
    by (intro that [of "\<lparr>worker_response_id = rid, worker_request_id = None, worker_token = None, phase = Queued work\<rparr>"])
      (auto simp: schedule_def worker_job_def registry_ok_anonymous)
next
  case (Some r)
  with assms(1) obtain t reg where b: "registry_begin r (cancellation srv) = (Some t, reg)"
    "srv' = srv\<lparr>cancellation := reg\<rparr>"
    "sch' = spawn \<lparr>worker_response_id = rid, worker_request_id = Some r, worker_token = Some t, phase = Queued work\<rparr> sch"
    by (auto simp: schedule_def split: prod.splits option.splits)
  have "server_grows srv srv'"
    using b(1) by (auto simp: b(2) server_grows_def registry_begin_def token_is_cancelled_def get_at_def Let_def nth_append
        split: if_splits)
  with b registry_ok_begin [OF assms(2) b(1) Some] show ?thesis by (intro that) (auto simp: worker_job_def)
qed

lemma session_fields [simp]:
  "server (session_of s) = server s" "scheduler (session_of s) = scheduler s" "writer (session_of s) = writer s"
  "server (with_session x s) = server x" "scheduler (with_session x s) = scheduler x"
  "writer (with_session x s) = writer x" "channel (with_session x s) = channel s"
  "server (acknowledge ack s) = server s" "scheduler (acknowledge ack s) = scheduler s"
  "writer (acknowledge ack s) = writer s" "channel (acknowledge ack s) = channel s"
  "terminal (with_session x s) = terminal s" "terminal (acknowledge ack s) = terminal s"
  "finished (with_session x s) = finished s" "finished (acknowledge ack s) = finished s"
  by (simp_all add: session_of_def with_session_def acknowledge_def)

text \<open>The number of requests in a trace, responses written and jobs in flight for one identifier.\<close>

definition requests :: "Value list \<Rightarrow> Value \<Rightarrow> nat" where
  "requests trace v = length (filter (\<lambda>m. answers m = Some v) trace)"

definition responses :: "Value list \<Rightarrow> Value \<Rightarrow> nat" where
  "responses out v = length (filter (\<lambda>f. frame_id f = Some v) out)"

definition in_flight :: "job list \<Rightarrow> Value \<Rightarrow> nat" where
  "in_flight js v = length (filter (\<lambda>j. fst j = v) js)"

lemma counts_append [simp]:
  "requests (xs @ ys) v = requests xs v + requests ys v" "responses (o1 @ o2) v = responses o1 v + responses o2 v"
  "in_flight (js @ js') v = in_flight js v + in_flight js' v" "in_flight [] v = 0" "responses [] v = 0"
  "requests [] v = 0" "in_flight (j # js) v = (if fst j = v then 1 else 0) + in_flight js v"
  "responses [f] v = (if frame_id f = Some v then 1 else 0)"
  "requests [m] v = (if answers m = Some v then 1 else 0)"
  by (simp_all add: requests_def responses_def in_flight_def)

lemma responses_quiet: "quiet out out' \<Longrightarrow> responses out' v = responses out v"
  by (auto simp: quiet_def responses_def filter_empty_conv)

lemma in_flight_perm: "mset js = mset js' \<Longrightarrow> in_flight js v = in_flight js' v"
  unfolding in_flight_def by (metis mset_filter size_mset)

definition accounted :: "Value list \<Rightarrow> System \<Rightarrow> bool" where
  "accounted trace s \<longleftrightarrow> (\<forall>v. requests trace v = responses (writer s) v + in_flight (jobs s) v)"


lemma sys_inv_cong:
  "server s' = server s \<Longrightarrow> scheduler s' = scheduler s \<Longrightarrow> channel s' = channel s \<Longrightarrow>
     sys_inv an trace s' = sys_inv an trace s"
  by (simp add: sys_inv_def jobs_def)

lemma accounted_cong:
  "scheduler s' = scheduler s \<Longrightarrow> channel s' = channel s \<Longrightarrow> writer s' = writer s \<Longrightarrow>
     accounted trace s' = accounted trace s"
  by (simp add: accounted_def jobs_def)

lemma message_grows:
  assumes "message_effect m (session_of s) x" "registry_ok (cancellation (server s)) (jobs s)"
  shows "server_grows (server s) (server x)"
  using assms(1) unfolding message_effect_def
proof (elim conjE disjE)
  assume "effect_schedule (request_work (server (session_of s)) m) (session_of s) x"
  then show ?thesis using assms(2) by (auto simp: effect_schedule_def elim: schedule_job)
qed (auto simp: server_grows_def effect_quiet_def effect_reply_def)

lemma sys_inv_grown:
  assumes inv: "sys_inv an trace s" and grows: "server_grows (server s) (server s')" and f: "filed (store (server s'))"
    and reg: "registry_ok (cancellation (server s')) (jobs s')" and pend: "pending (scheduler s') = length (jobs s')"
    and len: "length (jobs s') \<le> length trace'" and tr: "set trace \<subseteq> set trace'"
    and ch: "\<forall>c. Completed c \<in> set (channel s') \<longrightarrow> Completed c \<in> set (channel s)"
    and ws: "\<forall>w\<in>set (workers (scheduler s')). w \<in> set (workers (scheduler s)) \<or> worker_ok an trace' (server s') w"
  shows "sys_inv an trace' s'"
proof -
  have "worker_ok an trace' (server s') w" if "w \<in> set (workers (scheduler s'))" for w
    using that ws inv worker_ok_mono [OF _ grows tr] by (auto simp: sys_inv_def)
  moreover have "completed_ok an trace' (server s') c" if "Completed c \<in> set (channel s')" for c
    using that ch inv completed_ok_mono [OF _ grows tr] by (auto simp: sys_inv_def)
  ultimately show ?thesis using f reg pend len by (simp add: sys_inv_def)
qed

lemma sys_inv_message:
  assumes inv: "sys_inv an trace s" and len: "length trace + 1 < 2 ^ 64"
    and eff: "message_effect m (session_of s) x"
  shows "sys_inv an (trace @ [m]) (with_session x s) \<and>
    (well_formed m \<longrightarrow> accounted trace s \<longrightarrow> accounted (trace @ [m]) (with_session x s))"
proof -
  from inv have reg: "registry_ok (cancellation (server s)) (jobs s)" and pend: "pending (scheduler s) = length (jobs s)"
    and jl: "length (jobs s) \<le> length trace" by (simp_all add: sys_inv_def)
  have grows: "server_grows (server s) (server x)" by (rule message_grows [OF eff reg])
  note grown = sys_inv_grown [OF inv, of "with_session x s" "trace @ [m]", simplified, OF grows]
  from eff have f: "filed (store (server x))" by (simp add: message_effect_def)
  consider (quiet) "effect_quiet (session_of s) x" "well_formed m \<Longrightarrow> answers m = None"
    | (reply) "effect_reply (answers m) (session_of s) x"
    | (sched) "effect_schedule (request_work (server s) m) (session_of s) x"
    using eff by (auto simp: message_effect_def)
  then show ?thesis
  proof cases
    case quiet
    then have "scheduler x = scheduler s" by (simp add: effect_quiet_def)
    moreover from this have "jobs (with_session x s) = jobs s" by (simp add: jobs_def)
    moreover have "registry_ok (cancellation (server x)) (jobs s)"
      using quiet(1) by (intro registry_ok_mono [OF reg]) (simp_all add: effect_quiet_def)
    ultimately show ?thesis using f pend jl quiet responses_quiet
      by (intro conjI impI grown) (auto simp: accounted_def effect_quiet_def)
  next
    case reply
    then have "scheduler x = scheduler s" "cancellation (server x) = cancellation (server s)"
      by (simp_all add: effect_reply_def)
    moreover from this have "jobs (with_session x s) = jobs s" by (simp add: jobs_def)
    ultimately show ?thesis using f pend jl reg reply
      by (intro conjI impI grown) (auto simp: accounted_def effect_reply_def)
  next
    case sched
    then obtain rid work where rw: "request_work (server s) m = Some (rid, work)" and wr: "writer x = writer s"
      and sch: "schedule (server s) rid work (scheduler s) = (Scheduled, server x, scheduler x)"
      by (auto simp: effect_schedule_def)
    from schedule_job [OF sch reg] obtain w where w: "scheduler x = spawn w (scheduler s)" "worker_response_id w = rid"
      "phase w = Queued work" "registry_ok (cancellation (server x)) (worker_job w # jobs s)" by metis
    have perm: "mset (jobs (with_session x s)) = mset (worker_job w # jobs s)"
      by (simp add: jobs_def w(1) spawn_def)
    have size: "length (jobs (with_session x s)) = Suc (length (jobs s))" using mset_eq_length [OF perm] by simp
    have "worker_ok an (trace @ [m]) (server x) w"
      using rw grows by (auto simp: worker_ok_def w work_from_def server_grows_def)
    moreover have "answers m = Some rid"
      using rw by (auto simp: request_work_def bind_eq_Some_conv split: if_splits)
    moreover have "in_flight (jobs (with_session x s)) v = (if rid = v then 1 else 0) + in_flight (jobs s) v" for v
      using in_flight_perm [OF perm] w(2) by (simp add: worker_job_def)
    ultimately show ?thesis
      using f pend jl len w(4) size wr registry_ok_perm [OF perm [symmetric]]
      by (intro conjI impI grown) (auto simp: accounted_def w(1) spawn_def saturating_add_def usize_max_def)
  qed
qed


section \<open>Completions\<close>

definition committed_frame :: "Server \<Rightarrow> CompletedRequest \<Rightarrow> Value" where
  "committed_frame srv c =
     (if \<exists>t. token c = Some t \<and> token_is_cancelled (cancellation srv) t
      then error_frame (response_id c) REQUEST_CANCELLED_CODE ''request cancelled''
      else case outcome c of
        WorkCompleted done' \<Rightarrow>
          result_frame (response_id c)
            (if is_current (completion_snapshot done') srv then completion_result done' else stale_result done')
      | _ \<Rightarrow> error_frame (response_id c) INTERNAL_ERROR_CODE ''request failed'')"

lemma frame_id_committed [simp]: "frame_id (committed_frame srv c) = Some (response_id c)"
  by (simp add: committed_frame_def split: WorkerOutcome.split)

lemma is_current_cancellation [simp]: "is_current sn (srv\<lparr>cancellation := r\<rparr>) = is_current sn srv"
  by (simp add: is_current_def)

lemma complete_effect:
  assumes reg: "registry_ok (cancellation srv) (completed_job c # js)" and ok: "completed_ok an trace srv c"
  obtains reg' where "registry_ok reg' js" "flags reg' = flags (cancellation srv)"
    "complete srv c sch out =
       (srv\<lparr>cancellation := reg'\<rparr>, sch\<lparr>pending := pending sch - 1\<rparr>, out @ [committed_frame srv c])"
proof (cases "request_id c")
  case None
  with reg have t: "token c = None" and r: "registry_ok (cancellation srv) js"
    by (simp_all add: completed_job_def registry_ok_anonymous)
  from ok t have "outcome c \<noteq> Cancelled" by (auto simp: completed_ok_def)
  with None t r show ?thesis
    by (intro that [of "cancellation srv"])
      (auto simp: complete_def committed_frame_def send_error_def send_result_def Let_def split: WorkerOutcome.split)
next
  case (Some r)
  with registry_ok_job [OF reg, of "response_id c" "Some r" "token c"] obtain t where t: "token c = Some t"
    by (auto simp: completed_job_def)
  define reg' where "reg' = (cancellation srv)\<lparr>active := bt_remove r (active (cancellation srv))\<rparr>"
  have "registry_ok (cancellation srv) ((response_id c, Some r, Some t) # js)"
    using reg Some t by (simp add: completed_job_def)
  from registry_ok_finish [OF this]
  have fin: "registry_finish r t (cancellation srv) = (token_is_cancelled (cancellation srv) t, reg')" "registry_ok reg' js"
    by (simp_all add: reg'_def)
  from ok t have "token_is_cancelled (cancellation srv) t" if "outcome c = Cancelled"
    using that by (auto simp: completed_ok_def)
  with Some t fin show ?thesis
    by (intro that [of reg'])
      (auto simp: complete_def committed_frame_def send_error_def send_result_def Let_def reg'_def split: WorkerOutcome.split)
qed

lemma sys_inv_completed:
  assumes inv: "sys_inv an trace s" and ch: "channel s = Completed c # rest"
  defines "s' \<equiv> on_event an (Completed c) (s\<lparr>channel := rest\<rparr>)"
  shows "sys_inv an trace s' \<and> (accounted trace s \<longrightarrow> accounted trace s') \<and> server_grows (server s) (server s') \<and>
    writer s' = writer s @ [committed_frame (server s) c]"
proof -
  define js where "js = map worker_job (workers (scheduler s)) @ event_jobs rest"
  have perm: "mset (completed_job c # js) = mset (jobs s)" by (simp add: jobs_def js_def ch)
  from inv have ok: "completed_ok an trace (server s) c" and "registry_ok (cancellation (server s)) (jobs s)"
    by (simp_all add: sys_inv_def ch)
  from registry_ok_perm [OF perm [symmetric] this(2)]
  obtain reg where reg: "registry_ok reg js" "flags reg = flags (cancellation (server s))"
    "complete (server s) c (scheduler s) (writer s) =
       (server s\<lparr>cancellation := reg\<rparr>, scheduler s\<lparr>pending := pending (scheduler s) - 1\<rparr>,
        writer s @ [committed_frame (server s) c])" by (metis complete_effect ok)
  then have s': "s' = s\<lparr>channel := rest, server := server s\<lparr>cancellation := reg\<rparr>,
      scheduler := scheduler s\<lparr>pending := pending (scheduler s) - 1\<rparr>,
      writer := writer s @ [committed_frame (server s) c]\<rparr>"
    by (simp add: s'_def on_event_def)
  have js: "jobs s' = js" by (simp add: jobs_def s' js_def)
  have grows: "server_grows (server s) (server s')"
    by (simp add: s' server_grows_def token_is_cancelled_def reg(2))
  have "sys_inv an trace s'"
    using inv reg(1) mset_eq_length [OF perm]
    by (intro sys_inv_grown [OF inv grows]) (auto simp: js, auto simp: s' sys_inv_def ch)
  moreover have "accounted trace s'" if "accounted trace s"
    using that in_flight_perm [OF perm] by (simp add: accounted_def js) (simp add: s' completed_job_def)
  ultimately show ?thesis using grows by (simp add: s')
qed


section \<open>Steps and runs\<close>

abbreviation dispatched_list :: "Value option \<Rightarrow> Value list" where
  "dispatched_list d \<equiv> (case d of None \<Rightarrow> [] | Some m \<Rightarrow> [m])"

definition step_ok :: "analysis \<Rightarrow> Value list \<Rightarrow> System \<Rightarrow> Value list \<Rightarrow> System \<Rightarrow> bool" where
  "step_ok an trace s trace' s' \<longleftrightarrow>
     sys_inv an trace' s' \<and> server_grows (server s) (server s') \<and>
     ((\<forall>m\<in>set trace'. well_formed m) \<longrightarrow> accounted trace s \<longrightarrow> accounted trace' s')"

lemma step_ok_moved:
  "sys_inv an trace s' \<Longrightarrow> server s' = server s \<Longrightarrow> writer s' = writer s \<Longrightarrow> mset (jobs s') = mset (jobs s) \<Longrightarrow>
     step_ok an trace s trace s'"
  using in_flight_perm [of "jobs s'" "jobs s"] by (simp add: step_ok_def accounted_def)

lemma step_ok_dispatch:
  assumes inv: "sys_inv an trace s" and ch: "channel s = Input m # rest" and t: "terminal s = None"
    and len: "length trace + 1 < 2 ^ 64"
  shows "step_ok an trace s (trace @ [m]) (on_event an (Input m) (s\<lparr>channel := rest\<rparr>))"
proof -
  define s0 where "s0 = s\<lparr>channel := rest\<rparr>"
  have same: "jobs s0 = jobs s" "server s0 = server s" "writer s0 = writer s"
    by (simp_all add: s0_def jobs_def ch)
  have inv0: "sys_inv an trace s0"
    using inv by (intro sys_inv_moved [OF inv]) (auto simp: same, auto simp: s0_def sys_inv_def ch)
  obtain e x where h: "handle an m (session_of s0) = (e, x)" by fastforce
  have eff: "message_effect m (session_of s0) x"
    using inv0 by (intro handle_effect [OF _ h]) (simp add: sys_inv_def)
  define s' where "s' = on_event an (Input m) s0"
  have s': "server s' = server x" "scheduler s' = scheduler x" "writer s' = writer x" "channel s' = channel s0"
    using t by (auto simp: s'_def on_event_def s0_def [symmetric] h split: option.split) (simp_all add: s0_def)
  have "server_grows (server s) (server x)"
    using message_grows [OF eff] inv0 by (simp add: sys_inv_def same)
  moreover have "sys_inv an (trace @ [m]) s' = sys_inv an (trace @ [m]) (with_session x s0)"
    by (rule sys_inv_cong) (simp_all add: s')
  moreover have "accounted (trace @ [m]) s' = accounted (trace @ [m]) (with_session x s0)"
    by (rule accounted_cong) (simp_all add: s')
  moreover have "accounted trace s0 = accounted trace s" by (simp add: accounted_def same)
  ultimately show ?thesis using sys_inv_message [OF inv0 len eff]
    by (simp add: step_ok_def s'_def [symmetric] s0_def [symmetric] s')
qed

lemma step_ok_receive:
  assumes inv: "sys_inv an trace s" and ch: "channel s = ev # rest"
    and d: "d = (case ev of Input m \<Rightarrow> if terminal s = None then Some m else None | _ \<Rightarrow> None)"
    and len: "length (trace @ dispatched_list d) < 2 ^ 64"
  shows "step_ok an trace s (trace @ dispatched_list d) (on_event an ev (s\<lparr>channel := rest\<rparr>))"
proof (cases "d = None \<and> (\<forall>c. ev \<noteq> Completed c)")
  case True
  define s' where "s' = on_event an ev (s\<lparr>channel := rest\<rparr>)"
  have s': "server s' = server s" "scheduler s' = scheduler s" "writer s' = writer s" "channel s' = rest"
    using True d by (auto simp: s'_def on_event_def split: ServerEvent.splits if_splits)
  have "event_jobs (channel s) = event_jobs rest" using True by (cases ev) (auto simp: ch)
  then have jobs: "jobs s' = jobs s" by (simp add: jobs_def s')
  have "sys_inv an trace s'"
    using inv by (intro sys_inv_moved [OF inv]) (auto simp: s' jobs sys_inv_def ch)
  with True show ?thesis unfolding s'_def [symmetric] by (simp add: step_ok_moved s' jobs)
next
  case False
  show ?thesis
  proof (cases "\<exists>c. ev = Completed c")
    case True
    then obtain c where ev: "ev = Completed c" by blast
    with sys_inv_completed [OF inv] ch d show ?thesis by (simp add: step_ok_def)
  next
    case False
    with \<open>\<not> (d = None \<and> (\<forall>c. ev \<noteq> Completed c))\<close> d obtain m where "ev = Input m" "terminal s = None"
      by (auto split: ServerEvent.splits if_splits)
    with step_ok_dispatch [OF inv] ch d len show ?thesis by simp
  qed
qed

lemma sys_step_ok:
  assumes "sys_step an s d s'" "sys_inv an trace s" "length (trace @ dispatched_list d) < 2 ^ 64"
  shows "step_ok an trace s (trace @ dispatched_list d) s'"
  using assms
proof (induction rule: sys_step.induct)
  case (read s input)
  then show ?case by (simp add: step_ok_moved sys_inv_read)
next
  case (run s ws w ws' work out)
  then show ?case using sys_inv_run [OF run(5,2,3,4)]
    by (auto intro!: step_ok_moved simp: jobs_def worker_job_def)
next
  case (send s ws w ws' out)
  then show ?case using sys_inv_send [OF send(4,2,3)] by (auto intro!: step_ok_moved simp: jobs_def)
next
  case (return s e)
  then show ?case by (auto intro!: step_ok_moved simp: jobs_def sys_inv_def)
next
  case (receive s ev rest dispatched)
  then show ?case using step_ok_receive by blast
qed

lemma sys_run_ok:
  assumes "sys_run an s0 trace s" "sys_inv an trace0 s0" "length (trace0 @ trace) < 2 ^ 64"
  shows "step_ok an trace0 s0 (trace0 @ trace) s"
  using assms
proof (induction rule: sys_run.induct)
  case (sys_run_refl s)
  then show ?case by (simp add: step_ok_def)
next
  case (sys_run_step s trace s' d s'')
  then have ok: "step_ok an trace0 s (trace0 @ trace) s'" by simp
  with sys_step_ok [OF sys_run_step(2), of "trace0 @ trace"] sys_run_step(5)
  have "step_ok an (trace0 @ trace) s' (trace0 @ trace @ dispatched_list d) s''" by (simp add: step_ok_def)
  with ok show ?case using server_grows_trans by (auto simp: step_ok_def)
qed

lemma sys_run_start:
  "sys_run an (serve_start input) trace s \<Longrightarrow> length trace < 2 ^ 64 \<Longrightarrow> step_ok an [] (serve_start input) trace s"
  using sys_run_ok [OF _ sys_inv_start] by fastforce

end
