(* ===== verification/LspSessions.thy ===== *)
theory LspSessions
  imports LspCoordinator
begin

text \<open>
  The session properties of the language server, over every interleaving of reader, workers and event
  loop, with an executable scheduler that builds concrete runs for the examples.
\<close>

section \<open>Current answers\<close>

lemma filed_get: "filed st \<Longrightarrow> (uri, d) \<in> set (documents st) \<longleftrightarrow> bt_get (documents st) uri = Some d"
  by (simp add: filed_def bt_get_in_set)

lemma keyed_documents:
  "\<forall>(uri, d)\<in>set ds. doc_uri d = uri \<Longrightarrow>
     map doc_uri (map snd ds) = map fst ds \<and> find (\<lambda>d. doc_uri d = k) (map snd ds) = map_of ds k"
  by (induction ds) auto

lemma capture_documents: "filed (store srv) \<Longrightarrow> snap_documents (capture srv) = documents (store srv)"
proof -
  define ds where "ds = documents (store srv)"
  assume f: "filed (store srv)"
  then have ok: "bt_ok ds" and "\<forall>(uri, d)\<in>set ds. doc_uri d = uri"
    using filed_get [OF f] unfolding ds_def by (auto simp: filed_def)
  from keyed_documents [OF this(2)] have keys: "map doc_uri (map snd ds) = map fst ds"
    and lookup: "find (\<lambda>d. doc_uri d = k) (map snd ds) = map_of ds k" for k by blast+
  have "distinct (map doc_uri (map snd ds))" using bt_ok_distinct [OF ok] by (simp only: keys)
  from bt.get_fold_insert [OF bt.empty_ok this, of "\<lambda>d. d"] lookup
  have "bt_get (fold (\<lambda>d. bt_insert (doc_uri d) d) (map snd ds) []) k = bt_get ds k" for k
    by (simp add: bt_get_def split: option.split)
  moreover have "bt_ok (fold (\<lambda>d. bt_insert (doc_uri d) d) (map snd ds) [])"
    using bt.fold_insert_ok [of "[]" doc_uri "\<lambda>d _. d"] by (simp add: bt_ok_def)
  ultimately show ?thesis using bt_ext [OF _ ok] by (simp add: capture_def Let_def ds_def)
qed

lemma is_current_iff:
  assumes "filed (store srv)" "older srv0 srv"
  shows "is_current (capture srv0) srv \<longleftrightarrow> store srv0 = store srv \<and> configuration srv0 = configuration srv"
proof
  assume "is_current (capture srv0) srv"
  with assms(2) show "store srv0 = store srv \<and> configuration srv0 = configuration srv"
    by (auto simp: is_current_def capture_def Let_def older_def store_older_def config_older_def)
next
  assume "store srv0 = store srv \<and> configuration srv0 = configuration srv"
  then have "capture srv0 = capture srv" by (simp add: capture_def)
  moreover have "bt_get (documents (store srv)) uri = Some d" if "(uri, d) \<in> set (documents (store srv))" for uri d
    using that filed_get [OF assms(1)] by blast
  ultimately show "is_current (capture srv0) srv"
    using capture_documents [OF assms(1)]
    by (auto simp: is_current_def store_len_def store_get_def) (simp_all add: capture_def Let_def)
qed

lemma request_work_snapshot:
  assumes "request_work srv m = Some (rid, work)"
  shows "completion_snapshot (execute an work) = capture srv"
  using assms by (auto simp: request_work_def bind_eq_Some_conv hover_work_def definition_work_def code_actions_work_def
      split: if_splits)

lemma request_work_cong:
  "store srv0 = store srv \<Longrightarrow> configuration srv0 = configuration srv \<Longrightarrow> request_work srv0 m = request_work srv m"
proof -
  assume "store srv0 = store srv" "configuration srv0 = configuration srv"
  then have "capture srv0 = capture srv" by (simp add: capture_def)
  then have "hover_work srv0 = hover_work srv" "definition_work srv0 = definition_work srv"
    "code_actions_work srv0 = code_actions_work srv"
    by (simp_all add: fun_eq_iff hover_work_def definition_work_def code_actions_work_def)
  then show ?thesis by (simp only: request_work_def)
qed

lemma finished_idle:
  "sys_run an s trace s' \<Longrightarrow> finished s = None \<Longrightarrow> finished s' = Some (Inr e) \<Longrightarrow> is_idle (scheduler s')"
proof (induction rule: sys_run.induct)
  case (sys_run_step s trace s' d s'')
  from sys_run_step(2,5) show ?case
    by (induction rule: sys_step.induct)
      (auto simp: read_event_def on_event_def acknowledge_def with_session_def split: Frames.splits ServerEvent.splits prod.splits option.splits if_splits)
qed simp


section \<open>The session properties\<close>

text \<open>C20: whatever the interleaving of threads, every request the server has dispatched is answered
  exactly once or is still in flight: for every identifier, the number of messages with that
  identifier is the number of responses written with it plus the number of workers and completions that
  hold it. When the event loop has returned an exit status nothing is in flight, so every request has
  had its response. The messages are those of a client that puts no identifier on notifications.
\<close>

theorem requests_answered_once:
  assumes "sys_run an (serve_start input) trace s" "length trace < 2 ^ 64" "\<forall>m\<in>set trace. well_formed m"
  shows "requests trace v = responses (writer s) v + in_flight (jobs s) v \<and>
    (finished s = Some (Inr e) \<longrightarrow> requests trace v = responses (writer s) v)"
proof (intro conjI impI)
  have "accounted [] (serve_start input)" by (simp add: accounted_def serve_start_def jobs_def scheduler_new_def)
  with sys_run_start [OF assms(1,2)] assms(3) have acc: "accounted trace s" and inv: "sys_inv an trace s"
    by (simp_all add: step_ok_def)
  then show "requests trace v = responses (writer s) v + in_flight (jobs s) v" by (simp add: accounted_def)
  assume "finished s = Some (Inr e)"
  then have "is_idle (scheduler s)" using finished_idle [OF assms(1)] by (simp add: serve_start_def)
  with inv have "jobs s = []" by (simp add: sys_inv_def is_idle_def)
  with acc show "requests trace v = responses (writer s) v" by (simp add: accounted_def)
qed


text \<open>The three answers of a completion whose request was not cancelled.\<close>

lemma committed_frame_failed:
  assumes "\<not> (\<exists>t. token c = Some t \<and> token_is_cancelled (cancellation srv) t)" "\<nexists>d. outcome c = WorkCompleted d"
  shows "committed_frame srv c = error_frame (response_id c) INTERNAL_ERROR_CODE ''request failed''"
  unfolding committed_frame_def if_not_P [OF assms(1)] using assms(2) by (cases "outcome c") simp_all

lemma committed_frame_done:
  assumes "\<not> (\<exists>t. token c = Some t \<and> token_is_cancelled (cancellation srv) t)"
    "outcome c = WorkCompleted (execute an work)" "request_work srv0 m = Some (rid, work)" "older srv0 srv" "filed (store srv)"
  shows "committed_frame srv c = result_frame (response_id c)
      (if store srv0 = store srv \<and> configuration srv0 = configuration srv
       then completion_result (execute an work) else stale_result (execute an work))"
  unfolding committed_frame_def if_not_P [OF assms(1)] assms(2) WorkerOutcome.case
    request_work_snapshot [OF assms(3)] is_current_iff [OF assms(5,4)] ..

lemma committed_frame_uncancelled:
  assumes f: "filed (store srv)" and ok: "completed_ok an trace srv c"
    and nc: "\<not> (\<exists>t. token c = Some t \<and> token_is_cancelled (cancellation srv) t)"
  obtains (failed) "committed_frame srv c = error_frame (response_id c) INTERNAL_ERROR_CODE ''request failed''"
  | (current) m work where "m \<in> set trace" "request_work srv m = Some (response_id c, work)"
      "committed_frame srv c = result_frame (response_id c) (completion_result (execute an work))"
  | (stale) m srv0 work where "m \<in> set trace" "request_work srv0 m = Some (response_id c, work)" "older srv0 srv"
      "store srv0 \<noteq> store srv \<or> configuration srv0 \<noteq> configuration srv"
      "committed_frame srv c = result_frame (response_id c) (stale_result (execute an work))"
proof (cases "\<exists>d. outcome c = WorkCompleted d")
  case False
  show ?thesis by (rule failed [OF committed_frame_failed [OF nc False]])
next
  case True
  then obtain d where d: "outcome c = WorkCompleted d" by blast
  with ok obtain work where "work_from trace srv (response_id c) work" and dw: "d = execute an work"
    by (auto simp: completed_ok_def)
  then obtain m srv0 where w: "m \<in> set trace" "request_work srv0 m = Some (response_id c, work)" "older srv0 srv"
    unfolding work_from_def by blast
  note frame = committed_frame_done [OF nc d [unfolded dw] w(2,3) f]
  show ?thesis
  proof (cases "store srv0 = store srv \<and> configuration srv0 = configuration srv")
    case True
    then have "request_work srv m = Some (response_id c, work)" using w(2) request_work_cong by metis
    then show ?thesis by (rule current [OF w(1)]) (simp only: frame True if_True simp_thms)
  next
    case False
    from frame have "committed_frame srv c = result_frame (response_id c) (stale_result (execute an work))"
      by (simp only: False if_False)
    with False stale [OF w] show ?thesis by blast
  qed
qed

text \<open>C21: an answer is never out of date. When the event loop takes a completion from the channel it writes
  exactly one frame. If the request's token is cancelled, that is the cancellation error. Otherwise it
  is an internal error (the work panicked), or the result which the work of a dispatched request with
  this identifier has on the documents and configuration the server holds at this very moment, or the
  empty answer for that kind of request, and then documents or configuration have moved on since.
\<close>

theorem committed_answer_current:
  assumes "sys_run an (serve_start input) trace s" "length trace < 2 ^ 64" "channel s = Completed c # rest"
  shows "\<exists>f. writer (on_event an (Completed c) (s\<lparr>channel := rest\<rparr>)) = writer s @ [f] \<and>
    (if \<exists>t. token c = Some t \<and> token_is_cancelled (cancellation (server s)) t
     then f = error_frame (response_id c) REQUEST_CANCELLED_CODE ''request cancelled''
     else f = error_frame (response_id c) INTERNAL_ERROR_CODE ''request failed'' \<or>
       (\<exists>m\<in>set trace. \<exists>work. request_work (server s) m = Some (response_id c, work) \<and>
          f = result_frame (response_id c) (completion_result (execute an work))) \<or>
       (\<exists>m\<in>set trace. \<exists>srv work. request_work srv m = Some (response_id c, work) \<and>
          older srv (server s) \<and> (store srv \<noteq> store (server s) \<or> configuration srv \<noteq> configuration (server s)) \<and>
          f = result_frame (response_id c) (stale_result (execute an work))))"
  (is "\<exists>f. ?written f \<and> (if ?cancelled then _ f else ?answer f)")
proof (intro exI conjI)
  from sys_run_start [OF assms(1,2)] have inv: "sys_inv an trace s" by (simp add: step_ok_def)
  with sys_inv_completed [OF inv assms(3)] show "?written (committed_frame (server s) c)" by blast
  from inv assms(3) have ok: "filed (store (server s))" "completed_ok an trace (server s) c"
    by (simp_all add: sys_inv_def)
  have "?answer (committed_frame (server s) c)" if "\<not> ?cancelled"
    by (rule committed_frame_uncancelled [OF ok that]) blast+
  moreover have "committed_frame (server s) c = error_frame (response_id c) REQUEST_CANCELLED_CODE ''request cancelled''"
    if "?cancelled"
    using that by (simp add: committed_frame_def)
  ultimately show "if ?cancelled
      then committed_frame (server s) c = error_frame (response_id c) REQUEST_CANCELLED_CODE ''request cancelled''
      else ?answer (committed_frame (server s) c)" by (cases ?cancelled) (simp_all only: if_True if_False simp_thms)
qed

lemma cancel_sets_token:
  assumes "bt_get (active (cancellation (server x))) r = Some t" "t < length (flags (cancellation (server x)))"
    "lifecycle (server x) = Running" "message_method m = Some ''$/cancelRequest''"
    "cancel_target (value_get m ''params'') = Some r"
  shows "token_is_cancelled (cancellation (server (snd (handle an m x)))) t"
proof -
  from assms(4) obtain fs where m: "m = Object fs" by (cases m) (auto simp: message_method_def)
  show ?thesis using assms(1-5)
    by (simp add: m handle_def lifecycle_permits_def dispatch_method_def message_method_def state_cancel_def
        registry_cancel_def token_cancel_def token_is_cancelled_def get_at_def)
qed

lemma sys_step_dispatch:
  assumes "sys_step an s (Some m) s'"
  obtains rest where "finished s = None" "terminal s = None" "channel s = Input m # rest"
    "s' = on_event an (Input m) (s\<lparr>channel := rest\<rparr>)"
  using assms by (cases rule: sys_step.cases) (auto split: ServerEvent.splits if_splits)

text \<open>C23: a cancelled request gets no result. If the server, running, dispatches a cancellation for the
  identifier of a request in flight, then whenever its completion is committed later, after any number
  of further steps, what is written is the cancellation error.
\<close>

theorem cancelled_request_gets_no_result:
  assumes "sys_run an (serve_start input) trace s" "(rid, Some r, Some t) \<in> set (jobs s)"
    "sys_step an s (Some m) s1" "lifecycle (server s) = Running"
    "message_method m = Some ''$/cancelRequest''" "cancel_target (value_get m ''params'') = Some r"
    "sys_run an s1 trace' s2" "length trace + 1 + length trace' < 2 ^ 64"
    "channel s2 = Completed c # rest" "token c = Some t"
  shows "writer (on_event an (Completed c) (s2\<lparr>channel := rest\<rparr>)) =
    writer s2 @ [error_frame (response_id c) REQUEST_CANCELLED_CODE ''request cancelled'']"
proof -
  from sys_run_start [OF assms(1)] assms(8) have inv: "sys_inv an trace s" by (simp add: step_ok_def)
  with assms(2) have reg: "bt_get (active (cancellation (server s))) r = Some t"
    "t < length (flags (cancellation (server s)))"
    by (auto simp: sys_inv_def registry_ok_def)
  from sys_step_dispatch [OF assms(3)] obtain rest0 where ch: "terminal s = None" "channel s = Input m # rest0"
    "s1 = on_event an (Input m) (s\<lparr>channel := rest0\<rparr>)" by blast
  define x where "x = session_of (s\<lparr>channel := rest0\<rparr>)"
  have "server s1 = server (snd (handle an m x))"
    using ch(1,3) by (cases "handle an m x") (auto simp: on_event_def x_def [symmetric] split: option.split)
  with cancel_sets_token [of x r t m an] reg assms(4-6) have t: "token_is_cancelled (cancellation (server s1)) t"
    by (simp add: x_def)
  from sys_step_ok [OF assms(3) inv] assms(8) have "sys_inv an (trace @ [m]) s1" by (simp add: step_ok_def)
  from sys_run_ok [OF assms(7) this] assms(8) have "sys_inv an (trace @ [m] @ trace') s2" "server_grows (server s1) (server s2)"
    by (simp_all add: step_ok_def)
  with t sys_inv_completed [OF _ assms(9)] assms(10) show ?thesis
    by (auto simp: server_grows_def committed_frame_def)
qed

text \<open>Once \<^verbatim>\<open>shutdown\<close> has been answered the server drops every notification except \<^verbatim>\<open>exit\<close>: a
  message without identifier leaves documents, configuration, cancellations and output exactly as they
  were. The comment on \<^verbatim>\<open>lifecycle_permits\<close> says notifications still pass through.
\<close>

theorem notifications_dropped_after_shutdown:
  assumes "lifecycle (server x) = ShuttingDown" "as_object m \<noteq> None" "answers m = None" "message_method m \<noteq> Some ''exit''"
  shows "handle an m x = (None, x)"
proof -
  from assms(2) obtain fs where m: "m = Object fs" by (cases m) auto
  with assms show ?thesis
    by (auto simp: handle_def answers_def message_method_def lifecycle_permits_def reply_error_def dispatch_method_def
        initialize_def shutdown_def Let_def)
qed


section \<open>Every session ends\<close>

text \<open>A property that every run reaches, whichever steps are taken.\<close>

inductive inevitable :: "analysis \<Rightarrow> (System \<Rightarrow> bool) \<Rightarrow> System \<Rightarrow> bool" for an P where
  now: "P s \<Longrightarrow> inevitable an P s"
| later: "sys_step an s d s' \<Longrightarrow> (\<And>d s'. sys_step an s d s' \<Longrightarrow> inevitable an P s') \<Longrightarrow> inevitable an P s"

fun well_framed :: "Frames \<Rightarrow> bool" where
  "well_framed (Frame m rest) = well_framed rest"
| "well_framed EndOfStream = True"
| "well_framed (Broken e) = False"

fun frame_count :: "Frames \<Rightarrow> nat" where
  "frame_count (Frame m rest) = Suc (frame_count rest)"
| "frame_count _ = 0"

fun remaining :: "Reader \<Rightarrow> Frames" where
  "remaining (Reading f) = f"
| "remaining (Waiting f) = f"
| "remaining Returned = EndOfStream"

definition inputs :: "ServerEvent list \<Rightarrow> nat" where
  "inputs evs = length (filter (\<lambda>ev. case ev of Input m \<Rightarrow> True | _ \<Rightarrow> False) evs)"

lemma inputs_simps [simp]:
  "inputs [] = 0" "inputs (xs @ ys) = inputs xs + inputs ys" "inputs (Input m # evs) = Suc (inputs evs)"
  "inputs (EndOfInput # evs) = inputs evs" "inputs (InputError e # evs) = inputs evs" "inputs (Completed c # evs) = inputs evs"
  by (simp_all add: inputs_def)

text \<open>The hand-over between reader and event loop: one message at a time, and no lost end of input.\<close>

definition reader_ok :: "System \<Rightarrow> bool" where
  "reader_ok s \<longleftrightarrow>
     well_framed (remaining (reader s)) \<and>
     inputs (channel s) = (case reader s of Waiting f \<Rightarrow> 1 | _ \<Rightarrow> 0) \<and>
     (reader s = Returned \<longrightarrow> terminal s \<noteq> None \<or> EndOfInput \<in> set (channel s)) \<and>
     (\<forall>e. InputError e \<notin> set (channel s)) \<and> (\<forall>e. finished s \<noteq> Some (Inl e))"

fun frames_weight :: "Frames \<Rightarrow> nat" where
  "frames_weight (Frame m rest) = 5 + frames_weight rest"
| "frames_weight _ = 2"

fun reader_weight :: "Reader \<Rightarrow> nat" where
  "reader_weight (Reading f) = frames_weight f"
| "reader_weight (Waiting f) = frames_weight f"
| "reader_weight Returned = 0"

fun event_weight :: "ServerEvent \<Rightarrow> nat" where
  "event_weight (Input m) = 4"
| "event_weight _ = 1"

definition worker_weight :: "Worker \<Rightarrow> nat" where
  "worker_weight w = (case phase w of Queued work \<Rightarrow> 3 | Executed out \<Rightarrow> 2)"

definition system_weight :: "System \<Rightarrow> nat" where
  "system_weight s = reader_weight (reader s) + sum_list (map event_weight (channel s)) +
     sum_list (map worker_weight (workers (scheduler s))) + (if finished s = None then 1 else 0)"

text \<open>A message spawns at most one worker.\<close>

lemma schedule_spawned:
  "fst (schedule srv rid work sch) = Scheduled \<Longrightarrow>
     \<exists>w. snd (snd (schedule srv rid work sch)) = spawn w sch \<and> phase w = Queued work"
  by (auto simp: schedule_def split: prod.splits option.splits)

lemma complete_workers: "workers (fst (snd (complete srv c sch out))) = workers sch"
  by (simp add: complete_def Let_def split: prod.split)

lemma message_workers:
  assumes "message_effect m x x'"
  shows "sum_list (map worker_weight (workers (scheduler x'))) \<le> 3 + sum_list (map worker_weight (workers (scheduler x)))"
  using assms unfolding message_effect_def
proof (elim conjE disjE)
  assume "effect_schedule (request_work (server x) m) x x'"
  then obtain rid work where "schedule (server x) rid work (scheduler x) = (Scheduled, server x', scheduler x')"
    by (auto simp: effect_schedule_def)
  with schedule_spawned [of "server x" rid work "scheduler x"]
  obtain w where "scheduler x' = spawn w (scheduler x)" "phase w = Queued work" by auto
  then show ?thesis by (simp add: spawn_def worker_weight_def)
qed (auto simp: effect_quiet_def effect_reply_def)

definition live_inv :: "analysis \<Rightarrow> System \<Rightarrow> bool" where
  "live_inv an s \<longleftrightarrow> reader_ok s \<and>
     (\<exists>trace. sys_inv an trace s \<and> length trace + inputs (channel s) + frame_count (remaining (reader s)) < 2 ^ 64)"

text \<open>One event: its effect on the reader, the weight and the messages to come.\<close>

lemma on_event_message:
  fixes an :: analysis
  assumes ok: "reader_ok s" and ch: "channel s = Input m # rest" and f: "filed (store (server s))" and fin: "finished s = None"
  defines "s' \<equiv> on_event an (Input m) (s\<lparr>channel := rest\<rparr>)"
  shows "reader_ok s' \<and> system_weight s' < system_weight s \<and>
    inputs (channel s') + frame_count (remaining (reader s')) < inputs (channel s) + frame_count (remaining (reader s))"
proof -
  from ok ch obtain fs where r: "reader s = Waiting fs" "well_framed fs" "inputs rest = 0"
    by (cases "reader s") (auto simp: reader_ok_def)
  from ok ch have ch': "\<forall>e. InputError e \<notin> set rest" by (simp add: reader_ok_def)
  obtain e x where h: "handle an m (session_of (s\<lparr>channel := rest\<rparr>)) = (e, x)" by fastforce
  have "message_effect m (session_of (s\<lparr>channel := rest\<rparr>)) x" by (rule handle_effect [OF _ h]) (simp add: f)
  from message_workers [OF this]
  have w: "sum_list (map worker_weight (workers (scheduler x))) \<le> 3 + sum_list (map worker_weight (workers (scheduler s)))"
    by simp
  show ?thesis
  proof (cases "terminal s")
    case (Some t)
    then have "s' = acknowledge Stop (s\<lparr>channel := rest\<rparr>)" by (simp add: s'_def on_event_def)
    with r ch ch' fin Some show ?thesis by (simp add: reader_ok_def system_weight_def acknowledge_def)
  next
    case None
    show ?thesis
    proof (cases e)
      case (Some t)
      with None h have "s' = (acknowledge Stop (with_session x (s\<lparr>channel := rest\<rparr>)))\<lparr>terminal := Some t\<rparr>"
        by (simp add: s'_def on_event_def)
      with r ch ch' fin w show ?thesis
        by (simp add: reader_ok_def system_weight_def acknowledge_def with_session_def)
    next
      case none: None
      with None h have "s' = acknowledge Continue (with_session x (s\<lparr>channel := rest\<rparr>))"
        by (simp add: s'_def on_event_def)
      with r ch ch' fin w show ?thesis
        by (simp add: reader_ok_def system_weight_def acknowledge_def with_session_def)
    qed
  qed
qed

lemma on_event_other:
  fixes an :: analysis
  assumes ok: "reader_ok s" and ch: "channel s = ev # rest" "\<forall>m. ev \<noteq> Input m" and fin: "finished s = None"
  defines "s' \<equiv> on_event an ev (s\<lparr>channel := rest\<rparr>)"
  shows "reader_ok s' \<and> system_weight s' < system_weight s \<and>
    inputs (channel s') + frame_count (remaining (reader s')) \<le> inputs (channel s) + frame_count (remaining (reader s))"
proof (cases ev)
  case EndOfInput
  with ok ch fin show ?thesis
    by (auto simp: s'_def on_event_def reader_ok_def system_weight_def split: option.split)
next
  case (Completed c)
  obtain srv sch out where "complete (server s) c (scheduler s) (writer s) = (srv, sch, out)" "workers sch = workers (scheduler s)"
    using complete_workers [of "server s" c "scheduler s" "writer s"]
    by (cases "complete (server s) c (scheduler s) (writer s)") auto
  with Completed ok ch fin show ?thesis
    by (auto simp: s'_def on_event_def reader_ok_def system_weight_def)
qed (use ok ch in \<open>auto simp: reader_ok_def\<close>)


lemma live_step:
  assumes step: "sys_step an s d s'" and live: "live_inv an s"
  shows "live_inv an s' \<and> system_weight s' < system_weight s"
proof -
  from live obtain trace where ok: "reader_ok s" and inv: "sys_inv an trace s"
    and len: "length trace + inputs (channel s) + frame_count (remaining (reader s)) < 2 ^ 64"
    by (auto simp: live_inv_def)
  have "reader_ok s' \<and> system_weight s' < system_weight s \<and>
     length (dispatched_list d) + inputs (channel s') + frame_count (remaining (reader s'))
       \<le> inputs (channel s) + frame_count (remaining (reader s))"
    using step
  proof cases
    case (read input)
    then show ?thesis using ok
      by (cases input) (auto simp: read_event_def reader_ok_def system_weight_def)
  next
    case (run ws w ws' work out)
    then show ?thesis using ok by (auto simp: reader_ok_def system_weight_def worker_weight_def)
  next
    case (send ws w ws' out)
    then show ?thesis using ok by (auto simp: reader_ok_def system_weight_def worker_weight_def)
  next
    case (return e)
    then show ?thesis using ok by (auto simp: reader_ok_def system_weight_def)
  next
    case (receive ev rest)
    show ?thesis
    proof (cases "\<exists>m. ev = Input m")
      case True
      then obtain m where "ev = Input m" by blast
      with on_event_message [OF ok _ _ receive(2), of m rest an] receive inv show ?thesis
        by (auto simp: sys_inv_def)
    next
      case False
      with on_event_other [OF ok receive(4) _ receive(2), of an] receive show ?thesis
        by (cases ev) auto
    qed
  qed
  moreover from this len have l: "length (trace @ dispatched_list d) + inputs (channel s') + frame_count (remaining (reader s')) < 2 ^ 64"
    by simp
  moreover from l have "sys_inv an (trace @ dispatched_list d) s'"
    using sys_step_ok [OF step inv] by (simp add: step_ok_def)
  ultimately show ?thesis unfolding live_inv_def by blast
qed

text \<open>While the event loop has not returned, some thread can move.\<close>

lemma live_progress:
  assumes live: "live_inv an s" and fin: "finished s = None"
  shows "\<exists>d s'. sys_step an s d s'"
proof (cases "channel s = [] \<and> (\<exists>e. terminal s = Some e) \<and> \<not> is_idle (scheduler s)")
  case True
  from live obtain trace where "sys_inv an trace s" by (auto simp: live_inv_def)
  with True have "workers (scheduler s) \<noteq> []" by (auto simp: sys_inv_def is_idle_def jobs_def)
  then obtain w ws where w: "workers (scheduler s) = [] @ w # ws" by (cases "workers (scheduler s)") auto
  show ?thesis
  proof (cases "phase w")
    case (Queued work)
    have "work_outcomes an (cancellation (server s)) (worker_token w) work \<noteq> []" by (simp add: work_outcomes_def)
    then obtain out where "out \<in> set (work_outcomes an (cancellation (server s)) (worker_token w) work)"
      by (metis list.set_intros(1) neq_Nil_conv)
    from sys_step.run [OF fin w Queued this] show ?thesis by blast
  next
    case (Executed out)
    from sys_step.send [OF fin w Executed] show ?thesis by blast
  qed
next
  case False
  show ?thesis
  proof (cases "channel s")
    case Nil
    with False consider e where "terminal s = Some e" "is_idle (scheduler s)" | "terminal s = None" by auto
    then show ?thesis
    proof cases
      case 1
      from sys_step.return [OF fin 1] show ?thesis by blast
    next
      case 2
      with live Nil obtain f where "reader s = Reading f" by (cases "reader s") (auto simp: live_inv_def reader_ok_def)
      from sys_step.read [OF fin this] show ?thesis by blast
    qed
  next
    case (Cons ev rest)
    show ?thesis
    proof (cases "terminal s = None \<or> \<not> is_idle (scheduler s)")
      case True
      from sys_step.receive [OF fin True Cons refl] show ?thesis by blast
    next
      case False
      then obtain e where "terminal s = Some e" "is_idle (scheduler s)" by auto
      from sys_step.return [OF fin this] show ?thesis by blast
    qed
  qed
qed

lemma live_inevitable: "live_inv an s \<Longrightarrow> inevitable an (\<lambda>s. \<exists>e. finished s = Some (Inr e)) s"
proof (induction "system_weight s" arbitrary: s rule: less_induct)
  case less
  show ?case
  proof (cases "finished s")
    case None
    from live_progress [OF less.prems None] obtain d s' where "sys_step an s d s'" by blast
    then show ?thesis using less live_step by (blast intro: inevitable.later)
  next
    case (Some r)
    with less.prems obtain e where "finished s = Some (Inr e)" by (cases r) (auto simp: live_inv_def reader_ok_def)
    then show ?thesis by (blast intro: inevitable.now)
  qed
qed

text \<open>C22: every session ends. On a finite input whose frames can all be read, the event loop returns an exit
  status whatever the threads do and in whatever order: no interleaving deadlocks, loses the end of the
  input or runs forever, and requests still in flight when the client leaves are drained first.
\<close>

theorem session_terminates:
  assumes "well_framed input" "frame_count input < 2 ^ 64"
  shows "inevitable an (\<lambda>s. \<exists>e. finished s = Some (Inr e)) (serve_start input)"
proof (rule live_inevitable)
  have "reader_ok (serve_start input)" using assms(1) by (simp add: reader_ok_def serve_start_def)
  with sys_inv_start [of an input] assms(2) show "live_inv an (serve_start input)"
    unfolding live_inv_def by (intro conjI exI [of _ "[]"]) (simp_all add: serve_start_def)
qed

end
