(* ===== verification/LspScenarios.thy ===== *)
theory LspScenarios
  imports LspSessions
begin

text \<open>
  An executable scheduler for the coordinator and concrete sessions: a client initializes the server,
  asks for a hover, cancels it, and leaves.
\<close>

section \<open>Driving a session\<close>

datatype Move = MoveRead | MoveRun | MoveSend | MoveReturn | MoveReceive

text \<open>The moves of the first worker; the coordinator and the reader have one move each.\<close>

definition apply_move :: "analysis \<Rightarrow> Move \<Rightarrow> System \<Rightarrow> (Value option \<times> System) option" where
  "apply_move an mv s =
     (if finished s \<noteq> None then None
      else case mv of
        MoveRead \<Rightarrow> (case reader s of Reading input \<Rightarrow> Some (None, read_event input s) | _ \<Rightarrow> None)
      | MoveRun \<Rightarrow>
          (case workers (scheduler s) of
             w # ws \<Rightarrow>
               (case phase w of
                  Queued work \<Rightarrow>
                    Some (None, s\<lparr>scheduler := (scheduler s)\<lparr>workers := w\<lparr>phase := Executed
                      (hd (work_outcomes an (cancellation (server s)) (worker_token w) work))\<rparr> # ws\<rparr>\<rparr>)
                | _ \<Rightarrow> None)
           | [] \<Rightarrow> None)
      | MoveSend \<Rightarrow>
          (case workers (scheduler s) of
             w # ws \<Rightarrow>
               (case phase w of
                  Executed out \<Rightarrow>
                    Some (None, s\<lparr>scheduler := (scheduler s)\<lparr>workers := ws\<rparr>,
                                 channel := channel s @ [Completed (completed_of w out)]\<rparr>)
                | _ \<Rightarrow> None)
           | [] \<Rightarrow> None)
      | MoveReturn \<Rightarrow>
          (case terminal s of
             Some e \<Rightarrow> if is_idle (scheduler s) then Some (None, s\<lparr>finished := Some (Inr e)\<rparr>) else None
           | None \<Rightarrow> None)
      | MoveReceive \<Rightarrow>
          (case channel s of
             ev # rest \<Rightarrow>
               if terminal s = None \<or> \<not> is_idle (scheduler s)
               then Some (case ev of Input message \<Rightarrow> if terminal s = None then Some message else None | _ \<Rightarrow> None,
                          on_event an ev (s\<lparr>channel := rest\<rparr>))
               else None
           | [] \<Rightarrow> None))"

fun drive :: "analysis \<Rightarrow> Move list \<Rightarrow> System \<Rightarrow> (Value list \<times> System) option" where
  "drive an [] s = Some ([], s)"
| "drive an (mv # mvs) s =
     (case apply_move an mv s of
        None \<Rightarrow> None
      | Some (d, s') \<Rightarrow>
          (case drive an mvs s' of None \<Rightarrow> None | Some (trace, s'') \<Rightarrow> Some (dispatched_list d @ trace, s'')))"

lemma apply_move_step: "apply_move an mv s = Some (d, s') \<Longrightarrow> sys_step an s d s'"
proof (cases mv)
  case MoveRun
  assume "apply_move an mv s = Some (d, s')"
  with MoveRun obtain w ws work where "finished s = None" "workers (scheduler s) = [] @ w # ws" "phase w = Queued work"
    "d = None" and s': "s' = s\<lparr>scheduler := (scheduler s)\<lparr>workers := [] @ w\<lparr>phase := Executed
       (hd (work_outcomes an (cancellation (server s)) (worker_token w) work))\<rparr> # ws\<rparr>\<rparr>"
    by (auto simp: apply_move_def split: if_splits list.splits Phase.splits)
  moreover have "hd (work_outcomes an (cancellation (server s)) (worker_token w) work)
      \<in> set (work_outcomes an (cancellation (server s)) (worker_token w) work)"
    by (simp add: work_outcomes_def)
  ultimately show ?thesis using sys_step.run by blast
next
  case MoveSend
  assume "apply_move an mv s = Some (d, s')"
  with MoveSend obtain w ws out where "finished s = None" "workers (scheduler s) = [] @ w # ws" "phase w = Executed out"
    "d = None" and s': "s' = s\<lparr>scheduler := (scheduler s)\<lparr>workers := [] @ ws\<rparr>,
       channel := channel s @ [Completed (completed_of w out)]\<rparr>"
    by (auto simp: apply_move_def split: if_splits list.splits Phase.splits)
  then show ?thesis using sys_step.send by blast
qed (auto simp: apply_move_def split: if_splits Reader.splits option.splits list.splits
       intro: sys_step.read sys_step.return sys_step.receive)

lemma sys_run_append: "sys_run an s' trace' s'' \<Longrightarrow> sys_run an s trace s' \<Longrightarrow> sys_run an s (trace @ trace') s''"
proof (induction rule: sys_run.induct)
  case (sys_run_step s0 tr s1 d s2)
  from sys_run.sys_run_step [OF sys_run_step.IH [OF sys_run_step.prems] sys_run_step.hyps(2)] show ?case by simp
qed simp

lemma drive_run: "drive an mvs s = Some (trace, s') \<Longrightarrow> sys_run an s trace s'"
proof (induction mvs arbitrary: s trace)
  case Nil
  then show ?case by (simp add: sys_run_refl)
next
  case (Cons mv mvs)
  then obtain d s1 where a: "apply_move an mv s = Some (d, s1)" by (cases "apply_move an mv s") auto
  with Cons.prems obtain tr where "drive an mvs s1 = Some (tr, s')" "trace = dispatched_list d @ tr"
    by (cases "drive an mvs s1") auto
  with Cons.IH a sys_run_append [of an s1 tr s' s "dispatched_list d"] sys_run_step [OF sys_run_refl apply_move_step]
  show ?case by fastforce
qed


section \<open>Example sessions\<close>

lemma saturating_add_code [code]:
  "saturating_add a b = (let n = a + b in if int n < 18446744073709551615 then n else nat 18446744073709551615)"
  by (simp add: saturating_add_def usize_max_def Let_def min_def)

lemma u32_of_code [code]:
  "u32_of v = (case as_u64 v of None \<Rightarrow> None | Some n \<Rightarrow> if int n \<le> 4294967295 then Some n else None)"
  by (simp add: u32_of_def u32_max_def split: option.split)

definition sample_analysis :: analysis where
  "sample_analysis = \<lparr>hover_of = \<lambda>_ uri _. Some (String uri), definition_of = \<lambda>_ _ _. Null,
     code_actions_of = \<lambda>_ _. None, diagnostics_of = \<lambda>_. []\<rparr>"

definition m_initialize :: Value where
  "m_initialize = Object [(''id'', Number (PosInt 1)), (''method'', String ''initialize'')]"

definition m_hover :: Value where
  "m_hover = Object [(''id'', Number (PosInt 2)), (''method'', String ''textDocument/hover''),
     (''params'', Object
        [(''position'', Object [(''character'', Number (PosInt 0)), (''line'', Number (PosInt 0))]),
         (''textDocument'', Object [(''uri'', String ''u'')])])]"

definition m_cancel :: Value where
  "m_cancel = Object [(''method'', String ''$/cancelRequest''), (''params'', Object [(''id'', Number (PosInt 2))])]"

definition sample_input :: Frames where
  "sample_input = Frame m_initialize (Frame m_hover (Frame m_cancel EndOfStream))"

text \<open>Until the hover runs and its completion is in the channel, or until just before the cancellation.\<close>

definition hover_moves :: "Move list" where
  "hover_moves = [MoveRead, MoveReceive, MoveRead, MoveReceive, MoveRun, MoveSend]"

definition before_cancel :: "Move list" where
  "before_cancel = [MoveRead, MoveReceive, MoveRead, MoveReceive, MoveRead]"

definition all_moves :: "Move list" where
  "all_moves = before_cancel @ [MoveReceive, MoveRun, MoveRead, MoveSend, MoveReceive, MoveReceive, MoveReturn]"

definition run_of :: "Move list \<Rightarrow> Value list \<times> System" where
  "run_of mvs = the (drive sample_analysis mvs (serve_start sample_input))"

lemma run_of_ok:
  "drive sample_analysis hover_moves (serve_start sample_input) = Some (run_of hover_moves)"
  "drive sample_analysis before_cancel (serve_start sample_input) = Some (run_of before_cancel)"
  "drive sample_analysis all_moves (serve_start sample_input) = Some (run_of all_moves)"
proof -
  have "drive sample_analysis hover_moves (serve_start sample_input) \<noteq> None" by code_simp
  then show "drive sample_analysis hover_moves (serve_start sample_input) = Some (run_of hover_moves)"
    by (auto simp: run_of_def)
  have "drive sample_analysis before_cancel (serve_start sample_input) \<noteq> None" by code_simp
  then show "drive sample_analysis before_cancel (serve_start sample_input) = Some (run_of before_cancel)"
    by (auto simp: run_of_def)
  have "drive sample_analysis all_moves (serve_start sample_input) \<noteq> None" by code_simp
  then show "drive sample_analysis all_moves (serve_start sample_input) = Some (run_of all_moves)"
    by (auto simp: run_of_def)
qed

lemma sample_runs: "drive an mvs s = Some r \<Longrightarrow> sys_run an s (fst r) (snd r)"
  by (rule drive_run) simp

lemma all_moves_facts:
  "fst (run_of all_moves) = [m_initialize, m_hover, m_cancel]"
  "finished (snd (run_of all_moves)) = Some (Inr Unclean)"
  "list_all well_formed [m_initialize, m_hover, m_cancel]"
  by code_simp+

text \<open>Witness: the whole session; the hover has its one response when the server has returned.\<close>

theorem requests_answered_once_witness:
  "requests (fst (run_of all_moves)) (Number (PosInt 2)) = responses (writer (snd (run_of all_moves))) (Number (PosInt 2))"
  using requests_answered_once [OF sample_runs [OF run_of_ok(3)], of "Number (PosInt 2)" Unclean] all_moves_facts
  by (simp add: list_all_iff)

lemma hover_moves_facts:
  "length (fst (run_of hover_moves)) = 2"
  "(case channel (snd (run_of hover_moves)) of Completed c # rest \<Rightarrow> True | _ \<Rightarrow> False)"
  by code_simp+

text \<open>Witness: the hover has run and its completion is next.\<close>

theorem committed_answer_current_witness:
  "\<exists>c rest f. channel (snd (run_of hover_moves)) = Completed c # rest \<and>
     writer (on_event sample_analysis (Completed c) ((snd (run_of hover_moves))\<lparr>channel := rest\<rparr>)) =
       writer (snd (run_of hover_moves)) @ [f]"
proof -
  from hover_moves_facts(2) obtain c rest where "channel (snd (run_of hover_moves)) = Completed c # rest"
    by (auto split: list.splits ServerEvent.splits)
  with committed_answer_current [OF sample_runs [OF run_of_ok(1)] _ this] hover_moves_facts(1) show ?thesis by auto
qed

text \<open>Witness: the cancellation arrives while the hover is queued; the worker notices it.\<close>

definition cancel_state :: System where
  "cancel_state = snd (the (apply_move sample_analysis MoveReceive (snd (run_of before_cancel))))"

definition cancelled_run :: "Value list \<times> System" where
  "cancelled_run = the (drive sample_analysis [MoveRun, MoveSend] cancel_state)"

lemma cancel_facts:
  "length (fst (run_of before_cancel)) = 2" "lifecycle (server (snd (run_of before_cancel))) = Running"
  "(Number (PosInt 2), Some (NumberId 2), Some 0) \<in> set (jobs (snd (run_of before_cancel)))"
  "map_option fst (apply_move sample_analysis MoveReceive (snd (run_of before_cancel))) = Some (Some m_cancel)"
  "message_method m_cancel = Some ''$/cancelRequest''" "cancel_target (value_get m_cancel ''params'') = Some (NumberId 2)"
  "drive sample_analysis [MoveRun, MoveSend] cancel_state \<noteq> None" "length (fst cancelled_run) = 0"
  "(case channel (snd cancelled_run) of Completed c # rest \<Rightarrow> token c = Some 0 | _ \<Rightarrow> False)"
  by code_simp+

theorem cancelled_request_gets_no_result_witness:
  "\<exists>c rest. channel (snd cancelled_run) = Completed c # rest \<and>
     writer (on_event sample_analysis (Completed c) ((snd cancelled_run)\<lparr>channel := rest\<rparr>)) =
       writer (snd cancelled_run) @ [error_frame (response_id c) REQUEST_CANCELLED_CODE ''request cancelled'']"
proof -
  from cancel_facts(9) obtain c rest where c: "channel (snd cancelled_run) = Completed c # rest" "token c = Some 0"
    by (auto split: list.splits ServerEvent.splits)
  have step: "sys_step sample_analysis (snd (run_of before_cancel)) (Some m_cancel) cancel_state"
    using cancel_facts(4) by (intro apply_move_step) (auto simp: cancel_state_def)
  have "drive sample_analysis [MoveRun, MoveSend] cancel_state = Some (fst cancelled_run, snd cancelled_run)"
    using cancel_facts(7) by (auto simp: cancelled_run_def)
  from cancelled_request_gets_no_result [OF sample_runs [OF run_of_ok(2)] cancel_facts(3) step cancel_facts(2,5,6)
      drive_run [OF this] _ c] cancel_facts(1,8) c show ?thesis by auto
qed

text \<open>Witness: a cancellation after shutdown.\<close>

theorem notifications_dropped_after_shutdown_witness:
  "handle sample_analysis m_cancel
     \<lparr>server = server_new\<lparr>lifecycle := ShuttingDown\<rparr>, scheduler = scheduler_new, writer = []\<rparr> =
   (None, \<lparr>server = server_new\<lparr>lifecycle := ShuttingDown\<rparr>, scheduler = scheduler_new, writer = []\<rparr>)"
  by (rule notifications_dropped_after_shutdown)
    (simp_all add: m_cancel_def answers_def message_method_def bt_get_def)

text \<open>Witness: the example input.\<close>

theorem session_terminates_witness:
  "inevitable sample_analysis (\<lambda>s. \<exists>e. finished s = Some (Inr e)) (serve_start sample_input)"
  by (rule session_terminates) (simp_all add: sample_input_def)

end
