(* ===== verification/Decimals.thy ===== *)
theory Decimals
  imports Prelude "HOL-Library.Char_ord"
begin

text \<open>
  Decimal numerals: \<^verbatim>\<open>Display for usize\<close> and the value of a string of digits, with the fact that printing
  is injective and what it can contain.
\<close>

abbreviation byte_of :: "char \<Rightarrow> nat" where
  "byte_of c \<equiv> of_char c"

definition in_byte :: "nat \<Rightarrow> nat \<Rightarrow> char \<Rightarrow> bool" where
  "in_byte lo hi c \<longleftrightarrow> lo \<le> byte_of c \<and> byte_of c \<le> hi"

definition is_digit :: "char \<Rightarrow> bool" where
  "is_digit c \<longleftrightarrow> in_byte 48 57 c"

definition digits_value :: "string \<Rightarrow> nat" where
  "digits_value s = foldl (\<lambda>n c. 10 * n + (byte_of c - 48)) 0 s"

fun show_usize :: "nat \<Rightarrow> string" where
  "show_usize n = (if n < 10 then [char_of (48 + n)] else show_usize (n div 10) @ [char_of (48 + n mod 10)])"

declare show_usize.simps [simp del]

lemma show_usize_digits:
  "show_usize n \<noteq> [] \<and> list_all is_digit (show_usize n) \<and> digits_value (show_usize n) = n"
proof (induction n rule: show_usize.induct)
  case (1 n)
  then show ?case
    by (cases "n < 10") (auto simp: show_usize.simps [of n] digits_value_def is_digit_def in_byte_def)
qed

lemma show_usize_length: "n < 10 ^ Suc k \<Longrightarrow> length (show_usize n) \<le> Suc k"
proof (induction k arbitrary: n)
  case 0
  then show ?case by (simp add: show_usize.simps)
next
  case (Suc k)
  have "n div 10 < 10 ^ Suc k" using Suc.prems by (simp add: less_mult_imp_div_less)
  with Suc.IH show ?case by (simp add: show_usize.simps [of n])
qed


lemma show_usize_inj: "show_usize m = show_usize n \<longleftrightarrow> m = n"
  by (metis show_usize_digits)

lemma show_usize_not: "\<not> list_all is_digit s \<Longrightarrow> show_usize n \<noteq> s"
  using show_usize_digits [of n] by auto

end
