(* ===== verification/LspFrame.thy ===== *)
theory LspFrame
  imports LspServer Decimals
begin

text \<open>
  The transport of the language server (\<^verbatim>\<open>crates/pure-analyzer-lsp/src/frame.rs\<close>): a frame is a block of
  header lines with a content length and a body of that many bytes. Streams are their bytes; the JSON
  reader and writer (\<^verbatim>\<open>serde_json::from_slice\<close> and \<^verbatim>\<open>to_vec\<close>) are the parameters \<open>from_slice\<close> and
  \<open>to_vec\<close>. Of the standard library the model has UTF-8 validation, \<^verbatim>\<open>str::trim\<close> with the white space of
  Unicode, and the parsing and printing of \<^verbatim>\<open>usize\<close>.
\<close>

section \<open>Strings of the standard library\<close>

text \<open>The length of the well-formed UTF-8 sequence a string starts with (0 if there is none).\<close>

definition utf8_width :: "string \<Rightarrow> nat" where
  "utf8_width s =
     (case s of
        [] \<Rightarrow> 0
      | a # t \<Rightarrow>
          if in_byte 0 127 a then 1
          else case t of
            [] \<Rightarrow> 0
          | b # u \<Rightarrow>
              if in_byte 194 223 a \<and> in_byte 128 191 b then 2
              else case u of
                [] \<Rightarrow> 0
              | c # v \<Rightarrow>
                  if in_byte 128 191 c \<and>
                     (in_byte 224 224 a \<and> in_byte 160 191 b \<or> in_byte 225 236 a \<and> in_byte 128 191 b \<or>
                      in_byte 237 237 a \<and> in_byte 128 159 b \<or> in_byte 238 239 a \<and> in_byte 128 191 b) then 3
                  else case v of
                    [] \<Rightarrow> 0
                  | d # _ \<Rightarrow>
                      if in_byte 128 191 c \<and> in_byte 128 191 d \<and>
                         (in_byte 240 240 a \<and> in_byte 144 191 b \<or> in_byte 241 243 a \<and> in_byte 128 191 b \<or>
                          in_byte 244 244 a \<and> in_byte 128 143 b) then 4
                      else 0)"

text \<open>\<^verbatim>\<open>std::str::from_utf8\<close>, as the list of the encoded characters.\<close>

function from_utf8 :: "string \<Rightarrow> string list option" where
  "from_utf8 s =
     (if s = [] then Some []
      else if utf8_width s = 0 then None
      else map_option (Cons (take (utf8_width s) s)) (from_utf8 (drop (utf8_width s) s)))"
  by pat_completeness auto
termination by (relation "measure length") auto

declare from_utf8.simps [simp del]

text \<open>\<^verbatim>\<open>char::is_whitespace\<close> on an encoded character.\<close>

definition is_whitespace :: "string \<Rightarrow> bool" where
  "is_whitespace c \<longleftrightarrow>
     map byte_of c \<in> set ([[9], [10], [11], [12], [13], [32], [194, 133], [194, 160], [225, 154, 128],
        [226, 128, 168], [226, 128, 169], [226, 128, 175], [226, 129, 159], [227, 128, 128]] @
        map (\<lambda>i. [226, 128, i]) [128 ..< 139])"

definition str_trim :: "string list \<Rightarrow> string list" where
  "str_trim s = rev (dropWhile is_whitespace (rev (dropWhile is_whitespace s)))"

definition to_ascii_lowercase :: "char \<Rightarrow> char" where
  "to_ascii_lowercase c = (if in_byte 65 90 c then char_of (byte_of c + 32) else c)"

definition eq_ignore_ascii_case :: "string \<Rightarrow> string \<Rightarrow> bool" where
  "eq_ignore_ascii_case a b \<longleftrightarrow> map to_ascii_lowercase a = map to_ascii_lowercase b"

text \<open>\<^verbatim>\<open>usize::from_str\<close>: digits after an optional plus sign, checked against overflow.\<close>

definition parse_usize :: "string \<Rightarrow> nat option" where
  "parse_usize s =
     (let ds = (case s of c # t \<Rightarrow> if c = CHR ''+'' then t else s | [] \<Rightarrow> [])
      in if ds \<noteq> [] \<and> list_all is_digit ds \<and> digits_value ds \<le> usize_max then Some (digits_value ds) else None)"

section \<open>Reading and writing frames\<close>

definition MAX_CONTENT_LENGTH_BYTES :: nat where "MAX_CONTENT_LENGTH_BYTES = 64 * 1024 * 1024"
definition MAX_HEADER_LINE_BYTES :: nat where "MAX_HEADER_LINE_BYTES = 8 * 1024"

datatype IoError = InvalidData string | UnexpectedEof

definition carriage_return :: char where "carriage_return = CHR 0x0D"

definition crlf :: string where "crlf = [carriage_return, newline]"

text \<open>\<^verbatim>\<open>read_until(b'\n')\<close> on the first \<open>n\<close> bytes: the line with its newline, and the rest.\<close>

fun read_until :: "nat \<Rightarrow> string \<Rightarrow> string \<times> string" where
  "read_until 0 s = ([], s)"
| "read_until n [] = ([], [])"
| "read_until (Suc n) (c # s) =
     (if c = newline then ([c], s) else case read_until n s of (line, rest) \<Rightarrow> (c # line, rest))"

definition ends_with :: "string \<Rightarrow> char \<Rightarrow> bool" where
  "ends_with s c \<longleftrightarrow> s \<noteq> [] \<and> last s = c"

definition strip_suffix :: "char \<Rightarrow> string \<Rightarrow> string option" where
  "strip_suffix c s = (if ends_with s c then Some (butlast s) else None)"

definition read_header_line :: "string \<Rightarrow> (IoError + string) \<times> string" where
  "read_header_line input =
     (case read_until MAX_HEADER_LINE_BYTES input of
        (line, rest) \<Rightarrow>
          if length line = MAX_HEADER_LINE_BYTES \<and> \<not> ends_with line newline
          then (Inl (InvalidData ''LSP header line exceeds maximum length''), rest)
          else (Inr line, rest))"

definition content_length_value :: "string \<Rightarrow> IoError + nat" where
  "content_length_value value =
     (case parse_usize value of
        None \<Rightarrow> Inl (InvalidData ''invalid Content-Length'')
      | Some n \<Rightarrow>
          if n > MAX_CONTENT_LENGTH_BYTES then Inl (InvalidData ''Content-Length exceeds maximum frame size'')
          else Inr n)"

definition unwrap_or :: "'a option \<Rightarrow> 'a \<Rightarrow> 'a" where
  "unwrap_or x d = (case x of Some v \<Rightarrow> v | None \<Rightarrow> d)"

definition trim_line :: "string \<Rightarrow> string" where
  "trim_line line = unwrap_or (strip_suffix carriage_return (unwrap_or (strip_suffix newline line) line)) line"

text \<open>\<^verbatim>\<open>split_once(':')\<close>\<close>

definition split_colon :: "string list \<Rightarrow> (string list \<times> string list) option" where
  "split_colon s =
     (case dropWhile (\<lambda>c. c \<noteq> '':'') s of
        [] \<Rightarrow> None
      | _ # value \<Rightarrow> Some (takeWhile (\<lambda>c. c \<noteq> '':'') s, value))"

definition header_parts :: "string \<Rightarrow> (string \<times> string) option" where
  "header_parts line =
     Option.bind (from_utf8 line) (\<lambda>chars.
     Option.bind (split_colon chars) (\<lambda>(name, value).
       Some (concat (str_trim name), concat (str_trim value))))"

lemma read_until_rest: "read_until n s = (line, rest) \<Longrightarrow> s = line @ rest"
  by (induction n s arbitrary: line rest rule: read_until.induct) (auto split: if_splits prod.splits)

lemma read_header_line_rest: "read_header_line input = (Inr line, rest) \<Longrightarrow> input = line @ rest"
  by (auto simp: read_header_line_def dest: read_until_rest split: prod.splits if_splits)

text \<open>The header loop, with the content length seen so far.\<close>

function read_headers :: "nat option \<Rightarrow> bool \<Rightarrow> string \<Rightarrow> (IoError + nat option option) \<times> string" where
  "read_headers content_length saw_header input =
     (case read_header_line input of
        (Inl e, rest) \<Rightarrow> (Inl e, rest)
      | (Inr line, rest) \<Rightarrow>
          if line = [] then
            (if saw_header then Inl (InvalidData ''unexpected end of LSP headers'') else Inr None, rest)
          else if trim_line line = [] then (Inr (Some content_length), rest)
          else case header_parts (trim_line line) of
            None \<Rightarrow> (Inl (InvalidData ''malformed LSP header''), rest)
          | Some (name, value) \<Rightarrow>
              if eq_ignore_ascii_case name ''content-length'' then
                (case content_length_value value of
                   Inl e \<Rightarrow> (Inl e, rest)
                 | Inr n \<Rightarrow> read_headers (Some n) True rest)
              else read_headers content_length True rest)"
  by pat_completeness auto
termination
  by (relation "measure (\<lambda>(_, _, input). length input)")
    (auto dest!: arg_cong [where f = length] read_header_line_rest [OF sym])

declare read_headers.simps [simp del]

definition read_frame :: "(string \<Rightarrow> string + Value) \<Rightarrow> string \<Rightarrow> (IoError + Value option) \<times> string" where
  "read_frame from_slice input =
     (case read_headers None False input of
        (Inl e, rest) \<Rightarrow> (Inl e, rest)
      | (Inr None, rest) \<Rightarrow> (Inr None, rest)
      | (Inr (Some None), rest) \<Rightarrow> (Inl (InvalidData ''missing Content-Length''), rest)
      | (Inr (Some (Some n)), rest) \<Rightarrow>
          if length rest < n then (Inl UnexpectedEof, [])
          else (case from_slice (take n rest) of
                  Inl e \<Rightarrow> Inl (InvalidData (''invalid JSON-RPC payload: '' @ e))
                | Inr v \<Rightarrow> Inr (Some v),
                drop n rest))"

definition write_frame :: "(Value \<Rightarrow> string) \<Rightarrow> Value \<Rightarrow> string" where
  "write_frame to_vec value =
     ''Content-Length: '' @ show_usize (length (to_vec value)) @ crlf @ crlf @ to_vec value"


lemma read_headers_rest:
  "read_headers cl saw input = (Inr (Some x), rest) \<Longrightarrow> length rest < length input"
proof (induction cl saw input rule: read_headers.induct)
  case (1 cl saw input)
  obtain r rest1 where l: "read_header_line input = (r, rest1)" by fastforce
  from 1(3) l obtain line where r: "r = Inr line" "line \<noteq> []"
    by (cases r) (auto simp: read_headers.simps [of cl saw input] split: if_splits)
  from read_header_line_rest l r have len: "length rest1 < length input" by fastforce
  show ?case
  proof (cases "trim_line line = []")
    case True
    with 1(3) l r len show ?thesis by (simp add: read_headers.simps [of cl saw input])
  next
    case False
    with 1(3) l r obtain name hval where h: "header_parts (trim_line line) = Some (name, hval)"
      by (auto simp: read_headers.simps [of cl saw input] split: option.splits)
    show ?thesis
    proof (cases "eq_ignore_ascii_case name ''content-length''")
      case True
      with 1(3) l r h False obtain n where n: "content_length_value hval = Inr n"
        "read_headers (Some n) True rest1 = (Inr (Some x), rest)"
        by (auto simp: read_headers.simps [of cl saw input] split: sum.splits)
      from 1(1) [OF l [unfolded r(1), symmetric] refl r(2) False h refl True n] len show ?thesis by simp
    next
      case other: False
      with 1(3) l r h False have "read_headers cl True rest1 = (Inr (Some x), rest)"
        by (simp add: read_headers.simps [of cl saw input])
      from 1(2) [OF l [unfolded r(1), symmetric] refl r(2) False h refl other this] len show ?thesis by simp
    qed
  qed
qed

lemma read_frame_rest: "read_frame from_slice input = (Inr (Some v), rest) \<Longrightarrow> length rest < length input"
  by (auto simp: read_frame_def dest!: read_headers_rest split: prod.splits sum.splits option.splits if_splits)

text \<open>The reader thread calls \<^verbatim>\<open>read_frame\<close> until the stream ends or cannot be read.\<close>

fun io_message :: "IoError \<Rightarrow> string" where
  "io_message (InvalidData msg) = msg"
| "io_message UnexpectedEof = ''failed to fill whole buffer''"

function frames_of :: "(string \<Rightarrow> string + Value) \<Rightarrow> string \<Rightarrow> Frames" where
  "frames_of from_slice input =
     (case read_frame from_slice input of
        (Inl e, _) \<Rightarrow> Broken (io_message e)
      | (Inr None, _) \<Rightarrow> EndOfStream
      | (Inr (Some v), rest) \<Rightarrow> Frame v (frames_of from_slice rest))"
  by pat_completeness auto
termination by (relation "measure (\<lambda>(_, input). length input)") (auto dest: read_frame_rest [OF sym])

declare frames_of.simps [simp del]


section \<open>Written frames are read back\<close>

lemma read_until_line:
  "newline \<notin> set l \<Longrightarrow> length l < n \<Longrightarrow> read_until n (l @ newline # rest) = (l @ [newline], rest)"
  by (induction n l rule: read_until.induct) (auto split: prod.split)

lemma utf8_width_ascii: "byte_of c < 128 \<Longrightarrow> utf8_width (c # s) = 1"
  by (simp add: utf8_width_def in_byte_def)

lemma from_utf8_ascii: "list_all (\<lambda>c. byte_of c < 128) s \<Longrightarrow> from_utf8 s = Some (map (\<lambda>c. [c]) s)"
  by (induction s) (simp_all add: from_utf8.simps [of "_ # _"] from_utf8.simps [of "[]"] utf8_width_ascii)

lemma trim_crlf: "trim_line (l @ crlf) = l"
  by (simp add: trim_line_def strip_suffix_def ends_with_def crlf_def unwrap_or_def butlast_append)

lemma read_header_line_crlf:
  assumes "newline \<notin> set l" "Suc (Suc (length l)) \<le> MAX_HEADER_LINE_BYTES"
  shows "read_header_line (l @ crlf @ rest) = (Inr (l @ crlf), rest)"
  using read_until_line [of "l @ [carriage_return]" MAX_HEADER_LINE_BYTES rest] assms
  by (simp add: read_header_line_def crlf_def ends_with_def carriage_return_def newline_def)


lemma digit_chars:
  "is_digit c \<Longrightarrow> byte_of c < 128 \<and> c \<noteq> newline \<and> c \<noteq> CHR '':'' \<and> c \<noteq> CHR ''+'' \<and> \<not> is_whitespace [c]"
  by (auto simp: is_digit_def in_byte_def newline_def is_whitespace_def)

lemma content_length_name: "eq_ignore_ascii_case ''Content-Length'' ''content-length''"
  by code_simp

lemma concat_singletons: "concat (map (\<lambda>c. [c]) s) = s"
  by (induction s) simp_all

lemma str_trim_digits:
  assumes "list_all is_digit ds"
  shows "str_trim ([CHR '' ''] # map (\<lambda>c. [c]) ds) = map (\<lambda>c. [c]) ds"
proof -
  have drop: "dropWhile is_whitespace (map (\<lambda>c. [c]) s) = map (\<lambda>c. [c]) s" if "list_all is_digit s" for s
    using that by (cases s) (auto dest: digit_chars)
  have "is_whitespace [CHR '' '']" by (simp add: is_whitespace_def)
  with drop [OF assms] drop [of "rev ds"] assms show ?thesis by (simp add: str_trim_def rev_map [symmetric])
qed

lemma content_length_header:
  assumes "list_all is_digit ds"
  shows "header_parts (''Content-Length: '' @ ds) = Some (''Content-Length'', ds)"
proof -
  have "list_all (\<lambda>c. byte_of c < 128) ds" using assms digit_chars by (auto simp: list_all_iff)
  then have u: "from_utf8 (''Content-Length: '' @ ds) = Some (map (\<lambda>c. [c]) (''Content-Length: '' @ ds))"
    by (intro from_utf8_ascii) simp
  have "concat (str_trim (map (\<lambda>c. [c]) ''Content-Length'')) = ''Content-Length''"
    by (simp add: str_trim_def is_whitespace_def)
  moreover have "split_colon (map (\<lambda>c. [c]) (''Content-Length: '' @ ds)) =
      Some (map (\<lambda>c. [c]) ''Content-Length'', [CHR '' ''] # map (\<lambda>c. [c]) ds)"
    by (simp add: split_colon_def)
  ultimately show ?thesis using str_trim_digits [OF assms]
    by (simp only: header_parts_def u prod.case Option.bind.simps concat_singletons)
qed

lemma read_headers_written:
  assumes n: "n \<le> MAX_CONTENT_LENGTH_BYTES"
  shows "read_headers None False (''Content-Length: '' @ show_usize n @ crlf @ crlf @ rest) = (Inr (Some (Some n)), rest)"
proof -
  define l where "l = ''Content-Length: '' @ show_usize n"
  note d = show_usize_digits [of n]
  have "length (show_usize n) \<le> 8" using n by (intro show_usize_length [of n 7, simplified]) (simp add: MAX_CONTENT_LENGTH_BYTES_def)
  then have len: "Suc (Suc (length l)) \<le> MAX_HEADER_LINE_BYTES" by (simp add: l_def MAX_HEADER_LINE_BYTES_def)
  have nl: "newline \<notin> set l" using d digit_chars by (auto simp: l_def list_all_iff) (simp_all add: newline_def)
  have hp: "header_parts l = Some (''Content-Length'', show_usize n)"
    unfolding l_def using d by (intro content_length_header) blast
  obtain c t where ct: "show_usize n = c # t" "c \<noteq> CHR ''+''"
    using d digit_chars by (cases "show_usize n") auto
  then have "parse_usize (show_usize n) = Some n"
    using d n by (simp add: parse_usize_def MAX_CONTENT_LENGTH_BYTES_def usize_max_def)
  then have cl: "content_length_value (show_usize n) = Inr n" using n by (simp add: content_length_value_def)
  have blank: "read_headers (Some n) True (crlf @ rest) = (Inr (Some (Some n)), rest)"
    using read_header_line_crlf [of "[]" rest] trim_crlf [of "[]"]
    by (simp add: read_headers.simps MAX_HEADER_LINE_BYTES_def) (simp add: crlf_def)
  have ne: "l @ crlf \<noteq> []" "l \<noteq> []" by (simp_all add: l_def)
  have "read_headers None False (l @ crlf @ crlf @ rest) = (Inr (Some (Some n)), rest)"
    unfolding read_headers.simps [of None False] read_header_line_crlf [OF nl len]
    by (simp add: trim_crlf hp content_length_name cl blank ne)
  then show ?thesis by (simp add: l_def)
qed

lemma read_frame_written:
  assumes "length (to_vec v) \<le> MAX_CONTENT_LENGTH_BYTES" "from_slice (to_vec v) = Inr v"
  shows "read_frame from_slice (write_frame to_vec v @ rest) = (Inr (Some v), rest)"
  using read_headers_written [OF assms(1), of "to_vec v @ rest"] assms(2)
  by (simp add: read_frame_def write_frame_def)

lemma read_frame_end: "read_frame from_slice [] = (Inr None, [])"
proof -
  have "read_until n [] = ([], [])" for n by (cases n) simp_all
  then show ?thesis
    by (simp add: read_frame_def read_headers.simps read_header_line_def MAX_HEADER_LINE_BYTES_def)
qed

text \<open>C26: what the server writes, a reader of the same code reads back: a stream of written frames is read
  as exactly those values in order and then ends, when every body is at most 64 MiB and the JSON
  library reads back what it wrote for those values. No frame bleeds into the next one.
\<close>

theorem written_frames_read_back:
  assumes "\<forall>v\<in>set vs. length (to_vec v) \<le> MAX_CONTENT_LENGTH_BYTES \<and> from_slice (to_vec v) = Inr v"
  shows "frames_of from_slice (concat (map (write_frame to_vec) vs)) = foldr Frame vs EndOfStream"
  using assms
proof (induction vs)
  case Nil
  then show ?case by (simp add: frames_of.simps read_frame_end)
next
  case (Cons v vs)
  then show ?case
    using read_frame_written [of to_vec v from_slice "concat (map (write_frame to_vec) vs)"]
    by (simp add: frames_of.simps [of from_slice "write_frame to_vec v @ _"])
qed

text \<open>Witness: two booleans, with a JSON library that knows them.\<close>

theorem written_frames_read_back_witness:
  "frames_of (\<lambda>s. if s = ''true'' then Inr (Bool True) else if s = ''false'' then Inr (Bool False) else Inl ''expected value'')
     (concat (map (write_frame (\<lambda>v. if v = Bool True then ''true'' else ''false'')) [Bool True, Bool False])) =
   Frame (Bool True) (Frame (Bool False) EndOfStream)"
  using written_frames_read_back [of "[Bool True, Bool False]" "\<lambda>v. if v = Bool True then ''true'' else ''false''"
      "\<lambda>s. if s = ''true'' then Inr (Bool True) else if s = ''false'' then Inr (Bool False) else Inl ''expected value''"]
  by (simp add: MAX_CONTENT_LENGTH_BYTES_def)

text \<open>Header lines may end in a bare newline, but the blank line may not: \<^verbatim>\<open>trim_line\<close> falls back to the
  whole line when it finds no carriage return, so a line of just a newline is a malformed header.\<close>

lemma bare_newline_lines:
  assumes "newline \<notin> set l" "length l < 8000"
  shows "read_header_line (l @ newline # rest) = (Inr (l @ [newline]), rest)"
  using read_until_line [of l MAX_HEADER_LINE_BYTES rest] assms
  by (simp add: read_header_line_def ends_with_def MAX_HEADER_LINE_BYTES_def)

lemma bare_newline_parts:
  "trim_line (''Content-Length: 2'' @ [newline]) = ''Content-Length: 2'' @ [newline]" "trim_line [newline] = [newline]"
  "header_parts (''Content-Length: 2'' @ [newline]) = Some (''Content-Length'', ''2'')" "header_parts [newline] = None"
  by code_simp+

lemma blank_line_malformed:
  "read_headers cl True (newline # body) = (Inl (InvalidData ''malformed LSP header''), body)"
  using bare_newline_lines [of "[]" body]
  by (simp add: read_headers.simps [of cl True] bare_newline_parts)

lemma content_length_two: "content_length_value ''2'' = Inr 2"
  by (simp add: content_length_value_def parse_usize_def is_digit_def in_byte_def digits_value_def usize_max_def
      MAX_CONTENT_LENGTH_BYTES_def)

theorem bare_newline_is_malformed:
  "fst (read_frame from_slice (''Content-Length: 2'' @ newline # newline # body)) =
     Inl (InvalidData ''malformed LSP header'')"
proof -
  define l where "l = ''Content-Length: 2''"
  have "read_header_line (l @ newline # newline # body) = (Inr (l @ [newline]), newline # body)"
    by (rule bare_newline_lines) (simp_all add: l_def newline_def)
  moreover have "l @ [newline] \<noteq> []" by simp
  ultimately have "read_headers None False (l @ newline # newline # body) = (Inl (InvalidData ''malformed LSP header''), body)"
    by (simp add: read_headers.simps [of None False] bare_newline_parts [folded l_def] content_length_name
        content_length_two blank_line_malformed)
  then have "fst (read_frame from_slice (l @ newline # newline # body)) = Inl (InvalidData ''malformed LSP header'')"
    by (simp add: read_frame_def)
  then show ?thesis unfolding l_def .
qed

end
