(* ===== verification/ModelTypes.thy ===== *)
theory ModelTypes
  imports Diagnostics OrderedMap "HOL-Library.List_Lexorder" "HOL-Library.Char_ord"
begin

text \<open>
  The normalized model (\<^verbatim>\<open>crates/pure-analyzer-model/src/types.rs\<close>): names, multiplicities, types, classes with
  their properties, associations and the graph. Names are byte strings of UTF-8 text, compared bytewise as in
  Rust. Identifiers and multiplicity bounds are below \<open>2 ^ 32\<close>.
\<close>

section \<open>Names\<close>

datatype NameError = EmptyName | ControlCharacter string | QualifiedSimpleName string | EmptyPathSegment string

text \<open>\<^verbatim>\<open>chars().any(char::is_control)\<close> on UTF-8: the C0 controls and DEL, and U+0080 to U+009F, which are the
  byte \<open>C2\<close> followed by \<open>80\<close> to \<open>9F\<close>.\<close>

fun has_control :: "string \<Rightarrow> bool" where
  "has_control [] \<longleftrightarrow> False"
| "has_control (c # s) \<longleftrightarrow>
     (of_char c :: nat) < 32 \<or> (of_char c :: nat) = 127 \<or>
     ((of_char c :: nat) = 194 \<and> (case s of d # _ \<Rightarrow> 128 \<le> (of_char d :: nat) \<and> (of_char d :: nat) \<le> 159 | [] \<Rightarrow> False)) \<or>
     has_control s"

definition validate_name_text :: "string \<Rightarrow> NameError + unit" where
  "validate_name_text v =
     (if v = [] then Inl EmptyName else if has_control v then Inl (ControlCharacter v) else Inr ())"

text \<open>\<^verbatim>\<open>split("::")\<close>: the pieces between occurrences found from the left.\<close>

fun split_path :: "string \<Rightarrow> string list" where
  "split_path [] = [[]]"
| "split_path [c] = [[c]]"
| "split_path (c # d # s) =
     (if c = CHR '':'' \<and> d = CHR '':'' then [] # split_path s
      else case split_path (d # s) of p # ps \<Rightarrow> (c # p) # ps | [] \<Rightarrow> [[c]])"

text \<open>\<^verbatim>\<open>rsplit_once("::")\<close>: the text before and after the last occurrence.\<close>

fun rsplit_once :: "string \<Rightarrow> (string \<times> string) option" where
  "rsplit_once [] = None"
| "rsplit_once (c # s) =
     (case rsplit_once s of
        Some (p, n) \<Rightarrow> Some (c # p, n)
      | None \<Rightarrow> (case s of d # s' \<Rightarrow> if c = CHR '':'' \<and> d = CHR '':'' then Some ([], s') else None | [] \<Rightarrow> None))"

definition name_new :: "string \<Rightarrow> NameError + string" where
  "name_new v =
     (case validate_name_text v of
        Inl e \<Rightarrow> Inl e
      | Inr _ \<Rightarrow> if length (split_path v) > 1 then Inl (QualifiedSimpleName v) else Inr v)"

definition qname_new :: "string \<Rightarrow> NameError + string" where
  "qname_new v =
     (case validate_name_text v of
        Inl e \<Rightarrow> Inl e
      | Inr _ \<Rightarrow> if list_ex (\<lambda>p. p = []) (split_path v) then Inl (EmptyPathSegment v) else Inr v)"

definition from_package_and_name :: "string \<Rightarrow> string \<Rightarrow> NameError + string" where
  "from_package_and_name package name =
     (case name_new name of
        Inl e \<Rightarrow> Inl e
      | Inr simple \<Rightarrow> if package = [] then qname_new simple else qname_new (package @ ''::'' @ simple))"

definition simple_name :: "string \<Rightarrow> string" where
  "simple_name q = (case rsplit_once q of Some (_, n) \<Rightarrow> n | None \<Rightarrow> q)"

definition package_of :: "string \<Rightarrow> string option" where
  "package_of q = map_option fst (rsplit_once q)"

lemma rsplit_once_Some: "rsplit_once q = Some (p, n) \<Longrightarrow> q = p @ ''::'' @ n"
proof (induction q arbitrary: p)
  case (Cons c s)
  show ?case
  proof (cases "rsplit_once s")
    case None
    with Cons.prems show ?thesis by (cases s) (simp_all split: if_splits)
  next
    case (Some r)
    then obtain p' where "rsplit_once s = Some (p', n)" "p = c # p'" using Cons.prems by (cases r) auto
    with Cons.IH show ?thesis by simp
  qed
qed simp

lemma package_and_simple_name: "package_of q = Some p \<Longrightarrow> q = p @ ''::'' @ simple_name q"
  using rsplit_once_Some [of q p "simple_name q"] by (cases "rsplit_once q") (auto simp: package_of_def simple_name_def)

text \<open>A path does not determine the package and the name it was made of: a name may start with a colon.\<close>

lemma package_name_ambiguous:
  "from_package_and_name ''a'' '':b'' = Inr ''a:::b''" "from_package_and_name ''a:'' ''b'' = Inr ''a:::b''"
  by (simp_all add: from_package_and_name_def name_new_def qname_new_def validate_name_text_def)


section \<open>Facts\<close>

datatype Provenance = Pmcd | PureFile

record Multiplicity =
  mult_lower :: nat
  mult_upper :: "nat option"

definition zero_or_more :: Multiplicity where
  "zero_or_more = \<lparr>mult_lower = 0, mult_upper = None\<rparr>"

record MultiplicityError =
  error_lower :: nat
  error_upper :: nat

definition multiplicity_new :: "nat \<Rightarrow> nat option \<Rightarrow> MultiplicityError + Multiplicity" where
  "multiplicity_new lower upper =
     (case upper of
        Some u \<Rightarrow> if lower > u then Inl \<lparr>error_lower = lower, error_upper = u\<rparr>
                  else Inr \<lparr>mult_lower = lower, mult_upper = upper\<rparr>
      | None \<Rightarrow> Inr \<lparr>mult_lower = lower, mult_upper = upper\<rparr>)"

definition is_unbounded :: "Multiplicity \<Rightarrow> bool" where
  "is_unbounded m \<longleftrightarrow> mult_upper m = None"

definition is_to_one :: "Multiplicity \<Rightarrow> bool" where
  "is_to_one m \<longleftrightarrow> mult_upper m = Some 0 \<or> mult_upper m = Some 1"

datatype TypeRef = TypeRef (raw_type: string) (type_arguments: "TypeRef list")

datatype Temporal = Bitemporal | BusinessTemporal | ProcessingTemporal

fun temporal_arity :: "Temporal \<Rightarrow> nat" where
  "temporal_arity Bitemporal = 2"
| "temporal_arity BusinessTemporal = 1"
| "temporal_arity ProcessingTemporal = 1"

record PropInfo =
  prop_name :: string
  prop_target :: TypeRef
  prop_multiplicity :: Multiplicity
  prop_association :: "string option"
  prop_span :: "text_range option"

definition prop_declared :: "string \<Rightarrow> TypeRef \<Rightarrow> Multiplicity \<Rightarrow> PropInfo" where
  "prop_declared n t m = \<lparr>prop_name = n, prop_target = t, prop_multiplicity = m, prop_association = None, prop_span = None\<rparr>"

definition from_assoc :: "PropInfo \<Rightarrow> bool" where
  "from_assoc p \<longleftrightarrow> prop_association p \<noteq> None"

datatype QpKind = UserQualified | MilestonedPoint | AllVersions | AllVersionsInRange

record QpInfo =
  qp_name :: string
  qp_target :: TypeRef
  qp_multiplicity :: Multiplicity
  qp_kind :: QpKind
  qp_signature :: "TypeRef list option"
  qp_span :: "text_range option"

record ClassInfo =
  ci_path :: string
  ci_supertypes :: "string list"
  ci_temporal :: "Temporal option"
  ci_properties :: "(string, PropInfo) btree_map"
  ci_qualified :: "(string, QpInfo) btree_map"
  ci_provenance :: Provenance
  ci_source :: nat
  ci_span :: "text_range option"
  coverage_gap :: bool

definition class_info_new ::
    "string \<Rightarrow> string list \<Rightarrow> Temporal option \<Rightarrow> (string, PropInfo) btree_map \<Rightarrow> (string, QpInfo) btree_map \<Rightarrow> nat \<Rightarrow> ClassInfo" where
  "class_info_new path supertypes temporal properties qualified source =
     \<lparr>ci_path = path, ci_supertypes = supertypes, ci_temporal = temporal, ci_properties = properties,
      ci_qualified = qualified, ci_provenance = Pmcd, ci_source = source, ci_span = None, coverage_gap = False\<rparr>"

definition class_info_from_pure ::
    "string \<Rightarrow> string list \<Rightarrow> Temporal option \<Rightarrow> (string, PropInfo) btree_map \<Rightarrow> (string, QpInfo) btree_map \<Rightarrow> nat \<Rightarrow> ClassInfo" where
  "class_info_from_pure path supertypes temporal properties qualified source =
     (class_info_new path supertypes temporal properties qualified source)\<lparr>ci_provenance := PureFile\<rparr>"

record AssociationEndInfo =
  end_owner :: string
  end_property :: PropInfo
  end_span :: "text_range option"

record AssocInfo =
  assoc_path :: string
  end_a :: AssociationEndInfo
  end_b :: AssociationEndInfo
  assoc_temporal :: "Temporal option"
  assoc_provenance :: Provenance
  assoc_source :: nat
  assoc_span :: "text_range option"

record ModelSourceInfo =
  source_id :: nat
  source_label :: string
  source_provenance :: Provenance


section \<open>The graph\<close>

record ModelGraph =
  graph_classes :: "(string, ClassInfo) btree_map"
  by_path :: "(string, nat) btree_map"
  paths_by_id :: "string list"
  associations :: "AssocInfo list"
  graph_sources :: "ModelSourceInfo list"
  graph_diagnostics :: "diagnostic list"

definition graph_class :: "ModelGraph \<Rightarrow> string \<Rightarrow> ClassInfo option" where
  "graph_class g path = bt_get (graph_classes g) path"

definition graph_class_id :: "ModelGraph \<Rightarrow> string \<Rightarrow> nat option" where
  "graph_class_id g path = bt_get (by_path g) path"

definition class_by_id :: "ModelGraph \<Rightarrow> nat \<Rightarrow> ClassInfo option" where
  "class_by_id g i =
     (if i < length (paths_by_id g) then bt_get (graph_classes g) (paths_by_id g ! i) else None)"

end
