(* ===== verification/Resolver.thy ===== *)
theory Resolver
  imports ModelTypes
begin

text \<open>
  Name and member resolution over a model graph (\<^verbatim>\<open>crates/pure-analyzer-resolve/src/lib.rs\<close>): classes by path
  and identity, the validation of the generalization hierarchy, its breadth-first levels, and members through
  the nearest level. Sets of names (\<^verbatim>\<open>BTreeSet\<close>) are sets; where their order is observed they are listed sorted.
\<close>

section \<open>Results\<close>

record DefinitionAnchor =
  anchor_source :: nat
  anchor_span :: "text_range option"

record ResolvedClass =
  class_id :: nat
  class_path :: string
  class_temporal :: "Temporal option"
  class_provenance :: Provenance
  class_definition :: DefinitionAnchor

datatype ResolvedMemberKind = Qualified QpKind | Property | AssociationEnd string

record ResolvedMember =
  member_owner :: ResolvedClass
  member_name :: string
  member_target :: TypeRef
  member_multiplicity :: Multiplicity
  member_kind :: ResolvedMemberKind
  member_signature :: "TypeRef list option"
  member_temporal_arity :: "nat option"
  member_provenance :: Provenance
  member_definition :: DefinitionAnchor

datatype UnderResolution =
  MissingSupertype string string | OpenWorld string | GraphInvariant string | GeneralizationDepth string nat

datatype 'a Resolution =
  Found 'a | Missing | UnderResolved UnderResolution | Ambiguous "'a list" | Cycle "string list"

datatype HierarchyFault = FaultUnderResolved UnderResolution | FaultCycle "string list"

fun into_resolution :: "HierarchyFault \<Rightarrow> 'a Resolution" where
  "into_resolution (FaultUnderResolved reason) = UnderResolved reason"
| "into_resolution (FaultCycle cycle) = Cycle cycle"

datatype MemberPriority = GeneratedQualified | UserQualifiedPriority | PropertyPriority | AssociationEndPriority

fun priority_rank :: "MemberPriority \<Rightarrow> nat" where
  "priority_rank GeneratedQualified = 0"
| "priority_rank UserQualifiedPriority = 1"
| "priority_rank PropertyPriority = 2"
| "priority_rank AssociationEndPriority = 3"

record DirectMember =
  direct_priority :: MemberPriority
  direct_member_facts :: ResolvedMember
  direct_association :: "string option"

definition MAX_GENERALIZATION_DEPTH :: nat where "MAX_GENERALIZATION_DEPTH = 256"


section \<open>Classes\<close>

definition resolved_class :: "ModelGraph \<Rightarrow> string \<Rightarrow> ClassInfo \<Rightarrow> UnderResolution + ResolvedClass" where
  "resolved_class g path c =
     (case graph_class_id g path of
        None \<Rightarrow> Inl (GraphInvariant path)
      | Some i \<Rightarrow> Inr \<lparr>class_id = i, class_path = path, class_temporal = ci_temporal c, class_provenance = ci_provenance c,
          class_definition = \<lparr>anchor_source = ci_source c, anchor_span = ci_span c\<rparr>\<rparr>)"

definition resolve_class :: "ModelGraph \<Rightarrow> string \<Rightarrow> ResolvedClass Resolution" where
  "resolve_class g path =
     (case graph_class g path of
        None \<Rightarrow> Missing
      | Some c \<Rightarrow> (case resolved_class g path c of Inr r \<Rightarrow> Found r | Inl reason \<Rightarrow> UnderResolved reason))"

definition resolve_class_id :: "ModelGraph \<Rightarrow> nat \<Rightarrow> ResolvedClass Resolution" where
  "resolve_class_id g i = (case class_by_id g i of None \<Rightarrow> Missing | Some c \<Rightarrow> resolve_class g (ci_path c))"

definition sorted_supertypes :: "ClassInfo \<Rightarrow> string list" where
  "sorted_supertypes c = remdups_adj (sort (ci_supertypes c))"


section \<open>The hierarchy\<close>

text \<open>\<^verbatim>\<open>validate_node\<close> and its loop over the supertypes; both return the visited set. The stack is restored
  by every successful call, so it is an argument.\<close>

definition index_of :: "string \<Rightarrow> string list \<Rightarrow> nat option" where
  "index_of x xs = (if x \<in> set xs then Some (length (takeWhile (\<lambda>y. y \<noteq> x) xs)) else None)"

function (sequential) validate_node :: "ModelGraph \<Rightarrow> string \<Rightarrow> string set \<Rightarrow> string list \<Rightarrow> HierarchyFault + string set"
and validate_parents :: "ModelGraph \<Rightarrow> string \<Rightarrow> string list \<Rightarrow> string set \<Rightarrow> string list \<Rightarrow> HierarchyFault + string set" where
  "validate_node g current visited stack =
     (if length stack \<ge> MAX_GENERALIZATION_DEPTH
      then Inl (FaultUnderResolved (GeneralizationDepth current MAX_GENERALIZATION_DEPTH))
      else case index_of current stack of
        Some start \<Rightarrow> Inl (FaultCycle (drop start stack @ [current]))
      | None \<Rightarrow>
          if current \<in> visited then Inr visited
          else case graph_class g current of
            None \<Rightarrow> Inl (FaultUnderResolved (GraphInvariant current))
          | Some c \<Rightarrow> validate_parents g current (sorted_supertypes c) (insert current visited) (stack @ [current]))"
| "validate_parents g current [] visited stack = Inr visited"
| "validate_parents g current (parent # parents) visited stack =
     (if graph_class g parent = None then Inl (FaultUnderResolved (MissingSupertype current parent))
      else case validate_node g parent visited stack of
        Inl fault \<Rightarrow> Inl fault
      | Inr visited \<Rightarrow> validate_parents g current parents visited stack)"
  by pat_completeness auto

termination
  by (relation "measures [\<lambda>x. case x of Inl (g, c, v, st) \<Rightarrow> MAX_GENERALIZATION_DEPTH - length st
                                        | Inr (g, c, ps, v, st) \<Rightarrow> MAX_GENERALIZATION_DEPTH - length st,
                          \<lambda>x. case x of Inl (g, c, v, st) \<Rightarrow> 0 | Inr (g, c, ps, v, st) \<Rightarrow> Suc (length ps)]")
    (auto simp: MAX_GENERALIZATION_DEPTH_def)

definition validate_hierarchy :: "ModelGraph \<Rightarrow> string \<Rightarrow> HierarchyFault + unit" where
  "validate_hierarchy g origin = map_sum (\<lambda>f. f) (\<lambda>_. ()) (validate_node g origin {} [])"

text \<open>One level of the breadth-first walk: newly seen parents of the current level.\<close>

definition add_parents :: "string list \<Rightarrow> string set \<times> string set \<Rightarrow> string set \<times> string set" where
  "add_parents ps st =
     fold (\<lambda>p (seen, next). if p \<in> seen then (seen, next) else (insert p seen, insert p next)) ps st"

fun next_level :: "ModelGraph \<Rightarrow> string list \<Rightarrow> string set \<times> string set \<Rightarrow> HierarchyFault + string set \<times> string set" where
  "next_level g [] st = Inr st"
| "next_level g (path # paths) st =
     (case graph_class g path of
        None \<Rightarrow> Inl (FaultUnderResolved (GraphInvariant path))
      | Some c \<Rightarrow> next_level g paths (add_parents (sorted_supertypes c) st))"


definition supertype_names :: "ModelGraph \<Rightarrow> string set" where
  "supertype_names g = (\<Union>(k, c) \<in> set (graph_classes g). set (ci_supertypes c))"

definition parents_of :: "ModelGraph \<Rightarrow> string \<Rightarrow> string set" where
  "parents_of g path = (case graph_class g path of Some c \<Rightarrow> set (ci_supertypes c) | None \<Rightarrow> {})"

lemma sorted_supertypes_set [simp]: "set (sorted_supertypes c) = set (ci_supertypes c)"
  by (simp add: sorted_supertypes_def)

lemma add_parents_eq: "add_parents ps (seen, new) = (seen \<union> set ps, new \<union> (set ps - seen))"
  by (induction ps arbitrary: seen new) (auto simp: add_parents_def)

lemma next_level_Inr:
  "next_level g paths (seen, new) = Inr st \<longleftrightarrow>
     (\<forall>p\<in>set paths. graph_class g p \<noteq> None) \<and>
     st = (seen \<union> (\<Union>p\<in>set paths. parents_of g p), new \<union> ((\<Union>p\<in>set paths. parents_of g p) - seen))"
  by (induction paths arbitrary: seen new) (auto simp: add_parents_eq parents_of_def split: option.splits)

lemma parents_of_names: "parents_of g path \<subseteq> supertype_names g"
  by (auto simp: parents_of_def supertype_names_def graph_class_def bt_get_def split: option.splits dest!: map_of_SomeD)

lemma finite_supertype_names [simp]: "finite (supertype_names g)"
  by (auto simp: supertype_names_def)

function breadth_first :: "ModelGraph \<Rightarrow> string list \<Rightarrow> string set \<Rightarrow> HierarchyFault + string list list" where
  "breadth_first g current seen =
     (case next_level g current (seen, {}) of
        Inl fault \<Rightarrow> Inl fault
      | Inr (seen', new) \<Rightarrow>
          if sorted_list_of_set new = [] then Inr []
          else map_sum (\<lambda>f. f) (Cons (sorted_list_of_set new)) (breadth_first g (sorted_list_of_set new) seen'))"
  by pat_completeness auto

termination
proof (relation "measure (\<lambda>(g, current, seen). card (supertype_names g - seen))")
  fix g :: ModelGraph and current :: "string list" and seen b seen' new
  assume step: "next_level g current (seen, {}) = Inr b" "(seen', new) = b" "sorted_list_of_set new \<noteq> []"
  let ?P = "\<Union>p\<in>set current. parents_of g p"
  have eq: "seen' = seen \<union> ?P" "new = ?P - seen" using step next_level_Inr [of g current seen "{}" b] by auto
  have "finite new" using step(3) by (cases "finite new") simp_all
  then have "new \<noteq> {}" using step(3) by auto
  then obtain x where "x \<in> ?P" "x \<notin> seen" using eq(2) by blast
  then have "supertype_names g - seen' \<subset> supertype_names g - seen"
    using eq(1) parents_of_names [of g] by blast
  then show "((g, sorted_list_of_set new, seen'), g, current, seen) \<in> measure (\<lambda>(g, current, seen). card (supertype_names g - seen))"
    by (simp add: psubset_card_mono)
qed simp

definition hierarchy_levels :: "ModelGraph \<Rightarrow> string \<Rightarrow> HierarchyFault + string list list" where
  "hierarchy_levels g origin =
     (case validate_hierarchy g origin of
        Inl fault \<Rightarrow> Inl fault
      | Inr _ \<Rightarrow> map_sum (\<lambda>f. f) (Cons [origin]) (breadth_first g [origin] {origin}))"

fun resolve_paths :: "ModelGraph \<Rightarrow> string list \<Rightarrow> UnderResolution + ResolvedClass list" where
  "resolve_paths g [] = Inr []"
| "resolve_paths g (path # paths) =
     (case graph_class g path of
        None \<Rightarrow> Inl (GraphInvariant path)
      | Some c \<Rightarrow>
          (case resolved_class g path c of
             Inl reason \<Rightarrow> Inl reason
           | Inr r \<Rightarrow> map_sum (\<lambda>f. f) (Cons r) (resolve_paths g paths)))"

definition generalizations :: "ModelGraph \<Rightarrow> string \<Rightarrow> ResolvedClass list Resolution" where
  "generalizations g origin =
     (if graph_class g origin = None then Missing
      else case hierarchy_levels g origin of
        Inl fault \<Rightarrow> into_resolution fault
      | Inr levels \<Rightarrow>
          (case resolve_paths g (concat (drop 1 levels)) of
             Inl reason \<Rightarrow> UnderResolved reason
           | Inr classes \<Rightarrow> Found classes))"


section \<open>Members\<close>

definition qualified_member :: "ResolvedClass \<Rightarrow> string \<Rightarrow> ClassInfo \<Rightarrow> QpInfo \<Rightarrow> ResolvedMember" where
  "qualified_member owner name c p =
     \<lparr>member_owner = owner, member_name = name, member_target = qp_target p, member_multiplicity = qp_multiplicity p,
      member_kind = Qualified (qp_kind p), member_signature = qp_signature p, member_temporal_arity = None,
      member_provenance = ci_provenance c, member_definition = \<lparr>anchor_source = ci_source c, anchor_span = qp_span p\<rparr>\<rparr>"

definition find_association :: "ModelGraph \<Rightarrow> string \<Rightarrow> AssocInfo option" where
  "find_association g path = find (\<lambda>a. assoc_path a = path) (associations g)"

definition direct_member :: "ModelGraph \<Rightarrow> string \<Rightarrow> ClassInfo \<Rightarrow> string \<Rightarrow> HierarchyFault + DirectMember option" where
  "direct_member g path c name =
     (case resolved_class g path c of
        Inl reason \<Rightarrow> Inl (FaultUnderResolved reason)
      | Inr owner \<Rightarrow>
          (case bt_get (ci_qualified c) name of
             Some p \<Rightarrow> Inr (Some \<lparr>
               direct_priority = (if qp_kind p = UserQualified then UserQualifiedPriority else GeneratedQualified),
               direct_member_facts = qualified_member owner name c p, direct_association = None\<rparr>)
           | None \<Rightarrow>
               (case bt_get (ci_properties c) name of
                  None \<Rightarrow> Inr None
                | Some p \<Rightarrow>
                    let facts = \<lparr>member_owner = owner, member_name = name, member_target = prop_target p,
                          member_multiplicity = prop_multiplicity p, member_kind = Property, member_signature = None,
                          member_temporal_arity = None, member_provenance = ci_provenance c,
                          member_definition = \<lparr>anchor_source = ci_source c, anchor_span = prop_span p\<rparr>\<rparr>
                    in (case prop_association p of
                          None \<Rightarrow> Inr (Some \<lparr>direct_priority = PropertyPriority, direct_member_facts = facts,
                            direct_association = None\<rparr>)
                        | Some association \<Rightarrow>
                            let facts = facts\<lparr>member_kind := AssociationEnd association\<rparr>;
                                facts = (case find_association g association of
                                   None \<Rightarrow> facts
                                 | Some a \<Rightarrow> facts\<lparr>member_provenance := assoc_provenance a,
                                     member_definition := \<lparr>anchor_source = assoc_source a, anchor_span = prop_span p\<rparr>\<rparr>)
                            in Inr (Some \<lparr>direct_priority = AssociationEndPriority, direct_member_facts = facts,
                                 direct_association = Some association\<rparr>)))))"

text \<open>The levels of a target hierarchy decide its temporal arity: the nearest level with a stereotype, if that
  level and those before it are covered and it is unanimous.\<close>

fun levels_arity :: "ModelGraph \<Rightarrow> string list list \<Rightarrow> nat option" where
  "levels_arity g [] = Some 0"
| "levels_arity g (level # levels) =
     (let classes = List.map_filter (graph_class g) level in
      if list_ex coverage_gap classes then None
      else case remdups (List.map_filter ci_temporal classes) of
        [] \<Rightarrow> levels_arity g levels
      | [t] \<Rightarrow> Some (temporal_arity t)
      | _ \<Rightarrow> None)"

definition effective_temporal_arity :: "ModelGraph \<Rightarrow> string \<Rightarrow> HierarchyFault + nat option" where
  "effective_temporal_arity g target =
     (if graph_class g target = None then Inr None
      else map_sum (\<lambda>f. f) (levels_arity g) (hierarchy_levels g target))"

definition target_temporal_arity :: "ModelGraph \<Rightarrow> TypeRef \<Rightarrow> string option \<Rightarrow> HierarchyFault + nat option" where
  "target_temporal_arity g target association =
     (case Option.bind association (\<lambda>path. Option.bind (find_association g path) (\<lambda>a. map_option temporal_arity (assoc_temporal a))) of
        Some arity \<Rightarrow> Inr (Some arity)
      | None \<Rightarrow> effective_temporal_arity g (raw_type target))"

definition complete_member :: "ModelGraph \<Rightarrow> DirectMember \<Rightarrow> HierarchyFault + ResolvedMember" where
  "complete_member g d =
     (case target_temporal_arity g (member_target (direct_member_facts d)) (direct_association d) of
        Inl fault \<Rightarrow> Inl fault
      | Inr arity \<Rightarrow> Inr ((direct_member_facts d)\<lparr>member_temporal_arity := arity\<rparr>))"

fun complete_all :: "ModelGraph \<Rightarrow> DirectMember list \<Rightarrow> HierarchyFault + ResolvedMember list" where
  "complete_all g [] = Inr []"
| "complete_all g (d # ds) =
     (case complete_member g d of
        Inl fault \<Rightarrow> Inl fault
      | Inr m \<Rightarrow> map_sum (\<lambda>f. f) (Cons m) (complete_all g ds))"

text \<open>The scan of one level: its candidates and the first class with open coverage.\<close>

fun level_candidates ::
    "ModelGraph \<Rightarrow> string \<Rightarrow> string list \<Rightarrow> DirectMember list \<Rightarrow> UnderResolution option \<Rightarrow>
     HierarchyFault + DirectMember list \<times> UnderResolution option" where
  "level_candidates g name [] candidates open_world = Inr (candidates, open_world)"
| "level_candidates g name (path # paths) candidates open_world =
     (case graph_class g path of
        None \<Rightarrow> Inl (FaultUnderResolved (GraphInvariant path))
      | Some c \<Rightarrow>
          let open_world = (if coverage_gap c \<and> open_world = None then Some (OpenWorld path) else open_world)
          in (case direct_member g path c name of
                Inl fault \<Rightarrow> Inl fault
              | Inr None \<Rightarrow> level_candidates g name paths candidates open_world
              | Inr (Some d) \<Rightarrow> level_candidates g name paths (candidates @ [d]) open_world))"

definition best_candidates :: "DirectMember list \<Rightarrow> DirectMember list" where
  "best_candidates ds =
     (let best = Min (set (map (priority_rank \<circ> direct_priority) ds))
      in filter (\<lambda>d. priority_rank (direct_priority d) = best) ds)"

fun resolve_levels :: "ModelGraph \<Rightarrow> string \<Rightarrow> string list list \<Rightarrow> ResolvedMember Resolution" where
  "resolve_levels g name [] = Missing"
| "resolve_levels g name (level # levels) =
     (case level_candidates g name level [] None of
        Inl fault \<Rightarrow> into_resolution fault
      | Inr (candidates, Some reason) \<Rightarrow> UnderResolved reason
      | Inr (candidates, None) \<Rightarrow>
          if candidates = [] then resolve_levels g name levels
          else case complete_all g (best_candidates candidates) of
            Inl fault \<Rightarrow> into_resolution fault
          | Inr best \<Rightarrow>
              (case sort_key (class_path \<circ> member_owner) best of
                 [m] \<Rightarrow> Found m
               | ms \<Rightarrow> Ambiguous ms))"

definition resolve_member :: "ModelGraph \<Rightarrow> string \<Rightarrow> string \<Rightarrow> ResolvedMember Resolution" where
  "resolve_member g origin name =
     (case graph_class g origin of
        None \<Rightarrow> Missing
      | Some c \<Rightarrow>
          if coverage_gap c then UnderResolved (OpenWorld origin)
          else case direct_member g origin c name of
            Inl fault \<Rightarrow> into_resolution fault
          | Inr (Some d) \<Rightarrow>
              (case complete_member g d of Inr m \<Rightarrow> Found m | Inl fault \<Rightarrow> into_resolution fault)
          | Inr None \<Rightarrow>
              (case hierarchy_levels g origin of
                 Inl fault \<Rightarrow> into_resolution fault
               | Inr levels \<Rightarrow> resolve_levels g name (drop 1 levels)))"

end
