(* ===== verification/Navigation.thy ===== *)
theory Navigation
  imports Resolver
begin

text \<open>
  Local values and navigation chains (\<^verbatim>\<open>crates/pure-analyzer-resolve/src/local.rs\<close>): relation rows, the stack of
  lexical bindings, and the resolution of a chain of navigation steps from a local value.
\<close>

section \<open>Local values\<close>

definition NO_ARGUMENTS :: nat where "NO_ARGUMENTS = 0"
definition RANGE_CONTEXT_ARGUMENTS :: nat where "RANGE_CONTEXT_ARGUMENTS = 2"

record RelationColumn =
  rcolumn_id :: nat
  rcolumn_name :: string
  rcolumn_type :: TypeRef
  rcolumn_multiplicity :: Multiplicity
  rcolumn_span :: text_range

datatype RelationRowError = DuplicateRowColumnId nat | DuplicateColumnName string

type_synonym RelationRow = "RelationColumn list"

fun row_loop :: "RelationColumn list \<Rightarrow> nat set \<Rightarrow> string set \<Rightarrow> RelationRowError + unit" where
  "row_loop [] ids names = Inr ()"
| "row_loop (c # cs) ids names =
     (if rcolumn_id c \<in> ids then Inl (DuplicateRowColumnId (rcolumn_id c))
      else if rcolumn_name c \<in> names then Inl (DuplicateColumnName (rcolumn_name c))
      else row_loop cs (insert (rcolumn_id c) ids) (insert (rcolumn_name c) names))"

definition row_new :: "RelationColumn list \<Rightarrow> RelationRowError + RelationRow" where
  "row_new columns = map_sum (\<lambda>e. e) (\<lambda>_. columns) (row_loop columns {} {})"

definition row_column :: "RelationRow \<Rightarrow> string \<Rightarrow> RelationColumn option" where
  "row_column row name = find (\<lambda>c. rcolumn_name c = name) row"

datatype UnknownValue = HigherOrder | UnmodeledType TypeRef | ModelUnknown UnderResolution

datatype LocalValueKind =
  ClassValue ResolvedClass | ScalarValue TypeRef | RowValue RelationRow | UnknownKind UnknownValue

record LocalValue =
  value_kind :: LocalValueKind
  value_multiplicity :: Multiplicity


section \<open>Lexical bindings\<close>

type_synonym frame = "(string, LocalValue) btree_map"

record TypeEnvironment =
  env_root :: frame
  env_frames :: "frame list"

definition env_new :: TypeEnvironment where
  "env_new = \<lparr>env_root = [], env_frames = []\<rparr>"

definition env_bind :: "string \<Rightarrow> LocalValue \<Rightarrow> TypeEnvironment \<Rightarrow> LocalValue option \<times> TypeEnvironment" where
  "env_bind name v env =
     (if env_frames env = [] then (bt_get (env_root env) name, env\<lparr>env_root := bt_insert name v (env_root env)\<rparr>)
      else (bt_get (last (env_frames env)) name,
            env\<lparr>env_frames := butlast (env_frames env) @ [bt_insert name v (last (env_frames env))]\<rparr>))"

definition env_lookup :: "TypeEnvironment \<Rightarrow> string \<Rightarrow> LocalValue option" where
  "env_lookup env name =
     (case List.map_filter (\<lambda>f. bt_get f name) (rev (env_frames env)) of
        v # _ \<Rightarrow> Some v
      | [] \<Rightarrow> bt_get (env_root env) name)"

definition env_scope :: "TypeEnvironment \<Rightarrow> TypeEnvironment" where
  "env_scope env = env\<lparr>env_frames := env_frames env @ [[]]\<rparr>"

text \<open>\<^verbatim>\<open>Drop for TypeScope\<close>\<close>

definition scope_drop :: "TypeEnvironment \<Rightarrow> TypeEnvironment" where
  "scope_drop env = env\<lparr>env_frames := butlast (env_frames env)\<rparr>"


section \<open>Navigation\<close>

record NavigationStep =
  nav_step_name :: string
  argument_count :: nat

definition step_property :: "string \<Rightarrow> NavigationStep" where
  "step_property n = \<lparr>nav_step_name = n, argument_count = NO_ARGUMENTS\<rparr>"

definition step_call :: "string \<Rightarrow> nat \<Rightarrow> NavigationStep" where
  "step_call n k = \<lparr>nav_step_name = n, argument_count = k\<rparr>"

datatype NavigationTarget = MemberTarget ResolvedMember | ColumnTarget RelationColumn

fun target_definition :: "NavigationTarget \<Rightarrow> DefinitionAnchor option" where
  "target_definition (MemberTarget m) = Some (member_definition m)"
| "target_definition (ColumnTarget c) = None"

record NavigationHop =
  hop_step :: NavigationStep
  hop_target :: NavigationTarget
  hop_value :: LocalValue

record NavigationChain =
  chain_source :: LocalValue
  chain_value :: LocalValue
  chain_hops :: "NavigationHop list"

definition chain_new :: "LocalValue \<Rightarrow> NavigationChain" where
  "chain_new source = \<lparr>chain_source = source, chain_value = source, chain_hops = []\<rparr>"

definition chain_push :: "NavigationStep \<Rightarrow> NavigationTarget \<Rightarrow> LocalValue \<Rightarrow> NavigationChain \<Rightarrow> NavigationChain" where
  "chain_push s t v chain =
     chain\<lparr>chain_hops := chain_hops chain @ [\<lparr>hop_step = s, hop_target = t, hop_value = v\<rparr>], chain_value := v\<rparr>"

record NavigationFailure =
  failure_completed :: NavigationChain
  failure_step :: NavigationStep

datatype NavigationUnderResolutionReason =
  UnknownValueReason UnknownValue | ScalarReason TypeRef | ModelReason UnderResolution
| TemporalArityReason ResolvedMember | QualifiedSignatureReason ResolvedMember

record NavigationArityMismatch =
  arity_failure :: NavigationFailure
  arity_expected :: nat
  arity_actual :: nat
  generated_milestoned :: bool
  arity_definition :: "DefinitionAnchor option"

datatype NavigationUnderResolution =
  UnboundVariable string | AtStep NavigationFailure NavigationUnderResolutionReason

datatype NavigationResolution =
  NavFound NavigationChain | NavMissing NavigationFailure | NavUnderResolved NavigationUnderResolution
| NavAmbiguous NavigationFailure "ResolvedMember list" | NavCycle NavigationFailure "string list"
| NavWrongArity NavigationArityMismatch

definition diagnostic_code :: "NavigationUnderResolution \<Rightarrow> DiagCode" where
  "diagnostic_code u = UnknownSource"

definition reason_code :: "NavigationUnderResolution \<Rightarrow> ReasonCode" where
  "reason_code u = ModelIncomplete"

datatype StepResolution =
  StepFound NavigationTarget LocalValue | StepMissing | StepUnderResolved NavigationUnderResolutionReason
| StepAmbiguous "ResolvedMember list" | StepCycle "string list" | StepWrongArity nat bool "DefinitionAnchor option"

definition is_intrinsic_scalar :: "string \<Rightarrow> bool" where
  "is_intrinsic_scalar path \<longleftrightarrow>
     path \<in> {''Any'', ''Boolean'', ''Date'', ''DateTime'', ''Decimal'', ''Float'', ''Integer'', ''LatestDate'', ''Number'',
       ''StrictDate'', ''String''}"

definition expected_argument_count :: "ResolvedMember \<Rightarrow> NavigationUnderResolutionReason + nat" where
  "expected_argument_count m =
     (case member_kind m of
        Property \<Rightarrow> Inr NO_ARGUMENTS
      | AssociationEnd _ \<Rightarrow> Inr NO_ARGUMENTS
      | Qualified UserQualified \<Rightarrow>
          (case member_signature m of Some ts \<Rightarrow> Inr (length ts) | None \<Rightarrow> Inl (QualifiedSignatureReason m))
      | Qualified AllVersions \<Rightarrow> Inr NO_ARGUMENTS
      | Qualified AllVersionsInRange \<Rightarrow> Inr RANGE_CONTEXT_ARGUMENTS
      | Qualified MilestonedPoint \<Rightarrow>
          (case member_temporal_arity m of Some k \<Rightarrow> Inr k | None \<Rightarrow> Inl (TemporalArityReason m)))"

definition class_all :: "ModelGraph \<Rightarrow> string \<Rightarrow> LocalValue Resolution" where
  "class_all g path = map_Resolution (\<lambda>c. \<lparr>value_kind = ClassValue c, value_multiplicity = zero_or_more\<rparr>) (resolve_class g path)"

definition infer_target :: "ModelGraph \<Rightarrow> TypeRef \<Rightarrow> Multiplicity \<Rightarrow> LocalValue" where
  "infer_target g target m =
     \<lparr>value_kind = (case resolve_class g (raw_type target) of
        Found c \<Rightarrow> ClassValue c
      | Missing \<Rightarrow> if is_intrinsic_scalar (raw_type target) then ScalarValue target
                   else UnknownKind (UnmodeledType target)
      | UnderResolved reason \<Rightarrow> UnknownKind (ModelUnknown reason)
      | Ambiguous _ \<Rightarrow> UnknownKind (UnmodeledType target)
      | Cycle _ \<Rightarrow> UnknownKind (UnmodeledType target)), value_multiplicity = m\<rparr>"

definition nav_resolve_member :: "ModelGraph \<Rightarrow> ResolvedMember \<Rightarrow> NavigationStep \<Rightarrow> StepResolution" where
  "nav_resolve_member g m s =
     (case expected_argument_count m of
        Inl reason \<Rightarrow> StepUnderResolved reason
      | Inr expected \<Rightarrow>
          if argument_count s \<noteq> expected
          then StepWrongArity expected (member_kind m = Qualified MilestonedPoint) (Some (member_definition m))
          else StepFound (MemberTarget m) (infer_target g (member_target m) (member_multiplicity m)))"

definition resolve_member_step :: "ModelGraph \<Rightarrow> ResolvedClass \<Rightarrow> NavigationStep \<Rightarrow> StepResolution" where
  "resolve_member_step g c s =
     (case resolve_member g (class_path c) (nav_step_name s) of
        Found m \<Rightarrow> nav_resolve_member g m s
      | Missing \<Rightarrow> StepMissing
      | UnderResolved reason \<Rightarrow> StepUnderResolved (ModelReason reason)
      | Ambiguous ms \<Rightarrow> StepAmbiguous ms
      | Cycle cycle \<Rightarrow> StepCycle cycle)"

definition resolve_relation_column :: "ModelGraph \<Rightarrow> RelationRow \<Rightarrow> NavigationStep \<Rightarrow> StepResolution" where
  "resolve_relation_column g row s =
     (if argument_count s \<noteq> NO_ARGUMENTS then StepWrongArity NO_ARGUMENTS False None
      else case row_column row (nav_step_name s) of
        Some c \<Rightarrow> StepFound (ColumnTarget c) (infer_target g (rcolumn_type c) (rcolumn_multiplicity c))
      | None \<Rightarrow> StepMissing)"

definition resolve_step :: "ModelGraph \<Rightarrow> LocalValue \<Rightarrow> NavigationStep \<Rightarrow> StepResolution" where
  "resolve_step g v s =
     (case value_kind v of
        ClassValue c \<Rightarrow> resolve_member_step g c s
      | RowValue row \<Rightarrow> resolve_relation_column g row s
      | ScalarValue t \<Rightarrow> StepUnderResolved (ScalarReason t)
      | UnknownKind u \<Rightarrow> StepUnderResolved (UnknownValueReason u))"

fun resolve_chain :: "ModelGraph \<Rightarrow> NavigationChain \<Rightarrow> NavigationStep list \<Rightarrow> NavigationResolution" where
  "resolve_chain g chain [] = NavFound chain"
| "resolve_chain g chain (s # steps) =
     (let failure = \<lparr>failure_completed = chain, failure_step = s\<rparr> in
      case resolve_step g (chain_value chain) s of
        StepFound t v \<Rightarrow> resolve_chain g (chain_push s t v chain) steps
      | StepMissing \<Rightarrow> NavMissing failure
      | StepUnderResolved reason \<Rightarrow> NavUnderResolved (AtStep failure reason)
      | StepAmbiguous ms \<Rightarrow> NavAmbiguous failure ms
      | StepCycle cycle \<Rightarrow> NavCycle failure cycle
      | StepWrongArity expected milestoned definition_anchor \<Rightarrow>
          NavWrongArity \<lparr>arity_failure = failure, arity_expected = expected, arity_actual = argument_count s,
            generated_milestoned = milestoned, arity_definition = definition_anchor\<rparr>)"

definition nav_resolve :: "ModelGraph \<Rightarrow> LocalValue \<Rightarrow> NavigationStep list \<Rightarrow> NavigationResolution" where
  "nav_resolve g source steps = resolve_chain g (chain_new source) steps"

definition resolve_variable :: "ModelGraph \<Rightarrow> TypeEnvironment \<Rightarrow> string \<Rightarrow> NavigationStep list \<Rightarrow> NavigationResolution" where
  "resolve_variable g env name steps =
     (case env_lookup env name of
        None \<Rightarrow> NavUnderResolved (UnboundVariable name)
      | Some v \<Rightarrow> nav_resolve g v steps)"

end
