(* ===== verification/Relational.thy ===== *)
theory Relational
  imports Navigation
begin

text \<open>
  The typed relational intermediate representation (\<^verbatim>\<open>crates/pure-analyzer-analysis/src/relational.rs\<close>):
  column schemas, facts, scalar and relation expressions, and the validation every relation expression
  passes when it is constructed. The resolved classes, members and navigation chains it refers to are those of
  the resolver. Indices and multiplicity bounds are below \<open>2 ^ 32\<close>; the only arithmetic, the product of
  multiplicities, is checked.
\<close>

section \<open>Origins\<close>

definition BOOLEAN_TYPE :: string where "BOOLEAN_TYPE = ''Boolean''"
definition EXACTLY_ONE :: nat where "EXACTLY_ONE = 1"
definition INTEGER_TYPE :: string where "INTEGER_TYPE = ''Integer''"
definition STRING_TYPE :: string where "STRING_TYPE = ''String''"
definition MAX_RELATIONAL_RECURSION_DEPTH :: nat where "MAX_RELATIONAL_RECURSION_DEPTH = 32"

record SourceSpan =
  span_file :: nat
  span_range :: text_range

datatype ModelOriginKind = ClassOrigin | MemberOrigin

datatype ModelOriginIdentity =
  ClassIdentity string | MemberIdentity (identity_owner: string) (identity_name: string) (identity_kind: ResolvedMemberKind)

record ModelOrigin =
  origin_kind :: ModelOriginKind
  origin_provenance :: Provenance
  origin_definition :: DefinitionAnchor
  origin_identity :: ModelOriginIdentity

definition origin_from_class :: "ResolvedClass \<Rightarrow> ModelOrigin" where
  "origin_from_class c = \<lparr>origin_kind = ClassOrigin, origin_provenance = class_provenance c,
     origin_definition = class_definition c, origin_identity = ClassIdentity (class_path c)\<rparr>"

definition origin_from_member :: "ResolvedMember \<Rightarrow> ModelOrigin" where
  "origin_from_member m = \<lparr>origin_kind = MemberOrigin, origin_provenance = member_provenance m,
     origin_definition = member_definition m,
     origin_identity = MemberIdentity (class_path (member_owner m)) (member_name m) (member_kind m)\<rparr>"

fun qualified_kind_name :: "QpKind \<Rightarrow> string" where
  "qualified_kind_name UserQualified = ''qualified:user''"
| "qualified_kind_name MilestonedPoint = ''qualified:milestoned-point''"
| "qualified_kind_name AllVersions = ''qualified:all-versions''"
| "qualified_kind_name AllVersionsInRange = ''qualified:all-versions-in-range''"

definition structural_identity_key :: "ModelOrigin \<Rightarrow> string" where
  "structural_identity_key g =
     (case origin_identity g of
        ClassIdentity path \<Rightarrow> ''class:'' @ path
      | MemberIdentity owner name kind \<Rightarrow>
          (case kind of
             AssociationEnd association \<Rightarrow>
               ''member:'' @ owner @ '':'' @ name @ '':association-end:'' @ association
           | Qualified q \<Rightarrow> ''member:'' @ owner @ '':'' @ name @ '':'' @ qualified_kind_name q
           | Property \<Rightarrow> ''member:'' @ owner @ '':'' @ name @ '':'' @ ''property''))"

record IrOrigin =
  origin_source :: SourceSpan
  model_origins :: "ModelOrigin list"


section \<open>Columns, schemas and facts\<close>

type_synonym ColumnId = nat

datatype Nullability = NonNullable | Nullable | UnknownNullability

record Column =
  col_id :: ColumnId
  col_name :: string
  col_type :: TypeRef
  col_multiplicity :: Multiplicity
  col_nullability :: Nullability
  col_origin :: IrOrigin

type_synonym RelationSchema = "Column list"

datatype SchemaError = DuplicateColumnId ColumnId

fun schema_loop :: "Column list \<Rightarrow> ColumnId set \<Rightarrow> SchemaError + unit" where
  "schema_loop [] ids = Inr ()"
| "schema_loop (c # cs) ids =
     (if col_id c \<in> ids then Inl (DuplicateColumnId (col_id c)) else schema_loop cs (insert (col_id c) ids))"

definition schema_new :: "Column list \<Rightarrow> SchemaError + RelationSchema" where
  "schema_new columns = (case schema_loop columns {} of Inl e \<Rightarrow> Inl e | Inr _ \<Rightarrow> Inr columns)"

definition schema_column :: "RelationSchema \<Rightarrow> ColumnId \<Rightarrow> Column option" where
  "schema_column schema i = find (\<lambda>c. col_id c = i) schema"

text \<open>A candidate key: sorted column identities without repetition.\<close>

type_synonym CandidateKey = "ColumnId list"

definition candidate_key_new :: "ColumnId list \<Rightarrow> CandidateKey" where
  "candidate_key_new columns = remdups_adj (sort columns)"

datatype Totality = Total | Partial

datatype RowSemantics = SetRows | BagRows

datatype 'a Knowledge = Proven 'a IrOrigin | Unknown

fun as_proven :: "'a Knowledge \<Rightarrow> ('a \<times> IrOrigin) option" where
  "as_proven (Proven v g) = Some (v, g)"
| "as_proven Unknown = None"

fun is_unknown :: "'a Knowledge \<Rightarrow> bool" where
  "is_unknown Unknown \<longleftrightarrow> True"
| "is_unknown (Proven v g) \<longleftrightarrow> False"

definition matches_ignoring_origin :: "'a Knowledge \<Rightarrow> 'a Knowledge \<Rightarrow> bool" where
  "matches_ignoring_origin a b \<longleftrightarrow>
     (case (as_proven a, as_proven b) of
        (None, None) \<Rightarrow> True
      | (Some (l, _), Some (r, _)) \<Rightarrow> l = r
      | _ \<Rightarrow> False)"

fun canonicalize_candidate_keys :: "CandidateKey list Knowledge \<Rightarrow> CandidateKey list Knowledge" where
  "canonicalize_candidate_keys (Proven v g) = Proven (remdups_adj (sort v)) g"
| "canonicalize_candidate_keys Unknown = Unknown"

record RelationFacts =
  candidate_keys :: "CandidateKey list Knowledge"
  row_semantics :: "RowSemantics Knowledge"

definition facts_new :: "CandidateKey list Knowledge \<Rightarrow> RowSemantics Knowledge \<Rightarrow> RelationFacts" where
  "facts_new keys rows = \<lparr>candidate_keys = canonicalize_candidate_keys keys, row_semantics = rows\<rparr>"

definition facts_unknown :: RelationFacts where
  "facts_unknown = facts_new Unknown Unknown"

definition facts_match :: "RelationFacts \<Rightarrow> RelationFacts \<Rightarrow> bool" where
  "facts_match a b \<longleftrightarrow>
     matches_ignoring_origin (candidate_keys a) (candidate_keys b) \<and>
     matches_ignoring_origin (row_semantics a) (row_semantics b)"


section \<open>Scalar and relation expressions\<close>

record ResolvedNavigation =
  nav_receiver :: LocalValue
  nav_member :: ResolvedMember

definition navigation_from_chain :: "NavigationChain \<Rightarrow> ResolvedNavigation option" where
  "navigation_from_chain chain =
     (case chain_hops chain of
        [hop] \<Rightarrow>
          (case hop_target hop of
             MemberTarget m \<Rightarrow>
               if \<not> (case member_kind m of Property \<Rightarrow> True | AssociationEnd _ \<Rightarrow> True | Qualified _ \<Rightarrow> False) \<or>
                  \<not> is_to_one (member_multiplicity m)
               then None
               else Some \<lparr>nav_receiver = chain_source chain, nav_member = m\<rparr>
           | ColumnTarget _ \<Rightarrow> None)
      | _ \<Rightarrow> None)"

datatype ScalarLiteral = BooleanLit bool | IntegerLit int | StringLit string | NullLit

datatype ScalarOperator =
  ColumnRef ColumnId
| Literal ScalarLiteral
| Navigation ScalarExpression ResolvedNavigation
| Equal ScalarExpression ScalarExpression
| NotOp ScalarExpression
and ScalarExpression =
  ScalarExpr (s_operator: ScalarOperator) (s_type: TypeRef) (s_multiplicity: Multiplicity)
    (s_nullability: Nullability) (s_totality: "Totality Knowledge") (s_origin: IrOrigin)

datatype RelationSource = ClassSource ResolvedClass

datatype JoinKind = Inner

datatype ProjectionKind = ScalarProjection | RelationProjection

datatype SortDirection = Ascending | Descending

record SortKey =
  sort_column :: ColumnId
  sort_direction :: SortDirection
  sort_origin :: IrOrigin

record Projection =
  proj_column :: ColumnId
  proj_expression :: ScalarExpression

datatype RelationOperator =
  Scan RelationSource
| Filter RelationExpression ScalarExpression
| Project RelationExpression "Projection list" ProjectionKind
| Join JoinKind RelationExpression RelationExpression ScalarExpression
| Distinct RelationExpression
| DistinctOn RelationExpression "ColumnId list"
| Sort RelationExpression "SortKey list"
and RelationExpression =
  RelExpr (r_operator: RelationOperator) (r_schema: RelationSchema) (r_facts: RelationFacts) (r_origin: IrOrigin)

datatype RelationExpressionError =
  FilterSchemaMismatch | ProjectionSchemaMismatch | JoinSchemaMismatch | DistinctSchemaMismatch
| DistinctOnEmptySelection | DistinctOnDuplicateColumn ColumnId | DistinctOnUnknownColumn ColumnId
| DistinctOnSchemaMismatch | SortSchemaMismatch | EmptySortKeys | UnknownSortKeyColumn ColumnId
| DuplicateSortKeyColumn ColumnId | UnknownColumnReference ColumnId | UnknownKeyColumn ColumnId
| ColumnMetadataMismatch ColumnId | NavigationMetadataMismatch | ComparisonTypeMismatch
| InvalidLiteralType | NonBooleanPredicate

type_synonym validation = "RelationExpressionError + unit"


section \<open>Validation\<close>

definition is_exactly_one :: "Multiplicity \<Rightarrow> bool" where
  "is_exactly_one m \<longleftrightarrow> mult_lower m = EXACTLY_ONE \<and> mult_upper m = Some EXACTLY_ONE"

definition checked_mul_u32 :: "nat \<Rightarrow> nat \<Rightarrow> nat option" where
  "checked_mul_u32 a b = (if a * b \<le> u32_max then Some (a * b) else None)"

definition compose_navigation_multiplicity :: "Multiplicity \<Rightarrow> Multiplicity \<Rightarrow> Multiplicity option" where
  "compose_navigation_multiplicity receiver member =
     Option.bind (checked_mul_u32 (mult_lower receiver) (mult_lower member)) (\<lambda>lower.
     Option.bind (if mult_upper receiver = Some 0 \<or> mult_upper member = Some 0 then Some (Some 0)
                  else case (mult_upper receiver, mult_upper member) of
                    (Some l, Some r) \<Rightarrow> map_option Some (checked_mul_u32 l r)
                  | _ \<Rightarrow> Some None) (\<lambda>upper.
       case multiplicity_new lower upper of Inr m \<Rightarrow> Some m | Inl _ \<Rightarrow> None))"

definition same_column_metadata :: "ScalarExpression \<Rightarrow> Column \<Rightarrow> bool" where
  "same_column_metadata e c \<longleftrightarrow>
     s_type e = col_type c \<and> s_multiplicity e = col_multiplicity c \<and> s_nullability e = col_nullability c"

definition navigation_receiver_matches :: "ScalarExpression \<Rightarrow> LocalValue \<Rightarrow> bool" where
  "navigation_receiver_matches e receiver \<longleftrightarrow>
     (case value_kind receiver of
        ClassValue c \<Rightarrow>
          s_type e = TypeRef (class_path c) [] \<and> s_multiplicity e = value_multiplicity receiver \<and>
          origin_from_class c \<in> set (model_origins (s_origin e))
      | _ \<Rightarrow> False)"

definition validate_literal :: "ScalarExpression \<Rightarrow> ScalarLiteral \<Rightarrow> validation" where
  "validate_literal e literal =
     (let one_value = is_exactly_one (s_multiplicity e);
          primitive_type = (type_arguments (s_type e) = []);
          type_name = raw_type (s_type e);
          valid = (case literal of
             BooleanLit _ \<Rightarrow> primitive_type \<and> type_name = BOOLEAN_TYPE \<and> one_value \<and> s_nullability e = NonNullable
           | IntegerLit _ \<Rightarrow> primitive_type \<and> type_name = INTEGER_TYPE \<and> one_value \<and> s_nullability e = NonNullable
           | StringLit _ \<Rightarrow> primitive_type \<and> type_name = STRING_TYPE \<and> one_value \<and> s_nullability e = NonNullable
           | NullLit \<Rightarrow> one_value \<and> s_nullability e = Nullable)
      in if valid then Inr () else Inl InvalidLiteralType)"

definition validate_boolean :: "ScalarExpression \<Rightarrow> validation" where
  "validate_boolean e =
     (if raw_type (s_type e) = BOOLEAN_TYPE \<and> type_arguments (s_type e) = [] \<and>
         is_exactly_one (s_multiplicity e) \<and> s_nullability e = NonNullable
      then Inr () else Inl NonBooleanPredicate)"

text \<open>\<^verbatim>\<open>?\<close> on a validation.\<close>

definition and_then :: "validation \<Rightarrow> validation \<Rightarrow> validation" where
  "and_then a b = (case a of Inl e \<Rightarrow> Inl e | Inr _ \<Rightarrow> b)"

definition check_that :: "bool \<Rightarrow> RelationExpressionError \<Rightarrow> validation" where
  "check_that ok e = (if ok then Inr () else Inl e)"

definition find_column :: "RelationSchema list \<Rightarrow> ColumnId \<Rightarrow> Column option" where
  "find_column schemas i =
     (case List.map_filter (\<lambda>s. schema_column s i) schemas of [] \<Rightarrow> None | c # _ \<Rightarrow> Some c)"

definition validate_navigation :: "ScalarExpression \<Rightarrow> ScalarExpression \<Rightarrow> ResolvedNavigation \<Rightarrow> validation" where
  "validate_navigation e input navigation =
     (if \<not> navigation_receiver_matches input (nav_receiver navigation) then Inl NavigationMetadataMismatch
      else case compose_navigation_multiplicity (s_multiplicity input) (member_multiplicity (nav_member navigation)) of
        None \<Rightarrow> Inl NavigationMetadataMismatch
      | Some expected \<Rightarrow>
          check_that (s_type e = member_target (nav_member navigation) \<and> s_multiplicity e = expected \<and>
              s_nullability e = UnknownNullability \<and>
              origin_from_member (nav_member navigation) \<in> set (model_origins (s_origin e)))
            NavigationMetadataMismatch)"

fun validate_scalar :: "ScalarExpression \<Rightarrow> RelationSchema list \<Rightarrow> validation"
and validate_scalar_operator :: "ScalarExpression \<Rightarrow> ScalarOperator \<Rightarrow> RelationSchema list \<Rightarrow> validation" where
  "validate_scalar (ScalarExpr op t m n y g) schemas = validate_scalar_operator (ScalarExpr op t m n y g) op schemas"
| "validate_scalar_operator e (ColumnRef i) schemas =
     (case find_column schemas i of
        None \<Rightarrow> Inl (UnknownColumnReference i)
      | Some c \<Rightarrow> check_that (same_column_metadata e c) (ColumnMetadataMismatch i))"
| "validate_scalar_operator e (Literal l) schemas = validate_literal e l"
| "validate_scalar_operator e (Navigation input navigation) schemas =
     and_then (validate_scalar input schemas) (validate_navigation e input navigation)"
| "validate_scalar_operator e (Equal left right) schemas =
     and_then (validate_scalar left schemas)
       (and_then (validate_scalar right schemas)
         (and_then (check_that (s_type left = s_type right) ComparisonTypeMismatch) (validate_boolean e)))"
| "validate_scalar_operator e (NotOp input) schemas =
     and_then (validate_scalar input schemas) (and_then (validate_boolean input) (validate_boolean e))"

definition validate_projection_schema :: "Projection list \<Rightarrow> RelationSchema \<Rightarrow> validation" where
  "validate_projection_schema projections schema =
     (if length projections \<noteq> length schema \<or>
         list_ex (\<lambda>(p, c). proj_column p \<noteq> col_id c) (zip projections schema)
      then Inl ProjectionSchemaMismatch else Inr ())"

fun validate_projections :: "(Projection \<times> Column) list \<Rightarrow> RelationSchema \<Rightarrow> validation" where
  "validate_projections [] schema = Inr ()"
| "validate_projections ((p, c) # ps) schema =
     and_then (validate_scalar (proj_expression p) [schema])
       (and_then (check_that (same_column_metadata (proj_expression p) c) (ColumnMetadataMismatch (proj_column p)))
         (validate_projections ps schema))"

fun sort_keys_loop :: "SortKey list \<Rightarrow> RelationSchema \<Rightarrow> ColumnId set \<Rightarrow> validation" where
  "sort_keys_loop [] schema seen = Inr ()"
| "sort_keys_loop (k # ks) schema seen =
     (if schema_column schema (sort_column k) = None then Inl (UnknownSortKeyColumn (sort_column k))
      else if sort_column k \<in> seen then Inl (DuplicateSortKeyColumn (sort_column k))
      else sort_keys_loop ks schema (insert (sort_column k) seen))"

definition validate_sort :: "RelationExpression \<Rightarrow> SortKey list \<Rightarrow> RelationSchema \<Rightarrow> validation" where
  "validate_sort input keys schema =
     (if schema \<noteq> r_schema input then Inl SortSchemaMismatch
      else if keys = [] then Inl EmptySortKeys
      else sort_keys_loop keys (r_schema input) {})"

definition is_join_schema :: "RelationSchema \<Rightarrow> RelationSchema \<Rightarrow> RelationSchema \<Rightarrow> bool" where
  "is_join_schema schema left right \<longleftrightarrow> schema = left @ right"

fun distinct_on_loop :: "ColumnId list \<Rightarrow> RelationSchema \<Rightarrow> ColumnId set \<Rightarrow> RelationExpressionError + Column list" where
  "distinct_on_loop [] schema seen = Inr []"
| "distinct_on_loop (i # is) schema seen =
     (if i \<in> seen then Inl (DistinctOnDuplicateColumn i)
      else case schema_column schema i of
        None \<Rightarrow> Inl (DistinctOnUnknownColumn i)
      | Some c \<Rightarrow> map_sum (\<lambda>e. e) (Cons c) (distinct_on_loop is schema (insert i seen)))"

definition validate_distinct_on_schema :: "ColumnId list \<Rightarrow> RelationSchema \<Rightarrow> RelationSchema \<Rightarrow> validation" where
  "validate_distinct_on_schema columns schema input =
     (if columns = [] then Inl DistinctOnEmptySelection
      else case distinct_on_loop columns input {} of
        Inl e \<Rightarrow> Inl e
      | Inr selected \<Rightarrow> check_that (schema = selected) DistinctOnSchemaMismatch)"

fun validate_relation_operator :: "RelationOperator \<Rightarrow> RelationSchema \<Rightarrow> validation" where
  "validate_relation_operator (Scan source) schema = Inr ()"
| "validate_relation_operator (Filter input predicate) schema =
     (if schema \<noteq> r_schema input then Inl FilterSchemaMismatch
      else and_then (validate_scalar predicate [r_schema input]) (validate_boolean predicate))"
| "validate_relation_operator (Project input projections kind) schema =
     and_then (validate_projection_schema projections schema)
       (validate_projections (zip projections schema) (r_schema input))"
| "validate_relation_operator (Join kind left right condition) schema =
     (if \<not> is_join_schema schema (r_schema left) (r_schema right) then Inl JoinSchemaMismatch
      else and_then (validate_scalar condition [r_schema left, r_schema right]) (validate_boolean condition))"
| "validate_relation_operator (Distinct input) schema = check_that (schema = r_schema input) DistinctSchemaMismatch"
| "validate_relation_operator (DistinctOn input columns) schema =
     validate_distinct_on_schema columns schema (r_schema input)"
| "validate_relation_operator (Sort input keys) schema = validate_sort input keys schema"

definition validate_expression_keys :: "RelationSchema \<Rightarrow> CandidateKey list Knowledge \<Rightarrow> validation" where
  "validate_expression_keys schema keys =
     (case as_proven keys of
        None \<Rightarrow> Inr ()
      | Some (keys, _) \<Rightarrow>
          (case find (\<lambda>i. schema_column schema i = None) (concat keys) of
             None \<Rightarrow> Inr ()
           | Some i \<Rightarrow> Inl (UnknownKeyColumn i)))"

definition relation_new ::
    "RelationOperator \<Rightarrow> RelationSchema \<Rightarrow> RelationFacts \<Rightarrow> IrOrigin \<Rightarrow> RelationExpressionError + RelationExpression" where
  "relation_new op schema facts origin =
     (case and_then (validate_relation_operator op schema) (validate_expression_keys schema (candidate_keys facts)) of
        Inl e \<Rightarrow> Inl e
      | Inr _ \<Rightarrow> Inr (RelExpr op schema facts origin))"

text \<open>The source a chain of inputs ends in.\<close>

fun leaf_source :: "RelationExpression \<Rightarrow> RelationSource" and leaf_of :: "RelationOperator \<Rightarrow> RelationSource" where
  "leaf_source (RelExpr op s f g) = leaf_of op"
| "leaf_of (Scan source) = source"
| "leaf_of (Filter input p) = leaf_source input"
| "leaf_of (Project input ps k) = leaf_source input"
| "leaf_of (Distinct input) = leaf_source input"
| "leaf_of (DistinctOn input cs) = leaf_source input"
| "leaf_of (Sort input ks) = leaf_source input"
| "leaf_of (Join k left right c) = leaf_source left"

record OpaqueOutcome =
  opaque_reason :: ReasonCode
  opaque_origin :: IrOrigin

datatype RelationalOutcome = Supported RelationExpression | Opaque OpaqueOutcome

end
