(* ===== verification/Normalizer.thy ===== *)
theory Normalizer
  imports Relational Decimals
begin

text \<open>
  Normalization of relational queries (\<^verbatim>\<open>crates/pure-analyzer-analysis/src/normalizer.rs\<close>): a traversal with a
  step and a depth budget that removes identity projections, filters by a literal \<^verbatim>\<open>true\<close> and repeated
  \<^verbatim>\<open>Distinct\<close> operators, and the length-delimited keys by which normal forms are compared. The step budget
  is threaded through the traversal; the depth, which every visit restores, is an argument. The encoder
  writes only through \<^verbatim>\<open>write_fragment\<close>, so a key is modelled as the list of its fragments and rendered.
\<close>

section \<open>The traversal\<close>

definition NORMALIZATION_FANOUT_HEADROOM :: nat where "NORMALIZATION_FANOUT_HEADROOM = 128"

definition DEFAULT_NORMALIZATION_STEP_LIMIT :: nat where
  "DEFAULT_NORMALIZATION_STEP_LIMIT = MAX_RELATIONAL_RECURSION_DEPTH * NORMALIZATION_FANOUT_HEADROOM"

record NormalizationFailure =
  failure_reason :: ReasonCode
  failure_origin :: IrOrigin

definition missing_rewrite :: "IrOrigin \<Rightarrow> NormalizationFailure" where
  "missing_rewrite origin = \<lparr>failure_reason = IndMissingRewrite, failure_origin = origin\<rparr>"

definition consume :: "IrOrigin \<Rightarrow> nat \<Rightarrow> NormalizationFailure + nat" where
  "consume origin steps = (if steps = 0 then Inl (missing_rewrite origin) else Inr (steps - 1))"

definition enter_depth :: "IrOrigin \<Rightarrow> nat \<Rightarrow> NormalizationFailure + nat" where
  "enter_depth origin depth =
     (if depth \<ge> MAX_RELATIONAL_RECURSION_DEPTH then Inl (missing_rewrite origin) else Inr (depth + 1))"

text \<open>\<^verbatim>\<open>self.consume(origin)?; self.enter(origin)?\<close>: the remaining steps and the depth inside.\<close>

definition visit_node :: "IrOrigin \<Rightarrow> nat \<Rightarrow> nat \<Rightarrow> NormalizationFailure + nat \<times> nat" where
  "visit_node origin depth steps =
     (case consume origin steps of
        Inl f \<Rightarrow> Inl f
      | Inr steps \<Rightarrow> (case enter_depth origin depth of Inl f \<Rightarrow> Inl f | Inr depth \<Rightarrow> Inr (depth, steps)))"

fun norm_scalar :: "nat \<Rightarrow> ScalarExpression \<Rightarrow> nat \<Rightarrow> NormalizationFailure + ScalarExpression \<times> nat"
and scalar_at_depth :: "nat \<Rightarrow> ScalarOperator \<Rightarrow> nat \<Rightarrow> NormalizationFailure + nat" where
  "norm_scalar depth (ScalarExpr op t m n y g) steps =
     (case visit_node g depth steps of
        Inl f \<Rightarrow> Inl f
      | Inr (depth, steps) \<Rightarrow>
          (case scalar_at_depth depth op steps of
             Inl f \<Rightarrow> Inl f
           | Inr steps \<Rightarrow> Inr (ScalarExpr op t m n y g, steps)))"
| "scalar_at_depth depth (ColumnRef i) steps = Inr steps"
| "scalar_at_depth depth (Literal l) steps = Inr steps"
| "scalar_at_depth depth (Navigation input nav) steps = map_sum (\<lambda>f. f) snd (norm_scalar depth input steps)"
| "scalar_at_depth depth (NotOp input) steps = map_sum (\<lambda>f. f) snd (norm_scalar depth input steps)"
| "scalar_at_depth depth (Equal left right) steps =
     (case norm_scalar depth left steps of
        Inl f \<Rightarrow> Inl f
      | Inr (_, steps) \<Rightarrow> map_sum (\<lambda>f. f) snd (norm_scalar depth right steps))"

fun norm_projections :: "nat \<Rightarrow> Projection list \<Rightarrow> nat \<Rightarrow> NormalizationFailure + Projection list \<times> nat" where
  "norm_projections depth [] steps = Inr ([], steps)"
| "norm_projections depth (p # ps) steps =
     (case norm_scalar depth (proj_expression p) steps of
        Inl f \<Rightarrow> Inl f
      | Inr (e, steps) \<Rightarrow>
          (case norm_projections depth ps steps of
             Inl f \<Rightarrow> Inl f
           | Inr (ps, steps) \<Rightarrow> Inr (\<lparr>proj_column = proj_column p, proj_expression = e\<rparr> # ps, steps)))"

definition rebuild ::
    "RelationOperator \<Rightarrow> RelationSchema \<Rightarrow> RelationFacts \<Rightarrow> IrOrigin \<Rightarrow> NormalizationFailure + RelationExpression" where
  "rebuild op schema facts origin =
     (case relation_new op schema facts origin of Inl _ \<Rightarrow> Inl (missing_rewrite origin) | Inr e \<Rightarrow> Inr e)"

definition is_identity_read :: "Projection \<Rightarrow> Column \<Rightarrow> bool" where
  "is_identity_read p c \<longleftrightarrow>
     proj_column p = col_id c \<and> s_type (proj_expression p) = col_type c \<and>
     s_multiplicity (proj_expression p) = col_multiplicity c \<and>
     s_nullability (proj_expression p) = col_nullability c \<and>
     is_unknown (s_totality (proj_expression p)) \<and>
     s_operator (proj_expression p) = ColumnRef (col_id c)"

definition is_identity_project ::
    "RelationExpression \<Rightarrow> RelationSchema \<Rightarrow> RelationFacts \<Rightarrow> Projection list \<Rightarrow> bool" where
  "is_identity_project input schema facts projections \<longleftrightarrow>
     schema = r_schema input \<and> facts = r_facts input \<and> length projections = length schema \<and>
     list_all (\<lambda>(p, c). is_identity_read p c) (zip projections schema)"

definition is_literal_true_filter ::
    "RelationExpression \<Rightarrow> RelationSchema \<Rightarrow> RelationFacts \<Rightarrow> ScalarExpression \<Rightarrow> bool" where
  "is_literal_true_filter input schema facts predicate \<longleftrightarrow>
     schema = r_schema input \<and> facts = r_facts input \<and> is_unknown (s_totality predicate) \<and>
     s_operator predicate = Literal (BooleanLit True)"

definition is_distinct_operator :: "RelationOperator \<Rightarrow> bool" where
  "is_distinct_operator op = (case op of Distinct _ \<Rightarrow> True | _ \<Rightarrow> False)"

definition is_repeated_distinct :: "RelationExpression \<Rightarrow> RelationSchema \<Rightarrow> RelationFacts \<Rightarrow> bool" where
  "is_repeated_distinct input schema facts \<longleftrightarrow>
     schema = r_schema input \<and> facts_match facts (r_facts input) \<and> is_distinct_operator (r_operator input)"

text \<open>A rebuilt node with the steps that are left.\<close>

definition rebuilt ::
    "RelationOperator \<Rightarrow> RelationSchema \<Rightarrow> RelationFacts \<Rightarrow> IrOrigin \<Rightarrow> nat \<Rightarrow>
     NormalizationFailure + RelationExpression \<times> nat" where
  "rebuilt op schema facts origin steps = map_sum (\<lambda>f. f) (\<lambda>e. (e, steps)) (rebuild op schema facts origin)"

fun norm_relation :: "nat \<Rightarrow> RelationExpression \<Rightarrow> nat \<Rightarrow> NormalizationFailure + RelationExpression \<times> nat"
and relation_at_depth ::
    "nat \<Rightarrow> RelationOperator \<Rightarrow> RelationSchema \<Rightarrow> RelationFacts \<Rightarrow> IrOrigin \<Rightarrow> nat \<Rightarrow>
     NormalizationFailure + RelationExpression \<times> nat" where
  "norm_relation depth (RelExpr op schema facts origin) steps =
     (case visit_node origin depth steps of
        Inl f \<Rightarrow> Inl f
      | Inr (depth, steps) \<Rightarrow> relation_at_depth depth op schema facts origin steps)"
| "relation_at_depth depth (Scan source) schema facts origin steps =
     Inr (RelExpr (Scan source) schema facts origin, steps)"
| "relation_at_depth depth (Filter input predicate) schema facts origin steps =
     (case norm_relation depth input steps of
        Inl f \<Rightarrow> Inl f
      | Inr (input, steps) \<Rightarrow>
          (case norm_scalar depth predicate steps of
             Inl f \<Rightarrow> Inl f
           | Inr (predicate, steps) \<Rightarrow>
               if is_literal_true_filter input schema facts predicate then Inr (input, steps)
               else rebuilt (Filter input predicate) schema facts origin steps))"
| "relation_at_depth depth (Project input projections kind) schema facts origin steps =
     (case norm_relation depth input steps of
        Inl f \<Rightarrow> Inl f
      | Inr (input, steps) \<Rightarrow>
          (case norm_projections depth projections steps of
             Inl f \<Rightarrow> Inl f
           | Inr (projections, steps) \<Rightarrow>
               if is_identity_project input schema facts projections then Inr (input, steps)
               else rebuilt (Project input projections kind) schema facts origin steps))"
| "relation_at_depth depth (Join kind left right condition) schema facts origin steps =
     (case norm_relation depth left steps of
        Inl f \<Rightarrow> Inl f
      | Inr (left, steps) \<Rightarrow>
          (case norm_relation depth right steps of
             Inl f \<Rightarrow> Inl f
           | Inr (right, steps) \<Rightarrow>
               (case norm_scalar depth condition steps of
                  Inl f \<Rightarrow> Inl f
                | Inr (condition, steps) \<Rightarrow>
                    rebuilt (Join kind left right condition) schema facts origin steps)))"
| "relation_at_depth depth (Distinct input) schema facts origin steps =
     (case norm_relation depth input steps of
        Inl f \<Rightarrow> Inl f
      | Inr (input, steps) \<Rightarrow>
          if is_repeated_distinct input schema facts then Inr (input, steps)
          else rebuilt (Distinct input) schema facts origin steps)"
| "relation_at_depth depth (DistinctOn input columns) schema facts origin steps =
     (case norm_relation depth input steps of
        Inl f \<Rightarrow> Inl f
      | Inr (input, steps) \<Rightarrow> rebuilt (DistinctOn input columns) schema facts origin steps)"
| "relation_at_depth depth (Sort input keys) schema facts origin steps =
     (case norm_relation depth input steps of
        Inl f \<Rightarrow> Inl f
      | Inr (input, steps) \<Rightarrow> rebuilt (Sort input keys) schema facts origin steps)"


section \<open>Keys\<close>

type_synonym fragments = "string list"

definition write_fragment :: "string \<Rightarrow> string" where
  "write_fragment v = show_usize (length v) @ '':'' @ v"

definition render_fragments :: "fragments \<Rightarrow> string" where
  "render_fragments fs = concat (map write_fragment fs)"

definition show_i64 :: "int \<Rightarrow> string" where
  "show_i64 i = (if i < 0 then ''-'' @ show_usize (nat (- i)) else show_usize (nat i))"

text \<open>The position of a column in a scope; a repeated identity keeps its last position.\<close>

type_synonym ColumnScope = "ColumnId list"

definition scope_of :: "RelationSchema \<Rightarrow> ColumnScope" where
  "scope_of schema = map col_id schema"

definition scope_position :: "ColumnScope \<Rightarrow> ColumnId \<Rightarrow> nat option" where
  "scope_position scope i = bt_get (fold (\<lambda>(i, p). bt_insert i p) (zip scope [0..<length scope]) []) i"

definition key_column_id :: "ColumnScope \<Rightarrow> ColumnId \<Rightarrow> fragments" where
  "key_column_id scope i =
     [''column-id'', case scope_position scope i of Some p \<Rightarrow> show_usize p | None \<Rightarrow> ''missing'']"

fun key_type_ref :: "TypeRef \<Rightarrow> fragments" where
  "key_type_ref (TypeRef raw args) =
     [''type'', raw, show_usize (length args)] @ concat (map key_type_ref args)"

definition key_multiplicity :: "Multiplicity \<Rightarrow> fragments" where
  "key_multiplicity m =
     [''multiplicity'', show_usize (mult_lower m),
      case mult_upper m of Some u \<Rightarrow> show_usize u | None \<Rightarrow> ''unbounded'']"

fun key_nullability :: "Nullability \<Rightarrow> fragments" where
  "key_nullability NonNullable = [''non-null'']"
| "key_nullability Nullable = [''nullable'']"
| "key_nullability UnknownNullability = [''unknown'']"

definition key_range :: "text_range \<Rightarrow> fragments" where
  "key_range r = [show_usize (range_start r), show_usize (range_end r)]"

fun key_provenance :: "Provenance \<Rightarrow> fragments" where
  "key_provenance Pmcd = [''pmcd'']"
| "key_provenance PureFile = [''pure-file'']"

definition key_anchor :: "DefinitionAnchor \<Rightarrow> fragments" where
  "key_anchor a =
     [''anchor'', show_usize (anchor_source a)] @
     (case anchor_span a of Some span \<Rightarrow> key_range span | None \<Rightarrow> [''no-span''])"

definition model_origin_key :: "ModelOrigin \<Rightarrow> string" where
  "model_origin_key g =
     render_fragments
       ([case origin_kind g of ClassOrigin \<Rightarrow> ''class'' | MemberOrigin \<Rightarrow> ''member''] @
        key_provenance (origin_provenance g) @
        [show_usize (anchor_source (origin_definition g))] @
        (case anchor_span (origin_definition g) of Some span \<Rightarrow> key_range span | None \<Rightarrow> [''no-span'']) @
        [structural_identity_key g])"

definition key_origin :: "IrOrigin \<Rightarrow> fragments" where
  "key_origin g =
     (let keys = remdups_adj (sort (map model_origin_key (model_origins g)))
      in [''origin'', show_usize (span_file (origin_source g))] @ key_range (span_range (origin_source g)) @
         [show_usize (length keys)] @ keys)"

text \<open>The provenance is written only by the encoder of the structural key.\<close>

definition when_full :: "bool \<Rightarrow> fragments \<Rightarrow> fragments" where
  "when_full full fs = (if full then fs else [])"

definition key_class :: "bool \<Rightarrow> ResolvedClass \<Rightarrow> fragments" where
  "key_class full c =
     [''resolved-class'', class_path c,
      case class_temporal c of
        None \<Rightarrow> ''non-temporal''
      | Some Bitemporal \<Rightarrow> ''bitemporal''
      | Some BusinessTemporal \<Rightarrow> ''business-temporal''
      | Some ProcessingTemporal \<Rightarrow> ''processing-temporal''] @
     when_full full (key_provenance (class_provenance c) @ key_anchor (class_definition c))"

fun key_member_kind :: "ResolvedMemberKind \<Rightarrow> fragments" where
  "key_member_kind (Qualified UserQualified) = [''qualified'', ''user'']"
| "key_member_kind (Qualified MilestonedPoint) = [''qualified'', ''milestoned-point'']"
| "key_member_kind (Qualified AllVersions) = [''qualified'', ''all-versions'']"
| "key_member_kind (Qualified AllVersionsInRange) = [''qualified'', ''all-versions-in-range'']"
| "key_member_kind Property = [''property'']"
| "key_member_kind (AssociationEnd association) = [''association-end'', association]"

definition key_member :: "bool \<Rightarrow> ResolvedMember \<Rightarrow> fragments" where
  "key_member full m =
     [''resolved-member''] @ key_class full (member_owner m) @ [member_name m] @ key_type_ref (member_target m) @
     key_multiplicity (member_multiplicity m) @ key_member_kind (member_kind m) @
     (case member_signature m of
        Some args \<Rightarrow> [''signature'', show_usize (length args)] @ concat (map key_type_ref args)
      | None \<Rightarrow> [''no-signature'']) @
     [case member_temporal_arity m of Some arity \<Rightarrow> show_usize arity | None \<Rightarrow> ''no-target-temporal-arity''] @
     when_full full (key_provenance (member_provenance m) @ key_anchor (member_definition m))"

fun key_literal :: "ScalarLiteral \<Rightarrow> fragments" where
  "key_literal (BooleanLit b) = [''boolean'', if b then ''true'' else ''false'']"
| "key_literal (IntegerLit i) = [''integer'', show_i64 i]"
| "key_literal (StringLit s) = [''string'', s]"
| "key_literal NullLit = [''null'']"

fun key_totality :: "bool \<Rightarrow> Totality Knowledge \<Rightarrow> fragments" where
  "key_totality full Unknown = [''totality'', ''unknown'']"
| "key_totality full (Proven v g) =
     [''totality'', ''proven'', case v of Total \<Rightarrow> ''total'' | Partial \<Rightarrow> ''partial''] @ when_full full (key_origin g)"

fun key_scalar :: "bool \<Rightarrow> ColumnScope \<Rightarrow> ScalarExpression \<Rightarrow> fragments"
and key_scalar_operator :: "bool \<Rightarrow> ColumnScope \<Rightarrow> ScalarOperator \<Rightarrow> fragments" where
  "key_scalar full scope (ScalarExpr op t m n y g) =
     [''scalar''] @ key_type_ref t @ key_multiplicity m @ key_nullability n @ key_totality full y @
     when_full full (key_origin g) @ key_scalar_operator full scope op"
| "key_scalar_operator full scope (ColumnRef i) = [''column''] @ key_column_id scope i"
| "key_scalar_operator full scope (Literal l) = key_literal l"
| "key_scalar_operator full scope (Navigation input nav) =
     [''navigation''] @ key_scalar full scope input @ key_member full (nav_member nav)"
| "key_scalar_operator full scope (Equal left right) =
     [''equal''] @ key_scalar full scope left @ key_scalar full scope right"
| "key_scalar_operator full scope (NotOp input) = [''not''] @ key_scalar full scope input"

definition key_column :: "bool \<Rightarrow> ColumnScope \<Rightarrow> Column \<Rightarrow> fragments" where
  "key_column full scope c =
     [''column''] @ key_column_id scope (col_id c) @ [col_name c] @ key_type_ref (col_type c) @
     key_multiplicity (col_multiplicity c) @ key_nullability (col_nullability c) @ when_full full (key_origin (col_origin c))"

definition key_schema :: "bool \<Rightarrow> RelationSchema \<Rightarrow> ColumnScope \<Rightarrow> fragments" where
  "key_schema full schema scope =
     [''schema'', show_usize (length schema)] @ concat (map (key_column full scope) schema)"

fun key_keys :: "bool \<Rightarrow> CandidateKey list Knowledge \<Rightarrow> ColumnScope \<Rightarrow> fragments" where
  "key_keys full Unknown scope = [''keys'', ''unknown'']"
| "key_keys full (Proven v g) scope =
     (let keys = remdups_adj (sort (map (\<lambda>key. sort (List.map_filter (scope_position scope) key)) v))
      in [''keys'', ''proven'', show_usize (length keys)] @
         concat (map (\<lambda>key. show_usize (length key) # map show_usize key) keys) @ when_full full (key_origin g))"

fun key_row_semantics :: "bool \<Rightarrow> RowSemantics Knowledge \<Rightarrow> fragments" where
  "key_row_semantics full Unknown = [''row-semantics'', ''unknown'']"
| "key_row_semantics full (Proven v g) =
     [''row-semantics'', ''proven'', case v of SetRows \<Rightarrow> ''set'' | BagRows \<Rightarrow> ''bag''] @ when_full full (key_origin g)"

definition key_facts :: "bool \<Rightarrow> RelationFacts \<Rightarrow> ColumnScope \<Rightarrow> fragments" where
  "key_facts full f scope =
     [''facts''] @ key_keys full (candidate_keys f) scope @ key_row_semantics full (row_semantics f)"

fun key_source :: "bool \<Rightarrow> RelationSource \<Rightarrow> fragments" where
  "key_source full (ClassSource c) = [''class''] @ key_class full c"

definition key_sort_key :: "bool \<Rightarrow> ColumnScope \<Rightarrow> SortKey \<Rightarrow> fragments" where
  "key_sort_key full scope k =
     [''sort-key''] @ key_column_id scope (sort_column k) @
     [case sort_direction k of Ascending \<Rightarrow> ''ascending'' | Descending \<Rightarrow> ''descending''] @
     when_full full (key_origin (sort_origin k))"

definition key_projection :: "bool \<Rightarrow> ColumnScope \<Rightarrow> ColumnScope \<Rightarrow> Projection \<Rightarrow> fragments" where
  "key_projection full out_scope in_scope p =
     key_column_id out_scope (proj_column p) @ key_scalar full in_scope (proj_expression p)"

fun key_relation :: "bool \<Rightarrow> RelationExpression \<Rightarrow> fragments"
and key_operator :: "bool \<Rightarrow> ColumnScope \<Rightarrow> RelationOperator \<Rightarrow> fragments" where
  "key_relation full (RelExpr op schema facts origin) =
     [''relation''] @ key_schema full schema (scope_of schema) @ key_facts full facts (scope_of schema) @
     when_full full (key_origin origin) @ key_operator full (scope_of schema) op"
| "key_operator full out_scope (Scan source) = [''scan''] @ key_source full source"
| "key_operator full out_scope (Filter input predicate) =
     [''filter''] @ key_relation full input @ key_scalar full (scope_of (r_schema input)) predicate"
| "key_operator full out_scope (Project input projections kind) =
     [''project'', case kind of ScalarProjection \<Rightarrow> ''scalar'' | RelationProjection \<Rightarrow> ''relation''] @
     key_relation full input @ [show_usize (length projections)] @
     concat (map (key_projection full out_scope (scope_of (r_schema input))) projections)"
| "key_operator full out_scope (Join kind left right condition) =
     [''join'', case kind of Inner \<Rightarrow> ''inner''] @ key_relation full left @ key_relation full right @
     key_scalar full (scope_of (r_schema left @ r_schema right)) condition"
| "key_operator full out_scope (Distinct input) = [''distinct''] @ key_relation full input"
| "key_operator full out_scope (DistinctOn input columns) =
     [''distinct-on''] @ key_relation full input @ [show_usize (length columns)] @
     concat (map (key_column_id (scope_of (r_schema input))) columns)"
| "key_operator full out_scope (Sort input keys) =
     [''sort''] @ key_relation full input @ [show_usize (length keys)] @
     concat (map (key_sort_key full (scope_of (r_schema input))) keys)"


section \<open>Normalization of a query\<close>

record NormalizedQuery =
  normal_root :: RelationExpression
  equivalence_key :: string
  structural_key :: string

datatype NormalizationOutcome = Normalized NormalizedQuery | Indecisive NormalizationFailure

definition normalize_relational_query_with_budget :: "RelationExpression \<Rightarrow> nat \<Rightarrow> NormalizationOutcome" where
  "normalize_relational_query_with_budget query max_steps =
     (case norm_relation 0 query max_steps of
        Inl failure \<Rightarrow> Indecisive failure
      | Inr (root, _) \<Rightarrow>
          let semantic = render_fragments (key_relation False root);
              provenance = render_fragments (key_relation True query)
          in Normalized \<lparr>normal_root = root, equivalence_key = semantic,
               structural_key = render_fragments [''normal-form-v1'', semantic, ''input-provenance-v1'', provenance]\<rparr>)"

definition normalize_relational_query :: "RelationExpression \<Rightarrow> NormalizationOutcome" where
  "normalize_relational_query query = normalize_relational_query_with_budget query DEFAULT_NORMALIZATION_STEP_LIMIT"

end
