(* ===== verification/Comparison.thy ===== *)
theory Comparison
  imports Normalizer
begin

text \<open>
  The comparison of lowered relational queries (\<^verbatim>\<open>crates/pure-analyzer-analysis/src/comparison.rs\<close>): equality
  of equivalence keys commits to equivalence, an incompatible ordered output schema to non-equivalence,
  everything else is an indecision whose reason and origin are chosen independently of the argument order.
\<close>

section \<open>Outcomes\<close>

record ComparisonIndecision =
  indecision_reason :: ReasonCode
  indecision_origin :: IrOrigin

datatype OutputSchemaField = NameField | TypeField | MultiplicityField | NullabilityField

datatype StructuralDifferenceKind = OutputColumnCount nat nat | OutputColumn nat OutputSchemaField

record StructuralDifference =
  difference_kind :: StructuralDifferenceKind
  primary_origin :: IrOrigin
  secondary_origin :: IrOrigin

datatype ComparisonOutcome =
  EquivalentQueries | NotEquivalent StructuralDifference | IndecisiveQueries ComparisonIndecision

fun outcome_difference :: "ComparisonOutcome \<Rightarrow> StructuralDifference option" where
  "outcome_difference (NotEquivalent d) = Some d"
| "outcome_difference EquivalentQueries = None"
| "outcome_difference (IndecisiveQueries i) = None"

fun outcome_indecision :: "ComparisonOutcome \<Rightarrow> ComparisonIndecision option" where
  "outcome_indecision (IndecisiveQueries i) = Some i"
| "outcome_indecision EquivalentQueries = None"
| "outcome_indecision (NotEquivalent d) = None"


section \<open>The order of origins\<close>

datatype Ordering = LessThan | EqualTo | GreaterThan

definition cmp :: "'a::linorder \<Rightarrow> 'a \<Rightarrow> Ordering" where
  "cmp a b = (if a < b then LessThan else if a = b then EqualTo else GreaterThan)"

definition then_with :: "Ordering \<Rightarrow> Ordering \<Rightarrow> Ordering" where
  "then_with a b = (if a = EqualTo then b else a)"

definition is_le :: "Ordering \<Rightarrow> bool" where
  "is_le a \<longleftrightarrow> a \<noteq> GreaterThan"

instantiation Provenance :: linorder
begin

definition less_eq_Provenance :: "Provenance \<Rightarrow> Provenance \<Rightarrow> bool" where
  "less_eq_Provenance a b \<longleftrightarrow> a = Pmcd \<or> b = PureFile"

definition less_Provenance :: "Provenance \<Rightarrow> Provenance \<Rightarrow> bool" where
  "less_Provenance a b \<longleftrightarrow> a = Pmcd \<and> b = PureFile"

instance
proof
  fix a b :: Provenance
  show "(a < b) = (a \<le> b \<and> \<not> b \<le> a)" "a \<le> b \<or> b \<le> a" "a \<le> a"
    by (cases a; cases b; simp add: less_eq_Provenance_def less_Provenance_def)+
qed (auto simp: less_eq_Provenance_def)

end

definition model_origin_kind_name :: "ModelOriginKind \<Rightarrow> string" where
  "model_origin_kind_name k = (case k of ClassOrigin \<Rightarrow> ''class'' | MemberOrigin \<Rightarrow> ''member'')"

text \<open>\<^verbatim>\<open>ModelOriginKey\<close> with its derived order: kind, provenance, source, span, identity.\<close>

type_synonym ModelOriginKey = "string \<times> Provenance \<times> nat \<times> (nat \<times> nat) option \<times> string"

definition model_origin_keys :: "ModelOrigin list \<Rightarrow> ModelOriginKey list" where
  "model_origin_keys origins = remdups_adj (sort (map (\<lambda>g.
     (model_origin_kind_name (origin_kind g), origin_provenance g, anchor_source (origin_definition g),
      map_option (\<lambda>r. (range_start r, range_end r)) (anchor_span (origin_definition g)),
      structural_identity_key g)) origins))"

definition compare_origins :: "IrOrigin \<Rightarrow> IrOrigin \<Rightarrow> Ordering" where
  "compare_origins left right =
     (let l = origin_source left; r = origin_source right in
      then_with (cmp (span_file l) (span_file r))
        (then_with (cmp (range_start (span_range l)) (range_start (span_range r)))
          (then_with (cmp (range_end (span_range l)) (range_end (span_range r)))
            (cmp (model_origin_keys (model_origins left)) (model_origin_keys (model_origins right))))))"

definition indecision_from_failure :: "NormalizationFailure \<Rightarrow> ComparisonIndecision" where
  "indecision_from_failure f = \<lparr>indecision_reason = failure_reason f, indecision_origin = failure_origin f\<rparr>"

definition indecision_from_opaque :: "OpaqueOutcome \<Rightarrow> ComparisonIndecision" where
  "indecision_from_opaque q = \<lparr>indecision_reason = opaque_reason q, indecision_origin = opaque_origin q\<rparr>"

definition canonical_failure_indecision :: "NormalizationFailure \<Rightarrow> NormalizationFailure \<Rightarrow> ComparisonIndecision" where
  "canonical_failure_indecision left right =
     (if is_le (then_with (cmp (reason_id (failure_reason left)) (reason_id (failure_reason right)))
          (compare_origins (failure_origin left) (failure_origin right)))
      then indecision_from_failure left else indecision_from_failure right)"

definition canonical_opaque_indecision :: "OpaqueOutcome \<Rightarrow> OpaqueOutcome \<Rightarrow> ComparisonIndecision" where
  "canonical_opaque_indecision left right =
     (if is_le (then_with (cmp (reason_id (opaque_reason left)) (reason_id (opaque_reason right)))
          (compare_origins (opaque_origin left) (opaque_origin right)))
      then indecision_from_opaque left else indecision_from_opaque right)"


section \<open>Differences of output schemas\<close>

definition nullability_contradicts :: "Nullability \<Rightarrow> Nullability \<Rightarrow> bool" where
  "nullability_contradicts left right \<longleftrightarrow>
     (left, right) \<in> {(NonNullable, Nullable), (Nullable, NonNullable)}"

definition output_column_field_difference :: "Column \<Rightarrow> Column \<Rightarrow> OutputSchemaField option" where
  "output_column_field_difference left right =
     (if col_name left \<noteq> col_name right then Some NameField
      else if col_type left \<noteq> col_type right then Some TypeField
      else if col_multiplicity left \<noteq> col_multiplicity right then Some MultiplicityField
      else if nullability_contradicts (col_nullability left) (col_nullability right) then Some NullabilityField
      else None)"

definition canonical_normalized_origins ::
    "NormalizedQuery \<Rightarrow> NormalizedQuery \<Rightarrow> IrOrigin \<Rightarrow> IrOrigin \<Rightarrow> IrOrigin \<times> IrOrigin" where
  "canonical_normalized_origins left right left_origin right_origin =
     (if structural_key left \<le> structural_key right then (left_origin, right_origin) else (right_origin, left_origin))"

definition canonical_normalized_origin :: "NormalizedQuery \<Rightarrow> NormalizedQuery \<Rightarrow> IrOrigin" where
  "canonical_normalized_origin left right =
     (if structural_key left \<le> structural_key right then r_origin (normal_root left) else r_origin (normal_root right))"

definition output_column_count_difference ::
    "NormalizedQuery \<Rightarrow> NormalizedQuery \<Rightarrow> nat \<Rightarrow> nat \<Rightarrow> StructuralDifference" where
  "output_column_count_difference left right left_count right_count =
     (if structural_key left \<le> structural_key right
      then \<lparr>difference_kind = OutputColumnCount left_count right_count,
            primary_origin = r_origin (normal_root left), secondary_origin = r_origin (normal_root right)\<rparr>
      else \<lparr>difference_kind = OutputColumnCount right_count left_count,
            primary_origin = r_origin (normal_root right), secondary_origin = r_origin (normal_root left)\<rparr>)"

text \<open>\<^verbatim>\<open>enumerate().find_map(..)\<close> over the zipped columns.\<close>

fun column_difference_at ::
    "NormalizedQuery \<Rightarrow> NormalizedQuery \<Rightarrow> nat \<Rightarrow> (Column \<times> Column) list \<Rightarrow> StructuralDifference option" where
  "column_difference_at left right index [] = None"
| "column_difference_at left right index ((l, r) # cs) =
     (case output_column_field_difference l r of
        Some field \<Rightarrow>
          let (primary, secondary) = canonical_normalized_origins left right (col_origin l) (col_origin r)
          in Some \<lparr>difference_kind = OutputColumn index field, primary_origin = primary, secondary_origin = secondary\<rparr>
      | None \<Rightarrow> column_difference_at left right (index + 1) cs)"

definition output_schema_difference :: "NormalizedQuery \<Rightarrow> NormalizedQuery \<Rightarrow> StructuralDifference option" where
  "output_schema_difference left right =
     (let left_columns = r_schema (normal_root left); right_columns = r_schema (normal_root right) in
      if length left_columns \<noteq> length right_columns
      then Some (output_column_count_difference left right (length left_columns) (length right_columns))
      else column_difference_at left right 0 (zip left_columns right_columns))"


section \<open>Comparison\<close>

definition compare_normalized :: "NormalizedQuery \<Rightarrow> NormalizedQuery \<Rightarrow> ComparisonOutcome" where
  "compare_normalized left right =
     (if equivalence_key left = equivalence_key right then EquivalentQueries
      else case output_schema_difference left right of
        Some d \<Rightarrow> NotEquivalent d
      | None \<Rightarrow> IndecisiveQueries \<lparr>indecision_reason = IndMissingRewrite,
          indecision_origin = canonical_normalized_origin left right\<rparr>)"

definition compare_relational_queries_with_budget ::
    "RelationExpression \<Rightarrow> RelationExpression \<Rightarrow> nat \<Rightarrow> ComparisonOutcome" where
  "compare_relational_queries_with_budget left right budget =
     (case (normalize_relational_query_with_budget left budget, normalize_relational_query_with_budget right budget) of
        (Normalized l, Normalized r) \<Rightarrow> compare_normalized l r
      | (Indecisive l, Indecisive r) \<Rightarrow> IndecisiveQueries (canonical_failure_indecision l r)
      | (Indecisive f, Normalized _) \<Rightarrow> IndecisiveQueries (indecision_from_failure f)
      | (Normalized _, Indecisive f) \<Rightarrow> IndecisiveQueries (indecision_from_failure f))"

definition compare_relational_queries :: "RelationExpression \<Rightarrow> RelationExpression \<Rightarrow> ComparisonOutcome" where
  "compare_relational_queries left right =
     compare_relational_queries_with_budget left right DEFAULT_NORMALIZATION_STEP_LIMIT"

definition compare_lowered_queries_with_budget ::
    "RelationalOutcome \<Rightarrow> RelationalOutcome \<Rightarrow> nat \<Rightarrow> ComparisonOutcome" where
  "compare_lowered_queries_with_budget left right budget =
     (case (left, right) of
        (Supported l, Supported r) \<Rightarrow> compare_relational_queries_with_budget l r budget
      | (Opaque l, Opaque r) \<Rightarrow> IndecisiveQueries (canonical_opaque_indecision l r)
      | (Opaque q, Supported _) \<Rightarrow> IndecisiveQueries (indecision_from_opaque q)
      | (Supported _, Opaque q) \<Rightarrow> IndecisiveQueries (indecision_from_opaque q))"

definition compare_lowered_queries :: "RelationalOutcome \<Rightarrow> RelationalOutcome \<Rightarrow> ComparisonOutcome" where
  "compare_lowered_queries left right = compare_lowered_queries_with_budget left right DEFAULT_NORMALIZATION_STEP_LIMIT"

end
