(* ===== verification/NormalForms.thy ===== *)
theory NormalForms
  imports Normalizer
begin

text \<open>
  What normalization computes: a reference rewriting function without budgets, the exact budgets that
  suffice, and that normal forms are valid expressions with the same schema.
\<close>

section \<open>Valid expressions\<close>

text \<open>What the constructors \<^verbatim>\<open>RelationSchema::new\<close> and \<^verbatim>\<open>RelationExpression::new\<close> guarantee, for every node.\<close>

fun rel_ok :: "RelationExpression \<Rightarrow> bool" and operator_ok :: "RelationOperator \<Rightarrow> bool" where
  "rel_ok (RelExpr op schema facts origin) \<longleftrightarrow>
     distinct (map col_id schema) \<and> validate_relation_operator op schema = Inr () \<and>
     validate_expression_keys schema (candidate_keys facts) = Inr () \<and> operator_ok op"
| "operator_ok (Scan source) \<longleftrightarrow> True"
| "operator_ok (Filter input p) \<longleftrightarrow> rel_ok input"
| "operator_ok (Project input ps k) \<longleftrightarrow> rel_ok input"
| "operator_ok (Join k left right c) \<longleftrightarrow> rel_ok left \<and> rel_ok right"
| "operator_ok (Distinct input) \<longleftrightarrow> rel_ok input"
| "operator_ok (DistinctOn input cs) \<longleftrightarrow> rel_ok input"
| "operator_ok (Sort input ks) \<longleftrightarrow> rel_ok input"

lemma schema_loop_Inr: "schema_loop cs ids = Inr () \<longleftrightarrow> distinct (map col_id cs) \<and> col_id ` set cs \<inter> ids = {}"
  by (induction cs arbitrary: ids) (auto simp: image_iff)

lemma schema_new_distinct: "schema_new cs = Inr s \<longleftrightarrow> s = cs \<and> distinct (map col_id cs)"
  using schema_loop_Inr [of cs "{}"] by (auto simp: schema_new_def split: sum.splits)

lemma relation_new_Inr:
  "relation_new op schema facts origin = Inr e \<longleftrightarrow>
     e = RelExpr op schema facts origin \<and> validate_relation_operator op schema = Inr () \<and>
     validate_expression_keys schema (candidate_keys facts) = Inr ()"
  by (auto simp: relation_new_def and_then_def split: sum.splits)

text \<open>Validation looks at the inputs only through their schemas.\<close>

fun map_inputs :: "(RelationExpression \<Rightarrow> RelationExpression) \<Rightarrow> RelationOperator \<Rightarrow> RelationOperator" where
  "map_inputs f (Scan source) = Scan source"
| "map_inputs f (Filter input p) = Filter (f input) p"
| "map_inputs f (Project input ps k) = Project (f input) ps k"
| "map_inputs f (Join k left right c) = Join k (f left) (f right) c"
| "map_inputs f (Distinct input) = Distinct (f input)"
| "map_inputs f (DistinctOn input cs) = DistinctOn (f input) cs"
| "map_inputs f (Sort input ks) = Sort (f input) ks"

fun op_inputs :: "RelationOperator \<Rightarrow> RelationExpression list" where
  "op_inputs (Scan source) = []"
| "op_inputs (Filter input p) = [input]"
| "op_inputs (Project input ps k) = [input]"
| "op_inputs (Join k left right c) = [left, right]"
| "op_inputs (Distinct input) = [input]"
| "op_inputs (DistinctOn input cs) = [input]"
| "op_inputs (Sort input ks) = [input]"

lemma operator_ok_inputs: "operator_ok op \<longleftrightarrow> list_all rel_ok (op_inputs op)"
  by (cases op) simp_all

lemma validate_map_inputs:
  "(\<And>e. r_schema (f e) = r_schema e) \<Longrightarrow>
     validate_relation_operator (map_inputs f op) schema = validate_relation_operator op schema"
  by (cases op) (simp_all add: validate_sort_def)


section \<open>The reference rewriting\<close>

text \<open>Whether a node with normalized inputs is dropped in favour of its input.\<close>

fun dropped :: "RelationOperator \<Rightarrow> RelationSchema \<Rightarrow> RelationFacts \<Rightarrow> RelationExpression option" where
  "dropped (Filter input p) schema facts = (if is_literal_true_filter input schema facts p then Some input else None)"
| "dropped (Project input ps k) schema facts = (if is_identity_project input schema facts ps then Some input else None)"
| "dropped (Distinct input) schema facts = (if is_repeated_distinct input schema facts then Some input else None)"
| "dropped _ schema facts = None"

definition reduce :: "RelationOperator \<Rightarrow> RelationSchema \<Rightarrow> RelationFacts \<Rightarrow> IrOrigin \<Rightarrow> RelationExpression" where
  "reduce op schema facts origin = (case dropped op schema facts of Some e \<Rightarrow> e | None \<Rightarrow> RelExpr op schema facts origin)"

fun normal_form :: "RelationExpression \<Rightarrow> RelationExpression" and normal_inputs :: "RelationOperator \<Rightarrow> RelationOperator" where
  "normal_form (RelExpr op schema facts origin) = reduce (normal_inputs op) schema facts origin"
| "normal_inputs (Scan source) = Scan source"
| "normal_inputs (Filter input p) = Filter (normal_form input) p"
| "normal_inputs (Project input ps k) = Project (normal_form input) ps k"
| "normal_inputs (Join k left right c) = Join k (normal_form left) (normal_form right) c"
| "normal_inputs (Distinct input) = Distinct (normal_form input)"
| "normal_inputs (DistinctOn input cs) = DistinctOn (normal_form input) cs"
| "normal_inputs (Sort input ks) = Sort (normal_form input) ks"

lemma normal_inputs_map: "normal_inputs op = map_inputs normal_form op"
  by (cases op) simp_all

lemma dropped_input:
  "dropped op schema facts = Some e \<Longrightarrow>
     r_schema e = schema \<and> ((\<exists>p. op = Filter e p) \<or> (\<exists>ps k. op = Project e ps k) \<or> op = Distinct e)"
  by (cases "(op, schema, facts)" rule: dropped.cases)
    (auto simp: is_literal_true_filter_def is_identity_project_def is_repeated_distinct_def split: if_splits)

lemma reduce_schema: "r_schema (reduce op schema facts origin) = schema"
  using dropped_input by (auto simp: reduce_def split: option.split)

lemma normal_form_schema [simp]: "r_schema (normal_form e) = r_schema e"
  by (cases e) (simp add: reduce_schema)

lemma rel_induct [case_names rel]:
  assumes "\<And>op schema facts origin. (\<And>e. e \<in> set (op_inputs op) \<Longrightarrow> P e) \<Longrightarrow> P (RelExpr op schema facts origin)"
  shows "P e"
proof (induction e rule: measure_induct_rule [of size])
  case (less e)
  obtain op schema facts origin where e: "e = RelExpr op schema facts origin" by (cases e)
  show ?case unfolding e by (rule assms, rule less) (cases op; auto simp: e)
qed

lemma normal_form_ok: "rel_ok e \<Longrightarrow> rel_ok (normal_form e)"
proof (induction e rule: rel_induct)
  case (rel op schema facts origin)
  have ok: "operator_ok (normal_inputs op)" using rel by (cases op) auto
  have "rel_ok (RelExpr (normal_inputs op) schema facts origin)"
    using rel.prems ok by (simp add: normal_inputs_map validate_map_inputs)
  moreover have "rel_ok e" if "dropped (normal_inputs op) schema facts = Some e" for e
    using dropped_input [OF that] ok by auto
  ultimately show ?case by (simp add: reduce_def split: option.split)
qed

lemma normal_form_idem: "normal_form (normal_form e) = normal_form e"
proof (induction e rule: rel_induct)
  case (rel op schema facts origin)
  have idem: "normal_inputs (normal_inputs op) = normal_inputs op" using rel by (cases op) auto
  have "normal_form e = e" if "dropped (normal_inputs op) schema facts = Some e" for e
    using dropped_input [OF that] idem by (cases op) auto
  then show ?case by (auto simp: reduce_def idem split: option.split)
qed


section \<open>Exact budgets\<close>

fun scalar_nodes :: "ScalarExpression \<Rightarrow> nat" and scalar_op_nodes :: "ScalarOperator \<Rightarrow> nat" where
  "scalar_nodes (ScalarExpr op t m n y g) = Suc (scalar_op_nodes op)"
| "scalar_op_nodes (ColumnRef i) = 0"
| "scalar_op_nodes (Literal l) = 0"
| "scalar_op_nodes (Navigation input nav) = scalar_nodes input"
| "scalar_op_nodes (Equal left right) = scalar_nodes left + scalar_nodes right"
| "scalar_op_nodes (NotOp input) = scalar_nodes input"

fun scalar_height :: "ScalarExpression \<Rightarrow> nat" and scalar_op_height :: "ScalarOperator \<Rightarrow> nat" where
  "scalar_height (ScalarExpr op t m n y g) = Suc (scalar_op_height op)"
| "scalar_op_height (ColumnRef i) = 0"
| "scalar_op_height (Literal l) = 0"
| "scalar_op_height (Navigation input nav) = scalar_height input"
| "scalar_op_height (Equal left right) = max (scalar_height left) (scalar_height right)"
| "scalar_op_height (NotOp input) = scalar_height input"

definition projections_nodes :: "Projection list \<Rightarrow> nat" where
  "projections_nodes ps = sum_list (map (scalar_nodes \<circ> proj_expression) ps)"

definition projections_height :: "Projection list \<Rightarrow> nat" where
  "projections_height ps = foldr (max \<circ> scalar_height \<circ> proj_expression) ps 0"

fun rel_nodes :: "RelationExpression \<Rightarrow> nat" and op_nodes :: "RelationOperator \<Rightarrow> nat" where
  "rel_nodes (RelExpr op schema facts origin) = Suc (op_nodes op)"
| "op_nodes (Scan source) = 0"
| "op_nodes (Filter input p) = rel_nodes input + scalar_nodes p"
| "op_nodes (Project input ps k) = rel_nodes input + projections_nodes ps"
| "op_nodes (Join k left right c) = rel_nodes left + rel_nodes right + scalar_nodes c"
| "op_nodes (Distinct input) = rel_nodes input"
| "op_nodes (DistinctOn input cs) = rel_nodes input"
| "op_nodes (Sort input ks) = rel_nodes input"

fun rel_height :: "RelationExpression \<Rightarrow> nat" and op_height :: "RelationOperator \<Rightarrow> nat" where
  "rel_height (RelExpr op schema facts origin) = Suc (op_height op)"
| "op_height (Scan source) = 0"
| "op_height (Filter input p) = max (rel_height input) (scalar_height p)"
| "op_height (Project input ps k) = max (rel_height input) (projections_height ps)"
| "op_height (Join k left right c) = max (rel_height left) (max (rel_height right) (scalar_height c))"
| "op_height (Distinct input) = rel_height input"
| "op_height (DistinctOn input cs) = rel_height input"
| "op_height (Sort input ks) = rel_height input"

abbreviation within :: "nat \<Rightarrow> nat \<Rightarrow> nat \<Rightarrow> nat \<Rightarrow> bool" where
  "within nodes steps height depth \<equiv> nodes \<le> steps \<and> depth + height \<le> MAX_RELATIONAL_RECURSION_DEPTH"

lemma visit_node_Inr:
  "visit_node g depth steps = Inr r \<longleftrightarrow>
     0 < steps \<and> depth < MAX_RELATIONAL_RECURSION_DEPTH \<and> r = (Suc depth, steps - 1)"
  by (auto simp: visit_node_def consume_def enter_depth_def)

lemma norm_scalar_Inr:
  "norm_scalar depth e steps = Inr r \<longleftrightarrow>
     within (scalar_nodes e) steps (scalar_height e) depth \<and> r = (e, steps - scalar_nodes e)"
  "depth \<le> MAX_RELATIONAL_RECURSION_DEPTH \<Longrightarrow> scalar_at_depth depth op steps = Inr k \<longleftrightarrow>
     within (scalar_op_nodes op) steps (scalar_op_height op) depth \<and> k = steps - scalar_op_nodes op"
proof (induction depth e steps and depth op steps arbitrary: r and k rule: norm_scalar_scalar_at_depth.induct)
  case (1 depth op t m n y g steps)
  show ?case
  proof (cases "visit_node g depth steps")
    case (Inr v)
    then have v: "v = (Suc depth, steps - 1)" "0 < steps" "depth < MAX_RELATIONAL_RECURSION_DEPTH"
      by (auto simp: visit_node_Inr)
    show ?thesis using 1 [OF Inr v(1) [symmetric]] v Inr by (cases steps) (auto simp: propagate)
  next
    case (Inl f)
    then have "\<not> within 1 steps 1 depth" using visit_node_Inr [of g depth steps "(Suc depth, steps - 1)"] by auto
    then show ?thesis by (auto simp: Inl)
  qed
next
  case (6 depth left right steps)
  then show ?case by (simp add: propagate split_beta) fastforce
qed (auto simp: propagate)

lemma norm_projections_Inr:
  "depth \<le> MAX_RELATIONAL_RECURSION_DEPTH \<Longrightarrow> norm_projections depth ps steps = Inr r \<longleftrightarrow>
     within (projections_nodes ps) steps (projections_height ps) depth \<and> r = (ps, steps - projections_nodes ps)"
  by (induction ps arbitrary: steps r)
    (auto simp: norm_scalar_Inr projections_nodes_def projections_height_def propagate)

lemma rebuilt_normal:
  "rel_ok (RelExpr op schema facts origin) \<Longrightarrow>
     rebuilt (normal_inputs op) schema facts origin steps = Inr (RelExpr (normal_inputs op) schema facts origin, steps)"
  by (simp add: rebuilt_def rebuild_def relation_new_def and_then_def normal_inputs_map validate_map_inputs)

text \<open>For an operator: the inputs' traversals, the scalars', and the rewriting of the node.\<close>

abbreviation traverses :: "RelationExpression \<Rightarrow> bool" where
  "traverses e \<equiv> (\<forall>depth steps r. norm_relation depth e steps = Inr r \<longleftrightarrow>
     within (rel_nodes e) steps (rel_height e) depth \<and> r = (normal_form e, steps - rel_nodes e))"

lemma relation_at_depth_Inr:
  assumes ok: "rel_ok (RelExpr op schema facts origin)" and depth: "depth \<le> MAX_RELATIONAL_RECURSION_DEPTH"
    and IH: "\<And>e. e \<in> set (op_inputs op) \<Longrightarrow> traverses e"
  shows "relation_at_depth depth op schema facts origin steps = Inr r \<longleftrightarrow>
     within (op_nodes op) steps (op_height op) depth \<and> r = (reduce (normal_inputs op) schema facts origin, steps - op_nodes op)"
proof (cases op)
  case (Filter input p)
  have "traverses input" by (rule IH) (simp add: Filter)
  then show ?thesis using rebuilt_normal [OF ok] unfolding Filter
    by (auto simp: propagate norm_scalar_Inr reduce_def)
next
  case (Project input ps k)
  have "traverses input" by (rule IH) (simp add: Project)
  then show ?thesis using rebuilt_normal [OF ok] depth unfolding Project
    by (auto simp: propagate norm_projections_Inr reduce_def)
next
  case (Join k left right c)
  have "traverses left" "traverses right" by (rule IH; simp add: Join)+
  then show ?thesis using rebuilt_normal [OF ok] unfolding Join
    by (auto simp: propagate norm_scalar_Inr reduce_def)
next
  case (Distinct input)
  have "traverses input" by (rule IH) (simp add: Distinct)
  then show ?thesis using rebuilt_normal [OF ok] unfolding Distinct by (auto simp: propagate reduce_def)
next
  case (DistinctOn input cs)
  have "traverses input" by (rule IH) (simp add: DistinctOn)
  then show ?thesis using rebuilt_normal [OF ok] unfolding DistinctOn by (auto simp: propagate reduce_def)
next
  case (Sort input ks)
  have "traverses input" by (rule IH) (simp add: Sort)
  then show ?thesis using rebuilt_normal [OF ok] unfolding Sort by (auto simp: propagate reduce_def)
qed (use depth in \<open>auto simp: reduce_def\<close>)

lemma norm_relation_Inr:
  "rel_ok e \<Longrightarrow> traverses e"
proof (induction e rule: rel_induct)
  case (rel op schema facts origin)
  have inputs: "traverses e" if "e \<in> set (op_inputs op)" for e
    using rel.IH [OF that] rel.prems that by (simp add: operator_ok_inputs list_all_iff)
  show ?case
  proof (intro allI)
    fix depth steps and r
    show "norm_relation depth (RelExpr op schema facts origin) steps = Inr r \<longleftrightarrow>
      within (rel_nodes (RelExpr op schema facts origin)) steps (rel_height (RelExpr op schema facts origin)) depth \<and>
      r = (normal_form (RelExpr op schema facts origin), steps - rel_nodes (RelExpr op schema facts origin))"
      using relation_at_depth_Inr [OF rel.prems _ inputs, of "Suc depth" "steps - 1" r]
      by (cases steps) (auto simp: propagate visit_node_Inr)
  qed
qed

lemma dropped_smaller:
  "dropped op schema facts = Some e \<Longrightarrow> rel_nodes e \<le> op_nodes op \<and> rel_height e \<le> op_height op"
  by (drule dropped_input) auto

lemma normal_form_smaller: "rel_nodes (normal_form e) \<le> rel_nodes e \<and> rel_height (normal_form e) \<le> rel_height e"
proof (induction e rule: rel_induct)
  case (rel op schema facts origin)
  have "op_nodes (normal_inputs op) \<le> op_nodes op \<and> op_height (normal_inputs op) \<le> op_height op"
    using rel by (cases op) (force intro: add_mono max.mono)+
  then show ?case using dropped_smaller [of "normal_inputs op" schema facts]
    by (fastforce simp: reduce_def split: option.split)
qed


section \<open>Normalization of a query\<close>

lemma normalize_Normalized:
  assumes "rel_ok query"
  shows "normalize_relational_query_with_budget query max_steps = Normalized n \<longleftrightarrow>
     rel_nodes query \<le> max_steps \<and> rel_height query \<le> MAX_RELATIONAL_RECURSION_DEPTH \<and>
     normal_root n = normal_form query \<and> equivalence_key n = render_fragments (key_relation False (normal_form query)) \<and>
     structural_key n = render_fragments [''normal-form-v1'', equivalence_key n, ''input-provenance-v1'',
       render_fragments (key_relation True query)]"
proof (cases "norm_relation 0 query max_steps")
  case (Inl f)
  have "\<not> within (rel_nodes query) max_steps (rel_height query) 0"
    using norm_relation_Inr [OF assms] Inl by (metis Inl_Inr_False)
  then show ?thesis by (auto simp: normalize_relational_query_with_budget_def Inl)
next
  case (Inr r)
  then have "within (rel_nodes query) max_steps (rel_height query) 0" "r = (normal_form query, max_steps - rel_nodes query)"
    using norm_relation_Inr [OF assms] by blast+
  then show ?thesis by (cases n) (auto simp: normalize_relational_query_with_budget_def Inr Let_def)
qed

text \<open>C33: On a query built by the checked constructors, normalization succeeds exactly when the number of
  relation and scalar nodes is within the step budget and the nesting is within the recursion limit of 32;
  it then returns the normal form of the reference rewriting, a valid expression with the query's schema.
  The traversal never fails for another reason: rebuilding a node over normalized inputs cannot be refused.\<close>

theorem normalization_within_budget:
  assumes "rel_ok query"
  shows "((\<exists>n. normalize_relational_query_with_budget query max_steps = Normalized n) \<longleftrightarrow>
       rel_nodes query \<le> max_steps \<and> rel_height query \<le> MAX_RELATIONAL_RECURSION_DEPTH) \<and>
    (\<forall>n. normalize_relational_query_with_budget query max_steps = Normalized n \<longrightarrow>
       normal_root n = normal_form query \<and> rel_ok (normal_root n) \<and> r_schema (normal_root n) = r_schema query)"
    (is "(?ok \<longleftrightarrow> ?fits) \<and> ?result")
proof (intro conjI)
  let ?key = "render_fragments (key_relation False (normal_form query))"
  let ?n = "\<lparr>normal_root = normal_form query, equivalence_key = ?key,
    structural_key = render_fragments [''normal-form-v1'', ?key, ''input-provenance-v1'', render_fragments (key_relation True query)]\<rparr>"
  show "?ok \<longleftrightarrow> ?fits"
  proof
    show ?fits if ?ok using that normalize_Normalized [OF assms] by auto
    show ?ok if ?fits using that normalize_Normalized [OF assms, of max_steps ?n] by (intro exI [of _ ?n]) simp
  qed
  show ?result using normalize_Normalized [OF assms] normal_form_ok [OF assms] by auto
qed

text \<open>C34: Normalization is idempotent: under the same budget the normal form of a query normalizes again,
  to itself and with the same equivalence key.\<close>

theorem normalization_idempotent:
  assumes "rel_ok query" and "normalize_relational_query_with_budget query max_steps = Normalized n"
  shows "\<exists>m. normalize_relational_query_with_budget (normal_root n) max_steps = Normalized m \<and>
    normal_root m = normal_root n \<and> equivalence_key m = equivalence_key n"
proof -
  have n: "normal_root n = normal_form query" "equivalence_key n = render_fragments (key_relation False (normal_form query))"
    and b: "rel_nodes query \<le> max_steps" "rel_height query \<le> MAX_RELATIONAL_RECURSION_DEPTH"
    using assms normalize_Normalized by auto
  define m where "m = n \<lparr>structural_key := render_fragments [''normal-form-v1'', equivalence_key n, ''input-provenance-v1'',
    render_fragments (key_relation True (normal_form query))]\<rparr>"
  have "normalize_relational_query_with_budget (normal_root n) max_steps = Normalized m"
    using n b normal_form_smaller [of query]
    by (subst n, subst normalize_Normalized [OF normal_form_ok [OF assms(1)]]) (auto simp: m_def normal_form_idem)
  then show ?thesis by (intro exI [of _ m]) (simp add: m_def)
qed

end
