(* ===== verification/RelationalSemantics.thy ===== *)
theory RelationalSemantics
  imports NormalForms
begin

text \<open>
  The meaning of relational expressions, used as the specification of normalization and comparison: an
  interpretation gives the rows of a class and the values of literals, navigations and operators, and an
  expression denotes an ordered list of rows of cells. Normal forms denote the same rows.
\<close>

section \<open>Interpretations\<close>

text \<open>What of a column and of a member may influence a result: everything but identities of
  definitions and source positions.\<close>

type_synonym column_meta = "string \<times> TypeRef \<times> Multiplicity \<times> Nullability"

definition column_meta :: "Column \<Rightarrow> column_meta" where
  "column_meta c = (col_name c, col_type c, col_multiplicity c, col_nullability c)"

type_synonym member_meta =
  "(string \<times> Temporal option) \<times> string \<times> TypeRef \<times> Multiplicity \<times> ResolvedMemberKind \<times> TypeRef list option \<times> nat option"

definition class_meta :: "ResolvedClass \<Rightarrow> string \<times> Temporal option" where
  "class_meta c = (class_path c, class_temporal c)"

definition member_meta :: "ResolvedMember \<Rightarrow> member_meta" where
  "member_meta m = (class_meta (member_owner m), member_name m, member_target m, member_multiplicity m,
     member_kind m, member_signature m, member_temporal_arity m)"

text \<open>The rows a projection makes of the cells it computed depend on its kind: a cell with many values may
  give many rows.\<close>

record 'v interp =
  scan_rows :: "string \<times> Temporal option \<Rightarrow> column_meta list \<Rightarrow> 'v list list"
  literal_value :: "ScalarLiteral \<Rightarrow> 'v"
  navigate :: "member_meta \<Rightarrow> 'v \<Rightarrow> 'v"
  equal_values :: "'v \<Rightarrow> 'v \<Rightarrow> 'v"
  negate :: "'v \<Rightarrow> 'v"
  holds :: "'v \<Rightarrow> bool"
  expand :: "ProjectionKind \<Rightarrow> 'v list \<Rightarrow> 'v list list"
  arrange :: "(nat option \<times> SortDirection) list \<Rightarrow> 'v list list \<Rightarrow> 'v list list"
  absent :: 'v

definition cell :: "('v, 'x) interp_scheme \<Rightarrow> ColumnScope \<Rightarrow> 'v list \<Rightarrow> ColumnId \<Rightarrow> 'v" where
  "cell I scope row i =
     (case scope_position scope i of Some p \<Rightarrow> if p < length row then row ! p else absent I | None \<Rightarrow> absent I)"

fun scalar_value :: "('v, 'x) interp_scheme \<Rightarrow> ColumnScope \<Rightarrow> ScalarExpression \<Rightarrow> 'v list \<Rightarrow> 'v"
and operator_value :: "('v, 'x) interp_scheme \<Rightarrow> ColumnScope \<Rightarrow> ScalarOperator \<Rightarrow> 'v list \<Rightarrow> 'v" where
  "scalar_value I scope (ScalarExpr op t m n y g) row = operator_value I scope op row"
| "operator_value I scope (ColumnRef i) row = cell I scope row i"
| "operator_value I scope (Literal l) row = literal_value I l"
| "operator_value I scope (Navigation input nav) row =
     navigate I (member_meta (nav_member nav)) (scalar_value I scope input row)"
| "operator_value I scope (Equal left right) row =
     equal_values I (scalar_value I scope left row) (scalar_value I scope right row)"
| "operator_value I scope (NotOp input) row = negate I (scalar_value I scope input row)"

definition sort_positions :: "ColumnScope \<Rightarrow> SortKey list \<Rightarrow> (nat option \<times> SortDirection) list" where
  "sort_positions scope ks = map (\<lambda>k. (scope_position scope (sort_column k), sort_direction k)) ks"

fun rows :: "('v, 'x) interp_scheme \<Rightarrow> RelationExpression \<Rightarrow> 'v list list"
and operator_rows :: "('v, 'x) interp_scheme \<Rightarrow> RelationSchema \<Rightarrow> RelationOperator \<Rightarrow> 'v list list" where
  "rows I (RelExpr op schema facts origin) = operator_rows I schema op"
| "operator_rows I schema (Scan (ClassSource c)) = scan_rows I (class_meta c) (map column_meta schema)"
| "operator_rows I schema (Filter input p) =
     filter (\<lambda>row. holds I (scalar_value I (scope_of (r_schema input)) p row)) (rows I input)"
| "operator_rows I schema (Project input ps kind) =
     concat (map (\<lambda>row. expand I kind
       (map (\<lambda>p. scalar_value I (scope_of (r_schema input)) (proj_expression p) row) ps)) (rows I input))"
| "operator_rows I schema (Join kind left right condition) =
     filter (\<lambda>row. holds I (scalar_value I (scope_of (r_schema left @ r_schema right)) condition row))
       [l @ r. l \<leftarrow> rows I left, r \<leftarrow> rows I right]"
| "operator_rows I schema (Distinct input) = remdups (rows I input)"
| "operator_rows I schema (DistinctOn input cs) =
     remdups (map (\<lambda>row. map (cell I (scope_of (r_schema input)) row) cs) (rows I input))"
| "operator_rows I schema (Sort input ks) = arrange I (sort_positions (scope_of (r_schema input)) ks) (rows I input)"

text \<open>Laws of an interpretation: the literal \<^verbatim>\<open>true\<close> holds; a row of a relation (one \<open>flat\<close> cell for each
  column) is what a projection makes of its own cells; arranging rows invents none.\<close>

definition interp_ok :: "('v \<Rightarrow> bool) \<Rightarrow> ('v, 'x) interp_scheme \<Rightarrow> bool" where
  "interp_ok flat I \<longleftrightarrow>
     holds I (literal_value I (BooleanLit True)) \<and>
     (\<forall>c cols. \<forall>row\<in>set (scan_rows I c cols). length row = length cols \<and> list_all flat row) \<and>
     (\<forall>k cells. \<forall>row\<in>set (expand I k cells). length row = length cells \<and> list_all flat row) \<and>
     (\<forall>k cells. list_all flat cells \<longrightarrow> expand I k cells = [cells]) \<and>
     (\<forall>ks rs. set (arrange I ks rs) \<subseteq> set rs)"

lemma interp_okD:
  assumes "interp_ok flat I"
  shows "holds I (literal_value I (BooleanLit True))"
    and "row \<in> set (scan_rows I c cols) \<Longrightarrow> length row = length cols \<and> list_all flat row"
    and "row \<in> set (expand I k cells) \<Longrightarrow> length row = length cells \<and> list_all flat row"
    and "list_all flat cells \<Longrightarrow> expand I k cells = [cells]"
    and "row \<in> set (arrange I ks rs) \<Longrightarrow> row \<in> set rs"
  using assms unfolding interp_ok_def by blast+


section \<open>Positions\<close>

lemma scope_position_snoc:
  "scope_position (scope @ [c]) i = (if i = c then Some (length scope) else scope_position scope i)"
proof -
  have "bt_ok (fold (\<lambda>(i, p). bt_insert i p) ps m)" if "bt_ok m" for ps :: "(nat \<times> nat) list" and m
    using that by (induction ps arbitrary: m) (auto simp: bt_insert_ok)
  then have "bt_ok (fold (\<lambda>(i, p). bt_insert i p) (zip scope [0..<length scope]) [])" by (simp add: bt_ok_def)
  then show ?thesis by (simp add: scope_position_def bt_get_insert)
qed

lemma scope_position_SomeD: "scope_position scope i = Some p \<Longrightarrow> p < length scope \<and> scope ! p = i"
proof (induction scope arbitrary: p rule: rev_induct)
  case (snoc c scope)
  then show ?case by (cases "i = c") (force simp: scope_position_snoc nth_append)+
qed (simp add: scope_position_def bt_get_def)

lemma scope_position_None: "scope_position scope i = None \<longleftrightarrow> i \<notin> set scope"
  by (induction scope rule: rev_induct) (auto simp: scope_position_snoc scope_position_def [of "[]"] bt_get_def)

lemma scope_position_nth: "distinct scope \<Longrightarrow> p < length scope \<Longrightarrow> scope_position scope (scope ! p) = Some p"
  by (metis scope_position_SomeD scope_position_None nth_eq_iff_index_eq nth_mem option.exhaust)

lemma schema_column_scope: "schema_column schema i \<noteq> None \<longleftrightarrow> i \<in> set (scope_of schema)"
  by (auto simp: schema_column_def scope_of_def find_None_iff)


section \<open>Rows of valid expressions\<close>

lemma and_then_Inr [simp]: "and_then a b = Inr () \<longleftrightarrow> a = Inr () \<and> b = Inr ()"
  by (auto simp: and_then_def split: sum.split)

lemma check_that_Inr [simp]: "check_that ok e = Inr () \<longleftrightarrow> ok"
  by (simp add: check_that_def)

lemma distinct_on_selected:
  "distinct_on_loop cs schema seen = Inr selected \<Longrightarrow> length selected = length cs \<and> set cs \<subseteq> set (scope_of schema)"
proof (induction cs arbitrary: seen selected)
  case (Cons i cs)
  from Cons.prems obtain c rest where c: "schema_column schema i = Some c"
    and rest: "distinct_on_loop cs schema (insert i seen) = Inr rest" "selected = c # rest"
    by (auto simp: propagate split: if_splits option.splits)
  then show ?case using Cons.IH [OF rest(1)] schema_column_scope [of schema i] by auto
qed simp

lemma distinct_on_valid:
  "validate_distinct_on_schema cs schema input = Inr () \<Longrightarrow> length schema = length cs \<and> set cs \<subseteq> set (scope_of input)"
  using distinct_on_selected [of cs input "{}"]
  by (auto simp: validate_distinct_on_schema_def split: if_splits sum.splits)

abbreviation row_ok :: "('v \<Rightarrow> bool) \<Rightarrow> RelationSchema \<Rightarrow> 'v list \<Rightarrow> bool" where
  "row_ok flat schema row \<equiv> length row = length schema \<and> list_all flat row"

lemma cell_flat:
  "row_ok flat schema row \<Longrightarrow> i \<in> set (scope_of schema) \<Longrightarrow> flat (cell I (scope_of schema) row i)"
  using scope_position_None [of "scope_of schema" i] scope_position_SomeD [of "scope_of schema" i]
  by (auto simp: cell_def scope_of_def list_all_length split: option.split)

lemma rows_ok:
  assumes I: "interp_ok flat I"
  shows "rel_ok e \<Longrightarrow> row \<in> set (rows I e) \<Longrightarrow> row_ok flat (r_schema e) row"
proof (induction e arbitrary: row rule: rel_induct)
  case (rel op schema facts origin)
  show ?case
  proof (cases op)
    case (Scan source)
    then show ?thesis using rel.prems(2) interp_okD(2) [OF I, of row _ "map column_meta schema"] by (cases source) simp
  next
    case (Filter input p)
    then show ?thesis using rel.IH [of input row] rel.prems by (simp split: if_splits)
  next
    case (Project input ps k)
    then have "length ps = length schema" using rel.prems by (auto simp: validate_projection_schema_def split: if_splits)
    moreover obtain r where r: "row \<in> set (expand I k (map (\<lambda>p. scalar_value I (scope_of (r_schema input)) (proj_expression p) r) ps))"
      using rel.prems(2) Project by auto
    ultimately show ?thesis using interp_okD(3) [OF I r] by simp
  next
    case (Join k left right c)
    then obtain l r where lr: "row = l @ r" "l \<in> set (rows I left)" "r \<in> set (rows I right)" using rel.prems(2) by auto
    have "row_ok flat (r_schema left) l" "row_ok flat (r_schema right) r"
      using rel.IH [of left l] rel.IH [of right r] rel.prems(1) lr Join by simp_all
    then show ?thesis using rel.prems(1) lr(1) Join by (simp add: is_join_schema_def split: if_splits)
  next
    case (Distinct input)
    then show ?thesis using rel.IH [of input row] rel.prems by simp
  next
    case (DistinctOn input cs)
    then have cs: "length schema = length cs" "set cs \<subseteq> set (scope_of (r_schema input))"
      using rel.prems distinct_on_valid [of cs schema "r_schema input"] by auto
    obtain r where r: "r \<in> set (rows I input)" "row = map (cell I (scope_of (r_schema input)) r) cs"
      using rel.prems DistinctOn by auto
    have "row_ok flat (r_schema input) r" using rel.IH [of input r] rel.prems r(1) DistinctOn by simp
    then have "flat (cell I (scope_of (r_schema input)) r i)" if "i \<in> set cs" for i
      using cell_flat [of r "r_schema input" flat i I] cs(2) that by blast
    then have "list_all flat row" by (simp add: r(2) list_all_iff)
    then show ?thesis using cs(1) r(2) by simp
  next
    case (Sort input ks)
    then have "row \<in> set (rows I input)" using rel.prems(2) interp_okD(5) [OF I, of row] by simp
    then show ?thesis using rel.IH [of input row] rel.prems(1) Sort by (simp add: validate_sort_def split: if_splits)
  qed
qed


section \<open>Normal forms denote the same rows\<close>

lemma identity_read_value:
  "distinct (scope_of schema) \<Longrightarrow> row_ok flat schema row \<Longrightarrow> i < length schema \<Longrightarrow>
     is_identity_read p (schema ! i) \<Longrightarrow> scalar_value I (scope_of schema) (proj_expression p) row = row ! i"
  using scope_position_nth [of "scope_of schema" i]
  by (cases "proj_expression p") (auto simp: is_identity_read_def cell_def scope_of_def)

lemma identity_project_row:
  assumes "is_identity_project input schema facts ps" "rel_ok input" "row_ok flat (r_schema input) row"
  shows "map (\<lambda>p. scalar_value I (scope_of (r_schema input)) (proj_expression p) row) ps = row"
proof (rule nth_equalityI)
  have len: "length ps = length (r_schema input)" and reads: "\<And>i. i < length ps \<Longrightarrow> is_identity_read (ps ! i) (r_schema input ! i)"
    using assms(1) by (auto simp: is_identity_project_def list_all_length)
  have "distinct (scope_of (r_schema input))" using assms(2) by (cases input) (simp add: scope_of_def)
  then show "map (\<lambda>p. scalar_value I (scope_of (r_schema input)) (proj_expression p) row) ps ! i = row ! i"
    if "i < length (map (\<lambda>p. scalar_value I (scope_of (r_schema input)) (proj_expression p) row) ps)" for i
    using that identity_read_value [of "r_schema input" row flat i "ps ! i" I] assms(3) len reads [of i] by simp
  show "length (map (\<lambda>p. scalar_value I (scope_of (r_schema input)) (proj_expression p) row) ps) = length row"
    using assms(3) len by simp
qed

lemma dropped_rows:
  assumes I: "interp_ok flat I" and ok: "operator_ok op" and d: "dropped op schema facts = Some e"
  shows "operator_rows I schema op = rows I e"
proof (cases op)
  case (Filter input p)
  then have "holds I (scalar_value I scope p row)" for scope row
    using interp_okD(1) [OF I] d by (cases p) (auto simp: is_literal_true_filter_def split: if_splits)
  then show ?thesis using d Filter by (simp split: if_splits)
next
  case (Project input ps k)
  then have e: "e = input" and id: "is_identity_project input schema facts ps" and in_ok: "rel_ok input"
    using d ok by (auto split: if_splits)
  have "expand I k (map (\<lambda>p. scalar_value I (scope_of (r_schema input)) (proj_expression p) row) ps) = [row]"
    if "row \<in> set (rows I input)" for row
    using rows_ok [OF I in_ok that] identity_project_row [OF id in_ok, of row flat I] interp_okD(4) [OF I] by simp
  then have "operator_rows I schema op = concat (map (\<lambda>row. [row]) (rows I input))"
    unfolding Project operator_rows.simps by (intro arg_cong [where f = concat] map_cong) simp_all
  then show ?thesis by (simp add: e)
next
  case (Distinct input)
  then have e: "e = input" and rep: "is_distinct_operator (r_operator input)"
    using d by (auto simp: is_repeated_distinct_def split: if_splits)
  then obtain inner s f g where "input = RelExpr (Distinct inner) s f g"
    by (cases input) (auto simp: is_distinct_operator_def split: RelationOperator.splits)
  then show ?thesis by (simp add: Distinct e)
qed (use d in simp_all)

lemma normal_inputs_rows:
  "(\<And>e. e \<in> set (op_inputs op) \<Longrightarrow> rows I (normal_form e) = rows I e) \<Longrightarrow>
     operator_rows I schema (normal_inputs op) = operator_rows I schema op"
  by (cases op) simp_all

lemma normal_form_rows:
  assumes I: "interp_ok flat I"
  shows "rel_ok e \<Longrightarrow> rows I (normal_form e) = rows I e"
proof (induction e rule: rel_induct)
  case (rel op schema facts origin)
  have "operator_rows I schema (normal_inputs op) = operator_rows I schema op"
    using rel by (intro normal_inputs_rows) (auto simp: operator_ok_inputs list_all_iff)
  moreover have "operator_ok (normal_inputs op)" using rel.prems normal_form_ok by (cases op) auto
  ultimately show ?case using dropped_rows [OF I] by (auto simp: reduce_def split: option.split)
qed

end
