(* ===== verification/KeyEncoding.thy ===== *)
theory KeyEncoding
  imports RelationalSemantics
begin

text \<open>
  The keys of normal forms are uniquely decodable: every encoder writes a prefix code, so equal equivalence
  keys mean equal output columns and equal rows under every interpretation.
\<close>

section \<open>Prefix codes\<close>

text \<open>An encoder whose output determines what is observed of its input and where it ends.\<close>

locale prefix_code =
  fixes enc :: "'a \<Rightarrow> 'b list" and obs :: "'a \<Rightarrow> 'c"
  assumes decode: "enc a @ r = enc b @ s \<Longrightarrow> obs a = obs b \<and> r = s"
begin

lemma key_inj: "enc a = enc b \<Longrightarrow> obs a = obs b"
  using decode [of a "[]" b "[]"] by simp

lemma list_decode:
  "concat (map enc xs) @ r = concat (map enc ys) @ s \<Longrightarrow> length xs = length ys \<Longrightarrow> map obs xs = map obs ys \<and> r = s"
proof (induction xs arbitrary: ys)
  case (Cons x xs)
  then obtain y ys' where ys: "ys = y # ys'" by (cases ys) auto
  with Cons.prems have "obs x = obs y \<and> concat (map enc xs) @ r = concat (map enc ys') @ s"
    using decode [of x "concat (map enc xs) @ r" y "concat (map enc ys') @ s"] by simp
  with Cons ys show ?case by simp
qed simp

end

locale delimited_code = prefix_code +
  assumes nonempty: "enc a \<noteq> []"
begin

lemma sequence_inj: "concat (map enc xs) = concat (map enc ys) \<Longrightarrow> map obs xs = map obs ys"
proof (induction xs arbitrary: ys)
  case Nil
  then show ?case using nonempty by (cases ys) auto
next
  case (Cons x xs)
  then obtain y ys' where ys: "ys = y # ys'" using nonempty by (cases ys) auto
  with Cons.prems have "obs x = obs y \<and> concat (map enc xs) = concat (map enc ys')"
    using decode [of x "concat (map enc xs)" y "concat (map enc ys')"] by simp
  with Cons ys show ?case by simp
qed

end


section \<open>Fragments\<close>

lemma digits_before_colon:
  "list_all is_digit a \<Longrightarrow> list_all is_digit b \<Longrightarrow> a @ CHR '':'' # r = b @ CHR '':'' # s \<Longrightarrow> a = b \<and> r = s"
proof (induction a arbitrary: b)
  case Nil
  then show ?case by (cases b) (auto simp: is_digit_def in_byte_def)
next
  case (Cons c a)
  then show ?case by (cases b) (auto simp: is_digit_def in_byte_def)
qed

interpretation fragment: delimited_code write_fragment "\<lambda>v. v"
proof
  show "a = b \<and> r = s" if "write_fragment a @ r = write_fragment b @ s" for a b r s
  proof -
    have eq: "show_usize (length a) @ CHR '':'' # a @ r = show_usize (length b) @ CHR '':'' # b @ s"
      using that by (simp add: write_fragment_def)
    have "show_usize (length a) = show_usize (length b) \<and> a @ r = b @ s"
      using digits_before_colon [OF _ _ eq] show_usize_digits by blast
    then show ?thesis by (auto simp: show_usize_inj)
  qed
qed (simp add: write_fragment_def)

lemma render_fragments_inj: "render_fragments fs = render_fragments gs \<longleftrightarrow> fs = gs"
  using fragment.sequence_inj [of fs gs] by (auto simp: render_fragments_def)


section \<open>Numbers and words\<close>

lemma show_usize_word:
  "show_usize n \<noteq> ''missing''" "show_usize n \<noteq> ''unbounded''" "show_usize n \<noteq> ''no-target-temporal-arity''"
  by (rule show_usize_not; simp add: is_digit_def in_byte_def)+

lemmas numbers = show_usize_inj show_usize_word show_usize_word [symmetric]

lemma show_i64_inj: "show_i64 i = show_i64 j \<longleftrightarrow> i = j"
proof -
  have "show_usize n \<noteq> CHR ''-'' # s" for n s by (rule show_usize_not) (simp add: is_digit_def in_byte_def)
  then show ?thesis by (auto simp: show_i64_def show_usize_inj dest: sym split: if_splits)
qed


section \<open>Types, columns and members\<close>

interpretation column_id: prefix_code "\<lambda>(scope, i). key_column_id scope i" "\<lambda>(scope, i). scope_position scope i"
  by unfold_locales (auto simp: key_column_id_def numbers split: option.splits)

lemma column_id_decode:
  "key_column_id scope i @ r = key_column_id scope' j @ s \<Longrightarrow> scope_position scope i = scope_position scope' j \<and> r = s"
  using column_id.decode [of "(scope, i)" r "(scope', j)" s] by simp

lemma type_ref_decode: "key_type_ref t @ r = key_type_ref u @ s \<Longrightarrow> t = u \<and> r = s"
proof (induction t arbitrary: u r s)
  case (TypeRef raw args)
  obtain raw' args' where u: "u = TypeRef raw' args'" by (cases u)
  have len: "raw = raw'" "length args = length args'"
    and eq: "concat (map key_type_ref args) @ r = concat (map key_type_ref args') @ s"
    using TypeRef.prems by (simp_all add: u numbers)
  have "args = args' \<and> r = s" using len(2) eq TypeRef.IH
  proof (induction args args' rule: list_induct2)
    case (Cons x xs y ys)
    have "x = y \<and> concat (map key_type_ref xs) @ r = concat (map key_type_ref ys) @ s"
      using Cons.prems(2) [of x "concat (map key_type_ref xs) @ r" y "concat (map key_type_ref ys) @ s"] Cons.prems(1)
      by simp
    then show ?case using Cons.IH Cons.prems(2) by auto
  qed simp
  then show ?case by (simp add: u len)
qed

interpretation type_ref: prefix_code key_type_ref "\<lambda>t. t"
  by unfold_locales (rule type_ref_decode)

interpretation multiplicity: prefix_code key_multiplicity "\<lambda>m. m"
  by unfold_locales (auto simp: key_multiplicity_def numbers split: option.splits)

interpretation nullability: prefix_code key_nullability "\<lambda>n. n"
proof
  fix a b r s
  show "a = b \<and> r = s" if "key_nullability a @ r = key_nullability b @ s"
    using that by (cases a; cases b) auto
qed

interpretation member_kind: prefix_code key_member_kind "\<lambda>k. k"
proof
  fix a b r s
  show "a = b \<and> r = s" if "key_member_kind a @ r = key_member_kind b @ s"
    using that by (cases a rule: key_member_kind.cases; cases b rule: key_member_kind.cases) auto
qed

interpretation literal: prefix_code key_literal "\<lambda>l. l"
proof
  fix a b r s
  show "a = b \<and> r = s" if "key_literal a @ r = key_literal b @ s"
    using that by (cases a; cases b) (auto simp: show_i64_inj split: if_splits)
qed

interpretation resolved_class: prefix_code "key_class False" class_meta
  by unfold_locales (auto simp: key_class_def class_meta_def when_full_def split: option.splits Temporal.splits)

lemma signature_decode:
  "(case a of None \<Rightarrow> [''no-signature'']
      | Some args \<Rightarrow> ''signature'' # show_usize (length args) # concat (map key_type_ref args)) @ r =
   (case b of None \<Rightarrow> [''no-signature'']
      | Some args \<Rightarrow> ''signature'' # show_usize (length args) # concat (map key_type_ref args)) @ s \<Longrightarrow> a = b \<and> r = s"
  by (auto simp: numbers split: option.splits dest!: type_ref.list_decode)

lemma arity_inj:
  "(case a of None \<Rightarrow> ''no-target-temporal-arity'' | Some n \<Rightarrow> show_usize n) =
   (case b of None \<Rightarrow> ''no-target-temporal-arity'' | Some n \<Rightarrow> show_usize n) \<longleftrightarrow> a = b"
  by (auto simp: numbers split: option.splits)

interpretation resolved_member: prefix_code "key_member False" member_meta
proof
  fix a b r s
  show "member_meta a = member_meta b \<and> r = s" if "key_member False a @ r = key_member False b @ s"
    using that unfolding key_member_def member_meta_def when_full_def append_assoc append_Cons append_Nil if_False
    by (auto simp: arity_inj dest!: resolved_class.decode type_ref.decode multiplicity.decode member_kind.decode
        signature_decode)
qed

lemma totality_decode: "key_totality False a @ r = key_totality False b @ s \<Longrightarrow> r = s"
  by (cases a; cases b) (auto simp: when_full_def split: Totality.splits)

lemmas scalar_head = type_ref.decode multiplicity.decode nullability.decode totality_decode

text \<open>The operators, with the literals told apart: each starts with a word of its own.\<close>

lemma key_operator_cases:
  obtains (column) j where "op = ColumnRef j" | (boolean) b where "op = Literal (BooleanLit b)"
  | (integer) i where "op = Literal (IntegerLit i)" | (str) t where "op = Literal (StringLit t)"
  | (null) "op = Literal NullLit" | (nav) e n where "op = Navigation e n" | (eq) l r where "op = Equal l r"
  | (neg) e where "op = NotOp e"
  by (cases op; metis ScalarLiteral.exhaust)

lemma scalar_decode:
  "key_scalar_operator False scope op @ r = key_scalar_operator False scope' op' @ s \<Longrightarrow>
     operator_value I scope op = operator_value I scope' op' \<and> r = s"
  "key_scalar False scope e @ r = key_scalar False scope' e' @ s \<Longrightarrow>
     scalar_value I scope e = scalar_value I scope' e' \<and> r = s"
proof (induction op and e arbitrary: op' r s and e' r s rule: ScalarOperator.induct ScalarExpression.induct)
  case (ScalarExpr op t m n y g)
  obtain op2 t2 m2 n2 y2 g2 where e': "e' = ScalarExpr op2 t2 m2 n2 y2 g2" by (cases e')
  have "key_scalar_operator False scope op @ r = key_scalar_operator False scope' op2 @ s"
    using ScalarExpr.prems by (auto simp: e' when_full_def dest!: scalar_head)
  from ScalarExpr.IH [OF this] show ?case by (auto simp: e' fun_eq_iff)
next
  case (ColumnRef i)
  obtain j where op': "op' = ColumnRef j" and eq: "key_column_id scope i @ r = key_column_id scope' j @ s"
    using ColumnRef.prems by (cases op' rule: key_operator_cases) auto
  show ?case using column_id_decode [OF eq] by (simp add: op' cell_def fun_eq_iff)
next
  case (Literal l)
  obtain k where op': "op' = Literal k" and eq: "key_literal l @ r = key_literal k @ s"
    using Literal.prems by (cases op' rule: key_operator_cases; cases l) auto
  show ?case using literal.decode [OF eq] by (simp add: op' fun_eq_iff)
next
  case (Navigation input nav)
  obtain input' nav' where op': "op' = Navigation input' nav'"
    and eq: "key_scalar False scope input @ key_member False (nav_member nav) @ r =
      key_scalar False scope' input' @ key_member False (nav_member nav') @ s"
    using Navigation.prems by (cases op' rule: key_operator_cases) auto
  show ?case using Navigation.IH [OF eq] resolved_member.decode [of "nav_member nav" r "nav_member nav'" s]
    by (simp add: op' fun_eq_iff)
next
  case (Equal left right)
  obtain left' right' where op': "op' = Equal left' right'"
    and eq: "key_scalar False scope left @ key_scalar False scope right @ r =
      key_scalar False scope' left' @ key_scalar False scope' right' @ s"
    using Equal.prems by (cases op' rule: key_operator_cases) auto
  show ?case using Equal.IH(1) [OF eq] Equal.IH(2) [of r right' s] by (simp add: op' fun_eq_iff)
next
  case (NotOp input)
  obtain input' where op': "op' = NotOp input'" and eq: "key_scalar False scope input @ r = key_scalar False scope' input' @ s"
    using NotOp.prems by (cases op' rule: key_operator_cases) auto
  show ?case using NotOp.IH [OF eq] by (simp add: op' fun_eq_iff)
qed


section \<open>Schemas and facts\<close>

interpretation column: prefix_code "\<lambda>(scope, c). key_column False scope c" "\<lambda>(scope, c). column_meta c"
proof
  fix a b r s
  assume eq: "(case a of (scope, c) \<Rightarrow> key_column False scope c) @ r = (case b of (scope, c) \<Rightarrow> key_column False scope c) @ s"
  obtain sa ca sb cb where ab: "a = (sa, ca)" "b = (sb, cb)" by (cases a; cases b)
  have "col_name ca # key_type_ref (col_type ca) @ key_multiplicity (col_multiplicity ca) @ key_nullability (col_nullability ca) @ r =
      col_name cb # key_type_ref (col_type cb) @ key_multiplicity (col_multiplicity cb) @ key_nullability (col_nullability cb) @ s"
    using eq by (auto simp: ab key_column_def when_full_def dest!: column_id_decode)
  then show "(case a of (scope, c) \<Rightarrow> column_meta c) = (case b of (scope, c) \<Rightarrow> column_meta c) \<and> r = s"
    by (auto simp: ab column_meta_def dest!: type_ref.decode multiplicity.decode nullability.decode)
qed

lemma schema_decode:
  assumes "key_schema False schema scope @ r = key_schema False schema' scope' @ s"
  shows "map column_meta schema = map column_meta schema' \<and> r = s"
  using assms column.list_decode [of "map (Pair scope) schema" r "map (Pair scope') schema'" s]
  by (simp add: key_schema_def numbers comp_def)

interpretation index_list: prefix_code "\<lambda>key. show_usize (length key) # map show_usize key" "\<lambda>key. key"
proof
  fix a b :: "nat list" and r s
  assume "(show_usize (length a) # map show_usize a) @ r = (show_usize (length b) # map show_usize b) @ s"
  moreover have "inj show_usize" by (simp add: inj_def show_usize_inj)
  ultimately show "a = b \<and> r = s" by (auto simp: numbers inj_map_eq_map)
qed

lemma keys_decode: "key_keys False a scope @ r = key_keys False b scope' @ s \<Longrightarrow> r = s"
  by (cases a; cases b) (auto simp: when_full_def Let_def numbers dest!: index_list.list_decode)

lemma row_semantics_decode: "key_row_semantics False a @ r = key_row_semantics False b @ s \<Longrightarrow> r = s"
  by (cases a; cases b) (auto simp: when_full_def split: RowSemantics.splits)

lemma facts_decode: "key_facts False f scope @ r = key_facts False f' scope' @ s \<Longrightarrow> r = s"
  by (auto simp: key_facts_def dest!: keys_decode row_semantics_decode)


section \<open>Relations\<close>

interpretation sort_key: prefix_code "\<lambda>(scope, k). key_sort_key False scope k"
  "\<lambda>(scope, k). (scope_position scope (sort_column k), sort_direction k)"
proof
  fix a b r s
  assume eq: "(case a of (scope, k) \<Rightarrow> key_sort_key False scope k) @ r = (case b of (scope, k) \<Rightarrow> key_sort_key False scope k) @ s"
  obtain sa ka sb kb where ab: "a = (sa, ka)" "b = (sb, kb)" by (cases a; cases b)
  let ?dir = "\<lambda>k. case sort_direction k of Ascending \<Rightarrow> ''ascending'' | Descending \<Rightarrow> ''descending''"
  have "scope_position sa (sort_column ka) = scope_position sb (sort_column kb) \<and> ?dir ka # r = ?dir kb # s"
    using eq by (auto simp: ab key_sort_key_def when_full_def dest!: column_id_decode)
  then show "(case a of (scope, k) \<Rightarrow> (scope_position scope (sort_column k), sort_direction k)) =
      (case b of (scope, k) \<Rightarrow> (scope_position scope (sort_column k), sort_direction k)) \<and> r = s"
    by (auto simp: ab split: SortDirection.splits)
qed

interpretation projection: prefix_code "\<lambda>(out_scope, scope, p). key_projection False out_scope scope p"
  "\<lambda>(out_scope, scope, p). scalar_value I scope (proj_expression p)" for I :: "('v, 'x) interp_scheme"
proof
  fix a b r s
  assume eq: "(case a of (out_scope, scope, p) \<Rightarrow> key_projection False out_scope scope p) @ r =
    (case b of (out_scope, scope, p) \<Rightarrow> key_projection False out_scope scope p) @ s"
  obtain oa sa pa ob sb pb where ab: "a = (oa, sa, pa)" "b = (ob, sb, pb)" by (cases a; cases b)
  have "key_scalar False sa (proj_expression pa) @ r = key_scalar False sb (proj_expression pb) @ s"
    using eq by (auto simp: ab key_projection_def dest!: column_id_decode)
  then show "(case a of (out_scope, scope, p) \<Rightarrow> scalar_value I scope (proj_expression p)) =
    (case b of (out_scope, scope, p) \<Rightarrow> scalar_value I scope (proj_expression p)) \<and> r = s"
    using scalar_decode(2) [of sa "proj_expression pa" r sb "proj_expression pb" s I] by (simp add: ab)
qed

lemma projections_decode:
  assumes "concat (map (key_projection False out_scope scope) ps) @ r = concat (map (key_projection False out_scope' scope') ps') @ s"
    and "length ps = length ps'"
  shows "map (\<lambda>p. scalar_value I scope (proj_expression p)) ps = map (\<lambda>p. scalar_value I scope' (proj_expression p)) ps' \<and> r = s"
  using projection.list_decode [where I = I, of "map (\<lambda>p. (out_scope, scope, p)) ps" r "map (\<lambda>p. (out_scope', scope', p)) ps'" s] assms
  by (simp add: comp_def)

lemma selection_decode:
  assumes "concat (map (key_column_id scope) cs) @ r = concat (map (key_column_id scope') cs') @ s" "length cs = length cs'"
  shows "map (scope_position scope) cs = map (scope_position scope') cs' \<and> r = s"
  using column_id.list_decode [of "map (Pair scope) cs" r "map (Pair scope') cs'" s] assms by (simp add: comp_def)

lemma sort_keys_decode:
  assumes "concat (map (key_sort_key False scope) ks) @ r = concat (map (key_sort_key False scope') ks') @ s" "length ks = length ks'"
  shows "sort_positions scope ks = sort_positions scope' ks' \<and> r = s"
  using sort_key.list_decode [of "map (Pair scope) ks" r "map (Pair scope') ks'" s] assms
  by (simp add: comp_def sort_positions_def)

lemma selection_cells:
  assumes "map (scope_position scope) cs = map (scope_position scope') cs'"
  shows "map (cell I scope row) cs = map (cell I scope' row) cs'"
proof -
  let ?at = "\<lambda>q. case q of Some p \<Rightarrow> if p < length row then row ! p else absent I | None \<Rightarrow> absent I"
  have "map (cell I scope row) cs = map ?at (map (scope_position scope) cs)" for scope cs
    by (simp add: cell_def)
  then show ?thesis using assms by metis
qed

lemma projection_cells:
  assumes "map (\<lambda>p. scalar_value I scope (proj_expression p)) ps = map (\<lambda>p. scalar_value I scope' (proj_expression p)) ps'"
  shows "map (\<lambda>p. scalar_value I scope (proj_expression p) row) ps = map (\<lambda>p. scalar_value I scope' (proj_expression p) row) ps'"
  using arg_cong [OF assms, of "map (\<lambda>f. f row)"] by (simp add: comp_def)

abbreviation key_determines :: "('v, 'x) interp_scheme \<Rightarrow> RelationExpression \<Rightarrow> bool" where
  "key_determines I e \<equiv> (\<forall>e' r s. key_relation False e @ r = key_relation False e' @ s \<longrightarrow>
     map column_meta (r_schema e) = map column_meta (r_schema e') \<and> rows I e = rows I e' \<and> r = s)"

lemma input_decode:
  "key_determines I e \<Longrightarrow> key_relation False e @ r = key_relation False e' @ s \<Longrightarrow> rows I e = rows I e' \<and> r = s"
  by blast

lemma operator_decode:
  assumes IH: "\<And>e. e \<in> set (op_inputs op) \<Longrightarrow> key_determines I e"
    and eq: "key_operator False scope op @ r = key_operator False scope' op' @ s"
    and meta: "map column_meta schema = map column_meta schema'"
  shows "operator_rows I schema op = operator_rows I schema' op' \<and> r = s"
proof (cases op)
  case (Scan source)
  obtain c where c: "source = ClassSource c" by (cases source)
  obtain c' where op': "op' = Scan (ClassSource c')" and "key_class False c @ r = key_class False c' @ s"
    using eq Scan c by (cases op') (auto, metis RelationSource.exhaust append_Cons append_Nil key_source.simps list.inject)
  then show ?thesis using resolved_class.decode [of c r c' s] meta by (simp add: Scan c)
next
  case (Filter input p)
  then obtain input' p' where op': "op' = Filter input' p'"
    and eq: "key_relation False input @ key_scalar False (scope_of (r_schema input)) p @ r =
      key_relation False input' @ key_scalar False (scope_of (r_schema input')) p' @ s"
    using eq by (cases op') auto
  have "key_determines I input" by (rule IH) (simp add: Filter)
  from input_decode [OF this eq] show ?thesis
    using scalar_decode(2) [of "scope_of (r_schema input)" p r "scope_of (r_schema input')" p' s I] by (simp add: Filter op')
next
  case (Project input ps k)
  then obtain input' ps' where op': "op' = Project input' ps' k" 
    and eq: "key_relation False input @ show_usize (length ps) # concat (map (key_projection False scope (scope_of (r_schema input))) ps) @ r =
      key_relation False input' @ show_usize (length ps') # concat (map (key_projection False scope' (scope_of (r_schema input'))) ps') @ s"
    using eq by (cases op'; cases k) (auto split: ProjectionKind.splits)
  have "key_determines I input" by (rule IH) (simp add: Project)
  from input_decode [OF this eq] have "rows I input = rows I input'" and len: "length ps = length ps'"
    and "concat (map (key_projection False scope (scope_of (r_schema input))) ps) @ r =
      concat (map (key_projection False scope' (scope_of (r_schema input'))) ps') @ s"
    by (simp_all add: numbers)
  moreover note projections_decode [OF this(3) len, of I]
  ultimately show ?thesis using projection_cells [of I "scope_of (r_schema input)" ps "scope_of (r_schema input')" ps']
    by (simp add: Project op')
next
  case (Join k left right c)
  then obtain left' right' c' where op': "op' = Join k left' right' c'"
    and eq: "key_relation False left @ key_relation False right @ key_scalar False (scope_of (r_schema left @ r_schema right)) c @ r =
      key_relation False left' @ key_relation False right' @ key_scalar False (scope_of (r_schema left' @ r_schema right')) c' @ s"
    using eq by (cases op'; cases k) (auto split: JoinKind.splits)
  have "key_determines I left" "key_determines I right" by (rule IH; simp add: Join)+
  from input_decode [OF this(1) eq] input_decode [OF this(2), of _ right']
  have "rows I left = rows I left'" "rows I right = rows I right'"
    and "key_scalar False (scope_of (r_schema left @ r_schema right)) c @ r =
      key_scalar False (scope_of (r_schema left' @ r_schema right')) c' @ s" by blast+
  with scalar_decode(2) [OF this(3), of I] show ?thesis by (simp add: Join op')
next
  case (Distinct input)
  then obtain input' where op': "op' = Distinct input'" and eq: "key_relation False input @ r = key_relation False input' @ s"
    using eq by (cases op') auto
  have "key_determines I input" by (rule IH) (simp add: Distinct)
  from input_decode [OF this eq] show ?thesis by (simp add: Distinct op')
next
  case (DistinctOn input cs)
  then obtain input' cs' where op': "op' = DistinctOn input' cs'"
    and eq: "key_relation False input @ show_usize (length cs) # concat (map (key_column_id (scope_of (r_schema input))) cs) @ r =
      key_relation False input' @ show_usize (length cs') # concat (map (key_column_id (scope_of (r_schema input'))) cs') @ s"
    using eq by (cases op') auto
  have "key_determines I input" by (rule IH) (simp add: DistinctOn)
  from input_decode [OF this eq] have "rows I input = rows I input'" and len: "length cs = length cs'"
    and "concat (map (key_column_id (scope_of (r_schema input))) cs) @ r =
      concat (map (key_column_id (scope_of (r_schema input'))) cs') @ s"
    by (simp_all add: numbers)
  moreover note selection_decode [OF this(3) len]
  ultimately show ?thesis using selection_cells [of "scope_of (r_schema input)" cs "scope_of (r_schema input')" cs' I]
    by (simp add: DistinctOn op')
next
  case (Sort input ks)
  then obtain input' ks' where op': "op' = Sort input' ks'"
    and eq: "key_relation False input @ show_usize (length ks) # concat (map (key_sort_key False (scope_of (r_schema input))) ks) @ r =
      key_relation False input' @ show_usize (length ks') # concat (map (key_sort_key False (scope_of (r_schema input'))) ks') @ s"
    using eq by (cases op') auto
  have "key_determines I input" by (rule IH) (simp add: Sort)
  from input_decode [OF this eq] have "rows I input = rows I input'" and len: "length ks = length ks'"
    and "concat (map (key_sort_key False (scope_of (r_schema input))) ks) @ r =
      concat (map (key_sort_key False (scope_of (r_schema input'))) ks') @ s"
    by (simp_all add: numbers)
  with sort_keys_decode [OF this(3) len] show ?thesis by (simp add: Sort op')
qed

lemma relation_decode: "key_determines I e"
proof (induction e rule: rel_induct)
  case (rel op schema facts origin)
  show ?case
  proof (intro allI impI)
    fix e' r s
    assume eq: "key_relation False (RelExpr op schema facts origin) @ r = key_relation False e' @ s"
    obtain op' schema' facts' origin' where e': "e' = RelExpr op' schema' facts' origin'" by (cases e')
    have "map column_meta schema = map column_meta schema' \<and>
        key_operator False (scope_of schema) op @ r = key_operator False (scope_of schema') op' @ s"
      using eq by (auto simp: e' when_full_def dest!: schema_decode facts_decode)
    then show "map column_meta (r_schema (RelExpr op schema facts origin)) = map column_meta (r_schema e') \<and>
        rows I (RelExpr op schema facts origin) = rows I e' \<and> r = s"
      using operator_decode [OF rel, of op "scope_of schema" r "scope_of schema'" op' s schema schema'] by (simp add: e')
  qed
qed

interpretation relation: prefix_code "key_relation False" "\<lambda>e. (map column_meta (r_schema e), rows I e)"
  for I :: "('v, 'x) interp_scheme"
proof
  show "(map column_meta (r_schema a), rows I a) = (map column_meta (r_schema b), rows I b) \<and> r = s"
    if "key_relation False a @ r = key_relation False b @ s" for a b r s
    using relation_decode [of a I] that by blast
qed

end
