(* ===== verification/ComparisonProperties.thy ===== *)
theory ComparisonProperties
  imports Comparison KeyEncoding
begin

text \<open>
  Soundness of the comparison: a commitment to equivalence means equal results under every interpretation, a
  commitment to non-equivalence a real difference of the ordered output schemas, and the outcome does not
  depend on the order of the arguments.
\<close>

section \<open>Orderings\<close>

fun reverse_ordering :: "Ordering \<Rightarrow> Ordering" where
  "reverse_ordering LessThan = GreaterThan"
| "reverse_ordering EqualTo = EqualTo"
| "reverse_ordering GreaterThan = LessThan"

lemma reverse_cmp: "cmp b a = reverse_ordering (cmp a b)" for a b :: "'a::linorder"
  by (cases a b rule: linorder_cases) (auto simp: cmp_def)

lemma reverse_then_with: "then_with (reverse_ordering a) (reverse_ordering b) = reverse_ordering (then_with a b)"
  by (cases a) (simp_all add: then_with_def)

lemma reverse_compare_origins: "compare_origins b a = reverse_ordering (compare_origins a b)"
proof -
  note reverse_cmp [of "span_file (origin_source b)" "span_file (origin_source a)"]
    reverse_cmp [of "range_start (span_range (origin_source b))" "range_start (span_range (origin_source a))"]
    reverse_cmp [of "range_end (span_range (origin_source b))" "range_end (span_range (origin_source a))"]
    reverse_cmp [of "model_origin_keys (model_origins b)" "model_origin_keys (model_origins a)"]
  then show ?thesis by (simp add: compare_origins_def Let_def reverse_then_with)
qed

lemma is_le_reverse: "is_le a \<or> is_le (reverse_ordering a)" "is_le a \<and> is_le (reverse_ordering a) \<longleftrightarrow> a = EqualTo"
  by (cases a; simp add: is_le_def)+

lemma then_with_EqualTo: "then_with a b = EqualTo \<longleftrightarrow> a = EqualTo \<and> b = EqualTo"
  by (simp add: then_with_def)

lemma cmp_EqualTo: "cmp a b = EqualTo \<longleftrightarrow> a = b" for a b :: "'a::linorder"
  by (simp add: cmp_def)


section \<open>Schema differences\<close>

lemma field_difference_sym: "output_column_field_difference r l = output_column_field_difference l r"
  by (auto simp: output_column_field_difference_def nullability_contradicts_def)

lemma field_difference_meta: "output_column_field_difference l r = Some f \<Longrightarrow> column_meta l \<noteq> column_meta r"
  by (auto simp: output_column_field_difference_def nullability_contradicts_def column_meta_def split: if_splits)

lemma origins_sym:
  "structural_key l \<noteq> structural_key r \<Longrightarrow> canonical_normalized_origins r l b a = canonical_normalized_origins l r a b"
  "structural_key l \<noteq> structural_key r \<Longrightarrow> canonical_normalized_origin r l = canonical_normalized_origin l r"
  by (auto simp: canonical_normalized_origins_def canonical_normalized_origin_def)

lemma column_difference_sym:
  "structural_key l \<noteq> structural_key r \<Longrightarrow> length cs = length ds \<Longrightarrow>
     column_difference_at r l i (zip ds cs) = column_difference_at l r i (zip cs ds)"
  by (rotate_tac, induction cs ds arbitrary: i rule: list_induct2)
    (auto simp: field_difference_sym origins_sym split: option.split)

lemma schema_difference_sym:
  "structural_key l \<noteq> structural_key r \<Longrightarrow> output_schema_difference r l = output_schema_difference l r"
  by (auto simp: output_schema_difference_def output_column_count_difference_def Let_def column_difference_sym)

lemma column_difference_first:
  "column_difference_at l r i (zip cs ds) = Some d \<Longrightarrow> length cs = length ds \<Longrightarrow>
     \<exists>j f. difference_kind d = OutputColumn (i + j) f \<and> j < length cs \<and>
       output_column_field_difference (cs ! j) (ds ! j) = Some f \<and>
       (\<forall>k<j. output_column_field_difference (cs ! k) (ds ! k) = None)"
proof (rotate_tac, induction cs ds arbitrary: i rule: list_induct2)
  case (Cons c cs e ds)
  show ?case
  proof (cases "output_column_field_difference c e")
    case None
    then obtain j f where j: "difference_kind d = OutputColumn (Suc i + j) f" "j < length cs"
      "output_column_field_difference (cs ! j) (ds ! j) = Some f"
      "\<forall>k<j. output_column_field_difference (cs ! k) (ds ! k) = None"
      using Cons.IH [of "Suc i"] Cons.prems by auto
    then show ?thesis using None by (intro exI [of _ "Suc j"] exI [of _ f]) (auto simp: less_Suc_eq_0_disj)
  next
    case (Some f)
    then show ?thesis using Cons.prems by (intro exI [of _ 0] exI [of _ f]) (auto split: prod.splits)
  qed
qed simp

text \<open>What a structural difference says of two ordered output schemas.\<close>

fun difference_proves :: "RelationSchema \<Rightarrow> RelationSchema \<Rightarrow> StructuralDifferenceKind \<Rightarrow> bool" where
  "difference_proves left right (OutputColumnCount m n) \<longleftrightarrow>
     m \<noteq> n \<and> ((m, n) = (length left, length right) \<or> (m, n) = (length right, length left))"
| "difference_proves left right (OutputColumn i f) \<longleftrightarrow>
     length left = length right \<and> i < length left \<and> output_column_field_difference (left ! i) (right ! i) = Some f \<and>
     (\<forall>j<i. output_column_field_difference (left ! j) (right ! j) = None)"

lemma schema_difference_proves:
  "output_schema_difference l r = Some d \<Longrightarrow>
     difference_proves (r_schema (normal_root l)) (r_schema (normal_root r)) (difference_kind d)"
  using column_difference_first [of l r 0 "r_schema (normal_root l)" "r_schema (normal_root r)" d]
  by (auto simp: output_schema_difference_def output_column_count_difference_def Let_def split: if_splits)

lemma difference_proves_meta:
  assumes "difference_proves left right k"
  shows "map column_meta left \<noteq> map column_meta right"
proof (cases k)
  case (OutputColumnCount m n)
  then have "length left \<noteq> length right" using assms by auto
  then show ?thesis using map_eq_imp_length_eq by blast
next
  case (OutputColumn i f)
  then have "column_meta (left ! i) \<noteq> column_meta (right ! i)" "i < length left" "i < length right"
    using assms field_difference_meta [of "left ! i" "right ! i" f] by auto
  then show ?thesis by (metis nth_map)
qed


section \<open>Soundness\<close>

lemma compare_decided:
  assumes "compare_relational_queries_with_budget left right budget = outcome" "\<And>i. outcome \<noteq> IndecisiveQueries i"
  obtains l r where "normalize_relational_query_with_budget left budget = Normalized l"
    "normalize_relational_query_with_budget right budget = Normalized r" "compare_normalized l r = outcome"
  using assms by (auto simp: compare_relational_queries_with_budget_def split: NormalizationOutcome.splits)

text \<open>C5: When the comparison commits to equivalence, the two queries have the same ordered output columns (name,
  type, multiplicity, nullability) and yield the same rows in the same order under every interpretation of
  classes, literals, navigations and operators that satisfies the stated laws. This rests on three facts:
  normalization keeps the rows, the key writer is uniquely decodable, and the meaning of a normal form depends
  only on what its key contains.\<close>

theorem equivalent_commitment_sound:
  assumes "rel_ok left" "rel_ok right" and "interp_ok flat I"
    and "compare_relational_queries_with_budget left right budget = EquivalentQueries"
  shows "rows I left = rows I right \<and> map column_meta (r_schema left) = map column_meta (r_schema right)"
proof -
  obtain l r where n: "normalize_relational_query_with_budget left budget = Normalized l"
    "normalize_relational_query_with_budget right budget = Normalized r" and "compare_normalized l r = EquivalentQueries"
    using assms(4) by (rule compare_decided) simp
  then have "equivalence_key l = equivalence_key r"
    by (auto simp: compare_normalized_def split: if_splits option.splits)
  then have "key_relation False (normal_form left) = key_relation False (normal_form right)"
    using n assms(1,2) by (simp add: normalize_Normalized render_fragments_inj)
  from relation.key_inj [OF this, of I] show ?thesis
    using normal_form_rows [OF assms(3)] assms(1,2) by simp
qed

text \<open>C31: When the comparison commits to non-equivalence, the reported difference is real: either the two queries
  have the reported, different numbers of output columns, or they have the same number and the reported position
  is the first at which name, type or multiplicity differ or the nullabilities contradict each other.\<close>

theorem refutation_sound:
  assumes "rel_ok left" "rel_ok right"
    and "compare_relational_queries_with_budget left right budget = NotEquivalent d"
  shows "difference_proves (r_schema left) (r_schema right) (difference_kind d) \<and>
    map column_meta (r_schema left) \<noteq> map column_meta (r_schema right)"
proof -
  obtain l r where n: "normalize_relational_query_with_budget left budget = Normalized l"
    "normalize_relational_query_with_budget right budget = Normalized r" and "compare_normalized l r = NotEquivalent d"
    using assms(3) by (rule compare_decided) simp
  then have "output_schema_difference l r = Some d"
    by (auto simp: compare_normalized_def split: if_splits option.splits)
  moreover have "r_schema (normal_root l) = r_schema left" "r_schema (normal_root r) = r_schema right"
    using n assms(1,2) by (simp_all add: normalize_Normalized)
  ultimately have "difference_proves (r_schema left) (r_schema right) (difference_kind d)"
    using schema_difference_proves [of l r d] by simp
  then show ?thesis using difference_proves_meta by blast
qed


section \<open>Order of the arguments\<close>

text \<open>Two outcomes that agree up to the representation of an indecision's origin.\<close>

definition same_indecision :: "ComparisonIndecision \<Rightarrow> ComparisonIndecision \<Rightarrow> bool" where
  "same_indecision a b \<longleftrightarrow>
     indecision_reason a = indecision_reason b \<and> compare_origins (indecision_origin a) (indecision_origin b) = EqualTo"

fun same_outcome :: "ComparisonOutcome \<Rightarrow> ComparisonOutcome \<Rightarrow> bool" where
  "same_outcome EquivalentQueries y \<longleftrightarrow> y = EquivalentQueries"
| "same_outcome (NotEquivalent d) y \<longleftrightarrow> y = NotEquivalent d"
| "same_outcome (IndecisiveQueries i) y \<longleftrightarrow> (\<exists>j. y = IndecisiveQueries j \<and> same_indecision i j)"

lemma compare_origins_refl: "compare_origins a a = EqualTo"
  by (simp add: compare_origins_def then_with_def cmp_def)

lemma same_indecision_refl: "same_indecision i i"
  by (simp add: same_indecision_def compare_origins_refl)

lemma same_outcome_refl: "same_outcome x x"
  by (cases x) (auto simp: same_indecision_refl)

lemma canonical_choice_sym:
  fixes a b :: string and ra rb :: ReasonCode and ga gb :: IrOrigin
  assumes "a = reason_id ra" "b = reason_id rb"
  defines "order \<equiv> then_with (cmp a b) (compare_origins ga gb)"
    and "reversed \<equiv> then_with (cmp b a) (compare_origins gb ga)"
    and "ia \<equiv> \<lparr>indecision_reason = ra, indecision_origin = ga\<rparr>" and "ib \<equiv> \<lparr>indecision_reason = rb, indecision_origin = gb\<rparr>"
  shows "same_indecision (if is_le order then ia else ib) (if is_le reversed then ib else ia)"
proof -
  have rev: "reversed = reverse_ordering order"
    using reverse_cmp [of b a] reverse_compare_origins [of gb ga] by (simp add: order_def reversed_def reverse_then_with)
  show ?thesis
  proof (cases "order = EqualTo")
    case True
    then have "ra = rb" "compare_origins ga gb = EqualTo"
      using assms(1,2) reason_registry.ident_inj by (auto simp: order_def then_with_EqualTo cmp_EqualTo)
    then show ?thesis by (simp add: True rev is_le_def same_indecision_def ia_def ib_def)
  next
    case False
    then have "is_le reversed \<longleftrightarrow> \<not> is_le order" using rev by (cases order) (simp_all add: is_le_def)
    then show ?thesis by (simp add: same_indecision_def compare_origins_refl)
  qed
qed

lemma failure_indecision_sym: "same_indecision (canonical_failure_indecision l r) (canonical_failure_indecision r l)"
  unfolding canonical_failure_indecision_def indecision_from_failure_def by (rule canonical_choice_sym) simp_all

lemma opaque_indecision_sym: "same_indecision (canonical_opaque_indecision l r) (canonical_opaque_indecision r l)"
  unfolding canonical_opaque_indecision_def indecision_from_opaque_def by (rule canonical_choice_sym) simp_all

lemma structural_key_determines:
  assumes "normalize_relational_query_with_budget a budget = Normalized l"
    "normalize_relational_query_with_budget b budget = Normalized r" "structural_key l = structural_key r"
  shows "equivalence_key l = equivalence_key r"
  using assms by (auto simp: normalize_relational_query_with_budget_def Let_def render_fragments_inj split: sum.splits prod.splits)

lemma compare_relational_sym:
  "same_outcome (compare_relational_queries_with_budget a b budget) (compare_relational_queries_with_budget b a budget)"
proof (cases "normalize_relational_query_with_budget a budget"; cases "normalize_relational_query_with_budget b budget")
  fix l r
  assume n: "normalize_relational_query_with_budget a budget = Normalized l"
    "normalize_relational_query_with_budget b budget = Normalized r"
  have "compare_normalized l r = compare_normalized r l"
  proof (cases "structural_key l = structural_key r")
    case True
    then show ?thesis using structural_key_determines [OF n] by (simp add: compare_normalized_def)
  next
    case False
    then have "output_schema_difference r l = output_schema_difference l r"
      "canonical_normalized_origin r l = canonical_normalized_origin l r" by (rule schema_difference_sym origins_sym)+
    then show ?thesis by (auto simp: compare_normalized_def split: option.split)
  qed
  then show ?thesis using n by (simp add: compare_relational_queries_with_budget_def same_outcome_refl)
qed (simp_all add: compare_relational_queries_with_budget_def same_outcome_refl failure_indecision_sym
      same_indecision_refl)

text \<open>C32: The outcome of comparing two lowered queries does not depend on their order: the same commitment, with the
  same structural difference down to which origin is primary, or the same indecision reason at origins the
  comparison order does not distinguish.\<close>

theorem comparison_symmetric:
  "same_outcome (compare_lowered_queries_with_budget a b budget) (compare_lowered_queries_with_budget b a budget)"
  by (cases a; cases b)
    (simp_all add: compare_lowered_queries_with_budget_def compare_relational_sym opaque_indecision_sym
      same_outcome_refl same_indecision_refl)

end
