(* ===== verification/RelationalScenarios.thy ===== *)
theory RelationalScenarios
  imports ComparisonProperties
begin

text \<open>
  Concrete queries and an interpretation of them: a class with one column, scanned, filtered by the literal
  \<^verbatim>\<open>true\<close>, deduplicated twice and projected to fewer columns.
\<close>

definition sample_origin :: IrOrigin where
  "sample_origin = \<lparr>origin_source = \<lparr>span_file = 0, span_range = text_range 0 4\<rparr>, model_origins = []\<rparr>"

definition one :: Multiplicity where
  "one = \<lparr>mult_lower = 1, mult_upper = Some 1\<rparr>"

definition sample_column :: "nat \<Rightarrow> string \<Rightarrow> Column" where
  "sample_column i n = \<lparr>col_id = i, col_name = n, col_type = TypeRef ''Boolean'' [], col_multiplicity = one,
     col_nullability = NonNullable, col_origin = sample_origin\<rparr>"

definition sample_class :: ResolvedClass where
  "sample_class = \<lparr>class_id = 0, class_path = ''m::Flag'', class_temporal = None, class_provenance = PureFile,
     class_definition = \<lparr>anchor_source = 0, anchor_span = None\<rparr>\<rparr>"

definition sample_scan :: "RelationSchema \<Rightarrow> RelationExpression" where
  "sample_scan schema = RelExpr (Scan (ClassSource sample_class)) schema facts_unknown sample_origin"

definition literal_true :: ScalarExpression where
  "literal_true = ScalarExpr (Literal (BooleanLit True)) (TypeRef ''Boolean'' []) one NonNullable Unknown sample_origin"

definition scanned :: RelationExpression where
  "scanned = sample_scan [sample_column 7 ''a'']"

text \<open>The same rows with other column identities, under a filter by \<^verbatim>\<open>true\<close>.\<close>

definition filtered :: RelationExpression where
  "filtered = RelExpr (Filter (sample_scan [sample_column 3 ''a'']) literal_true) [sample_column 3 ''a''] facts_unknown sample_origin"

definition renamed :: RelationExpression where
  "renamed = sample_scan [sample_column 7 ''b'']"

definition sample_interp :: "bool interp" where
  "sample_interp = \<lparr>scan_rows = (\<lambda>c cols. [replicate (length cols) True, replicate (length cols) False]),
     literal_value = (\<lambda>l. case l of BooleanLit b \<Rightarrow> b | _ \<Rightarrow> False), navigate = (\<lambda>m v. v), equal_values = (=),
     negate = Not, holds = (\<lambda>v. v), expand = (\<lambda>k cells. [cells]), arrange = (\<lambda>ks rs. rs), absent = False\<rparr>"

lemmas sample_defs = sample_origin_def one_def sample_column_def sample_class_def sample_scan_def literal_true_def
  scanned_def filtered_def renamed_def facts_unknown_def facts_new_def

lemma sample_ok: "rel_ok scanned" "rel_ok filtered" "rel_ok renamed"
  by (simp_all add: sample_defs validate_expression_keys_def validate_literal_def validate_boolean_def is_exactly_one_def
      EXACTLY_ONE_def BOOLEAN_TYPE_def)

lemma sample_interp_ok: "interp_ok (\<lambda>_. True) sample_interp"
  by (auto simp: interp_ok_def sample_interp_def list_all_iff)

lemma sample_equivalent: "compare_relational_queries_with_budget scanned filtered 3 = EquivalentQueries"
  by code_simp

lemma sample_refuted:
  "compare_relational_queries_with_budget scanned renamed 3 =
     NotEquivalent \<lparr>difference_kind = OutputColumn 0 NameField, primary_origin = sample_origin, secondary_origin = sample_origin\<rparr>"
  by code_simp

lemma normalization_within_budget_witness:
  "(\<exists>n. normalize_relational_query_with_budget filtered 3 = Normalized n) \<and>
   \<not> (\<exists>n. normalize_relational_query_with_budget filtered 2 = Normalized n)"
  using normalization_within_budget [OF sample_ok(2), of 3] normalization_within_budget [OF sample_ok(2), of 2]
  by (simp add: filtered_def sample_scan_def literal_true_def MAX_RELATIONAL_RECURSION_DEPTH_def)

lemma filtered_normalizes: "\<exists>n. normalize_relational_query_with_budget filtered 3 = Normalized n \<and> normal_root n = normal_form filtered"
proof -
  let ?key = "render_fragments (key_relation False (normal_form filtered))"
  let ?n = "\<lparr>normal_root = normal_form filtered, equivalence_key = ?key,
    structural_key = render_fragments [''normal-form-v1'', ?key, ''input-provenance-v1'', render_fragments (key_relation True filtered)]\<rparr>"
  have "rel_nodes filtered \<le> 3 \<and> rel_height filtered \<le> MAX_RELATIONAL_RECURSION_DEPTH"
    by (simp add: filtered_def sample_scan_def literal_true_def MAX_RELATIONAL_RECURSION_DEPTH_def)
  then show ?thesis using normalize_Normalized [OF sample_ok(2), of 3 ?n] by (intro exI [of _ ?n]) simp
qed

lemma normalization_idempotent_witness:
  "\<exists>n. normalize_relational_query_with_budget filtered 3 = Normalized n \<and>
     (\<exists>m. normalize_relational_query_with_budget (normal_root n) 3 = Normalized m \<and>
        normal_root m = normal_root n \<and> equivalence_key m = equivalence_key n)"
  using filtered_normalizes normalization_idempotent [OF sample_ok(2), of 3] by blast

lemma equivalent_commitment_sound_witness:
  "compare_relational_queries_with_budget scanned filtered 3 = EquivalentQueries \<and>
   rows sample_interp scanned = rows sample_interp filtered \<and>
   map column_meta (r_schema scanned) = map column_meta (r_schema filtered)"
  using equivalent_commitment_sound [OF sample_ok(1,2) sample_interp_ok sample_equivalent] sample_equivalent by simp

lemma refutation_sound_witness:
  "map column_meta (r_schema scanned) \<noteq> map column_meta (r_schema renamed)"
  using refutation_sound [OF sample_ok(1,3) sample_refuted] by simp

end
