(* ===== verification/ResolverProperties.thy ===== *)
theory ResolverProperties
  imports Navigation
begin

text \<open>
  Correctness of name resolution: what the validation of a hierarchy guarantees and what its faults mean, that
  the levels are the classes by distance from the origin, and that a member resolves to its nearest declaration.
\<close>

declare validate_node.simps [simp del] and breadth_first.simps [simp del]


section \<open>The generalization relation\<close>

definition generalization :: "ModelGraph \<Rightarrow> (string \<times> string) set" where
  "generalization g = {(a, b). b \<in> parents_of g a}"

lemma generalization_iff [simp]: "(a, b) \<in> generalization g \<longleftrightarrow> b \<in> parents_of g a"
  by (simp add: generalization_def)

text \<open>A set of classes the validation has finished: present, closed under supertypes and without cycles.\<close>

definition settled :: "ModelGraph \<Rightarrow> string set \<Rightarrow> bool" where
  "settled g D \<longleftrightarrow> (\<forall>v\<in>D. graph_class g v \<noteq> None \<and> parents_of g v \<subseteq> D \<and> (v, v) \<notin> (generalization g)\<^sup>+)"

lemma settled_closed:
  assumes "settled g D" "(v, w) \<in> (generalization g)\<^sup>*" "v \<in> D"
  shows "w \<in> D"
  using assms(2,3) by (induction rule: rtrancl_induct) (use assms(1) in \<open>auto simp: settled_def\<close>)

lemma settled_insert:
  assumes D: "settled g D" and c: "graph_class g c \<noteq> None" "parents_of g c \<subseteq> D"
  shows "settled g (insert c D)"
proof (cases "c \<in> D")
  case False
  have "(c, c) \<notin> (generalization g)\<^sup>+"
  proof
    assume "(c, c) \<in> (generalization g)\<^sup>+"
    then obtain p where "p \<in> parents_of g c" "(p, c) \<in> (generalization g)\<^sup>*" by (auto dest: tranclD)
    then show False using settled_closed [OF D] c(2) False by blast
  qed
  then show ?thesis using D c by (auto simp: settled_def)
qed (use D in \<open>simp add: insert_absorb\<close>)

lemma index_of_Some: "index_of x xs = Some i \<Longrightarrow> i < length xs \<and> xs ! i = x"
  by (auto simp: index_of_def split: if_splits)
    (metis (mono_tags, lifting) length_append length_greater_0_conv less_add_same_cancel1 set_takeWhileD takeWhile_dropWhile_id append_Nil2,
     metis (mono_tags, lifting) nth_length_takeWhile length_append length_greater_0_conv less_add_same_cancel1 set_takeWhileD takeWhile_dropWhile_id append_Nil2)

lemma index_of_None: "index_of x xs = None \<longleftrightarrow> x \<notin> set xs"
  by (simp add: index_of_def)

lemma validate_sound:
  "validate_node g c V st = Inr V' \<Longrightarrow> set st \<subseteq> V \<Longrightarrow> settled g (V - set st) \<Longrightarrow>
     V \<subseteq> V' \<and> c \<in> V' - set st \<and> settled g (V' - set st)"
  "validate_parents g c ps V st = Inr V' \<Longrightarrow> set st \<subseteq> V \<Longrightarrow> settled g (V - set st) \<Longrightarrow>
     V \<subseteq> V' \<and> set ps \<subseteq> V' - set st \<and> settled g (V' - set st)"
proof (induction g c V st and g c ps V st arbitrary: V' and V' rule: validate_node_validate_parents.induct)
  case (1 g current visited stack)
  have fresh: "current \<notin> set stack" and low: "\<not> MAX_GENERALIZATION_DEPTH \<le> length stack"
    using "1.prems"(1) by (auto simp: validate_node.simps index_of_None [symmetric] split: if_splits option.splits)
  then have none: "index_of current stack = None" by (simp add: index_of_None)
  show ?case
  proof (cases "current \<in> visited")
    case True
    then have "V' = visited" using "1.prems"(1) none low by (simp add: validate_node.simps)
    then show ?thesis using "1.prems"(2,3) True fresh by blast
  next
    case False
    then obtain c where c: "graph_class g current = Some c"
      and rec: "validate_parents g current (sorted_supertypes c) (insert current visited) (stack @ [current]) = Inr V'"
      using "1.prems"(1) none low by (auto simp: validate_node.simps split: option.splits)
    have "insert current visited - set (stack @ [current]) = visited - set stack" using False by auto
    then have post: "insert current visited \<subseteq> V'" "set (sorted_supertypes c) \<subseteq> V' - set (stack @ [current])"
      "settled g (V' - set (stack @ [current]))"
      using "1.IH" [OF low none False c rec] "1.prems"(2,3) by auto
    have "V' - set stack = insert current (V' - set (stack @ [current]))" using post(1) fresh by auto
    moreover have "settled g (insert current (V' - set (stack @ [current])))"
      by (rule settled_insert [OF post(3)]) (use c post(2) in \<open>auto simp: parents_of_def\<close>)
    ultimately show ?thesis using post(1) fresh by auto
  qed
next
  case (2 g current visited stack)
  then show ?case by simp
next
  case (3 g current parent parents visited stack)
  obtain V1 where present: "graph_class g parent \<noteq> None" and node: "validate_node g parent visited stack = Inr V1"
    and rest: "validate_parents g current parents V1 stack = Inr V'"
    using "3.prems"(1) by (auto split: if_splits sum.splits)
  have mid: "visited \<subseteq> V1" "parent \<in> V1 - set stack" "settled g (V1 - set stack)"
    using "3.IH"(1) [OF present node] "3.prems"(2,3) by auto
  have "V1 \<subseteq> V' \<and> set parents \<subseteq> V' - set stack \<and> settled g (V' - set stack)"
    using "3.IH"(2) [OF present node rest] mid "3.prems"(2) by auto
  then show ?case using mid by auto
qed


section \<open>Faults\<close>

definition walk :: "ModelGraph \<Rightarrow> string \<Rightarrow> string list \<Rightarrow> bool" where
  "walk g origin ps \<longleftrightarrow> ps \<noteq> [] \<and> hd ps = origin \<and> successively (\<lambda>a b. b \<in> parents_of g a) ps"

lemma walk_relpow: "walk g origin (ps @ [c]) \<Longrightarrow> (origin, c) \<in> generalization g ^^ length ps"
proof (induction ps arbitrary: c rule: rev_induct)
  case (snoc p ps)
  then have "walk g origin (ps @ [p])" "c \<in> parents_of g p"
    by (auto simp: walk_def successively_append_iff hd_append)
  then show ?case using snoc.IH [of p] by (auto intro: relcompI)
qed (simp add: walk_def)

lemma walk_reaches: "walk g origin ps \<Longrightarrow> p \<in> set ps \<Longrightarrow> (origin, p) \<in> (generalization g)\<^sup>*"
proof -
  assume w: "walk g origin ps" and "p \<in> set ps"
  then obtain xs ys where ps: "ps = xs @ p # ys" by (auto simp: in_set_conv_decomp)
  have "successively (\<lambda>a b. b \<in> parents_of g a) ((xs @ [p]) @ ys)" "hd (xs @ [p]) = origin"
    using w ps by (auto simp: walk_def hd_append)
  then have "walk g origin (xs @ [p])" unfolding successively_append_iff walk_def by simp
  then show ?thesis using walk_relpow relpow_imp_rtrancl by blast
qed

lemma walk_snoc: "walk g origin st \<Longrightarrow> p \<in> parents_of g (last st) \<Longrightarrow> walk g origin (st @ [p])"
  by (auto simp: walk_def successively_append_iff)

text \<open>What a reported fault says of the model.\<close>

fun fault_real :: "ModelGraph \<Rightarrow> string \<Rightarrow> HierarchyFault \<Rightarrow> bool" where
  "fault_real g origin (FaultCycle cycle) \<longleftrightarrow>
     length cycle \<ge> 2 \<and> hd cycle = last cycle \<and> successively (\<lambda>a b. b \<in> parents_of g a) cycle \<and>
     (origin, hd cycle) \<in> (generalization g)\<^sup>*"
| "fault_real g origin (FaultUnderResolved (MissingSupertype owner missing)) \<longleftrightarrow>
     (origin, owner) \<in> (generalization g)\<^sup>* \<and> missing \<in> parents_of g owner \<and> graph_class g missing = None"
| "fault_real g origin (FaultUnderResolved (GeneralizationDepth c limit)) \<longleftrightarrow>
     limit = MAX_GENERALIZATION_DEPTH \<and> (origin, c) \<in> generalization g ^^ limit"
| "fault_real g origin (FaultUnderResolved _) \<longleftrightarrow> False"

lemma cycle_real:
  assumes "walk g origin (st @ [c])" "index_of c st = Some i"
  shows "fault_real g origin (FaultCycle (drop i st @ [c]))"
proof -
  have i: "i < length st" "st ! i = c" using index_of_Some [OF assms(2)] by auto
  then have hd: "hd (drop i st @ [c]) = c" by (simp add: hd_drop_conv_nth hd_append)
  have "st @ [c] = take i st @ (drop i st @ [c])" by simp
  then have "successively (\<lambda>a b. b \<in> parents_of g a) (drop i st @ [c])"
    using assms(1) by (metis walk_def successively_append_iff)
  then show ?thesis using i hd walk_reaches [OF assms(1), of c] by simp
qed

lemma depth_real:
  assumes "walk g origin (st @ [c])" "length st = MAX_GENERALIZATION_DEPTH"
  shows "fault_real g origin (FaultUnderResolved (GeneralizationDepth c MAX_GENERALIZATION_DEPTH))"
  using walk_relpow [OF assms(1)] assms(2) by simp

lemma validate_faults:
  "validate_node g c V st = Inl f \<Longrightarrow> walk g origin (st @ [c]) \<Longrightarrow> graph_class g c \<noteq> None \<Longrightarrow>
     length st \<le> MAX_GENERALIZATION_DEPTH \<Longrightarrow> fault_real g origin f"
  "validate_parents g c ps V st = Inl f \<Longrightarrow> walk g origin st \<Longrightarrow> last st = c \<Longrightarrow> set ps \<subseteq> parents_of g c \<Longrightarrow>
     length st \<le> MAX_GENERALIZATION_DEPTH \<Longrightarrow> fault_real g origin f"
proof (induction g c V st and g c ps V st arbitrary: f and f rule: validate_node_validate_parents.induct)
  case (1 g current visited stack)
  consider (deep) "length stack = MAX_GENERALIZATION_DEPTH" "f = FaultUnderResolved (GeneralizationDepth current MAX_GENERALIZATION_DEPTH)"
    | (cycle) i where "index_of current stack = Some i" "f = FaultCycle (drop i stack @ [current])"
    | (up) c where "\<not> MAX_GENERALIZATION_DEPTH \<le> length stack" "index_of current stack = None" "current \<notin> visited"
        "graph_class g current = Some c"
        "validate_parents g current (sorted_supertypes c) (insert current visited) (stack @ [current]) = Inl f"
    using "1.prems"(1,3,4) by (auto simp: validate_node.simps split: if_splits option.splits)
  then show ?case
  proof cases
    case deep
    then show ?thesis using depth_real "1.prems"(2) by blast
  next
    case cycle
    then show ?thesis using cycle_real "1.prems"(2) by blast
  next
    case up
    then show ?thesis using "1.IH" [OF up(1-4,5)] "1.prems"(2) by (simp add: parents_of_def)
  qed
next
  case (2 g current visited stack)
  then show ?case by simp
next
  case (3 g current parent parents visited stack)
  have stack: "stack \<noteq> []" "current \<in> set stack" using "3.prems"(2,3) by (auto simp: walk_def)
  show ?case
  proof (cases "graph_class g parent")
    case None
    then show ?thesis using "3.prems" walk_reaches [OF "3.prems"(2) stack(2)] by auto
  next
    case (Some c)
    then have present: "graph_class g parent \<noteq> None" by simp
    show ?thesis
    proof (cases "validate_node g parent visited stack")
      case (Inl f')
      have "walk g origin (stack @ [parent])" using walk_snoc [of g origin stack parent] "3.prems" by auto
      then show ?thesis using "3.IH"(1) [OF present Inl] "3.prems"(1,5) present Inl by simp
    next
      case (Inr V1)
      then show ?thesis using "3.IH"(2) [OF present Inr] "3.prems" present by auto
    qed
  qed
qed

text \<open>C7: The validation of a class hierarchy terminates and is right either way. If it accepts, every class reachable
  through generalization is in the model and lies on no cycle. If it reports a cycle, a missing supertype or
  excessive depth, then that cycle exists, that supertype is referenced and absent, or there is a chain of 256
  generalizations to the named class; it reports nothing else.\<close>

theorem hierarchy_validation_right:
  assumes "graph_class g origin \<noteq> None"
  shows "case validate_hierarchy g origin of
      Inr _ \<Rightarrow> \<forall>v. (origin, v) \<in> (generalization g)\<^sup>* \<longrightarrow> graph_class g v \<noteq> None \<and> (v, v) \<notin> (generalization g)\<^sup>+
    | Inl fault \<Rightarrow> fault_real g origin fault"
proof (cases "validate_node g origin {} []")
  case (Inl fault)
  have "fault_real g origin fault" using validate_faults(1) [OF Inl, of origin] assms by (simp add: walk_def)
  then show ?thesis by (simp add: validate_hierarchy_def Inl)
next
  case (Inr V)
  have "origin \<in> V" "settled g V" using validate_sound(1) [OF Inr] by (simp_all add: settled_def)
  then show ?thesis using settled_closed [of g V origin] by (auto simp: validate_hierarchy_def Inr settled_def)
qed


section \<open>Levels\<close>

definition at_distance :: "ModelGraph \<Rightarrow> string \<Rightarrow> nat \<Rightarrow> string set" where
  "at_distance g origin k = {v. (origin, v) \<in> generalization g ^^ k \<and> (\<forall>j<k. (origin, v) \<notin> generalization g ^^ j)}"

definition within_distance :: "ModelGraph \<Rightarrow> string \<Rightarrow> nat \<Rightarrow> string set" where
  "within_distance g origin k = {v. \<exists>j\<le>k. (origin, v) \<in> generalization g ^^ j}"

lemma distance_0 [simp]: "at_distance g origin 0 = {origin}" "within_distance g origin 0 = {origin}"
  by (auto simp: at_distance_def within_distance_def)

lemma parents_at_distance:
  assumes "(origin, v) \<in> generalization g ^^ Suc k" "v \<notin> within_distance g origin k"
  shows "\<exists>p\<in>at_distance g origin k. v \<in> parents_of g p"
proof -
  obtain p where p: "(origin, p) \<in> generalization g ^^ k" "v \<in> parents_of g p" using assms(1) by auto
  have "(origin, p) \<notin> generalization g ^^ j" if "j < k" for j
  proof
    assume "(origin, p) \<in> generalization g ^^ j"
    then have "(origin, v) \<in> generalization g ^^ Suc j" using p(2) by auto
    then show False using assms(2) that by (auto simp: within_distance_def simp del: relpow.simps dest: Suc_leI)
  qed
  then show ?thesis using p by (auto simp: at_distance_def)
qed

lemma at_distance_Suc:
  "at_distance g origin (Suc k) = (\<Union>p\<in>at_distance g origin k. parents_of g p) - within_distance g origin k"
proof
  show "at_distance g origin (Suc k) \<subseteq> (\<Union>p\<in>at_distance g origin k. parents_of g p) - within_distance g origin k"
  proof
    fix v
    assume "v \<in> at_distance g origin (Suc k)"
    then have v: "(origin, v) \<in> generalization g ^^ Suc k" "v \<notin> within_distance g origin k"
      by (auto simp: at_distance_def within_distance_def simp del: relpow.simps dest: le_imp_less_Suc)
    then show "v \<in> (\<Union>p\<in>at_distance g origin k. parents_of g p) - within_distance g origin k"
      using parents_at_distance [OF v] by blast
  qed
  show "(\<Union>p\<in>at_distance g origin k. parents_of g p) - within_distance g origin k \<subseteq> at_distance g origin (Suc k)"
    by (auto simp: at_distance_def within_distance_def less_Suc_eq_le)
qed

lemma within_distance_Suc:
  "within_distance g origin (Suc k) = within_distance g origin k \<union> (\<Union>p\<in>at_distance g origin k. parents_of g p)"
proof
  show "within_distance g origin (Suc k) \<subseteq> within_distance g origin k \<union> (\<Union>p\<in>at_distance g origin k. parents_of g p)"
  proof
    fix v
    assume "v \<in> within_distance g origin (Suc k)"
    then have "v \<in> within_distance g origin k \<or> (origin, v) \<in> generalization g ^^ Suc k"
      by (auto simp: within_distance_def le_Suc_eq simp del: relpow.simps)
    then show "v \<in> within_distance g origin k \<union> (\<Union>p\<in>at_distance g origin k. parents_of g p)"
      using parents_at_distance [of origin v k g] by blast
  qed
  show "within_distance g origin k \<union> (\<Union>p\<in>at_distance g origin k. parents_of g p) \<subseteq> within_distance g origin (Suc k)"
    by (auto simp: within_distance_def at_distance_def le_Suc_eq) (metis relcompI generalization_iff relpow.simps(2))
qed

lemma reachable_distance:
  assumes "(origin, v) \<in> (generalization g)\<^sup>*"
  obtains k where "v \<in> at_distance g origin k"
proof -
  define k where "k = (LEAST k. (origin, v) \<in> generalization g ^^ k)"
  obtain n where "(origin, v) \<in> generalization g ^^ n" using assms rtrancl_imp_relpow by blast
  then have "(origin, v) \<in> generalization g ^^ k" unfolding k_def by (rule LeastI)
  moreover have "(origin, v) \<notin> generalization g ^^ j" if "j < k" for j using that unfolding k_def by (rule not_less_Least)
  ultimately show ?thesis by (intro that [of k]) (simp add: at_distance_def)
qed

lemma at_distance_reachable: "v \<in> at_distance g origin k \<Longrightarrow> (origin, v) \<in> (generalization g)\<^sup>*"
  by (auto simp: at_distance_def relpow_imp_rtrancl)

lemma at_distance_unique: "v \<in> at_distance g origin j \<Longrightarrow> v \<in> at_distance g origin k \<Longrightarrow> j = k"
  by (metis (mono_tags, lifting) at_distance_def linorder_neqE_nat mem_Collect_eq)

lemma finite_at_distance: "finite (at_distance g origin k)"
proof (cases k)
  case (Suc j)
  have "at_distance g origin k \<subseteq> supertype_names g"
    unfolding Suc at_distance_Suc using parents_of_names by blast
  then show ?thesis by (rule finite_subset) simp
qed simp

lemma at_distance_empty_after: "at_distance g origin k = {} \<Longrightarrow> k \<le> m \<Longrightarrow> at_distance g origin m = {}"
proof (induction m)
  case (Suc m)
  then show ?case by (cases "k = Suc m") (simp_all add: at_distance_Suc [of g origin m])
qed simp


abbreviation hierarchy_complete :: "ModelGraph \<Rightarrow> string \<Rightarrow> bool" where
  "hierarchy_complete g origin \<equiv> (\<forall>v. (origin, v) \<in> (generalization g)\<^sup>* \<longrightarrow> graph_class g v \<noteq> None)"

lemma breadth_first_levels:
  "hierarchy_complete g origin \<Longrightarrow> set cur = at_distance g origin k \<Longrightarrow> seen = within_distance g origin k \<Longrightarrow>
     \<exists>ls. breadth_first g cur seen = Inr ls \<and>
       (\<forall>i<length ls. ls ! i = sorted_list_of_set (at_distance g origin (Suc (k + i))) \<and> at_distance g origin (Suc (k + i)) \<noteq> {}) \<and>
       at_distance g origin (Suc (k + length ls)) = {}"
proof (induction g cur seen arbitrary: k rule: breadth_first.induct)
  case (1 g cur seen)
  let ?new = "at_distance g origin (Suc k)"
  have "graph_class g p \<noteq> None" if "p \<in> set cur" for p
    using that "1.prems" at_distance_reachable by blast
  then have step: "next_level g cur (seen, {}) = Inr (within_distance g origin (Suc k), ?new)"
    using "1.prems" by (auto simp: next_level_Inr at_distance_Suc within_distance_Suc)
  show ?case
  proof (cases "?new = {}")
    case True
    then show ?thesis by (intro exI [of _ "[]"]) (simp add: breadth_first.simps [of g cur] step)
  next
    case False
    then have ne: "sorted_list_of_set ?new \<noteq> []" using finite_at_distance by simp
    obtain ls where ls: "breadth_first g (sorted_list_of_set ?new) (within_distance g origin (Suc k)) = Inr ls"
      and nth: "\<And>i. i < length ls \<Longrightarrow> ls ! i = sorted_list_of_set (at_distance g origin (Suc (Suc k + i))) \<and>
        at_distance g origin (Suc (Suc k + i)) \<noteq> {}" and end_: "at_distance g origin (Suc (Suc k + length ls)) = {}"
      using "1.IH" [OF step refl ne "1.prems"(1), of "Suc k"] finite_at_distance by auto
    show ?thesis
    proof (intro exI [of _ "sorted_list_of_set ?new # ls"] conjI allI impI)
      show "breadth_first g cur seen = Inr (sorted_list_of_set ?new # ls)"
        using ne ls by (simp add: breadth_first.simps [of g cur] step)
      fix i
      assume "i < length (sorted_list_of_set ?new # ls)"
      then show "(sorted_list_of_set ?new # ls) ! i = sorted_list_of_set (at_distance g origin (Suc (k + i)))"
        "at_distance g origin (Suc (k + i)) \<noteq> {}"
        using nth [of "i - 1"] False by (cases i; simp)+
    qed (use end_ in simp)
  qed
qed

lemma validated_complete:
  "validate_hierarchy g origin = Inr u \<Longrightarrow> hierarchy_complete g origin"
proof -
  assume "validate_hierarchy g origin = Inr u"
  then obtain V where "validate_node g origin {} [] = Inr V" by (auto simp: validate_hierarchy_def propagate)
  from validate_sound(1) [OF this] have "origin \<in> V" "settled g V" by (simp_all add: settled_def)
  then show "hierarchy_complete g origin" using settled_closed [of g V origin] by (auto simp: settled_def)
qed

lemma breadth_first_origin:
  assumes "validate_hierarchy g origin = Inr u"
  shows "\<exists>ls. breadth_first g [origin] {origin} = Inr ls \<and>
    (\<forall>i<length ls. ls ! i = sorted_list_of_set (at_distance g origin (Suc i))) \<and> at_distance g origin (Suc (length ls)) = {}"
proof -
  have "set [origin] = at_distance g origin 0" "{origin} = within_distance g origin 0" by simp_all
  from breadth_first_levels [OF validated_complete [OF assms] this] show ?thesis unfolding add_0 by blast
qed

lemma hierarchy_levels_nth:
  assumes "hierarchy_levels g origin = Inr levels"
  shows "levels \<noteq> [] \<and> (\<forall>k<length levels. levels ! k = sorted_list_of_set (at_distance g origin k)) \<and>
    at_distance g origin (length levels) = {}"
proof -
  obtain u ls where v: "validate_hierarchy g origin = Inr u" and b: "breadth_first g [origin] {origin} = Inr ls"
    and levels: "levels = [origin] # ls"
    using assms by (auto simp: hierarchy_levels_def propagate)
  have "\<forall>i<length ls. ls ! i = sorted_list_of_set (at_distance g origin (Suc i))" "at_distance g origin (Suc (length ls)) = {}"
    using breadth_first_origin [OF v] b by simp_all
  then show ?thesis by (simp add: levels nth_Cons split: nat.split)
qed

lemma hierarchy_levels_cover:
  assumes "hierarchy_levels g origin = Inr levels"
  shows "(origin, v) \<in> (generalization g)\<^sup>* \<longleftrightarrow> (\<exists>level\<in>set levels. v \<in> set level)"
proof
  note nth = hierarchy_levels_nth [OF assms]
  assume "(origin, v) \<in> (generalization g)\<^sup>*"
  then obtain k where k: "v \<in> at_distance g origin k" by (rule reachable_distance)
  then have "k < length levels" using nth at_distance_empty_after [of g origin "length levels" k] by (metis empty_iff not_less)
  moreover from this have "v \<in> set (levels ! k)" using nth k finite_at_distance by simp
  ultimately show "\<exists>level\<in>set levels. v \<in> set level" using nth_mem by blast
next
  note nth = hierarchy_levels_nth [OF assms]
  assume "\<exists>level\<in>set levels. v \<in> set level"
  then obtain k where "k < length levels" "v \<in> set (levels ! k)" by (metis in_set_conv_nth)
  then have "v \<in> at_distance g origin k" using nth finite_at_distance by simp
  then show "(origin, v) \<in> (generalization g)\<^sup>*" by (rule at_distance_reachable)
qed

text \<open>C35: The hierarchy of a class is listed by distance: when resolution obtains levels, the level with index \<open>k\<close> lists,
  in lexical order, exactly the classes whose shortest chain of generalizations from the origin has length \<open>k\<close>,
  and the levels together are all reachable classes. Levels are obtained whenever the hierarchy validates.\<close>

theorem hierarchy_levels_by_distance:
  "(case hierarchy_levels g origin of
      Inr levels \<Rightarrow>
        (\<forall>k<length levels. levels ! k = sorted_list_of_set (at_distance g origin k)) \<and>
        (\<forall>v. (origin, v) \<in> (generalization g)\<^sup>* \<longleftrightarrow> (\<exists>level\<in>set levels. v \<in> set level))
    | Inl fault \<Rightarrow> validate_hierarchy g origin = Inl fault)"
proof (cases "hierarchy_levels g origin")
  case (Inl fault)
  have "validate_hierarchy g origin = Inl fault"
  proof (cases "validate_hierarchy g origin")
    case (Inr u)
    obtain ls where "breadth_first g [origin] {origin} = Inr ls" using breadth_first_origin [OF Inr] by blast
    then show ?thesis using Inl Inr by (simp add: hierarchy_levels_def)
  qed (use Inl in \<open>simp add: hierarchy_levels_def\<close>)
  then show ?thesis by (simp add: Inl)
next
  case (Inr levels)
  then show ?thesis using hierarchy_levels_nth [OF Inr] hierarchy_levels_cover [OF Inr] by simp
qed


section \<open>Members\<close>

text \<open>The preference of a class's own declaration of a name, if it has one.\<close>

definition declared :: "ModelGraph \<Rightarrow> string \<Rightarrow> string \<Rightarrow> nat option" where
  "declared g path name =
     (case graph_class g path of
        None \<Rightarrow> None
      | Some c \<Rightarrow>
          (case bt_get (ci_qualified c) name of
             Some p \<Rightarrow> Some (if qp_kind p = UserQualified then 1 else 0)
           | None \<Rightarrow> map_option (\<lambda>p. if prop_association p = None then 2 else 3) (bt_get (ci_properties c) name)))"

definition gap :: "ModelGraph \<Rightarrow> string \<Rightarrow> bool" where
  "gap g path \<longleftrightarrow> (\<exists>c. graph_class g path = Some c \<and> coverage_gap c)"

text \<open>A direct member carries its class, its name and the preference of its declaration.\<close>

lemma direct_member_Inr:
  assumes "graph_class g path = Some c" "direct_member g path c name = Inr d"
  shows "(case d of None \<Rightarrow> declared g path name = None
    | Some m \<Rightarrow> declared g path name = Some (priority_rank (direct_priority m)) \<and>
        class_path (member_owner (direct_member_facts m)) = path \<and> member_name (direct_member_facts m) = name)"
  using assms
  by (auto simp: direct_member_def declared_def resolved_class_def qualified_member_def Let_def
      split: option.splits sum.splits if_splits)

lemma complete_member_facts:
  "complete_member g d = Inr m \<Longrightarrow>
     member_owner m = member_owner (direct_member_facts d) \<and> member_name m = member_name (direct_member_facts d)"
  by (auto simp: complete_member_def propagate split: sum.splits)

lemma complete_all_facts:
  "complete_all g ds = Inr ms \<Longrightarrow> map member_owner ms = map (member_owner \<circ> direct_member_facts) ds \<and>
     map member_name ms = map (member_name \<circ> direct_member_facts) ds"
proof (induction ds arbitrary: ms)
  case (Cons d ds)
  then obtain m ms' where "complete_member g d = Inr m" "complete_all g ds = Inr ms'" "ms = m # ms'"
    by (auto simp: propagate)
  then show ?case using Cons.IH [of ms'] complete_member_facts [of g d m] by simp
qed simp

abbreviation owner_path :: "DirectMember \<Rightarrow> string" where
  "owner_path d \<equiv> class_path (member_owner (direct_member_facts d))"

abbreviation rank :: "DirectMember \<Rightarrow> nat" where
  "rank d \<equiv> priority_rank (direct_priority d)"

text \<open>The candidates of a level are the classes of the level that declare the name, in order.\<close>

lemma level_candidates_Inr:
  assumes "level_candidates g name paths cs ow = Inr (ds, ow')"
  shows "\<exists>new. ds = cs @ new \<and> map owner_path new = filter (\<lambda>p. declared g p name \<noteq> None) paths \<and>
    (\<forall>d\<in>set new. declared g (owner_path d) name = Some (rank d) \<and> member_name (direct_member_facts d) = name) \<and>
    (ow' = None \<longleftrightarrow> ow = None \<and> (\<forall>p\<in>set paths. \<not> gap g p)) \<and>
    (\<forall>p\<in>set paths. graph_class g p \<noteq> None)"
  using assms
proof (induction paths arbitrary: cs ow)
  case (Cons path paths)
  obtain c where c: "graph_class g path = Some c" using Cons.prems by (auto split: option.splits)
  let ?ow = "if coverage_gap c \<and> ow = None then Some (OpenWorld path) else ow"
  obtain d where d: "direct_member g path c name = Inr d" using Cons.prems c by (auto simp: Let_def split: sum.splits)
  have rec: "level_candidates g name paths (cs @ (case d of None \<Rightarrow> [] | Some m \<Rightarrow> [m])) ?ow = Inr (ds, ow')"
    using Cons.prems c d by (cases d) (simp_all add: Let_def)
  have gap: "?ow = None \<longleftrightarrow> ow = None \<and> \<not> gap g path" using c by (auto simp: gap_def)
  note head = direct_member_Inr [OF c d]
  from Cons.IH [OF rec] obtain new where new: "ds = (cs @ (case d of None \<Rightarrow> [] | Some m \<Rightarrow> [m])) @ new"
    "map owner_path new = filter (\<lambda>p. declared g p name \<noteq> None) paths"
    "\<forall>d\<in>set new. declared g (owner_path d) name = Some (rank d) \<and> member_name (direct_member_facts d) = name"
    "ow' = None \<longleftrightarrow> ?ow = None \<and> (\<forall>p\<in>set paths. \<not> gap g p)" "\<forall>p\<in>set paths. graph_class g p \<noteq> None" by blast
  show ?case
    by (rule exI [of _ "(case d of None \<Rightarrow> [] | Some m \<Rightarrow> [m]) @ new"]) (use new gap c head in \<open>cases d; auto\<close>)
qed simp

text \<open>The classes of a level whose declaration of the name is preferred most.\<close>

definition preferred :: "ModelGraph \<Rightarrow> string \<Rightarrow> string list \<Rightarrow> string list" where
  "preferred g name level =
     filter (\<lambda>p. declared g p name \<noteq> None \<and>
       (\<forall>q\<in>set level. declared g q name \<noteq> None \<longrightarrow> the (declared g p name) \<le> the (declared g q name))) level"

lemma best_candidates_preferred:
  assumes owners: "map owner_path ds = filter (\<lambda>p. declared g p name \<noteq> None) level"
    and ranks: "\<forall>d\<in>set ds. declared g (owner_path d) name = Some (rank d)"
  shows "map owner_path (best_candidates ds) = preferred g name level"
proof -
  have mins: "rank d = Min (set (map (priority_rank \<circ> direct_priority) ds)) \<longleftrightarrow> (\<forall>e\<in>set ds. rank d \<le> rank e)" if "d \<in> set ds" for d
    using that by (intro iffI) (auto simp: image_comp intro!: Min_eqI [symmetric])
  have owners_set: "owner_path ` set ds = {q \<in> set level. declared g q name \<noteq> None}"
    using arg_cong [OF owners, of set] by (simp add: image_comp comp_def)
  have best: "(\<forall>e\<in>set ds. rank d \<le> rank e) \<longleftrightarrow>
      (\<forall>q\<in>set level. declared g q name \<noteq> None \<longrightarrow> the (declared g (owner_path d) name) \<le> the (declared g q name))" if "d \<in> set ds" for d
  proof -
    have "(\<forall>q\<in>owner_path ` set ds. rank d \<le> the (declared g q name)) \<longleftrightarrow> (\<forall>e\<in>set ds. rank d \<le> rank e)"
      using ranks by simp
    then show ?thesis using owners_set ranks that by auto
  qed
  have "map owner_path (best_candidates ds) =
      filter (\<lambda>p. \<forall>q\<in>set level. declared g q name \<noteq> None \<longrightarrow> the (declared g p name) \<le> the (declared g q name)) (map owner_path ds)"
    unfolding best_candidates_def Let_def filter_map comp_def
    using mins best by (intro arg_cong [where f = "map owner_path"] filter_cong) (simp_all add: comp_def)
  then show ?thesis unfolding owners preferred_def by (simp add: conj_commute)
qed

lemma level_decided:
  assumes "level_candidates g name level [] None = Inr (ds, None)" "complete_all g (best_candidates ds) = Inr best"
  shows "map (class_path \<circ> member_owner) best = preferred g name level \<and> (\<forall>m\<in>set best. member_name m = name)"
proof -
  have ds: "map owner_path ds = filter (\<lambda>p. declared g p name \<noteq> None) level"
    "\<forall>d\<in>set ds. declared g (owner_path d) name = Some (rank d) \<and> member_name (direct_member_facts d) = name"
    using level_candidates_Inr [OF assms(1)] by auto
  have facts: "map member_owner best = map (member_owner \<circ> direct_member_facts) (best_candidates ds)"
    "map member_name best = map (member_name \<circ> direct_member_facts) (best_candidates ds)"
    using complete_all_facts [OF assms(2)] by auto
  have "map (class_path \<circ> member_owner) best = map owner_path (best_candidates ds)"
    using arg_cong [OF facts(1), of "map class_path"] by (simp add: comp_def)
  moreover have "member_name m = name" if "m \<in> set best" for m
  proof -
    have "member_name m \<in> (member_name \<circ> direct_member_facts) ` set (best_candidates ds)"
      using that arg_cong [OF facts(2), of set] by auto
    then show ?thesis using ds(2) by (auto simp: best_candidates_def Let_def)
  qed
  ultimately show ?thesis using best_candidates_preferred [OF ds(1)] ds(2) by simp
qed

text \<open>Nothing at a level: no class of it declares the name and all are fully covered.\<close>

abbreviation silent :: "ModelGraph \<Rightarrow> string \<Rightarrow> string list \<Rightarrow> bool" where
  "silent g name level \<equiv> (\<forall>p\<in>set level. declared g p name = None \<and> \<not> gap g p)"

definition decided_at :: "ModelGraph \<Rightarrow> string \<Rightarrow> string list list \<Rightarrow> nat \<Rightarrow> ResolvedMember list \<Rightarrow> bool" where
  "decided_at g name levels k ms \<longleftrightarrow>
     k < length levels \<and> (\<forall>j<k. silent g name (levels ! j)) \<and> (\<forall>p\<in>set (levels ! k). \<not> gap g p) \<and>
     map (class_path \<circ> member_owner) ms = preferred g name (levels ! k) \<and> (\<forall>m\<in>set ms. member_name m = name)"

lemma decided_at_Suc: "silent g name level \<Longrightarrow> decided_at g name levels k ms \<Longrightarrow> decided_at g name (level # levels) (Suc k) ms"
  by (auto simp: decided_at_def less_Suc_eq_0_disj)

lemma best_candidates_nonempty: "ds \<noteq> [] \<Longrightarrow> best_candidates ds \<noteq> []"
proof -
  assume "ds \<noteq> []"
  then have "Min (set (map (priority_rank \<circ> direct_priority) ds)) \<in> set (map (priority_rank \<circ> direct_priority) ds)"
    by (intro Min_in) auto
  then show "best_candidates ds \<noteq> []" by (auto simp: best_candidates_def Let_def filter_empty_conv)
qed

lemma sort_key_by_map: "sorted (map f xs) \<Longrightarrow> sort_key f xs = xs"
  by (induction xs) (auto intro: insort_is_Cons)

lemma sorted_preferred: "sorted level \<Longrightarrow> sorted (preferred g name level)"
  by (simp add: preferred_def sorted_wrt_filter)

lemma resolve_levels_cases:
  assumes "\<forall>level\<in>set levels. sorted level"
  shows "case resolve_levels g name levels of
      Found m \<Rightarrow> \<exists>k. decided_at g name levels k [m]
    | Ambiguous ms \<Rightarrow> 2 \<le> length ms \<and> (\<exists>k. decided_at g name levels k ms)
    | Missing \<Rightarrow> \<forall>level\<in>set levels. silent g name level
    | _ \<Rightarrow> True"
  using assms
proof (induction levels)
  case (Cons level levels)
  note IH = Cons.IH [unfolded Ball_def]
  show ?case
  proof (cases "level_candidates g name level [] None")
    case (Inl fault)
    then show ?thesis by (cases fault) simp_all
  next
    case (Inr r)
    then obtain ds ow where cand: "level_candidates g name level [] None = Inr (ds, ow)" by (cases r) simp
    show ?thesis
    proof (cases "ow \<noteq> None \<or> ds = []")
      case True
      have "silent g name level" if "ow = None"
        using level_candidates_Inr [OF cand] that True by (fastforce simp: filter_empty_conv dest!: sym [of "[]"])
      then show ?thesis using Cons True cand decided_at_Suc
        by (cases "ow = None") (fastforce split: Resolution.splits)+
    next
      case False
      then have ow: "ow = None" and ds: "ds \<noteq> []" by auto
      show ?thesis
      proof (cases "complete_all g (best_candidates ds)")
        case (Inl fault)
        then show ?thesis using cand ow ds by (cases fault) simp_all
      next
        case (Inr best)
        have best: "map (class_path \<circ> member_owner) best = preferred g name level" "\<forall>m\<in>set best. member_name m = name"
          using level_decided [OF cand [unfolded ow] Inr] by auto
        then have sorted: "sort_key (class_path \<circ> member_owner) best = best"
          using Cons.prems sorted_preferred by (intro sort_key_by_map) auto
        have "decided_at g name (level # levels) 0 best"
          using best level_candidates_Inr [OF cand] ow by (auto simp: decided_at_def)
        moreover have "best \<noteq> []" using best_candidates_nonempty [OF ds] complete_all_facts [OF Inr] by auto
        ultimately show ?thesis using cand ow ds Inr sorted by (auto split: list.split)
      qed
    qed
  qed
qed simp

text \<open>A distance decides a lookup: nothing nearer, no open coverage up to it, and the given owners are the classes at
  it with the most preferred declarations.\<close>

definition nearest :: "ModelGraph \<Rightarrow> string \<Rightarrow> string \<Rightarrow> nat \<Rightarrow> string set \<Rightarrow> bool" where
  "nearest g origin name k owners \<longleftrightarrow>
     (\<forall>j<k. \<forall>w\<in>at_distance g origin j. declared g w name = None) \<and>
     (\<forall>j\<le>k. \<forall>w\<in>at_distance g origin j. \<not> gap g w) \<and>
     owners = {v \<in> at_distance g origin k. declared g v name \<noteq> None \<and>
       (\<forall>w\<in>at_distance g origin k. declared g w name \<noteq> None \<longrightarrow> the (declared g v name) \<le> the (declared g w name))}"

lemma decided_at_nearest:
  assumes "hierarchy_levels g origin = Inr levels" "silent g name [origin]" "decided_at g name (drop 1 levels) k ms"
  shows "nearest g origin name (Suc k) (class_path ` member_owner ` set ms)"
proof -
  have nth: "set (levels ! j) = at_distance g origin j" if "j < length levels" for j
    using hierarchy_levels_nth [OF assms(1)] that finite_at_distance by simp
  have k: "Suc k < length levels" using assms(3) by (auto simp: decided_at_def)
  have at: "drop 1 levels ! j = levels ! Suc j" if "j \<le> k" for j using k that by simp
  have silent: "silent g name (levels ! Suc j)" if "j < k" for j
    using assms(3) that at [of j] by (simp add: decided_at_def)
  have none: "declared g w name = None \<and> \<not> gap g w" if "w \<in> at_distance g origin j" "j < Suc k" for w j
    using that assms(2) silent [of "j - 1"] nth [of j] k by (cases j) auto
  have "class_path ` member_owner ` set ms = set (preferred g name (levels ! Suc k))"
    using assms(3) at [of k] by (metis (no_types, lifting) decided_at_def image_comp image_set order_refl)
  moreover have "\<forall>p\<in>at_distance g origin (Suc k). \<not> gap g p"
    using assms(3) at [of k] nth [OF k] by (simp add: decided_at_def)
  ultimately show ?thesis using none nth [OF k] by (auto simp: nearest_def preferred_def le_Suc_eq less_Suc_eq_le)
qed

lemma sorted_levels: "hierarchy_levels g origin = Inr levels \<Longrightarrow> \<forall>level\<in>set levels. sorted level"
  using hierarchy_levels_nth by (metis in_set_conv_nth sorted_list_of_set.sorted_sorted_key_list_of_set)

text \<open>A closed world: every class is indexed, covered and has a valid hierarchy.\<close>

definition closed_world :: "ModelGraph \<Rightarrow> bool" where
  "closed_world g \<longleftrightarrow> (\<forall>v. graph_class g v \<noteq> None \<longrightarrow>
     graph_class_id g v \<noteq> None \<and> \<not> gap g v \<and> validate_hierarchy g v = Inr ())"

fun conclusive :: "'a Resolution \<Rightarrow> bool" where
  "conclusive (UnderResolved reason) \<longleftrightarrow> False"
| "conclusive (Cycle cycle) \<longleftrightarrow> False"
| "conclusive _ \<longleftrightarrow> True"

lemma closed_levels: "closed_world g \<Longrightarrow> graph_class g v \<noteq> None \<Longrightarrow> \<exists>levels. hierarchy_levels g v = Inr levels"
  using breadth_first_origin by (fastforce simp: hierarchy_levels_def closed_world_def)

lemma closed_direct: "closed_world g \<Longrightarrow> graph_class g path = Some c \<Longrightarrow> \<exists>d. direct_member g path c name = Inr d"
  by (auto simp: closed_world_def direct_member_def resolved_class_def Let_def split: option.splits)

lemma closed_complete: "closed_world g \<Longrightarrow> \<exists>m. complete_member g d = Inr m"
  using closed_levels [of g "raw_type (member_target (direct_member_facts d))"]
  by (auto simp: complete_member_def target_temporal_arity_def effective_temporal_arity_def split: option.splits)

lemma closed_complete_all: "closed_world g \<Longrightarrow> \<exists>ms. complete_all g ds = Inr ms"
proof (induction ds)
  case (Cons d ds)
  then obtain ms m where "complete_all g ds = Inr ms" "complete_member g d = Inr m" using closed_complete by blast
  then show ?case by simp
qed simp

lemma closed_candidates:
  "closed_world g \<Longrightarrow> \<forall>p\<in>set paths. graph_class g p \<noteq> None \<Longrightarrow> \<exists>ds. level_candidates g name paths cs None = Inr (ds, None)"
proof (induction paths arbitrary: cs)
  case (Cons path paths)
  then obtain c d where "graph_class g path = Some c" "direct_member g path c name = Inr d" "\<not> coverage_gap c"
    using closed_direct [of g path] by (fastforce simp: closed_world_def gap_def)
  then show ?case using Cons by (cases d) auto
qed simp

lemma closed_resolve_levels:
  "closed_world g \<Longrightarrow> \<forall>level\<in>set levels. \<forall>p\<in>set level. graph_class g p \<noteq> None \<Longrightarrow> conclusive (resolve_levels g name levels)"
proof (induction levels)
  case (Cons level levels)
  then obtain ds where ds: "level_candidates g name level [] None = Inr (ds, None)" using closed_candidates [of g level name "[]"] by auto
  obtain best where "complete_all g (best_candidates ds) = Inr best" using closed_complete_all Cons.prems(1) by blast
  then show ?case using Cons ds by (auto split: list.split)
qed simp

text \<open>What a lookup says of the model.\<close>

fun lookup_right :: "ModelGraph \<Rightarrow> string \<Rightarrow> string \<Rightarrow> ResolvedMember Resolution \<Rightarrow> bool" where
  "lookup_right g origin name (Found m) \<longleftrightarrow>
     member_name m = name \<and> (\<exists>k. nearest g origin name k {class_path (member_owner m)})"
| "lookup_right g origin name (Ambiguous ms) \<longleftrightarrow>
     2 \<le> length ms \<and> (\<exists>k. nearest g origin name k (class_path ` member_owner ` set ms))"
| "lookup_right g origin name Missing \<longleftrightarrow>
     graph_class g origin = None \<or>
     (\<forall>v. (origin, v) \<in> (generalization g)\<^sup>* \<longrightarrow> declared g v name = None \<and> \<not> gap g v)"
| "lookup_right g origin name (UnderResolved reason) \<longleftrightarrow> \<not> closed_world g"
| "lookup_right g origin name (Cycle cycle) \<longleftrightarrow> \<not> closed_world g"

lemma fault_lookup: "\<not> closed_world g \<Longrightarrow> lookup_right g origin name (into_resolution fault)"
  by (cases fault) simp_all

lemma direct_lookup:
  assumes "graph_class g origin = Some c" "\<not> coverage_gap c" "direct_member g origin c name = Inr (Some d)" "complete_member g d = Inr m"
  shows "lookup_right g origin name (Found m)"
proof -
  have "declared g origin name = Some (rank d)" "class_path (member_owner m) = origin" "member_name m = name"
    using direct_member_Inr [OF assms(1,3)] complete_member_facts [OF assms(4)] by auto
  then have "nearest g origin name 0 {class_path (member_owner m)}" using assms(1,2) by (auto simp: nearest_def gap_def)
  then show ?thesis using \<open>member_name m = name\<close> by auto
qed

lemma inherited_lookup:
  assumes c: "graph_class g origin = Some c" "\<not> coverage_gap c" "direct_member g origin c name = Inr None"
    and levels: "hierarchy_levels g origin = Inr levels"
  shows "lookup_right g origin name (resolve_levels g name (drop 1 levels))"
proof -
  have origin: "silent g name [origin]" using direct_member_Inr [OF c(1,3)] c(1,2) by (auto simp: gap_def)
  have cases: "case resolve_levels g name (drop 1 levels) of
      Found m \<Rightarrow> \<exists>k. decided_at g name (drop 1 levels) k [m]
    | Ambiguous ms \<Rightarrow> 2 \<le> length ms \<and> (\<exists>k. decided_at g name (drop 1 levels) k ms)
    | Missing \<Rightarrow> \<forall>level\<in>set (drop 1 levels). silent g name level | _ \<Rightarrow> True"
    using sorted_levels [OF levels] by (intro resolve_levels_cases) (auto dest: in_set_dropD)
  have level0: "set levels = insert [origin] (set (drop 1 levels))" using hierarchy_levels_nth [OF levels] by (cases levels) auto
  have reach: "(origin, v) \<in> (generalization g)\<^sup>* \<longleftrightarrow> (\<exists>level\<in>set levels. v \<in> set level)" for v
    using hierarchy_levels_cover [OF levels] by blast
  have present: "\<forall>level\<in>set (drop 1 levels). \<forall>p\<in>set level. graph_class g p \<noteq> None" if "closed_world g"
    using reach level0 c(1) that validated_complete [of g origin "()"] by (auto simp: closed_world_def)
  show ?thesis
  proof (cases "resolve_levels g name (drop 1 levels)")
    case (Found m)
    then obtain k where k: "decided_at g name (drop 1 levels) k [m]" using cases by auto
    then have "member_name m = name" by (simp add: decided_at_def)
    then show ?thesis using decided_at_nearest [OF levels origin k] Found by auto
  next
    case (Ambiguous ms)
    then show ?thesis using cases decided_at_nearest [OF levels origin] by auto
  next
    case Missing
    then show ?thesis using cases level0 reach origin by auto
  next
    case (UnderResolved reason)
    then show ?thesis using closed_resolve_levels [OF _ present, of name] by auto
  next
    case (Cycle cycle)
    then show ?thesis using closed_resolve_levels [OF _ present, of name] by auto
  qed
qed

lemma resolve_member_right: "lookup_right g origin name (resolve_member g origin name)"
proof (cases "graph_class g origin")
  case (Some c)
  consider (gap) "coverage_gap c" | (fault) f where "\<not> coverage_gap c" "direct_member g origin c name = Inl f"
    | (direct) d where "\<not> coverage_gap c" "direct_member g origin c name = Inr (Some d)"
    | (inherited) "\<not> coverage_gap c" "direct_member g origin c name = Inr None"
    by (cases "direct_member g origin c name"; metis option.exhaust)
  then show ?thesis
  proof cases
    case gap
    then show ?thesis using Some by (auto simp: resolve_member_def closed_world_def gap_def)
  next
    case fault
    then show ?thesis using Some closed_direct [of g origin c name] fault_lookup by (auto simp: resolve_member_def)
  next
    case direct
    then show ?thesis using Some direct_lookup [OF Some direct] closed_complete [of g d] fault_lookup
      by (cases "complete_member g d") (auto simp: resolve_member_def)
  next
    case inherited
    then show ?thesis using Some inherited_lookup [OF Some inherited] closed_levels [of g origin] fault_lookup
      by (cases "hierarchy_levels g origin") (auto simp: resolve_member_def)
  qed
qed (simp add: resolve_member_def)

text \<open>C6: A member is resolved to its nearest declaration. If a lookup finds a member, some distance from the origin
  decides it: no nearer class declares the name, no class up to that distance has open coverage, and the owner is
  the only class at that distance with a most preferred declaration (generated qualified, user qualified, plain,
  association end); if it is ambiguous, the candidates are those classes and there are at least two. If it reports
  the member missing although the class exists, no reachable class declares it and all are covered. In a closed
  world, where every class is indexed, covered and has a valid hierarchy, every lookup is conclusive.\<close>

theorem member_resolution_nearest: "lookup_right g origin name (resolve_member g origin name)"
  by (rule resolve_member_right)

end
