(* ===== verification/NavigationProperties.thy ===== *)
theory NavigationProperties
  imports Relational ResolverProperties
begin

text \<open>
  Correctness of lexical scopes and navigation chains: a scope leaves the environment as it found it, a chain
  records exactly the steps it resolved, and a navigation kept by the relational representation was proven by
  the resolver.
\<close>

section \<open>Scopes\<close>

text \<open>A client of the environment: bindings and nested scopes, as the borrow of \<^verbatim>\<open>TypeScope\<close> allows.\<close>

datatype scope_op = Bind string LocalValue | Nested "scope_op list"

fun run_op :: "scope_op \<Rightarrow> TypeEnvironment \<Rightarrow> TypeEnvironment"
and run_ops :: "scope_op list \<Rightarrow> TypeEnvironment \<Rightarrow> TypeEnvironment" where
  "run_op (Bind name v) env = snd (env_bind name v env)"
| "run_op (Nested ops) env = scope_drop (run_ops ops (env_scope env))"
| "run_ops [] env = env"
| "run_ops (op # ops) env = run_ops ops (run_op op env)"

definition env_ok :: "TypeEnvironment \<Rightarrow> bool" where
  "env_ok env \<longleftrightarrow> bt_ok (env_root env) \<and> list_all bt_ok (env_frames env)"

text \<open>Inside a scope only the innermost frame changes.\<close>

lemma run_inner:
  "env_frames env \<noteq> [] \<Longrightarrow> env_root (run_op op env) = env_root env \<and> butlast (env_frames (run_op op env)) = butlast (env_frames env) \<and>
     env_frames (run_op op env) \<noteq> []"
  "env_frames env \<noteq> [] \<Longrightarrow> env_root (run_ops ops env) = env_root env \<and> butlast (env_frames (run_ops ops env)) = butlast (env_frames env) \<and>
     env_frames (run_ops ops env) \<noteq> []"
proof (induction op env and ops env rule: run_op_run_ops.induct)
  case (2 ops env)
  have "butlast (env_frames (run_ops ops (env_scope env))) = env_frames env" "env_root (run_ops ops (env_scope env)) = env_root env"
    using "2.IH" by (simp_all add: env_scope_def)
  then show ?case using "2.prems" by (simp add: scope_drop_def)
qed (simp_all add: env_bind_def)

lemma nested_restores: "run_op (Nested ops) env = env"
proof -
  have "butlast (env_frames (run_ops ops (env_scope env))) = env_frames env" "env_root (run_ops ops (env_scope env)) = env_root env"
    using run_inner(2) [of "env_scope env" ops] by (simp_all add: env_scope_def)
  then show ?thesis by (simp add: scope_drop_def)
qed

lemma lookup_bind:
  assumes "env_ok env"
  shows "env_lookup (run_op (Bind name v) env) n = (if n = name then Some v else env_lookup env n)"
proof (cases "env_frames env" rule: rev_cases)
  case Nil
  then show ?thesis using assms by (simp add: env_bind_def env_lookup_def env_ok_def bt_get_insert map_filter_simps)
next
  case (snoc fs f)
  then show ?thesis using assms
    by (simp add: env_bind_def env_lookup_def env_ok_def bt_get_insert map_filter_simps split: option.split list.split)
qed

lemma env_ok_bind: "env_ok env \<Longrightarrow> env_ok (run_op (Bind name v) env)"
  by (cases "env_frames env" rule: rev_cases) (simp_all add: env_bind_def env_ok_def bt_insert_ok)

text \<open>Lexical scoping. Whatever is bound inside a nested scope, to any depth, leaving it restores the whole
  environment; and after a binding that name means the bound value and every other name what it meant before.\<close>

theorem scopes_are_lexical:
  assumes "env_ok env"
  shows "env_lookup (run_ops (Bind name v # Nested ops # rest) env) = env_lookup (run_ops rest (run_op (Bind name v) env)) \<and>
    run_op (Nested ops) env = env \<and> env_ok (run_op (Bind name v) env) \<and>
    env_lookup (run_op (Bind name v) env) = (env_lookup env)(name \<mapsto> v)"
  using lookup_bind [OF assms] env_ok_bind [OF assms] nested_restores by (auto simp: fun_eq_iff simp del: run_op.simps)


section \<open>Chains\<close>

text \<open>The value a step starts from, and that every hop is what the resolver found for its step.\<close>

definition value_before :: "NavigationChain \<Rightarrow> nat \<Rightarrow> LocalValue" where
  "value_before chain i = (if i = 0 then chain_source chain else hop_value (chain_hops chain ! (i - 1)))"

definition chain_ok :: "ModelGraph \<Rightarrow> NavigationChain \<Rightarrow> bool" where
  "chain_ok g chain \<longleftrightarrow>
     chain_value chain = value_before chain (length (chain_hops chain)) \<and>
     (\<forall>i<length (chain_hops chain).
        resolve_step g (value_before chain i) (hop_step (chain_hops chain ! i)) =
          StepFound (hop_target (chain_hops chain ! i)) (hop_value (chain_hops chain ! i)))"

lemma chain_ok_new: "chain_ok g (chain_new source)"
  by (simp add: chain_ok_def chain_new_def value_before_def)

lemma chain_ok_push:
  assumes "chain_ok g chain" "resolve_step g (chain_value chain) s = StepFound t v"
  shows "chain_ok g (chain_push s t v chain)"
proof -
  have before: "value_before (chain_push s t v chain) i = value_before chain i" if "i \<le> length (chain_hops chain)" for i
    using that by (auto simp: value_before_def chain_push_def nth_append)
  have "chain_value (chain_push s t v chain) = value_before (chain_push s t v chain) (Suc (length (chain_hops chain)))"
    by (simp add: value_before_def chain_push_def)
  moreover have "resolve_step g (value_before (chain_push s t v chain) i) (hop_step (chain_hops (chain_push s t v chain) ! i)) =
      StepFound (hop_target (chain_hops (chain_push s t v chain) ! i)) (hop_value (chain_hops (chain_push s t v chain) ! i))"
    if "i < Suc (length (chain_hops chain))" for i
    using that assms before [of i] by (auto simp: less_Suc_eq chain_ok_def chain_push_def nth_append)
  ultimately show ?thesis by (simp add: chain_ok_def chain_push_def)
qed

text \<open>The prefix a result completed and the step it stopped at.\<close>

fun result_prefix :: "NavigationResolution \<Rightarrow> (NavigationChain \<times> NavigationStep option) option" where
  "result_prefix (NavFound chain) = Some (chain, None)"
| "result_prefix (NavMissing f) = Some (failure_completed f, Some (failure_step f))"
| "result_prefix (NavUnderResolved (AtStep f r)) = Some (failure_completed f, Some (failure_step f))"
| "result_prefix (NavUnderResolved (UnboundVariable n)) = None"
| "result_prefix (NavAmbiguous f ms) = Some (failure_completed f, Some (failure_step f))"
| "result_prefix (NavCycle f c) = Some (failure_completed f, Some (failure_step f))"
| "result_prefix (NavWrongArity a) = Some (failure_completed (arity_failure a), Some (failure_step (arity_failure a)))"

definition stops_at :: "ModelGraph \<Rightarrow> NavigationStep list \<Rightarrow> NavigationChain \<times> NavigationStep option \<Rightarrow> bool" where
  "stops_at g steps r \<longleftrightarrow> chain_ok g (fst r) \<and>
     (case snd r of
        None \<Rightarrow> map hop_step (chain_hops (fst r)) = steps
      | Some s \<Rightarrow> (\<exists>rest. steps = map hop_step (chain_hops (fst r)) @ s # rest) \<and>
          (\<forall>t v. resolve_step g (chain_value (fst r)) s \<noteq> StepFound t v))"

lemma resolve_chain_prefix:
  "chain_ok g chain \<Longrightarrow>
     \<exists>r. result_prefix (resolve_chain g chain steps) = Some r \<and> stops_at g (map hop_step (chain_hops chain) @ steps) r \<and>
       chain_source (fst r) = chain_source chain"
proof (induction steps arbitrary: chain)
  case Nil
  then show ?case by (simp add: stops_at_def)
next
  case (Cons s steps)
  show ?case
  proof (cases "resolve_step g (chain_value chain) s")
    case (StepFound t v)
    have "map hop_step (chain_hops (chain_push s t v chain)) = map hop_step (chain_hops chain) @ [s]"
      "chain_source (chain_push s t v chain) = chain_source chain" by (simp_all add: chain_push_def)
    then show ?thesis using Cons.IH [OF chain_ok_push [OF Cons.prems StepFound]] StepFound by (simp add: Let_def)
  qed (use Cons.prems in \<open>simp_all add: stops_at_def Let_def\<close>)
qed

lemma nav_resolve_prefix:
  "\<exists>r. result_prefix (nav_resolve g source steps) = Some r \<and> stops_at g steps r \<and> chain_source (fst r) = source"
  using resolve_chain_prefix [OF chain_ok_new, of g source steps] by (simp add: nav_resolve_def chain_new_def)

text \<open>Navigation resolves step by step: a found chain has exactly the given steps, each hop being what the resolver
  gives for its step from the value before it; any other result carries the chain of the steps before the first
  one that does not resolve, together with that step.\<close>

theorem navigation_chain_exact:
  "\<exists>r. result_prefix (nav_resolve g source steps) = Some r \<and> stops_at g steps r \<and> chain_source (fst r) = source"
  by (rule nav_resolve_prefix)

lemma member_step_found:
  assumes "resolve_step g v s = StepFound (MemberTarget m) w" "\<And>q. member_kind m \<noteq> Qualified q"
  shows "\<exists>c. value_kind v = ClassValue c \<and> argument_count s = 0 \<and> resolve_member g (class_path c) (nav_step_name s) = Found m \<and>
    member_name m = nav_step_name s"
proof -
  obtain c where c: "value_kind v = ClassValue c" and "resolve_member_step g c s = StepFound (MemberTarget m) w"
    using assms(1) by (auto simp: resolve_step_def resolve_relation_column_def split: LocalValueKind.splits if_splits option.splits)
  then obtain m' where "resolve_member g (class_path c) (nav_step_name s) = Found m'"
    and "nav_resolve_member g m' s = StepFound (MemberTarget m) w"
    by (auto simp: resolve_member_step_def split: Resolution.splits)
  then have found: "resolve_member g (class_path c) (nav_step_name s) = Found m" and count: "expected_argument_count m = Inr (argument_count s)"
    by (auto simp: nav_resolve_member_def split: sum.splits if_splits)
  moreover have "argument_count s = 0"
    using count assms(2) by (auto simp: expected_argument_count_def NO_ARGUMENTS_def split: ResolvedMemberKind.splits)
  ultimately show ?thesis using c resolve_member_right [of g "class_path c" "nav_step_name s"] by auto
qed

text \<open>C36: A navigation kept in a relational expression is a proof: it was resolved in one step without arguments from a
  value of a class, its member is the one the resolver finds for that class and name, declared as property or
  association end and to-one.\<close>

theorem kept_navigation_proven:
  assumes "nav_resolve g source steps = NavFound chain" "navigation_from_chain chain = Some nav"
  shows "\<exists>c s. nav_receiver nav = source \<and> value_kind source = ClassValue c \<and> steps = [s] \<and> argument_count s = 0 \<and>
    resolve_member g (class_path c) (nav_step_name s) = Found (nav_member nav) \<and>
    member_name (nav_member nav) = nav_step_name s \<and> is_to_one (member_multiplicity (nav_member nav))"
proof -
  have chain: "chain_ok g chain" "map hop_step (chain_hops chain) = steps" "chain_source chain = source"
    using nav_resolve_prefix [of g source steps] assms(1) by (auto simp: stops_at_def)
  obtain hop m where hop: "chain_hops chain = [hop]" "hop_target hop = MemberTarget m"
    and nav: "nav = \<lparr>nav_receiver = source, nav_member = m\<rparr>" "is_to_one (member_multiplicity m)"
    and kind: "\<And>q. member_kind m \<noteq> Qualified q"
    using assms(2) chain(3)
    by (auto simp: navigation_from_chain_def split: list.splits NavigationTarget.splits if_splits ResolvedMemberKind.splits)
  have "resolve_step g source (hop_step hop) = StepFound (MemberTarget m) (hop_value hop)" "steps = [hop_step hop]"
    using chain hop by (auto simp: chain_ok_def value_before_def)
  then show ?thesis using member_step_found [of g source "hop_step hop" m "hop_value hop"] kind nav by auto
qed

end
