(* ===== verification/ResolverScenarios.thy ===== *)
theory ResolverScenarios
  imports NavigationProperties
begin

text \<open>
  Concrete models: a class that inherits a property, and two classes that inherit from each other.
\<close>

definition sample_property :: PropInfo where
  "sample_property = prop_declared ''p'' (TypeRef ''String'' []) \<lparr>mult_lower = 1, mult_upper = Some 1\<rparr>"

definition model_of :: "(string \<times> ClassInfo) list \<Rightarrow> ModelGraph" where
  "model_of classes = \<lparr>graph_classes = classes, by_path = zip (map fst classes) [0..<length classes],
     paths_by_id = map fst classes, associations = [], graph_sources = [], graph_diagnostics = []\<rparr>"

definition inherits_p :: ModelGraph where
  "inherits_p = model_of
     [(''A'', class_info_new ''A'' [''B''] None [] [] 0),
      (''B'', class_info_new ''B'' [] None [(''p'', sample_property)] [] 0)]"

definition mutual :: ModelGraph where
  "mutual = model_of
     [(''A'', class_info_new ''A'' [''B''] None [] [] 0), (''B'', class_info_new ''B'' [''A''] None [] [] 0)]"

definition class_a :: ResolvedClass where
  "class_a = \<lparr>class_id = 0, class_path = ''A'', class_temporal = None, class_provenance = Pmcd,
     class_definition = \<lparr>anchor_source = 0, anchor_span = None\<rparr>\<rparr>"

definition value_a :: LocalValue where
  "value_a = \<lparr>value_kind = ClassValue class_a, value_multiplicity = zero_or_more\<rparr>"

lemma inherits_p_levels: "hierarchy_levels inherits_p ''A'' = Inr [[''A''], [''B'']]"
  by code_simp

lemma mutual_cycle: "validate_hierarchy mutual ''A'' = Inl (FaultCycle [''A'', ''B'', ''A''])"
  by code_simp

lemma hierarchy_validation_right_witness:
  "fault_real mutual ''A'' (FaultCycle [''A'', ''B'', ''A'']) \<and> graph_class inherits_p ''B'' \<noteq> None"
proof -
  have "graph_class mutual ''A'' \<noteq> None" "graph_class inherits_p ''B'' \<noteq> None"
    by (simp_all add: graph_class_def mutual_def inherits_p_def model_of_def bt_get_def)
  then show ?thesis using hierarchy_validation_right [of mutual "''A''"] mutual_cycle by simp
qed

lemma hierarchy_levels_by_distance_witness: 
  "\<forall>v. (''A'', v) \<in> (generalization inherits_p)\<^sup>* \<longleftrightarrow> v = ''A'' \<or> v = ''B''"
  using hierarchy_levels_by_distance [of inherits_p "''A''"] by (simp add: inherits_p_levels)

lemma scopes_are_lexical_witness:
  "env_lookup (run_op (Bind ''x'' value_a) env_new) ''x'' = Some value_a \<and> run_op (Nested [Bind ''x'' value_a]) env_new = env_new"
  using scopes_are_lexical [of env_new "''x''" value_a "[Bind ''x'' value_a]" "[]"] by (simp add: env_ok_def env_new_def bt_ok_def)

definition found_chain :: NavigationChain where
  "found_chain = (case nav_resolve inherits_p value_a [step_property ''p''] of NavFound c \<Rightarrow> c | _ \<Rightarrow> chain_new value_a)"

lemma found_chain_resolves: "nav_resolve inherits_p value_a [step_property ''p''] = NavFound found_chain"
  by code_simp

lemma found_chain_kept: "\<exists>nav. navigation_from_chain found_chain = Some nav"
proof -
  have "navigation_from_chain found_chain \<noteq> None" by code_simp
  then show ?thesis by blast
qed

lemma kept_navigation_proven_witness:
  "\<exists>nav. navigation_from_chain found_chain = Some nav \<and> resolve_member inherits_p ''A'' ''p'' = Found (nav_member nav)"
proof -
  obtain nav where nav: "navigation_from_chain found_chain = Some nav" using found_chain_kept by blast
  have "resolve_member inherits_p ''A'' ''p'' = Found (nav_member nav)"
    using kept_navigation_proven [OF found_chain_resolves nav] by (auto simp: value_a_def class_a_def step_property_def)
  with nav show ?thesis by blast
qed

end
