(* ===== verification/ModelFragments.thy ===== *)
theory ModelFragments
  imports ModelTypes Decimals TreeBuilder
begin

text \<open>
  What the two loaders of model sources share (\<^verbatim>\<open>crates/pure-analyzer-model/src\<close>): the failures of
  \<^verbatim>\<open>error.rs\<close> with their texts, the stereotype spellings and the classification of qualified properties of
  \<^verbatim>\<open>stereotypes.rs\<close>, and the fragment a single source contributes (\<^verbatim>\<open>loader.rs\<close>). A source identifier is below
  \<open>2 ^ 32\<close>; the payloads of I/O and JSON errors are kept as text.
\<close>

section \<open>Failures\<close>

datatype ModelErrorKind =
    InvalidRecord string
  | InvalidName NameError
  | InvalidMultiplicity MultiplicityError
  | DuplicateElement string
  | DuplicateProperty string string
  | DuplicateQualifiedProperty string string
  | AssociationArity string nat
  | MissingAssociationOwner string string string
  | AssociationPropertyConflict string string string
  | MultipleTemporalStereotypes string
  | UnknownTemporalStereotype string string

datatype ModelError =
    ReadError string string
  | JsonError string string
  | PureParse string BuildError
  | InvalidDocument string string
  | InvalidElement string nat string ModelErrorKind
  | InvalidMergedGraph nat ModelErrorKind
  | TooManySources nat
  | TooManyClasses nat

fun name_error_text :: "NameError \<Rightarrow> string" where
  "name_error_text EmptyName = ''name must not be empty''"
| "name_error_text (ControlCharacter v) = ''name `'' @ v @ ''` contains a control character''"
| "name_error_text (QualifiedSimpleName v) = ''simple name `'' @ v @ ''` must not contain `::`''"
| "name_error_text (EmptyPathSegment v) = ''qualified name `'' @ v @ ''` contains an empty path segment''"

definition multiplicity_error_text :: "MultiplicityError \<Rightarrow> string" where
  "multiplicity_error_text e =
     ''multiplicity lower bound '' @ show_usize (error_lower e) @ '' exceeds upper bound '' @ show_usize (error_upper e)"

fun kind_text :: "ModelErrorKind \<Rightarrow> string" where
  "kind_text (InvalidRecord message) = ''record shape is invalid: '' @ message"
| "kind_text (InvalidName e) = name_error_text e"
| "kind_text (InvalidMultiplicity e) = multiplicity_error_text e"
| "kind_text (DuplicateElement path) =
     ''duplicate packageable element `'' @ path @ ''` in one PMCD document''"
| "kind_text (DuplicateProperty c p) =
     ''class `'' @ c @ ''` declares property `'' @ p @ ''` more than once''"
| "kind_text (DuplicateQualifiedProperty c p) =
     ''class `'' @ c @ ''` declares qualified property `'' @ p @ ''` more than once''"
| "kind_text (AssociationArity a actual) =
     ''association `'' @ a @ ''` has '' @ show_usize actual @ '' ends; exactly two are required''"
| "kind_text (MissingAssociationOwner a p owner) =
     ''association `'' @ a @ ''` property `'' @ p @ ''` is owned by missing class `'' @ owner @ ''`''"
| "kind_text (AssociationPropertyConflict a owner p) =
     ''association `'' @ a @ ''` contributes `'' @ owner @ ''.'' @ p @ ''`, which is already declared''"
| "kind_text (MultipleTemporalStereotypes e) = ''`'' @ e @ ''` has multiple temporal stereotypes''"
| "kind_text (UnknownTemporalStereotype e v) =
     ''`'' @ e @ ''` has unknown temporal stereotype `'' @ v @ ''`''"


section \<open>Stereotypes\<close>

definition TEMPORAL_PROFILE :: string where "TEMPORAL_PROFILE = ''meta::pure::profiles::temporal''"
definition TEMPORAL_PROFILE_PROTOCOL :: string where "TEMPORAL_PROFILE_PROTOCOL = ''temporal''"
definition MILESTONING_PROFILE :: string where "MILESTONING_PROFILE = ''meta::pure::profiles::milestoning''"
definition MILESTONING_PROFILE_PROTOCOL :: string where "MILESTONING_PROFILE_PROTOCOL = ''milestoning''"

definition BITEMPORAL :: string where "BITEMPORAL = ''bitemporal''"
definition BUSINESS_TEMPORAL :: string where "BUSINESS_TEMPORAL = ''businesstemporal''"
definition PROCESSING_TEMPORAL :: string where "PROCESSING_TEMPORAL = ''processingtemporal''"

definition GENERATED_MILESTONING_PROPERTY :: string where
  "GENERATED_MILESTONING_PROPERTY = ''generatedmilestoningproperty''"
definition ALL_VERSIONS_SUFFIX :: string where "ALL_VERSIONS_SUFFIX = ''AllVersions''"
definition ALL_VERSIONS_IN_RANGE_SUFFIX :: string where "ALL_VERSIONS_IN_RANGE_SUFFIX = ''AllVersionsInRange''"

lemmas stereotype_spellings =
  TEMPORAL_PROFILE_def TEMPORAL_PROFILE_PROTOCOL_def MILESTONING_PROFILE_def MILESTONING_PROFILE_PROTOCOL_def
  BITEMPORAL_def BUSINESS_TEMPORAL_def PROCESSING_TEMPORAL_def GENERATED_MILESTONING_PROPERTY_def
  ALL_VERSIONS_SUFFIX_def ALL_VERSIONS_IN_RANGE_SUFFIX_def

text \<open>The temporal stereotype a value spells; any other value is unknown.\<close>

definition temporal_of :: "string \<Rightarrow> Temporal option" where
  "temporal_of value =
     (if value = BITEMPORAL then Some Bitemporal
      else if value = BUSINESS_TEMPORAL then Some BusinessTemporal
      else if value = PROCESSING_TEMPORAL then Some ProcessingTemporal
      else None)"

definition classify_qualified_property :: "string \<Rightarrow> bool \<Rightarrow> QpKind" where
  "classify_qualified_property name generated =
     (if generated \<and> suffix ALL_VERSIONS_IN_RANGE_SUFFIX name then AllVersionsInRange
      else if generated \<and> suffix ALL_VERSIONS_SUFFIX name then AllVersions
      else if generated then MilestonedPoint
      else UserQualified)"


section \<open>Fragments\<close>

definition file_of_source :: "nat \<Rightarrow> file_id" where
  "file_of_source source = FileId (word_of_nat source)"

record AssocDraft =
  draft_path :: string
  draft_first :: PropInfo
  draft_second :: PropInfo
  draft_temporal :: "Temporal option"
  draft_provenance :: Provenance
  draft_source :: nat
  draft_span :: "text_range option"

datatype FragmentElement = FragmentClass ClassInfo | FragmentAssociation AssocDraft

fun element_source :: "FragmentElement \<Rightarrow> nat" where
  "element_source (FragmentClass c) = ci_source c"
| "element_source (FragmentAssociation a) = draft_source a"

fun element_path :: "FragmentElement \<Rightarrow> string" where
  "element_path (FragmentClass c) = ci_path c"
| "element_path (FragmentAssociation a) = draft_path a"

type_synonym elements = "(string, FragmentElement) btree_map"

record ModelFragment =
  fragment_elements :: elements
  fragment_diagnostics :: "diagnostic list"

definition prop_with_span :: "text_range \<Rightarrow> PropInfo \<Rightarrow> PropInfo" where
  "prop_with_span span p = p\<lparr>prop_span := Some span\<rparr>"

definition prop_with_association :: "string \<Rightarrow> PropInfo \<Rightarrow> PropInfo" where
  "prop_with_association path p = p\<lparr>prop_association := Some path\<rparr>"

definition qp_new :: "string \<Rightarrow> TypeRef \<Rightarrow> Multiplicity \<Rightarrow> QpKind \<Rightarrow> TypeRef list option \<Rightarrow> QpInfo" where
  "qp_new name target mult kind signature =
     \<lparr>qp_name = name, qp_target = target, qp_multiplicity = mult, qp_kind = kind, qp_signature = signature,
      qp_span = None\<rparr>"

definition mark_coverage_gap :: "ClassInfo \<Rightarrow> ClassInfo" where
  "mark_coverage_gap c = c\<lparr>coverage_gap := True\<rparr>"

text \<open>Elements are stored under their own path, and the members of a class under their own names.\<close>

definition class_ok :: "ClassInfo \<Rightarrow> bool" where
  "class_ok c \<longleftrightarrow> bt_ok (ci_properties c) \<and> bt_ok (ci_qualified c) \<and>
     (\<forall>(n, p)\<in>set (ci_properties c). prop_name p = n) \<and> (\<forall>(n, q)\<in>set (ci_qualified c). qp_name q = n)"

fun element_ok :: "FragmentElement \<Rightarrow> bool" where
  "element_ok (FragmentClass c) \<longleftrightarrow> class_ok c \<and> (\<forall>(n, p)\<in>set (ci_properties c). prop_association p = None)"
| "element_ok (FragmentAssociation a) \<longleftrightarrow> True"

definition elements_ok :: "elements \<Rightarrow> bool" where
  "elements_ok es \<longleftrightarrow> bt_ok es \<and> (\<forall>(path, e)\<in>set es. element_path e = path \<and> element_ok e)"

lemma bt_insert_set: "set (bt_insert k v m) \<subseteq> insert (k, v) (set m)"
  by (induction k v m rule: bt_insert.induct) auto

lemma elements_ok_empty [simp]: "elements_ok []"
  by (simp add: elements_ok_def bt_ok_def)

lemma elements_ok_insert:
  "elements_ok es \<Longrightarrow> element_ok e \<Longrightarrow> element_path e = path \<Longrightarrow> elements_ok (bt_insert path e es)"
  unfolding elements_ok_def by (auto simp: bt_insert_ok dest!: subsetD [OF bt_insert_set])

end
