(* ===== verification/PureLowering.thy ===== *)
theory PureLowering
  imports ModelFragments DomainGrammar
begin

text \<open>
  Lowering of Pure model sources (\<^verbatim>\<open>crates/pure-analyzer-model/src/pure.rs\<close>): the tree of the Domain parser is
  read into the classes and associations it confirms; what the parser could not read is a coverage gap. Iterators
  over children are lists. A string slice of the source cuts at ASCII bytes, hence at character boundaries.
\<close>

section \<open>Text\<close>

definition strip_prefix :: "string \<Rightarrow> string \<Rightarrow> string option" where
  "strip_prefix p s = (if prefix p s then Some (drop (length p) s) else None)"

definition strip_suffix :: "string \<Rightarrow> string \<Rightarrow> string option" where
  "strip_suffix q s = (if suffix q s then Some (take (length s - length q) s) else None)"

text \<open>\<^verbatim>\<open>split(',')\<close> and \<^verbatim>\<open>split_once("..")\<close>\<close>

fun split_commas :: "string \<Rightarrow> string list" where
  "split_commas [] = [[]]"
| "split_commas (c # s) =
     (if c = CHR '','' then [] # split_commas s
      else case split_commas s of p # ps \<Rightarrow> (c # p) # ps | [] \<Rightarrow> [[c]])"

fun split_once_dots :: "string \<Rightarrow> (string \<times> string) option" where
  "split_once_dots (c # d # s) =
     (if c = CHR ''.'' \<and> d = CHR ''.'' then Some ([], s)
      else map_option (\<lambda>(a, b). (c # a, b)) (split_once_dots (d # s)))"
| "split_once_dots _ = None"

definition is_ascii_alphabetic :: "char \<Rightarrow> bool" where
  "is_ascii_alphabetic c \<longleftrightarrow> in_byte 65 90 c \<or> in_byte 97 122 c"

definition is_ascii_alphanumeric :: "char \<Rightarrow> bool" where
  "is_ascii_alphanumeric c \<longleftrightarrow> is_ascii_alphabetic c \<or> is_digit c"

definition is_simple_name :: "string \<Rightarrow> bool" where
  "is_simple_name s \<longleftrightarrow>
     (case s of
        [] \<Rightarrow> False
      | c # s \<Rightarrow> (c = CHR ''_'' \<or> is_ascii_alphabetic c) \<and> list_all (\<lambda>c. c = CHR ''_'' \<or> is_ascii_alphanumeric c) s)"

definition is_qualified_name :: "string \<Rightarrow> bool" where
  "is_qualified_name s \<longleftrightarrow> list_all is_simple_name (split_path s)"

definition ok_of :: "'e + 'a \<Rightarrow> 'a option" where
  "ok_of r = (case r of Inr a \<Rightarrow> Some a | Inl _ \<Rightarrow> None)"

definition qname_from_text :: "string \<Rightarrow> string option" where
  "qname_from_text s =
     (let s = (case strip_prefix ''::'' s of Some rest \<Rightarrow> rest | None \<Rightarrow> s)
      in if is_qualified_name s then ok_of (qname_new s) else None)"


section \<open>Types and multiplicities\<close>

definition at_type_end :: "char \<Rightarrow> bool" where
  "at_type_end c \<longleftrightarrow> c = CHR ''<'' \<or> c = CHR ''>'' \<or> c = CHR '',''"

text \<open>The parser of type texts works on the text that is left. \<open>parse_type_rest\<close> is the rest of
  \<^verbatim>\<open>parse_type\<close> from a \<^verbatim>\<open><\<close> or a comma on: an argument, and then more of them or the closing \<^verbatim>\<open>>\<close>.\<close>

function (sequential) parse_type :: "string \<Rightarrow> (TypeRef \<times> string) option"
and parse_type_rest :: "string \<Rightarrow> (TypeRef list \<times> string) option" where
  "parse_type s =
     (case qname_from_text (takeWhile (\<lambda>c. \<not> at_type_end c) s) of
        None \<Rightarrow> None
      | Some path \<Rightarrow>
          (case dropWhile (\<lambda>c. \<not> at_type_end c) s of
             [] \<Rightarrow> Some (TypeRef path [], [])
           | c # rest \<Rightarrow>
               if c = CHR ''<''
               then map_option (\<lambda>(ts, rest). (TypeRef path ts, rest)) (parse_type_rest rest)
               else Some (TypeRef path [], c # rest)))"
| "parse_type_rest s =
     (case parse_type s of
        None \<Rightarrow> None
      | Some (t, c # rest) \<Rightarrow>
          if c = CHR '','' then map_option (\<lambda>(ts, rest). (t # ts, rest)) (parse_type_rest rest)
          else if c = CHR ''>'' then Some ([t], rest)
          else None
      | Some (t, []) \<Rightarrow> None)"
  by pat_completeness auto

lemma dropWhile_length: "dropWhile P s = c # rest \<Longrightarrow> length rest < length s"
  by (metis Suc_le_eq length_Cons length_dropWhile_le)

lemma parse_type_shrinks_dom:
  "parse_type_parse_type_rest_dom (Inl s) \<Longrightarrow> parse_type s = Some (t, rest) \<Longrightarrow> length rest \<le> length s"
  "parse_type_parse_type_rest_dom (Inr s) \<Longrightarrow> parse_type_rest s = Some (ts, rest) \<Longrightarrow> length rest \<le> length s"
proof (induction s and s arbitrary: t rest and ts rest rule: parse_type_parse_type_rest.pinduct)
  case (1 s)
  let ?left = "dropWhile (\<lambda>c. \<not> at_type_end c) s"
  obtain path where path: "qname_from_text (takeWhile (\<lambda>c. \<not> at_type_end c) s) = Some path"
    using "1.prems" "1.hyps" by (auto simp: parse_type.psimps split: option.splits)
  show ?case
  proof (cases "?left = [] \<or> hd ?left \<noteq> CHR ''<''")
    case True
    then have "rest = ?left" using "1.prems" "1.hyps" path by (cases ?left) (auto simp: parse_type.psimps simp del: dropWhile_eq_Nil_conv)
    then show ?thesis by (simp add: length_dropWhile_le)
  next
    case False
    then obtain rest' where left: "?left = CHR ''<'' # rest'" by (cases ?left) auto
    then obtain ts where "parse_type_rest rest' = Some (ts, rest)"
      using "1.prems" "1.hyps" path by (auto simp: parse_type.psimps)
    then show ?thesis using "1.IH" [OF path left refl] dropWhile_length [OF left] by simp
  qed
next
  case (2 s)
  obtain t c rest' where t: "parse_type s = Some (t, c # rest')"
    using "2.prems" "2.hyps" by (auto simp: parse_type_rest.psimps split: option.splits list.splits)
  have "length rest' < length s" using "2.IH"(1) [OF t] by simp
  then show ?case
    using "2.prems" "2.hyps" "2.IH"(2) [OF t] t by (fastforce simp: parse_type_rest.psimps split: if_splits)
qed

termination parse_type
  by (relation "measure (\<lambda>x. case x of Inl s \<Rightarrow> 2 * length s | Inr s \<Rightarrow> Suc (2 * length s))")
    (auto dest: dropWhile_length parse_type_shrinks_dom)

declare parse_type.simps [simp del] parse_type_rest.simps [simp del]

definition type_from_text :: "string \<Rightarrow> TypeRef option" where
  "type_from_text s = (case parse_type s of Some (t, []) \<Rightarrow> Some t | _ \<Rightarrow> None)"

text \<open>A digit string with a value below \<open>2 ^ 32\<close> is a \<^verbatim>\<open>u32\<close>.\<close>

definition parse_bound :: "string \<Rightarrow> nat option" where
  "parse_bound s =
     (if list_all is_digit s then (if s \<noteq> [] \<and> digits_value s \<le> u32_max then Some (digits_value s) else None)
      else None)"

definition multiplicity_from_text :: "string \<Rightarrow> Multiplicity option" where
  "multiplicity_from_text s =
     do {
       opened \<leftarrow> strip_prefix ''['' s;
       body \<leftarrow> strip_suffix '']'' opened;
       if body = ''*'' then ok_of (multiplicity_new 0 None)
       else case split_once_dots body of
         Some (lower, upper) \<Rightarrow>
           if split_once_dots upper \<noteq> None then None
           else do {
             lower \<leftarrow> parse_bound lower;
             upper \<leftarrow> (if upper = ''*'' then Some None else map_option Some (parse_bound upper));
             ok_of (multiplicity_new lower upper)
           }
       | None \<Rightarrow> do { bound \<leftarrow> parse_bound body; ok_of (multiplicity_new bound (Some bound)) }
     }"


section \<open>Trees\<close>

fun first_some :: "'a option list \<Rightarrow> 'a option" where
  "first_some [] = None"
| "first_some (Some a # xs) = Some a"
| "first_some (None # xs) = first_some xs"

definition is_trivia_kind :: "syntax_kind \<Rightarrow> bool" where
  "is_trivia_kind k \<longleftrightarrow> k = Tok WHITESPACE \<or> k = Tok LINE_COMMENT \<or> k = Tok BLOCK_COMMENT"

definition compact_text :: "green_node \<Rightarrow> string" where
  "compact_text node = concat (map token_text (filter (\<lambda>t. \<not> is_trivia_kind (tok_kind t)) (node_tokens node)))"

primrec find_domain_file_in :: "green_element \<Rightarrow> green_node option"
  and find_domain_file :: "green_node \<Rightarrow> green_node option" where
  "find_domain_file_in (Node n) = find_domain_file n"
| "find_domain_file_in (Token t) = None"
| "find_domain_file (GreenNode k cs r) =
     (if k = Nod DOMAIN_FILE then Some (GreenNode k cs r) else first_some (map find_domain_file_in cs))"

definition child_nodes :: "green_node \<Rightarrow> green_node list" where
  "child_nodes node = List.map_filter as_node (green_children node)"

definition direct_nodes :: "green_node \<Rightarrow> node_kind \<Rightarrow> green_node list" where
  "direct_nodes node kind = filter (\<lambda>n. green_kind n = Nod kind) (child_nodes node)"

definition first_node :: "green_node \<Rightarrow> node_kind \<Rightarrow> green_node option" where
  "first_node node kind = find (\<lambda>_. True) (direct_nodes node kind)"

definition direct_name :: "green_node \<Rightarrow> string option" where
  "direct_name node =
     Option.bind (find is_simple_name (map token_text (List.map_filter as_token (green_children node))))
       (\<lambda>s. ok_of (name_new s))"

definition qname_from_node :: "green_node \<Rightarrow> string option" where
  "qname_from_node node = qname_from_text (compact_text node)"

definition type_from_node :: "green_node \<Rightarrow> TypeRef option" where
  "type_from_node node = type_from_text (compact_text node)"

definition multiplicity_from_node :: "green_node \<Rightarrow> Multiplicity option" where
  "multiplicity_from_node node = multiplicity_from_text (compact_text node)"

fun path_among :: "nat \<Rightarrow> green_element list \<Rightarrow> (string \<times> nat) option" where
  "path_among i [] = None"
| "path_among i (Node n # cs) =
     (case if green_kind n = Nod DOMAIN_QUALIFIED_NAME then qname_from_node n else None of
        Some path \<Rightarrow> Some (path, i)
      | None \<Rightarrow> path_among (Suc i) cs)"
| "path_among i (Token t # cs) = path_among (Suc i) cs"

definition declaration_path :: "green_node \<Rightarrow> (string \<times> nat) option" where
  "declaration_path node = path_among 0 (green_children node)"


section \<open>Uncertainty\<close>

record LoweringContext =
  ctx_gaps :: "domain_coverage_gap list"
  ctx_diagnostics :: "diagnostic list"
  ctx_source :: nat

definition ranges_touch_or_overlap :: "text_range \<Rightarrow> text_range \<Rightarrow> bool" where
  "ranges_touch_or_overlap a b \<longleftrightarrow> range_start a \<le> range_end b \<and> range_start b \<le> range_end a"

definition diagnostic_touches :: "LoweringContext \<Rightarrow> green_node \<Rightarrow> bool" where
  "diagnostic_touches ctx node \<longleftrightarrow>
     list_ex (\<lambda>d. ranges_touch_or_overlap (label_span (diag_primary d)) (green_range node)) (ctx_diagnostics ctx)"

definition node_has_coverage_gap :: "green_node \<Rightarrow> LoweringContext \<Rightarrow> bool" where
  "node_has_coverage_gap node ctx \<longleftrightarrow>
     list_ex (\<lambda>g. ranges_touch_or_overlap (gap_span g) (green_range node)) (ctx_gaps ctx) \<or>
     diagnostic_touches ctx node"

text \<open>A malformed declaration starts where the node does.\<close>

definition malformed_at :: "LoweringContext \<Rightarrow> green_node \<Rightarrow> bool" where
  "malformed_at ctx node \<longleftrightarrow>
     list_ex (\<lambda>g. gap_kind g = MalformedDeclaration \<and> range_start (gap_span g) = range_start (green_range node))
       (ctx_gaps ctx)"


section \<open>Annotations\<close>

record AnnotationFacts =
  af_temporal :: "Temporal option"
  temporal_uncertain :: bool
  af_generated :: bool

definition annotation_default :: AnnotationFacts where
  "annotation_default = \<lparr>af_temporal = None, temporal_uncertain = False, af_generated = False\<rparr>"

definition note_temporal :: "Temporal \<Rightarrow> AnnotationFacts \<Rightarrow> AnnotationFacts" where
  "note_temporal t facts =
     (if af_temporal facts \<noteq> None then facts\<lparr>af_temporal := None, temporal_uncertain := True\<rparr>
      else if temporal_uncertain facts then facts\<lparr>af_temporal := None\<rparr>
      else facts\<lparr>af_temporal := Some t\<rparr>)"

definition annotation_merge :: "AnnotationFacts \<Rightarrow> AnnotationFacts \<Rightarrow> AnnotationFacts" where
  "annotation_merge facts new =
     (let facts = facts\<lparr>af_generated := af_generated facts \<or> af_generated new\<rparr>;
          facts = (if temporal_uncertain new then facts\<lparr>af_temporal := None, temporal_uncertain := True\<rparr> else facts)
      in case af_temporal new of Some t \<Rightarrow> note_temporal t facts | None \<Rightarrow> facts)"

text \<open>Only the double-angle form carries stereotypes.\<close>

definition stereotype_atoms :: "string \<Rightarrow> string list" where
  "stereotype_atoms s =
     (case Option.bind (strip_prefix ''<<'' s) (strip_suffix ''>>'') of
        None \<Rightarrow> []
      | Some contents \<Rightarrow> filter (\<lambda>atom. atom \<noteq> []) (split_commas contents))"

definition strip_profile_prefix :: "string \<Rightarrow> string \<Rightarrow> string \<Rightarrow> string option" where
  "strip_profile_prefix atom protocol qualified =
     Option.bind (case strip_prefix protocol atom of Some rest \<Rightarrow> Some rest | None \<Rightarrow> strip_prefix qualified atom)
       (strip_prefix ''.'')"

definition temporal_value :: "string \<Rightarrow> string option" where
  "temporal_value atom = strip_profile_prefix atom TEMPORAL_PROFILE_PROTOCOL TEMPORAL_PROFILE"

definition milestoning_value :: "string \<Rightarrow> string option" where
  "milestoning_value atom = strip_profile_prefix atom MILESTONING_PROFILE_PROTOCOL MILESTONING_PROFILE"

definition note_atom :: "string \<Rightarrow> AnnotationFacts \<Rightarrow> AnnotationFacts" where
  "note_atom atom facts =
     (let facts = (case temporal_value atom of
            None \<Rightarrow> facts
          | Some v \<Rightarrow> (case temporal_of v of
              Some t \<Rightarrow> note_temporal t facts
            | None \<Rightarrow> facts\<lparr>af_temporal := None, temporal_uncertain := True\<rparr>))
      in if milestoning_value atom = Some GENERATED_MILESTONING_PROPERTY then facts\<lparr>af_generated := True\<rparr> else facts)"

definition annotation_facts :: "green_node \<Rightarrow> AnnotationFacts" where
  "annotation_facts node = fold note_atom (stereotype_atoms (compact_text node)) annotation_default"

definition annotations_before :: "green_node \<Rightarrow> nat \<Rightarrow> AnnotationFacts" where
  "annotations_before node end_index =
     fold (\<lambda>child facts. annotation_merge facts (annotation_facts child))
       (filter (\<lambda>child. green_kind child = Nod DOMAIN_STEREOTYPE_APPLICATIONS)
         (List.map_filter as_node (take end_index (green_children node))))
       annotation_default"


section \<open>Members\<close>

definition lower_property :: "green_node \<Rightarrow> PropInfo option" where
  "lower_property node =
     do {
       name \<leftarrow> direct_name node;
       target \<leftarrow> Option.bind (first_node node DOMAIN_TYPE_REF) type_from_node;
       mult \<leftarrow> Option.bind (first_node node DOMAIN_MULTIPLICITY) multiplicity_from_node;
       Some (prop_with_span (green_range node) (prop_declared name target mult))
     }"

fun signature_of :: "LoweringContext \<Rightarrow> green_node list \<Rightarrow> TypeRef list option" where
  "signature_of ctx [] = Some []"
| "signature_of ctx (parameter # ps) =
     (if malformed_at ctx parameter then None
      else if diagnostic_touches ctx parameter then None
      else do {
        ty \<leftarrow> Option.bind (first_node parameter DOMAIN_TYPE_REF) type_from_node;
        rest \<leftarrow> signature_of ctx ps;
        Some (ty # rest)
      })"

definition lower_signature :: "green_node \<Rightarrow> LoweringContext \<Rightarrow> TypeRef list option" where
  "lower_signature node ctx = signature_of ctx (direct_nodes node DOMAIN_PARAMETER_DECL)"

definition lower_qualified_property :: "green_node \<Rightarrow> AnnotationFacts \<Rightarrow> LoweringContext \<Rightarrow> QpInfo option" where
  "lower_qualified_property node annotations ctx =
     do {
       name \<leftarrow> direct_name node;
       target \<leftarrow> Option.bind (first_node node DOMAIN_TYPE_REF) type_from_node;
       mult \<leftarrow> Option.bind (first_node node DOMAIN_MULTIPLICITY) multiplicity_from_node;
       let kind = classify_qualified_property name (af_generated annotations);
       signature \<leftarrow> (if kind = UserQualified then map_option Some (lower_signature node ctx) else Some None);
       Some ((qp_new name target mult kind signature)\<lparr>qp_span := Some (green_range node)\<rparr>)
     }"

record ClassMemberFacts =
  cm_properties :: "(string, PropInfo) btree_map"
  cm_qualified :: "(string, QpInfo) btree_map"
  property_declarations :: "(string, text_range) btree_map"
  qualified_property_declarations :: "(string, text_range) btree_map"
  cm_diagnostics :: "diagnostic list"

definition members_default :: ClassMemberFacts where
  "members_default = \<lparr>cm_properties = [], cm_qualified = [], property_declarations = [],
     qualified_property_declarations = [], cm_diagnostics = []\<rparr>"

datatype MemberDeclarationKind = PropertyMember | QualifiedPropertyMember

fun member_label :: "MemberDeclarationKind \<Rightarrow> string" where
  "member_label PropertyMember = ''property''"
| "member_label QualifiedPropertyMember = ''qualified property''"

definition duplicate_member_diagnostic ::
    "string \<Rightarrow> string \<Rightarrow> MemberDeclarationKind \<Rightarrow> text_range \<Rightarrow> text_range \<Rightarrow> nat \<Rightarrow> diagnostic" where
  "duplicate_member_diagnostic c name kind first duplicate source =
     builder_secondary (label_with_note (file_of_source source) first ''first declaration'')
       (diagnostic_builder DuplicateModelDeclaration Error
         (''Pure class `'' @ c @ ''` declares '' @ member_label kind @ '' `'' @ name @ ''` more than once'')
         (label_with_note (file_of_source source) duplicate ''duplicate declaration''))"

definition insert_property ::
    "ClassMemberFacts \<Rightarrow> green_node \<Rightarrow> string \<Rightarrow> LoweringContext \<Rightarrow> ClassMemberFacts \<times> bool" where
  "insert_property members node c ctx =
     (case direct_name node of
        None \<Rightarrow> (members, False)
      | Some name \<Rightarrow>
          (case bt_get (property_declarations members) name of
             Some first \<Rightarrow>
               (members\<lparr>cm_properties := bt_remove name (cm_properties members),
                  cm_diagnostics := cm_diagnostics members @
                    [duplicate_member_diagnostic c name PropertyMember first (green_range node) (ctx_source ctx)]\<rparr>, False)
           | None \<Rightarrow>
               let members = members\<lparr>property_declarations :=
                     bt_insert name (green_range node) (property_declarations members)\<rparr>
               in if malformed_at ctx node then (members, False)
                  else if diagnostic_touches ctx node then (members, False)
                  else case lower_property node of
                    None \<Rightarrow> (members, False)
                  | Some p \<Rightarrow> (members\<lparr>cm_properties := bt_insert name p (cm_properties members)\<rparr>,
                      bt_get (cm_properties members) name = None)))"

definition insert_qualified_property ::
    "ClassMemberFacts \<Rightarrow> green_node \<Rightarrow> AnnotationFacts \<Rightarrow> string \<Rightarrow> LoweringContext \<Rightarrow> ClassMemberFacts \<times> bool" where
  "insert_qualified_property members node annotations c ctx =
     (case direct_name node of
        None \<Rightarrow> (members, False)
      | Some name \<Rightarrow>
          (case bt_get (qualified_property_declarations members) name of
             Some first \<Rightarrow>
               (members\<lparr>cm_qualified := bt_remove name (cm_qualified members),
                  cm_diagnostics := cm_diagnostics members @
                    [duplicate_member_diagnostic c name QualifiedPropertyMember first (green_range node) (ctx_source ctx)]\<rparr>,
                False)
           | None \<Rightarrow>
               let members = members\<lparr>qualified_property_declarations :=
                     bt_insert name (green_range node) (qualified_property_declarations members)\<rparr>
               in if malformed_at ctx node then (members, False)
                  else if diagnostic_touches ctx node then (members, False)
                  else case lower_qualified_property node annotations ctx of
                    None \<Rightarrow> (members, False)
                  | Some q \<Rightarrow> (members\<lparr>cm_qualified := bt_insert name q (cm_qualified members)\<rparr>,
                      bt_get (cm_qualified members) name = None)))"

text \<open>One member of a class body: the facts so far, the annotations waiting for a member, and the gap flag.\<close>

definition lower_member ::
    "string \<Rightarrow> LoweringContext \<Rightarrow> green_node \<Rightarrow> ClassMemberFacts \<times> AnnotationFacts \<times> bool \<Rightarrow>
     ClassMemberFacts \<times> AnnotationFacts \<times> bool" where
  "lower_member c ctx node st =
     (case st of (members, pending, gap) \<Rightarrow>
        if green_kind node = Nod DOMAIN_OPAQUE_NODE \<or> green_kind node = Nod ERROR_NODE
        then (members, annotation_default, True)
        else if green_kind node = Nod DOMAIN_STEREOTYPE_APPLICATIONS
        then (members, annotation_merge pending (annotation_facts node), gap)
        else if green_kind node = Nod DOMAIN_PROPERTY_DECL
        then (case insert_property members node c ctx of
                (members, inserted) \<Rightarrow> (members, annotation_default, if inserted then gap else True))
        else if green_kind node = Nod DOMAIN_QUALIFIED_PROPERTY_DECL
        then (case insert_qualified_property members node pending c ctx of
                (members, inserted) \<Rightarrow> (members, annotation_default, if inserted then gap else True))
        else (members, pending, gap))"

definition lower_class_members ::
    "green_node \<Rightarrow> string \<Rightarrow> nat \<Rightarrow> LoweringContext \<Rightarrow> ClassMemberFacts \<times> bool" where
  "lower_class_members node c name_index ctx =
     (case fold (lower_member c ctx) (List.map_filter as_node (drop (Suc name_index) (green_children node)))
             (members_default, annotation_default, False) of
        (members, _, gap) \<Rightarrow> (members, gap))"


section \<open>Declarations\<close>

fun supertype_paths :: "green_node list \<Rightarrow> string list \<Rightarrow> string list option" where
  "supertype_paths [] acc = Some acc"
| "supertype_paths (name # names) acc =
     (case qname_from_node name of None \<Rightarrow> None | Some path \<Rightarrow> supertype_paths names (acc @ [path]))"

definition lower_supertypes :: "green_node \<Rightarrow> LoweringContext \<Rightarrow> string list \<times> bool" where
  "lower_supertypes node ctx =
     (case first_node node DOMAIN_EXTENDS_CLAUSE of
        None \<Rightarrow> ([], False)
      | Some extends \<Rightarrow>
          if node_has_coverage_gap extends ctx then ([], True)
          else case supertype_paths (direct_nodes extends DOMAIN_QUALIFIED_NAME) [] of
            None \<Rightarrow> ([], True)
          | Some paths \<Rightarrow> if paths = [] then ([], True) else (paths, False))"

definition lower_class :: "green_node \<Rightarrow> LoweringContext \<Rightarrow> (ClassInfo \<times> diagnostic list) option" where
  "lower_class node ctx =
     do {
       (path, name_index) \<leftarrow> declaration_path node;
       let annotations = annotations_before node name_index;
       let (supertypes, supertype_gap) = lower_supertypes node ctx;
       let (members, member_gap) = lower_class_members node path name_index ctx;
       let gap = (node_has_coverage_gap node ctx \<or> temporal_uncertain annotations \<or> supertype_gap \<or> member_gap);
       let c = (class_info_from_pure path supertypes (af_temporal annotations) (cm_properties members)
                  (cm_qualified members) (ctx_source ctx))\<lparr>ci_span := Some (green_range node)\<rparr>;
       Some (if gap then mark_coverage_gap c else c, cm_diagnostics members)
     }"

record LoweredAssociation =
  lowered_value :: "AssocDraft option"
  lowered_uncertain :: bool

definition uncertain_association :: LoweredAssociation where
  "uncertain_association = \<lparr>lowered_value = None, lowered_uncertain = True\<rparr>"

fun lower_ends :: "green_node list \<Rightarrow> PropInfo list option" where
  "lower_ends [] = Some []"
| "lower_ends (node # nodes) =
     (case lower_property node of None \<Rightarrow> None | Some p \<Rightarrow> map_option (Cons p) (lower_ends nodes))"

definition lower_association :: "green_node \<Rightarrow> LoweringContext \<Rightarrow> LoweredAssociation" where
  "lower_association node ctx =
     (if node_has_coverage_gap node ctx then uncertain_association
      else case declaration_path node of
        None \<Rightarrow> uncertain_association
      | Some (path, name_index) \<Rightarrow>
          let annotations = annotations_before node name_index
          in if temporal_uncertain annotations then uncertain_association
             else case lower_ends (direct_nodes node DOMAIN_PROPERTY_DECL) of
               Some [first, second] \<Rightarrow>
                 \<lparr>lowered_value = Some \<lparr>draft_path = path, draft_first = first, draft_second = second,
                    draft_temporal = af_temporal annotations, draft_provenance = PureFile,
                    draft_source = ctx_source ctx, draft_span = Some (green_range node)\<rparr>,
                  lowered_uncertain = False\<rparr>
             | _ \<Rightarrow> uncertain_association)"


section \<open>Files\<close>

datatype TopLevelDeclarationKind = ClassDeclaration | AssociationDeclaration

record TopLevelDeclaration =
  decl_path :: string
  decl_kind :: TopLevelDeclarationKind
  decl_span :: text_range

definition duplicate_message :: "TopLevelDeclarationKind \<Rightarrow> TopLevelDeclarationKind \<Rightarrow> string \<Rightarrow> string" where
  "duplicate_message first duplicate path =
     (case (first, duplicate) of
        (ClassDeclaration, ClassDeclaration) \<Rightarrow> ''Pure source declares class `'' @ path @ ''` more than once''
      | (AssociationDeclaration, AssociationDeclaration) \<Rightarrow>
          ''Pure source declares association `'' @ path @ ''` more than once''
      | _ \<Rightarrow> ''Pure source declares `'' @ path @ ''` as both a class and association'')"

definition duplicate_top_level_diagnostic :: "TopLevelDeclaration \<Rightarrow> TopLevelDeclaration \<Rightarrow> nat \<Rightarrow> diagnostic" where
  "duplicate_top_level_diagnostic first duplicate source =
     builder_secondary (label_with_note (file_of_source source) (decl_span first) ''first declaration'')
       (diagnostic_builder DuplicateModelDeclaration Error
         (duplicate_message (decl_kind first) (decl_kind duplicate) (decl_path duplicate))
         (label_with_note (file_of_source source) (decl_span duplicate) ''duplicate declaration''))"

definition note_declaration ::
    "nat \<Rightarrow> TopLevelDeclaration \<Rightarrow> (string, TopLevelDeclaration) btree_map \<times> string set \<times> diagnostic list \<Rightarrow>
     (string, TopLevelDeclaration) btree_map \<times> string set \<times> diagnostic list" where
  "note_declaration source declaration st =
     (case st of (firsts, duplicates, diagnostics) \<Rightarrow>
        case bt_get firsts (decl_path declaration) of
          Some first \<Rightarrow> (firsts, insert (decl_path declaration) duplicates,
            diagnostics @ [duplicate_top_level_diagnostic first declaration source])
        | None \<Rightarrow> (bt_insert (decl_path declaration) declaration firsts, duplicates, diagnostics))"

definition duplicate_top_level_paths :: "TopLevelDeclaration list \<Rightarrow> nat \<Rightarrow> string set \<times> diagnostic list" where
  "duplicate_top_level_paths declarations source =
     snd (fold (note_declaration source) declarations ([], {}, []))"

record DomainFacts =
  df_gap :: bool
  df_classes :: "ClassInfo list"
  df_associations :: "AssocDraft list"
  df_declarations :: "TopLevelDeclaration list"
  df_diagnostics :: "diagnostic list"

definition note_top_level :: "TopLevelDeclarationKind \<Rightarrow> green_node \<Rightarrow> DomainFacts \<Rightarrow> DomainFacts" where
  "note_top_level kind declaration facts =
     (case declaration_path declaration of
        None \<Rightarrow> facts
      | Some (path, _) \<Rightarrow> facts\<lparr>df_declarations := df_declarations facts @
          [\<lparr>decl_path = path, decl_kind = kind, decl_span = green_range declaration\<rparr>]\<rparr>)"

definition lower_declaration :: "LoweringContext \<Rightarrow> green_node \<Rightarrow> DomainFacts \<Rightarrow> DomainFacts" where
  "lower_declaration ctx declaration facts =
     (if green_kind declaration = Nod DOMAIN_CLASS_DECL
      then (let facts = note_top_level ClassDeclaration declaration facts
            in case lower_class declaration ctx of
                 Some (c, diagnostics) \<Rightarrow>
                   facts\<lparr>df_classes := df_classes facts @ [c], df_diagnostics := df_diagnostics facts @ diagnostics\<rparr>
               | None \<Rightarrow> facts\<lparr>df_gap := True\<rparr>)
      else if green_kind declaration = Nod DOMAIN_ASSOCIATION_DECL
      then (let facts = note_top_level AssociationDeclaration declaration facts;
                lowered = lower_association declaration ctx;
                facts = facts\<lparr>df_gap := df_gap facts \<or> lowered_uncertain lowered\<rparr>
            in case lowered_value lowered of
                 Some a \<Rightarrow> facts\<lparr>df_associations := df_associations facts @ [a]\<rparr>
               | None \<Rightarrow> facts)
      else facts)"

definition insert_class :: "string set \<Rightarrow> bool \<Rightarrow> ClassInfo \<Rightarrow> elements \<Rightarrow> elements" where
  "insert_class duplicates gap c es =
     (if ci_path c \<in> duplicates then es
      else bt_insert (ci_path c) (FragmentClass (if gap then mark_coverage_gap c else c)) es)"

definition insert_association :: "string set \<Rightarrow> AssocDraft \<Rightarrow> elements \<Rightarrow> elements" where
  "insert_association duplicates a es =
     (if draft_path a \<in> duplicates then es else bt_insert (draft_path a) (FragmentAssociation a) es)"

definition lower_domain :: "green_node \<Rightarrow> LoweringContext \<Rightarrow> elements \<times> diagnostic list" where
  "lower_domain root ctx =
     (case find_domain_file root of
        None \<Rightarrow> ([], [])
      | Some file \<Rightarrow>
          let facts = fold (lower_declaration ctx) (child_nodes file)
                \<lparr>df_gap = list_ex (\<lambda>g. gap_kind g = UnsupportedTopLevel) (ctx_gaps ctx), df_classes = [],
                 df_associations = [], df_declarations = [], df_diagnostics = []\<rparr>;
              (duplicates, duplicate_diagnostics) = duplicate_top_level_paths (df_declarations facts) (ctx_source ctx);
              gap = (df_gap facts \<or> duplicates \<noteq> {});
              es = fold (insert_association duplicates) (df_associations facts)
                     (fold (insert_class duplicates gap) (df_classes facts) [])
          in (es, df_diagnostics facts @ duplicate_diagnostics))"

definition lowering_context :: "domain_parse \<Rightarrow> nat \<Rightarrow> LoweringContext" where
  "lowering_context parsed source =
     \<lparr>ctx_gaps = dp_coverage_gaps parsed, ctx_diagnostics = dp_diagnostics parsed, ctx_source = source\<rparr>"

definition parse_pure_document ::
    "logos \<Rightarrow> nat \<Rightarrow> string \<Rightarrow> string \<Rightarrow> nat \<Rightarrow> (ModelError + ModelFragment) option" where
  "parse_pure_document logos owner source_name src source =
     do {
       parsed \<leftarrow> parse_domain logos owner src (file_of_source source);
       Some (case parsed of
               Inl e \<Rightarrow> Inl (PureParse source_name e)
             | Inr parsed \<Rightarrow>
                 let (es, lowering_diagnostics) = lower_domain (dp_green parsed) (lowering_context parsed source)
                 in Inr \<lparr>fragment_elements = es,
                      fragment_diagnostics = sort_key (\<lambda>d. range_start (label_span (diag_primary d)))
                        (dp_diagnostics parsed @ lowering_diagnostics)\<rparr>)
     }"

end
