(* ===== verification/ModelLoader.thy ===== *)
theory ModelLoader
  imports PureLowering Json
begin

text \<open>
  Loading and merging of model sources (\<^verbatim>\<open>crates/pure-analyzer-model/src/loader.rs\<close> and \<^verbatim>\<open>raw.rs\<close>). Parameters, in
  the record \<open>loader_env\<close>: the JSON parser and the derived deserialization of \<^verbatim>\<open>serde\<close> (errors as text), the file
  system, and the lexer automaton of the Domain parser. A result \<open>None\<close> means that loading did not return.
\<close>

section \<open>Records of compiled models\<close>

datatype RawPath = RawPathString string | RawPathPointer string

fun path_into_string :: "RawPath \<Rightarrow> string" where
  "path_into_string (RawPathString path) = path"
| "path_into_string (RawPathPointer path) = path"

datatype RawTypeName = RawTypeString string | RawTypeObject string

fun type_into_string :: "RawTypeName \<Rightarrow> string" where
  "type_into_string (RawTypeString path) = path"
| "type_into_string (RawTypeObject path) = path"

record RawStereotype =
  raw_profile :: string
  raw_value :: string

datatype RawGenericType = RawGenericType (generic_raw_type: RawTypeName) (generic_arguments: "RawGenericType list")

record RawMultiplicity =
  raw_lower :: nat
  raw_upper :: "nat option"

record RawProperty =
  rp_name :: string
  rp_type :: RawGenericType
  rp_multiplicity :: RawMultiplicity

record RawQualifiedProperty =
  rq_name :: string
  rq_type :: RawGenericType
  rq_multiplicity :: RawMultiplicity
  rq_stereotypes :: "RawStereotype list"
  rq_parameters :: "RawGenericType list option"

record RawClass =
  rc_package :: string
  rc_name :: string
  rc_super_types :: "RawPath list"
  rc_stereotypes :: "RawStereotype list"
  rc_properties :: "RawProperty list"
  rc_qualified :: "RawQualifiedProperty list"

record RawAssociation =
  ra_package :: string
  ra_name :: string
  ra_stereotypes :: "RawStereotype list"
  ra_properties :: "RawProperty list"

record loader_env =
  json_from_str :: "string \<Rightarrow> string + Value"
  class_from_value :: "Value \<Rightarrow> string + RawClass"
  association_from_value :: "Value \<Rightarrow> string + RawAssociation"
  env_logos :: logos
  env_owner :: nat


section \<open>Lowering of records\<close>

text \<open>\<^verbatim>\<open>?\<close> on results, with and without conversion of the error, and \<^verbatim>\<open>collect\<close> of a sequence of results.\<close>

definition and_then :: "'e + 'a \<Rightarrow> ('a \<Rightarrow> 'e + 'b) \<Rightarrow> 'e + 'b" where
  "and_then r f = (case r of Inl e \<Rightarrow> Inl e | Inr a \<Rightarrow> f a)"

definition map_err :: "('e \<Rightarrow> 'f) \<Rightarrow> 'e + 'a \<Rightarrow> 'f + 'a" where
  "map_err f r = map_sum f (\<lambda>a. a) r"

fun collect_results :: "('e + 'a) list \<Rightarrow> 'e + 'a list" where
  "collect_results [] = Inr []"
| "collect_results (r # rs) = and_then r (\<lambda>a. map_sum (\<lambda>e. e) (Cons a) (collect_results rs))"

text \<open>A type reference checks its own name before its arguments, in order.\<close>

primrec lower_type_ref :: "RawGenericType \<Rightarrow> ModelErrorKind + TypeRef" where
  "lower_type_ref (RawGenericType name arguments) =
     and_then (map_err InvalidName (qname_new (type_into_string name))) (\<lambda>raw.
     and_then (collect_results (map lower_type_ref arguments)) (\<lambda>ts. Inr (TypeRef raw ts)))"

definition lower_multiplicity :: "RawMultiplicity \<Rightarrow> ModelErrorKind + Multiplicity" where
  "lower_multiplicity raw = map_err InvalidMultiplicity (multiplicity_new (raw_lower raw) (raw_upper raw))"

definition raw_lower_property :: "RawProperty \<Rightarrow> ModelErrorKind + PropInfo" where
  "raw_lower_property raw =
     and_then (map_err InvalidName (name_new (rp_name raw))) (\<lambda>name.
     and_then (lower_type_ref (rp_type raw)) (\<lambda>target.
     and_then (lower_multiplicity (rp_multiplicity raw)) (\<lambda>mult. Inr (prop_declared name target mult))))"

definition lower_properties :: "string \<Rightarrow> RawProperty list \<Rightarrow> ModelErrorKind + (string, PropInfo) btree_map" where
  "lower_properties c properties =
     fold_result (\<lambda>raw lowered.
       and_then (raw_lower_property raw) (\<lambda>p.
         if bt_get lowered (prop_name p) \<noteq> None then Inl (DuplicateProperty c (prop_name p))
         else Inr (bt_insert (prop_name p) p lowered))) properties []"

definition raw_lower_signature :: "RawGenericType list option \<Rightarrow> ModelErrorKind + TypeRef list option" where
  "raw_lower_signature parameters =
     (case parameters of
        None \<Rightarrow> Inr None
      | Some ps \<Rightarrow> map_sum (\<lambda>e. e) Some (collect_results (map lower_type_ref ps)))"

definition is_milestoning_profile :: "string \<Rightarrow> bool" where
  "is_milestoning_profile profile \<longleftrightarrow> profile = MILESTONING_PROFILE \<or> profile = MILESTONING_PROFILE_PROTOCOL"

definition is_generated_milestoning_property :: "RawStereotype list \<Rightarrow> bool" where
  "is_generated_milestoning_property stereotypes \<longleftrightarrow>
     list_ex (\<lambda>s. is_milestoning_profile (raw_profile s) \<and> raw_value s = GENERATED_MILESTONING_PROPERTY) stereotypes"

definition raw_lower_qualified :: "RawQualifiedProperty \<Rightarrow> ModelErrorKind + QpInfo" where
  "raw_lower_qualified raw =
     and_then (map_err InvalidName (name_new (rq_name raw))) (\<lambda>name.
     and_then (lower_type_ref (rq_type raw)) (\<lambda>target.
     and_then (lower_multiplicity (rq_multiplicity raw)) (\<lambda>mult.
       let kind = classify_qualified_property name (is_generated_milestoning_property (rq_stereotypes raw))
       in and_then (if kind = UserQualified then raw_lower_signature (rq_parameters raw) else Inr None) (\<lambda>signature.
            Inr (qp_new name target mult kind signature)))))"

definition lower_qualified_properties ::
    "string \<Rightarrow> RawQualifiedProperty list \<Rightarrow> ModelErrorKind + (string, QpInfo) btree_map" where
  "lower_qualified_properties c properties =
     fold_result (\<lambda>raw lowered.
       and_then (raw_lower_qualified raw) (\<lambda>q.
         if bt_get lowered (qp_name q) \<noteq> None then Inl (DuplicateQualifiedProperty c (qp_name q))
         else Inr (bt_insert (qp_name q) q lowered))) properties []"

definition is_temporal_profile :: "RawStereotype \<Rightarrow> bool" where
  "is_temporal_profile s \<longleftrightarrow> raw_profile s = TEMPORAL_PROFILE \<or> raw_profile s = TEMPORAL_PROFILE_PROTOCOL"

definition lower_temporal :: "string \<Rightarrow> RawStereotype list \<Rightarrow> ModelErrorKind + Temporal option" where
  "lower_temporal element stereotypes =
     fold_result (\<lambda>s temporal.
       case temporal_of (raw_value s) of
         None \<Rightarrow> Inl (UnknownTemporalStereotype element (raw_value s))
       | Some current \<Rightarrow>
           if temporal \<noteq> None then Inl (MultipleTemporalStereotypes element) else Inr (Some current))
       (filter is_temporal_profile stereotypes) None"

definition raw_lower_class :: "RawClass \<Rightarrow> nat \<Rightarrow> ModelErrorKind + ClassInfo" where
  "raw_lower_class raw source =
     and_then (map_err InvalidName (from_package_and_name (rc_package raw) (rc_name raw))) (\<lambda>path.
     and_then (lower_temporal path (rc_stereotypes raw)) (\<lambda>temporal.
     and_then (collect_results (map (\<lambda>s. map_err InvalidName (qname_new (path_into_string s))) (rc_super_types raw)))
       (\<lambda>supertypes.
     and_then (lower_properties path (rc_properties raw)) (\<lambda>properties.
     and_then (lower_qualified_properties path (rc_qualified raw)) (\<lambda>qualified.
       Inr (class_info_new path supertypes temporal properties qualified source))))))"

definition raw_lower_association :: "RawAssociation \<Rightarrow> nat \<Rightarrow> ModelErrorKind + AssocDraft" where
  "raw_lower_association raw source =
     and_then (map_err InvalidName (from_package_and_name (ra_package raw) (ra_name raw))) (\<lambda>path.
     and_then (lower_temporal path (ra_stereotypes raw)) (\<lambda>temporal.
       case ra_properties raw of
         [first, second] \<Rightarrow>
           and_then (raw_lower_property first) (\<lambda>first.
           and_then (raw_lower_property second) (\<lambda>second.
             Inr \<lparr>draft_path = path, draft_first = first, draft_second = second, draft_temporal = temporal,
               draft_provenance = Pmcd, draft_source = source, draft_span = None\<rparr>))
       | properties \<Rightarrow> Inl (AssociationArity path (length properties))))"


section \<open>Documents of compiled models\<close>

definition DOCUMENT_TYPE :: string where "DOCUMENT_TYPE = ''data''"
definition CLASS_TYPE :: string where "CLASS_TYPE = ''class''"
definition ASSOCIATION_TYPE :: string where "ASSOCIATION_TYPE = ''association''"

definition element_kind_of :: "string \<Rightarrow> nat \<Rightarrow> Value \<Rightarrow> ModelError + string" where
  "element_kind_of source_name index element =
     (case as_object element of
        None \<Rightarrow> Inl (InvalidElement source_name index ''unknown'' (InvalidRecord ''element must be an object''))
      | Some entries \<Rightarrow>
          (case Option.bind (bt_get entries ''_type'') value_as_str of
             None \<Rightarrow> Inl (InvalidElement source_name index ''unknown'' (InvalidRecord ''`_type` must be a string''))
           | Some kind \<Rightarrow> Inr kind))"

definition lower_class_element ::
    "loader_env \<Rightarrow> string \<Rightarrow> nat \<Rightarrow> Value \<Rightarrow> nat \<Rightarrow> ModelError + string \<times> FragmentElement" where
  "lower_class_element env source_name index value source =
     and_then (map_err (\<lambda>e. InvalidElement source_name index CLASS_TYPE (InvalidRecord e)) (class_from_value env value)) (\<lambda>raw.
     and_then (map_err (InvalidElement source_name index CLASS_TYPE) (raw_lower_class raw source)) (\<lambda>c.
       Inr (ci_path c, FragmentClass c)))"

definition lower_association_element ::
    "loader_env \<Rightarrow> string \<Rightarrow> nat \<Rightarrow> Value \<Rightarrow> nat \<Rightarrow> ModelError + string \<times> FragmentElement" where
  "lower_association_element env source_name index value source =
     and_then (map_err (\<lambda>e. InvalidElement source_name index ASSOCIATION_TYPE (InvalidRecord e)) (association_from_value env value))
       (\<lambda>raw.
     and_then (map_err (InvalidElement source_name index ASSOCIATION_TYPE) (raw_lower_association raw source)) (\<lambda>a.
       Inr (draft_path a, FragmentAssociation a)))"

definition lower_element :: "loader_env \<Rightarrow> string \<Rightarrow> nat \<Rightarrow> nat \<times> Value \<Rightarrow> elements \<Rightarrow> ModelError + elements" where
  "lower_element env source_name source entry lowered =
     (case entry of (index, element) \<Rightarrow>
        and_then (element_kind_of source_name index element) (\<lambda>kind.
        and_then (if kind = CLASS_TYPE
             then map_sum (\<lambda>e. e) Some (lower_class_element env source_name index element source)
             else if kind = ASSOCIATION_TYPE
             then map_sum (\<lambda>e. e) Some (lower_association_element env source_name index element source)
             else Inr None) (\<lambda>normalized.
          case normalized of
            None \<Rightarrow> Inr lowered
          | Some (path, normalized) \<Rightarrow>
              if bt_get lowered path \<noteq> None
              then Inl (InvalidElement source_name index kind (DuplicateElement path))
              else Inr (bt_insert path normalized lowered))))"

definition lower_elements :: "loader_env \<Rightarrow> string \<Rightarrow> Value list \<Rightarrow> nat \<Rightarrow> ModelError + elements" where
  "lower_elements env source_name values source =
     fold_result (lower_element env source_name source) (List.enumerate 0 values) []"

definition validate_document_type :: "string \<Rightarrow> Value option \<Rightarrow> ModelError + unit" where
  "validate_document_type source_name value =
     (case value of
        None \<Rightarrow> Inr ()
      | Some value \<Rightarrow>
          if value_as_str value = Some DOCUMENT_TYPE then Inr ()
          else Inl (InvalidDocument source_name ''`_type`, when present, must be `data`''))"

definition parse_document :: "loader_env \<Rightarrow> string \<Rightarrow> string \<Rightarrow> nat \<Rightarrow> ModelError + elements" where
  "parse_document env source_name json source =
     and_then (map_err (JsonError source_name) (json_from_str env json)) (\<lambda>document.
       case as_object document of
         None \<Rightarrow> Inl (InvalidDocument source_name ''top level must be an object'')
       | Some entries \<Rightarrow>
           and_then (validate_document_type source_name (bt_get entries ''_type'')) (\<lambda>_.
             case Option.bind (bt_get entries ''elements'') as_array of
               None \<Rightarrow> Inl (InvalidDocument source_name ''`elements` must be an array'')
             | Some values \<Rightarrow> lower_elements env source_name values source))"


section \<open>Associations\<close>

text \<open>An end is navigable from the class the other end points to.\<close>

record PreparedAssociation =
  pa_path :: string
  pa_first_owner :: string
  pa_second_owner :: string
  pa_first :: PropInfo
  pa_second :: PropInfo
  pa_temporal :: "Temporal option"
  pa_provenance :: Provenance
  pa_source :: nat
  pa_span :: "text_range option"

definition prepared_from_draft :: "AssocDraft \<Rightarrow> PreparedAssociation" where
  "prepared_from_draft a =
     \<lparr>pa_path = draft_path a, pa_first_owner = raw_type (prop_target (draft_second a)),
      pa_second_owner = raw_type (prop_target (draft_first a)),
      pa_first = prop_with_association (draft_path a) (draft_first a),
      pa_second = prop_with_association (draft_path a) (draft_second a), pa_temporal = draft_temporal a,
      pa_provenance = draft_provenance a, pa_source = draft_source a, pa_span = draft_span a\<rparr>"

definition pa_ends :: "PreparedAssociation \<Rightarrow> (string \<times> PropInfo) list" where
  "pa_ends a = [(pa_first_owner a, pa_first a), (pa_second_owner a, pa_second a)]"

type_synonym classes = "(string, ClassInfo) btree_map"

definition end_failure :: "classes \<Rightarrow> string \<Rightarrow> string \<times> PropInfo \<Rightarrow> ModelErrorKind option" where
  "end_failure cs association e =
     (case e of (owner, property) \<Rightarrow>
        case bt_get cs owner of
          None \<Rightarrow> Some (MissingAssociationOwner association (prop_name property) owner)
        | Some c \<Rightarrow>
            if bt_contains (ci_properties c) (prop_name property)
            then Some (AssociationPropertyConflict association owner (prop_name property))
            else None)"

text \<open>\<^verbatim>\<open>failures[index].get_or_insert(failure)\<close>\<close>

definition get_or_insert :: "nat \<Rightarrow> ModelErrorKind \<Rightarrow> ModelErrorKind option list \<Rightarrow> ModelErrorKind option list" where
  "get_or_insert i failure failures = (if failures ! i = None then failures[i := Some failure] else failures)"

definition own_failures :: "classes \<Rightarrow> PreparedAssociation list \<Rightarrow> ModelErrorKind option list" where
  "own_failures cs prepared =
     fold (\<lambda>(i, a) failures.
         fold (\<lambda>e failures. case end_failure cs (pa_path a) e of
                 Some failure \<Rightarrow> get_or_insert i failure failures
               | None \<Rightarrow> failures) (pa_ends a) failures)
       (List.enumerate 0 prepared) (replicate (length prepared) None)"

definition association_ends ::
    "PreparedAssociation list \<Rightarrow> ModelErrorKind option list \<Rightarrow> (string \<times> string, nat list) btree_map" where
  "association_ends prepared failures =
     fold (\<lambda>(i, a) ends.
         if failures ! i \<noteq> None then ends
         else fold (\<lambda>(owner, property). bt_push (owner, prop_name property) i) (pa_ends a) ends)
       (List.enumerate 0 prepared) []"

definition fail_contributors ::
    "PreparedAssociation list \<Rightarrow> (string \<times> string) \<times> nat list \<Rightarrow> ModelErrorKind option list \<Rightarrow> ModelErrorKind option list" where
  "fail_contributors prepared grouped failures =
     (case grouped of ((owner, property), contributors) \<Rightarrow>
        if length contributors < 2 then failures
        else let pmcd = length (filter (\<lambda>i. pa_provenance (prepared ! i) = Pmcd) contributors)
             in fold (\<lambda>i failures.
                  if pmcd = 1 \<and> pa_provenance (prepared ! i) = Pmcd then failures
                  else get_or_insert i (AssociationPropertyConflict (pa_path (prepared ! i)) owner property) failures)
                contributors failures)"

definition preflight_association_failures :: "classes \<Rightarrow> PreparedAssociation list \<Rightarrow> ModelErrorKind option list" where
  "preflight_association_failures cs prepared =
     (let failures = own_failures cs prepared
      in fold (fail_contributors prepared) (association_ends prepared failures) failures)"

definition merged_graph_error :: "nat \<Rightarrow> ModelErrorKind \<Rightarrow> ModelError" where
  "merged_graph_error source kind = InvalidMergedGraph source kind"

text \<open>The class is updated before the previous property is looked at.\<close>

definition insert_association_end :: "nat \<Rightarrow> string \<Rightarrow> PropInfo \<Rightarrow> string \<Rightarrow> classes \<Rightarrow> ModelError + classes" where
  "insert_association_end source owner property association cs =
     (case bt_get cs owner of
        None \<Rightarrow> Inl (merged_graph_error source (MissingAssociationOwner association (prop_name property) owner))
      | Some c \<Rightarrow>
          let previous = bt_get (ci_properties c) (prop_name property);
              cs = bt_insert owner (c\<lparr>ci_properties := bt_insert (prop_name property) property (ci_properties c)\<rparr>) cs
          in if previous \<noteq> None
             then Inl (merged_graph_error source (AssociationPropertyConflict association owner (prop_name property)))
             else Inr cs)"

definition association_end_new :: "string \<Rightarrow> PropInfo \<Rightarrow> AssociationEndInfo" where
  "association_end_new owner property = \<lparr>end_owner = owner, end_property = property, end_span = prop_span property\<rparr>"

definition assoc_of_prepared :: "PreparedAssociation \<Rightarrow> AssocInfo" where
  "assoc_of_prepared a =
     \<lparr>assoc_path = pa_path a, end_a = association_end_new (pa_first_owner a) (pa_first a),
      end_b = association_end_new (pa_second_owner a) (pa_second a), assoc_temporal = pa_temporal a,
      assoc_provenance = pa_provenance a, assoc_source = pa_source a, assoc_span = pa_span a\<rparr>"

definition materialize_prepared_association :: "PreparedAssociation \<Rightarrow> classes \<Rightarrow> ModelError + classes \<times> AssocInfo" where
  "materialize_prepared_association a cs =
     and_then (insert_association_end (pa_source a) (pa_first_owner a) (pa_first a) (pa_path a) cs) (\<lambda>cs.
     and_then (insert_association_end (pa_source a) (pa_second_owner a) (pa_second a) (pa_path a) cs) (\<lambda>cs.
       Inr (cs, assoc_of_prepared a)))"

definition pure_association_diagnostic :: "PreparedAssociation \<Rightarrow> ModelErrorKind \<Rightarrow> diagnostic" where
  "pure_association_diagnostic a failure =
     diagnostic_builder UnresolvedModelAssociation Error
       (''Pure association `'' @ pa_path a @ ''` cannot be materialized safely: '' @ kind_text failure)
       (label_with_note (file_of_source (pa_source a)) (case pa_span a of Some declared \<Rightarrow> declared | None \<Rightarrow> text_range 0 0)
         ''association not materialized'')"

record AssociationMaterialization =
  am_classes :: classes
  am_associations :: "AssocInfo list"
  am_diagnostics :: "diagnostic list"
  am_gap :: bool

definition materialize_step ::
    "PreparedAssociation \<times> ModelErrorKind option \<Rightarrow> AssociationMaterialization \<Rightarrow> ModelError + AssociationMaterialization" where
  "materialize_step entry m =
     (case entry of
        (a, Some failure) \<Rightarrow>
          Inr (m\<lparr>am_gap := True, am_diagnostics := am_diagnostics m @ [pure_association_diagnostic a failure]\<rparr>)
      | (a, None) \<Rightarrow>
          map_sum (\<lambda>e. e) (\<lambda>(cs, info). m\<lparr>am_classes := cs, am_associations := am_associations m @ [info]\<rparr>)
            (materialize_prepared_association a (am_classes m)))"

definition materialize_associations :: "classes \<Rightarrow> AssocDraft list \<Rightarrow> ModelError + AssociationMaterialization" where
  "materialize_associations cs drafts =
     (let prepared = map prepared_from_draft drafts;
          failures = preflight_association_failures cs prepared
      in case find (\<lambda>(a, failure). pa_provenance a = Pmcd \<and> failure \<noteq> None) (zip prepared failures) of
           Some (a, failure) \<Rightarrow> Inl (merged_graph_error (pa_source a) (the failure))
         | None \<Rightarrow> fold_result materialize_step (zip prepared failures)
             \<lparr>am_classes = cs, am_associations = [], am_diagnostics = [], am_gap = False\<rparr>)"


section \<open>Merging\<close>

record ModelMerger =
  merger_elements :: elements
  merger_sources :: "ModelSourceInfo list"
  merger_diagnostics :: "diagnostic list"

definition merger_default :: ModelMerger where
  "merger_default = \<lparr>merger_elements = [], merger_sources = [], merger_diagnostics = []\<rparr>"

definition merge_diagnostic :: "ModelMerger \<Rightarrow> string \<Rightarrow> nat \<Rightarrow> nat \<Rightarrow> string \<Rightarrow> diagnostic" where
  "merge_diagnostic m path previous replacement replacement_label =
     (let previous_label = (case get_at (merger_sources m) previous of
            Some info \<Rightarrow> source_label info
          | None \<Rightarrow> ''<unknown source>'')
      in builder_secondary
           (label_with_note (file_of_source previous) (text_range 0 0)
             (''replaced definition from `'' @ previous_label @ ''`''))
           (diagnostic_builder ModelMergeConflict Warning
             (''model element `'' @ path @ ''` from `'' @ replacement_label @ ''` replaces the definition from `'' @
              previous_label @ ''`'')
             (label_with_note (file_of_source replacement) (text_range 0 0)
               (''winning definition from `'' @ replacement_label @ ''`''))))"

definition ingest_element :: "nat \<Rightarrow> string \<Rightarrow> string \<times> FragmentElement \<Rightarrow> ModelMerger \<Rightarrow> ModelMerger" where
  "ingest_element source label entry m =
     (case entry of (path, replacement) \<Rightarrow>
        let previous = bt_get (merger_elements m) path;
            m = m\<lparr>merger_elements := bt_insert path replacement (merger_elements m)\<rparr>
        in case previous of
             None \<Rightarrow> m
           | Some previous \<Rightarrow> m\<lparr>merger_diagnostics := merger_diagnostics m @
               [merge_diagnostic m path (element_source previous) source label]\<rparr>)"

definition ingest_fragment :: "nat \<Rightarrow> string \<Rightarrow> Provenance \<Rightarrow> ModelFragment \<Rightarrow> ModelMerger \<Rightarrow> ModelMerger" where
  "ingest_fragment source label origin fragment m =
     fold (ingest_element source label) (fragment_elements fragment)
       (m\<lparr>merger_sources := merger_sources m @ [\<lparr>source_id = source, source_label = label, source_provenance = origin\<rparr>],
          merger_diagnostics := merger_diagnostics m @ fragment_diagnostics fragment\<rparr>)"

definition ingest_pmcd :: "loader_env \<Rightarrow> nat \<Rightarrow> string \<Rightarrow> string \<Rightarrow> ModelMerger \<Rightarrow> ModelError + ModelMerger" where
  "ingest_pmcd env source label json m =
     and_then (parse_document env label json source) (\<lambda>es.
       Inr (ingest_fragment source label Pmcd \<lparr>fragment_elements = es, fragment_diagnostics = []\<rparr> m))"

definition ingest_pure :: "loader_env \<Rightarrow> nat \<Rightarrow> string \<Rightarrow> string \<Rightarrow> ModelMerger \<Rightarrow> (ModelError + ModelMerger) option" where
  "ingest_pure env source label src m =
     map_option (\<lambda>parsed. and_then parsed (\<lambda>fragment. Inr (ingest_fragment source label PureFile fragment m)))
       (parse_pure_document (env_logos env) (env_owner env) label src source)"

text \<open>\<^verbatim>\<open>finish\<close> splits the elements, in the order of their paths.\<close>

fun split_element :: "string \<times> FragmentElement \<Rightarrow> classes \<times> AssocDraft list \<Rightarrow> classes \<times> AssocDraft list" where
  "split_element (path, FragmentClass c) (cs, drafts) = (bt_insert path c cs, drafts)"
| "split_element (path, FragmentAssociation a) (cs, drafts) = (cs, drafts @ [a])"

definition index_step ::
    "nat \<times> string \<Rightarrow> (string, nat) btree_map \<times> string list \<Rightarrow> ModelError + (string, nat) btree_map \<times> string list" where
  "index_step entry st =
     (case (entry, st) of ((i, path), (ids, paths)) \<Rightarrow>
        if i > u32_max then Inl (TooManyClasses i) else Inr (bt_insert path i ids, paths @ [path]))"

definition index_classes :: "classes \<Rightarrow> ModelError + (string, nat) btree_map \<times> string list" where
  "index_classes cs = fold_result index_step (List.enumerate 0 (map fst cs)) ([], [])"

definition finish :: "ModelMerger \<Rightarrow> ModelError + ModelGraph" where
  "finish m =
     (let (cs, drafts) = fold split_element (merger_elements m) ([], [])
      in and_then (materialize_associations cs drafts) (\<lambda>am.
           let cs = (if am_gap am then map (\<lambda>(path, c). (path, mark_coverage_gap c)) (am_classes am) else am_classes am)
           in and_then (index_classes cs) (\<lambda>(ids, paths).
                Inr \<lparr>graph_classes = cs, by_path = ids, paths_by_id = paths, associations = am_associations am,
                  graph_sources = merger_sources m,
                  graph_diagnostics = merger_diagnostics m @ am_diagnostics am\<rparr>)))"


section \<open>Entry points\<close>

record PmcdDocument =
  pmcd_label :: string
  pmcd_json :: string

record PureDocument =
  pure_label :: string
  pure_source :: string

datatype ModelDocument = PmcdModel PmcdDocument | PureModel PureDocument

definition to_source_id :: "nat \<Rightarrow> ModelError + nat" where
  "to_source_id index = (if index \<le> u32_max then Inr index else Inl (TooManySources index))"

fun ingest_document :: "loader_env \<Rightarrow> nat \<Rightarrow> ModelDocument \<Rightarrow> ModelMerger \<Rightarrow> (ModelError + ModelMerger) option" where
  "ingest_document env source (PmcdModel d) m = Some (ingest_pmcd env source (pmcd_label d) (pmcd_json d) m)"
| "ingest_document env source (PureModel d) m = ingest_pure env source (pure_label d) (pure_source d) m"

fun ingest_documents :: "loader_env \<Rightarrow> nat \<Rightarrow> ModelDocument list \<Rightarrow> ModelMerger \<Rightarrow> (ModelError + ModelMerger) option" where
  "ingest_documents env index [] m = Some (Inr m)"
| "ingest_documents env index (d # ds) m =
     (case to_source_id index of
        Inl e \<Rightarrow> Some (Inl e)
      | Inr source \<Rightarrow>
          Option.bind (ingest_document env source d m) (\<lambda>r. case r of
            Inl e \<Rightarrow> Some (Inl e)
          | Inr m \<Rightarrow> ingest_documents env (Suc index) ds m))"

definition load_model_documents :: "loader_env \<Rightarrow> ModelDocument list \<Rightarrow> (ModelError + ModelGraph) option" where
  "load_model_documents env documents =
     map_option (\<lambda>r. and_then r finish) (ingest_documents env 0 documents merger_default)"

definition load_pmcd_documents :: "loader_env \<Rightarrow> PmcdDocument list \<Rightarrow> (ModelError + ModelGraph) option" where
  "load_pmcd_documents env documents = load_model_documents env (map PmcdModel documents)"

definition load_pure_documents :: "loader_env \<Rightarrow> PureDocument list \<Rightarrow> (ModelError + ModelGraph) option" where
  "load_pure_documents env documents = load_model_documents env (map PureModel documents)"

text \<open>Files: the file system gives the text or an error, and a path its printed form.\<close>

datatype 'p ModelSource = PmcdJson 'p | PureModelFile 'p

fun source_path :: "'p ModelSource \<Rightarrow> 'p" where
  "source_path (PmcdJson path) = path"
| "source_path (PureModelFile path) = path"

fun document_of_source :: "'p ModelSource \<Rightarrow> string \<Rightarrow> string \<Rightarrow> ModelDocument" where
  "document_of_source (PmcdJson path) label src = PmcdModel \<lparr>pmcd_label = label, pmcd_json = src\<rparr>"
| "document_of_source (PureModelFile path) label src = PureModel \<lparr>pure_label = label, pure_source = src\<rparr>"

fun ingest_files ::
    "loader_env \<Rightarrow> ('p \<Rightarrow> string + string) \<Rightarrow> ('p \<Rightarrow> string) \<Rightarrow> nat \<Rightarrow> 'p ModelSource list \<Rightarrow> ModelMerger \<Rightarrow>
     (ModelError + ModelMerger) option" where
  "ingest_files env read_file display index [] m = Some (Inr m)"
| "ingest_files env read_file display index (f # fs) m =
     (case to_source_id index of
        Inl e \<Rightarrow> Some (Inl e)
      | Inr source \<Rightarrow>
          (case read_file (source_path f) of
             Inl e \<Rightarrow> Some (Inl (ReadError (display (source_path f)) e))
           | Inr src \<Rightarrow>
               Option.bind (ingest_document env source (document_of_source f (display (source_path f)) src) m) (\<lambda>r. case r of
                 Inl e \<Rightarrow> Some (Inl e)
               | Inr m \<Rightarrow> ingest_files env read_file display (Suc index) fs m)))"

definition load_model_files ::
    "loader_env \<Rightarrow> ('p \<Rightarrow> string + string) \<Rightarrow> ('p \<Rightarrow> string) \<Rightarrow> 'p ModelSource list \<Rightarrow> (ModelError + ModelGraph) option" where
  "load_model_files env read_file display sources =
     map_option (\<lambda>r. and_then r finish) (ingest_files env read_file display 0 sources merger_default)"

definition load_pmcd_files ::
    "loader_env \<Rightarrow> ('p \<Rightarrow> string + string) \<Rightarrow> ('p \<Rightarrow> string) \<Rightarrow> 'p list \<Rightarrow> (ModelError + ModelGraph) option" where
  "load_pmcd_files env read_file display paths = load_model_files env read_file display (map PmcdJson paths)"

definition load_pure_files ::
    "loader_env \<Rightarrow> ('p \<Rightarrow> string + string) \<Rightarrow> ('p \<Rightarrow> string) \<Rightarrow> 'p list \<Rightarrow> (ModelError + ModelGraph) option" where
  "load_pure_files env read_file display paths = load_model_files env read_file display (map PureModelFile paths)"

end
