(* ===== verification/ModelLoaderProperties.thy ===== *)
theory ModelLoaderProperties
  imports ModelLoader
begin

text \<open>
  Correctness of merging: which associations the preflight rejects, that materialization cannot fail after it and
  adds exactly the accepted ends, and what the classes of a merged graph are.
\<close>

section \<open>The preflight\<close>

definition end_key :: "string \<times> PropInfo \<Rightarrow> string \<times> string" where
  "end_key e = (fst e, prop_name (snd e))"

text \<open>An association is sound by itself when both owners exist and neither declares the property.\<close>

definition own_sound :: "classes \<Rightarrow> PreparedAssociation \<Rightarrow> bool" where
  "own_sound cs a \<longleftrightarrow>
     (\<forall>(owner, p)\<in>set (pa_ends a). \<exists>c. bt_get cs owner = Some c \<and> bt_get (ci_properties c) (prop_name p) = None)"

text \<open>The indices of the sound associations that contribute a property, once per end.\<close>

definition contributors :: "classes \<Rightarrow> PreparedAssociation list \<Rightarrow> string \<times> string \<Rightarrow> nat list" where
  "contributors cs prepared k =
     concat (map (\<lambda>i. map (\<lambda>_. i) (filter (\<lambda>e. end_key e = k) (pa_ends (prepared ! i))))
       (filter (\<lambda>i. own_sound cs (prepared ! i)) [0..<length prepared]))"

definition pmcd_count :: "PreparedAssociation list \<Rightarrow> nat list \<Rightarrow> nat" where
  "pmcd_count prepared is = length (filter (\<lambda>i. pa_provenance (prepared ! i) = Pmcd) is)"

text \<open>An end is contested when several ends contribute its property, unless its association is the only one of
  them from a compiled model.\<close>

definition contested :: "classes \<Rightarrow> PreparedAssociation list \<Rightarrow> nat \<Rightarrow> string \<times> string \<Rightarrow> bool" where
  "contested cs prepared i k \<longleftrightarrow>
     2 \<le> length (contributors cs prepared k) \<and>
     \<not> (pmcd_count prepared (contributors cs prepared k) = 1 \<and> pa_provenance (prepared ! i) = Pmcd)"

definition accepted :: "classes \<Rightarrow> PreparedAssociation list \<Rightarrow> nat \<Rightarrow> bool" where
  "accepted cs prepared i \<longleftrightarrow>
     own_sound cs (prepared ! i) \<and> (\<forall>e\<in>set (pa_ends (prepared ! i)). \<not> contested cs prepared i (end_key e))"

lemma end_failure_None:
  "end_failure cs path e = None \<longleftrightarrow>
     (\<exists>c. bt_get cs (fst e) = Some c \<and> bt_get (ci_properties c) (prop_name (snd e)) = None)"
  by (auto simp: end_failure_def bt_contains_def split: prod.splits option.splits)

lemma own_sound_iff: "own_sound cs a \<longleftrightarrow> (\<forall>e\<in>set (pa_ends a). end_failure cs (pa_path a) e = None)"
  by (auto simp: own_sound_def end_failure_None)

lemma get_or_insert_length [simp]: "length (get_or_insert i f fs) = length fs"
  by (simp add: get_or_insert_def)

lemma get_or_insert_None: "i < length fs \<Longrightarrow> get_or_insert i f fs ! j = None \<longleftrightarrow> fs ! j = None \<and> j \<noteq> i"
  by (auto simp: get_or_insert_def nth_list_update)

text \<open>Folds over failures only ever set them.\<close>

lemma fold_failures:
  assumes "\<And>x fs. x \<in> set xs \<Longrightarrow> length fs = n \<Longrightarrow> length (f x fs) = n \<and> (f x fs ! j = None \<longleftrightarrow> fs ! j = None \<and> \<not> bad x)"
    and "length fs = n"
  shows "length (fold f xs fs) = n \<and> (fold f xs fs ! j = None \<longleftrightarrow> fs ! j = None \<and> (\<forall>x\<in>set xs. \<not> bad x))"
  using assms by (induction xs arbitrary: fs) auto

lemma own_failures_None:
  assumes "j < length prepared"
  shows "length (own_failures cs prepared) = length prepared"
    "own_failures cs prepared ! j = None \<longleftrightarrow> own_sound cs (prepared ! j)"
proof -
  let ?n = "length prepared"
  let ?f = "\<lambda>(i, a) failures. fold (\<lambda>e failures. case end_failure cs (pa_path a) e of
      Some failure \<Rightarrow> get_or_insert i failure failures | None \<Rightarrow> failures) (pa_ends a) failures"
  let ?bad = "\<lambda>(i, a). j = i \<and> \<not> own_sound cs a"
  have step: "length (?f x fs) = ?n \<and> (?f x fs ! j = None \<longleftrightarrow> fs ! j = None \<and> \<not> ?bad x)"
    if x: "x \<in> set (List.enumerate 0 prepared)" and fs: "length fs = ?n" for x and fs :: "ModelErrorKind option list"
  proof -
    obtain i a where xia: "x = (i, a)" by (cases x)
    then have ia: "x = (i, a)" "i < ?n" "a = prepared ! i" using x by (auto simp: in_set_enumerate_eq)
    have "length (?f x fs) = ?n \<and> (?f x fs ! j = None \<longleftrightarrow>
        fs ! j = None \<and> (\<forall>e\<in>set (pa_ends a). \<not> (j = i \<and> end_failure cs (pa_path a) e \<noteq> None)))"
      unfolding ia(1) prod.case using fs ia(2)
      by (intro fold_failures) (auto simp: get_or_insert_None split: option.splits)
    then show ?thesis by (auto simp: ia own_sound_iff)
  qed
  have "length (own_failures cs prepared) = ?n \<and> (own_failures cs prepared ! j = None \<longleftrightarrow>
      replicate ?n None ! j = (None :: ModelErrorKind option) \<and> (\<forall>x\<in>set (List.enumerate 0 prepared). \<not> ?bad x))"
    unfolding own_failures_def by (intro fold_failures step) simp_all
  then show "length (own_failures cs prepared) = ?n" "own_failures cs prepared ! j = None \<longleftrightarrow> own_sound cs (prepared ! j)"
    using assms by (auto simp: in_set_enumerate_eq)
qed

lemma bt_get_pushes:
  "bt_ok (fold (\<lambda>(k, i). bt_push k i) xs []) \<and>
   bt_get (fold (\<lambda>(k, i). bt_push k i) xs []) k =
     (let ys = map snd (filter (\<lambda>x. fst x = k) xs) in if ys = [] then None else Some ys)"
proof (induction xs rule: rev_induct)
  case Nil
  then show ?case by (simp add: bt_ok_def bt_get_def)
next
  case (snoc x xs)
  then show ?case by (cases x) (auto simp: bt_push_ok bt_get_push Let_def)
qed

lemma fold_concat: "fold f (concat xss) s = fold (\<lambda>xs. fold f xs) xss s"
  by (induction xss arbitrary: s) simp_all

lemma association_ends_get:
  assumes "failures = own_failures cs prepared"
  shows "bt_ok (association_ends prepared failures)"
    "bt_get (association_ends prepared failures) k =
       (let ys = contributors cs prepared k in if ys = [] then None else Some ys)"
proof -
  let ?ends = "\<lambda>(i, a). if failures ! i \<noteq> None then [] else map (\<lambda>e. (end_key e, i)) (pa_ends a)"
  let ?flat = "concat (map ?ends (List.enumerate 0 prepared))"
  have inner: "fold (\<lambda>(owner, property). bt_push (owner, prop_name property) i) es m =
      fold (\<lambda>(k, i). bt_push k i) (map (\<lambda>e. (end_key e, i)) es) m" for es :: "(string \<times> PropInfo) list" and i :: nat and m
    by (induction es arbitrary: m) (auto simp: end_key_def)
  have step: "(\<lambda>(i, a) ends. if failures ! i \<noteq> None then ends
      else fold (\<lambda>(owner, property). bt_push (owner, prop_name property) i) (pa_ends a) ends) =
      (\<lambda>x. fold (\<lambda>(k, i). bt_push k i) (?ends x))"
    by (intro ext) (auto simp: inner)
  have eq: "association_ends prepared failures = fold (\<lambda>(k, i). bt_push k i) ?flat []"
    unfolding association_ends_def step by (simp add: fold_concat fold_map comp_def)
  have enum: "List.enumerate 0 prepared = map (\<lambda>i. (i, prepared ! i)) [0..<length prepared]"
    by (rule nth_equalityI) (simp_all add: nth_enumerate_eq)
  have "map snd (filter (\<lambda>x. fst x = k) ?flat) = contributors cs prepared k"
  proof -
    have "map snd (filter (\<lambda>x. fst x = k) (?ends (i, prepared ! i))) =
        (if own_sound cs (prepared ! i) then map (\<lambda>_. i) (filter (\<lambda>e. end_key e = k) (pa_ends (prepared ! i))) else [])"
      if "i < length prepared" for i
      by (cases "own_sound cs (prepared ! i)")
        (use own_failures_None(2) [OF that, of cs] in \<open>simp_all add: assms filter_map comp_def\<close>)
    then have maps: "map (\<lambda>i. map snd (filter (\<lambda>x. fst x = k) (?ends (i, prepared ! i)))) [0..<length prepared] =
        map (\<lambda>i. if own_sound cs (prepared ! i) then map (\<lambda>_. i) (filter (\<lambda>e. end_key e = k) (pa_ends (prepared ! i)))
                 else []) [0..<length prepared]" by (intro map_cong) auto
    have select: "concat (map (\<lambda>i. if P i then g i else []) is) = concat (map g (filter P is))"
      for P and g :: "nat \<Rightarrow> nat list" and "is" by (induction "is") auto
    show ?thesis
      unfolding enum contributors_def select [symmetric] using arg_cong [OF maps, of concat]
      by (simp add: filter_concat map_concat comp_def)
  qed
  then show "bt_ok (association_ends prepared failures)" "bt_get (association_ends prepared failures) k =
       (let ys = contributors cs prepared k in if ys = [] then None else Some ys)"
    using bt_get_pushes [of ?flat k] unfolding eq by (auto simp: Let_def)
qed

lemma contributor_iff:
  "i \<in> set (contributors cs prepared k) \<longleftrightarrow>
     i < length prepared \<and> own_sound cs (prepared ! i) \<and> k \<in> end_key ` set (pa_ends (prepared ! i))"
  by (auto simp: contributors_def)

lemma preflight_None:
  assumes "i < length prepared"
  shows "length (preflight_association_failures cs prepared) = length prepared"
    "preflight_association_failures cs prepared ! i = None \<longleftrightarrow> accepted cs prepared i"
proof -
  let ?n = "length prepared" and ?own = "own_failures cs prepared"
  let ?ends = "association_ends prepared ?own"
  let ?bad = "\<lambda>(k, is). i \<in> set is \<and> 2 \<le> length is \<and> \<not> (pmcd_count prepared is = 1 \<and> pa_provenance (prepared ! i) = Pmcd)"
  note get = association_ends_get(2) [OF refl, where cs = cs and prepared = prepared]
    and ok = association_ends_get(1) [OF refl, where cs = cs and prepared = prepared]
  have entry: "(k, is) \<in> set ?ends \<longleftrightarrow> is = contributors cs prepared k \<and> is \<noteq> []" for k "is"
    using bt_get_in_set [OF ok] get by (auto simp: Let_def split: if_splits)
  have step: "length (fail_contributors prepared x fs) = ?n \<and>
      (fail_contributors prepared x fs ! i = None \<longleftrightarrow> fs ! i = None \<and> \<not> ?bad x)"
    if x: "x \<in> set ?ends" and fs: "length fs = ?n" for x and fs :: "ModelErrorKind option list"
  proof -
    obtain owner name "is" where xk: "x = ((owner, name), is)" by (metis surj_pair)
    have "is = contributors cs prepared (owner, name)" using x xk entry by simp
    then have bound: "\<forall>j\<in>set is. j < ?n" using contributor_iff by blast
    let ?f = "\<lambda>j failures. if pmcd_count prepared is = 1 \<and> pa_provenance (prepared ! j) = Pmcd then failures
        else get_or_insert j (AssociationPropertyConflict (pa_path (prepared ! j)) owner name) failures"
    have "length (fold ?f is fs) = ?n \<and> (fold ?f is fs ! i = None \<longleftrightarrow>
        fs ! i = None \<and> (\<forall>j\<in>set is. \<not> (j = i \<and> \<not> (pmcd_count prepared is = 1 \<and> pa_provenance (prepared ! j) = Pmcd))))"
      using fs bound by (intro fold_failures) (auto simp: get_or_insert_None)
    then show ?thesis using fs by (auto simp: fail_contributors_def xk pmcd_count_def Let_def)
  qed
  have "length (preflight_association_failures cs prepared) = ?n \<and>
      (preflight_association_failures cs prepared ! i = None \<longleftrightarrow> ?own ! i = None \<and> (\<forall>x\<in>set ?ends. \<not> ?bad x))"
    unfolding preflight_association_failures_def Let_def
    by (intro fold_failures step) (simp_all add: own_failures_None(1) [OF assms])
  moreover have "(\<forall>x\<in>set ?ends. \<not> ?bad x) \<longleftrightarrow> (\<forall>e\<in>set (pa_ends (prepared ! i)). \<not> contested cs prepared i (end_key e))"
    if "own_sound cs (prepared ! i)"
  proof -
    have "(\<forall>x\<in>set ?ends. \<not> ?bad x) \<longleftrightarrow> (\<forall>k. i \<in> set (contributors cs prepared k) \<longrightarrow> \<not> contested cs prepared i k)"
      using entry by (fastforce simp: contested_def)
    also have "\<dots> \<longleftrightarrow> (\<forall>e\<in>set (pa_ends (prepared ! i)). \<not> contested cs prepared i (end_key e))"
      using that assms by (simp add: contributor_iff del: split_paired_All) blast
    finally show ?thesis .
  qed
  ultimately show "length (preflight_association_failures cs prepared) = ?n"
    "preflight_association_failures cs prepared ! i = None \<longleftrightarrow> accepted cs prepared i"
    using own_failures_None(2) [OF assms, of cs] by (auto simp: accepted_def)
qed


section \<open>Materialization\<close>

definition accepted_associations :: "classes \<Rightarrow> PreparedAssociation list \<Rightarrow> PreparedAssociation list" where
  "accepted_associations cs prepared = map ((!) prepared) (filter (accepted cs prepared) [0..<length prepared])"

definition accepted_ends :: "classes \<Rightarrow> PreparedAssociation list \<Rightarrow> (string \<times> PropInfo) list" where
  "accepted_ends cs prepared = concat (map pa_ends (accepted_associations cs prepared))"

lemma distinct_if_single: "(\<And>k. length (filter (\<lambda>x. x = k) xs) \<le> 1) \<Longrightarrow> distinct xs"
proof (induction xs)
  case (Cons x xs)
  have "filter (\<lambda>y. y = x) xs = []" using Cons.prems [of x] by simp
  moreover have "length (filter (\<lambda>y. y = k) xs) \<le> 1" for k using Cons.prems [of k] by (simp split: if_splits)
  ultimately show ?case using Cons.IH by (auto simp: filter_empty_conv)
qed simp

lemma length_concat_filter_le:
  "(\<And>x. P x \<Longrightarrow> Q x) \<Longrightarrow> length (concat (map f (filter P xs))) \<le> length (concat (map f (filter Q xs)))"
  by (induction xs) auto

text \<open>The accepted ends contribute pairwise different properties.\<close>

lemma accepted_ends_distinct: "distinct (map end_key (accepted_ends cs prepared))"
proof (rule distinct_if_single)
  fix k
  let ?at = "\<lambda>i. map (\<lambda>_. i) (filter (\<lambda>e. end_key e = k) (pa_ends (prepared ! i)))"
  let ?acc = "concat (map ?at (filter (accepted cs prepared) [0..<length prepared]))"
  have len: "length (filter (\<lambda>x. x = k) (map end_key (accepted_ends cs prepared))) = length ?acc"
    unfolding accepted_ends_def accepted_associations_def
    by (simp add: filter_map filter_concat map_concat comp_def length_concat)
  show "length (filter (\<lambda>x. x = k) (map end_key (accepted_ends cs prepared))) \<le> 1"
  proof (rule ccontr)
    assume "\<not> ?thesis"
    then have two: "2 \<le> length ?acc" using len by simp
    moreover have "length ?acc \<le> length (contributors cs prepared k)"
      unfolding contributors_def by (rule length_concat_filter_le) (simp add: accepted_def)
    ultimately have many: "2 \<le> length (contributors cs prepared k)" by simp
    have each: "pmcd_count prepared (contributors cs prepared k) = 1 \<and> pa_provenance (prepared ! i) = Pmcd"
      if "i \<in> set ?acc" for i
    proof -
      have "accepted cs prepared i" "k \<in> end_key ` set (pa_ends (prepared ! i))" using that by auto
      then show ?thesis using many by (auto simp: accepted_def contested_def)
    qed
    obtain i where "i \<in> set ?acc" using two by (cases ?acc) auto
    then have one: "pmcd_count prepared (contributors cs prepared k) = 1" using each by blast
    have "filter (\<lambda>i. pa_provenance (prepared ! i) = Pmcd) ?acc = ?acc" using each by (intro filter_True) blast
    then have "length ?acc = length (filter (\<lambda>i. pa_provenance (prepared ! i) = Pmcd) ?acc)" by simp
    also have "\<dots> = length (concat (map (filter (\<lambda>i. pa_provenance (prepared ! i) = Pmcd) \<circ> ?at)
        (filter (accepted cs prepared) [0..<length prepared])))" by (simp add: filter_concat)
    also have "\<dots> \<le> length (concat (map (filter (\<lambda>i. pa_provenance (prepared ! i) = Pmcd) \<circ> ?at)
        (filter (\<lambda>i. own_sound cs (prepared ! i)) [0..<length prepared])))"
      by (rule length_concat_filter_le) (simp add: accepted_def)
    also have "\<dots> = pmcd_count prepared (contributors cs prepared k)"
      by (simp add: pmcd_count_def contributors_def filter_concat)
    finally show False using one two by simp
  qed
qed

definition classes_ok :: "classes \<Rightarrow> bool" where
  "classes_ok cs \<longleftrightarrow> bt_ok cs \<and> (\<forall>(path, c)\<in>set cs. ci_path c = path \<and> class_ok c)"

lemma classes_ok_get: "classes_ok cs \<Longrightarrow> bt_get cs path = Some c \<Longrightarrow> ci_path c = path \<and> class_ok c"
  unfolding classes_ok_def using bt_get_in_set by fastforce

lemma classes_ok_insert: "classes_ok cs \<Longrightarrow> class_ok c \<Longrightarrow> ci_path c = path \<Longrightarrow> classes_ok (bt_insert path c cs)"
  unfolding classes_ok_def using bt_insert_ok bt_insert_set by fastforce

lemma class_ok_property:
  "class_ok c \<Longrightarrow> class_ok (c\<lparr>ci_properties := bt_insert (prop_name p) p (ci_properties c)\<rparr>)"
  unfolding class_ok_def using bt_insert_ok bt_insert_set by fastforce

text \<open>Adding an end to its owner.\<close>

definition with_end :: "string \<times> PropInfo \<Rightarrow> ClassInfo \<Rightarrow> ClassInfo" where
  "with_end e c = c\<lparr>ci_properties := bt_insert (prop_name (snd e)) (snd e) (ci_properties c)\<rparr>"

definition add_end :: "string \<times> PropInfo \<Rightarrow> classes \<Rightarrow> classes" where
  "add_end e cs = (case bt_get cs (fst e) of None \<Rightarrow> cs | Some c \<Rightarrow> bt_insert (fst e) (with_end e c) cs)"

definition fresh_end :: "classes \<Rightarrow> string \<times> PropInfo \<Rightarrow> bool" where
  "fresh_end cs e \<longleftrightarrow> (\<exists>c. bt_get cs (fst e) = Some c \<and> bt_get (ci_properties c) (prop_name (snd e)) = None)"

lemma own_sound_fresh: "own_sound cs a \<longleftrightarrow> (\<forall>e\<in>set (pa_ends a). fresh_end cs e)"
  by (auto simp: own_sound_def fresh_end_def)

lemma with_end_sel [simp]: "ci_path (with_end e c) = ci_path c" "coverage_gap (with_end e c) = coverage_gap c"
  "ci_properties (with_end e c) = bt_insert (prop_name (snd e)) (snd e) (ci_properties c)"
  by (simp_all add: with_end_def)

lemma add_end_ok: "classes_ok cs \<Longrightarrow> classes_ok (add_end e cs)"
  using classes_ok_get [of cs "fst e"]
  by (auto simp: add_end_def with_end_def class_ok_property intro!: classes_ok_insert split: option.splits)

lemma add_end_get:
  assumes "classes_ok cs"
  shows "bt_get (add_end e cs) path = map_option (if fst e = path then with_end e else (\<lambda>c. c)) (bt_get cs path)"
  using assms by (auto simp: add_end_def classes_ok_def bt_get_insert option.map_id0 [unfolded id_def] split: option.splits)

lemma add_end_fresh:
  assumes "classes_ok cs" "fresh_end cs e'" "end_key e' \<noteq> end_key e"
  shows "fresh_end (add_end e cs) e'"
proof -
  obtain c where c: "bt_get cs (fst e') = Some c" "bt_get (ci_properties c) (prop_name (snd e')) = None"
    using assms(2) by (auto simp: fresh_end_def)
  have "bt_ok (ci_properties c)" using classes_ok_get [OF assms(1) c(1)] by (simp add: class_ok_def)
  with c assms show ?thesis
    by (auto simp: fresh_end_def add_end_get bt_get_insert end_key_def prod_eq_iff)
qed

lemma insert_end_fresh:
  "fresh_end cs (owner, p) \<Longrightarrow> insert_association_end source owner p path cs = Inr (add_end (owner, p) cs)"
  by (auto simp: insert_association_end_def fresh_end_def add_end_def with_end_def)

lemma materialize_prepared:
  assumes "classes_ok cs" "\<And>e. e \<in> set (pa_ends a) \<Longrightarrow> fresh_end cs e" "distinct (map end_key (pa_ends a))"
  shows "materialize_prepared_association a cs = Inr (fold add_end (pa_ends a) cs, assoc_of_prepared a)"
proof -
  let ?e1 = "(pa_first_owner a, pa_first a)" and ?e2 = "(pa_second_owner a, pa_second a)"
  have "fresh_end cs ?e1" "fresh_end (add_end ?e1 cs) ?e2"
    using assms add_end_fresh [of cs ?e2 ?e1] by (auto simp: pa_ends_def)
  then show ?thesis
    by (simp add: materialize_prepared_association_def and_then_def insert_end_fresh pa_ends_def)
qed

lemma fold_add_end_ok: "classes_ok cs \<Longrightarrow> classes_ok (fold add_end es cs)"
  by (induction es arbitrary: cs) (simp_all add: add_end_ok)

lemma fold_add_end_get:
  "classes_ok cs \<Longrightarrow> bt_get (fold add_end es cs) path = map_option (fold with_end (filter (\<lambda>e. fst e = path) es)) (bt_get cs path)"
proof (induction es arbitrary: cs)
  case (Cons e es)
  then show ?case by (cases "bt_get cs path") (simp_all add: add_end_ok add_end_get)
qed (simp add: option.map_id)

lemma fold_add_end_fresh:
  "classes_ok cs \<Longrightarrow> fresh_end cs e \<Longrightarrow> end_key e \<notin> end_key ` set es \<Longrightarrow> fresh_end (fold add_end es cs) e"
  by (induction es arbitrary: cs) (simp_all add: add_end_ok add_end_fresh)

text \<open>The outcome of materializing associations with their preflight results.\<close>

definition materialized ::
    "(PreparedAssociation \<times> ModelErrorKind option) list \<Rightarrow> AssociationMaterialization \<Rightarrow> AssociationMaterialization" where
  "materialized xs m =
     (let good = map fst (filter (\<lambda>x. snd x = None) xs)
      in \<lparr>am_classes = fold add_end (concat (map pa_ends good)) (am_classes m),
          am_associations = am_associations m @ map assoc_of_prepared good,
          am_diagnostics = am_diagnostics m @
            map (\<lambda>(a, f). pure_association_diagnostic a (the f)) (filter (\<lambda>x. snd x \<noteq> None) xs),
          am_gap = (am_gap m \<or> (\<exists>x\<in>set xs. snd x \<noteq> None))\<rparr>)"

lemma materialized_Cons:
  "materialized ((a, Some failure) # xs) m =
     materialized xs (m\<lparr>am_gap := True, am_diagnostics := am_diagnostics m @ [pure_association_diagnostic a failure]\<rparr>)"
  "materialized ((a, None) # xs) m =
     materialized xs (m\<lparr>am_classes := fold add_end (pa_ends a) (am_classes m),
       am_associations := am_associations m @ [assoc_of_prepared a]\<rparr>)"
  by (simp_all add: materialized_def Let_def)

lemma materialize_step_simps:
  "materialize_step (a, Some failure) m =
     Inr (m\<lparr>am_gap := True, am_diagnostics := am_diagnostics m @ [pure_association_diagnostic a failure]\<rparr>)"
  "materialize_step (a, None) m =
     map_sum (\<lambda>e. e) (\<lambda>(cs, info). m\<lparr>am_classes := cs, am_associations := am_associations m @ [info]\<rparr>)
       (materialize_prepared_association a (am_classes m))"
  by (simp_all add: materialize_step_def)

lemma fold_materialize:
  assumes "classes_ok (am_classes m)"
    and "\<And>a e. (a, None) \<in> set xs \<Longrightarrow> e \<in> set (pa_ends a) \<Longrightarrow> fresh_end (am_classes m) e"
    and "distinct (map end_key (concat (map pa_ends (map fst (filter (\<lambda>x. snd x = None) xs)))))"
  shows "fold_result materialize_step xs m = Inr (materialized xs m)"
  using assms
proof (induction xs arbitrary: m)
  case Nil
  then show ?case by (simp add: materialized_def)
next
  case (Cons x xs)
  obtain a f where x: "x = (a, f)" by (cases x)
  show ?case
  proof (cases f)
    case (Some failure)
    have "fold_result materialize_step xs
        (m\<lparr>am_gap := True, am_diagnostics := am_diagnostics m @ [pure_association_diagnostic a failure]\<rparr>) =
        Inr (materialized (x # xs) m)"
      unfolding x Some materialized_Cons using Cons.prems by (intro Cons.IH) (auto simp: x Some)
    then show ?thesis by (simp add: x Some materialize_step_simps)
  next
    case None
    let ?m = "m\<lparr>am_classes := fold add_end (pa_ends a) (am_classes m), am_associations := am_associations m @ [assoc_of_prepared a]\<rparr>"
    let ?rest = "concat (map pa_ends (map fst (filter (\<lambda>x. snd x = None) xs)))"
    have fresh: "fresh_end (am_classes m) e" if "e \<in> set (pa_ends a)" for e
      using Cons.prems(2) [of a e] that by (simp add: x None)
    have dist: "distinct (map end_key (pa_ends a))" "distinct (map end_key ?rest)"
      and apart: "end_key ` set (pa_ends a) \<inter> end_key ` set ?rest = {}"
      using Cons.prems(3) by (simp_all add: x None)
    have "fresh_end (am_classes ?m) e" if "(b, None) \<in> set xs" "e \<in> set (pa_ends b)" for b e
    proof -
      have "e \<in> set ?rest" using that by force
      then have "end_key e \<notin> end_key ` set (pa_ends a)" using apart by blast
      then show ?thesis using Cons.prems(2) [of b e] Cons.prems(1) that by (simp add: fold_add_end_fresh)
    qed
    then have "fold_result materialize_step xs ?m = Inr (materialized xs ?m)"
      using Cons.prems(1) dist(2) by (intro Cons.IH) (simp_all add: fold_add_end_ok)
    then show ?thesis
      using materialize_prepared [OF Cons.prems(1) fresh dist(1)] by (simp add: x None materialize_step_simps materialized_Cons)
  qed
qed


lemma zip_nth: "length ys = length xs \<Longrightarrow> zip xs ys = map (\<lambda>i. (xs ! i, ys ! i)) [0..<length xs]"
  by (rule nth_equalityI) simp_all

lemma preflight_zip:
  "zip prepared (preflight_association_failures cs prepared) =
     map (\<lambda>i. (prepared ! i, preflight_association_failures cs prepared ! i)) [0..<length prepared]"
proof (cases prepared)
  case (Cons a list)
  then have "length (preflight_association_failures cs prepared) = length prepared"
    using preflight_None(1) [of 0 prepared cs] by simp
  then show ?thesis by (rule zip_nth)
qed simp

lemma accepted_zip:
  "map fst (filter (\<lambda>x. snd x = None) (zip prepared (preflight_association_failures cs prepared))) =
     accepted_associations cs prepared"
proof -
  have "filter (\<lambda>i. preflight_association_failures cs prepared ! i = None) [0..<length prepared] =
      filter (accepted cs prepared) [0..<length prepared]" by (intro filter_cong) (simp_all add: preflight_None(2))
  then show ?thesis by (simp add: preflight_zip accepted_associations_def filter_map comp_def)
qed

definition pmcd_accepted :: "classes \<Rightarrow> PreparedAssociation list \<Rightarrow> bool" where
  "pmcd_accepted cs prepared \<longleftrightarrow>
     (\<forall>i<length prepared. pa_provenance (prepared ! i) = Pmcd \<longrightarrow> accepted cs prepared i)"

lemma materialize_accepted:
  assumes "classes_ok cs"
  shows "fold_result materialize_step (zip prepared (preflight_association_failures cs prepared))
      \<lparr>am_classes = cs, am_associations = [], am_diagnostics = [], am_gap = False\<rparr> =
    Inr (materialized (zip prepared (preflight_association_failures cs prepared))
      \<lparr>am_classes = cs, am_associations = [], am_diagnostics = [], am_gap = False\<rparr>)"
proof (rule fold_materialize)
  show "fresh_end (am_classes \<lparr>am_classes = cs, am_associations = [], am_diagnostics = [], am_gap = False\<rparr>) e"
    if "(a, None) \<in> set (zip prepared (preflight_association_failures cs prepared))" "e \<in> set (pa_ends a)" for a e
  proof -
    from that(1) obtain i where i: "i < length prepared"
      "(a, None) = (prepared ! i, preflight_association_failures cs prepared ! i)"
      unfolding preflight_zip set_map by (elim imageE) simp
    then have "a = prepared ! i" "preflight_association_failures cs prepared ! i = None" by simp_all
    with i(1) show ?thesis using that(2) by (simp add: preflight_None(2) accepted_def own_sound_fresh)
  qed
  show "distinct (map end_key (concat (map pa_ends (map fst (filter (\<lambda>x. snd x = None)
      (zip prepared (preflight_association_failures cs prepared)))))))"
    unfolding accepted_zip using accepted_ends_distinct [of cs prepared] by (simp add: accepted_ends_def)
qed (simp add: assms)

lemma materialize_Inr:
  assumes "classes_ok cs" "prepared = map prepared_from_draft drafts" "pmcd_accepted cs prepared"
  obtains m where "materialize_associations cs drafts = Inr m"
    "am_classes m = fold add_end (accepted_ends cs prepared) cs"
    "am_associations m = map assoc_of_prepared (accepted_associations cs prepared)"
    "length (am_diagnostics m) + length (am_associations m) = length prepared"
    "am_gap m \<longleftrightarrow> (\<exists>i<length prepared. \<not> accepted cs prepared i)"
    "\<forall>d\<in>set (am_diagnostics m). diag_code d = UnresolvedModelAssociation"
proof -
  let ?xs = "zip prepared (preflight_association_failures cs prepared)"
  let ?m = "materialized ?xs \<lparr>am_classes = cs, am_associations = [], am_diagnostics = [], am_gap = False\<rparr>"
  have "find (\<lambda>(a, failure). pa_provenance a = Pmcd \<and> failure \<noteq> None) ?xs = None"
    using assms(3) by (auto simp: find_None_iff preflight_zip pmcd_accepted_def preflight_None(2) [symmetric])
  then have run: "materialize_associations cs drafts = Inr ?m"
    using materialize_accepted [OF assms(1), of prepared] by (simp add: materialize_associations_def assms(2) Let_def)
  have sum: "length (filter (\<lambda>x. snd x \<noteq> None) ?xs) + length (accepted_associations cs prepared) = length prepared"
    using sum_length_filter_compl [of "\<lambda>x. snd x = None" ?xs] accepted_zip [of prepared cs]
    by (metis (no_types, lifting) add.commute length_map map_nth preflight_zip)
  have gap: "(\<exists>x\<in>set ?xs. snd x \<noteq> None) \<longleftrightarrow> (\<exists>i<length prepared. \<not> accepted cs prepared i)"
    unfolding preflight_zip by (auto simp: preflight_None(2) [symmetric])
  show thesis
    using that [OF run] sum gap
    by (auto simp: materialized_def Let_def accepted_zip accepted_ends_def pure_association_diagnostic_def diag_simps)
qed

lemma materialize_Inl:
  assumes "prepared = map prepared_from_draft drafts" "\<not> pmcd_accepted cs prepared"
  obtains i kind where "i < length prepared" "pa_provenance (prepared ! i) = Pmcd" "\<not> accepted cs prepared i"
    "\<And>j. j < i \<Longrightarrow> pa_provenance (prepared ! j) = Pmcd \<Longrightarrow> accepted cs prepared j"
    "materialize_associations cs drafts = Inl (InvalidMergedGraph (pa_source (prepared ! i)) kind)"
proof -
  let ?fs = "preflight_association_failures cs prepared"
  let ?P = "\<lambda>(a, failure). pa_provenance a = Pmcd \<and> failure \<noteq> None"
  obtain k where "k < length prepared" "pa_provenance (prepared ! k) = Pmcd" "\<not> accepted cs prepared k"
    using assms(2) by (auto simp: pmcd_accepted_def)
  then have "find ?P (zip prepared ?fs) \<noteq> None"
    by (auto simp: find_None_iff preflight_zip preflight_None(2) [symmetric])
  then obtain x where x: "find ?P (zip prepared ?fs) = Some x" by blast
  then obtain i where i: "i < length (zip prepared ?fs)" "?P (zip prepared ?fs ! i)" "x = zip prepared ?fs ! i"
    "\<And>j. j < i \<Longrightarrow> \<not> ?P (zip prepared ?fs ! j)" by (auto simp: find_Some_iff)
  have nth: "zip prepared ?fs ! j = (prepared ! j, ?fs ! j)" if "j \<le> i" for j using that i(1) by simp
  show thesis
  proof (rule that [of i "the (?fs ! i)"])
    show "i < length prepared" using i(1) by simp
    then show "pa_provenance (prepared ! i) = Pmcd" "\<not> accepted cs prepared i"
      using i(2) nth [of i] by (simp_all add: preflight_None(2) [symmetric])
    show "accepted cs prepared j" if "j < i" "pa_provenance (prepared ! j) = Pmcd" for j
      using i(4) [OF that(1)] nth [of j] that i(1) by (simp add: preflight_None(2) [symmetric])
    show "materialize_associations cs drafts = Inl (InvalidMergedGraph (pa_source (prepared ! i)) (the (?fs ! i)))"
      using x i(3) nth [of i] by (simp add: materialize_associations_def assms(1) [symmetric] merged_graph_error_def)
  qed
qed

text \<open>C9: Materialization fails exactly when an association of a compiled model is unacceptable, with the source of
  the first one. Otherwise it never fails: it materializes exactly the acceptable associations, in order, reports every
  other one, asks for coverage gaps exactly when one was left out, and changes nothing in the classes but that each
  gains the accepted ends it owns. An association is acceptable when both owners exist without declaring its
  properties and no other sound association contributes them, unless it is the only one of those that is compiled.\<close>

theorem materialization_exact:
  assumes "classes_ok cs" and "prepared = map prepared_from_draft drafts"
  shows "case materialize_associations cs drafts of
      Inl e \<Rightarrow> \<exists>i<length prepared. pa_provenance (prepared ! i) = Pmcd \<and> \<not> accepted cs prepared i \<and>
        (\<forall>j<i. pa_provenance (prepared ! j) = Pmcd \<longrightarrow> accepted cs prepared j) \<and>
        (\<exists>kind. e = InvalidMergedGraph (pa_source (prepared ! i)) kind)
    | Inr m \<Rightarrow> pmcd_accepted cs prepared \<and>
        am_associations m = map assoc_of_prepared (accepted_associations cs prepared) \<and>
        length (am_diagnostics m) + length (am_associations m) = length prepared \<and>
        (am_gap m \<longleftrightarrow> (\<exists>i<length prepared. \<not> accepted cs prepared i)) \<and>
        (\<forall>path. bt_get (am_classes m) path =
           map_option (fold with_end (filter (\<lambda>e. fst e = path) (accepted_ends cs prepared))) (bt_get cs path))"
proof (cases "pmcd_accepted cs prepared")
  case True
  obtain m where "materialize_associations cs drafts = Inr m" "am_classes m = fold add_end (accepted_ends cs prepared) cs"
    "am_associations m = map assoc_of_prepared (accepted_associations cs prepared)"
    "length (am_diagnostics m) + length (am_associations m) = length prepared"
    "am_gap m \<longleftrightarrow> (\<exists>i<length prepared. \<not> accepted cs prepared i)"
    by (rule materialize_Inr [OF assms True])
  then show ?thesis using True fold_add_end_get [OF assms(1)] by simp
next
  case False
  obtain i kind where "i < length prepared" "pa_provenance (prepared ! i) = Pmcd" "\<not> accepted cs prepared i"
    "\<And>j. j < i \<Longrightarrow> pa_provenance (prepared ! j) = Pmcd \<Longrightarrow> accepted cs prepared j"
    "materialize_associations cs drafts = Inl (InvalidMergedGraph (pa_source (prepared ! i)) kind)"
    using materialize_Inl [OF assms(2) False] by blast
  then show ?thesis by auto
qed

end
