(* ===== verification/MergedModels.thy ===== *)
theory MergedModels
  imports ModelLoaderProperties ResolverProperties DomainProperties
begin

text \<open>
  The graphs the loader builds: every source contributes well-formed elements, later sources win, and the merged
  graph is consistent, so that the resolver never meets a violated invariant.
\<close>

section \<open>Elements of compiled models\<close>

lemma fold_result_invariant:
  assumes "\<And>x s s'. x \<in> set xs \<Longrightarrow> P s \<Longrightarrow> f x s = Inr s' \<Longrightarrow> P s'" "P s" "fold_result f xs s = Inr s'"
  shows "P s'"
  using assms
proof (induction xs arbitrary: s)
  case (Cons x xs)
  then obtain s1 where "f x s = Inr s1" "fold_result f xs s1 = Inr s'" by (auto simp: propagate)
  with Cons show ?case by (metis list.set_intros)
qed simp

lemma and_then_Inr_iff: "and_then r f = Inr b \<longleftrightarrow> (\<exists>a. r = Inr a \<and> f a = Inr b)"
  by (cases r) (simp_all add: and_then_def)

lemma map_err_Inr [simp]: "map_err f r = Inr a \<longleftrightarrow> r = Inr a"
  by (cases r) (simp_all add: map_err_def)

text \<open>The members of a class while it is read: under their own names, none from an association.\<close>

definition properties_ok :: "(string, PropInfo) btree_map \<Rightarrow> bool" where
  "properties_ok m \<longleftrightarrow> bt_ok m \<and> (\<forall>(n, p)\<in>set m. prop_name p = n \<and> prop_association p = None)"

definition qualified_ok :: "(string, QpInfo) btree_map \<Rightarrow> bool" where
  "qualified_ok m \<longleftrightarrow> bt_ok m \<and> (\<forall>(n, q)\<in>set m. qp_name q = n)"

lemma members_ok_empty [simp]: "properties_ok []" "qualified_ok []"
  by (simp_all add: properties_ok_def qualified_ok_def bt_ok_def)

lemma properties_ok_insert:
  "properties_ok m \<Longrightarrow> prop_name p = n \<Longrightarrow> prop_association p = None \<Longrightarrow> properties_ok (bt_insert n p m)"
  unfolding properties_ok_def using bt_insert_ok bt_insert_set by fastforce

lemma qualified_ok_insert: "qualified_ok m \<Longrightarrow> qp_name q = n \<Longrightarrow> qualified_ok (bt_insert n q m)"
  unfolding qualified_ok_def using bt_insert_ok bt_insert_set by fastforce

lemma properties_ok_remove: "properties_ok m \<Longrightarrow> properties_ok (bt_remove n m)"
  unfolding properties_ok_def using bt_remove_ok by (fastforce simp: bt_remove_def)

lemma qualified_ok_remove: "qualified_ok m \<Longrightarrow> qualified_ok (bt_remove n m)"
  unfolding qualified_ok_def using bt_remove_ok by (fastforce simp: bt_remove_def)

lemma raw_property_association: "raw_lower_property raw = Inr p \<Longrightarrow> prop_association p = None"
  by (auto simp: raw_lower_property_def and_then_Inr_iff prop_declared_def)

lemma lower_properties_ok: "lower_properties c raws = Inr m \<Longrightarrow> properties_ok m"
  unfolding lower_properties_def
  by (erule fold_result_invariant [where P = properties_ok, rotated 2])
    (auto simp: and_then_Inr_iff raw_property_association intro: properties_ok_insert split: if_splits)

lemma lower_qualified_ok: "lower_qualified_properties c raws = Inr m \<Longrightarrow> qualified_ok m"
  unfolding lower_qualified_properties_def
  by (erule fold_result_invariant [where P = qualified_ok, rotated 2])
    (auto simp: and_then_Inr_iff intro: qualified_ok_insert split: if_splits)

lemma class_element_ok:
  assumes "properties_ok (ci_properties c)" "qualified_ok (ci_qualified c)"
  shows "element_ok (FragmentClass c)"
  using assms by (fastforce simp: properties_ok_def qualified_ok_def class_ok_def)

lemma raw_class_ok: "raw_lower_class raw source = Inr c \<Longrightarrow> element_ok (FragmentClass c)"
  by (rule class_element_ok)
    (auto simp: raw_lower_class_def and_then_Inr_iff class_info_new_def dest!: lower_properties_ok lower_qualified_ok)

lemma lowered_class_ok:
  "lower_class_element env name i v source = Inr (path, e) \<Longrightarrow> element_path e = path \<and> element_ok e"
  by (auto simp: lower_class_element_def and_then_Inr_iff dest: raw_class_ok simp del: element_ok.simps(1))

lemma lowered_association_ok:
  "lower_association_element env name i v source = Inr (path, e) \<Longrightarrow> element_path e = path \<and> element_ok e"
  by (auto simp: lower_association_element_def and_then_Inr_iff)

lemma lower_element_ok:
  assumes ok: "elements_ok es" and step: "lower_element env name source x es = Inr es'"
  shows "elements_ok es'"
proof -
  obtain i v where x: "x = (i, v)" by (cases x)
  obtain kind n where n: "(if kind = CLASS_TYPE then map_sum (\<lambda>e. e) Some (lower_class_element env name i v source)
        else if kind = ASSOCIATION_TYPE then map_sum (\<lambda>e. e) Some (lower_association_element env name i v source)
        else Inr None) = Inr n"
    "(case n of None \<Rightarrow> Inr es | Some (path, normalized) \<Rightarrow>
        if bt_get es path \<noteq> None then Inl (InvalidElement name i kind (DuplicateElement path))
        else Inr (bt_insert path normalized es)) = Inr es'"
    using step unfolding lower_element_def x prod.case and_then_Inr_iff by blast
  show ?thesis
  proof (cases n)
    case None
    then show ?thesis using n(2) ok by simp
  next
    case (Some r)
    obtain path e where r: "r = (path, e)" by (cases r)
    have "element_path e = path \<and> element_ok e"
      using n(1) unfolding Some r
      by (auto simp: map_sum_Inr_iff split: if_splits dest: lowered_class_ok lowered_association_ok)
    then show ?thesis using n(2) ok unfolding Some r by (auto intro: elements_ok_insert split: if_splits)
  qed
qed

lemma lower_elements_ok: "lower_elements env name values source = Inr es \<Longrightarrow> elements_ok es"
  unfolding lower_elements_def
  by (erule fold_result_invariant [where P = elements_ok, rotated 2]) (simp_all add: lower_element_ok)

lemma parse_document_ok:
  assumes "parse_document env name json source = Inr es"
  shows "elements_ok es"
proof -
  obtain document where "(case as_object document of
         None \<Rightarrow> Inl (InvalidDocument name ''top level must be an object'')
       | Some entries \<Rightarrow>
           and_then (validate_document_type name (bt_get entries ''_type'')) (\<lambda>_.
             case Option.bind (bt_get entries ''elements'') as_array of
               None \<Rightarrow> Inl (InvalidDocument name ''`elements` must be an array'')
             | Some values \<Rightarrow> lower_elements env name values source)) = Inr es"
    using assms unfolding parse_document_def and_then_Inr_iff by blast
  then show ?thesis
    by (cases "as_object document")
      (auto simp: and_then_Inr_iff lower_elements_ok split: option.splits)
qed


section \<open>Elements of Pure sources\<close>

definition members_ok :: "ClassMemberFacts \<Rightarrow> bool" where
  "members_ok m \<longleftrightarrow> properties_ok (cm_properties m) \<and> qualified_ok (cm_qualified m)"

lemma lower_property_sel:
  "lower_property node = Some p \<Longrightarrow> direct_name node = Some (prop_name p) \<and> prop_association p = None"
  by (auto simp: lower_property_def bind_eq_Some_conv prop_with_span_def prop_declared_def)

lemma lower_qualified_sel: "lower_qualified_property node a ctx = Some q \<Longrightarrow> direct_name node = Some (qp_name q)"
  by (auto simp: lower_qualified_property_def bind_eq_Some_conv qp_new_def Let_def)

lemma insert_property_ok: "members_ok m \<Longrightarrow> members_ok (fst (insert_property m node c ctx))"
  by (auto simp: insert_property_def members_ok_def Let_def properties_ok_remove
      intro!: properties_ok_insert dest: lower_property_sel split: option.splits)

lemma insert_qualified_ok: "members_ok m \<Longrightarrow> members_ok (fst (insert_qualified_property m node a c ctx))"
  by (auto simp: insert_qualified_property_def members_ok_def Let_def qualified_ok_remove
      intro!: qualified_ok_insert dest: lower_qualified_sel split: option.splits)

lemma fold_invariant_set: "(\<And>x s. x \<in> set xs \<Longrightarrow> P s \<Longrightarrow> P (f x s)) \<Longrightarrow> P s \<Longrightarrow> P (fold f xs s)"
  by (induction xs arbitrary: s) auto

lemma lower_member_ok: "members_ok (fst st) \<Longrightarrow> members_ok (fst (lower_member c ctx node st))"
  using insert_property_ok insert_qualified_ok
  by (auto simp: lower_member_def split: prod.splits) (metis fst_conv)+

lemma class_members_ok: "members_ok (fst (lower_class_members node c i ctx))"
proof -
  have "members_ok (fst (fold (lower_member c ctx) ns (members_default, annotation_default, False)))" for ns
    by (rule fold_invariant_set) (simp_all add: lower_member_ok, simp add: members_ok_def members_default_def)
  then show ?thesis by (auto simp: lower_class_members_def split: prod.splits) (metis fst_conv)
qed

lemma lower_class_ok:
  assumes "lower_class node ctx = Some (c, ds)"
  shows "element_ok (FragmentClass c)"
proof -
  obtain path i where path: "declaration_path node = Some (path, i)"
    using assms by (auto simp: lower_class_def bind_eq_Some_conv)
  obtain members uncertain where m: "lower_class_members node path i ctx = (members, uncertain)" by fastforce
  have "ci_properties c = cm_properties members" "ci_qualified c = cm_qualified members"
    using assms by (auto simp: lower_class_def path m Let_def class_info_from_pure_def class_info_new_def
        mark_coverage_gap_def split: prod.splits if_splits)
  moreover have "members_ok members" using class_members_ok [of node path i ctx] m by simp
  ultimately show ?thesis by (intro class_element_ok) (simp_all add: members_ok_def)
qed

lemma lower_declaration_ok:
  "list_all (\<lambda>c. element_ok (FragmentClass c)) (df_classes facts) \<Longrightarrow>
     list_all (\<lambda>c. element_ok (FragmentClass c)) (df_classes (lower_declaration ctx node facts))"
  by (auto simp: lower_declaration_def note_top_level_def Let_def dest: lower_class_ok
      simp del: element_ok.simps(1) split: option.splits prod.splits)

lemma insert_class_ok:
  "elements_ok es \<Longrightarrow> element_ok (FragmentClass c) \<Longrightarrow> elements_ok (insert_class ds uncertain c es)"
  by (auto simp: insert_class_def mark_coverage_gap_def class_ok_def intro!: elements_ok_insert)

lemma insert_association_ok: "elements_ok es \<Longrightarrow> elements_ok (insert_association ds a es)"
  by (auto simp: insert_association_def intro!: elements_ok_insert)

lemma lower_domain_ok: "elements_ok (fst (lower_domain tree ctx))"
proof (cases "find_domain_file tree")
  case None
  then show ?thesis by (simp add: lower_domain_def)
next
  case (Some df)
  let ?facts = "fold (lower_declaration ctx) (child_nodes df)
                \<lparr>df_gap = list_ex (\<lambda>g. gap_kind g = UnsupportedTopLevel) (ctx_gaps ctx), df_classes = [],
                 df_associations = [], df_declarations = [], df_diagnostics = []\<rparr>"
  have classes: "list_all (\<lambda>c. element_ok (FragmentClass c)) (df_classes ?facts)"
    by (rule fold_invariant_set) (simp_all add: lower_declaration_ok del: element_ok.simps(1))
  have "elements_ok (fold (insert_association ds) (df_associations ?facts) (fold (insert_class ds uncertain) (df_classes ?facts) []))"
    for ds uncertain
    using classes by (intro fold_invariant_set [where P = elements_ok])
      (auto simp: insert_association_ok list_all_iff intro: insert_class_ok simp del: element_ok.simps(1))
  then show ?thesis by (simp add: lower_domain_def Some Let_def split: prod.splits)
qed


section \<open>The merged graph\<close>

fun class_of_element :: "FragmentElement \<Rightarrow> ClassInfo option" where
  "class_of_element (FragmentClass c) = Some c"
| "class_of_element (FragmentAssociation a) = None"

fun draft_of_element :: "FragmentElement \<Rightarrow> AssocDraft option" where
  "draft_of_element (FragmentClass c) = None"
| "draft_of_element (FragmentAssociation a) = Some a"

definition merged_classes :: "elements \<Rightarrow> classes" where
  "merged_classes es = fst (fold split_element es ([], []))"

definition merged_prepared :: "elements \<Rightarrow> PreparedAssociation list" where
  "merged_prepared es = map prepared_from_draft (snd (fold split_element es ([], [])))"

lemma bt_get_Cons: "bt_get ((k, v) # m) k' = (if k' = k then Some v else bt_get m k')"
  by (simp add: bt_get_def)

lemma marked_class [simp]: "class_ok (mark_coverage_gap c) \<longleftrightarrow> class_ok c" "ci_path (mark_coverage_gap c) = ci_path c"
  by (simp_all add: class_ok_def mark_coverage_gap_def)

lemma split_elements:
  assumes "classes_ok cs" "\<And>path e. (path, e) \<in> set es \<Longrightarrow> element_path e = path \<and> element_ok e" "distinct (map fst es)"
  shows "classes_ok (fst (fold split_element es (cs, ds))) \<and>
    snd (fold split_element es (cs, ds)) = ds @ List.map_filter (draft_of_element \<circ> snd) es \<and>
    bt_get (fst (fold split_element es (cs, ds))) path =
      (case bt_get es path of None \<Rightarrow> bt_get cs path | Some e \<Rightarrow> (case class_of_element e of None \<Rightarrow> bt_get cs path | Some c \<Rightarrow> Some c))"
  using assms
proof (induction es arbitrary: cs ds)
  case Nil
  then show ?case by (simp add: bt_get_def)
next
  case (Cons x es)
  obtain p e where x: "x = (p, e)" by (cases x)
  have later: "bt_get es p = None" using Cons.prems(3) by (force simp: x bt_get_def map_of_eq_None_iff)
  have e: "element_path e = p" "element_ok e" using Cons.prems(2) [of p e] by (simp_all add: x)
  have tail: "\<And>path e. (path, e) \<in> set es \<Longrightarrow> element_path e = path \<and> element_ok e" "distinct (map fst es)"
    using Cons.prems(2,3) by (auto simp: x)
  show ?case
  proof (cases e)
    case (FragmentClass c)
    have "classes_ok (bt_insert p c cs)" using Cons.prems(1) e by (intro classes_ok_insert) (simp_all add: FragmentClass)
    moreover have "bt_ok cs" using Cons.prems(1) by (simp add: classes_ok_def)
    ultimately show ?thesis
      using Cons.IH [OF _ tail, of "bt_insert p c cs" ds] later
      by (auto simp: x FragmentClass bt_get_insert bt_get_Cons map_filter_simps split: option.splits)
  next
    case (FragmentAssociation a)
    then show ?thesis
      using Cons.IH [OF Cons.prems(1) tail, of "ds @ [a]"] later
      by (auto simp: x FragmentAssociation bt_get_Cons map_filter_simps split: option.splits)
  qed
qed

lemma classes_ok_empty [simp]: "classes_ok []"
  by (simp add: classes_ok_def bt_ok_def)

lemma merged_split:
  assumes "elements_ok es"
  shows "classes_ok (merged_classes es)"
    "merged_prepared es = map prepared_from_draft (List.map_filter (draft_of_element \<circ> snd) es)"
    "bt_get (merged_classes es) path = Option.bind (bt_get es path) class_of_element"
proof -
  have "\<And>path e. (path, e) \<in> set es \<Longrightarrow> element_path e = path \<and> element_ok e" "distinct (map fst es)"
    using assms bt_ok_distinct by (auto simp: elements_ok_def)
  from split_elements [OF classes_ok_empty this, of "[]" path]
  show "classes_ok (merged_classes es)"
    "merged_prepared es = map prepared_from_draft (List.map_filter (draft_of_element \<circ> snd) es)"
    "bt_get (merged_classes es) path = Option.bind (bt_get es path) class_of_element"
    by (auto simp: merged_classes_def merged_prepared_def bt_get_def split: option.splits)
qed

lemma index_step_simp:
  "index_step (i, path) (ids, paths) =
     (if i > u32_max then Inl (TooManyClasses i) else Inr (bt_insert path i ids, paths @ [path]))"
  by (simp add: index_step_def)

lemma plus_Suc_fun: "(+) (Suc n) = (\<lambda>i. Suc (n + i))"
  by (simp add: fun_eq_iff)

lemma index_fold:
  "fold_result index_step (List.enumerate n ps) (ids, paths) = Inr (ids', paths') \<Longrightarrow> bt_ok ids \<Longrightarrow> distinct ps \<Longrightarrow>
     paths' = paths @ ps \<and> (ps = [] \<or> n + length ps \<le> Suc u32_max) \<and>
     (\<forall>path. bt_get ids' path = (if path \<in> set ps then map_option (\<lambda>i. n + i) (position (\<lambda>p. p = path) ps) else bt_get ids path))"
proof (induction ps arbitrary: n ids paths)
  case (Cons p ps)
  have bound: "n \<le> u32_max" and step: "fold_result index_step (List.enumerate (Suc n) ps) (bt_insert p n ids, paths @ [p]) = Inr (ids', paths')"
    using Cons.prems(1) by (auto simp: index_step_simp split: if_splits)
  have IH: "paths' = (paths @ [p]) @ ps \<and> (ps = [] \<or> Suc n + length ps \<le> Suc u32_max) \<and>
     (\<forall>path. bt_get ids' path = (if path \<in> set ps then map_option (\<lambda>i. Suc n + i) (position (\<lambda>p. p = path) ps)
        else bt_get (bt_insert p n ids) path))"
    using Cons.prems(2,3) by (intro Cons.IH [OF step]) (simp_all add: bt_insert_ok)
  then show ?case
    using bound Cons.prems(2,3) by (auto simp: bt_get_insert option.map_comp comp_def plus_Suc_fun)
qed simp

lemma position_distinct: "distinct ps \<Longrightarrow> position (\<lambda>p. p = path) ps = Some i \<longleftrightarrow> i < length ps \<and> ps ! i = path"
proof
  assume "distinct ps" "i < length ps \<and> ps ! i = path"
  moreover from this obtain j where "position (\<lambda>p. p = path) ps = Some j"
    using position_NoneD [of "\<lambda>p. p = path" ps path] by (cases "position (\<lambda>p. p = path) ps") (auto dest: nth_mem)
  ultimately show "position (\<lambda>p. p = path) ps = Some i"
    using position_SomeD [of "\<lambda>p. p = path" ps j] by (simp add: distinct_conv_nth) metis
qed (auto dest: position_SomeD)

lemma index_classes_Inr:
  assumes "index_classes cs = Inr (ids, paths)" "bt_ok cs"
  shows "paths = map fst cs" "length cs \<le> Suc u32_max" "bt_get ids path = Some i \<longleftrightarrow> i < length paths \<and> paths ! i = path"
proof -
  have "paths = map fst cs \<and> (cs = [] \<or> length cs \<le> Suc u32_max) \<and>
     (\<forall>path. bt_get ids path = (if path \<in> set (map fst cs) then map_option (\<lambda>i. 0 + i) (position (\<lambda>p. p = path) (map fst cs))
       else bt_get [] path))"
    using index_fold [of 0 "map fst cs" "[]" "[]" ids paths] assms(1) bt_ok_distinct [OF assms(2)]
    by (simp add: index_classes_def bt.empty_ok)
  then show "paths = map fst cs" "length cs \<le> Suc u32_max"
    "bt_get ids path = Some i \<longleftrightarrow> i < length paths \<and> paths ! i = path"
    using position_distinct [OF bt_ok_distinct [OF assms(2)]]
    by (auto simp: bt_get_def option.map_ident [unfolded id_def] comp_def dest: nth_mem)
qed

lemma bt_values_mapped:
  "bt_ok (map (\<lambda>(k, v). (k, f v)) m) = bt_ok m" "bt_get (map (\<lambda>(k, v). (k, f v)) m) k = map_option f (bt_get m k)"
  by (induction m) (auto simp: bt_ok_def bt_get_def)

text \<open>The class a merged class becomes: with the accepted ends it owns, and a gap if an association was left out.\<close>

definition finished_class :: "elements \<Rightarrow> string \<Rightarrow> ClassInfo \<Rightarrow> ClassInfo" where
  "finished_class es path c =
     (let cs = merged_classes es; prepared = merged_prepared es;
          c = fold with_end (filter (\<lambda>e. fst e = path) (accepted_ends cs prepared)) c
      in if \<exists>i<length prepared. \<not> accepted cs prepared i then mark_coverage_gap c else c)"

lemma finish_Inr:
  assumes ok: "elements_ok (merger_elements m)" and run: "finish m = Inr g"
  defines "es \<equiv> merger_elements m"
  shows "pmcd_accepted (merged_classes es) (merged_prepared es)"
    "associations g = map assoc_of_prepared (accepted_associations (merged_classes es) (merged_prepared es))"
    "graph_class g path = map_option (finished_class es path) (bt_get (merged_classes es) path)"
    "classes_ok (graph_classes g)"
    "graph_class_id g path = Some i \<longleftrightarrow> i < length (paths_by_id g) \<and> paths_by_id g ! i = path"
    "paths_by_id g = map fst (graph_classes g)"
    "\<exists>ds. graph_diagnostics g = merger_diagnostics m @ ds \<and> (\<forall>d\<in>set ds. diag_code d = UnresolvedModelAssociation)"
proof -
  let ?cs = "merged_classes es" and ?ps = "merged_prepared es"
  have cs: "classes_ok ?cs" using merged_split(1) ok by (simp add: es_def)
  have split: "fold split_element (merger_elements m) ([], []) = (?cs, snd (fold split_element es ([], [])))"
    by (simp add: merged_classes_def es_def)
  obtain am ids paths where am: "materialize_associations ?cs (snd (fold split_element es ([], []))) = Inr am"
    and index: "index_classes (if am_gap am then map (\<lambda>(path, c). (path, mark_coverage_gap c)) (am_classes am) else am_classes am)
        = Inr (ids, paths)"
    and g: "g = \<lparr>graph_classes = (if am_gap am then map (\<lambda>(path, c). (path, mark_coverage_gap c)) (am_classes am) else am_classes am),
        by_path = ids, paths_by_id = paths, associations = am_associations am, graph_sources = merger_sources m,
        graph_diagnostics = merger_diagnostics m @ am_diagnostics am\<rparr>"
    using run unfolding finish_def split Let_def prod.case and_then_Inr_iff by (auto simp del: split_paired_Ex)
  have acc: "pmcd_accepted ?cs ?ps"
  proof (rule ccontr)
    assume "\<not> pmcd_accepted ?cs ?ps"
    then show False by (rule materialize_Inl [OF merged_prepared_def]) (simp add: am)
  qed
  obtain am' where "materialize_associations ?cs (snd (fold split_element es ([], []))) = Inr am'"
    "am_classes am' = fold add_end (accepted_ends ?cs ?ps) ?cs"
    "am_associations am' = map assoc_of_prepared (accepted_associations ?cs ?ps)"
    "am_gap am' \<longleftrightarrow> (\<exists>i<length ?ps. \<not> accepted ?cs ?ps i)"
    "\<forall>d\<in>set (am_diagnostics am'). diag_code d = UnresolvedModelAssociation"
    by (rule materialize_Inr [OF cs merged_prepared_def acc])
  then have facts: "am_classes am = fold add_end (accepted_ends ?cs ?ps) ?cs"
    "am_associations am = map assoc_of_prepared (accepted_associations ?cs ?ps)"
    "am_gap am \<longleftrightarrow> (\<exists>i<length ?ps. \<not> accepted ?cs ?ps i)"
    "\<forall>d\<in>set (am_diagnostics am). diag_code d = UnresolvedModelAssociation" using am by simp_all
  have ok_am: "classes_ok (am_classes am)" using fold_add_end_ok [OF cs] facts(1) by simp
  then show final: "classes_ok (graph_classes g)"
    by (auto simp: g classes_ok_def bt_values_mapped)
  show "pmcd_accepted ?cs ?ps" by (rule acc)
  show "\<exists>ds. graph_diagnostics g = merger_diagnostics m @ ds \<and> (\<forall>d\<in>set ds. diag_code d = UnresolvedModelAssociation)"
    using facts(4) by (simp add: g)
  show "associations g = map assoc_of_prepared (accepted_associations ?cs ?ps)" by (simp add: g facts)
  show "graph_class g path = map_option (finished_class es path) (bt_get ?cs path)"
    using fold_add_end_get [OF cs] facts(3)
    by (cases "bt_get ?cs path"; cases "am_gap am")
      (auto simp: graph_class_def g bt_values_mapped facts(1) finished_class_def Let_def)
  have "bt_ok (graph_classes g)" using final by (simp add: classes_ok_def)
  then show "paths_by_id g = map fst (graph_classes g)"
    "graph_class_id g path = Some i \<longleftrightarrow> i < length (paths_by_id g) \<and> paths_by_id g ! i = path"
    using index_classes_Inr [of "graph_classes g" ids paths] index by (simp_all add: g graph_class_id_def)
qed

end
