(* ===== verification/LoadedModels.thy ===== *)
theory LoadedModels
  imports MergedModels
begin

text \<open>
  Loading as a whole: the definition that wins for each path, the consistency of the loaded graph, what the
  resolver can rely on, and that Pure sources always load.
\<close>

section \<open>Merging fragments\<close>

text \<open>The last definition of a path among the fragments.\<close>

definition last_definition :: "string \<Rightarrow> ModelFragment list \<Rightarrow> FragmentElement option" where
  "last_definition path fragments = first_some (map (\<lambda>f. bt_get (fragment_elements f) path) (rev fragments))"

lemma last_definition_snoc:
  "last_definition path (fs @ [f]) =
     (case bt_get (fragment_elements f) path of Some e \<Rightarrow> Some e | None \<Rightarrow> last_definition path fs)"
  by (simp add: last_definition_def split: option.split)

definition merge_warnings :: "diagnostic list \<Rightarrow> nat" where
  "merge_warnings ds = length (filter (\<lambda>d. diag_code d = ModelMergeConflict) ds)"

lemma merge_warnings_append [simp]: "merge_warnings (ds @ es) = merge_warnings ds + merge_warnings es"
  by (simp add: merge_warnings_def)

lemma merge_warnings_one [simp]: "merge_warnings [merge_diagnostic m path previous source label] = 1"
  by (simp add: merge_warnings_def merge_diagnostic_def Let_def builder_secondary_def diag_simps)

lemma bt_insert_length:
  "bt_ok m \<Longrightarrow> length (bt_insert k v m) = (if bt_get m k = None then Suc (length m) else length m)"
proof (induction k v m rule: bt_insert.induct)
  case (2 k v k' v' m)
  have "bt_get m k = None" if "k < k'" using that 2(2) by (force simp: bt_get_def bt_ok_Cons map_of_eq_None_iff)
  with 2 show ?case by (auto simp: bt_ok_Cons bt_get_Cons)
qed (simp add: bt_get_def)

lemma ingest_element_sel:
  "merger_elements (ingest_element source label (path, e) m) = bt_insert path e (merger_elements m)"
  "merger_sources (ingest_element source label (path, e) m) = merger_sources m"
  "merge_warnings (merger_diagnostics (ingest_element source label (path, e) m)) =
     merge_warnings (merger_diagnostics m) + (if bt_get (merger_elements m) path = None then 0 else 1)"
  by (auto simp: ingest_element_def Let_def split: option.split)

lemma fold_ingest:
  assumes "elements_ok (merger_elements m)" "\<And>path e. (path, e) \<in> set es \<Longrightarrow> element_path e = path \<and> element_ok e"
    "distinct (map fst es)"
  shows "elements_ok (merger_elements (fold (ingest_element source label) es m)) \<and>
    merger_sources (fold (ingest_element source label) es m) = merger_sources m \<and>
    bt_get (merger_elements (fold (ingest_element source label) es m)) path =
      (case bt_get es path of Some e \<Rightarrow> Some e | None \<Rightarrow> bt_get (merger_elements m) path) \<and>
    merge_warnings (merger_diagnostics (fold (ingest_element source label) es m)) +
        length (merger_elements (fold (ingest_element source label) es m)) =
      merge_warnings (merger_diagnostics m) + length (merger_elements m) + length es"
  using assms
proof (induction es arbitrary: m)
  case Nil
  then show ?case by (simp add: bt_get_def)
next
  case (Cons x es)
  obtain p e where x: "x = (p, e)" by (cases x)
  let ?m = "ingest_element source label (p, e) m"
  have later: "bt_get es p = None" using Cons.prems(3) by (force simp: x bt_get_def map_of_eq_None_iff)
  have ok: "bt_ok (merger_elements m)" using Cons.prems(1) by (simp add: elements_ok_def)
  have "elements_ok (merger_elements ?m)"
    unfolding ingest_element_sel using Cons.prems(1) Cons.prems(2) [of p e] by (intro elements_ok_insert) (simp_all add: x)
  moreover have "\<And>path e. (path, e) \<in> set es \<Longrightarrow> element_path e = path \<and> element_ok e" "distinct (map fst es)"
    using Cons.prems(2,3) by (auto simp: x)
  ultimately show ?case
    using Cons.IH [of ?m] later bt_insert_length [OF ok, of p e]
    by (auto simp: x ingest_element_sel bt_get_Cons bt_get_insert [OF ok] split: option.splits)
qed

lemma ingest_fragment_sel:
  fixes source :: nat and label :: string and origin :: Provenance and m :: ModelMerger and f :: ModelFragment
  assumes "elements_ok (merger_elements m)" "elements_ok (fragment_elements f)"
  defines "m' \<equiv> ingest_fragment source label origin f m"
  shows "elements_ok (merger_elements m')"
    "bt_get (merger_elements m') path =
      (case bt_get (fragment_elements f) path of Some e \<Rightarrow> Some e | None \<Rightarrow> bt_get (merger_elements m) path)"
    "merge_warnings (merger_diagnostics m') + length (merger_elements m') =
      merge_warnings (merger_diagnostics m) + merge_warnings (fragment_diagnostics f) + length (merger_elements m) +
      length (fragment_elements f)"
proof -
  let ?m = "m\<lparr>merger_sources := merger_sources m @ [\<lparr>source_id = source, source_label = label, source_provenance = origin\<rparr>],
          merger_diagnostics := merger_diagnostics m @ fragment_diagnostics f\<rparr>"
  have es: "\<And>path e. (path, e) \<in> set (fragment_elements f) \<Longrightarrow> element_path e = path \<and> element_ok e"
    "distinct (map fst (fragment_elements f))"
    using assms(2) bt_ok_distinct by (auto simp: elements_ok_def)
  have "elements_ok (merger_elements ?m)" using assms(1) by simp
  from fold_ingest [OF this es, of source label path]
  show "elements_ok (merger_elements m')"
    "bt_get (merger_elements m') path =
      (case bt_get (fragment_elements f) path of Some e \<Rightarrow> Some e | None \<Rightarrow> bt_get (merger_elements m) path)"
    "merge_warnings (merger_diagnostics m') + length (merger_elements m') =
      merge_warnings (merger_diagnostics m) + merge_warnings (fragment_diagnostics f) + length (merger_elements m) +
      length (fragment_elements f)"
    by (simp_all add: m'_def ingest_fragment_def split: option.split)
qed


section \<open>Documents\<close>

text \<open>The fragment a document contributes.\<close>

fun document_fragment :: "loader_env \<Rightarrow> nat \<Rightarrow> ModelDocument \<Rightarrow> (ModelError + ModelFragment) option" where
  "document_fragment env source (PmcdModel d) =
     Some (map_sum (\<lambda>e. e) (\<lambda>es. \<lparr>fragment_elements = es, fragment_diagnostics = []\<rparr>)
       (parse_document env (pmcd_label d) (pmcd_json d) source))"
| "document_fragment env source (PureModel d) =
     parse_pure_document (env_logos env) (env_owner env) (pure_label d) (pure_source d) source"

fun document_label :: "ModelDocument \<Rightarrow> string" where
  "document_label (PmcdModel d) = pmcd_label d"
| "document_label (PureModel d) = pure_label d"

fun document_origin :: "ModelDocument \<Rightarrow> Provenance" where
  "document_origin (PmcdModel d) = Pmcd"
| "document_origin (PureModel d) = PureFile"

lemma ingest_document_fragment:
  "ingest_document env source d m =
     map_option (\<lambda>r. and_then r (\<lambda>f. Inr (ingest_fragment source (document_label d) (document_origin d) f m)))
       (document_fragment env source d)"
  by (cases d) (auto simp: ingest_pmcd_def ingest_pure_def and_then_def split: sum.split)

lemma parse_pure_document_Inr:
  assumes "parse_pure_document logos owner name src source = Some (Inr f)"
  obtains parsed ds where "parse_domain logos owner src (file_of_source source) = Some (Inr parsed)"
    "lower_domain (dp_green parsed) (lowering_context parsed source) = (fragment_elements f, ds)"
    "fragment_diagnostics f = sort_key (\<lambda>d. range_start (label_span (diag_primary d))) (dp_diagnostics parsed @ ds)"
proof -
  obtain r where r: "parse_domain logos owner src (file_of_source source) = Some r"
    using assms by (cases "parse_domain logos owner src (file_of_source source)") (simp_all add: parse_pure_document_def)
  then obtain parsed where p: "r = Inr parsed" using assms by (cases r) (simp_all add: parse_pure_document_def)
  obtain es ds where low: "lower_domain (dp_green parsed) (lowering_context parsed source) = (es, ds)" by fastforce
  show thesis using that [of parsed ds] assms r low by (auto simp: parse_pure_document_def p)
qed

lemma parse_pure_document_ok:
  "parse_pure_document logos owner name src source = Some (Inr f) \<Longrightarrow> elements_ok (fragment_elements f)"
  by (erule parse_pure_document_Inr) (metis fst_conv lower_domain_ok)

lemma document_fragment_ok: "document_fragment env source d = Some (Inr f) \<Longrightarrow> elements_ok (fragment_elements f)"
  by (cases d) (auto simp: map_sum_Inr_iff parse_document_ok parse_pure_document_ok)

text \<open>What ingesting documents leaves in the merger.\<close>

lemma ingest_documents_fragments:
  assumes "ingest_documents env index docs m = Some (Inr m')" "elements_ok (merger_elements m)"
  shows "\<exists>fs. length fs = length docs \<and>
    (\<forall>i<length docs. document_fragment env (index + i) (docs ! i) = Some (Inr (fs ! i))) \<and>
    elements_ok (merger_elements m') \<and>
    (\<forall>path. bt_get (merger_elements m') path =
       (case last_definition path fs of Some e \<Rightarrow> Some e | None \<Rightarrow> bt_get (merger_elements m) path)) \<and>
    merge_warnings (merger_diagnostics m') + length (merger_elements m') =
      merge_warnings (merger_diagnostics m) + length (merger_elements m) +
      (\<Sum>f\<leftarrow>fs. merge_warnings (fragment_diagnostics f) + length (fragment_elements f))"
  using assms
proof (induction docs arbitrary: index m)
  case Nil
  then show ?case by (simp add: last_definition_def)
next
  case (Cons d docs)
  obtain f where f: "document_fragment env index d = Some (Inr f)"
    and rest: "ingest_documents env (Suc index) docs
      (ingest_fragment index (document_label d) (document_origin d) f m) = Some (Inr m')"
  proof (cases "document_fragment env index d")
    case None
    then show ?thesis using Cons.prems(1) by (simp add: to_source_id_def ingest_document_fragment split: if_splits)
  next
    case (Some r)
    then show ?thesis using Cons.prems(1) that
      by (cases r) (simp_all add: to_source_id_def ingest_document_fragment and_then_def split: if_splits)
  qed
  let ?m = "ingest_fragment index (document_label d) (document_origin d) f m"
  note sel = ingest_fragment_sel [OF Cons.prems(2) document_fragment_ok [OF f],
    where source = index and label = "document_label d" and origin = "document_origin d"]
  obtain fs where fs: "length fs = length docs"
    "\<And>i. i < length docs \<Longrightarrow> document_fragment env (Suc index + i) (docs ! i) = Some (Inr (fs ! i))"
    "elements_ok (merger_elements m')"
    "\<And>path. bt_get (merger_elements m') path =
       (case last_definition path fs of Some e \<Rightarrow> Some e | None \<Rightarrow> bt_get (merger_elements ?m) path)"
    "merge_warnings (merger_diagnostics m') + length (merger_elements m') =
      merge_warnings (merger_diagnostics ?m) + length (merger_elements ?m) +
      (\<Sum>f\<leftarrow>fs. merge_warnings (fragment_diagnostics f) + length (fragment_elements f))"
    using Cons.IH [OF rest sel(1)] by blast
  have first: "first_some (xs @ [y]) = (case first_some xs of Some e \<Rightarrow> Some e | None \<Rightarrow> y)" for xs and y :: "'x option"
    by (cases y; induction xs rule: first_some.induct) (auto split: option.split)
  show ?case
  proof (intro exI [of _ "f # fs"] conjI allI impI)
    show "document_fragment env (index + i) ((d # docs) ! i) = Some (Inr ((f # fs) ! i))" if "i < length (d # docs)" for i
      using that f fs(2) [of "i - 1"] by (cases i) simp_all
    show "bt_get (merger_elements m') path =
       (case last_definition path (f # fs) of Some e \<Rightarrow> Some e | None \<Rightarrow> bt_get (merger_elements m) path)" for path
      using fs(4) [of path] sel(2) [of path] by (auto simp: last_definition_def first split: option.splits)
  qed (use fs sel(3) in simp_all)
qed


lemma load_fragments:
  assumes "load_model_documents env docs = Some (Inr g)"
  obtains m fs where "finish m = Inr g" "length fs = length docs"
    "\<And>i. i < length docs \<Longrightarrow> document_fragment env i (docs ! i) = Some (Inr (fs ! i))"
    "elements_ok (merger_elements m)" "\<And>path. bt_get (merger_elements m) path = last_definition path fs"
    "merge_warnings (merger_diagnostics m) + length (merger_elements m) =
      (\<Sum>f\<leftarrow>fs. merge_warnings (fragment_diagnostics f) + length (fragment_elements f))"
proof -
  obtain m where m: "ingest_documents env 0 docs merger_default = Some (Inr m)" "finish m = Inr g"
    using assms by (auto simp: load_model_documents_def and_then_Inr_iff)
  have "elements_ok (merger_elements merger_default)" by (simp add: merger_default_def)
  from ingest_documents_fragments [OF m(1) this] obtain fs where fs: "length fs = length docs"
    "\<And>i. i < length docs \<Longrightarrow> document_fragment env i (docs ! i) = Some (Inr (fs ! i))"
    "elements_ok (merger_elements m)"
    "\<And>path. bt_get (merger_elements m) path =
       (case last_definition path fs of Some e \<Rightarrow> Some e | None \<Rightarrow> bt_get (merger_elements merger_default) path)"
    "merge_warnings (merger_diagnostics m) + length (merger_elements m) =
      merge_warnings (merger_diagnostics merger_default) + length (merger_elements merger_default) +
      (\<Sum>f\<leftarrow>fs. merge_warnings (fragment_diagnostics f) + length (fragment_elements f))" by auto
  have "bt_get (merger_elements m) path = last_definition path fs" for path
    using fs(4) [of path] by (simp add: merger_default_def bt_get_def split: option.splits)
  then show thesis
    using that [OF m(2) fs(1-3)] fs(5) by (simp add: merger_default_def merge_warnings_def)
qed


section \<open>Consistency\<close>

definition ends_of :: "AssocInfo \<Rightarrow> AssociationEndInfo list" where
  "ends_of a = [end_a a, end_b a]"

text \<open>A consistent graph: classes are stored under their paths, identities number the classes, an association end is
  the property its owner has under that name, and a property that names an association is an end of it.\<close>

definition graph_consistent :: "ModelGraph \<Rightarrow> bool" where
  "graph_consistent g \<longleftrightarrow>
     (\<forall>path c. graph_class g path = Some c \<longrightarrow> ci_path c = path \<and> class_ok c) \<and>
     set (paths_by_id g) = {path. graph_class g path \<noteq> None} \<and>
     (\<forall>path i. graph_class_id g path = Some i \<longleftrightarrow> i < length (paths_by_id g) \<and> paths_by_id g ! i = path) \<and>
     (\<forall>a\<in>set (associations g). \<forall>e\<in>set (ends_of a). prop_association (end_property e) = Some (assoc_path a) \<and>
        (\<exists>c. graph_class g (end_owner e) = Some c \<and>
           bt_get (ci_properties c) (prop_name (end_property e)) = Some (end_property e))) \<and>
     (\<forall>path c n p name. graph_class g path = Some c \<longrightarrow> bt_get (ci_properties c) n = Some p \<longrightarrow>
        prop_association p = Some name \<longrightarrow>
        (\<exists>a\<in>set (associations g). assoc_path a = name \<and> (\<exists>e\<in>set (ends_of a). end_owner e = path \<and> end_property e = p)))"

lemma fold_with_end_properties:
  "ci_properties (fold with_end es c) = fold (\<lambda>e. bt_insert (prop_name (snd e)) (snd e)) es (ci_properties c)"
  by (induction es arbitrary: c) simp_all

lemma fold_with_end_get:
  assumes "class_ok c" "distinct (map (\<lambda>e. prop_name (snd e)) es)"
  shows "bt_get (ci_properties (fold with_end es c)) n =
    (case find (\<lambda>e. prop_name (snd e) = n) es of Some e \<Rightarrow> Some (snd e) | None \<Rightarrow> bt_get (ci_properties c) n)"
  using assms bt.get_fold_insert [of "ci_properties c" "\<lambda>e. prop_name (snd e)" es snd n]
  by (simp add: fold_with_end_properties class_ok_def)

lemma ends_of_prepared:
  "set (ends_of (assoc_of_prepared a)) = (\<lambda>e. association_end_new (fst e) (snd e)) ` set (pa_ends a)"
  by (auto simp: ends_of_def assoc_of_prepared_def pa_ends_def)

lemma prepared_end_association:
  "e \<in> set (pa_ends (prepared_from_draft d)) \<Longrightarrow> prop_association (snd e) = Some (draft_path d)"
  by (auto simp: pa_ends_def prepared_from_draft_def prop_with_association_def)

lemma owned_ends_distinct:
  "distinct (map (\<lambda>e. prop_name (snd e)) (filter (\<lambda>e. fst e = path) (accepted_ends cs prepared)))"
proof -
  have "distinct (map end_key (filter (\<lambda>e. fst e = path) (accepted_ends cs prepared)))"
    using accepted_ends_distinct [of cs prepared] by (rule distinct_map_filter)
  then show ?thesis by (auto simp: distinct_map inj_on_def end_key_def)
qed

lemma finished_property:
  assumes "elements_ok es" "bt_get (merged_classes es) path = Some c"
  shows "bt_get (ci_properties (finished_class es path c)) n =
    (case find (\<lambda>e. prop_name (snd e) = n)
            (filter (\<lambda>e. fst e = path) (accepted_ends (merged_classes es) (merged_prepared es))) of
       Some e \<Rightarrow> Some (snd e) | None \<Rightarrow> bt_get (ci_properties c) n)"
proof -
  have "class_ok c" using classes_ok_get [OF merged_split(1) [OF assms(1)] assms(2)] by simp
  then show ?thesis
    using fold_with_end_get [OF _ owned_ends_distinct] by (simp add: finished_class_def Let_def mark_coverage_gap_def)
qed

lemma find_in_set: "find P xs = Some x \<Longrightarrow> x \<in> set xs"
  by (induction xs) (auto split: if_splits)

lemma find_distinct_key: "distinct (map f xs) \<Longrightarrow> x \<in> set xs \<Longrightarrow> find (\<lambda>y. f y = f x) xs = Some x"
  by (induction xs) (auto dest: image_eqI [of "f x" f x])

lemma finish_consistent:
  assumes ok: "elements_ok (merger_elements m)" and run: "finish m = Inr g"
  shows "graph_consistent g"
proof -
  define es where "es = merger_elements m"
  let ?cs = "merged_classes es" and ?ps = "merged_prepared es"
  note facts = finish_Inr [OF ok run, folded es_def]
  have es: "elements_ok es" using ok by (simp add: es_def)
  have get: "graph_class g path = Some c \<Longrightarrow> ci_path c = path \<and> class_ok c" for path c
    using classes_ok_get [OF facts(4)] by (simp add: graph_class_def)
  have paths: "set (paths_by_id g) = {path. graph_class g path \<noteq> None}"
    by (auto simp: facts(6) graph_class_def bt_get_def map_of_eq_None_iff)
  have prepared: "\<exists>d. a = prepared_from_draft d" if "a \<in> set ?ps" for a
    using that merged_split(2) [OF es] by auto
  have acc: "a \<in> set ?ps \<and> (\<forall>e\<in>set (pa_ends a). e \<in> set (accepted_ends ?cs ?ps) \<and> fresh_end ?cs e)"
    if "a \<in> set (accepted_associations ?cs ?ps)" for a
    using that by (auto simp: accepted_associations_def accepted_ends_def accepted_def own_sound_fresh)
  have ends: "prop_association (end_property e) = Some (assoc_path a) \<and>
        (\<exists>c. graph_class g (end_owner e) = Some c \<and>
           bt_get (ci_properties c) (prop_name (end_property e)) = Some (end_property e))"
    if a: "a \<in> set (associations g)" and e: "e \<in> set (ends_of a)" for a e
  proof -
    obtain b where b: "b \<in> set (accepted_associations ?cs ?ps)" "a = assoc_of_prepared b" using a facts(2) by auto
    obtain d where d: "b = prepared_from_draft d" using acc [OF b(1)] prepared by blast
    obtain x where x: "x \<in> set (pa_ends b)" "e = association_end_new (fst x) (snd x)"
      using e unfolding b(2) ends_of_prepared by blast
    have xs: "x \<in> set (accepted_ends ?cs ?ps)" "fresh_end ?cs x" using acc [OF b(1)] x(1) by simp_all
    then obtain c where c: "bt_get ?cs (fst x) = Some c" by (auto simp: fresh_end_def)
    have "find (\<lambda>e. prop_name (snd e) = prop_name (snd x)) (filter (\<lambda>e. fst e = fst x) (accepted_ends ?cs ?ps)) = Some x"
      using find_distinct_key [of "\<lambda>e. prop_name (snd e)"] owned_ends_distinct xs(1) by fastforce
    then have "bt_get (ci_properties (finished_class es (fst x) c)) (prop_name (snd x)) = Some (snd x)"
      using finished_property [OF es c] by simp
    then show ?thesis
      using facts(3) [of "fst x"] c prepared_end_association [of x d] x d b(2)
      by (auto simp: association_end_new_def assoc_of_prepared_def prepared_from_draft_def)
  qed
  have named: "\<exists>a\<in>set (associations g). assoc_path a = name \<and> (\<exists>e\<in>set (ends_of a). end_owner e = path \<and> end_property e = p)"
    if c: "graph_class g path = Some c" and p: "bt_get (ci_properties c) n = Some p" "prop_association p = Some name"
    for path c n p name
  proof -
    obtain c0 where c0: "bt_get ?cs path = Some c0" "c = finished_class es path c0" using c facts(3) by auto
    obtain e where e: "bt_get es path = Some e" "class_of_element e = Some c0"
      using c0(1) merged_split(3) [OF es, of path] by (auto simp: bind_eq_Some_conv)
    then have "e = FragmentClass c0" by (cases e) simp_all
    moreover have "(path, e) \<in> set es" using e(1) map_of_SomeD [of es path e] by (simp add: bt_get_def)
    ultimately have "element_ok (FragmentClass c0)" using es by (auto simp: elements_ok_def simp del: element_ok.simps)
    then have own: "bt_get (ci_properties c0) n = Some p \<Longrightarrow> prop_association p = None"
      by (auto simp: bt_get_def dest!: map_of_SomeD)
    obtain x where x: "x \<in> set (accepted_ends ?cs ?ps)" "fst x = path" "snd x = p"
    proof (cases "find (\<lambda>e. prop_name (snd e) = n) (filter (\<lambda>e. fst e = path) (accepted_ends ?cs ?ps))")
      case None
      then show thesis using finished_property [OF es c0(1), of n] p own by (simp add: c0(2))
    next
      case (Some x)
      then have "x \<in> set (filter (\<lambda>e. fst e = path) (accepted_ends ?cs ?ps))" by (rule find_in_set)
      then show thesis using that [of x] finished_property [OF es c0(1), of n] p Some by (simp add: c0(2))
    qed
    then obtain a where a: "a \<in> set (accepted_associations ?cs ?ps)" "x \<in> set (pa_ends a)"
      by (auto simp: accepted_ends_def)
    then obtain d where d: "a = prepared_from_draft d" using acc prepared by blast
    have "assoc_path (assoc_of_prepared a) = name"
      using prepared_end_association [of x d] a(2) x(3) p(2) d by (simp add: assoc_of_prepared_def prepared_from_draft_def)
    moreover have "association_end_new path p \<in> set (ends_of (assoc_of_prepared a))"
      using a(2) x(2,3) unfolding ends_of_prepared by force
    ultimately show ?thesis using a(1) facts(2)
      by (intro bexI [of _ "assoc_of_prepared a"] conjI bexI [of _ "association_end_new path p"])
        (auto simp: association_end_new_def)
  qed
  show ?thesis
    unfolding graph_consistent_def
  proof (intro conjI)
    show "\<forall>path c. graph_class g path = Some c \<longrightarrow> ci_path c = path \<and> class_ok c" using get by blast
    show "set (paths_by_id g) = {path. graph_class g path \<noteq> None}" by (rule paths)
    show "\<forall>path i. graph_class_id g path = Some i \<longleftrightarrow> i < length (paths_by_id g) \<and> paths_by_id g ! i = path"
      by (intro allI) (rule facts(5))
  qed (intro ballI ends allI impI named, assumption+)+
qed

end
