(* ===== verification/LoadedModelProperties.thy ===== *)
theory LoadedModelProperties
  imports LoadedModels
begin

text \<open>
  The properties of loading: which definition wins, that the graph is consistent, that the resolver works on every
  loaded graph without meeting a violated invariant, and that Pure sources always load.
\<close>

section \<open>Merging\<close>



text \<open>C27: Every loaded graph is consistent: classes are stored under their own paths and their members under their own
  names, class identities number exactly the classes and are inverse to the paths, every end of an association is the
  property its existing owner has under that name, and every property said to come from an association is an end of an
  association of the graph.\<close>

theorem loaded_graph_consistent:
  "load_model_documents env docs = Some (Inr g) \<Longrightarrow> graph_consistent g"
  by (rule load_fragments) (assumption, rule finish_consistent)


section \<open>Resolution on loaded graphs\<close>

definition ids_complete :: "ModelGraph \<Rightarrow> bool" where
  "ids_complete g \<longleftrightarrow> (\<forall>path. graph_class g path \<noteq> None \<longrightarrow> graph_class_id g path \<noteq> None)"

lemma consistent_ids: "graph_consistent g \<Longrightarrow> ids_complete g"
  unfolding graph_consistent_def ids_complete_def by (metis (mono_tags, lifting) in_set_conv_nth mem_Collect_eq option.distinct(1))

lemma resolved_class_Inr:
  assumes "ids_complete g" "graph_class g path = Some c"
  obtains r where "resolved_class g path c = Inr r" "graph_class_id g path = Some (class_id r)" "class_path r = path"
proof -
  obtain i where "graph_class_id g path = Some i" using assms by (fastforce simp: ids_complete_def)
  then show thesis
    using that [of "\<lparr>class_id = i, class_path = path, class_temporal = ci_temporal c, class_provenance = ci_provenance c,
      class_definition = \<lparr>anchor_source = ci_source c, anchor_span = ci_span c\<rparr>\<rparr>"] by (simp add: resolved_class_def)
qed

fun invariant_fault :: "HierarchyFault \<Rightarrow> bool" where
  "invariant_fault (FaultUnderResolved (GraphInvariant p)) \<longleftrightarrow> True"
| "invariant_fault _ \<longleftrightarrow> False"

fun invariant_resolution :: "'a Resolution \<Rightarrow> bool" where
  "invariant_resolution (UnderResolved (GraphInvariant p)) \<longleftrightarrow> True"
| "invariant_resolution _ \<longleftrightarrow> False"

lemma into_resolution_invariant: "invariant_resolution (into_resolution f) = invariant_fault f"
  by (cases f rule: invariant_fault.cases) simp_all

lemma map_sum_Inl_iff: "map_sum f h x = Inl e \<longleftrightarrow> (\<exists>a. x = Inl a \<and> e = f a)"
  by (cases x) auto

lemma validation_fault:
  assumes "graph_class g origin \<noteq> None" "validate_hierarchy g origin = Inl f"
  shows "\<not> invariant_fault f"
proof -
  have "validate_node g origin {} [] = Inl f" using assms(2) by (auto simp: validate_hierarchy_def map_sum_Inl_iff)
  from validate_faults(1) [OF this, of origin] have "fault_real g origin f" using assms(1) by (simp add: walk_def)
  then show ?thesis by (cases f rule: invariant_fault.cases) auto
qed

lemma levels_fault:
  assumes "graph_class g origin \<noteq> None" "hierarchy_levels g origin = Inl f"
  shows "\<not> invariant_fault f"
proof (cases "validate_hierarchy g origin")
  case (Inl f')
  then show ?thesis using validation_fault [OF assms(1) Inl] assms(2) by (simp add: hierarchy_levels_def)
next
  case (Inr u)
  then show ?thesis using breadth_first_origin [OF Inr] assms(2) by (auto simp: hierarchy_levels_def)
qed

lemma levels_present:
  assumes "hierarchy_levels g origin = Inr levels" "level \<in> set levels" "path \<in> set level"
  shows "graph_class g path \<noteq> None"
proof -
  obtain u where "validate_hierarchy g origin = Inr u" using assms(1) by (auto simp: hierarchy_levels_def split: sum.splits)
  then show ?thesis using validated_complete hierarchy_levels_cover [OF assms(1)] assms(2,3) by blast
qed

lemma direct_member_returns:
  assumes "ids_complete g" "graph_class g path = Some c"
  shows "\<exists>d. direct_member g path c name = Inr d"
  by (rule resolved_class_Inr [OF assms]) (auto simp: direct_member_def Let_def split: option.split)

lemma complete_member_fault: "complete_member g d = Inl f \<Longrightarrow> \<not> invariant_fault f"
  using levels_fault [of g "raw_type (member_target (direct_member_facts d))" f]
  by (auto simp: complete_member_def target_temporal_arity_def effective_temporal_arity_def
      map_sum_Inl_iff split: option.splits if_splits sum.splits)

lemma complete_all_fault: "complete_all g ds = Inl f \<Longrightarrow> \<not> invariant_fault f"
  by (induction ds) (auto simp: map_sum_Inl_iff split: sum.splits dest: complete_member_fault)

lemma level_candidates_result:
  assumes "ids_complete g" "\<And>p. p \<in> set paths \<Longrightarrow> graph_class g p \<noteq> None"
  shows "\<exists>ds reason. level_candidates g name paths candidates open_world = Inr (ds, reason) \<and>
    (\<forall>r. reason = Some r \<longrightarrow> (\<exists>p. r = OpenWorld p) \<or> open_world = Some r)"
  using assms
proof (induction paths arbitrary: candidates open_world)
  case (Cons p paths)
  obtain c where c: "graph_class g p = Some c" using Cons.prems(2) [of p] by auto
  obtain d where d: "direct_member g p c name = Inr d" using direct_member_returns [OF Cons.prems(1) c] by blast
  let ?ow = "if coverage_gap c \<and> open_world = None then Some (OpenWorld p) else open_world"
  obtain ds reason where "level_candidates g name paths (case d of None \<Rightarrow> candidates | Some x \<Rightarrow> candidates @ [x]) ?ow = Inr (ds, reason)"
    "\<forall>r. reason = Some r \<longrightarrow> (\<exists>p. r = OpenWorld p) \<or> ?ow = Some r"
    using Cons.IH [of "case d of None \<Rightarrow> candidates | Some x \<Rightarrow> candidates @ [x]" ?ow] Cons.prems by auto
  then show ?case using c d by (cases d) (auto split: if_splits)
qed simp

lemma resolve_levels_no_invariant:
  assumes "ids_complete g" "\<And>level p. level \<in> set levels \<Longrightarrow> p \<in> set level \<Longrightarrow> graph_class g p \<noteq> None"
  shows "\<not> invariant_resolution (resolve_levels g name levels)"
  using assms
proof (induction levels)
  case (Cons level levels)
  obtain ds reason where step: "level_candidates g name level [] None = Inr (ds, reason)"
    "\<forall>r. reason = Some r \<longrightarrow> (\<exists>p. r = OpenWorld p)"
    using level_candidates_result [OF Cons.prems(1), of level name "[]" None] Cons.prems(2) [of level] by auto
  have IH: "\<not> invariant_resolution (resolve_levels g name levels)"
    using Cons.prems by (intro Cons.IH) (auto intro: Cons.prems(2))
  show ?case
  proof (cases reason)
    case (Some r)
    then show ?thesis using step by auto
  next
    case None
    show ?thesis
    proof (cases "ds = []")
      case False
      then show ?thesis
        using complete_all_fault [of g "best_candidates ds"]
        by (auto simp: step(1) None into_resolution_invariant split: sum.splits list.splits)
    qed (use step None IH in simp)
  qed
qed simp

lemma resolve_member_no_invariant:
  assumes "ids_complete g"
  shows "\<not> invariant_resolution (resolve_member g origin name)"
proof (cases "graph_class g origin")
  case (Some c)
  obtain d where d: "direct_member g origin c name = Inr d" using direct_member_returns [OF assms Some] by blast
  have levels: "\<not> invariant_resolution (resolve_levels g name (drop 1 ls))" if "hierarchy_levels g origin = Inr ls" for ls
    using resolve_levels_no_invariant [OF assms] levels_present [OF that] by (meson in_set_dropD)
  show ?thesis
    using d levels levels_fault [of g origin] complete_member_fault
    by (auto simp: resolve_member_def Some into_resolution_invariant split: option.splits sum.splits)
qed (simp add: resolve_member_def)

lemma resolve_paths_Inr:
  "ids_complete g \<Longrightarrow> (\<And>p. p \<in> set paths \<Longrightarrow> graph_class g p \<noteq> None) \<Longrightarrow> \<exists>rs. resolve_paths g paths = Inr rs"
proof (induction paths)
  case (Cons p paths)
  obtain c where c: "graph_class g p = Some c" using Cons.prems(2) [of p] by auto
  obtain r where "resolved_class g p c = Inr r" by (rule resolved_class_Inr [OF Cons.prems(1) c])
  then show ?case using Cons c by auto
qed simp

lemma generalizations_no_invariant:
  assumes "ids_complete g"
  shows "\<not> invariant_resolution (generalizations g origin)"
proof (cases "hierarchy_levels g origin")
  case (Inl f)
  then show ?thesis using levels_fault [of g origin f] by (simp add: generalizations_def into_resolution_invariant)
next
  case (Inr levels)
  have "\<exists>rs. resolve_paths g (concat (drop 1 levels)) = Inr rs"
    using levels_present [OF Inr] in_set_dropD by (intro resolve_paths_Inr [OF assms]) fastforce
  then show ?thesis by (auto simp: generalizations_def Inr)
qed

text \<open>C29: Resolution works on every graph the loader builds: each of its classes resolves, by path and by the identity the
  path resolves to, to the same result, an identity resolves only to the class that has it, and neither class, member
  nor generalization resolution ever reports a violated graph invariant.\<close>

theorem loaded_graph_resolves:
  assumes "load_model_documents env docs = Some (Inr g)"
  shows "(\<forall>path. graph_class g path \<noteq> None \<longrightarrow>
      (\<exists>r. resolve_class g path = Found r \<and> class_path r = path \<and> resolve_class_id g (class_id r) = Found r)) \<and>
    (\<forall>i r. resolve_class_id g i = Found r \<longrightarrow> class_id r = i) \<and>
    \<not> invariant_resolution (resolve_class g path) \<and> \<not> invariant_resolution (resolve_member g path name) \<and>
    \<not> invariant_resolution (generalizations g path)"
proof -
  have ok: "graph_consistent g" using assms by (rule load_fragments) (rule finish_consistent)
  have ids: "ids_complete g" using ok by (rule consistent_ids)
  have own: "graph_class g p = Some c \<Longrightarrow> ci_path c = p" for p c using ok by (simp add: graph_consistent_def)
  have at: "graph_class_id g p = Some i \<longleftrightarrow> i < length (paths_by_id g) \<and> paths_by_id g ! i = p" for p i
    using ok by (simp add: graph_consistent_def)
  have found: "\<exists>r. resolve_class g p = Found r \<and> class_path r = p \<and> graph_class_id g p = Some (class_id r)"
    if p: "graph_class g p = Some c" for p c
    by (rule resolved_class_Inr [OF ids p]) (simp add: resolve_class_def p)
  have by_id: "resolve_class_id g i = resolve_class g p" if "graph_class g p = Some c" "graph_class_id g p = Some i" for p c i
    using that at own [OF that(1)] by (simp add: resolve_class_id_def class_by_id_def graph_class_def)
  have "\<exists>r. resolve_class g p = Found r \<and> class_path r = p \<and> resolve_class_id g (class_id r) = Found r"
    if present: "graph_class g p \<noteq> None" for p
  proof -
    obtain c where c: "graph_class g p = Some c" using present by blast
    obtain r where r: "resolve_class g p = Found r" "class_path r = p" "graph_class_id g p = Some (class_id r)"
      using found [OF c] by blast
    then show ?thesis using by_id [OF c r(3)] by simp
  qed
  moreover have "class_id r = i" if "resolve_class_id g i = Found r" for i r
  proof -
    obtain c where c: "class_by_id g i = Some c" "resolve_class g (ci_path c) = Found r"
      using \<open>resolve_class_id g i = Found r\<close> by (cases "class_by_id g i") (simp_all add: resolve_class_id_def)
    then have p: "i < length (paths_by_id g)" "graph_class g (paths_by_id g ! i) = Some c"
      by (simp_all add: class_by_id_def graph_class_def split: if_splits)
    then have "ci_path c = paths_by_id g ! i" using own by blast
    then have "graph_class_id g (paths_by_id g ! i) = Some (class_id r)" using found [OF p(2)] c(2) by auto
    then show ?thesis using at [of "paths_by_id g ! i" i] p(1) by simp
  qed
  moreover have "\<not> invariant_resolution (resolve_class g path)"
    using found [of path] by (cases "graph_class g path") (auto simp: resolve_class_def)
  ultimately show ?thesis using resolve_member_no_invariant [OF ids] generalizations_no_invariant [OF ids] by blast
qed


section \<open>Totality\<close>

lemma parse_pure_document_total:
  assumes "logos_covers logos src" "length src \<le> u32_max"
  shows "\<exists>f. parse_pure_document logos owner name src source = Some (Inr f)"
proof -
  obtain p where "parse_domain logos owner src (file_of_source source) = Some (Inr p)"
    by (rule parse_domain_tree [OF assms])
  then show ?thesis by (simp add: parse_pure_document_def split: prod.split)
qed

text \<open>Pure sources contribute open-world associations only.\<close>

definition pure_elements :: "elements \<Rightarrow> bool" where
  "pure_elements es \<longleftrightarrow> (\<forall>a. FragmentAssociation a \<in> snd ` set es \<longrightarrow> draft_provenance a = PureFile)"

lemma pure_elements_insert:
  assumes "pure_elements es" "\<And>a. e = FragmentAssociation a \<Longrightarrow> draft_provenance a = PureFile"
  shows "pure_elements (bt_insert path e es)"
proof -
  have "snd ` set (bt_insert path e es) \<subseteq> insert e (snd ` set es)"
    using image_mono [OF bt_insert_set [of path e es], of snd] by simp
  then show ?thesis using assms unfolding pure_elements_def by blast
qed

lemma match_pair: "(\<And>first second. e \<noteq> Some [first, second]) \<Longrightarrow> (case e of Some [first, second] \<Rightarrow> f first second | _ \<Rightarrow> u) = u"
  by (auto split: option.split list.split)

lemma lower_association_certain:
  assumes "\<not> node_has_coverage_gap node ctx" "declaration_path node = Some (path, i)"
    "\<not> temporal_uncertain (annotations_before node i)"
  shows "lower_association node ctx = (case lower_ends (direct_nodes node DOMAIN_PROPERTY_DECL) of
      Some [first, second] \<Rightarrow> \<lparr>lowered_value = Some \<lparr>draft_path = path, draft_first = first, draft_second = second,
          draft_temporal = af_temporal (annotations_before node i), draft_provenance = PureFile,
          draft_source = ctx_source ctx, draft_span = Some (green_range node)\<rparr>, lowered_uncertain = False\<rparr>
    | _ \<Rightarrow> uncertain_association)"
  using assms by (simp add: lower_association_def)

lemma lower_association_uncertain:
  assumes "node_has_coverage_gap node ctx \<or> declaration_path node = None \<or>
    (\<exists>path i. declaration_path node = Some (path, i) \<and> temporal_uncertain (annotations_before node i))"
  shows "lower_association node ctx = uncertain_association"
  using assms by (cases "node_has_coverage_gap node ctx") (auto simp: lower_association_def)

lemma lower_association_pure:
  assumes "lowered_value (lower_association node ctx) = Some a"
  shows "draft_provenance a = PureFile"
proof (cases "node_has_coverage_gap node ctx \<or> declaration_path node = None \<or>
    (\<exists>path i. declaration_path node = Some (path, i) \<and> temporal_uncertain (annotations_before node i))")
  case True
  then show ?thesis using assms lower_association_uncertain [OF True] by (simp add: uncertain_association_def)
next
  case False
  then obtain path i where "\<not> node_has_coverage_gap node ctx" "declaration_path node = Some (path, i)"
    "\<not> temporal_uncertain (annotations_before node i)" by auto
  note low = lower_association_certain [OF this]
  show ?thesis
  proof (cases "\<exists>first second. lower_ends (direct_nodes node DOMAIN_PROPERTY_DECL) = Some [first, second]")
    case True
    then show ?thesis using assms low by auto
  next
    case other: False
    then have "lower_association node ctx = uncertain_association" unfolding low by (intro match_pair) blast
    then show ?thesis using assms by (simp add: uncertain_association_def)
  qed
qed

lemma note_top_level_associations: "df_associations (note_top_level kind node facts) = df_associations facts"
  by (simp add: note_top_level_def split: option.split prod.split)

lemma lower_declaration_pure:
  "list_all (\<lambda>a. draft_provenance a = PureFile) (df_associations facts) \<Longrightarrow>
     list_all (\<lambda>a. draft_provenance a = PureFile) (df_associations (lower_declaration ctx node facts))"
  unfolding lower_declaration_def Let_def
  by (auto simp: note_top_level_associations split: option.split prod.split dest: lower_association_pure)

lemma lower_domain_pure: "pure_elements (fst (lower_domain tree ctx))"
proof (cases "find_domain_file tree")
  case None
  then show ?thesis by (simp add: lower_domain_def pure_elements_def)
next
  case (Some df)
  let ?facts = "fold (lower_declaration ctx) (child_nodes df)
                \<lparr>df_gap = list_ex (\<lambda>g. gap_kind g = UnsupportedTopLevel) (ctx_gaps ctx), df_classes = [],
                 df_associations = [], df_declarations = [], df_diagnostics = []\<rparr>"
  have drafts: "list_all (\<lambda>a. draft_provenance a = PureFile) (df_associations ?facts)"
    by (rule fold_invariant_set) (simp_all add: lower_declaration_pure)
  have "pure_elements (fold (insert_class ds uncertain) (df_classes ?facts) [])" for ds uncertain
    by (rule fold_invariant_set) (auto simp: insert_class_def intro: pure_elements_insert, simp add: pure_elements_def)
  moreover have "pure_elements es \<Longrightarrow> pure_elements (fold (insert_association ds) (df_associations ?facts) es)" for ds es
    by (rule fold_invariant_set [where P = pure_elements])
      (use drafts in \<open>auto simp: insert_association_def list_all_iff intro: pure_elements_insert\<close>)
  ultimately have "pure_elements (fold (insert_association ds) (df_associations ?facts)
      (fold (insert_class ds uncertain) (df_classes ?facts) []))" for ds uncertain by blast
  then show ?thesis by (simp add: lower_domain_def Some Let_def split: prod.splits)
qed

lemma pure_elements_Cons:
  "pure_elements ((p, e) # es) \<longleftrightarrow> (\<forall>a. e = FragmentAssociation a \<longrightarrow> draft_provenance a = PureFile) \<and> pure_elements es"
  by (auto simp: pure_elements_def)

lemma ingest_elements_pure:
  "pure_elements (merger_elements m) \<Longrightarrow> pure_elements es \<Longrightarrow>
     pure_elements (merger_elements (fold (ingest_element source label) es m))"
proof (induction es arbitrary: m)
  case (Cons x es)
  obtain p e where x: "x = (p, e)" by (cases x)
  have "pure_elements (merger_elements (ingest_element source label (p, e) m))"
    unfolding ingest_element_sel using Cons.prems by (intro pure_elements_insert) (simp_all add: x pure_elements_Cons)
  then show ?case using Cons.IH [of "ingest_element source label (p, e) m"] Cons.prems(2) by (simp add: x pure_elements_Cons)
qed simp

lemma ingest_pure_elements:
  "pure_elements (merger_elements m) \<Longrightarrow> pure_elements (fragment_elements f) \<Longrightarrow>
     pure_elements (merger_elements (ingest_fragment source label origin f m))"
  unfolding ingest_fragment_def by (rule ingest_elements_pure) simp_all

lemma ingest_pure_total:
  assumes "\<And>d. d \<in> set docs \<Longrightarrow> logos_covers (env_logos env) (pure_source d) \<and> length (pure_source d) \<le> u32_max"
    and "index + length docs \<le> Suc u32_max" and "pure_elements (merger_elements m)"
  shows "\<exists>m'. ingest_documents env index (map PureModel docs) m = Some (Inr m') \<and> pure_elements (merger_elements m')"
  using assms
proof (induction docs arbitrary: index m)
  case (Cons d docs)
  obtain f where f: "parse_pure_document (env_logos env) (env_owner env) (pure_label d) (pure_source d) index = Some (Inr f)"
    using parse_pure_document_total Cons.prems(1) [of d] by (metis list.set_intros(1))
  then have "pure_elements (fragment_elements f)"
    by (rule parse_pure_document_Inr) (metis fst_conv lower_domain_pure)
  then have pure: "pure_elements (merger_elements (ingest_fragment index (pure_label d) PureFile f m))"
    using Cons.prems(3) by (intro ingest_pure_elements)
  have step: "ingest_documents env index (map PureModel (d # docs)) m =
      ingest_documents env (Suc index) (map PureModel docs) (ingest_fragment index (pure_label d) PureFile f m)"
    using Cons.prems(2) f by (simp add: to_source_id_def ingest_pure_def and_then_def)
  show ?case unfolding step using Cons.prems(1,2) pure by (intro Cons.IH) simp_all
qed simp

lemma index_step_error:
  "fold_result index_step xs st = Inl e \<Longrightarrow> \<exists>i. e = TooManyClasses i"
  by (induction xs arbitrary: st) (auto simp: index_step_def split: sum.splits prod.splits if_splits)

lemma finish_pure:
  assumes "elements_ok (merger_elements m)" "pure_elements (merger_elements m)"
  shows "(\<exists>g. finish m = Inr g) \<or> (\<exists>i. finish m = Inl (TooManyClasses i))"
proof -
  define es where "es = merger_elements m"
  let ?cs = "merged_classes es" and ?ps = "merged_prepared es"
  have es: "elements_ok es" "pure_elements es" using assms by (simp_all add: es_def)
  obtain drafts where split: "fold split_element es ([], []) = (?cs, drafts)"
    by (metis merged_classes_def prod.collapse)
  then have prepared: "?ps = map prepared_from_draft drafts" by (simp add: merged_prepared_def)
  have "pa_provenance a = PureFile" if a: "a \<in> set ?ps" for a
  proof -
    obtain d where d: "d \<in> set (List.map_filter (draft_of_element \<circ> snd) es)" "a = prepared_from_draft d"
      using a merged_split(2) [OF es(1)] by auto
    then obtain x where x: "x \<in> set es" "draft_of_element (snd x) = Some d" by (auto simp: map_filter_def)
    then have "snd x = FragmentAssociation d" by (cases "snd x") simp_all
    then have "FragmentAssociation d \<in> snd ` set es" using x(1) by (metis image_eqI)
    then show ?thesis using es(2) d(2) by (simp add: pure_elements_def prepared_from_draft_def)
  qed
  then have "pmcd_accepted ?cs ?ps" by (simp add: pmcd_accepted_def)
  then obtain am where am: "materialize_associations ?cs drafts = Inr am"
    by (rule materialize_Inr [OF merged_split(1) [OF es(1)] prepared])
  show ?thesis
  proof (cases "finish m")
    case (Inl e)
    let ?final = "if am_gap am then map (\<lambda>(path, c). (path, mark_coverage_gap c)) (am_classes am) else am_classes am"
    have "index_classes ?final = Inl e"
      using Inl unfolding finish_def es_def [symmetric] split prod.case Let_def am and_then_def sum.case
      by (cases "index_classes ?final") (simp_all split: prod.splits)
    then show ?thesis using Inl index_step_error unfolding index_classes_def by blast
  qed blast
qed

text \<open>C30: Pure sources always load. For any list of at most \<open>2 ^ 32\<close> Pure documents of up to 4 GiB that the lexer covers,
  however malformed, loading returns, and it returns a graph unless there are more classes than identities: neither a
  syntax error nor a conflict between the documents is a failure.\<close>

theorem pure_documents_load:
  assumes "\<And>d. d \<in> set docs \<Longrightarrow> logos_covers (env_logos env) (pure_source d) \<and> length (pure_source d) \<le> u32_max"
    and "length docs \<le> Suc u32_max"
  shows "(\<exists>g. load_pure_documents env docs = Some (Inr g)) \<or>
    (\<exists>i. load_pure_documents env docs = Some (Inl (TooManyClasses i)))"
proof -
  have start: "pure_elements (merger_elements merger_default)" "elements_ok (merger_elements merger_default)"
    by (simp_all add: merger_default_def pure_elements_def)
  obtain m where m: "ingest_documents env 0 (map PureModel docs) merger_default = Some (Inr m)" "pure_elements (merger_elements m)"
    using ingest_pure_total [of docs env 0 merger_default] assms start(1) by auto
  have "elements_ok (merger_elements m)" using ingest_documents_fragments [OF m(1) start(2)] by blast
  from finish_pure [OF this m(2)] show ?thesis
    by (auto simp: load_pure_documents_def load_model_documents_def m(1) and_then_def)
qed

end
