(* ===== verification/PureLoweringProperties.thy ===== *)
theory PureLoweringProperties
  imports LoadedModels
begin

text \<open>
  What the lowering of Pure sources confirms: a class without a coverage gap was read completely, from a source in
  which nothing at the top level was left unread.
\<close>

section \<open>Members\<close>

abbreviation is_property :: "green_node \<Rightarrow> bool" where
  "is_property n \<equiv> green_kind n = Nod DOMAIN_PROPERTY_DECL"

abbreviation is_qualified :: "green_node \<Rightarrow> bool" where
  "is_qualified n \<equiv> green_kind n = Nod DOMAIN_QUALIFIED_PROPERTY_DECL"

abbreviation is_opaque :: "green_node \<Rightarrow> bool" where
  "is_opaque n \<equiv> green_kind n = Nod DOMAIN_OPAQUE_NODE \<or> green_kind n = Nod ERROR_NODE"

text \<open>The stereotypes that apply to the member after \<open>ns\<close>: those since the last member.\<close>

definition pending_annotations :: "green_node list \<Rightarrow> AnnotationFacts" where
  "pending_annotations ns =
     fold (\<lambda>n a. if is_opaque n \<or> is_property n \<or> is_qualified n then annotation_default
                 else if green_kind n = Nod DOMAIN_STEREOTYPE_APPLICATIONS then annotation_merge a (annotation_facts n)
                 else a) ns annotation_default"

definition annotated :: "green_node list \<Rightarrow> (green_node \<times> AnnotationFacts) list" where
  "annotated ns = map (\<lambda>i. (ns ! i, pending_annotations (take i ns))) [0..<length ns]"

lemma annotated_snoc [simp]: "annotated [] = []" "annotated (ns @ [n]) = annotated ns @ [(n, pending_annotations ns)]"
  by (simp_all add: annotated_def nth_append)













lemma pending_snoc [simp]:
  "pending_annotations [] = annotation_default"
  "pending_annotations (ns @ [n]) =
     (if is_opaque n \<or> is_property n \<or> is_qualified n then annotation_default
      else if green_kind n = Nod DOMAIN_STEREOTYPE_APPLICATIONS then annotation_merge (pending_annotations ns) (annotation_facts n)
      else pending_annotations ns)"
  by (simp_all add: pending_annotations_def)



section \<open>Classes\<close>






section \<open>Files\<close>






end
