(* ===== verification/ModelScenarios.thy ===== *)
theory ModelScenarios
  imports LoadedModelProperties PureLoweringProperties "HOL-Library.Code_Target_Nat"
begin

text \<open>
  Concrete loads: two compiled documents that define the same class, the second of them also another class and an
  association between the two, and the Pure source of an empty class.
\<close>

section \<open>Compiled documents\<close>

text \<open>
  The readers of this environment know two documents: \<open>first\<close> holds the class \<open>A\<close>, and \<open>second\<close> the classes \<open>A\<close> and \<open>B\<close>
  and the association \<open>AB\<close> between them.
\<close>

definition sample_element :: "string \<Rightarrow> string \<Rightarrow> Value" where
  "sample_element kind name = Object [(''_type'', String kind), (''name'', String name)]"

definition sample_name :: "Value \<Rightarrow> string" where
  "sample_name element = (case Option.bind (value_get element ''name'') value_as_str of Some name \<Rightarrow> name | None \<Rightarrow> [])"

definition sample_json :: "string \<Rightarrow> string + Value" where
  "sample_json json =
     Inr (Object [(''_type'', String ''data''),
       (''elements'', Array (if json = ''first'' then [sample_element ''class'' ''A'']
          else [sample_element ''class'' ''A'', sample_element ''class'' ''B'', sample_element ''association'' ''AB'']))])"

definition sample_class :: "Value \<Rightarrow> string + RawClass" where
  "sample_class element =
     Inr \<lparr>rc_package = ''m'', rc_name = sample_name element, rc_super_types = [], rc_stereotypes = [], rc_properties = [],
       rc_qualified = []\<rparr>"

definition sample_end :: "string \<Rightarrow> string \<Rightarrow> RawProperty" where
  "sample_end name target =
     \<lparr>rp_name = name, rp_type = RawGenericType (RawTypeString target) [],
      rp_multiplicity = \<lparr>raw_lower = 0, raw_upper = None\<rparr>\<rparr>"

definition sample_association :: "Value \<Rightarrow> string + RawAssociation" where
  "sample_association element =
     Inr \<lparr>ra_package = ''m'', ra_name = sample_name element, ra_stereotypes = [],
       ra_properties = [sample_end ''toA'' ''m::A'', sample_end ''toB'' ''m::B'']\<rparr>"

text \<open>The tokens of \<open>Class m::A {}\<close>, for the Pure document below.\<close>

definition sample_pure :: string where
  "sample_pure = ''Class m::A {}''"

definition sample_tokens :: logos where
  "sample_tokens source =
     (if source = sample_pure
      then [(Some IDENT, 0, 5), (Some WHITESPACE, 5, 6), (Some IDENT, 6, 7), (Some PATH_SEPARATOR, 7, 9), (Some IDENT, 9, 10),
        (Some WHITESPACE, 10, 11), (Some BRACE_OPEN, 11, 12), (Some BRACE_CLOSE, 12, 13)]
      else [])"

definition sample_env :: loader_env where
  "sample_env = \<lparr>json_from_str = sample_json, class_from_value = sample_class, association_from_value = sample_association,
     env_logos = sample_tokens, env_owner = 0\<rparr>"

definition sample_documents :: "ModelDocument list" where
  "sample_documents =
     [PmcdModel \<lparr>pmcd_label = ''one'', pmcd_json = ''first''\<rparr>, PmcdModel \<lparr>pmcd_label = ''two'', pmcd_json = ''second''\<rparr>]"

definition sample_load :: "(ModelError + ModelGraph) option" where
  "sample_load = load_model_documents sample_env sample_documents"

lemma returned_Inr: "(case x of Some (Inr y) \<Rightarrow> P y | _ \<Rightarrow> False) \<Longrightarrow> \<exists>y. x = Some (Inr y) \<and> P y"
  by (auto split: option.split_asm sum.split_asm)


lemma sample_loads: "case sample_load of
    Some (Inr g) \<Rightarrow> graph_class g ''m::A'' \<noteq> None \<and> length (associations g) = 1 \<and> merge_warnings (graph_diagnostics g) = 1
  | _ \<Rightarrow> False"
  by code_simp

lemma sample_graph:
  obtains g where "load_model_documents sample_env sample_documents = Some (Inr g)" "graph_class g ''m::A'' \<noteq> None"
    "length (associations g) = 1" "merge_warnings (graph_diagnostics g) = 1"
  using returned_Inr [OF sample_loads] unfolding sample_load_def by blast


lemma loaded_graph_consistent_witness:
  "\<exists>g. load_model_documents sample_env sample_documents = Some (Inr g) \<and> length (associations g) = 1 \<and> graph_consistent g"
proof -
  obtain g where g: "load_model_documents sample_env sample_documents = Some (Inr g)" "length (associations g) = 1"
    by (rule sample_graph)
  from loaded_graph_consistent [OF g(1)] g show ?thesis by blast
qed

lemma loaded_graph_resolves_witness:
  "\<exists>g r. load_model_documents sample_env sample_documents = Some (Inr g) \<and> resolve_class g ''m::A'' = Found r \<and>
     class_path r = ''m::A''"
proof -
  obtain g where g: "load_model_documents sample_env sample_documents = Some (Inr g)" "graph_class g ''m::A'' \<noteq> None"
    by (rule sample_graph)
  from loaded_graph_resolves [OF g(1)] g show ?thesis by blast
qed

text \<open>A compiled association to a class that no document defines.\<close>

definition lone_classes :: classes where
  "lone_classes = [(''m::A'', class_info_new ''m::A'' [] None [] [] 0)]"

definition dangling :: AssocDraft where
  "dangling = \<lparr>draft_path = ''m::AB'',
     draft_first = prop_declared ''toA'' (TypeRef ''m::A'' []) zero_or_more,
     draft_second = prop_declared ''toB'' (TypeRef ''m::B'' []) zero_or_more,
     draft_temporal = None, draft_provenance = Pmcd, draft_source = 3, draft_span = None\<rparr>"

lemma dangling_fails: "isl (materialize_associations lone_classes [dangling])"
  by code_simp

lemma materialization_exact_witness:
  "\<exists>kind. materialize_associations lone_classes [dangling] = Inl (InvalidMergedGraph 3 kind)"
proof -
  have ok: "classes_ok lone_classes"
    by (simp add: classes_ok_def lone_classes_def class_info_new_def class_ok_def bt_ok_def)
  obtain e where e: "materialize_associations lone_classes [dangling] = Inl e"
    using dangling_fails by (auto simp: isl_def)
  have "pa_source (prepared_from_draft dangling) = 3" by (simp add: prepared_from_draft_def dangling_def)
  then show ?thesis using materialization_exact [OF ok refl, of "[dangling]"] e by auto
qed


section \<open>A Pure source\<close>




lemma sample_pure_covers: "logos_covers sample_tokens sample_pure \<and> length sample_pure \<le> u32_max"
  by code_simp

lemma pure_documents_load_witness:
  "(\<exists>g. load_pure_documents sample_env [\<lparr>pure_label = ''three'', pure_source = sample_pure\<rparr>] = Some (Inr g)) \<or>
   (\<exists>i. load_pure_documents sample_env [\<lparr>pure_label = ''three'', pure_source = sample_pure\<rparr>] = Some (Inl (TooManyClasses i)))"
  by (rule pure_documents_load) (use sample_pure_covers in \<open>simp_all add: sample_env_def u32_max_def\<close>)

end
