(* ===== verification/NameTrie.thy ===== *)
theory NameTrie
  imports FixedPda "HOL-Library.Char_ord"
begin

text \<open>
  The byte trie of legal names that makes schema narrowing independent of how a name is split into tokens
  (\<^verbatim>\<open>crates/pure-analyzer-purecard/src/schema/trie.rs\<close>). Node identifiers are below \<open>2 ^ 32\<close>: a trie has at most one
  node per byte of its names, plus the root.
\<close>

section \<open>The trie\<close>

datatype NameClose = Free | MustFollow char

fun admits :: "NameClose \<Rightarrow> char \<Rightarrow> bool" where
  "admits Free byte \<longleftrightarrow> True"
| "admits (MustFollow required) byte \<longleftrightarrow> byte = required"

datatype NameShape = Plain | ClassPath

definition name_continues :: "NameShape \<Rightarrow> char \<Rightarrow> bool" where
  "name_continues shape byte \<longleftrightarrow> is_ident_tail byte \<or> (shape = ClassPath \<and> byte = CHR '':'')"

datatype Walk = Stay nat | Complete nat char | Diverge

record TrieNode =
  tn_next :: "(char \<times> nat) list"
  tn_terminal :: bool
  tn_close :: NameClose

definition node_default :: TrieNode where
  "node_default = \<lparr>tn_next = [], tn_terminal = False, tn_close = Free\<rparr>"

type_synonym trie = "TrieNode list"

text \<open>\<^verbatim>\<open>binary_search_by_key\<close> on edges sorted by byte: the index of the byte (\<open>Inr\<close>), or where it belongs (\<open>Inl\<close>).\<close>

definition search_edge :: "char \<Rightarrow> (char \<times> nat) list \<Rightarrow> nat + nat" where
  "search_edge byte edges =
     (case position (\<lambda>(b, _). b = byte) edges of
        Some i \<Rightarrow> Inr i
      | None \<Rightarrow> Inl (length (takeWhile (\<lambda>(b, _). b < byte) edges)))"

definition trie_child :: "trie \<Rightarrow> nat \<Rightarrow> char \<Rightarrow> nat option" where
  "trie_child t node byte =
     (case search_edge byte (tn_next (t ! node)) of
        Inr i \<Rightarrow> Some (snd (tn_next (t ! node) ! i))
      | Inl _ \<Rightarrow> None)"

definition list_insert_at :: "nat \<Rightarrow> 'a \<Rightarrow> 'a list \<Rightarrow> 'a list" where
  "list_insert_at i x xs = take i xs @ x # drop i xs"

text \<open>One byte of \<^verbatim>\<open>insert\<close>: follow the edge or add a node for it.\<close>

definition insert_byte :: "char \<Rightarrow> trie \<times> nat \<Rightarrow> trie \<times> nat" where
  "insert_byte byte st =
     (case st of (t, node) \<Rightarrow>
        case trie_child t node byte of
          Some child \<Rightarrow> (t, child)
        | None \<Rightarrow>
            let child = length t;
                t = t @ [node_default];
                edges = tn_next (t ! node);
                at = (case search_edge byte edges of Inl at \<Rightarrow> at | Inr at \<Rightarrow> at)
            in (t[node := (t ! node)\<lparr>tn_next := list_insert_at at (byte, child) edges\<rparr>], child))"

definition trie_insert :: "string \<Rightarrow> NameClose \<Rightarrow> trie \<Rightarrow> trie" where
  "trie_insert bytes closing t =
     (case fold insert_byte bytes (t, 0) of (t, node) \<Rightarrow>
        let t = t[node := (t ! node)\<lparr>tn_terminal := True\<rparr>]
        in t[node := (t ! node)\<lparr>tn_close := closing\<rparr>])"

definition from_closing_names :: "(string \<times> NameClose) list \<Rightarrow> trie" where
  "from_closing_names names = fold (\<lambda>(name, closing). trie_insert name closing) names [node_default]"

definition from_names :: "string list \<Rightarrow> trie" where
  "from_names names = from_closing_names (map (\<lambda>name. (name, Free)) names)"


definition is_terminal :: "trie \<Rightarrow> nat \<Rightarrow> bool" where
  "is_terminal t node \<longleftrightarrow> tn_terminal (t ! node)"


fun trie_walk :: "trie \<Rightarrow> nat \<Rightarrow> string \<Rightarrow> NameShape \<Rightarrow> Walk" where
  "trie_walk t node [] shape = Stay node"
| "trie_walk t node (byte # bytes) shape =
     (case trie_child t node byte of
        Some child \<Rightarrow> trie_walk t child bytes shape
      | None \<Rightarrow>
          if is_terminal t node \<and> \<not> name_continues shape byte then Complete node byte else Diverge)"


section \<open>Paths\<close>












section \<open>Adding names\<close>















section \<open>Walking\<close>

text \<open>
  How the bytes of a name are split into tokens does not matter: walking a token and then, if the name stays open,
  the next token gives what walking both at once gives. Once a walk completes or diverges, the bytes behind its boundary
  do not change the verdict.
\<close>

theorem trie_walk_split:
  "trie_walk t node (xs @ ys) shape =
     (case trie_walk t node xs shape of Stay m \<Rightarrow> trie_walk t m ys shape | verdict \<Rightarrow> verdict)"
  by (induction xs arbitrary: node) (simp_all split: option.split)




end
