(* ===== verification/SchemaModel.thy ===== *)
theory SchemaModel
  imports Prelude
begin

text \<open>
  The schema contract that a schema-aware decode consults (\<^verbatim>\<open>crates/pure-analyzer-purecard/src/schema/model.rs\<close>): its
  data, the precomputed navigation steps, member sets and member resolution. Hash maps are read by key only, so they are
  maps; the classes are kept as an association list, which bounds the recursion over super-types. Reading JSON is serde's.
\<close>

section \<open>The contract\<close>

datatype PrimName =
    PrimInteger | PrimFloat | PrimDecimal | PrimNumber | PrimString | PrimBoolean | PrimDate | PrimStrictDate | PrimDateTime

datatype TypeClass = NumericClass | StrClass | BooleanClass | TemporalClass

definition prim_from_ident :: "string \<Rightarrow> PrimName option" where
  "prim_from_ident word = map_of
     [(''Integer'', PrimInteger), (''Float'', PrimFloat), (''Decimal'', PrimDecimal), (''Number'', PrimNumber),
      (''String'', PrimString), (''Boolean'', PrimBoolean), (''Date'', PrimDate), (''StrictDate'', PrimStrictDate),
      (''DateTime'', PrimDateTime)] word"

fun prim_class :: "PrimName \<Rightarrow> TypeClass" where
  "prim_class PrimInteger = NumericClass"
| "prim_class PrimFloat = NumericClass"
| "prim_class PrimDecimal = NumericClass"
| "prim_class PrimNumber = NumericClass"
| "prim_class PrimString = StrClass"
| "prim_class PrimBoolean = BooleanClass"
| "prim_class PrimDate = TemporalClass"
| "prim_class PrimStrictDate = TemporalClass"
| "prim_class PrimDateTime = TemporalClass"

datatype PropType = PrimitiveType PrimName | ClassType string | EnumType string

record SchemaMultiplicity =
  sm_lower :: nat
  sm_upper :: "nat option"

definition SCALAR_UPPER :: nat where
  "SCALAR_UPPER = 1"

definition schema_is_to_one :: "SchemaMultiplicity \<Rightarrow> bool" where
  "schema_is_to_one m \<longleftrightarrow> sm_upper m = Some SCALAR_UPPER"

record PropertySpec =
  ps_name :: string
  ps_ty :: PropType
  ps_mult :: SchemaMultiplicity

record QualifiedPropertySpec =
  qps_name :: string
  qps_return_type :: PropType
  qps_return_mult :: SchemaMultiplicity

datatype SchemaTemporal = Business | Processing | SchemaBitemporal

fun schema_temporal_arity :: "SchemaTemporal \<Rightarrow> nat" where
  "schema_temporal_arity Business = 1"
| "schema_temporal_arity Processing = 1"
| "schema_temporal_arity SchemaBitemporal = 2"

record SchemaClass =
  sc_simple_name :: string
  sc_properties :: "PropertySpec list"
  sc_qualified_properties :: "QualifiedPropertySpec list"
  sc_super_types :: "string list"
  sc_temporal :: "SchemaTemporal option"

record AssociationEnd =
  ae_property_name :: string
  ae_target_class :: string
  ae_mult :: SchemaMultiplicity

record AssociationSpec =
  as_path :: string
  as_ends :: "AssociationEnd \<times> AssociationEnd"

record NavStep =
  ns_prop :: string
  ns_target :: string
  ns_mult :: SchemaMultiplicity

datatype Resolved =
    ResolvedPrimitive PrimName SchemaMultiplicity
  | ResolvedClass string SchemaMultiplicity
  | ResolvedEnum string SchemaMultiplicity

record SchemaData =
  sd_db_id :: string
  sd_db_path :: string
  sd_classes :: "(string \<times> SchemaClass) list"
  sd_associations :: "AssociationSpec list"
  sd_enums :: "string \<rightharpoonup> string list"

record Schema =
  db_id :: string
  db_path :: string
  schema_classes :: "(string \<times> SchemaClass) list"
  schema_enums :: "string \<rightharpoonup> string list"
  navigable :: "string \<rightharpoonup> NavStep list"


section \<open>Construction\<close>

text \<open>\<^verbatim>\<open>navigable.entry(key).or_default().push(step)\<close>\<close>

definition push_step :: "string \<Rightarrow> NavStep \<Rightarrow> (string \<rightharpoonup> NavStep list) \<Rightarrow> (string \<rightharpoonup> NavStep list)" where
  "push_step key nav_step nav = nav(key \<mapsto> (case nav key of Some nav_steps \<Rightarrow> nav_steps | None \<Rightarrow> []) @ [nav_step])"

definition step_to :: "AssociationEnd \<Rightarrow> NavStep" where
  "step_to e = \<lparr>ns_prop = ae_property_name e, ns_target = ae_target_class e, ns_mult = ae_mult e\<rparr>"

definition build_navigable :: "AssociationSpec list \<Rightarrow> (string \<rightharpoonup> NavStep list)" where
  "build_navigable associations =
     fold (\<lambda>assoc nav.
       case as_ends assoc of (e0, e1) \<Rightarrow>
         push_step (ae_target_class e1) (step_to e0) (push_step (ae_target_class e0) (step_to e1) nav))
       associations Map.empty"

definition schema_from_data :: "SchemaData \<Rightarrow> Schema" where
  "schema_from_data d =
     \<lparr>db_id = sd_db_id d, db_path = sd_db_path d, schema_classes = sd_classes d, schema_enums = sd_enums d,
      navigable = build_navigable (sd_associations d)\<rparr>"

text \<open>\<^verbatim>\<open>Schema::from_json\<close>, for the JSON reader \<open>from_str\<close>.\<close>

definition schema_from_json :: "(string \<Rightarrow> 'e + SchemaData) \<Rightarrow> string \<Rightarrow> 'e + Schema" where
  "schema_from_json from_str json =
     (case from_str json of Inl e \<Rightarrow> Inl e | Inr d \<Rightarrow> Inr (schema_from_data d))"


section \<open>Queries\<close>

definition class_info :: "Schema \<Rightarrow> string \<Rightarrow> SchemaClass option" where
  "class_info sc path = map_of (schema_classes sc) path"

definition has_class :: "Schema \<Rightarrow> string \<Rightarrow> bool" where
  "has_class sc path \<longleftrightarrow> class_info sc path \<noteq> None"

text \<open>The keys of a hash map come in no particular order.\<close>

definition source_paths :: "Schema \<Rightarrow> string set" where
  "source_paths sc = insert (db_path sc) (fst ` set (schema_classes sc))"

definition nav_steps :: "Schema \<Rightarrow> string \<Rightarrow> NavStep list" where
  "nav_steps sc path = (case navigable sc path of Some nav \<Rightarrow> nav | None \<Rightarrow> [])"

definition enum_values :: "Schema \<Rightarrow> string \<Rightarrow> string list option" where
  "enum_values sc path = schema_enums sc path"

definition class_temporal :: "Schema \<Rightarrow> string \<Rightarrow> SchemaTemporal option" where
  "class_temporal sc path = Option.bind (class_info sc path) sc_temporal"

fun resolved_from :: "PropType \<Rightarrow> SchemaMultiplicity \<Rightarrow> Resolved" where
  "resolved_from (PrimitiveType prim) mult = ResolvedPrimitive prim mult"
| "resolved_from (ClassType path) mult = ResolvedClass path mult"
| "resolved_from (EnumType path) mult = ResolvedEnum path mult"

text \<open>
  The recursion over super-types threads the visited classes and gets fuel for the calls below one another; running out of
  it is \<^const>\<open>None\<close>. Only known classes that were not visited recur, so one more than the number of classes is enough.
\<close>

fun collect_members :: "nat \<Rightarrow> Schema \<Rightarrow> string \<Rightarrow> string list \<times> string list \<Rightarrow> (string list \<times> string list) option"
  and collect_parents :: "nat \<Rightarrow> Schema \<Rightarrow> string list \<Rightarrow> string list \<times> string list \<Rightarrow> (string list \<times> string list) option"
  where
  "collect_members 0 sc path st = None"
| "collect_members (Suc fuel) sc path (names, visited) =
     (if path \<in> set visited then Some (names, visited)
      else
        let visited = visited @ [path];
            collected =
              (case class_info sc path of
                 None \<Rightarrow> Some (names, visited)
               | Some info \<Rightarrow>
                   collect_parents fuel sc (sc_super_types info)
                     (names @ map ps_name (sc_properties info) @ map qps_name (sc_qualified_properties info), visited))
        in Option.bind collected (\<lambda>(names, visited). Some (names @ map ns_prop (nav_steps sc path), visited)))"
| "collect_parents fuel sc [] st = Some st"
| "collect_parents fuel sc (parent # parents) st =
     Option.bind (collect_members fuel sc parent st) (collect_parents fuel sc parents)"

definition member_fuel :: "Schema \<Rightarrow> nat" where
  "member_fuel sc = Suc (length (schema_classes sc))"

definition member_names :: "Schema \<Rightarrow> string \<Rightarrow> string list option" where
  "member_names sc path = map_option fst (collect_members (member_fuel sc) sc path ([], []))"

text \<open>The own members of a class that a name finds first: stored properties, then qualified properties.\<close>

definition own_property :: "SchemaClass \<Rightarrow> string \<Rightarrow> Resolved option" where
  "own_property info ident =
     (case find (\<lambda>p. ps_name p = ident) (sc_properties info) of
        Some p \<Rightarrow> Some (resolved_from (ps_ty p) (ps_mult p))
      | None \<Rightarrow>
          (case find (\<lambda>q. qps_name q = ident) (sc_qualified_properties info) of
             Some q \<Rightarrow> Some (resolved_from (qps_return_type q) (qps_return_mult q))
           | None \<Rightarrow> None))"

definition own_step :: "Schema \<Rightarrow> string \<Rightarrow> string \<Rightarrow> Resolved option" where
  "own_step sc path ident =
     map_option (\<lambda>s. ResolvedClass (ns_target s) (ns_mult s)) (find (\<lambda>s. ns_prop s = ident) (nav_steps sc path))"

text \<open>A result with the visited classes: what was found, or nothing.\<close>

fun resolve_in :: "nat \<Rightarrow> Schema \<Rightarrow> string \<Rightarrow> string \<Rightarrow> string list \<Rightarrow> (Resolved option \<times> string list) option"
  and resolve_parents :: "nat \<Rightarrow> Schema \<Rightarrow> string list \<Rightarrow> string \<Rightarrow> string list \<Rightarrow> (Resolved option \<times> string list) option"
  where
  "resolve_in 0 sc path ident visited = None"
| "resolve_in (Suc fuel) sc path ident visited =
     (if path \<in> set visited then Some (None, visited)
      else
        let visited = visited @ [path];
            found =
              (case class_info sc path of
                 None \<Rightarrow> Some (None, visited)
               | Some info \<Rightarrow>
                   (case own_property info ident of
                      Some r \<Rightarrow> Some (Some r, visited)
                    | None \<Rightarrow> resolve_parents fuel sc (sc_super_types info) ident visited))
        in Option.bind found (\<lambda>(r, visited).
             case r of Some r \<Rightarrow> Some (Some r, visited) | None \<Rightarrow> Some (own_step sc path ident, visited)))"
| "resolve_parents fuel sc [] ident visited = Some (None, visited)"
| "resolve_parents fuel sc (parent # parents) ident visited =
     Option.bind (resolve_in fuel sc parent ident visited) (\<lambda>(r, visited).
       case r of Some r \<Rightarrow> Some (Some r, visited) | None \<Rightarrow> resolve_parents fuel sc parents ident visited)"

definition schema_resolve :: "Schema \<Rightarrow> string \<Rightarrow> string \<Rightarrow> Resolved option option" where
  "schema_resolve sc path ident = map_option fst (resolve_in (member_fuel sc) sc path ident [])"

definition resolves_to_class :: "TypeClass \<Rightarrow> Resolved option option \<Rightarrow> bool" where
  "resolves_to_class c r = (case r of Some (Some (ResolvedPrimitive prim _)) \<Rightarrow> prim_class prim = c | _ \<Rightarrow> False)"

definition member_is_numeric :: "Schema \<Rightarrow> string \<Rightarrow> string \<Rightarrow> bool" where
  "member_is_numeric sc path ident = resolves_to_class NumericClass (schema_resolve sc path ident)"

definition member_is_string :: "Schema \<Rightarrow> string \<Rightarrow> string \<Rightarrow> bool" where
  "member_is_string sc path ident = resolves_to_class StrClass (schema_resolve sc path ident)"


section \<open>What a class has\<close>

text \<open>The classes reached through super-types, the class itself included.\<close>

definition super :: "Schema \<Rightarrow> (string \<times> string) set" where
  "super sc = {(c, d). \<exists>info. class_info sc c = Some info \<and> d \<in> set (sc_super_types info)}"

definition own_names :: "Schema \<Rightarrow> string \<Rightarrow> string set" where
  "own_names sc c =
     (case class_info sc c of
        None \<Rightarrow> {}
      | Some info \<Rightarrow> ps_name ` set (sc_properties info) \<union> qps_name ` set (sc_qualified_properties info)) \<union>
     ns_prop ` set (nav_steps sc c)"

text \<open>The classes still to be entered bound the recursion.\<close>

definition unvisited :: "Schema \<Rightarrow> string list \<Rightarrow> nat" where
  "unvisited sc visited = card (fst ` set (schema_classes sc) - set visited)"

lemma unvisited_enter:
  assumes "class_info sc c = Some info" "c \<notin> set visited"
  shows "unvisited sc visited = Suc (unvisited sc (visited @ [c]))"
proof -
  let ?keys = "fst ` set (schema_classes sc)"
  have "(c, info) \<in> set (schema_classes sc)" using assms(1) by (simp add: class_info_def map_of_SomeD)
  then have "c \<in> ?keys - set visited" using assms(2) by (force intro: image_eqI)
  moreover have "?keys - set (visited @ [c]) = (?keys - set visited) - {c}" by auto
  moreover have "finite (?keys - set visited)" by simp
  ultimately show ?thesis unfolding unvisited_def by (simp only: card.remove [of "?keys - set visited" c])
qed

lemma unvisited_mono: "set visited \<subseteq> set visited' \<Longrightarrow> unvisited sc visited' \<le> unvisited sc visited"
  unfolding unvisited_def by (intro card_mono) auto

lemma unvisited_start: "unvisited sc [] < member_fuel sc"
  unfolding unvisited_def member_fuel_def by (simp add: less_Suc_eq_le) (metis card_image_le card_length finite_set le_trans)

text \<open>
  What a walk over super-types leaves behind: the visited classes only grow by classes reached from the start, and a class
  that was entered has its super-types visited.
\<close>

definition walked :: "Schema \<Rightarrow> string set \<Rightarrow> string list \<Rightarrow> string list \<Rightarrow> bool" where
  "walked sc starts visited visited' \<longleftrightarrow> set visited \<subseteq> set visited' \<and> starts \<subseteq> set visited' \<and>
     set visited' - set visited \<subseteq> (super sc)\<^sup>* `` starts \<and>
     (\<forall>c\<in>set visited' - set visited. super sc `` {c} \<subseteq> set visited')"

lemma walked_visited: "c \<in> set visited \<Longrightarrow> walked sc {c} visited visited"
  by (simp add: walked_def)

lemma walked_none: "walked sc {} visited visited"
  by (simp add: walked_def)

lemma walkedD:
  assumes "walked sc starts visited visited'"
  shows "set visited \<subseteq> set visited'" "starts \<subseteq> set visited'" "set visited' - set visited \<subseteq> (super sc)\<^sup>* `` starts"
    "c \<in> set visited' \<Longrightarrow> c \<notin> set visited \<Longrightarrow> super sc `` {c} \<subseteq> set visited'"
proof -
  note w = assms [unfolded walked_def]
  show "set visited \<subseteq> set visited'" using w by (rule conjunct1)
  show "starts \<subseteq> set visited'" using w [THEN conjunct2] by (rule conjunct1)
  show "set visited' - set visited \<subseteq> (super sc)\<^sup>* `` starts" using w [THEN conjunct2, THEN conjunct2] by (rule conjunct1)
  show "super sc `` {c} \<subseteq> set visited'" if "c \<in> set visited'" "c \<notin> set visited"
    using w [THEN conjunct2, THEN conjunct2, THEN conjunct2, THEN bspec, OF DiffI, OF that] .
qed

lemma walked_parents:
  assumes first: "walked sc {p} visited visited1" and rest: "walked sc ps visited1 visited2"
  shows "walked sc (insert p ps) visited visited2"
  unfolding walked_def
proof (intro conjI ballI)
  note f = walkedD [OF first] and r = walkedD [OF rest]
  show "set visited \<subseteq> set visited2" using f(1) r(1) by (rule subset_trans)
  show "insert p ps \<subseteq> set visited2" using f(2) r(1,2) by auto
  show "set visited2 - set visited \<subseteq> (super sc)\<^sup>* `` insert p ps" using f(3) r(3) by auto
  fix c
  assume c: "c \<in> set visited2 - set visited"
  show "super sc `` {c} \<subseteq> set visited2"
  proof (cases "c \<in> set visited1")
    case True
    with c have "super sc `` {c} \<subseteq> set visited1" by (intro f(4)) simp_all
    then show ?thesis using r(1) by (rule subset_trans)
  next
    case False
    with c show ?thesis by (intro r(4)) simp_all
  qed
qed

lemma walked_enter:
  assumes "walked sc (super sc `` {c}) (visited @ [c]) visited'"
  shows "walked sc {c} visited visited'"
proof -
  have below: "(super sc)\<^sup>* `` (super sc `` {c}) \<subseteq> (super sc)\<^sup>* `` {c}"
    by (auto intro: converse_rtrancl_into_rtrancl)
  have "set visited' - set visited \<subseteq> (super sc)\<^sup>* `` {c}"
    using assms below unfolding walked_def by auto
  moreover have "super sc `` {d} \<subseteq> set visited'" if "d \<in> set visited' - set visited" for d
    using assms that unfolding walked_def by (cases "d = c") auto
  ultimately show ?thesis using assms unfolding walked_def by auto
qed

lemma walked_all:
  assumes "walked sc {c} [] visited"
  shows "set visited = (super sc)\<^sup>* `` {c}"
proof
  note w = walkedD [OF assms]
  show "set visited \<subseteq> (super sc)\<^sup>* `` {c}" using w(3) by simp
  have "d \<in> set visited" if "(c, d) \<in> (super sc)\<^sup>*" for d
    using that
  proof (induction rule: rtrancl_induct)
    case base
    show ?case using w(2) by simp
  next
    case (step d e)
    have "super sc `` {d} \<subseteq> set visited" by (rule w(4)) (use step.IH in simp_all)
    then show ?case using step.hyps(2) by (rule subsetD [OF _ ImageI]) simp
  qed
  then show "(super sc)\<^sup>* `` {c} \<subseteq> set visited" by blast
qed

lemma super_Image: "super sc `` {c} = (case class_info sc c of None \<Rightarrow> {} | Some info \<Rightarrow> set (sc_super_types info))"
  by (auto simp: super_def split: option.splits)

lemma collect_exact:
  "unvisited sc (snd st) < fuel \<Longrightarrow> \<exists>names visited. collect_members fuel sc path st = Some (names, visited) \<and>
     walked sc {path} (snd st) visited \<and> set names = set (fst st) \<union> (\<Union>c\<in>set visited - set (snd st). own_names sc c)"
  "unvisited sc (snd st) < fuel \<Longrightarrow> \<exists>names visited. collect_parents fuel sc parents st = Some (names, visited) \<and>
     walked sc (set parents) (snd st) visited \<and> set names = set (fst st) \<union> (\<Union>c\<in>set visited - set (snd st). own_names sc c)"
proof (induction fuel sc path st and fuel sc parents st rule: collect_members_collect_parents.induct)
  case (2 fuel sc path names visited)
  show ?case
  proof (cases "path \<in> set visited")
    case True
    then show ?thesis by (simp add: walked_visited)
  next
    case False
    show ?thesis
    proof (cases "class_info sc path")
      case None
      have "walked sc {path} visited (visited @ [path])"
        by (rule walked_enter) (simp add: super_Image None walked_none)
      moreover have "set (visited @ [path]) - set visited = {path}" using False by auto
      moreover have "own_names sc path = ns_prop ` set (nav_steps sc path)" by (simp add: own_names_def None)
      ultimately show ?thesis using False None by simp
    next
      case (Some info)
      let ?own = "map ps_name (sc_properties info) @ map qps_name (sc_qualified_properties info)"
      have "unvisited sc (visited @ [path]) < fuel" using unvisited_enter [OF Some False] "2.prems" by simp
      then obtain names' visited' where parents:
        "collect_parents fuel sc (sc_super_types info) (names @ ?own, visited @ [path]) = Some (names', visited')"
        "walked sc (set (sc_super_types info)) (visited @ [path]) visited'"
        "set names' = set (names @ ?own) \<union> (\<Union>c\<in>set visited' - set (visited @ [path]). own_names sc c)"
        using "2.IH" [OF False refl Some] by auto
      have walk: "walked sc {path} visited visited'"
        by (rule walked_enter) (use parents(2) Some in \<open>simp add: super_Image\<close>)
      have "path \<in> set visited'" using walkedD(2) [OF walk] by simp
      then have new: "set visited' - set visited = insert path (set visited' - set (visited @ [path]))" using False by auto
      have own: "own_names sc path = set ?own \<union> ns_prop ` set (nav_steps sc path)" by (simp add: own_names_def Some)
      have run: "collect_members (Suc fuel) sc path (names, visited) = Some (names' @ map ns_prop (nav_steps sc path), visited')"
        using False Some parents(1) by simp
      have "set (names' @ map ns_prop (nav_steps sc path)) =
          set names \<union> (\<Union>c\<in>set visited' - set visited. own_names sc c)"
        unfolding new UN_insert own set_append parents(3) set_map by (simp only: Un_ac)
      with run walk show ?thesis unfolding fst_conv snd_conv by blast
    qed
  qed
next
  case (4 fuel sc parent parents st)
  from "4.IH"(1) [OF "4.prems"] obtain names1 visited1 where one:
    "collect_members fuel sc parent st = Some (names1, visited1)" "walked sc {parent} (snd st) visited1"
    "set names1 = set (fst st) \<union> (\<Union>c\<in>set visited1 - set (snd st). own_names sc c)" by auto
  have "unvisited sc visited1 < fuel"
    using unvisited_mono [OF walkedD(1) [OF one(2)]] "4.prems" by (rule le_less_trans)
  then obtain names2 visited2 where two:
    "collect_parents fuel sc parents (names1, visited1) = Some (names2, visited2)" "walked sc (set parents) visited1 visited2"
    "set names2 = set names1 \<union> (\<Union>c\<in>set visited2 - set visited1. own_names sc c)"
    using "4.IH"(2) [OF one(1)] by auto
  have "set visited2 - set (snd st) = (set visited1 - set (snd st)) \<union> (set visited2 - set visited1)"
    using walkedD(1) [OF one(2)] walkedD(1) [OF two(2)] by blast
  then have "set names2 = set (fst st) \<union> (\<Union>c\<in>set visited2 - set (snd st). own_names sc c)"
    unfolding two(3) one(3) by (simp only: UN_Un Un_assoc)
  moreover have "collect_parents fuel sc (parent # parents) st = Some (names2, visited2)" by (simp add: one(1) two(1))
  ultimately show ?case using walked_parents [OF one(2) two(2)] by (intro exI conjI) simp_all
next
  case (3 fuel sc st)
  show ?case by (intro exI [of _ "fst st"] exI [of _ "snd st"]) (simp add: walked_none)
qed simp

text \<open>What a class itself resolves a name to.\<close>

definition declares :: "Schema \<Rightarrow> string \<Rightarrow> string \<Rightarrow> Resolved \<Rightarrow> bool" where
  "declares sc c ident r \<longleftrightarrow>
     (\<exists>info. class_info sc c = Some info \<and> own_property info ident = Some r) \<or> own_step sc c ident = Some r"

lemma find_names: "find (\<lambda>x. f x = ident) xs = None \<longleftrightarrow> ident \<notin> f ` set xs"
  by (auto simp: find_None_iff)

lemma own_property_None:
  "own_property info ident = None \<longleftrightarrow>
     ident \<notin> ps_name ` set (sc_properties info) \<and> ident \<notin> qps_name ` set (sc_qualified_properties info)"
  unfolding find_names [symmetric] own_property_def by (simp split: option.split)

lemma own_resolution:
  "ident \<notin> own_names sc c \<longleftrightarrow>
     (\<forall>info. class_info sc c = Some info \<longrightarrow> own_property info ident = None) \<and> own_step sc c ident = None"
  by (cases "class_info sc c") (simp_all add: own_names_def own_property_None own_step_def find_names)

lemma declares_own: "declares sc c ident r \<Longrightarrow> ident \<in> own_names sc c"
  using own_resolution [of ident sc c] by (auto simp: declares_def)

text \<open>A search either misses, with every class entered searched, or finds what a class reached declares.\<close>

definition searched :: "Schema \<Rightarrow> string set \<Rightarrow> string \<Rightarrow> string list \<Rightarrow> Resolved option \<times> string list \<Rightarrow> bool" where
  "searched sc starts ident visited result =
     (case result of
        (None, visited') \<Rightarrow>
          walked sc starts visited visited' \<and> (\<forall>c\<in>set visited' - set visited. ident \<notin> own_names sc c)
      | (Some r, _) \<Rightarrow> \<exists>c\<in>(super sc)\<^sup>* `` starts. declares sc c ident r)"

lemma searched_wider:
  "searched sc starts ident visited (Some r, v) \<Longrightarrow> (super sc)\<^sup>* `` starts \<subseteq> (super sc)\<^sup>* `` starts' \<Longrightarrow>
     searched sc starts' ident visited' (Some r, v')"
  unfolding searched_def by (simp, blast)

lemma resolve_exact:
  "unvisited sc visited < fuel \<Longrightarrow>
     \<exists>result. resolve_in fuel sc path ident visited = Some result \<and> searched sc {path} ident visited result"
  "unvisited sc visited < fuel \<Longrightarrow>
     \<exists>result. resolve_parents fuel sc parents ident visited = Some result \<and> searched sc (set parents) ident visited result"
proof (induction fuel sc path ident visited and fuel sc parents ident visited rule: resolve_in_resolve_parents.induct)
  case (2 fuel sc path ident visited)
  show ?case
  proof (cases "path \<in> set visited")
    case True
    then show ?thesis by (simp add: searched_def walked_visited)
  next
    case False
    have own: "searched sc {path} ident visited (Some r, v)" if "declares sc path ident r" for r v
      using that by (auto simp: searched_def)
    have miss: "searched sc {path} ident visited (None, visited')"
      if walk: "walked sc (super sc `` {path}) (visited @ [path]) visited'"
        and names: "\<forall>c\<in>set visited' - set (visited @ [path]). ident \<notin> own_names sc c" and own: "ident \<notin> own_names sc path"
      for visited'
    proof -
      have "ident \<notin> own_names sc c" if "c \<in> set visited' - set visited" for c
        using names own that by (cases "c = path") simp_all
      then show ?thesis using walked_enter [OF walk] by (simp add: searched_def)
    qed
    have last: "\<exists>result. Option.bind (Some (None, visited')) (\<lambda>(r, visited). case r of Some r \<Rightarrow> Some (Some r, visited)
          | None \<Rightarrow> Some (own_step sc path ident, visited)) = Some result \<and> searched sc {path} ident visited result"
      if walk: "walked sc (super sc `` {path}) (visited @ [path]) visited'"
        and names: "\<forall>c\<in>set visited' - set (visited @ [path]). ident \<notin> own_names sc c"
        and none: "\<forall>info. class_info sc path = Some info \<longrightarrow> own_property info ident = None" for visited'
    proof (cases "own_step sc path ident")
      case None
      then have "ident \<notin> own_names sc path" using none unfolding own_resolution by simp
      then show ?thesis using miss [OF walk names] None by simp
    next
      case (Some r)
      then show ?thesis using own [of r visited'] by (simp add: declares_def)
    qed
    show ?thesis
    proof (cases "class_info sc path")
      case None
      have "walked sc (super sc `` {path}) (visited @ [path]) (visited @ [path])"
        by (simp add: super_Image None walked_none)
      then have "\<exists>result. Option.bind (Some (None, visited @ [path])) (\<lambda>(r, visited). case r of Some r \<Rightarrow> Some (Some r, visited)
          | None \<Rightarrow> Some (own_step sc path ident, visited)) = Some result \<and> searched sc {path} ident visited result"
        by (rule last) (simp_all add: None)
      then show ?thesis using False None by simp
    next
      case (Some info)
      show ?thesis
      proof (cases "own_property info ident")
        case None
        have "unvisited sc (visited @ [path]) < fuel" using unvisited_enter [OF Some False] "2.prems" by simp
        then obtain r visited' where parents:
          "resolve_parents fuel sc (sc_super_types info) ident (visited @ [path]) = Some (r, visited')"
          "searched sc (set (sc_super_types info)) ident (visited @ [path]) (r, visited')"
          using "2.IH" [OF False refl Some None] by auto
        have image: "set (sc_super_types info) = super sc `` {path}" by (simp add: super_Image Some)
        show ?thesis
        proof (cases r)
          case (Some x)
          have "(super sc)\<^sup>* `` (super sc `` {path}) \<subseteq> (super sc)\<^sup>* `` {path}"
            by (auto intro: converse_rtrancl_into_rtrancl)
          then have "searched sc {path} ident visited (Some x, visited')"
            using parents(2) unfolding image Some by (rule searched_wider [rotated])
          then show ?thesis using False \<open>class_info sc path = Some info\<close> None parents(1) Some by simp
        next
          case r: None
          have "\<exists>result. Option.bind (Some (None, visited')) (\<lambda>(r, visited). case r of Some r \<Rightarrow> Some (Some r, visited)
              | None \<Rightarrow> Some (own_step sc path ident, visited)) = Some result \<and> searched sc {path} ident visited result"
            by (rule last) (use parents(2) Some None r image in \<open>simp_all add: searched_def\<close>)
          then show ?thesis using False Some None parents(1) r by simp
        qed
      next
        case (Some r)
        then show ?thesis using False \<open>class_info sc path = Some info\<close> own [of r] by (simp add: declares_def)
      qed
    qed
  qed
next
  case (4 fuel sc parent parents ident visited)
  from "4.IH"(1) [OF "4.prems"] obtain r visited1 where one:
    "resolve_in fuel sc parent ident visited = Some (r, visited1)" "searched sc {parent} ident visited (r, visited1)" by auto
  have wider: "(super sc)\<^sup>* `` {parent} \<subseteq> (super sc)\<^sup>* `` set (parent # parents)"
    "(super sc)\<^sup>* `` set parents \<subseteq> (super sc)\<^sup>* `` set (parent # parents)" by auto
  show ?case
  proof (cases r)
    case (Some x)
    then show ?thesis using one searched_wider [OF one(2) [unfolded Some] wider(1)] by simp
  next
    case None
    have walk: "walked sc {parent} visited visited1" and names: "\<forall>c\<in>set visited1 - set visited. ident \<notin> own_names sc c"
      using one(2) by (simp_all add: searched_def None)
    have "unvisited sc visited1 < fuel" using unvisited_mono [OF walkedD(1) [OF walk]] "4.prems" by (rule le_less_trans)
    then obtain r2 visited2 where two: "resolve_parents fuel sc parents ident visited1 = Some (r2, visited2)"
      "searched sc (set parents) ident visited1 (r2, visited2)"
      using "4.IH"(2) [OF one(1) refl None] by auto
    have run: "resolve_parents fuel sc (parent # parents) ident visited = Some (r2, visited2)"
      by (simp add: one(1) None two(1))
    have "searched sc (set (parent # parents)) ident visited (r2, visited2)"
    proof (cases r2)
      case (Some x)
      then show ?thesis using searched_wider [OF two(2) [unfolded Some] wider(2)] by simp
    next
      case r2: None
      have walk2: "walked sc (set parents) visited1 visited2"
        and names2: "\<forall>c\<in>set visited2 - set visited1. ident \<notin> own_names sc c"
        using two(2) by (simp_all add: searched_def r2)
      have "ident \<notin> own_names sc c" if "c \<in> set visited2 - set visited" for c
        using names names2 that by (cases "c \<in> set visited1") simp_all
      then show ?thesis using walked_parents [OF walk walk2] by (simp add: searched_def r2)
    qed
    with run show ?thesis by blast
  qed
qed (simp_all add: searched_def walked_none)


section \<open>Members are what the contract declares\<close>

lemma push_step_get:
  "(case push_step key s nav c of Some xs \<Rightarrow> xs | None \<Rightarrow> []) =
     (case nav c of Some xs \<Rightarrow> xs | None \<Rightarrow> []) @ (if key = c then [s] else [])"
  by (simp add: push_step_def split: option.split)

text \<open>The steps from a class go to the opposite ends of the associations that have it at one end, in declared order.\<close>

definition opposite_ends :: "SchemaData \<Rightarrow> string \<Rightarrow> AssociationEnd list" where
  "opposite_ends d c = concat (map (\<lambda>assoc. case as_ends assoc of (e0, e1) \<Rightarrow>
     (if ae_target_class e0 = c then [e1] else []) @ (if ae_target_class e1 = c then [e0] else [])) (sd_associations d))"

lemma nav_steps_opposite: "nav_steps (schema_from_data d) c = map step_to (opposite_ends d c)"
proof -
  let ?add = "\<lambda>assoc nav. case as_ends assoc of (e0, e1) \<Rightarrow>
     push_step (ae_target_class e1) (step_to e0) (push_step (ae_target_class e0) (step_to e1) nav)"
  let ?opp = "\<lambda>assoc. case as_ends assoc of (e0, e1) \<Rightarrow>
     (if ae_target_class e0 = c then [e1] else []) @ (if ae_target_class e1 = c then [e0] else [])"
  have "(case fold ?add assocs nav c of Some xs \<Rightarrow> xs | None \<Rightarrow> []) =
      (case nav c of Some xs \<Rightarrow> xs | None \<Rightarrow> []) @ map step_to (concat (map ?opp assocs))" for assocs nav
  proof (induction assocs arbitrary: nav)
    case (Cons assoc assocs)
    obtain e0 e1 where "as_ends assoc = (e0, e1)" by fastforce
    then show ?case using Cons.IH by (simp add: push_step_get)
  qed simp
  from this [of "sd_associations d" Map.empty] show ?thesis
    by (simp add: nav_steps_def schema_from_data_def build_navigable_def opposite_ends_def)
qed

definition declared_names :: "SchemaData \<Rightarrow> string \<Rightarrow> string set" where
  "declared_names d c =
     (case map_of (sd_classes d) c of
        None \<Rightarrow> {}
      | Some info \<Rightarrow> ps_name ` set (sc_properties info) \<union> qps_name ` set (sc_qualified_properties info)) \<union>
     ae_property_name ` set (opposite_ends d c)"

lemma own_names_declared: "own_names (schema_from_data d) c = declared_names d c"
proof -
  have "ns_prop ` set (map step_to es) = ae_property_name ` set es" for es
    by (simp add: image_image step_to_def)
  then show ?thesis
    unfolding own_names_def declared_names_def nav_steps_opposite by (simp add: class_info_def schema_from_data_def)
qed

text \<open>C38: Member collection and member resolution of a schema always return, however its super-types are linked, and agree: a
  name resolves exactly if it is a member name, and the member names of a class are the stored and qualified properties of
  the class and of every class it reaches through super-types, together with the association ends at the other side of
  those classes. What a name resolves to is declared by one of those classes.\<close>

theorem schema_members_exact:
  "\<exists>names r. member_names (schema_from_data d) c = Some names \<and> schema_resolve (schema_from_data d) c ident = Some r \<and>
     set names = (\<Union>c'\<in>(super (schema_from_data d))\<^sup>* `` {c}. declared_names d c') \<and> (r \<noteq> None \<longleftrightarrow> ident \<in> set names) \<and>
     (case r of None \<Rightarrow> True
      | Some found \<Rightarrow> \<exists>c'\<in>(super (schema_from_data d))\<^sup>* `` {c}. declares (schema_from_data d) c' ident found)"
proof -
  let ?sc = "schema_from_data d"
  have enough: "unvisited ?sc (snd ([], [])) < member_fuel ?sc" "unvisited ?sc [] < member_fuel ?sc"
    using unvisited_start by simp_all
  from collect_exact(1) [OF enough(1), of c] obtain names visited where names:
    "collect_members (member_fuel ?sc) ?sc c ([], []) = Some (names, visited)" "walked ?sc {c} [] visited"
    "set names = (\<Union>c'\<in>set visited. own_names ?sc c')" by auto
  have all: "set names = (\<Union>c'\<in>(super ?sc)\<^sup>* `` {c}. own_names ?sc c')"
    unfolding names(3) walked_all [OF names(2)] ..
  from resolve_exact(1) [OF enough(2), of c ident] obtain r visited' where r:
    "resolve_in (member_fuel ?sc) ?sc c ident [] = Some (r, visited')" "searched ?sc {c} ident [] (r, visited')" by auto
  have "(r \<noteq> None \<longleftrightarrow> ident \<in> set names) \<and>
      (case r of None \<Rightarrow> True | Some found \<Rightarrow> \<exists>c'\<in>(super ?sc)\<^sup>* `` {c}. declares ?sc c' ident found)"
  proof (cases r)
    case None
    then have "walked ?sc {c} [] visited'" "\<forall>c'\<in>set visited'. ident \<notin> own_names ?sc c'"
      using r(2) by (simp_all add: searched_def)
    then show ?thesis unfolding all using walked_all None by simp
  next
    case (Some found)
    then obtain c' where "c' \<in> (super ?sc)\<^sup>* `` {c}" "declares ?sc c' ident found"
      using r(2) by (auto simp: searched_def)
    then have "ident \<in> (\<Union>c'\<in>(super ?sc)\<^sup>* `` {c}. own_names ?sc c')" using declares_own by (intro UN_I) simp_all
    then show ?thesis unfolding all using Some \<open>c' \<in> _\<close> \<open>declares ?sc c' ident found\<close> by auto
  qed
  then show ?thesis
    using names(1) r(1) all by (simp add: member_names_def schema_resolve_def own_names_declared)
qed

end
