(* ===== verification/Spec2Isabelle.thy ===== *)
theory Spec2Isabelle
  imports QueryParser DomainProperties FixPlanProperties DecoderProperties LspScenarios LspFrame RelationalScenarios ResolverScenarios
    ModelScenarios NameTrie SchemaModel
begin

text \<open>
  A verification development for pure-analyzer, a static analyzer for the Pure query and model language (Rust, under
  \<^verbatim>\<open>src/crates\<close>).

  \<^bold>\<open>The program.\<close> The lexer (\<^verbatim>\<open>pure-analyzer-lexer\<close>) turns a source into tokens. The parsers
  (\<^verbatim>\<open>pure-analyzer-parser\<close>: queries in \<^verbatim>\<open>m3.rs\<close>, model files in \<^verbatim>\<open>domain.rs\<close>) turn the tokens into a flat list of tree
  events and a list of diagnostics, and the builder of \<^verbatim>\<open>pure-analyzer-syntax\<close> folds events and tokens into an immutable
  lossless syntax tree. The model loader (\<^verbatim>\<open>pure-analyzer-model\<close>) merges compiled JSON documents and lowered Pure sources
  into one graph of classes and associations, which name resolution (\<^verbatim>\<open>pure-analyzer-resolve\<close>) queries. The analysis
  (\<^verbatim>\<open>pure-analyzer-analysis\<close>) lowers queries to relational expressions, normalizes them and compares them. Findings are
  diagnostics, some with structured fixes (\<^verbatim>\<open>pure-analyzer-diagnostics\<close>), which the command line and the language server
  (\<^verbatim>\<open>pure-analyzer-lsp\<close>) present and apply through fix plans. \<^verbatim>\<open>purecard\<close> is a separate product: constrained decoding, which
  masks the tokens a language model may emit next by a byte automaton of the same language.

  \<^bold>\<open>Shared theories.\<close>
  \<^item> \<open>Prelude\<close>: byte strings and character boundaries, text ranges, the Rust \<^verbatim>\<open>loop\<close> as a partial function, the
    total-correctness predicate \<open>returns\<close>, and the registry locale \<open>code_registry\<close>.
  \<^item> \<open>OrderedMap\<close>: \<^verbatim>\<open>BTreeMap\<close> as an association list with increasing keys behind the locale \<open>ordered_map\<close>, and \<^verbatim>\<open>for\<close> loops
    that stop at the first error. \<open>Decimals\<close>: printed numbers. \<open>Json\<close>: the values of \<^verbatim>\<open>serde_json\<close>.
  \<^item> \<open>Diagnostics\<close> (\<^verbatim>\<open>diagnostics/src\<close>): file identities, the closed registries of diagnostic and reason codes with their
    identifiers, labels, fixes and diagnostics.

  \<^bold>\<open>Syntax.\<close>
  \<^item> \<open>Tokens\<close>, \<open>SyntaxKinds\<close> (\<^verbatim>\<open>lexer/src/lib.rs\<close>, \<^verbatim>\<open>syntax/src/kind.rs\<close>): token and node kinds, their raw numbering, and the
    lexer's own code around the generated automaton.
  \<^item> \<open>GreenTree\<close>, \<open>TreeBuilder\<close> (\<^verbatim>\<open>green.rs\<close>, \<^verbatim>\<open>builder.rs\<close>): the tree with its token iterator, and the builder with its
    validation and its fold. The builder accepts exactly well-formed event streams over tiling tokens.
  \<^item> \<open>EventStream\<close>: the query parser's linked event arena, which refines a list with insertion.
  \<^item> \<open>ParserCursor\<close>, \<open>ParseRules\<close>: the lookahead functions both parsers share, the relation \<open>trace\<close> between tokens passed,
    events emitted and diagnostics reported, and the locales for symbolic execution of grammar functions.
  \<^item> \<open>M3Parser\<close>, \<open>M3Grammar\<close>, \<open>M3Lossless\<close>, \<open>QueryParser\<close> (\<^verbatim>\<open>m3.rs\<close>) and \<open>DomainParser\<close>, \<open>DomainGrammar\<close>, \<open>DomainLossless\<close>,
    \<open>DomainProperties\<close> (\<^verbatim>\<open>domain.rs\<close>): the two parsers, function by function. Both return on every input, consume every token
    and build a lossless tree, and their diagnostics and coverage gaps are ordered, complete and inside the source. A grammar
    function takes its recursive call as an argument; \<open>m3_run\<close> ties the knot with fuel, and \<open>m3_fuel\<close>, two units for each of
    the 256 nesting levels, is proved to be enough for every input.
  \<^item> \<open>FixPlan\<close>, \<open>FixPlanProperties\<close> (\<^verbatim>\<open>fix_plan.rs\<close>): selection, validation and application of fixes, with the left-to-right
    splice as the abstract specification of application.

  \<^bold>\<open>Models.\<close>
  \<^item> \<open>ModelTypes\<close> (\<^verbatim>\<open>types.rs\<close>): names, multiplicities, types, classes and the model graph. \<open>ModelFragments\<close> (\<^verbatim>\<open>error.rs\<close>,
    \<^verbatim>\<open>stereotypes.rs\<close>): the failures of loading with the texts that reach diagnostics, and what one source contributes.
  \<^item> \<open>PureLowering\<close>, \<open>PureLoweringProperties\<close> (\<^verbatim>\<open>pure.rs\<close>): the tree of a Pure source is lowered to confirmed facts; a class
    without a coverage gap was read completely and nothing at the top level of its source is in doubt.
  \<^item> \<open>ModelLoader\<close>, \<open>ModelLoaderProperties\<close>, \<open>MergedModels\<close>, \<open>LoadedModels\<close>, \<open>LoadedModelProperties\<close> (\<^verbatim>\<open>loader.rs\<close>, \<^verbatim>\<open>raw.rs\<close>):
    records of compiled models, associations with their preflight, merging and the entry points. Later sources win,
    materialization is exact, every loaded graph is consistent and safe for the resolver, and Pure sources always load.
    \<open>ModelScenarios\<close> loads concrete documents.
  \<^item> \<open>Resolver\<close>, \<open>ResolverProperties\<close> (\<^verbatim>\<open>resolve/src/lib.rs\<close>): hierarchies are validated exactly, their levels are the
    classes by distance, and a member resolves to its nearest declaration. \<open>Navigation\<close>, \<open>NavigationProperties\<close>
    (\<^verbatim>\<open>local.rs\<close>): lexical scopes and navigation chains. \<open>ResolverScenarios\<close> has concrete graphs.

  \<^bold>\<open>Relational analysis.\<close>
  \<^item> \<open>Relational\<close> (\<^verbatim>\<open>relational.rs\<close>): the typed representation with the validation of every constructor.
  \<^item> \<open>Normalizer\<close>, \<open>NormalForms\<close> (\<^verbatim>\<open>normalizer.rs\<close>): the traversal with its budgets, and the reference rewriting that it
    computes, idempotent and within exactly stated budgets.
  \<^item> \<open>RelationalSemantics\<close>, \<open>KeyEncoding\<close>: the meaning of expressions under an interpretation, and the unique decodability of
    the keys. \<open>Comparison\<close>, \<open>ComparisonProperties\<close> (\<^verbatim>\<open>comparison.rs\<close>): a commitment to equivalence or to a difference is
    sound, and the outcome is symmetric. \<open>RelationalScenarios\<close> has concrete queries and an interpretation.

  \<^bold>\<open>Language server.\<close>
  \<^item> \<open>LspDocument\<close>, \<open>LspPositions\<close>, \<open>LspStore\<close> (\<^verbatim>\<open>document.rs\<close>): the document store, the bijection of byte offsets and
    protocol positions, and the histories of the store.
  \<^item> \<open>LspFrame\<close> (\<^verbatim>\<open>frame.rs\<close>): frames are read back as written. \<open>LspProtocol\<close>: outgoing messages and parameters.
  \<^item> \<open>LspServer\<close>, \<open>LspHandlers\<close>, \<open>LspCoordinator\<close>, \<open>LspSessions\<close>: cancellation, scheduling, dispatch and the event loop as a
    step relation over all interleavings of reader, workers and loop: each request is answered once, committed answers are
    current, cancelled requests get no result, and sessions end. \<open>LspScenarios\<close> has an executable scheduler.

  \<^bold>\<open>Constrained decoding.\<close>
  \<^item> \<open>BitMask\<close> (\<^verbatim>\<open>mask.rs\<close>): 64-bit words that refine a set of token ids.
  \<^item> \<open>Pushdown\<close>, \<open>FixedPda\<close>, \<open>PdaProperties\<close> (\<^verbatim>\<open>grammar/pda.rs\<close>): the driver behind the locale \<open>pushdown\<close>, and the fixed automaton.
  \<^item> \<open>GrammarSpec\<close>, \<open>GotoCheck\<close>, \<open>SpecCompile\<close>, \<open>SpecProperties\<close> (\<^verbatim>\<open>grammar/spec.rs\<close>, \<^verbatim>\<open>grammar/compile.rs\<close>): declarative
    grammars, their checks and their compilation; compiled configurations stay in range and \<^verbatim>\<open>Goto\<close> chains resolve.
  \<^item> \<open>Decoder\<close>, \<open>DecoderProperties\<close> (\<^verbatim>\<open>compiled.rs\<close>, \<^verbatim>\<open>session.rs\<close>): for the fixed automaton the published mask is exactly the
    set of accepted tokens, and complete streams are balanced.
  \<^item> \<open>NameTrie\<close> (\<^verbatim>\<open>schema/trie.rs\<close>): a walk decides exactly whether bytes are a prefix of a legal name or a name at a boundary,
    however they are split into tokens. \<open>SchemaModel\<close> (\<^verbatim>\<open>schema/model.rs\<close>): member collection and member resolution return
    on every schema and agree with what the classes and associations declare.

  \<^bold>\<open>Conventions and bounds.\<close> A Rust panic is modelled as \<open>None\<close> or shown not to occur, an error result is \<open>Inl\<close>, a loop that
  does not return is \<open>None\<close>. \<^verbatim>\<open>usize\<close> counters are natural numbers bounded by the length of an in-memory vector; identifiers
  of 32 bits (sources, classes, trie nodes) stay below \<open>2 ^ 32\<close>, which the code checks for sources and classes. Normalization
  has the budgets of the code, for steps and depth, and the resolver its limits on depth and on visited classes. Recursion
  over the super-types of a schema has one more unit of fuel than there are classes, which is proved to be enough. Messages
  of diagnostics are kept as text.

  \<^bold>\<open>Parameters.\<close> The generated automaton of the \<^verbatim>\<open>logos\<close> crate; the hypothesis \<open>logos_covers\<close> is its documented behaviour: its
  spans are non-empty, adjacent, cover the text and lie on character boundaries. JSON text and derived deserialization of
  \<^verbatim>\<open>serde\<close>. The file system. The analysis calls of the language server. The rows and values of an interpretation.

  \<^bold>\<open>Not modelled.\<close> The typed syntax accessors and the passes over them (lowering of queries, lints, formatting, validation,
  column selectors), the library driver, and the scope machine with the narrowing of masks by a schema
  (\<^verbatim>\<open>schema/scope.rs\<close>, \<^verbatim>\<open>schema/narrow.rs\<close>): the next parts, in this order. Static texts of explanations, the renderers, the
  command line, the Python bindings and the repository's own tasks are formatting or input and output. Serialization and
  \<^verbatim>\<open>Debug\<close> formatting are left out throughout.
\<close>

end
